(* ===== verification/HAL_Prelude.thy ===== *)
theory HAL_Prelude
  imports Main "HOL-Library.Word" "HOL-Library.State_Monad"
begin

text \<open>
  The prelude of the development: status codes and pointers, the state monad in which the
  member functions of the HAL are written, a weakest-precondition calculus for it, and the
  preservation predicate with its composition rules. Every component imports it.
\<close>

section \<open>Status codes and pointers\<close>

text \<open>
  Status codes are the \<open>int32_t\<close> values of Android's \<open>utils/Errors.h\<close>; the code only
  compares them and passes them on, so they are kept as \<^typ>\<open>int\<close>.
\<close>

abbreviation NO_ERROR :: int where "NO_ERROR \<equiv> 0"
abbreviation UNKNOWN_ERROR :: int where "UNKNOWN_ERROR \<equiv> - 2147483648"
abbreviation NO_MEMORY :: int where "NO_MEMORY \<equiv> - 12"
abbreviation INVALID_OPERATION :: int where "INVALID_OPERATION \<equiv> - 38"
abbreviation BAD_VALUE :: int where "BAD_VALUE \<equiv> - 22"
abbreviation NO_INIT :: int where "NO_INIT \<equiv> - 19"
abbreviation DEAD_OBJECT :: int where "DEAD_OBJECT \<equiv> - 32"

text \<open>A C pointer: \<^term>\<open>None\<close> is \<open>NULL\<close>.\<close>

type_synonym ptr = "nat option"

section \<open>The state monad\<close>

text \<open>
  A member function with the object's state \<open>'s\<close> and result \<open>'a\<close> is a value of
  \<^typ>\<open>('s, 'a) state\<close>; do-notation sequences the calls in the source's order.
\<close>

abbreviation ret :: "'a \<Rightarrow> ('s, 'a) state" where
  "ret \<equiv> State_Monad.return"

definition gets :: "('s \<Rightarrow> 'a) \<Rightarrow> ('s, 'a) state" where
  "gets f = State (\<lambda>s. (f s, s))"

definition modify :: "('s \<Rightarrow> 's) \<Rightarrow> ('s, unit) state" where
  "modify f = State (\<lambda>s. ((), f s))"

definition when_do :: "bool \<Rightarrow> ('s, unit) state \<Rightarrow> ('s, unit) state" where
  "when_do b m = (if b then m else ret ())"

text \<open>A loop over a list, in order.\<close>

fun for_each :: "('c \<Rightarrow> ('s, unit) state) \<Rightarrow> 'c list \<Rightarrow> ('s, unit) state" where
  "for_each f [] = ret ()"
| "for_each f (x # xs) = do { f x; for_each f xs }"

lemma run_state_gets [simp]: "run_state (gets f) s = (f s, s)"
  by (simp add: gets_def)

lemma run_state_modify [simp]: "run_state (modify f) s = ((), f s)"
  by (simp add: modify_def)

lemma run_state_when_do [simp]:
  "run_state (when_do b m) s = (if b then run_state m s else ((), s))"
  by (simp add: when_do_def)

section \<open>Weakest preconditions\<close>

named_theorems wp_simps "weakest preconditions of the monad's constructors"
named_theorems wp_intros "weakest-precondition rules of operations known by contract"

definition wp :: "('s, 'a) state \<Rightarrow> ('a \<Rightarrow> 's \<Rightarrow> bool) \<Rightarrow> 's \<Rightarrow> bool" where
  "wp m Q s = (case run_state m s of (a, s') \<Rightarrow> Q a s')"

lemma wpD: "wp m Q s \<Longrightarrow> run_state m s = (a, s') \<Longrightarrow> Q a s'"
  by (simp add: wp_def)

lemma wpI: "(\<And>a s'. run_state m s = (a, s') \<Longrightarrow> Q a s') \<Longrightarrow> wp m Q s"
  by (auto simp: wp_def split: prod.split)

lemma wp_run: "wp m Q s \<longleftrightarrow> Q (fst (run_state m s)) (snd (run_state m s))"
  by (simp add: wp_def split_beta)

lemma wp_mono: "wp m Q s \<Longrightarrow> (\<And>a s'. Q a s' \<Longrightarrow> R a s') \<Longrightarrow> wp m R s"
  by (auto simp: wp_def split: prod.splits)

lemma wp_conj: "wp m Q s \<Longrightarrow> wp m R s \<Longrightarrow> wp m (\<lambda>a s'. Q a s' \<and> R a s') s"
  by (simp add: wp_run)

lemma wp_return [wp_simps]: "wp (ret x) Q s = Q x s"
  by (simp add: wp_def)

lemma wp_bind [wp_simps]: "wp (m \<bind> f) Q s = wp m (\<lambda>a. wp (f a) Q) s"
  by (simp add: wp_def split: prod.split)

text \<open>Sequencing by contract: from the first part only \<open>R\<close> is used, or nothing at all.\<close>

lemma wp_seq: "wp m R s \<Longrightarrow> (\<And>a s'. R a s' \<Longrightarrow> wp (f a) Q s') \<Longrightarrow> wp (m \<bind> f) Q s"
  by (simp add: wp_bind wp_run split_beta)

lemma wp_any: "(\<And>a s'. wp (f a) Q s') \<Longrightarrow> wp (m \<bind> f) Q s"
  by (simp add: wp_bind wp_run split_beta)

lemma wp_gets [wp_simps]: "wp (gets f) Q s = Q (f s) s"
  by (simp add: wp_def)

lemma wp_modify [wp_simps]: "wp (modify f) Q s = Q () (f s)"
  by (simp add: wp_def)

lemma wp_when [wp_simps]: "wp (when_do b m) Q s = (if b then wp m Q s else Q () s)"
  by (simp add: wp_def)

lemma wp_if [wp_simps]:
  "wp (if b then m else n) Q s = (if b then wp m Q s else wp n Q s)"
  by simp

lemma wp_ifI:
  "(b \<Longrightarrow> wp m Q s) \<Longrightarrow> (\<not> b \<Longrightarrow> wp n Q s) \<Longrightarrow> wp (if b then m else n) Q s"
  by simp

lemma wp_case_option [wp_simps]:
  "wp (case x of None \<Rightarrow> m | Some y \<Rightarrow> f y) Q s =
     (case x of None \<Rightarrow> wp m Q s | Some y \<Rightarrow> wp (f y) Q s)"
  by (cases x) simp_all

lemma wp_case_prod [wp_simps]:
  "wp (case p of (a, b) \<Rightarrow> f a b) Q s = (case p of (a, b) \<Rightarrow> wp (f a b) Q s)"
  by (cases p) simp

lemma wp_Let [wp_simps]: "wp (Let x f) Q s = (let y = x in wp (f y) Q s)"
  by simp

section \<open>Preservation\<close>

text \<open>
  \<open>pres P m\<close>: the operation \<open>m\<close> keeps the predicate \<open>P\<close> of the state. \<open>keeps f m\<close>: it does not
  change the observation \<open>f\<close>. The rules in \<open>pres_intros\<close> follow the structure of \<open>m\<close>.
\<close>

named_theorems pres_intros "preservation along the monad's constructors"
named_theorems keeps_ops "operations that keep the state machine's view"

definition pres :: "('s \<Rightarrow> bool) \<Rightarrow> ('s, 'a) state \<Rightarrow> bool" where
  "pres P m \<longleftrightarrow> (\<forall>s. P s \<longrightarrow> P (snd (run_state m s)))"

definition keeps :: "('s \<Rightarrow> 'b) \<Rightarrow> ('s, 'a) state \<Rightarrow> bool" where
  "keeps f m \<longleftrightarrow> (\<forall>s. f (snd (run_state m s)) = f s)"

lemma presD: "pres P m \<Longrightarrow> P s \<Longrightarrow> P (snd (run_state m s))"
  by (simp add: pres_def)

lemma pres_wp: "pres P m \<longleftrightarrow> (\<forall>s. P s \<longrightarrow> wp m (\<lambda>_. P) s)"
  by (simp add: pres_def wp_run)

lemma keepsD: "keeps f m \<Longrightarrow> f (snd (run_state m s)) = f s"
  by (simp add: keeps_def)

lemma wp_keepsI:
  "keeps f m \<Longrightarrow> (\<And>a s'. f s' = f s \<Longrightarrow> Q a s') \<Longrightarrow> wp m Q s"
  by (auto simp: wp_run keeps_def)

lemma wp_keeps_seq:
  "keeps g m \<Longrightarrow> (\<And>a s'. g s' = g s \<Longrightarrow> wp (f a) Q s') \<Longrightarrow> wp (m \<bind> f) Q s"
  by (simp add: wp_bind wp_run keeps_def split_beta)

lemma keeps_wp: "keeps f m \<Longrightarrow> wp m (\<lambda>_ s'. f s' = f s) s"
  by (simp add: wp_run keeps_def)

lemma keeps_return [pres_intros]: "keeps f (ret x)"
  by (simp add: keeps_def)

lemma keeps_bind [pres_intros]:
  "keeps f m \<Longrightarrow> (\<And>a. keeps f (g a)) \<Longrightarrow> keeps f (m \<bind> g)"
  by (simp add: keeps_def split: prod.split) (metis snd_conv)

lemma keeps_gets [pres_intros]: "keeps f (gets g)"
  by (simp add: keeps_def)

lemma keeps_modify [pres_intros]: "(\<And>s. f (u s) = f s) \<Longrightarrow> keeps f (modify u)"
  by (simp add: keeps_def)

lemma keeps_when [pres_intros]: "(b \<Longrightarrow> keeps f m) \<Longrightarrow> keeps f (when_do b m)"
  by (simp add: keeps_def)

lemma keeps_if [pres_intros]:
  "(b \<Longrightarrow> keeps f m) \<Longrightarrow> (\<not> b \<Longrightarrow> keeps f n) \<Longrightarrow> keeps f (if b then m else n)"
  by simp

lemma keeps_case_option [pres_intros]:
  "keeps f m \<Longrightarrow> (\<And>y. keeps f (g y)) \<Longrightarrow>
   keeps f (case x of None \<Rightarrow> m | Some y \<Rightarrow> g y)"
  by (cases x) simp_all

lemma keeps_case_prod [pres_intros]:
  "(\<And>a b. keeps f (g a b)) \<Longrightarrow> keeps f (case p of (a, b) \<Rightarrow> g a b)"
  by (cases p) simp

lemma keeps_Let [pres_intros]: "keeps f (g x) \<Longrightarrow> keeps f (Let x g)"
  by simp

lemma keeps_for_each [pres_intros]: "(\<And>x. keeps f (m x)) \<Longrightarrow> keeps f (for_each m xs)"
  by (induction xs) (auto intro: keeps_return keeps_bind)

lemma keeps_comp: "keeps f m \<Longrightarrow> keeps (\<lambda>s. g (f s)) m"
  by (simp add: keeps_def)

lemma keeps_pair: "keeps f m \<Longrightarrow> keeps g m \<Longrightarrow> keeps (\<lambda>s. (f s, g s)) m"
  by (simp add: keeps_def)

lemma pres_return [pres_intros]: "pres P (ret x)"
  by (simp add: pres_def)

lemma pres_bind [pres_intros]:
  "pres P m \<Longrightarrow> (\<And>a. pres P (g a)) \<Longrightarrow> pres P (m \<bind> g)"
  by (simp add: pres_def split: prod.split) (metis snd_conv)

lemma pres_gets [pres_intros]: "pres P (gets g)"
  by (simp add: pres_def)

lemma pres_modify [pres_intros]: "(\<And>s. P s \<Longrightarrow> P (u s)) \<Longrightarrow> pres P (modify u)"
  by (simp add: pres_def)

lemma pres_when [pres_intros]: "(b \<Longrightarrow> pres P m) \<Longrightarrow> pres P (when_do b m)"
  by (simp add: pres_def)

lemma pres_if [pres_intros]:
  "(b \<Longrightarrow> pres P m) \<Longrightarrow> (\<not> b \<Longrightarrow> pres P n) \<Longrightarrow> pres P (if b then m else n)"
  by simp

lemma pres_case_option [pres_intros]:
  "pres P m \<Longrightarrow> (\<And>y. pres P (g y)) \<Longrightarrow>
   pres P (case x of None \<Rightarrow> m | Some y \<Rightarrow> g y)"
  by (cases x) simp_all

lemma pres_Let [pres_intros]: "pres P (g x) \<Longrightarrow> pres P (Let x g)"
  by simp

lemma keeps_pres: "keeps f m \<Longrightarrow> (\<And>s s'. f s' = f s \<Longrightarrow> P s \<Longrightarrow> P s') \<Longrightarrow> pres P m"
  by (metis keeps_def pres_def)

section \<open>Lists\<close>

lemma count_list_append1: "count_list (xs @ [x]) y = count_list xs y + (if x = y then 1 else 0)"
  by simp

lemma count_list_pos: "x \<in> set xs \<Longrightarrow> 0 < count_list xs x"
  by (induction xs) auto

end
