(* ===== verification/Loc_Heap.thy ===== *)
theory Loc_Heap
  imports HAL_Prelude "HOL-Library.Multiset"
begin

text \<open>
  The heap of the location utilities (\<open>src/gps/utils/LocHeap.cpp\<close>): a binary tree sorted by rank from
  the top down, whose nodes count their subtrees, and whose pushes go into the smaller subtree. The
  objects are pointers; how they rank is the interface of the class \<open>LocRankable\<close>, a locale below.
\<close>

section \<open>The tree\<close>

text \<open>A node has the count of the nodes of its subtree, itself included; \<open>Null\<close> is no node.\<close>

datatype 'a heap = Null | HeapNode (mSize: int) (mData: 'a) (mLeft: "'a heap") (mRight: "'a heap")

fun nodes :: "'a heap \<Rightarrow> nat" where
  "nodes Null = 0"
| "nodes (HeapNode n x l r) = Suc (nodes l + nodes r)"

fun objects :: "'a heap \<Rightarrow> 'a multiset" where
  "objects Null = {#}"
| "objects (HeapNode n x l r) = add_mset x (objects l + objects r)"

text \<open>The new node keeps or takes the lower object and drops into a subtree.\<close>

fun heap_push :: "('a \<Rightarrow> 'a \<Rightarrow> bool) \<Rightarrow> 'a \<Rightarrow> 'a heap \<Rightarrow> 'a heap" where
  "heap_push out x Null = HeapNode 1 x Null Null"
| "heap_push out x (HeapNode n y l r) =
     (let top = (if out x y then x else y); low = (if out x y then y else x)
      in if l = Null then HeapNode (n + 1) top (HeapNode 1 low Null Null) r
         else if r = Null then HeapNode (n + 1) top l (HeapNode 1 low Null Null)
         else if mSize l \<le> mSize r then HeapNode (n + 1) top (heap_push out low l) r
         else HeapNode (n + 1) top l (heap_push out low r))"

definition with_data :: "'a \<Rightarrow> 'a heap \<Rightarrow> 'a heap" where
  "with_data x t = (case t of Null \<Rightarrow> Null | HeapNode n _ l r \<Rightarrow> HeapNode n x l r)"

lemma nodes_with_data [simp]: "nodes (with_data x t) = nodes t"
  by (simp add: with_data_def split: heap.split)

text \<open>
  The top's object is swapped down, each time with the higher of the children, to a leaf, which is
  taken off. The result is the object and the tree.
\<close>

function heap_pop :: "('a \<Rightarrow> 'a \<Rightarrow> bool) \<Rightarrow> 'a heap \<Rightarrow> ('a \<times> 'a heap) option" where
  "heap_pop out Null = None"
| "heap_pop out (HeapNode n x l r) =
     (if l = Null \<and> r = Null then Some (x, Null)
      else if l = Null \<or> (r \<noteq> Null \<and> \<not> out (mData l) (mData r))
      then map_option (\<lambda>(p, r'). (p, HeapNode (n - 1) (mData r) l r')) (heap_pop out (with_data x r))
      else map_option (\<lambda>(p, l'). (p, HeapNode (n - 1) (mData l) l' r)) (heap_pop out (with_data x l)))"
  by pat_completeness auto
termination
  by (relation "measure (\<lambda>(out, t). nodes t)") auto

text \<open>An object is looked for, by its address, where nothing it outranks is above it.\<close>

fun heap_remove :: "('a \<Rightarrow> 'a \<Rightarrow> bool) \<Rightarrow> 'a \<Rightarrow> 'a heap \<Rightarrow> ('a \<times> 'a heap) option" where
  "heap_remove out d Null = None"
| "heap_remove out d (HeapNode n x l r) =
     (if d = x then heap_pop out (HeapNode n x l r)
      else if \<not> out d x then
        (case heap_remove out d l of
           Some (p, l') \<Rightarrow> Some (p, HeapNode (n - 1) x l' r)
         | None \<Rightarrow>
             (case heap_remove out d r of
                Some (p, r') \<Rightarrow> Some (p, HeapNode (n - 1) x l r')
              | None \<Rightarrow> None))
      else None)"

fun checkNodes :: "('a \<Rightarrow> 'a \<Rightarrow> bool) \<Rightarrow> 'a heap \<Rightarrow> bool" where
  "checkNodes out Null \<longleftrightarrow> True"
| "checkNodes out (HeapNode n x l r) \<longleftrightarrow>
     (l \<noteq> Null \<longrightarrow> \<not> out (mData l) x \<and> checkNodes out l) \<and>
     (r \<noteq> Null \<longrightarrow> \<not> out (mData r) x \<and> checkNodes out r) \<and>
     n - (if l = Null then 0 else mSize l) - (if r = Null then 0 else mSize r) = 1"

definition heap_peek :: "'a heap \<Rightarrow> 'a option" where
  "heap_peek t = (case t of Null \<Rightarrow> None | HeapNode n x l r \<Rightarrow> Some x)"

section \<open>The interface of the objects\<close>

text \<open>
  What the heap relies on of \<open>ranks\<close>: an object outranks no object that outranks it, and of two objects
  the one that is not outranked by a third one is transitive.
\<close>

locale rankable =
  fixes out :: "'a \<Rightarrow> 'a \<Rightarrow> bool"
  assumes asym: "out x y \<Longrightarrow> \<not> out y x"
    and neg_trans: "\<not> out x y \<Longrightarrow> \<not> out y z \<Longrightarrow> \<not> out x z"
begin

text \<open>Sizes are right and nothing in a subtree outranks its top.\<close>

fun sorted_heap :: "'a heap \<Rightarrow> bool" where
  "sorted_heap Null \<longleftrightarrow> True"
| "sorted_heap (HeapNode n x l r) \<longleftrightarrow> n = 1 + int (nodes l) + int (nodes r) \<and>
     (\<forall>y \<in># objects l + objects r. \<not> out y x) \<and> sorted_heap l \<and> sorted_heap r"

lemma size_sorted: "sorted_heap t \<Longrightarrow> t \<noteq> Null \<Longrightarrow> mSize t = int (nodes t)"
  by (cases t) auto

lemma data_in: "t \<noteq> Null \<Longrightarrow> mData t \<in># objects t"
  by (cases t) auto

lemma data_top: "sorted_heap t \<Longrightarrow> y \<in># objects t \<Longrightarrow> \<not> out y (mData t)"
  using asym by (cases t) auto

lemma top_only:
  "sorted_heap t \<Longrightarrow> (\<forall>y \<in># objects t. \<not> out y x) \<longleftrightarrow> (t \<noteq> Null \<longrightarrow> \<not> out (mData t) x)"
  using data_in [of t] data_top [of t] neg_trans by (cases "t = Null") (simp, blast)

lemma sorted_node:
  "sorted_heap (HeapNode n x l r) \<longleftrightarrow> n = 1 + int (nodes l) + int (nodes r) \<and>
     (l \<noteq> Null \<longrightarrow> \<not> out (mData l) x) \<and> (r \<noteq> Null \<longrightarrow> \<not> out (mData r) x) \<and> sorted_heap l \<and> sorted_heap r"
proof (cases "sorted_heap l \<and> sorted_heap r")
  case True
  then show ?thesis
    using top_only [of l x] top_only [of r x] by (simp add: ball_Un)
qed auto

lemma check_sorted: "checkNodes out t = sorted_heap t"
proof (induction t)
  case (HeapNode n x l r)
  have left: "sorted_heap l \<Longrightarrow> (if l = Null then 0 else mSize l) = int (nodes l)"
    using size_sorted [of l] by (cases "l = Null") auto
  have right: "sorted_heap r \<Longrightarrow> (if r = Null then 0 else mSize r) = int (nodes r)"
    using size_sorted [of r] by (cases "r = Null") auto
  have leaf: "sorted_heap Null"
    by simp
  show ?case
    unfolding sorted_node checkNodes.simps HeapNode.IH using left right leaf by (smt (verit))
qed simp

lemma push_objects: "objects (heap_push out x t) = add_mset x (objects t)"
  by (induction out x t rule: heap_push.induct) (auto simp: Let_def)

lemma push_nodes: "nodes (heap_push out x t) = Suc (nodes t)"
  by (induction out x t rule: heap_push.induct) (auto simp: Let_def)

lemma lower: "out x y \<Longrightarrow> \<not> out z y \<Longrightarrow> \<not> out z x"
  using asym neg_trans by blast

lemma push_data: "mData (heap_push out x t) = (if t = Null \<or> out x (mData t) then x else mData t)"
  by (cases t) (auto simp: Let_def)

lemma push_some [simp]: "heap_push out x t \<noteq> Null"
  by (cases t) (auto simp: Let_def)

lemma push_sorted: "sorted_heap t \<Longrightarrow> sorted_heap (heap_push out x t)"
proof (induction t arbitrary: x)
  case (HeapNode n y l r)
  define top where "top = (if out x y then x else y)"
  define low where "low = (if out x y then y else x)"
  have ord: "\<not> out low top" "\<not> out y top"
    using asym by (auto simp: top_def low_def)
  have kids: "l \<noteq> Null \<Longrightarrow> \<not> out (mData l) top" "r \<noteq> Null \<Longrightarrow> \<not> out (mData r) top"
    "sorted_heap l" "sorted_heap r" "n = 1 + int (nodes l) + int (nodes r)"
    using HeapNode.prems ord(2) neg_trans unfolding sorted_node by blast+
  have eq: "heap_push out x (HeapNode n y l r) =
    (if l = Null then HeapNode (n + 1) top (HeapNode 1 low Null Null) r
     else if r = Null then HeapNode (n + 1) top l (HeapNode 1 low Null Null)
     else if mSize l \<le> mSize r then HeapNode (n + 1) top (heap_push out low l) r
     else HeapNode (n + 1) top l (heap_push out low r))"
    by (simp add: Let_def top_def low_def)
  show ?case
    unfolding eq using kids ord(1) HeapNode.IH [of low]
    by (simp add: sorted_node push_data push_nodes del: sorted_heap.simps(2))
qed simp

text \<open>
  While the top's object is on its way down, only the two subtrees are sorted.
\<close>

definition falling :: "'a heap \<Rightarrow> bool" where
  "falling t \<longleftrightarrow> (case t of Null \<Rightarrow> True
     | HeapNode n x l r \<Rightarrow> n = 1 + int (nodes l) + int (nodes r) \<and> sorted_heap l \<and> sorted_heap r)"

lemma falling_node [simp]:
  "falling (HeapNode n x l r) \<longleftrightarrow> n = 1 + int (nodes l) + int (nodes r) \<and> sorted_heap l \<and> sorted_heap r"
  by (simp add: falling_def)

lemma sorted_falls: "sorted_heap t \<Longrightarrow> falling t"
  by (cases t) (auto simp: falling_def)

lemma falls_with: "sorted_heap t \<Longrightarrow> falling (with_data x t)"
  by (cases t) (auto simp: falling_def with_data_def)

lemma objects_with: "t \<noteq> Null \<Longrightarrow> add_mset (mData t) (objects (with_data x t)) = add_mset x (objects t)"
  by (cases t) (auto simp: with_data_def)

lemma data_with: "t \<noteq> Null \<Longrightarrow> mData (with_data x t) = x"
  by (cases t) (auto simp: with_data_def)

lemma with_null [simp]: "with_data x t = Null \<longleftrightarrow> t = Null"
  by (cases t) (auto simp: with_data_def)

definition popped :: "'a heap \<Rightarrow> ('a \<times> 'a heap) option \<Rightarrow> bool" where
  "popped t res \<longleftrightarrow> (\<exists>t'. res = Some (mData t, t') \<and> objects t = add_mset (mData t) (objects t') \<and>
     nodes t = Suc (nodes t') \<and> sorted_heap t')"

text \<open>The child that came up stays above the other subtree and above what is left of its own.\<close>

lemma popped_up:
  assumes "popped (with_data x s) res" "sorted_heap s" "s \<noteq> Null" "sorted_heap t"
    "t \<noteq> Null \<longrightarrow> \<not> out (mData t) (mData s)" "n = 2 + int (nodes s) + int (nodes t) - 1"
  shows "\<exists>s'. res = Some (x, s') \<and> objects s = add_mset (mData s) (objects s') \<and> nodes s = Suc (nodes s') \<and>
    sorted_heap (HeapNode (n - 1) (mData s) s' t) \<and> sorted_heap (HeapNode (n - 1) (mData s) t s')"
proof -
  from assms(1,3) obtain s' where s': "res = Some (x, s')" "objects (with_data x s) = add_mset x (objects s')"
    "nodes s = Suc (nodes s')" "sorted_heap s'"
    by (auto simp: popped_def data_with)
  have "objects s = add_mset (mData s) (objects s')"
    using objects_with [OF assms(3), of x] s'(2) by (simp add: add_mset_commute)
  moreover from this have "\<not> out (mData s') (mData s)" if "s' \<noteq> Null"
    using data_top [OF assms(2), of "mData s'"] data_in [OF that] by simp
  ultimately show ?thesis
    using s' assms(4,5,6) by (simp add: sorted_node del: sorted_heap.simps(2))
qed

lemma pop_falling: "falling t \<Longrightarrow> t \<noteq> Null \<Longrightarrow> popped t (heap_pop out t)"
proof (induction "nodes t" arbitrary: t rule: less_induct)
  case less
  then obtain n x l r where t: "t = HeapNode n x l r" and n: "n = 1 + int (nodes l) + int (nodes r)"
    and kids: "sorted_heap l" "sorted_heap r"
    by (cases t) auto
  have sub: "popped (with_data x s) (heap_pop out (with_data x s))" if "s = l \<or> s = r" "s \<noteq> Null" for s
    using that less.hyps [of "with_data x s"] falls_with [of s x] kids t by fastforce
  consider "l = Null" "r = Null" | "r \<noteq> Null" "l = Null \<or> \<not> out (mData l) (mData r)"
    | "l \<noteq> Null" "r = Null \<or> out (mData l) (mData r)"
    by blast
  then show ?case
  proof cases
    case 1
    then show ?thesis
      by (simp add: popped_def t)
  next
    case 2
    then have "\<exists>r'. heap_pop out (with_data x r) = Some (x, r') \<and> objects r = add_mset (mData r) (objects r') \<and>
      nodes r = Suc (nodes r') \<and> sorted_heap (HeapNode (n - 1) (mData r) r' l) \<and>
      sorted_heap (HeapNode (n - 1) (mData r) l r')"
      using kids n by (intro popped_up sub) auto
    then show ?thesis
      using 2 by (auto simp: popped_def t simp del: sorted_heap.simps(2))
  next
    case 3
    then have "\<exists>l'. heap_pop out (with_data x l) = Some (x, l') \<and> objects l = add_mset (mData l) (objects l') \<and>
      nodes l = Suc (nodes l') \<and> sorted_heap (HeapNode (n - 1) (mData l) l' r) \<and>
      sorted_heap (HeapNode (n - 1) (mData l) r l')"
      using kids n asym by (intro popped_up sub) auto
    then show ?thesis
      using 3 by (auto simp: popped_def t simp del: sorted_heap.simps(2))
  qed
qed

lemma pop_sorted: "sorted_heap t \<Longrightarrow> t \<noteq> Null \<Longrightarrow> popped t (heap_pop out t)"
  by (rule pop_falling [OF sorted_falls])

text \<open>An object is found exactly when it is in the heap, and it alone is taken out.\<close>

lemma remove_sorted:
  "sorted_heap t \<Longrightarrow> (case heap_remove out d t of
     None \<Rightarrow> d \<notin># objects t
   | Some (p, t') \<Rightarrow> p = d \<and> objects t = add_mset d (objects t') \<and> nodes t = Suc (nodes t') \<and> sorted_heap t')"
proof (induction t)
  case (HeapNode n x l r)
  show ?case
  proof (cases "d = x")
    case True
    then show ?thesis
      using pop_sorted [OF HeapNode.prems] by (auto simp: popped_def simp del: heap_pop.simps)
  next
    case False
    have left: "(case heap_remove out d l of None \<Rightarrow> d \<notin># objects l
      | Some (p, t') \<Rightarrow> p = d \<and> objects l = add_mset d (objects t') \<and> nodes l = Suc (nodes t') \<and> sorted_heap t')"
      and right: "(case heap_remove out d r of None \<Rightarrow> d \<notin># objects r
      | Some (p, t') \<Rightarrow> p = d \<and> objects r = add_mset d (objects t') \<and> nodes r = Suc (nodes t') \<and> sorted_heap t')"
      using HeapNode by auto
    show ?thesis
      using False left right HeapNode.prems by (auto split: option.splits)
  qed
qed simp

end

section \<open>The height of the tree\<close>

fun height :: "'a heap \<Rightarrow> nat" where
  "height Null = 0"
| "height (HeapNode n x l r) = Suc (max (height l) (height r))"

text \<open>A tree that was only pushed to: sizes are right and the left subtree has at most one node more.\<close>

fun even_heap :: "'a heap \<Rightarrow> bool" where
  "even_heap Null \<longleftrightarrow> True"
| "even_heap (HeapNode n x l r) \<longleftrightarrow> n = 1 + int (nodes l) + int (nodes r) \<and>
     (nodes l = nodes r \<or> nodes l = Suc (nodes r)) \<and> even_heap l \<and> even_heap r"

lemma no_nodes: "nodes t = 0 \<longleftrightarrow> t = Null"
  by (cases t) auto

lemma even_size: "even_heap t \<Longrightarrow> t \<noteq> Null \<Longrightarrow> mSize t = int (nodes t)"
  by (cases t) auto

lemma nodes_push: "nodes (heap_push out x t) = Suc (nodes t)"
  by (induction out x t rule: heap_push.induct) (auto simp: Let_def)

lemma push_even: "even_heap t \<Longrightarrow> even_heap (heap_push out x t)"
proof (induction out x t rule: heap_push.induct)
  case (2 out x n y l r)
  then show ?case
    using even_size [of l] even_size [of r] no_nodes [of l] no_nodes [of r]
    by (auto simp: Let_def nodes_push)
qed simp

lemma even_height: "even_heap t \<Longrightarrow> t \<noteq> Null \<Longrightarrow> 2 ^ height t \<le> 2 * nodes t"
proof (induction t)
  case (HeapNode n x l r)
  have "2 ^ height s \<le> nodes l + nodes r + 1" if "s = l \<or> s = r" for s
    using that HeapNode no_nodes [of s] by (cases "s = Null") auto
  from this [of l] this [of r] show ?case
    by (simp add: max_def)
qed simp

lemma pushes_even: "even_heap (fold (heap_push out) xs Null)"
proof -
  have "even_heap t \<Longrightarrow> even_heap (fold (heap_push out) xs t)" for t :: "'a heap"
    by (induction xs arbitrary: t) (auto simp: push_even)
  then show ?thesis
    by simp
qed

lemma pushes_nodes: "nodes (fold (heap_push out) xs t) = length xs + nodes t"
  by (induction xs arbitrary: t) (auto simp: nodes_push)

end
