(* ===== verification/Loc_Timer.thy ===== *)
theory Loc_Timer
  imports Loc_Heap
begin

text \<open>
  The timers of the location utilities (\<open>src/gps/utils/LocTimer.cpp\<close>): the clients' \<open>start\<close> and
  \<open>stop\<close>, the two containers (timers and alarms) with their heaps and kernel timers, the messages to
  the thread that owns the heaps, and the poll thread.
\<close>

section \<open>Times\<close>

datatype timespec = Timespec (tv_sec: int) (tv_nsec: int)

text \<open>Times are ordered by the seconds, then by the nanoseconds.\<close>

instantiation timespec :: linorder
begin

definition less_timespec :: "timespec \<Rightarrow> timespec \<Rightarrow> bool" where
  "a < b \<longleftrightarrow> tv_sec a < tv_sec b \<or> tv_sec a = tv_sec b \<and> tv_nsec a < tv_nsec b"

definition less_eq_timespec :: "timespec \<Rightarrow> timespec \<Rightarrow> bool" where
  "a \<le> b \<longleftrightarrow> tv_sec a < tv_sec b \<or> tv_sec a = tv_sec b \<and> tv_nsec a \<le> tv_nsec b"

instance
  by intro_classes
    (auto simp: less_timespec_def less_eq_timespec_def intro: timespec.expand)

end

definition normal_time :: "timespec \<Rightarrow> bool" where
  "normal_time t \<longleftrightarrow> 0 \<le> tv_sec t \<and> tv_sec t < 2 ^ 31 \<and> 0 \<le> tv_nsec t \<and> tv_nsec t < 1000000000"

text \<open>The time a timer of so many milliseconds is due.\<close>

definition futureTime :: "32 word \<Rightarrow> timespec \<Rightarrow> timespec" where
  "futureTime timeOutInMs t =
     (let s = tv_sec t + uint (timeOutInMs div 1000);
          n = tv_nsec t + uint ((timeOutInMs mod 1000) * 1000000)
      in if 1000000000 \<le> n then Timespec (s + n div 1000000000) (n mod 1000000000) else Timespec s n)"

section \<open>Timer objects\<close>

text \<open>
  A pointer to a \<open>LocTimerDelegate\<close>: its address and the two arguments of its construction that stay
  what they are.
\<close>

record timer =
  addr :: nat
  mFutureTime :: timespec
  wakeOnExpire :: bool

definition timer_ranks :: "timer \<Rightarrow> timer \<Rightarrow> int" where
  "timer_ranks me timer =
     (let rank = tv_sec (mFutureTime timer) - tv_sec (mFutureTime me)
      in if rank = 0 then tv_nsec (mFutureTime timer) - tv_nsec (mFutureTime me) else rank)"

definition outRanks :: "timer \<Rightarrow> timer \<Rightarrow> bool" where
  "outRanks me timer \<longleftrightarrow> timer_ranks me timer > 0"

lemma outranks_sooner: "outRanks x y \<longleftrightarrow> mFutureTime x < mFutureTime y"
  by (auto simp: outRanks_def timer_ranks_def less_timespec_def Let_def)

interpretation soonest: rankable outRanks
  by unfold_locales (auto simp: outranks_sooner)

text \<open>What changes in a delegate: the client and the container are cleared when it is stopped.\<close>

record delegate =
  mClient :: "nat option"
  mContainer :: "bool option"

text \<open>A container: the heap, the time its kernel timer is set to, and whether the fd is polled.\<close>

record container =
  mTree :: "timer heap"
  armed :: "timespec option"
  polled :: bool

datatype loc_msg = MsgTimerPush bool timer | MsgTimerRemove bool timer | MsgTimerExpire bool

text \<open>The calls a client makes, and what is recorded of them.\<close>

datatype timer_call = Start nat "32 word" bool | Stop nat

datatype timer_event = Started nat | Stopped nat | TimedOut nat timespec timespec

text \<open>
  The whole: the clients' timers, the delegates that are allocated, the containers, the queue of the
  message thread, the clock and what happened. \<open>dangling\<close> is set when a deleted delegate is used. A
  container is named by the \<open>wakeOnExpire\<close> it is got with.
\<close>

record timers =
  mTimer :: "nat \<Rightarrow> timer option"
  delegates :: "timer \<Rightarrow> delegate option"
  next_addr :: nat
  containers :: "bool \<Rightarrow> container"
  msgs :: "loc_msg list"
  clock :: timespec
  happened :: "timer_event list"
  dangling :: bool

definition no_timers :: timers where
  "no_timers = \<lparr>mTimer = (\<lambda>_. None), delegates = (\<lambda>_. None), next_addr = 0,
     containers = (\<lambda>_. \<lparr>mTree = Null, armed = None, polled = False\<rparr>), msgs = [],
     clock = Timespec 0 0, happened = [], dangling = False\<rparr>"

definition sendMsg :: "loc_msg \<Rightarrow> timers \<Rightarrow> timers" where
  "sendMsg m s = s\<lparr>msgs := msgs s @ [m]\<rparr>"

definition set_container :: "bool \<Rightarrow> (container \<Rightarrow> container) \<Rightarrow> timers \<Rightarrow> timers" where
  "set_container w f s = s\<lparr>containers := (containers s)(w := f (containers s w))\<rparr>"

section \<open>Client calls\<close>

definition timer_start :: "nat \<Rightarrow> 32 word \<Rightarrow> bool \<Rightarrow> timers \<Rightarrow> bool \<times> timers" where
  "timer_start c ms w s =
     (case mTimer s c of
        Some _ \<Rightarrow> (False, s)
      | None \<Rightarrow>
          let d = \<lparr>addr = next_addr s, mFutureTime = futureTime ms (clock s), wakeOnExpire = w\<rparr>
          in (True, sendMsg (MsgTimerPush w d)
                (s\<lparr>mTimer := (mTimer s)(c \<mapsto> d), next_addr := next_addr s + 1,
                   delegates := (delegates s)(d \<mapsto> \<lparr>mClient = Some c, mContainer = Some w\<rparr>)\<rparr>)))"

definition destroyLocked :: "timer \<Rightarrow> timers \<Rightarrow> timers" where
  "destroyLocked d s =
     (case delegates s d of
        None \<Rightarrow> s\<lparr>dangling := True\<rparr>
      | Some x \<Rightarrow>
          (let s1 = s\<lparr>delegates := (delegates s)(d \<mapsto> x\<lparr>mClient := None, mContainer := None\<rparr>)\<rparr>
           in case mContainer x of None \<Rightarrow> s1 | Some w \<Rightarrow> sendMsg (MsgTimerRemove w d) s1))"

definition timer_stop :: "nat \<Rightarrow> timers \<Rightarrow> bool \<times> timers" where
  "timer_stop c s =
     (case mTimer s c of
        None \<Rightarrow> (False, s)
      | Some d \<Rightarrow> (True, destroyLocked d (s\<lparr>mTimer := (mTimer s)(c := None)\<rparr>)))"

definition happens :: "timer_event \<Rightarrow> timers \<Rightarrow> timers" where
  "happens e s = s\<lparr>happened := happened s @ [e]\<rparr>"

fun call_timer :: "timer_call \<Rightarrow> timers \<Rightarrow> timers" where
  "call_timer (Start c ms w) s =
     (let (ok, s1) = timer_start c ms w s in if ok then happens (Started c) s1 else s1)"
| "call_timer (Stop c) s = (let (ok, s1) = timer_stop c s in if ok then happens (Stopped c) s1 else s1)"

text \<open>The C interface: the timeout has 64 bits, the class's 32.\<close>

definition loc_timer_start :: "64 word \<Rightarrow> bool \<Rightarrow> nat \<Rightarrow> bool \<Rightarrow> timers \<Rightarrow> nat option \<times> timers" where
  "loc_timer_start msec has_cb c w s =
     (if has_cb then (Some c, call_timer (Start c (ucast msec) w) s) else (None, s))"

section \<open>The containers\<close>

definition getSoonestTimer :: "bool \<Rightarrow> timers \<Rightarrow> timer option" where
  "getSoonestTimer w s = heap_peek (mTree (containers s w))"

definition addPoll :: "bool \<Rightarrow> timers \<Rightarrow> timers" where
  "addPoll w = set_container w (\<lambda>k. k\<lparr>polled := True\<rparr>)"

definition removePoll :: "bool \<Rightarrow> timers \<Rightarrow> timers" where
  "removePoll w = set_container w (\<lambda>k. k\<lparr>polled := False\<rparr>)"

definition settime :: "bool \<Rightarrow> timespec option \<Rightarrow> timers \<Rightarrow> timers" where
  "settime w t = set_container w (\<lambda>k. k\<lparr>armed := t\<rparr>)"

definition updateSoonestTime :: "bool \<Rightarrow> timer option \<Rightarrow> timers \<Rightarrow> timers" where
  "updateSoonestTime w priorTop s =
     (let curTop = getSoonestTimer w s
      in if curTop \<noteq> priorTop then
           case curTop of
             None \<Rightarrow> settime w None (removePoll w s)
           | Some t \<Rightarrow>
               if priorTop = None \<or> outRanks t (the priorTop)
               then settime w (Some (mFutureTime t)) (addPoll w s)
               else s
         else s)"

text \<open>The heap's own operations, on a container.\<close>

definition push_timer :: "bool \<Rightarrow> timer \<Rightarrow> timers \<Rightarrow> timers" where
  "push_timer w d = set_container w (\<lambda>k. k\<lparr>mTree := heap_push outRanks d (mTree k)\<rparr>)"

definition pop_timer :: "bool \<Rightarrow> timers \<Rightarrow> timer option \<times> timers" where
  "pop_timer w s =
     (case heap_pop outRanks (mTree (containers s w)) of
        None \<Rightarrow> (None, s)
      | Some (d, t) \<Rightarrow> (Some d, set_container w (\<lambda>k. k\<lparr>mTree := t\<rparr>) s))"

definition remove_timer :: "bool \<Rightarrow> timer \<Rightarrow> timers \<Rightarrow> timer option \<times> timers" where
  "remove_timer w d s =
     (case heap_remove outRanks d (mTree (containers s w)) of
        None \<Rightarrow> (None, s)
      | Some (p, t) \<Rightarrow> (Some p, set_container w (\<lambda>k. k\<lparr>mTree := t\<rparr>) s))"

definition popIfOutRanks :: "bool \<Rightarrow> timespec \<Rightarrow> timers \<Rightarrow> timer option \<times> timers" where
  "popIfOutRanks w t s =
     (case getSoonestTimer w s of
        Some d \<Rightarrow> if \<not> outRanks \<lparr>addr = 0, mFutureTime = t, wakeOnExpire = w\<rparr> d then pop_timer w s else (None, s)
      | None \<Rightarrow> (None, s))"

text \<open>
  A timer that expires is stopped and its client called back, if it has not been stopped already. The
  client's own calls in its callback are the parameter \<open>react\<close>.
\<close>

definition delegate_expire :: "(nat \<Rightarrow> timer_call list) \<Rightarrow> timer \<Rightarrow> timers \<Rightarrow> timers" where
  "delegate_expire react d s =
     (case delegates s d of
        None \<Rightarrow> s\<lparr>dangling := True\<rparr>
      | Some x \<Rightarrow>
          (case mClient x of
             None \<Rightarrow> s
           | Some c \<Rightarrow>
               (let (ok, s1) = timer_stop c s
                in if ok then fold call_timer (react c) (happens (TimedOut c (mFutureTime d) (clock s)) s1)
                   else s1)))"

lemma containers_send [simp]: "containers (sendMsg m s) = containers s"
  by (simp add: sendMsg_def)

lemma containers_happens [simp]: "containers (happens e s) = containers s"
  by (simp add: happens_def)

lemma containers_stop [simp]: "containers (snd (timer_stop c s)) = containers s"
  by (auto simp: timer_stop_def destroyLocked_def Let_def split: option.splits)

lemma containers_call [simp]: "containers (call_timer a s) = containers s"
  by (cases a) (auto simp: timer_start_def timer_stop_def destroyLocked_def Let_def split: option.splits)

lemma containers_calls [simp]: "containers (fold call_timer as s) = containers s"
  by (induction "as" arbitrary: s) auto

lemma containers_expire [simp]: "containers (delegate_expire react d s) = containers s"
  by (auto simp: delegate_expire_def timer_stop_def destroyLocked_def Let_def split: option.splits)

lemma heap_pop_nodes: "heap_pop out t = Some (p, t') \<Longrightarrow> nodes t = Suc (nodes t')"
proof (induction out t arbitrary: p t' rule: heap_pop.induct)
  case (2 out n x l r)
  then show ?case
    by (fastforce split: if_splits)
qed simp

function expire_from :: "(nat \<Rightarrow> timer_call list) \<Rightarrow> bool \<Rightarrow> timespec \<Rightarrow> timer \<Rightarrow> timers \<Rightarrow> timers" where
  "expire_from react w t d s =
     (case popIfOutRanks w t (delegate_expire react d s) of
        (None, s2) \<Rightarrow> s2
      | (Some d', s2) \<Rightarrow> expire_from react w t d' s2)"
  by pat_completeness auto
termination
  by (relation "measure (\<lambda>(react, w, t, d, s). nodes (mTree (containers s w)))")
    (auto simp: popIfOutRanks_def pop_timer_def set_container_def getSoonestTimer_def
       dest: heap_pop_nodes split: option.splits if_splits)

section \<open>The message thread and the poll thread\<close>

fun proc :: "(nat \<Rightarrow> timer_call list) \<Rightarrow> loc_msg \<Rightarrow> timers \<Rightarrow> timers" where
  "proc react (MsgTimerPush w d) s =
     (if delegates s d = None then s\<lparr>dangling := True\<rparr>
      else updateSoonestTime w (getSoonestTimer w s) (push_timer w d s))"
| "proc react (MsgTimerRemove w d) s =
     (if delegates s d = None then s\<lparr>dangling := True\<rparr>
      else let priorTop = getSoonestTimer w s;
               (removed, s1) = remove_timer w d s;
               s2 = (if priorTop = removed then updateSoonestTime w None s1 else s1)
           in s2\<lparr>delegates := (delegates s2)(d := None)\<rparr>)"
| "proc react (MsgTimerExpire w) s =
     updateSoonestTime w None
       (case pop_timer w s of
          (None, s1) \<Rightarrow> s1
        | (Some d, s1) \<Rightarrow> expire_from react w (clock s) d s1)"

text \<open>The container's \<open>expire\<close>, which the poll thread calls for a kernel timer that has gone off.\<close>

definition container_expire :: "bool \<Rightarrow> timers \<Rightarrow> timers" where
  "container_expire w s = sendMsg (MsgTimerExpire w) (removePoll w (settime w None s))"

definition gone_off :: "bool \<Rightarrow> timers \<Rightarrow> bool" where
  "gone_off w s \<longleftrightarrow> polled (containers s w) \<and>
     (case armed (containers s w) of None \<Rightarrow> False | Some t \<Rightarrow> t \<le> clock s)"

text \<open>
  Runs: clients call, time passes, the poll thread wakes up for a kernel timer that has gone off, the
  message thread handles its next message.
\<close>

datatype timer_step = Call timer_call | Tick timespec | Poll bool | Task

fun timer_do :: "(nat \<Rightarrow> timer_call list) \<Rightarrow> timer_step \<Rightarrow> timers \<Rightarrow> timers option" where
  "timer_do react (Call a) s = Some (call_timer a s)"
| "timer_do react (Tick t) s = (if clock s \<le> t then Some (s\<lparr>clock := t\<rparr>) else None)"
| "timer_do react (Poll w) s = (if gone_off w s then Some (container_expire w s) else None)"
| "timer_do react Task s =
     (case msgs s of [] \<Rightarrow> None | m # ms \<Rightarrow> Some (proc react m (s\<lparr>msgs := ms\<rparr>)))"

fun timer_dos :: "(nat \<Rightarrow> timer_call list) \<Rightarrow> timer_step list \<Rightarrow> timers \<Rightarrow> timers option" where
  "timer_dos react [] s = Some s"
| "timer_dos react (a # as) s =
     (case timer_do react a s of None \<Rightarrow> None | Some s' \<Rightarrow> timer_dos react as s')"

end
