(* ===== verification/Loc_Timer_Props.thy ===== *)
theory Loc_Timer_Props
  imports Loc_Timer_Inv
begin

text \<open>
  The properties of the timers: the kernel timer is kept for the soonest, due timers are called back,
  starts are answered once, and the cases where a client is called early or a stale alarm stays set.
\<close>

section \<open>The kernel timer\<close>

definition expiry_sent :: "bool \<Rightarrow> timers \<Rightarrow> bool" where
  "expiry_sent w s \<longleftrightarrow> MsgTimerExpire w \<in> set (msgs s)"

definition set_for_top :: "container \<Rightarrow> bool" where
  "set_for_top k \<longleftrightarrow> mTree k = Null \<or> polled k \<and> armed k = Some (mFutureTime (mData (mTree k)))"

definition kernel_ready :: "timers \<Rightarrow> bool" where
  "kernel_ready s \<longleftrightarrow> (\<forall>w. expiry_sent w s \<or> set_for_top (containers s w))"

lemma peek_data: "heap_peek t = (if t = Null then None else Some (mData t))"
  by (cases t) (auto simp: heap_peek_def)

lemma update_sets:
  "containers (updateSoonestTime w None s) w' =
     (if w' = w \<and> mTree (containers s w) \<noteq> Null
      then (containers s w)\<lparr>polled := True, armed := Some (mFutureTime (mData (mTree (containers s w))))\<rparr>
      else containers s w')"
  by (auto simp: updateSoonestTime_def getSoonestTimer_def peek_data settime_def addPoll_def set_container_def)

lemma update_set_for_top [simp]: "set_for_top (containers (updateSoonestTime w None s) w)"
  by (simp add: update_sets set_for_top_def)

lemma push_keeps_set:
  assumes "set_for_top (containers s w)"
  shows "set_for_top (containers (updateSoonestTime w (getSoonestTimer w s) (push_timer w d s)) w)"
proof -
  let ?t = "mTree (containers s w)"
  consider "?t = Null" | "?t \<noteq> Null" "outRanks d (mData ?t)" | "?t \<noteq> Null" "\<not> outRanks d (mData ?t)"
    by blast
  then show ?thesis
  proof cases
    case 1
    then show ?thesis
      by (simp add: updateSoonestTime_def getSoonestTimer_def push_timer_def peek_data settime_def addPoll_def
          set_container_def set_for_top_def)
  next
    case 2
    then have "d \<noteq> mData ?t"
      by (auto simp: outranks_sooner)
    with 2 show ?thesis
      by (simp add: updateSoonestTime_def getSoonestTimer_def push_timer_def peek_data settime_def addPoll_def
          set_container_def set_for_top_def soonest.push_data)
  next
    case 3
    with assms show ?thesis
      by (simp add: updateSoonestTime_def getSoonestTimer_def push_timer_def peek_data
          set_container_def set_for_top_def soonest.push_data)
  qed
qed

lemma removed_below: "heap_remove out d t = Some (p, t') \<Longrightarrow> d \<noteq> mData t \<Longrightarrow> t' \<noteq> Null \<and> mData t' = mData t"
  by (cases t) (auto split: if_splits option.splits)

lemma remove_keeps_set:
  assumes "timers_ok {#} s" "set_for_top (containers s w)" "remove_timer w d s = (p, s')"
    "getSoonestTimer w s \<noteq> p"
  shows "set_for_top (containers s' w)"
proof (cases "heap_remove outRanks d (mTree (containers s w))")
  case None
  with assms show ?thesis
    by (simp add: remove_timer_def)
next
  case (Some pt)
  then obtain t where t: "heap_remove outRanks d (mTree (containers s w)) = Some (d, t)"
    using soonest.remove_sorted [OF timers_okD(6) [OF assms(1), of w], of d] by auto
  then have top: "mTree (containers s w) \<noteq> Null"
    by (cases "mTree (containers s w)") auto
  have s': "p = Some d" "s' = set_container w (\<lambda>k. k\<lparr>mTree := t\<rparr>) s"
    using assms(3) by (simp_all add: remove_timer_def t)
  with top have "d \<noteq> mData (mTree (containers s w))"
    using assms(4) by (auto simp: getSoonestTimer_def peek_data)
  with removed_below [OF t] top assms(2) show ?thesis
    by (simp add: s' set_container_def set_for_top_def)
qed

text \<open>What calls, pops and callbacks leave alone.\<close>

lemma calls_send: "set (msgs s) \<subseteq> set (msgs (call_timer a s))"
  by (cases a) (auto simp: timer_start_def timer_stop_def destroyLocked_def sendMsg_def happens_def Let_def
      split: option.splits)

lemma all_calls_send: "set (msgs s) \<subseteq> set (msgs (fold call_timer as s))"
  by (induction "as" arbitrary: s) (auto dest: subsetD [OF calls_send])

lemma stop_sends: "timer_stop c s = (ok, s') \<Longrightarrow> set (msgs s) \<subseteq> set (msgs s')"
  by (auto simp: timer_stop_def destroyLocked_def sendMsg_def Let_def split: option.splits)

lemma delegate_expire_sends: "set (msgs s) \<subseteq> set (msgs (delegate_expire react d s))"
proof -
  have "set (msgs s1) \<subseteq> set (msgs (fold call_timer as (happens e s1)))" for "as" e s1
    using all_calls_send [of "happens e s1" "as"] by (simp add: happens_def)
  with stop_sends show ?thesis
    unfolding delegate_expire_def by (fastforce split: option.split prod.split intro: subset_trans)
qed

lemma pop_if_frame:
  assumes "popIfOutRanks w t s = (x, s')"
  shows "msgs s' = msgs s" "w' \<noteq> w \<Longrightarrow> containers s' w' = containers s w'" "delegates s' = delegates s"
    "mTimer s' = mTimer s" "happened s' = happened s" "clock s' = clock s"
  using assms
  by (auto simp: popIfOutRanks_def pop_timer_def set_container_def split: option.splits if_splits)

lemma no_pop_same: "popIfOutRanks w t s = (None, s') \<Longrightarrow> s' = s"
  by (auto simp: popIfOutRanks_def pop_timer_def split: option.splits if_splits)

lemma expire_from_frame:
  "w' \<noteq> w \<Longrightarrow> containers (expire_from react w t d s) w' = containers s w'"
  "set (msgs s) \<subseteq> set (msgs (expire_from react w t d s))"
proof (induction react w t d s rule: expire_from.induct)
  case (1 react w t d s)
  let ?s1 = "delegate_expire react d s"
  obtain x s2 where p: "popIfOutRanks w t ?s1 = (x, s2)"
    by fastforce
  note frame = pop_if_frame [OF p]
  have sends: "set (msgs s) \<subseteq> set (msgs s2)"
    using delegate_expire_sends frame(1) by simp
  have step: "expire_from react w t d s = (case x of None \<Rightarrow> s2 | Some d' \<Rightarrow> expire_from react w t d' s2)"
    by (subst expire_from.simps) (simp add: p del: expire_from.simps split: option.split)
  { case 1
    then show ?case
      using "1.IH"(1) [OF p [symmetric]] frame(2) unfolding step by (cases x) auto }
  { case 2
    then show ?case
      using "1.IH"(2) [OF p [symmetric]] sends unfolding step by (cases x) (auto dest: subsetD) }
qed

lemma proc_expire_frame:
  "w' \<noteq> w \<Longrightarrow> containers (proc react (MsgTimerExpire w) s) w' = containers s w'"
  "set (msgs s) \<subseteq> set (msgs (proc react (MsgTimerExpire w) s))"
proof -
  obtain x s1 where p: "pop_timer w s = (x, s1)"
    by fastforce
  then have "msgs s1 = msgs s" "w' \<noteq> w \<Longrightarrow> containers s1 w' = containers s w'"
    by (auto simp: pop_timer_def set_container_def split: option.splits)
  then show "w' \<noteq> w \<Longrightarrow> containers (proc react (MsgTimerExpire w) s) w' = containers s w'"
    "set (msgs s) \<subseteq> set (msgs (proc react (MsgTimerExpire w) s))"
    using expire_from_frame(2) [of s1 react w "clock s"]
    by (cases x; simp add: p update_sets expire_from_frame(1) del: expire_from.simps)+
qed

lemma update_frame2: "w' \<noteq> w \<Longrightarrow> containers (updateSoonestTime w p s) w' = containers s w'"
  by (auto simp: updateSoonestTime_def settime_def addPoll_def removePoll_def set_container_def Let_def
      split: option.split)

lemma remove_frame: "remove_timer w d s = (p, s') \<Longrightarrow> w' \<noteq> w \<Longrightarrow> containers s' w' = containers s w'"
  by (auto simp: remove_timer_def set_container_def split: option.splits)

lemma containers_msgs [simp]: "containers (s\<lparr>msgs := ms\<rparr>) = containers s"
  by simp

lemma proc_ready:
  assumes ok: "timers_ok {#} s" and ready: "kernel_ready s" and m: "msgs s = m # ms"
  shows "kernel_ready (proc react m (s\<lparr>msgs := ms\<rparr>))"
proof (cases m)
  case (MsgTimerPush w d)
  let ?s = "s\<lparr>msgs := ms\<rparr>"
  have "timers_ok {#d#} ?s"
    using took_push(1) [OF ok] m MsgTimerPush by simp
  from in_hand [OF this] have p: "proc react m ?s = updateSoonestTime w (getSoonestTimer w ?s) (push_timer w d ?s)"
    by (auto simp: MsgTimerPush)
  have "expiry_sent w' (proc react m ?s) \<or> set_for_top (containers (proc react m ?s) w')" for w'
  proof (cases "w' = w")
    case True
    have "msgs (proc react m ?s) = ms"
      by (simp add: p push_timer_def set_container_def)
    then show ?thesis
      using ready push_keeps_set [of ?s w d] True unfolding p
      by (auto simp: kernel_ready_def expiry_sent_def m MsgTimerPush)
  next
    case False
    then have "containers (proc react m ?s) w' = containers s w'"
      unfolding p by (simp add: update_frame2 push_timer_def set_container_def)
    then show ?thesis
      using ready unfolding p
      by (auto simp: kernel_ready_def expiry_sent_def m MsgTimerPush push_timer_def set_container_def)
  qed
  then show ?thesis
    by (simp add: kernel_ready_def)
next
  case (MsgTimerRemove w d)
  let ?s = "s\<lparr>msgs := ms\<rparr>"
  note took = took_remove [of s w d ms, OF ok]
  obtain x where x: "delegates s d = Some x" "mClient x = None" and w: "wakeOnExpire d = w"
    using took m MsgTimerRemove by auto
  obtain r s' where r: "remove_timer w d s = (r, s')"
    by fastforce
  have s': "msgs s' = m # ms"
    using remove_ok(4) [OF ok w x r] m by simp
  define s2 where "s2 = (if getSoonestTimer w s = r then updateSoonestTime w None s' else s')"
  have p: "proc react m ?s = s2\<lparr>msgs := ms, delegates := (delegates s2)(d := None)\<rparr>"
    by (simp add: MsgTimerRemove x remove_msgs r update_msgs s2_def Let_def)
  have "expiry_sent w' (proc react m ?s) \<or> set_for_top (containers (proc react m ?s) w')" for w'
  proof (cases "w' = w")
    case True
    show ?thesis
      using ready remove_keeps_set [OF ok _ r] True unfolding p
      by (auto simp: kernel_ready_def expiry_sent_def m MsgTimerRemove s2_def)
  next
    case False
    then have "containers (proc react m ?s) w' = containers s w'"
      unfolding p by (simp add: s2_def update_frame2 remove_frame [OF r])
    then show ?thesis
      using ready unfolding p by (auto simp: kernel_ready_def expiry_sent_def m MsgTimerRemove)
  qed
  then show ?thesis
    by (simp add: kernel_ready_def)
next
  case (MsgTimerExpire w)
  let ?s = "s\<lparr>msgs := ms\<rparr>"
  have "expiry_sent w' (proc react m ?s) \<or> set_for_top (containers (proc react m ?s) w')" for w'
  proof (cases "w' = w")
    case True
    then show ?thesis
      by (simp add: MsgTimerExpire)
  next
    case False
    then have "MsgTimerExpire w' \<in> set (msgs s) \<Longrightarrow> MsgTimerExpire w' \<in> set (msgs (proc react m ?s))"
      using proc_expire_frame(2) [of ?s react w] by (auto simp: m MsgTimerExpire simp del: proc.simps)
    then show ?thesis
      using ready proc_expire_frame(1) [OF False, of react ?s]
      by (auto simp: kernel_ready_def expiry_sent_def MsgTimerExpire simp del: proc.simps)
  qed
  then show ?thesis
    by (simp add: kernel_ready_def)
qed

lemma do_ready:
  assumes ok: "timers_ok {#} s" and ready: "kernel_ready s" and step: "timer_do react a s = Some s'"
  shows "kernel_ready s'"
proof (cases a)
  case (Call b)
  then show ?thesis
    using ready step calls_send [of s b] by (auto simp: kernel_ready_def expiry_sent_def)
next
  case (Tick t)
  then show ?thesis
    using ready step by (auto simp: kernel_ready_def expiry_sent_def split: if_splits)
next
  case (Poll w)
  then show ?thesis
    using ready step
    by (auto simp: kernel_ready_def expiry_sent_def container_expire_def removePoll_def settime_def sendMsg_def
        set_container_def split: if_splits)
next
  case Task
  then show ?thesis
    using step proc_ready [OF ok ready] by (auto simp del: proc.simps split: list.splits)
qed

lemma ready_none: "kernel_ready no_timers"
  by (simp add: kernel_ready_def no_timers_def set_for_top_def)

lemma dos_ready:
  "timers_ok {#} s \<Longrightarrow> kernel_ready s \<Longrightarrow> timer_dos react as s = Some s' \<Longrightarrow> kernel_ready s'"
  by (induction react "as" s rule: timer_dos.induct) (auto split: option.splits dest: do_ok do_ready)

section \<open>Expiry\<close>

text \<open>The loop of the expiry keeps what its two steps keep.\<close>

lemma expire_from_inv:
  assumes "\<And>s d. P s \<Longrightarrow> P (delegate_expire react d s)"
    and "\<And>s x s'. P s \<Longrightarrow> popIfOutRanks w t s = (x, s') \<Longrightarrow> P s'"
  shows "P s \<Longrightarrow> P (expire_from react w t d s)"
  using assms
proof (induction react w t d s rule: expire_from.induct)
  case (1 react w t d s)
  obtain x s2 where p: "popIfOutRanks w t (delegate_expire react d s) = (x, s2)"
    by fastforce
  have "P s2"
    using 1(4) [OF 1(3) [OF 1(2)] p] 1(3) 1(4) 1(2) p by blast
  then show ?case
    using 1(1) [OF p [symmetric]] 1(3,4)
    by (subst expire_from.simps) (auto simp: p simp del: expire_from.simps split: option.split)
qed

lemma call_frame: "clock (call_timer a s) = clock s" "set (happened s) \<subseteq> set (happened (call_timer a s))"
  by (cases a; auto simp: timer_start_def timer_stop_def destroyLocked_def sendMsg_def happens_def Let_def
      split: option.splits)+

lemma calls_frame:
  "clock (fold call_timer as s) = clock s" "set (happened s) \<subseteq> set (happened (fold call_timer as s))"
proof -
  show "clock (fold call_timer as s) = clock s"
    by (induction "as" arbitrary: s) (auto simp: call_frame(1))
  show "set (happened s) \<subseteq> set (happened (fold call_timer as s))"
    by (induction "as" arbitrary: s) (auto dest: subsetD [OF call_frame(2)])
qed

lemma stop_frame: "timer_stop c s = (ok, s') \<Longrightarrow> clock s' = clock s \<and> happened s' = happened s"
  by (auto simp: timer_stop_def destroyLocked_def sendMsg_def Let_def split: option.splits)

lemma delegate_expire_frame:
  "clock (delegate_expire react d s) = clock s" "set (happened s) \<subseteq> set (happened (delegate_expire react d s))"
proof -
  have h: "set (happened s1) \<subseteq> set (happened (fold call_timer as (happens e s1)))"
    "clock (fold call_timer as (happens e s1)) = clock s1" for "as" e s1
    using calls_frame(1) [of "as" "happens e s1"] calls_frame(2) [of "happens e s1" "as"] by (auto simp: happens_def)
  show "clock (delegate_expire react d s) = clock s"
    using stop_frame h(2) unfolding delegate_expire_def by (fastforce split: option.split prod.split)
  show "set (happened s) \<subseteq> set (happened (delegate_expire react d s))"
    using stop_frame h(1) unfolding delegate_expire_def by (fastforce split: option.split prod.split)
qed

lemma expire_from_keeps:
  "clock (expire_from react w t d s) = clock s" "set (happened s) \<subseteq> set (happened (expire_from react w t d s))"
proof -
  have "clock s = clock s \<and> set (happened s) \<subseteq> set (happened s) \<Longrightarrow>
    clock (expire_from react w t d s) = clock s \<and> set (happened s) \<subseteq> set (happened (expire_from react w t d s))"
    by (rule expire_from_inv [where P = "\<lambda>s'. clock s' = clock s \<and> set (happened s) \<subseteq> set (happened s')"])
      (auto simp: delegate_expire_frame pop_if_frame dest: subsetD [OF delegate_expire_frame(2)])
  then show "clock (expire_from react w t d s) = clock s"
    "set (happened s) \<subseteq> set (happened (expire_from react w t d s))"
    by auto
qed

lemma keeps_running:
  "Stop c \<notin> set as \<Longrightarrow> mTimer s c = Some d \<Longrightarrow> mTimer (fold call_timer as s) c = Some d"
proof (induction "as" arbitrary: s)
  case (Cons a "as")
  have "mTimer (call_timer a s) c = Some d"
    using Cons.prems
    by (cases a) (auto simp: timer_start_def timer_stop_def destroyLocked_def sendMsg_def happens_def Let_def
        split: option.splits)
  with Cons show ?case
    by simp
qed simp

text \<open>The delegate in hand is called back if it is running; another one stays running.\<close>

lemma hand_called:
  assumes "timers_ok {#d#} s" "mTimer s c = Some d"
  shows "TimedOut c (mFutureTime d) (clock s) \<in> set (happened (delegate_expire react d s))"
proof -
  obtain x where x: "delegates s d = Some x" "mClient x = Some c"
    using timers_okD(3) [OF assms] by blast
  obtain s1 where s1: "timer_stop c s = (True, s1)"
    by (simp add: timer_stop_def assms(2))
  then show ?thesis
    using calls_frame(2) [of "happens (TimedOut c (mFutureTime d) (clock s)) s1" "react c"]
    by (auto simp: delegate_expire_def x happens_def)
qed

lemma other_runs:
  assumes "timers_ok {#d0#} s" "mTimer s c = Some d" "d \<noteq> d0" "\<forall>c'. Stop c \<notin> set (react c')"
  shows "mTimer (delegate_expire react d0 s) c = Some d"
proof -
  obtain x where x: "delegates s d0 = Some x"
    using in_hand [OF assms(1)] by blast
  show ?thesis
  proof (cases "mClient x")
    case None
    then show ?thesis
      by (simp add: delegate_expire_def x assms(2))
  next
    case (Some c0)
    have "mTimer s c0 = Some d0"
      using timers_okD(2) [OF assms(1), of d0] by (auto simp: life_def x Some)
    with assms(2,3) have "c \<noteq> c0"
      by auto
    then have "mTimer (snd (timer_stop c0 s)) c = Some d"
      by (auto simp: timer_stop_def destroyLocked_def sendMsg_def assms(2) Let_def split: option.split)
    then show ?thesis
      using assms(4) by (auto simp: delegate_expire_def x Some happens_def intro!: keeps_running split: prod.split)
  qed
qed

lemma pops_due:
  assumes "timers_ok {#} s" "d \<in># objects (mTree (containers s w))" "mFutureTime d \<le> t"
  obtains d' s' where "popIfOutRanks w t s = (Some d', s')" "pop_timer w s = (Some d', s')"
    "d = d' \<or> d \<in># objects (mTree (containers s' w))"
proof -
  let ?t = "mTree (containers s w)"
  have n: "?t \<noteq> Null"
    using assms(2) by auto
  note sorted = timers_okD(6) [OF assms(1), of w]
  from soonest.pop_sorted [OF sorted n] obtain t' where
    t': "heap_pop outRanks ?t = Some (mData ?t, t')" "objects ?t = add_mset (mData ?t) (objects t')"
    by (auto simp: soonest.popped_def)
  have "\<not> outRanks d (mData ?t)"
    by (rule soonest.data_top [OF sorted assms(2)])
  then have "mFutureTime (mData ?t) \<le> t"
    using assms(3) by (simp add: outranks_sooner)
  then have "\<not> outRanks \<lparr>addr = 0, mFutureTime = t, wakeOnExpire = w\<rparr> (mData ?t)"
    by (simp add: outranks_sooner)
  moreover have "d = mData ?t \<or> d \<in># objects t'"
    using assms(2) unfolding t'(2) by auto
  ultimately show thesis
    using n by (intro that [of "mData ?t" "set_container w (\<lambda>k. k\<lparr>mTree := t'\<rparr>) s"])
      (simp_all add: popIfOutRanks_def getSoonestTimer_def peek_data pop_timer_def t'(1) set_container_def)
qed

lemma expire_calls:
  assumes "timers_ok {#d0#} s" "mTimer s c = Some d" "\<forall>c'. Stop c \<notin> set (react c')"
    "d = d0 \<or> d \<in># objects (mTree (containers s w)) \<and> mFutureTime d \<le> t"
  shows "TimedOut c (mFutureTime d) (clock s) \<in> set (happened (expire_from react w t d0 s))"
  using assms
proof (induction react w t d0 s rule: expire_from.induct)
  case (1 react w t d0 s)
  let ?s1 = "delegate_expire react d0 s"
  obtain x s2 where p: "popIfOutRanks w t ?s1 = (x, s2)"
    by fastforce
  have step: "expire_from react w t d0 s = (case x of None \<Rightarrow> s2 | Some d' \<Rightarrow> expire_from react w t d' s2)"
    by (subst expire_from.simps) (simp add: p del: expire_from.simps split: option.split)
  note frame = pop_if_frame [OF p]
  show ?case
  proof (cases "d = d0")
    case True
    have "TimedOut c (mFutureTime d) (clock s) \<in> set (happened s2)"
      using hand_called [OF "1.prems"(1)] "1.prems"(2) True by (simp add: frame)
    then show ?thesis
      unfolding step using expire_from_keeps(2) [of s2 react w t] by (cases x) (auto simp del: expire_from.simps)
  next
    case False
    have ok: "timers_ok {#} ?s1"
      by (rule delegate_expire_ok [OF "1.prems"(1)])
    have due: "d \<in># objects (mTree (containers ?s1 w))" "mFutureTime d \<le> t"
      using "1.prems"(4) False by auto
    obtain d' where x: "x = Some d'" "pop_timer w ?s1 = (Some d', s2)"
      and left: "d = d' \<or> d \<in># objects (mTree (containers s2 w))"
      using pops_due [OF ok due] p by auto
    have "TimedOut c (mFutureTime d) (clock s2) \<in> set (happened (expire_from react w t d' s2))"
      using "1.IH" [OF p [symmetric] x(1) pop_ok(1) [OF ok x(2)]] other_runs [OF "1.prems"(1,2) False "1.prems"(3)]
        "1.prems"(3) left due(2) by (auto simp: frame)
    then show ?thesis
      unfolding step x by (simp add: frame delegate_expire_frame del: expire_from.simps)
  qed
qed

lemma expire_leaves:
  assumes "timers_ok {#d0#} s"
  shows "\<forall>d \<in># objects (mTree (containers (expire_from react w t d0 s) w)). t < mFutureTime d"
  using assms
proof (induction react w t d0 s rule: expire_from.induct)
  case (1 react w t d0 s)
  let ?s1 = "delegate_expire react d0 s"
  have ok: "timers_ok {#} ?s1"
    by (rule delegate_expire_ok [OF "1.prems"])
  obtain x s2 where p: "popIfOutRanks w t ?s1 = (x, s2)"
    by fastforce
  have step: "expire_from react w t d0 s = (case x of None \<Rightarrow> s2 | Some d' \<Rightarrow> expire_from react w t d' s2)"
    by (subst expire_from.simps) (simp add: p del: expire_from.simps split: option.split)
  show ?case
  proof (cases x)
    case None
    with p have "s2 = ?s1"
      using no_pop_same by simp
    moreover have "t < mFutureTime d" if "d \<in># objects (mTree (containers ?s1 w))" for d
    proof (rule ccontr)
      assume "\<not> t < mFutureTime d"
      then have "mFutureTime d \<le> t"
        by simp
      from pops_due [OF ok that this] p None show False
        by auto
    qed
    ultimately show ?thesis
      unfolding step by (simp add: None)
  next
    case (Some d')
    then have "pop_timer w ?s1 = (Some d', s2)"
      using p by (auto simp: popIfOutRanks_def split: option.splits if_splits)
    then show ?thesis
      using "1.IH" [OF p [symmetric] Some pop_ok(1) [OF ok]] unfolding step by (simp add: Some del: expire_from.simps)
  qed
qed

section \<open>Starts and their ends\<close>

fun starts :: "nat \<Rightarrow> timer_event \<Rightarrow> bool" where
  "starts c (Started c') \<longleftrightarrow> c' = c"
| "starts c _ \<longleftrightarrow> False"

fun ends :: "nat \<Rightarrow> timer_event \<Rightarrow> bool" where
  "ends c (Stopped c') \<longleftrightarrow> c' = c"
| "ends c (TimedOut c' due at) \<longleftrightarrow> c' = c"
| "ends c _ \<longleftrightarrow> False"

definition running :: "timers \<Rightarrow> nat \<Rightarrow> nat" where
  "running s c = (if mTimer s c = None then 0 else 1)"

definition answered :: "timers \<Rightarrow> bool" where
  "answered s \<longleftrightarrow> (\<forall>c. length (filter (starts c) (happened s)) =
     length (filter (ends c) (happened s)) + running s c)"

lemma answered_cong: "mTimer s' = mTimer s \<Longrightarrow> happened s' = happened s \<Longrightarrow> answered s' = answered s"
  by (simp add: answered_def running_def)

lemma answered_frame [simp]:
  "answered (s\<lparr>delegates := f\<rparr>) = answered s" "answered (s\<lparr>msgs := ms\<rparr>) = answered s"
  "answered (s\<lparr>clock := t\<rparr>) = answered s" "answered (s\<lparr>dangling := b\<rparr>) = answered s"
  "answered (set_container w g s) = answered s" "answered (sendMsg m s) = answered s"
  by (simp_all add: answered_def running_def set_container_def sendMsg_def)

lemma timer_call_answered: "answered s \<Longrightarrow> answered (call_timer a s)"
  by (cases a) (auto simp: answered_def running_def timer_start_def timer_stop_def destroyLocked_def sendMsg_def
      happens_def Let_def split: option.splits)

lemma timer_calls_answered: "answered s \<Longrightarrow> answered (fold call_timer as s)"
  by (induction "as" arbitrary: s) (auto simp: timer_call_answered)

lemma stop_answered:
  "answered s \<Longrightarrow> timer_stop c s = (True, s1) \<Longrightarrow> answered (happens (TimedOut c due at) s1)"
  by (auto simp: answered_def running_def timer_stop_def destroyLocked_def sendMsg_def happens_def Let_def
      split: option.splits)

lemma no_stop_same: "timer_stop c s = (False, s1) \<Longrightarrow> s1 = s"
  by (auto simp: timer_stop_def split: option.splits)

lemma delegate_expire_answered:
  assumes "answered s"
  shows "answered (delegate_expire react d s)"
proof (cases "delegates s d")
  case None
  with assms show ?thesis
    by (simp add: delegate_expire_def)
next
  case (Some x)
  show ?thesis
  proof (cases "mClient x")
    case None
    with Some assms show ?thesis
      by (simp add: delegate_expire_def)
  next
    case (Some c)
    obtain ok s1 where s1: "timer_stop c s = (ok, s1)"
      by fastforce
    then show ?thesis
      using assms stop_answered [OF assms, of c s1] no_stop_same [of c s s1]
      by (cases ok) (simp_all add: delegate_expire_def \<open>delegates s d = Some x\<close> Some timer_calls_answered)
  qed
qed

lemma pop_answered: "pop_timer w s = (x, s') \<Longrightarrow> answered s' = answered s"
  by (auto simp: pop_timer_def split: option.splits)

lemma update_answered [simp]: "answered (updateSoonestTime w p s) = answered s"
  by (rule answered_cong)
    (auto simp: updateSoonestTime_def settime_def addPoll_def removePoll_def set_container_def Let_def
      split: option.split)

lemma expire_from_answered: "answered s \<Longrightarrow> answered (expire_from react w t d s)"
proof (rule expire_from_inv)
  fix s x s'
  assume "answered s" "popIfOutRanks w t s = (x, s')"
  then show "answered s'"
    by (auto simp: popIfOutRanks_def pop_answered split: option.splits if_splits)
qed (rule delegate_expire_answered)

lemma proc_answered: "answered s \<Longrightarrow> answered (proc react m s)"
proof (cases m)
  case (MsgTimerExpire w)
  assume "answered s"
  then show ?thesis
    by (auto simp: MsgTimerExpire pop_answered expire_from_answered simp del: expire_from.simps
        split: option.split prod.split)
next
  case (MsgTimerPush w d)
  assume "answered s"
  then show ?thesis
    by (simp add: MsgTimerPush push_timer_def)
next
  case (MsgTimerRemove w d)
  assume "answered s"
  moreover obtain p s' where "remove_timer w d s = (p, s')"
    by fastforce
  moreover from this have "answered s' = answered s"
    by (auto simp: remove_timer_def split: option.splits)
  ultimately show ?thesis
    by (simp add: MsgTimerRemove Let_def)
qed

lemma do_answered: "answered s \<Longrightarrow> timer_do react a s = Some s' \<Longrightarrow> answered s'"
  by (cases a) (auto simp: timer_call_answered proc_answered container_expire_def removePoll_def settime_def
      simp del: proc.simps split: if_splits list.splits)

lemma dos_answered: "answered s \<Longrightarrow> timer_dos react as s = Some s' \<Longrightarrow> answered s'"
  by (induction react "as" s rule: timer_dos.induct) (auto split: option.splits dest: do_answered)

section \<open>The properties\<close>

abbreviation quiet :: "nat \<Rightarrow> timer_call list" where
  "quiet \<equiv> \<lambda>_. []"

text \<open>A delegate that something points to.\<close>

definition pointed_to :: "timers \<Rightarrow> timer \<Rightarrow> bool" where
  "pointed_to s d \<longleftrightarrow> (\<exists>w. d \<in># objects (mTree (containers s w)) \<or> MsgTimerPush w d \<in> set (msgs s) \<or>
     MsgTimerRemove w d \<in> set (msgs s)) \<or> (\<exists>c. mTimer s c = Some d)"

lemma pointed_allocated:
  assumes ok: "timers_ok {#} s" and none: "delegates s d = None"
  shows "\<not> pointed_to s d"
proof -
  note place = timers_okD(4) [OF ok]
  have z: "in_heap s d = 0" "to_push s d = 0" "to_remove s d = 0"
    using timers_okD(2) [OF ok, of d] by (auto simp: life_def none)
  have "d \<notin># objects (mTree (containers s w))" for w
  proof
    assume "d \<in># objects (mTree (containers s w))"
    moreover from this have "wakeOnExpire d = w"
      using place unfolding placed_def by blast
    ultimately show False
      using z(1) by (simp add: in_heap_def count_eq_zero_iff)
  qed
  moreover have "mTimer s c \<noteq> Some d" for c
    using timers_okD(3) [OF ok, of c d] none by auto
  ultimately show ?thesis
    using none_pushed [OF place z(2)] none_removed [OF place z(3)] by (simp add: pointed_to_def)
qed

text \<open>
  C8: whatever the clients call, in their callbacks too, and however that interleaves with the message
  thread and the poll thread: no deleted delegate is used, and every delegate that a heap, a message or a
  client points to is allocated.
\<close>

theorem timer_memory_safe:
  assumes "timer_dos react as no_timers = Some s"
  shows "\<not> dangling s \<and> {d. pointed_to s d} \<subseteq> dom (delegates s)"
proof -
  have ok: "timers_ok {#} s"
    by (rule dos_ok [OF timers_none assms])
  then show ?thesis
    using timers_okD(1) [OF ok] pointed_allocated [OF ok] by auto
qed

text \<open>A run: two timers, the first is stopped when it is due and the poll thread has woken up for it.\<close>

definition early_run :: "timer_step list" where
  "early_run = [Call (Start 0 10000 False), Call (Start 1 100000 False), Task, Task, Tick (Timespec 10 0),
     Call (Stop 0), Poll False, Task]"

definition late_timer :: timer where
  "late_timer = \<lparr>addr = 1, mFutureTime = Timespec 100 0, wakeOnExpire = False\<rparr>"

definition early_end :: timers where
  "early_end = \<lparr>mTimer = (\<lambda>_. None)(1 \<mapsto> late_timer),
     delegates = (\<lambda>_. None)(late_timer \<mapsto> \<lparr>mClient = Some 1, mContainer = Some False\<rparr>), next_addr = 2,
     containers = (\<lambda>_. \<lparr>mTree = Null, armed = None, polled = False\<rparr>)
       (False := \<lparr>mTree = HeapNode 1 late_timer Null Null, armed = Some (Timespec 100 0), polled = True\<rparr>),
     msgs = [MsgTimerExpire False], clock = Timespec 10 0, happened = [Started 0, Started 1, Stopped 0],
     dangling = False\<rparr>"

lemmas run_simps = no_timers_def timer_start_def timer_stop_def destroyLocked_def sendMsg_def happens_def
  futureTime_def push_timer_def remove_timer_def updateSoonestTime_def getSoonestTimer_def peek_data
  settime_def addPoll_def removePoll_def set_container_def container_expire_def gone_off_def outRanks_def
  timer_ranks_def less_eq_timespec_def with_data_def Let_def

lemma early_run_ends: "timer_dos quiet early_run no_timers = Some early_end"
  by (simp add: early_run_def early_end_def late_timer_def run_simps fun_eq_iff)

theorem timer_memory_safe_witness: "\<not> dangling early_end \<and> {d. pointed_to early_end d} \<subseteq> dom (delegates early_end)"
  by (rule timer_memory_safe [OF early_run_ends])

text \<open>
  C10: in every run, while no expiry message is on its way for a container with timers, its fd is polled
  and its kernel timer is set to the time of a timer in its heap that none in the heap is sooner than.
\<close>

theorem kernel_timer_is_soonest:
  assumes "timer_dos react as no_timers = Some s" and "\<not> expiry_sent w s"
    and "mTree (containers s w) \<noteq> Null"
  shows "polled (containers s w) \<and> (\<exists>d. d \<in># objects (mTree (containers s w)) \<and>
    armed (containers s w) = Some (mFutureTime d) \<and>
    {d' \<in> set_mset (objects (mTree (containers s w))). mFutureTime d' < mFutureTime d} = {})"
proof -
  have ok: "timers_ok {#} s"
    by (rule dos_ok [OF timers_none assms(1)])
  have "set_for_top (containers s w)"
    using dos_ready [OF timers_none ready_none assms(1)] assms(2) by (auto simp: kernel_ready_def)
  moreover have "mData (mTree (containers s w)) \<in># objects (mTree (containers s w))"
    by (rule soonest.data_in [OF assms(3)])
  moreover have "\<not> mFutureTime d < mFutureTime (mData (mTree (containers s w)))"
    if "d \<in># objects (mTree (containers s w))" for d
    using soonest.data_top [OF timers_okD(6) [OF ok] that] by (simp add: outranks_sooner)
  ultimately show ?thesis
    using assms(3) by (auto simp: set_for_top_def)
qed

definition set_run :: "timer_step list" where
  "set_run = [Call (Start 0 10000 False), Task]"

definition set_end :: timers where
  "set_end = \<lparr>mTimer = (\<lambda>_. None)(0 \<mapsto> \<lparr>addr = 0, mFutureTime = Timespec 10 0, wakeOnExpire = False\<rparr>),
     delegates = (\<lambda>_. None)(\<lparr>addr = 0, mFutureTime = Timespec 10 0, wakeOnExpire = False\<rparr> \<mapsto>
       \<lparr>mClient = Some 0, mContainer = Some False\<rparr>), next_addr = 1,
     containers = (\<lambda>_. \<lparr>mTree = Null, armed = None, polled = False\<rparr>)
       (False := \<lparr>mTree = HeapNode 1 \<lparr>addr = 0, mFutureTime = Timespec 10 0, wakeOnExpire = False\<rparr> Null Null,
          armed = Some (Timespec 10 0), polled = True\<rparr>),
     msgs = [], clock = Timespec 0 0, happened = [Started 0], dangling = False\<rparr>"

lemma set_run_ends: "timer_dos quiet set_run no_timers = Some set_end"
  by (simp add: set_run_def set_end_def run_simps fun_eq_iff)

theorem kernel_timer_is_soonest_witness: "polled (containers set_end False)"
  using kernel_timer_is_soonest [OF set_run_ends, of False]
  by (simp add: set_end_def expiry_sent_def)

text \<open>
  C9: a timer that is running and due, with no message left to handle, is called back by the next turn
  of the poll thread and the turn of the message thread after it, unless a callback stops it.
\<close>

theorem due_timer_called:
  assumes run: "timer_dos react as no_timers = Some s" and "msgs s = []" and m: "mTimer s c = Some d"
    and due: "mFutureTime d \<le> clock s" and "\<And>c'. Stop c \<notin> set (react c')"
  shows "\<exists>s'. timer_dos react [Poll (wakeOnExpire d), Task] s = Some s' \<and>
    TimedOut c (mFutureTime d) (clock s) \<in> set (happened s')"
proof -
  let ?w = "wakeOnExpire d"
  let ?k = "containers s ?w"
  have ok: "timers_ok {#} s"
    by (rule dos_ok [OF timers_none run])
  obtain x where x: "delegates s d = Some x" "mClient x = Some c"
    using timers_okD(3) [OF ok m] by blast
  then have "in_heap s d = 1"
    using timers_okD(2) [OF ok, of d] assms(2) by (auto simp: life_def to_push_def)
  then have d: "d \<in># objects (mTree ?k)"
    by (metis count_eq_zero_iff in_heap_def one_neq_zero)
  then have n: "mTree ?k \<noteq> Null"
    by auto
  then have set: "polled ?k" "armed ?k = Some (mFutureTime (mData (mTree ?k)))"
    using dos_ready [OF timers_none ready_none run] assms(2)
    by (auto simp: kernel_ready_def expiry_sent_def set_for_top_def)
  have "\<not> outRanks d (mData (mTree ?k))"
    by (rule soonest.data_top [OF timers_okD(6) [OF ok] d])
  then have "gone_off ?w s"
    using due set by (simp add: gone_off_def outranks_sooner)
  moreover define s1 where "s1 = removePoll ?w (settime ?w None s)"
  ultimately have poll: "timer_do react (Poll ?w) s = Some (sendMsg (MsgTimerExpire ?w) s1)"
    by (simp add: container_expire_def)
  have s1: "timers_ok {#} s1" "mTree (containers s1 ?w) = mTree ?k" "mTimer s1 = mTimer s" "clock s1 = clock s"
    "msgs s1 = []"
    using ok assms(2) by (simp_all add: s1_def removePoll_def settime_def kernel_ok) (simp_all add: set_container_def)
  let ?s2 = "proc react (MsgTimerExpire ?w) s1"
  obtain d0 s2 where p: "pop_timer ?w s1 = (Some d0, s2)" and left: "d = d0 \<or> d \<in># objects (mTree (containers s2 ?w))"
    by (rule pops_due [OF s1(1), of d ?w "clock s"]) (use d due s1(2) in auto)
  have "mTimer s2 = mTimer s1" "clock s2 = clock s1"
    using p by (auto simp: pop_timer_def set_container_def split: option.splits)
  then have "TimedOut c (mFutureTime d) (clock s) \<in> set (happened (expire_from react ?w (clock s) d0 s2))"
    using expire_calls [OF pop_ok(1) [OF s1(1) p], of c d react ?w "clock s"] assms(5) left m due
    by (simp add: s1 del: expire_from.simps)
  moreover have "happened (updateSoonestTime w t s') = happened s'" for w t s'
    by (auto simp: updateSoonestTime_def settime_def addPoll_def removePoll_def set_container_def Let_def
        split: option.split)
  ultimately have "TimedOut c (mFutureTime d) (clock s) \<in> set (happened ?s2)"
    by (simp add: p s1 del: expire_from.simps)
  moreover have "timer_do react Task (sendMsg (MsgTimerExpire ?w) s1) = Some ?s2"
  proof -
    have same: "s1\<lparr>msgs := []\<rparr> = s1"
      using s1(5) by (cases s1) simp
    show ?thesis
      by (simp add: sendMsg_def s1(5) del: proc.simps) (simp only: same)
  qed
  ultimately show ?thesis
    by (simp add: poll del: timer_do.simps proc.simps)
qed

lemma due_run_ends: "timer_dos quiet (set_run @ [Tick (Timespec 11 0)]) no_timers = Some (set_end\<lparr>clock := Timespec 11 0\<rparr>)"
  by (simp add: set_run_def set_end_def run_simps fun_eq_iff)

theorem due_timer_called_witness:
  "\<exists>s'. timer_dos quiet [Poll False, Task] (set_end\<lparr>clock := Timespec 11 0\<rparr>) = Some s' \<and>
     TimedOut 0 (Timespec 10 0) (Timespec 11 0) \<in> set (happened s')"
  using due_timer_called [OF due_run_ends, of 0 "\<lparr>addr = 0, mFutureTime = Timespec 10 0, wakeOnExpire = False\<rparr>"]
  by (simp add: set_end_def less_eq_timespec_def del: timer_dos.simps)

text \<open>
  Every start that returned true is answered by at most one end, a stop that returned true or a
  callback, and by exactly one unless the timer is still running.
\<close>

theorem starts_answered_once:
  assumes "timer_dos react as no_timers = Some s"
  shows "length (filter (starts c) (happened s)) =
    length (filter (ends c) (happened s)) + (if mTimer s c = None then 0 else 1)"
proof -
  have "answered no_timers"
    by (simp add: answered_def no_timers_def running_def)
  from dos_answered [OF this assms] show ?thesis
    by (simp add: answered_def running_def)
qed

theorem starts_answered_once_witness: "length (filter (ends 0) (happened early_end)) = 1"
  using starts_answered_once [OF early_run_ends, of 0] by (simp add: early_end_def)

text \<open>
  The handler of an expiry message takes the soonest timer of the container whatever its time: in
  any run where an expiry message comes to be handled, the client of the soonest timer is called back,
  due or not. In the run of the witness the timer that was due has been stopped meanwhile and a client is
  called 90 seconds early.
\<close>

theorem soonest_called_due_or_not:
  assumes run: "timer_dos react as no_timers = Some s" and msgs: "msgs s = MsgTimerExpire w # ms"
    and top: "getSoonestTimer w s = Some d" and m: "mTimer s c = Some d"
  shows "\<exists>s'. timer_do react Task s = Some s' \<and> TimedOut c (mFutureTime d) (clock s) \<in> set (happened s')"
proof -
  let ?s = "s\<lparr>msgs := ms\<rparr>"
  have ok: "timers_ok {#} ?s"
    by (rule took_expire [OF dos_ok [OF timers_none run] msgs])
  obtain t where t: "heap_pop outRanks (mTree (containers s w)) = Some (d, t)"
    using soonest.pop_sorted [OF timers_okD(6) [OF ok], of w] top
    by (auto simp: soonest.popped_def getSoonestTimer_def peek_data split: if_splits)
  define s1 where "s1 = set_container w (\<lambda>k. k\<lparr>mTree := t\<rparr>) ?s"
  have p: "pop_timer w ?s = (Some d, s1)"
    by (simp add: pop_timer_def t s1_def)
  have s1: "mTimer s1 c = Some d" "clock s1 = clock s"
    using m by (simp_all add: s1_def set_container_def)
  have "TimedOut c (mFutureTime d) (clock s) \<in> set (happened (expire_from react w (clock s) d s1))"
  proof -
    obtain x s2 where x: "popIfOutRanks w (clock s) (delegate_expire react d s1) = (x, s2)"
      by fastforce
    have "TimedOut c (mFutureTime d) (clock s) \<in> set (happened s2)"
      using hand_called [OF pop_ok(1) [OF ok p] s1(1), of react] by (simp add: s1 pop_if_frame [OF x])
    then show ?thesis
      using expire_from_keeps(2) [of s2 react w "clock s"]
      by (subst expire_from.simps) (auto simp: x simp del: expire_from.simps split: option.split)
  qed
  moreover have "happened (updateSoonestTime w t s') = happened s'" for w t s'
    by (auto simp: updateSoonestTime_def settime_def addPoll_def removePoll_def set_container_def Let_def
        split: option.split)
  ultimately show ?thesis
    by (simp add: msgs p del: expire_from.simps)
qed

theorem soonest_called_due_or_not_witness:
  "\<exists>s'. timer_do quiet Task early_end = Some s' \<and> TimedOut 1 (Timespec 100 0) (Timespec 10 0) \<in> set (happened s')"
  using soonest_called_due_or_not [OF early_run_ends, of False "[]" late_timer 1]
  by (simp add: early_end_def getSoonestTimer_def peek_data late_timer_def del: timer_do.simps)

text \<open>The last timer of a container that is removed leaves the kernel timer set and polled.\<close>

lemma last_removal_leaves_alarm:
  assumes "timer_dos react as no_timers = Some s" "msgs s = MsgTimerRemove w d # ms"
    "mTree (containers s w) = HeapNode n d Null Null"
  shows "\<exists>s'. timer_do react Task s = Some s' \<and> mTree (containers s' w) = Null \<and>
    armed (containers s' w) = armed (containers s w) \<and> polled (containers s' w) = polled (containers s w)"
proof -
  obtain x where "delegates s d = Some x"
    using took_remove(2) [OF dos_ok [OF timers_none assms(1)] assms(2)] by blast
  then show ?thesis
    by (simp add: assms(2,3) remove_timer_def set_container_def updateSoonestTime_def getSoonestTimer_def
        peek_data Let_def)
qed

text \<open>
  C29: on a heap that passes its check, push adds the object; pop gives nothing exactly on the empty
  heap, else an object that no other outranks, and takes it out; remove takes out the object it is given,
  and gives nothing exactly when the object is not there. The results pass the check.
\<close>

theorem heap_refines_multiset:
  assumes "checkNodes outRanks t"
  shows "objects (heap_push outRanks d t) = add_mset d (objects t) \<and> checkNodes outRanks (heap_push outRanks d t) \<and>
    (case heap_pop outRanks t of
       None \<Rightarrow> objects t = {#}
     | Some (p, t') \<Rightarrow> objects t = add_mset p (objects t') \<and> checkNodes outRanks t' \<and>
         {y. y \<in># objects t \<and> outRanks y p} = {}) \<and>
    (case heap_remove outRanks d t of
       None \<Rightarrow> d \<notin># objects t
     | Some (p, t') \<Rightarrow> p = d \<and> objects t = add_mset d (objects t') \<and> checkNodes outRanks t')"
proof -
  have t: "soonest.sorted_heap t"
    using assms by (simp add: soonest.check_sorted)
  have "case heap_pop outRanks t of
       None \<Rightarrow> objects t = {#}
     | Some (p, t') \<Rightarrow> objects t = add_mset p (objects t') \<and> soonest.sorted_heap t' \<and>
         {y. y \<in># objects t \<and> outRanks y p} = {}"
  proof (cases "t = Null")
    case False
    from soonest.pop_sorted [OF t this] obtain t' where "heap_pop outRanks t = Some (mData t, t')"
      "objects t = add_mset (mData t) (objects t')" "soonest.sorted_heap t'"
      by (auto simp: soonest.popped_def)
    moreover have "{y. y \<in># objects t \<and> outRanks y (mData t)} = {}"
      using soonest.data_top [OF t] by blast
    ultimately show ?thesis
      by simp
  qed simp
  then show ?thesis
    using soonest.remove_sorted [OF t, of d] soonest.push_sorted [OF t, of d]
    by (simp add: soonest.check_sorted soonest.push_objects split: option.splits prod.splits)
qed

theorem heap_refines_multiset_witness:
  "objects (heap_push outRanks late_timer (HeapNode 1 late_timer Null Null)) = {#late_timer, late_timer#}"
  using heap_refines_multiset [of "HeapNode 1 late_timer Null Null" late_timer] by simp

text \<open>
  A heap that objects were only pushed to is nearly complete: its height is at most one more than
  the binary logarithm of the number of objects.
\<close>

theorem pushed_heap_is_flat:
  assumes "xs \<noteq> []"
  shows "2 ^ height (fold (heap_push out) xs Null) \<le> 2 * length xs"
proof -
  have n: "nodes (fold (heap_push out) xs Null) = length xs"
    using pushes_nodes [of out xs Null] by simp
  with assms have "fold (heap_push out) xs Null \<noteq> Null"
    by (metis length_0_conv nodes.simps(1))
  from even_height [OF pushes_even this] show ?thesis
    by (simp add: n)
qed

theorem pushed_heap_is_flat_witness: "2 ^ height (fold (heap_push (\<lambda>x y. x < y)) [3, 1, 2 :: nat] Null) \<le> (6 :: nat)"
  using pushed_heap_is_flat [of "[3, 1, 2 :: nat]" "\<lambda>x y. x < y"] by simp

text \<open>
  The time a timer is due is a normal time, as long as the clock stays 50 days away from the last
  second of 31 bits; it is the clock plus the timeout, to the nanosecond, and the sum of the nanoseconds
  on the way stays in 32 bits. Two normal times differ by a rank that fits an \<open>int\<close>.
\<close>

theorem future_time_exact:
  assumes "normal_time t" and "tv_sec t < 2 ^ 31 - 4294969"
  shows "normal_time (futureTime ms t) \<and>
    tv_sec (futureTime ms t) * 10 ^ 9 + tv_nsec (futureTime ms t) =
      tv_sec t * 10 ^ 9 + tv_nsec t + uint ms * 10 ^ 6 \<and>
    tv_nsec t + uint ((ms mod 1000) * 1000000) < 2 ^ 31 \<and>
    (\<forall>a b. \<bar>timer_ranks a b\<bar> < 2 ^ 31 \<or> \<not> (normal_time (mFutureTime a) \<and> normal_time (mFutureTime b)))"
proof -
  have m: "uint (ms mod 1000) = uint ms mod 1000" "uint (ms div 1000) = uint ms div 1000"
    by (simp_all add: uint_mod uint_div)
  have "uint ((ms mod 1000) * 1000000) = (uint ms mod 1000) * 1000000"
  proof -
    have "(uint ms mod 1000) * 1000000 < 2 ^ 32"
      using pos_mod_bound [of 1000 "uint ms"] by simp
    then show ?thesis
      by (simp add: uint_word_ariths m)
  qed
  then have ms: "uint ((ms mod 1000) * 1000000) = uint ms mod 1000 * 1000000" .
  define q r where "q = uint ms div 1000" and "r = uint ms mod 1000"
  have qr: "uint ms = 1000 * q + r" "0 \<le> r" "r < 1000"
    by (simp_all add: q_def r_def)
  moreover have "uint ms < 4294967296" "0 \<le> uint ms"
    using uint_lt2p [of ms] by simp_all
  ultimately have q: "0 \<le> q" "q \<le> 4294967"
    by linarith+
  define n where "n = tv_nsec t + r * 1000000"
  define k l where "k = n div 1000000000" and "l = n mod 1000000000"
  have kl: "n = 1000000000 * k + l" "0 \<le> l" "l < 1000000000"
    by (simp_all add: k_def l_def)
  have t: "0 \<le> tv_sec t" "0 \<le> tv_nsec t" "tv_nsec t < 1000000000" "tv_sec t < 2143188679"
    using assms by (simp_all add: normal_time_def)
  have ft: "futureTime ms t = (if 1000000000 \<le> n then Timespec (tv_sec t + q + k) l else Timespec (tv_sec t + q) n)"
    by (simp add: futureTime_def Let_def m ms n_def q_def r_def k_def l_def)
  have nb: "0 \<le> n" "n < 2000000000"
    using t qr(2,3) by (simp_all add: n_def)
  with kl have k: "0 \<le> k" "k \<le> 1"
    by linarith+
  have "normal_time (futureTime ms t)"
    using t q k kl nb by (auto simp: ft normal_time_def)
  moreover have "tv_sec (futureTime ms t) * 10 ^ 9 + tv_nsec (futureTime ms t) =
      tv_sec t * 10 ^ 9 + tv_nsec t + uint ms * 10 ^ 6"
    using kl(1) by (auto simp: ft qr(1) n_def algebra_simps)
  moreover have "tv_nsec t + uint ((ms mod 1000) * 1000000) < 2 ^ 31"
    using nb by (simp add: ms n_def r_def)
  ultimately show ?thesis
    by (auto simp: timer_ranks_def normal_time_def Let_def)
qed

theorem future_time_exact_witness:
  "normal_time (futureTime 1500 (Timespec 7 600000000)) \<and> futureTime 1500 (Timespec 7 600000000) = Timespec 9 100000000"
  using future_time_exact [of "Timespec 7 600000000" 1500] by (simp add: normal_time_def futureTime_def)

end
