(* ===== verification/Loc_Agps.thy ===== *)
theory Loc_Agps
  imports HAL_Prelude
begin

text \<open>
  The subscription of data connections for assisted positioning
  (\<open>src/gps/loc_api/libloc_api_50001/loc_eng_agps.cpp\<close> and \<open>.h\<close>): the subscribers and their
  notifications, the four states, and the two state machines, the one of the framework's connections and
  the one of the emergency data call (\<open>DSStateMachine\<close>).
\<close>

section \<open>Subscribers and notifications\<close>

datatype AgpsRsrcStatus = RSRC_SUBSCRIBE | RSRC_UNSUBSCRIBE | RSRC_GRANTED | RSRC_RELEASED | RSRC_DENIED
  | RSRC_STATUS_MAX

datatype subscriber_kind = BITSubscriber | ATLSubscriber | WIFISubscriber | DSSubscriber

text \<open>
  A subscriber object at its address. Each class has only some of the fields; the bytes of
  \<open>mIPv6Addr\<close> of an object of another class are what lies at that place of it. Objects on the
  stack of a caller have address 0.
\<close>

record subscriber =
  s_at :: nat
  s_kind :: subscriber_kind
  s_ID :: "32 word"
  mIPv6Addr :: "8 word list"
  mIsInactive :: bool
  mBackwardCompatibleMode :: bool

datatype group = BROADCAST_ALL | BROADCAST_ACTIVE | BROADCAST_INACTIVE | NO_GROUP

record notification =
  rcver :: "subscriber option"
  groupID :: group
  rsrcStatus :: AgpsRsrcStatus
  postNotifyDelete :: bool

definition to_group :: "group \<Rightarrow> AgpsRsrcStatus \<Rightarrow> bool \<Rightarrow> notification" where
  "to_group g st del = \<lparr>rcver = None, groupID = g, rsrcStatus = st, postNotifyDelete = del\<rparr>"

definition to_one :: "subscriber \<Rightarrow> AgpsRsrcStatus \<Rightarrow> bool \<Rightarrow> notification" where
  "to_one s st del = \<lparr>rcver = Some s, groupID = NO_GROUP, rsrcStatus = st, postNotifyDelete = del\<rparr>"

text \<open>\<open>strncmp\<close> as far as its result is compared with 0: it stops at a zero byte.\<close>

fun strncmp_eq :: "nat \<Rightarrow> 8 word list \<Rightarrow> 8 word list \<Rightarrow> bool" where
  "strncmp_eq 0 xs ys \<longleftrightarrow> True"
| "strncmp_eq (Suc n) (x # xs) (y # ys) \<longleftrightarrow> x = y \<and> (x = 0 \<or> strncmp_eq n xs ys)"
| "strncmp_eq (Suc n) xs ys \<longleftrightarrow> xs = ys"

abbreviation INADDR_NONE :: "32 word" where "INADDR_NONE \<equiv> 0xffffffff"

definition equals :: "subscriber \<Rightarrow> subscriber \<Rightarrow> bool" where
  "equals me s = (case s_kind me of
     BITSubscriber \<Rightarrow> s_ID me = s_ID s \<and> (s_ID me \<noteq> INADDR_NONE \<or> strncmp_eq 16 (mIPv6Addr me) (mIPv6Addr s))
   | _ \<Rightarrow> s_ID me = s_ID s)"

definition waitForCloseComplete :: "subscriber \<Rightarrow> bool" where
  "waitForCloseComplete s \<longleftrightarrow> s_kind s = WIFISubscriber \<or> s_kind s = DSSubscriber"

definition isInactive :: "subscriber \<Rightarrow> bool" where
  "isInactive s \<longleftrightarrow> waitForCloseComplete s \<and> mIsInactive s"

definition forMe :: "notification \<Rightarrow> subscriber \<Rightarrow> bool" where
  "forMe n s = (case rcver n of
     Some r \<Rightarrow> equals s r
   | None \<Rightarrow> groupID n = BROADCAST_ALL \<or> (groupID n = BROADCAST_ACTIVE \<and> \<not> isInactive s) \<or>
       (groupID n = BROADCAST_INACTIVE \<and> isInactive s))"

section \<open>The machines\<close>

datatype agps_state = AgpsReleasedState | AgpsPendingState | AgpsAcquiredState | AgpsReleasingState

datatype agps_action = GPS_REQUEST_AGPS_DATA_CONN | GPS_RELEASE_AGPS_DATA_CONN

datatype dmn_status = GPSONE_LOC_API_IF_REQUEST_SUCCESS | GPSONE_LOC_API_IF_RELEASE_SUCCESS | GPSONE_LOC_API_IF_FAILURE

text \<open>The calls that leave the machine: to the daemons, to the modem through the adapter, to the framework.\<close>

datatype agps_out =
    ServerDataConn "32 word" dmn_status
  | AtlOpenStatus "32 word" bool "string option" int int
  | AtlCloseStatus "32 word" bool
  | CloseDataCall
  | RequestATL "32 word"
  | RequestSuplES "32 word"
  | RequestRsrc agps_action
  | DelayTimer

record agps =
  is_ds :: bool
  mStatePtr :: agps_state
  mSubscribers :: "subscriber list"
  mType :: int
  mAPN :: "string option"
  mBearer :: int
  mEnforceSingleSubscriber :: bool
  mRetries :: "8 word"
  answers_due :: "int list"
  outs :: "agps_out list"
  next_at :: nat
  freed :: "nat list"
  read_freed :: bool

abbreviation AGPS_TYPE_INVALID :: int where "AGPS_TYPE_INVALID \<equiv> - 1"
abbreviation AGPS_TYPE_SUPL :: int where "AGPS_TYPE_SUPL \<equiv> 1"
abbreviation AGPS_TYPE_WWAN_ANY :: int where "AGPS_TYPE_WWAN_ANY \<equiv> 3"
abbreviation AGPS_TYPE_SUPL_ES :: int where "AGPS_TYPE_SUPL_ES \<equiv> 5"
abbreviation AGPS_APN_BEARER_INVALID :: int where "AGPS_APN_BEARER_INVALID \<equiv> - 1"
abbreviation LOC_API_ADAPTER_ERR_SUCCESS :: int where "LOC_API_ADAPTER_ERR_SUCCESS \<equiv> 0"
abbreviation LOC_API_ADAPTER_ERR_UNSUPPORTED :: int where "LOC_API_ADAPTER_ERR_UNSUPPORTED \<equiv> 2"
abbreviation LOC_API_ADAPTER_ERR_ENGINE_BUSY :: int where "LOC_API_ADAPTER_ERR_ENGINE_BUSY \<equiv> 6"

definition MAX_START_DATA_CALL_RETRIES :: "8 word" where "MAX_START_DATA_CALL_RETRIES = 4"

definition new_machine :: "bool \<Rightarrow> int \<Rightarrow> bool \<Rightarrow> int list \<Rightarrow> agps" where
  "new_machine ds type single ans = \<lparr>is_ds = ds, mStatePtr = AgpsReleasedState, mSubscribers = [], mType = type,
     mAPN = None, mBearer = AGPS_APN_BEARER_INVALID, mEnforceSingleSubscriber = single, mRetries = 0,
     answers_due = ans, outs = [], next_at = 1, freed = [], read_freed = False\<rparr>"

definition out :: "agps_out \<Rightarrow> agps \<Rightarrow> agps" where
  "out e m = m\<lparr>outs := outs m @ [e]\<rparr>"

definition setAPN :: "string option \<Rightarrow> agps \<Rightarrow> agps" where
  "setAPN apn m = m\<lparr>mAPN := apn\<rparr>"

section \<open>Notifying\<close>

definition informStatus :: "AgpsRsrcStatus \<Rightarrow> 32 word \<Rightarrow> agps \<Rightarrow> agps" where
  "informStatus st i m = (case st of
     RSRC_UNSUBSCRIBE \<Rightarrow> out (AtlCloseStatus i True) m
   | RSRC_RELEASED \<Rightarrow> out CloseDataCall m
   | RSRC_DENIED \<Rightarrow> out (RequestATL i) (m\<lparr>mRetries := 0\<rparr>)
   | RSRC_GRANTED \<Rightarrow> out (AtlOpenStatus i True None AGPS_APN_BEARER_INVALID AGPS_TYPE_INVALID) m
   | _ \<Rightarrow> m)"

abbreviation GPSONE_DAEMON :: "32 word" where "GPSONE_DAEMON \<equiv> 3"

definition notify_BIT :: "AgpsRsrcStatus \<Rightarrow> agps \<Rightarrow> bool \<times> agps" where
  "notify_BIT st m = (case st of
     RSRC_UNSUBSCRIBE \<Rightarrow> (True, out (ServerDataConn GPSONE_DAEMON GPSONE_LOC_API_IF_RELEASE_SUCCESS) m)
   | RSRC_RELEASED \<Rightarrow> (True, out (ServerDataConn GPSONE_DAEMON GPSONE_LOC_API_IF_RELEASE_SUCCESS) m)
   | RSRC_DENIED \<Rightarrow> (True, out (ServerDataConn GPSONE_DAEMON GPSONE_LOC_API_IF_FAILURE) m)
   | RSRC_GRANTED \<Rightarrow> (True, out (ServerDataConn GPSONE_DAEMON GPSONE_LOC_API_IF_REQUEST_SUCCESS) m)
   | _ \<Rightarrow> (False, m))"

definition atl_open :: "subscriber \<Rightarrow> bool \<Rightarrow> agps \<Rightarrow> agps" where
  "atl_open s ok m = out (AtlOpenStatus (s_ID s) ok (mAPN m) (mBearer m)
     (if mBackwardCompatibleMode s then AGPS_TYPE_INVALID else mType m)) m"

definition notify_ATL :: "subscriber \<Rightarrow> AgpsRsrcStatus \<Rightarrow> agps \<Rightarrow> bool \<times> agps" where
  "notify_ATL s st m = (case st of
     RSRC_UNSUBSCRIBE \<Rightarrow> (True, out (AtlCloseStatus (s_ID s) True) m)
   | RSRC_RELEASED \<Rightarrow> (True, out (AtlCloseStatus (s_ID s) True) m)
   | RSRC_DENIED \<Rightarrow> (True, atl_open s False m)
   | RSRC_GRANTED \<Rightarrow> (True, atl_open s True m)
   | _ \<Rightarrow> (False, m))"

definition notify_WIFI :: "subscriber \<Rightarrow> AgpsRsrcStatus \<Rightarrow> agps \<Rightarrow> bool \<times> agps" where
  "notify_WIFI s st m = (case st of
     RSRC_UNSUBSCRIBE \<Rightarrow> (True, m)
   | RSRC_RELEASED \<Rightarrow> (True, out (ServerDataConn (s_ID s) GPSONE_LOC_API_IF_RELEASE_SUCCESS) m)
   | RSRC_DENIED \<Rightarrow> (True, out (ServerDataConn (s_ID s) GPSONE_LOC_API_IF_FAILURE) m)
   | RSRC_GRANTED \<Rightarrow> (True, out (ServerDataConn (s_ID s) GPSONE_LOC_API_IF_REQUEST_SUCCESS) m)
   | _ \<Rightarrow> (False, m))"

definition notify_DS :: "subscriber \<Rightarrow> AgpsRsrcStatus \<Rightarrow> agps \<Rightarrow> bool \<times> agps" where
  "notify_DS s st m =
     (if st = RSRC_SUBSCRIBE \<or> st = RSRC_STATUS_MAX then (False, m) else (True, informStatus st (s_ID s) m))"

definition notifyRsrcStatus :: "notification \<Rightarrow> subscriber \<Rightarrow> agps \<Rightarrow> bool \<times> agps" where
  "notifyRsrcStatus n s m =
     (if \<not> forMe n s then (False, m)
      else case s_kind s of
        BITSubscriber \<Rightarrow> notify_BIT (rsrcStatus n) m
      | ATLSubscriber \<Rightarrow> notify_ATL s (rsrcStatus n) m
      | WIFISubscriber \<Rightarrow> notify_WIFI s (rsrcStatus n) m
      | DSSubscriber \<Rightarrow> notify_DS s (rsrcStatus n) m)"

definition notifySubscriber :: "notification \<Rightarrow> subscriber \<Rightarrow> agps \<Rightarrow> bool \<times> agps" where
  "notifySubscriber n s m = (let (b, m1) = notifyRsrcStatus n s m in (b \<and> postNotifyDelete n, m1))"

text \<open>
  \<open>linked_list_search\<close> with that comparison: from the head, up to the first subscriber it is true of,
  which is taken out. The receiver of the notification is read at every subscriber it comes to, and may
  have been deleted by then.
\<close>

fun notify_search :: "notification \<Rightarrow> subscriber list \<Rightarrow> agps \<Rightarrow> (subscriber option \<times> subscriber list) \<times> agps" where
  "notify_search n [] m = ((None, []), m)"
| "notify_search n (s # ss) m =
     (let m0 = (case rcver n of
                  Some r \<Rightarrow> m\<lparr>read_freed := read_freed m \<or> s_at r \<in> set (freed m)\<rparr>
                | None \<Rightarrow> m);
          (b, m1) = notifySubscriber n s m0
      in if b then ((Some s, ss), m1)
         else let ((f, rest), m2) = notify_search n ss m1 in ((f, s # rest), m2))"

lemma subscribers_out [simp]: "mSubscribers (out e m) = mSubscribers m"
  by (simp add: out_def)

lemma subscribers_notify: "mSubscribers (snd (notifyRsrcStatus n s m)) = mSubscribers m"
  by (simp add: notifyRsrcStatus_def notify_BIT_def notify_ATL_def notify_WIFI_def notify_DS_def
      atl_open_def informStatus_def split: subscriber_kind.split AgpsRsrcStatus.split)

lemma subscribers_search: "mSubscribers (snd (notify_search n ss m)) = mSubscribers m"
proof (induction ss arbitrary: m)
  case (Cons s ss)
  have "mSubscribers (snd (notifySubscriber n s m')) = mSubscribers m'" for m'
    using subscribers_notify [of n s m'] by (simp add: notifySubscriber_def split_beta)
  then show ?case
    by (simp add: Let_def split_beta Cons split: option.split)
qed simp

lemma search_shorter:
  "notify_search n ss m = ((Some s, rest), m') \<Longrightarrow> length rest < length ss"
  by (induction ss arbitrary: m m' rest) (auto simp: Let_def split: prod.splits if_splits)

text \<open>The loop that notifies and deletes: a search that deletes returns at the first one.\<close>

function notify_and_delete :: "notification \<Rightarrow> agps \<Rightarrow> agps" where
  "notify_and_delete n m =
     (case notify_search n (mSubscribers m) m of
        ((None, rest), m1) \<Rightarrow> m1
      | ((Some s, rest), m1) \<Rightarrow>
          notify_and_delete n (m1\<lparr>mSubscribers := rest, freed := s_at s # freed m1\<rparr>))"
  by pat_completeness auto
termination
  by (relation "measure (\<lambda>(n, m). length (mSubscribers m))") (auto dest: sym dest!: search_shorter)

definition notifySubscribers :: "notification \<Rightarrow> agps \<Rightarrow> agps" where
  "notifySubscribers n m =
     (if postNotifyDelete n then notify_and_delete n m else snd (notify_search n (mSubscribers m) m))"

section \<open>The list of subscribers\<close>

text \<open>\<open>linked_list_search\<close> with \<open>hasSubscriber\<close>: the first from the head.\<close>

definition find_subscriber :: "notification \<Rightarrow> agps \<Rightarrow> subscriber option" where
  "find_subscriber n m = List.find (forMe n) (mSubscribers m)"

text \<open>A clone has the arguments of the construction: it is active. It goes to the head of the list.\<close>

definition addSubscriber :: "subscriber \<Rightarrow> agps \<Rightarrow> agps" where
  "addSubscriber s m =
     (case find_subscriber (to_one s RSRC_STATUS_MAX False) m of
        Some _ \<Rightarrow> m
      | None \<Rightarrow> m\<lparr>mSubscribers := s\<lparr>s_at := next_at m, mIsInactive := False\<rparr> # mSubscribers m,
                  next_at := next_at m + 1\<rparr>)"

text \<open>\<open>linked_list_flush\<close> deletes every subscriber.\<close>

definition dropAllSubscribers :: "agps \<Rightarrow> agps" where
  "dropAllSubscribers m = m\<lparr>mSubscribers := [], freed := map s_at (mSubscribers m) @ freed m\<rparr>"

definition hasSubscribers :: "agps \<Rightarrow> bool" where
  "hasSubscribers m \<longleftrightarrow> mSubscribers m \<noteq> []"

definition hasActiveSubscribers :: "agps \<Rightarrow> bool" where
  "hasActiveSubscribers m \<longleftrightarrow> find_subscriber (to_group BROADCAST_ACTIVE RSRC_STATUS_MAX False) m \<noteq> None"

definition setInactive :: "subscriber \<Rightarrow> agps \<Rightarrow> agps" where
  "setInactive s m =
     (let m1 = m\<lparr>mSubscribers := map (\<lambda>x. if s_at x = s_at s then x\<lparr>mIsInactive := True\<rparr> else x) (mSubscribers m)\<rparr>
      in case s_kind s of
        WIFISubscriber \<Rightarrow> m1
      | DSSubscriber \<Rightarrow> informStatus RSRC_UNSUBSCRIBE (s_ID s) m1
      | _ \<Rightarrow> m)"

section \<open>Requests to the framework\<close>

text \<open>The framework's machine asks only when the list fits the request.\<close>

definition sendRsrcRequest_agps :: "agps_action \<Rightarrow> agps \<Rightarrow> int \<times> agps" where
  "sendRsrcRequest_agps action m =
     (let s = find_subscriber (to_group BROADCAST_ACTIVE RSRC_STATUS_MAX False) m
      in (0, if (s = None) = (action = GPS_RELEASE_AGPS_DATA_CONN) then out (RequestRsrc action) m else m))"

text \<open>
  The data call: the modem's answer to a request is the next of \<open>answers_due\<close>, a release always succeeds.
  \<open>loc_timer_start\<close> returns the handle of the timer, which the code takes for an error.
\<close>

definition dataCallCb :: "agps_action \<Rightarrow> agps \<Rightarrow> int \<times> agps" where
  "dataCallCb action m =
     (if action = GPS_REQUEST_AGPS_DATA_CONN
      then (case answers_due m of [] \<Rightarrow> LOC_API_ADAPTER_ERR_SUCCESS | x # _ \<Rightarrow> x,
            out (RequestRsrc action) (m\<lparr>answers_due := tl (answers_due m)\<rparr>))
      else (0, out (RequestRsrc action) m))"

definition sendRsrcRequest_DS :: "agps_action \<Rightarrow> agps \<Rightarrow> int \<times> agps" where
  "sendRsrcRequest_DS action m =
     (let connHandle = (case find_subscriber (to_group BROADCAST_ACTIVE RSRC_STATUS_MAX False) m of
                          Some s \<Rightarrow> s_ID s | None \<Rightarrow> - 1);
          (r, m1) = dataCallCb action m
      in if r = LOC_API_ADAPTER_ERR_ENGINE_BUSY then
           let m2 = m1\<lparr>mRetries := mRetries m1 + 1\<rparr>
           in if mRetries m2 > MAX_START_DATA_CALL_RETRIES then (r, informStatus RSRC_DENIED connHandle m2)
              else (- 1, out DelayTimer m2)
         else if r = LOC_API_ADAPTER_ERR_UNSUPPORTED \<or> r = - 1 then (r, informStatus RSRC_DENIED connHandle m1)
         else (r, m1))"

definition sendRsrcRequest :: "agps_action \<Rightarrow> agps \<Rightarrow> int \<times> agps" where
  "sendRsrcRequest action m = (if is_ds m then sendRsrcRequest_DS action m else sendRsrcRequest_agps action m)"

definition retryCallback :: "agps \<Rightarrow> agps" where
  "retryCallback m =
     (case find_subscriber (to_group BROADCAST_ACTIVE RSRC_STATUS_MAX False) m of
        Some s \<Rightarrow> out (RequestSuplES (s_ID s)) m
      | None \<Rightarrow> m)"

section \<open>The states\<close>

definition onRsrcEvent_Released :: "AgpsRsrcStatus \<Rightarrow> subscriber option \<Rightarrow> agps \<Rightarrow> agps_state \<times> agps" where
  "onRsrcEvent_Released event data m = (case (event, data) of
     (RSRC_SUBSCRIBE, Some s) \<Rightarrow>
       (let (r, m1) = sendRsrcRequest GPS_REQUEST_AGPS_DATA_CONN (addSubscriber s m)
        in (if r = 0 then AgpsPendingState else AgpsReleasedState, m1))
   | (RSRC_UNSUBSCRIBE, Some s) \<Rightarrow> (AgpsReleasedState, snd (notifyRsrcStatus (to_one s event False) s m))
   | _ \<Rightarrow> (AgpsReleasedState, m))"

text \<open>What three states do when a subscriber leaves.\<close>

definition take_leave :: "subscriber \<Rightarrow> agps \<Rightarrow> agps" where
  "take_leave s m =
     (if waitForCloseComplete s then setInactive s m
      else notifySubscribers (to_one s RSRC_UNSUBSCRIBE True) m)"

definition leave_or_release :: "agps_state \<Rightarrow> subscriber \<Rightarrow> agps \<Rightarrow> agps_state \<times> agps" where
  "leave_or_release st s m =
     (let m1 = take_leave s m
      in if \<not> hasSubscribers m1 then (AgpsReleasedState, snd (sendRsrcRequest GPS_RELEASE_AGPS_DATA_CONN m1))
         else if \<not> hasActiveSubscribers m1 then (AgpsReleasingState, snd (sendRsrcRequest GPS_RELEASE_AGPS_DATA_CONN m1))
         else (st, m1))"

definition onRsrcEvent_Pending :: "AgpsRsrcStatus \<Rightarrow> subscriber option \<Rightarrow> agps \<Rightarrow> agps_state \<times> agps" where
  "onRsrcEvent_Pending event data m = (case (event, data) of
     (RSRC_SUBSCRIBE, Some s) \<Rightarrow> (AgpsPendingState, addSubscriber s m)
   | (RSRC_UNSUBSCRIBE, Some s) \<Rightarrow> leave_or_release AgpsPendingState s m
   | (RSRC_GRANTED, _) \<Rightarrow> (AgpsAcquiredState, notifySubscribers (to_group BROADCAST_ACTIVE event False) m)
   | (RSRC_DENIED, _) \<Rightarrow> (AgpsReleasedState, notifySubscribers (to_group BROADCAST_ALL event True) m)
   | _ \<Rightarrow> (AgpsPendingState, m))"

definition onRsrcEvent_Acquired :: "AgpsRsrcStatus \<Rightarrow> subscriber option \<Rightarrow> agps \<Rightarrow> agps_state \<times> agps" where
  "onRsrcEvent_Acquired event data m = (case (event, data) of
     (RSRC_SUBSCRIBE, Some s) \<Rightarrow>
       (AgpsAcquiredState, addSubscriber s (snd (notifyRsrcStatus (to_one s RSRC_GRANTED False) s m)))
   | (RSRC_UNSUBSCRIBE, Some s) \<Rightarrow> leave_or_release AgpsAcquiredState s m
   | (RSRC_RELEASED, _) \<Rightarrow> (AgpsReleasedState, notifySubscribers (to_group BROADCAST_ALL event True) m)
   | _ \<Rightarrow> (AgpsAcquiredState, m))"

definition onRsrcEvent_Releasing :: "AgpsRsrcStatus \<Rightarrow> subscriber option \<Rightarrow> agps \<Rightarrow> agps_state \<times> agps" where
  "onRsrcEvent_Releasing event data m = (case (event, data) of
     (RSRC_SUBSCRIBE, Some s) \<Rightarrow> (AgpsReleasingState, addSubscriber s m)
   | (RSRC_UNSUBSCRIBE, Some s) \<Rightarrow>
       (let m1 = take_leave s m in (if hasSubscribers m1 then AgpsReleasingState else AgpsReleasedState, m1))
   | (e, _) \<Rightarrow>
       (if e = RSRC_DENIED \<or> e = RSRC_RELEASED then
          let m1 = notifySubscribers (to_group BROADCAST_INACTIVE event True) m
          in if hasActiveSubscribers m1 then (AgpsPendingState, snd (sendRsrcRequest GPS_REQUEST_AGPS_DATA_CONN m1))
             else (AgpsReleasedState, m1)
        else (AgpsReleasingState, m)))"

definition state_event :: "AgpsRsrcStatus \<Rightarrow> subscriber option \<Rightarrow> agps \<Rightarrow> agps" where
  "state_event event data m =
     (let (st, m1) = (case mStatePtr m of
        AgpsReleasedState \<Rightarrow> onRsrcEvent_Released event data m
      | AgpsPendingState \<Rightarrow> onRsrcEvent_Pending event data m
      | AgpsAcquiredState \<Rightarrow> onRsrcEvent_Acquired event data m
      | AgpsReleasingState \<Rightarrow> onRsrcEvent_Releasing event data m)
      in m1\<lparr>mStatePtr := st\<rparr>)"

section \<open>The operations\<close>

definition onRsrcEvent_agps :: "AgpsRsrcStatus \<Rightarrow> agps \<Rightarrow> agps" where
  "onRsrcEvent_agps event m =
     (if event = RSRC_GRANTED \<or> event = RSRC_RELEASED \<or> event = RSRC_DENIED then state_event event None m else m)"

text \<open>In the machine of the data call a release that changes nothing is taken for a denial.\<close>

definition onRsrcEvent_DS :: "AgpsRsrcStatus \<Rightarrow> agps \<Rightarrow> agps" where
  "onRsrcEvent_DS event m =
     (if event = RSRC_GRANTED \<or> event = RSRC_DENIED then state_event event None m
      else if event = RSRC_RELEASED then
        let m1 = state_event RSRC_RELEASED None m
        in if mStatePtr m1 \<noteq> mStatePtr m then m1 else state_event RSRC_DENIED None m1
      else m)"

definition onRsrcEvent :: "AgpsRsrcStatus \<Rightarrow> agps \<Rightarrow> agps" where
  "onRsrcEvent event m = (if is_ds m then onRsrcEvent_DS event m else onRsrcEvent_agps event m)"

definition subscribeRsrc :: "subscriber \<Rightarrow> agps \<Rightarrow> agps" where
  "subscribeRsrc s m =
     (if mEnforceSingleSubscriber m \<and> hasSubscribers m
      then snd (notifySubscriber (to_group BROADCAST_ALL RSRC_DENIED True) s m)
      else state_event RSRC_SUBSCRIBE (Some s) m)"

definition unsubscribeRsrc :: "subscriber \<Rightarrow> agps \<Rightarrow> bool \<times> agps" where
  "unsubscribeRsrc s m =
     (case find_subscriber (to_one s RSRC_STATUS_MAX False) m of
        Some x \<Rightarrow> (True, state_event RSRC_UNSUBSCRIBE (Some x) m)
      | None \<Rightarrow> (False, m))"

datatype agps_call = Subscribe subscriber | Unsubscribe subscriber | RsrcEvent AgpsRsrcStatus
  | SetBearer int | SetAPN "string option" | RetryCallback

fun agps_do :: "agps_call \<Rightarrow> agps \<Rightarrow> agps" where
  "agps_do (Subscribe s) m = subscribeRsrc s m"
| "agps_do (Unsubscribe s) m = snd (unsubscribeRsrc s m)"
| "agps_do (RsrcEvent e) m = onRsrcEvent e m"
| "agps_do (SetBearer b) m = m\<lparr>mBearer := b\<rparr>"
| "agps_do (SetAPN apn) m = setAPN apn m"
| "agps_do RetryCallback m = retryCallback m"

abbreviation agps_run :: "agps_call list \<Rightarrow> agps \<Rightarrow> agps" where
  "agps_run \<equiv> fold agps_do"

end
