(* ===== verification/Loc_NI.thy ===== *)
theory Loc_NI
  imports HAL_Prelude "HOL-Library.Multiset"
begin

text \<open>
  Network-initiated requests (\<open>src/gps/loc_api/libloc_api_50001/loc_eng_ni.cpp\<close>): the two sessions, the
  request handler, one thread per request that waits for the user's response or for its timeout, the
  response of the framework and the reset when the modem restarts. What the code does outside the lock
  of a session is a step of its own.
\<close>

section \<open>Sessions and threads\<close>

datatype ni_response = GPS_NI_RESPONSE_ACCEPT | GPS_NI_RESPONSE_DENY | GPS_NI_RESPONSE_NORESP | GPS_NI_RESPONSE_IGNORE

record ni_session =
  respTimeLeft :: int
  respRecvd :: bool
  rawRequest :: "nat option"
  reqID :: int
  resp :: ni_response

text \<open>
  A thread has not come to its wait yet, waits, or has released the lock and is about to clear the session
  and send its message. A call of \<open>loc_eng_ni_respond\<close> that has chosen its session has still to lock it.
\<close>

datatype ni_phase = NI_Starting | NI_Waiting | NI_Leaving "(ni_response \<times> nat) option"

record ni_data =
  ni_notify_cb :: bool
  sessions :: "bool \<Rightarrow> ni_session"
  reqIDCounter :: int
  ni_threads :: "(bool \<times> ni_phase) list"
  responding :: "(bool \<times> ni_response) list"
  informed :: "(ni_response \<times> nat) list"
  ni_freed :: "nat list"
  ni_accepted :: "nat list"
  ni_notified :: "int list"
  mutes :: nat

abbreviation LOC_NI_NO_RESPONSE_TIME :: int where "LOC_NI_NO_RESPONSE_TIME \<equiv> 20"

text \<open>The session of emergency requests is \<^term>\<open>sessions d True\<close>.\<close>

definition ni_session_init :: ni_session where
  "ni_session_init = \<lparr>respTimeLeft = 0, respRecvd = False, rawRequest = None, reqID = 0, resp = GPS_NI_RESPONSE_NORESP\<rparr>"

definition ni_none :: ni_data where
  "ni_none = \<lparr>ni_notify_cb = False, sessions = (\<lambda>_. ni_session_init), reqIDCounter = 0, ni_threads = [],
     responding = [], informed = [], ni_freed = [], ni_accepted = [], ni_notified = [], mutes = 0\<rparr>"

definition on_session :: "bool \<Rightarrow> (ni_session \<Rightarrow> ni_session) \<Rightarrow> ni_data \<Rightarrow> ni_data" where
  "on_session es f d = d\<lparr>sessions := (sessions d)(es := f (sessions d es))\<rparr>"

definition ni_free :: "nat \<Rightarrow> ni_data \<Rightarrow> ni_data" where
  "ni_free p d = d\<lparr>ni_freed := ni_freed d @ [p]\<rparr>"

section \<open>The operations\<close>

definition loc_eng_ni_init :: "bool option \<Rightarrow> ni_data \<Rightarrow> ni_data" where
  "loc_eng_ni_init callbacks d =
     (case callbacks of
        None \<Rightarrow> d
      | Some cb \<Rightarrow>
          if \<not> cb \<or> ni_notify_cb d then d
          else d\<lparr>ni_notify_cb := True, sessions := (\<lambda>es. (sessions d es)
            \<lparr>respTimeLeft := 0, respRecvd := False, rawRequest := None, reqID := 0\<rparr>)\<rparr>)"

text \<open>A request: whether it is an emergency, whether it overrides privacy, its timeout and its payload.\<close>

definition loc_eng_ni_request_handler :: "bool \<Rightarrow> bool \<Rightarrow> int \<Rightarrow> nat \<Rightarrow> ni_data \<Rightarrow> ni_data" where
  "loc_eng_ni_request_handler es override timeout passThrough d =
     (if \<not> ni_notify_cb d then d
      else if rawRequest (sessions d es) \<noteq> None \<or> (\<not> es \<and> rawRequest (sessions d True) \<noteq> None)
      then ni_free passThrough (d\<lparr>ni_accepted := ni_accepted d @ [passThrough]\<rparr>)
      else
        let n = reqIDCounter d + 1;
            d1 = on_session es (\<lambda>s. s\<lparr>rawRequest := Some passThrough, reqID := n,
                   respTimeLeft := 5 + (if timeout \<noteq> 0 then timeout else LOC_NI_NO_RESPONSE_TIME)\<rparr>) d
        in d1\<lparr>reqIDCounter := n, ni_accepted := ni_accepted d @ [passThrough],
              mutes := (if override then mutes d + 1 else mutes d),
              ni_threads := ni_threads d @ [(es, NI_Starting)], ni_notified := ni_notified d @ [n]\<rparr>)"

text \<open>The thread up to the unlock, after the wait has ended.\<close>

definition ni_take :: "bool \<Rightarrow> ni_data \<Rightarrow> ni_phase \<times> ni_data" where
  "ni_take es d =
     (let s = sessions d es; d1 = on_session es (\<lambda>s. s\<lparr>respRecvd := False, rawRequest := None\<rparr>) d
      in case rawRequest s of
           None \<Rightarrow> (NI_Leaving None, d1)
         | Some p \<Rightarrow>
             if resp s \<noteq> GPS_NI_RESPONSE_IGNORE then (NI_Leaving (Some (resp s, p)), d1)
             else (NI_Leaving None, ni_free p d1))"

definition set_thread :: "nat \<Rightarrow> ni_phase \<Rightarrow> ni_data \<Rightarrow> ni_data" where
  "set_thread i ph d = d\<lparr>ni_threads := (ni_threads d)[i := (fst (ni_threads d ! i), ph)]\<rparr>"

text \<open>
  The thread waits unless there is a response already. The wait ends with a response or with the timeout,
  and a timeout counts even if a response has come before the thread has its lock again; then the thread
  clears its session and sends.
\<close>

fun waits :: "ni_phase \<Rightarrow> bool" where
  "waits (NI_Leaving m) \<longleftrightarrow> False"
| "waits _ \<longleftrightarrow> True"

definition ni_thread_blocks :: "nat \<Rightarrow> ni_data \<Rightarrow> ni_data option" where
  "ni_thread_blocks i d =
     (if i < length (ni_threads d) \<and> snd (ni_threads d ! i) = NI_Starting \<and>
         \<not> respRecvd (sessions d (fst (ni_threads d ! i)))
      then Some (set_thread i NI_Waiting d) else None)"

definition ni_thread_wakes :: "nat \<Rightarrow> ni_data \<Rightarrow> ni_data option" where
  "ni_thread_wakes i d =
     (if i < length (ni_threads d) \<and> waits (snd (ni_threads d ! i)) \<and>
         respRecvd (sessions d (fst (ni_threads d ! i)))
      then let (ph, d1) = ni_take (fst (ni_threads d ! i)) d in Some (set_thread i ph d1)
      else None)"

definition ni_thread_times_out :: "nat \<Rightarrow> ni_data \<Rightarrow> ni_data option" where
  "ni_thread_times_out i d =
     (if i < length (ni_threads d) \<and> snd (ni_threads d ! i) = NI_Waiting
      then let es = fst (ni_threads d ! i);
               (ph, d1) = ni_take es (on_session es (\<lambda>s. s\<lparr>resp := GPS_NI_RESPONSE_NORESP\<rparr>) d)
           in Some (set_thread i ph d1)
      else None)"

definition ni_thread_leaves :: "nat \<Rightarrow> ni_data \<Rightarrow> ni_data option" where
  "ni_thread_leaves i d =
     (if i < length (ni_threads d) then
        case ni_threads d ! i of
          (es, NI_Leaving m) \<Rightarrow>
            let d1 = on_session es (\<lambda>s. s\<lparr>respTimeLeft := 0, reqID := 0\<rparr>) d
            in Some (d1\<lparr>ni_threads := take i (ni_threads d) @ drop (Suc i) (ni_threads d),
                        informed := informed d @ (case m of None \<Rightarrow> [] | Some x \<Rightarrow> [x])\<rparr>)
        | _ \<Rightarrow> None
      else None)"

text \<open>The response: the choice of the session, then the critical section.\<close>

definition loc_eng_ni_respond :: "int \<Rightarrow> ni_response \<Rightarrow> ni_data \<Rightarrow> ni_data" where
  "loc_eng_ni_respond notif_id user_response d =
     (if \<not> ni_notify_cb d then d
      else if notif_id = reqID (sessions d True) \<and> rawRequest (sessions d True) \<noteq> None then
        let d1 = (if user_response = GPS_NI_RESPONSE_ACCEPT \<and> rawRequest (sessions d False) \<noteq> None
                  then on_session False (\<lambda>s. s\<lparr>resp := GPS_NI_RESPONSE_IGNORE, respRecvd := True\<rparr>) d else d)
        in d1\<lparr>responding := responding d @ [(True, user_response)]\<rparr>
      else if notif_id = reqID (sessions d False) \<and> rawRequest (sessions d False) \<noteq> None then
        d\<lparr>responding := responding d @ [(False, user_response)]\<rparr>
      else d)"

definition ni_respond_locked :: "nat \<Rightarrow> ni_data \<Rightarrow> ni_data option" where
  "ni_respond_locked i d =
     (if i < length (responding d) then
        let (es, r) = responding d ! i;
            d1 = on_session es (\<lambda>s. s\<lparr>resp := r, respRecvd := True\<rparr>) d
        in Some (d1\<lparr>responding := take i (responding d) @ drop (Suc i) (responding d)\<rparr>)
      else None)"

definition ni_reset_session :: "bool \<Rightarrow> ni_data \<Rightarrow> ni_data" where
  "ni_reset_session es d =
     (case rawRequest (sessions d es) of
        None \<Rightarrow> d
      | Some p \<Rightarrow> on_session es (\<lambda>s. s\<lparr>rawRequest := None, respRecvd := True\<rparr>) (ni_free p d))"

definition loc_eng_ni_reset_on_engine_restart :: "ni_data \<Rightarrow> ni_data" where
  "loc_eng_ni_reset_on_engine_restart d =
     (if \<not> ni_notify_cb d then d else ni_reset_session False (ni_reset_session True d))"

datatype ni_step = NI_Request bool bool int nat | NI_Respond int ni_response | NI_Locked nat | NI_Blocks nat | NI_Wakes nat
  | NI_TimesOut nat | NI_Leaves nat | NI_Reset

fun ni_do :: "ni_step \<Rightarrow> ni_data \<Rightarrow> ni_data option" where
  "ni_do (NI_Request es ov t p) d = Some (loc_eng_ni_request_handler es ov t p d)"
| "ni_do (NI_Respond i r) d = Some (loc_eng_ni_respond i r d)"
| "ni_do (NI_Locked i) d = ni_respond_locked i d"
| "ni_do (NI_Blocks i) d = ni_thread_blocks i d"
| "ni_do (NI_Wakes i) d = ni_thread_wakes i d"
| "ni_do (NI_TimesOut i) d = ni_thread_times_out i d"
| "ni_do (NI_Leaves i) d = ni_thread_leaves i d"
| "ni_do NI_Reset d = Some (loc_eng_ni_reset_on_engine_restart d)"

fun ni_run :: "ni_step list \<Rightarrow> ni_data \<Rightarrow> ni_data option" where
  "ni_run [] d = Some d"
| "ni_run (a # as) d = (case ni_do a d of None \<Rightarrow> None | Some d' \<Rightarrow> ni_run as d')"

definition ni_ready :: ni_data where
  "ni_ready = loc_eng_ni_init (Some True) ni_none"

section \<open>Where a request is\<close>

definition held :: "ni_session \<Rightarrow> nat multiset" where
  "held s = (case rawRequest s of None \<Rightarrow> {#} | Some p \<Rightarrow> {#p#})"

fun carried :: "bool \<times> ni_phase \<Rightarrow> nat multiset" where
  "carried (es, NI_Leaving (Some (r, p))) = {#p#}"
| "carried _ = {#}"

text \<open>
  Every payload is in one place; a session with a request has a thread that waits or will.
\<close>

definition has_thread :: "bool \<Rightarrow> (bool \<times> ni_phase) list \<Rightarrow> bool" where
  "has_thread es ts \<longleftrightarrow> (\<exists>t\<in>set ts. fst t = es \<and> waits (snd t))"

definition payloads :: "ni_data \<Rightarrow> nat multiset" where
  "payloads d = held (sessions d True) + held (sessions d False) + sum_list (map carried (ni_threads d)) +
     image_mset snd (mset (informed d)) + mset (ni_freed d)"

definition ni_ok :: "ni_data \<Rightarrow> bool" where
  "ni_ok d \<longleftrightarrow> mset (ni_accepted d) = payloads d \<and>
     (\<forall>es. rawRequest (sessions d es) \<noteq> None \<longrightarrow> has_thread es (ni_threads d))"

lemma on_session_simps [simp]:
  "sessions (on_session es f d) es' = (if es' = es then f (sessions d es) else sessions d es')"
  "ni_threads (on_session es f d) = ni_threads d" "informed (on_session es f d) = informed d"
  "ni_freed (on_session es f d) = ni_freed d" "ni_accepted (on_session es f d) = ni_accepted d"
  "ni_notify_cb (on_session es f d) = ni_notify_cb d" "responding (on_session es f d) = responding d"
  "reqIDCounter (on_session es f d) = reqIDCounter d" "mutes (on_session es f d) = mutes d"
  "ni_notified (on_session es f d) = ni_notified d"
  by (auto simp: on_session_def)





lemma has_thread_simps [simp]:
  "has_thread es (ts @ ts') \<longleftrightarrow> has_thread es ts \<or> has_thread es ts'" "\<not> has_thread es []"
  "has_thread es (t # ts) \<longleftrightarrow> fst t = es \<and> waits (snd t) \<or> has_thread es ts"
  by (auto simp: has_thread_def)


lemma held_simps [simp]:
  "held (s\<lparr>respRecvd := b\<rparr>) = held s" "held (s\<lparr>resp := r\<rparr>) = held s" "held (s\<lparr>rawRequest := None\<rparr>) = {#}"
  "held (s\<lparr>rawRequest := Some p\<rparr>) = {#p#}" "held (s\<lparr>respTimeLeft := t, reqID := n\<rparr>) = held s"
  by (simp_all add: held_def)









lemma responding_ok [simp]: "ni_ok (d\<lparr>responding := rs\<rparr>) = ni_ok d"
  by (simp add: ni_ok_def payloads_def)







section \<open>The properties\<close>


definition late_run :: "ni_step list" where
  "late_run = [NI_Request False False 0 10, NI_Respond 1 GPS_NI_RESPONSE_ACCEPT, NI_Blocks 0, NI_TimesOut 0, NI_Leaves 0, NI_Locked 0]"

definition late_end :: ni_data where
  "late_end = \<lparr>ni_notify_cb = True, sessions = (\<lambda>_. ni_session_init)
       (False := \<lparr>respTimeLeft = 0, respRecvd = True, rawRequest = None, reqID = 0, resp = GPS_NI_RESPONSE_ACCEPT\<rparr>),
     reqIDCounter = 1, ni_threads = [], responding = [], informed = [(GPS_NI_RESPONSE_NORESP, 10)], ni_freed = [],
     ni_accepted = [10], ni_notified = [1], mutes = 0\<rparr>"

lemmas ni_ops = ni_ready_def loc_eng_ni_init_def ni_none_def ni_session_init_def loc_eng_ni_request_handler_def
  loc_eng_ni_respond_def ni_respond_locked_def ni_thread_blocks_def ni_thread_wakes_def ni_thread_times_out_def ni_thread_leaves_def
  ni_take_def set_thread_def on_session_def ni_free_def Let_def

lemma late_run_ends: "ni_run late_run ni_ready = Some late_end"
  by (simp add: late_run_def late_end_def ni_ops fun_eq_iff)


text \<open>A response that comes while the thread that has timed out waits for its lock is answered with none.\<close>

lemma timeout_beats_response:
  "map_option informed (ni_run [NI_Request False False 0 10, NI_Blocks 0, NI_Respond 1 GPS_NI_RESPONSE_ACCEPT,
     NI_Locked 0, NI_TimesOut 0, NI_Leaves 0] ni_ready) = Some [(GPS_NI_RESPONSE_NORESP, 10)]"
  by (simp add: ni_ops)



text \<open>
  A response that chose its session before the timeout and locks it after the thread has gone stays
  in the session: the next request is answered with it at once, whatever it asks for, and the user's
  response to it can come too late. In the witness's run the user has accepted request 1 only.
\<close>

theorem late_response_answers_next:
  assumes "ni_notify_cb d" and "rawRequest (sessions d es) = None" and "rawRequest (sessions d True) = None"
    and "respRecvd (sessions d es)" and "resp (sessions d es) \<noteq> GPS_NI_RESPONSE_IGNORE" and "ni_threads d = []"
  shows "\<exists>d'. ni_run [NI_Request es ov t p, NI_Wakes 0, NI_Leaves 0] d = Some d' \<and>
    informed d' = informed d @ [(resp (sessions d es), p)]"
  using assms by (simp add: ni_ops)

theorem late_response_answers_next_witness:
  "\<exists>d'. ni_run (late_run @ [NI_Request False False 0 11, NI_Wakes 0, NI_Leaves 0]) ni_ready = Some d' \<and>
     informed d' = [(GPS_NI_RESPONSE_NORESP, 10), (GPS_NI_RESPONSE_ACCEPT, 11)]"
proof -
  have append: "ni_run (xs @ ys) d = (case ni_run xs d of None \<Rightarrow> None | Some d' \<Rightarrow> ni_run ys d')" for xs ys d
    by (induction xs arbitrary: d) (auto split: option.split)
  show ?thesis
    using late_response_answers_next [of late_end False False 0 11]
    by (simp add: append late_run_ends) (simp add: late_end_def ni_session_init_def)
qed

end
