(* ===== verification/Loc_Engine.thy ===== *)
theory Loc_Engine
  imports Complex_Main Loc_Agps Loc_NI "HOL-Library.Word"
begin

unbundle bit_operations_syntax

text \<open>
  The location engine (\<open>src/gps/loc_api/libloc_api_50001/loc_eng.cpp\<close>, with its adapter
  \<open>LocEngAdapter.h\<close>): the state of the engine, the messages its thread handles one after the other, and
  what they do to fixes, reports, the muted session, the aiding data, the three machines of data
  connections (\<open>Loc_Agps\<close>) and the network-initiated requests (\<open>Loc_NI\<close>).
\<close>

section \<open>Data\<close>

datatype GpsStatusValue = GPS_STATUS_NONE | GPS_STATUS_SESSION_BEGIN | GPS_STATUS_SESSION_END
  | GPS_STATUS_ENGINE_ON | GPS_STATUS_ENGINE_OFF

datatype loc_mute_session = LOC_MUTE_SESS_NONE | LOC_MUTE_SESS_WAIT | LOC_MUTE_SESS_IN_SESSION

datatype loc_sess_status = LOC_SESS_SUCCESS | LOC_SESS_INTERMEDIATE | LOC_SESS_FAILURE

datatype recurrence = GPS_POSITION_RECURRENCE_PERIODIC | GPS_POSITION_RECURRENCE_SINGLE

datatype constellation = GNSS_CONSTELLATION_GPS | GNSS_CONSTELLATION_GLONASS | GNSS_CONSTELLATION_BEIDOU
  | GNSS_CONSTELLATION_GALILEO | GNSS_CONSTELLATION_OTHER

record used_svs =
  gps_sv_used_ids_mask :: "64 word"
  glo_sv_used_ids_mask :: "64 word"
  gal_sv_used_ids_mask :: "64 word"
  bds_sv_used_ids_mask :: "64 word"

text \<open>A satellite: of its flags only the one that says it was used in the fix.\<close>

record sv_info =
  svid :: int
  sv_constellation :: constellation
  used_in_fix :: bool

text \<open>
  A position of the modem: its number stands for the fields that are only passed on. \<open>rawData\<close> is a
  block of memory.
\<close>

record position =
  p_id :: nat
  has_accuracy :: bool
  accuracy :: rat
  tech_mask :: "32 word"
  p_status :: loc_sess_status
  used_data :: "used_svs option"
  rawData :: "nat option"

abbreviation LOC_POS_TECH_MASK_SATELLITE :: "32 word" where "LOC_POS_TECH_MASK_SATELLITE \<equiv> 0x1"
abbreviation LOC_POS_TECH_MASK_SENSORS :: "32 word" where "LOC_POS_TECH_MASK_SENSORS \<equiv> 0x8"
abbreviation LOC_POS_TECH_MASK_HYBRID :: "32 word" where "LOC_POS_TECH_MASK_HYBRID \<equiv> 0x80"
abbreviation LOC_POSITION_MODE_INVALID :: int where "LOC_POSITION_MODE_INVALID \<equiv> - 1"

text \<open>The values of \<open>gps.conf\<close> the engine reads here.\<close>

record gps_conf =
  INTERMEDIATE_POS :: nat
  ACCURACY_THRES :: nat
  AGPS_CAPABLE :: bool
  USE_EMERGENCY_PDN :: bool
  AGPS_CERT_WRITABLE_MASK :: "32 word"
  NMEA_PROVIDER_IS_AP :: bool
  SENSOR_PROPERTY_VALID :: bool

text \<open>The messages that only pass values of the configuration to the modem.\<close>

datatype modem_config = GnssConstellationConfig | SuplVer | LppConfig | SensorControlConfig | AGlonassProtocol
  | LPPeProtocol | SetNmeaTypes | SensorProperties | SensorPerfControlConfig | EnableData | XtraVersionCheck
  | SuplServer | CdmaServer

text \<open>What the engine calls: the framework's callbacks, the modem through the adapter, NMEA sentences.\<close>

datatype eng_out =
    LocationCb "nat option"
  | StatusCb GpsStatusValue
  | SvCb "sv_info list"
  | NmeaPos nat bool
  | NmeaSv "sv_info list"
  | ModemStartFix int
  | ModemStopFix
  | ModemInSession bool
  | ModemPositionMode int recurrence
  | ModemDeleteAiding nat
  | ModemAtlOpenStatus int int
  | ModemAtlCloseStatus int
  | ModemInitDataService
  | ModemConfigure modem_config
  | ModemGpsLock nat
  | CapabilitiesCb
  | SystemInfoCb
  | ModemInstallCerts "nat list" "32 word"
  | FreeRaw nat

text \<open>The messages, with the names of their classes.\<close>

datatype eng_msg =
    LocEngInit
  | LocEngConfigure modem_config
  | LocEngSetCapabilities
  | LocEngSetSystemInfo
  | LocEngStartFix
  | LocEngStopFix
  | LocEngPositionMode int recurrence
  | LocEngReportPosition position
  | LocEngReportSv "sv_info list"
  | LocEngReportStatus GpsStatusValue
  | LocEngDelAidData nat
  | LocEngRequestNi bool bool int nat
  | LocEngReqRelBIT int "32 word" "8 word list option" bool
  | LocEngSuplEsOpened
  | LocEngSuplEsClosed
  | LocEngRequestSuplEs int
  | LocEngRequestATL int int
  | LocEngReleaseATL int
  | LocEngReqRelWifi int int
  | LocEngAtlOpenSuccess int string int
  | LocEngAtlClosed int
  | LocEngAtlOpenFailed int
  | LocEngAgnssNifInit
  | LocEngInstallAGpsCert "nat list" "32 word"
  | LocEngDown
  | LocEngUp

text \<open>
  \<open>fix_answers\<close>, \<open>client_answers\<close> and \<open>call_answers\<close> are the modem's answers to come: to starting a fix, to
  opening the data service, and to the data calls of the emergency machine. \<open>odd_shift\<close> is what the
  compiled code makes of a shift by a negative amount or by more than 31.
\<close>

record loc_eng =
  has_location_cb :: bool
  has_status_cb :: bool
  has_sv_cb :: bool
  has_agps_cb :: bool
  has_capabilities_cb :: bool
  has_system_info_cb :: bool
  supl_host_set :: bool
  c2k_host_set :: bool
  intermediateFix :: nat
  engine_status :: GpsStatusValue
  fix_session_status :: GpsStatusValue
  aiding_data_for_deletion :: nat
  mute_session_state :: loc_mute_session
  generateNmea :: bool
  agnss_nif :: "agps option"
  internet_nif :: "agps option"
  ds_nif :: "agps option"
  loc_eng_ni_data :: ni_data
  mNavigating :: bool
  fix_mode :: int
  fix_recurrence :: recurrence
  mGnssSvIdUsedInPosition :: "used_svs option"
  mSupportsAgpsRequests :: bool
  conf :: gps_conf
  fix_answers :: "int list"
  client_answers :: "int list"
  call_answers :: "int list"
  odd_shift :: "int \<Rightarrow> 64 word"
  msgs :: "eng_msg list"
  eng_outs :: "eng_out list"

definition emit :: "eng_out \<Rightarrow> loc_eng \<Rightarrow> loc_eng" where
  "emit x e = e\<lparr>eng_outs := eng_outs e @ [x]\<rparr>"

definition eng_post :: "eng_msg \<Rightarrow> loc_eng \<Rightarrow> loc_eng" where
  "eng_post m e = e\<lparr>msgs := msgs e @ [m]\<rparr>"

section \<open>The adapter\<close>

text \<open>The requests of the modem that the adapter passes on only if the framework supports them.\<close>

fun needs_agps :: "eng_msg \<Rightarrow> bool" where
  "needs_agps (LocEngRequestATL i t) \<longleftrightarrow> True"
| "needs_agps (LocEngReleaseATL i) \<longleftrightarrow> True"
| "needs_agps (LocEngRequestNi es ov t p) \<longleftrightarrow> True"
| "needs_agps (LocEngRequestSuplEs i) \<longleftrightarrow> True"
| "needs_agps LocEngSuplEsOpened \<longleftrightarrow> True"
| "needs_agps LocEngSuplEsClosed \<longleftrightarrow> True"
| "needs_agps m \<longleftrightarrow> False"

definition adapter_send :: "eng_msg \<Rightarrow> loc_eng \<Rightarrow> loc_eng" where
  "adapter_send m e = (if needs_agps m \<and> \<not> mSupportsAgpsRequests e then e else eng_post m e)"

definition setInSession :: "bool \<Rightarrow> loc_eng \<Rightarrow> loc_eng" where
  "setInSession b e =
     (let e1 = emit (ModemInSession b) (e\<lparr>mNavigating := b\<rparr>)
      in if \<not> b then e1\<lparr>fix_mode := LOC_POSITION_MODE_INVALID\<rparr> else e1)"

definition adapter_startFix :: "loc_eng \<Rightarrow> int \<times> loc_eng" where
  "adapter_startFix e =
     (case fix_answers e of [] \<Rightarrow> 0 | r # _ \<Rightarrow> r,
      emit (ModemStartFix (fix_mode e)) (e\<lparr>fix_answers := tl (fix_answers e)\<rparr>))"

definition initDataServiceClient :: "loc_eng \<Rightarrow> int \<times> loc_eng" where
  "initDataServiceClient e =
     (case client_answers e of [] \<Rightarrow> 0 | r # _ \<Rightarrow> r,
      emit ModemInitDataService (e\<lparr>client_answers := tl (client_answers e)\<rparr>))"

section \<open>Fixes, status and aiding data\<close>

abbreviation ERR_PHONE_OFFLINE :: int where "ERR_PHONE_OFFLINE \<equiv> 7"
abbreviation ERR_INTERNAL :: int where "ERR_INTERNAL \<equiv> 10"

text \<open>\<open>LOC_API_ADAPTER_ERR_ENGINE_DOWN\<close> is another name of \<open>LOC_API_ADAPTER_ERR_PHONE_OFFLINE\<close>.\<close>

definition loc_eng_start_handler :: "loc_eng \<Rightarrow> loc_eng" where
  "loc_eng_start_handler e =
     (if \<not> mNavigating e then
        let (r, e1) = adapter_startFix e
        in if r = 0 \<or> r = ERR_PHONE_OFFLINE \<or> r = ERR_INTERNAL then setInSession True e1 else e1
      else e)"

definition loc_eng_stop_handler :: "loc_eng \<Rightarrow> loc_eng" where
  "loc_eng_stop_handler e = (if mNavigating e then setInSession False (emit ModemStopFix e) else e)"

definition loc_eng_mute_one_session :: "loc_eng \<Rightarrow> loc_eng" where
  "loc_eng_mute_one_session e = e\<lparr>mute_session_state := LOC_MUTE_SESS_WAIT\<rparr>"

definition update_aiding_data_for_deletion :: "loc_eng \<Rightarrow> loc_eng" where
  "update_aiding_data_for_deletion e =
     (if engine_status e \<noteq> GPS_STATUS_ENGINE_ON \<and> aiding_data_for_deletion e \<noteq> 0
      then (emit (ModemDeleteAiding (aiding_data_for_deletion e)) e)\<lparr>aiding_data_for_deletion := 0\<rparr>
      else e)"

definition loc_inform_gps_status :: "GpsStatusValue \<Rightarrow> loc_eng \<Rightarrow> loc_eng" where
  "loc_inform_gps_status st e = (if has_status_cb e then emit (StatusCb st) e else e)"

definition mute_on_status :: "GpsStatusValue \<Rightarrow> loc_mute_session \<Rightarrow> loc_mute_session" where
  "mute_on_status st mu =
     (let mu1 = (if (st = GPS_STATUS_SESSION_BEGIN \<or> st = GPS_STATUS_ENGINE_ON) \<and> mu = LOC_MUTE_SESS_WAIT
                 then LOC_MUTE_SESS_IN_SESSION else mu)
      in if mu1 = LOC_MUTE_SESS_IN_SESSION \<and> (st = GPS_STATUS_SESSION_END \<or> st = GPS_STATUS_ENGINE_OFF)
         then LOC_MUTE_SESS_NONE else mu1)"

definition loc_eng_report_status :: "GpsStatusValue \<Rightarrow> loc_eng \<Rightarrow> loc_eng" where
  "loc_eng_report_status st e =
     (let e1 = e\<lparr>mute_session_state := mute_on_status st (mute_session_state e)\<rparr>;
          e2 = (if st \<noteq> GPS_STATUS_NONE \<and> \<not> (st = GPS_STATUS_SESSION_END \<and> mNavigating e1) \<and>
                   \<not> (st = GPS_STATUS_SESSION_BEGIN \<and> \<not> mNavigating e1)
                then if mute_session_state e1 \<noteq> LOC_MUTE_SESS_IN_SESSION then loc_inform_gps_status st e1 else e1
                else e1);
          e3 = (if st = GPS_STATUS_ENGINE_ON \<or> st = GPS_STATUS_ENGINE_OFF then e2\<lparr>engine_status := st\<rparr> else e2)
      in if st = GPS_STATUS_SESSION_BEGIN \<or> st = GPS_STATUS_SESSION_END then e3\<lparr>fix_session_status := st\<rparr> else e3)"

section \<open>Reports\<close>

text \<open>Whether a fix goes to the framework.\<close>

definition accepts_fix :: "position \<Rightarrow> loc_eng \<Rightarrow> bool" where
  "accepts_fix p e \<longleftrightarrow>
     (p_status p = LOC_SESS_SUCCESS \<and>
        (LOC_POS_TECH_MASK_SATELLITE OR LOC_POS_TECH_MASK_SENSORS OR LOC_POS_TECH_MASK_HYBRID) AND tech_mask p \<noteq> 0) \<or>
     (intermediateFix e = 1 \<and>
        \<not> (has_accuracy p \<and> ACCURACY_THRES (conf e) \<noteq> 0 \<and> accuracy p > of_nat (ACCURACY_THRES (conf e))))"

definition report_fix :: "position \<Rightarrow> loc_eng \<Rightarrow> bool \<times> loc_eng" where
  "report_fix p e =
     (if \<not> has_location_cb e then (False, e)
      else if p_status p = LOC_SESS_FAILURE then (True, emit (LocationCb None) e)
      else if accepts_fix p e then
        let e1 = (case used_data p of Some u \<Rightarrow> e\<lparr>mGnssSvIdUsedInPosition := Some u\<rparr> | None \<Rightarrow> e)
        in (True, emit (LocationCb (Some (p_id p))) e1)
      else (False, e))"

definition report_position :: "position \<Rightarrow> loc_eng \<Rightarrow> loc_eng" where
  "report_position p e =
     (if mute_session_state e = LOC_MUTE_SESS_IN_SESSION then e
      else
        let (reported, e1) = report_fix p e;
            e2 = (if reported \<and> fix_recurrence e1 = GPS_POSITION_RECURRENCE_SINGLE
                  then setInSession False (if p_status p = LOC_SESS_INTERMEDIATE then emit ModemStopFix e1 else e1)
                  else e1);
            e3 = (if generateNmea e2 \<and> mNavigating e2
                  then emit (NmeaPos (p_id p) (reported \<and> p_status p \<noteq> LOC_SESS_FAILURE)) e2 else e2)
        in case rawData p of None \<Rightarrow> e3 | Some r \<Rightarrow> emit (FreeRaw r) e3)"

definition mask_of :: "used_svs \<Rightarrow> constellation \<Rightarrow> 64 word" where
  "mask_of u c = (case c of
     GNSS_CONSTELLATION_GPS \<Rightarrow> gps_sv_used_ids_mask u
   | GNSS_CONSTELLATION_GLONASS \<Rightarrow> glo_sv_used_ids_mask u
   | GNSS_CONSTELLATION_BEIDOU \<Rightarrow> bds_sv_used_ids_mask u
   | GNSS_CONSTELLATION_GALILEO \<Rightarrow> gal_sv_used_ids_mask u
   | GNSS_CONSTELLATION_OTHER \<Rightarrow> 0)"

text \<open>\<open>1 << n\<close> is a shift of an \<open>int\<close>, extended with its sign to the 64 bits of the mask.\<close>

definition shifted_one :: "int \<Rightarrow> loc_eng \<Rightarrow> 64 word" where
  "shifted_one n e = (if 0 \<le> n \<and> n \<le> 31 then scast (push_bit (nat n) (1 :: 32 word)) else odd_shift e n)"

definition mark_sv :: "used_svs \<Rightarrow> loc_eng \<Rightarrow> sv_info \<Rightarrow> sv_info" where
  "mark_sv u e s = s\<lparr>used_in_fix := (mask_of u (sv_constellation s) AND shifted_one (svid s - 1) e \<noteq> 0)\<rparr>"

definition report_sv :: "sv_info list \<Rightarrow> loc_eng \<Rightarrow> loc_eng" where
  "report_sv svs e =
     (if mute_session_state e = LOC_MUTE_SESS_IN_SESSION then e
      else
        let svs1 = (case mGnssSvIdUsedInPosition e of Some u \<Rightarrow> map (mark_sv u e) svs | None \<Rightarrow> svs);
            e1 = (if has_sv_cb e then emit (SvCb svs1) e else e)
        in if generateNmea e1 then emit (NmeaSv svs1) e1 else e1)"

section \<open>The machines of data connections\<close>

datatype nif = Agnss | Internet | Ds

fun get_nif :: "nif \<Rightarrow> loc_eng \<Rightarrow> agps option" where
  "get_nif Agnss e = agnss_nif e"
| "get_nif Internet e = internet_nif e"
| "get_nif Ds e = ds_nif e"

fun set_nif :: "nif \<Rightarrow> agps \<Rightarrow> loc_eng \<Rightarrow> loc_eng" where
  "set_nif Agnss m e = e\<lparr>agnss_nif := Some m\<rparr>"
| "set_nif Internet m e = e\<lparr>internet_nif := Some m\<rparr>"
| "set_nif Ds m e = e\<lparr>ds_nif := Some m\<rparr>"

text \<open>The calls of a machine that come back to the engine as messages of the adapter.\<close>

fun as_message :: "agps_out \<Rightarrow> eng_msg option" where
  "as_message (RequestATL i) = Some (LocEngRequestATL (sint i) AGPS_TYPE_SUPL)"
| "as_message (RequestSuplES i) = Some (LocEngRequestSuplEs (sint i))"
| "as_message _ = None"

definition on_nif :: "nif \<Rightarrow> (agps \<Rightarrow> agps) \<Rightarrow> loc_eng \<Rightarrow> loc_eng option" where
  "on_nif k f e =
     (case get_nif k e of
        None \<Rightarrow> None
      | Some m \<Rightarrow>
          let m' = f m
          in Some (fold adapter_send (List.map_filter as_message (drop (length (outs m)) (outs m'))) (set_nif k m' e)))"

definition createAgnssNifs :: "loc_eng \<Rightarrow> loc_eng" where
  "createAgnssNifs e =
     (if \<not> mSupportsAgpsRequests e then e
      else
        let e1 = (if internet_nif e = None
                  then e\<lparr>internet_nif := Some (new_machine False AGPS_TYPE_WWAN_ANY False [])\<rparr> else e)
        in if \<not> AGPS_CAPABLE (conf e1) then e1
           else
             let e2 = (if agnss_nif e1 = None
                       then e1\<lparr>agnss_nif := Some (new_machine False AGPS_TYPE_SUPL False [])\<rparr> else e1)
             in if ds_nif e2 = None \<and> USE_EMERGENCY_PDN (conf e2) then
                  let (r, e3) = initDataServiceClient e2
                  in if r = 0
                     then e3\<lparr>ds_nif := Some (new_machine True AGPS_TYPE_INVALID False (call_answers e3))\<rparr> else e3
                else e2)"

definition getAgpsStateMachine :: "int \<Rightarrow> loc_eng \<Rightarrow> nif \<times> loc_eng" where
  "getAgpsStateMachine agpsType e =
     (if agpsType = AGPS_TYPE_INVALID \<or> agpsType = AGPS_TYPE_SUPL then (Agnss, e)
      else if agpsType = AGPS_TYPE_SUPL_ES then
        if USE_EMERGENCY_PDN (conf e) then (Ds, if ds_nif e = None then createAgnssNifs e else e)
        else (Agnss, e)
      else (Internet, e))"

text \<open>
  Subscribers on the stack of a handler. Without an IPv6 address only the first byte is set, a zero.
\<close>

definition bit_subscriber :: "32 word \<Rightarrow> 8 word list option \<Rightarrow> subscriber" where
  "bit_subscriber ipv4 ipv6 = \<lparr>s_at = 0, s_kind = BITSubscriber, s_ID = ipv4,
     mIPv6Addr = (case ipv6 of None \<Rightarrow> [0] | Some a \<Rightarrow> a), mIsInactive = False, mBackwardCompatibleMode = False\<rparr>"

definition atl_subscriber :: "int \<Rightarrow> bool \<Rightarrow> subscriber" where
  "atl_subscriber i compatibleMode = \<lparr>s_at = 0, s_kind = ATLSubscriber, s_ID = word_of_int i, mIPv6Addr = [],
     mIsInactive = False, mBackwardCompatibleMode = compatibleMode\<rparr>"

definition ds_subscriber :: "int \<Rightarrow> subscriber" where
  "ds_subscriber i = \<lparr>s_at = 0, s_kind = DSSubscriber, s_ID = word_of_int i, mIPv6Addr = [],
     mIsInactive = False, mBackwardCompatibleMode = False\<rparr>"

definition req_rel_bit :: "int \<Rightarrow> 32 word \<Rightarrow> 8 word list option \<Rightarrow> bool \<Rightarrow> loc_eng \<Rightarrow> loc_eng option" where
  "req_rel_bit agpsType ipv4 ipv6 isReq e =
     (let (k, e1) = getAgpsStateMachine agpsType e; s = bit_subscriber ipv4 ipv6
      in on_nif k (if isReq then subscribeRsrc s else (\<lambda>m. snd (unsubscribeRsrc s m))) e1)"

definition request_supl_es :: "int \<Rightarrow> loc_eng \<Rightarrow> loc_eng option" where
  "request_supl_es i e =
     (if ds_nif e \<noteq> None \<and> USE_EMERGENCY_PDN (conf e) then on_nif Ds (subscribeRsrc (ds_subscriber i)) e
      else if agnss_nif e \<noteq> None then on_nif Agnss (subscribeRsrc (atl_subscriber i False)) e
      else Some (emit (ModemAtlOpenStatus i (- 1)) e))"

definition request_atl :: "int \<Rightarrow> int \<Rightarrow> loc_eng \<Rightarrow> loc_eng option" where
  "request_atl i agpsType e =
     (let (k, e1) = getAgpsStateMachine agpsType e
      in if get_nif k e1 \<noteq> None then on_nif k (subscribeRsrc (atl_subscriber i (agpsType = AGPS_TYPE_INVALID))) e1
         else Some (emit (ModemAtlOpenStatus i agpsType) e1))"

text \<open>Whether a machine finds the subscriber, and the state after its release.\<close>

definition try_release :: "nif \<Rightarrow> subscriber \<Rightarrow> loc_eng \<Rightarrow> bool \<times> loc_eng" where
  "try_release k s e =
     (case get_nif k e of
        None \<Rightarrow> (False, e)
      | Some m \<Rightarrow> (fst (unsubscribeRsrc s m), the (on_nif k (\<lambda>m. snd (unsubscribeRsrc s m)) e)))"

definition release_atl :: "int \<Rightarrow> loc_eng \<Rightarrow> loc_eng" where
  "release_atl i e =
     (let (b1, e1) = try_release Agnss (atl_subscriber i False) e
      in if b1 then e1
         else let (b2, e2) = try_release Internet (atl_subscriber i False) e1
              in if b2 then e2
                 else let (b3, e3) = try_release Ds (ds_subscriber i) e2
                      in if b3 then e3 else emit (ModemAtlCloseStatus i) e3)"

definition nif_event :: "int \<Rightarrow> (agps \<Rightarrow> agps) \<Rightarrow> loc_eng \<Rightarrow> loc_eng option" where
  "nif_event agpsType f e = (let (k, e1) = getAgpsStateMachine agpsType e in on_nif k f e1)"

definition ds_event :: "AgpsRsrcStatus \<Rightarrow> loc_eng \<Rightarrow> loc_eng option" where
  "ds_event ev e = (if ds_nif e \<noteq> None then on_nif Ds (onRsrcEvent ev) e else Some e)"

section \<open>Network-initiated requests, restart of the modem\<close>

definition request_ni :: "bool \<Rightarrow> bool \<Rightarrow> int \<Rightarrow> nat \<Rightarrow> loc_eng \<Rightarrow> loc_eng" where
  "request_ni es override timeout passThrough e =
     (let n = loc_eng_ni_request_handler es override timeout passThrough (loc_eng_ni_data e);
          e1 = e\<lparr>loc_eng_ni_data := n\<rparr>
      in if mutes n \<noteq> mutes (loc_eng_ni_data e) then loc_eng_mute_one_session e1 else e1)"

text \<open>The addresses of servers that came before, and the configuration, are sent as messages of their own.\<close>

definition loc_eng_agps_reinit :: "loc_eng \<Rightarrow> loc_eng" where
  "loc_eng_agps_reinit e =
     fold eng_post (map LocEngConfigure ((if supl_host_set e then [SuplServer] else []) @
       (if c2k_host_set e then [CdmaServer] else []))) e"

definition loc_eng_reinit :: "loc_eng \<Rightarrow> loc_eng" where
  "loc_eng_reinit e =
     fold eng_post (map LocEngConfigure
       ([GnssConstellationConfig, SuplVer, LppConfig, SensorControlConfig, AGlonassProtocol, LPPeProtocol] @
        (if generateNmea e then [] else [SetNmeaTypes]) @
        (if SENSOR_PROPERTY_VALID (conf e) then [SensorProperties] else []) @
        [SensorPerfControlConfig, EnableData, XtraVersionCheck])) e"

definition loc_eng_handle_engine_down :: "loc_eng \<Rightarrow> loc_eng" where
  "loc_eng_handle_engine_down e =
     loc_eng_report_status GPS_STATUS_ENGINE_OFF
       (e\<lparr>loc_eng_ni_data := loc_eng_ni_reset_on_engine_restart (loc_eng_ni_data e)\<rparr>)"

definition loc_eng_handle_engine_up :: "loc_eng \<Rightarrow> loc_eng" where
  "loc_eng_handle_engine_up e =
     (let e1 = loc_eng_reinit e;
          e2 = (if has_agps_cb e1
                then loc_eng_agps_reinit (e1\<lparr>agnss_nif := map_option dropAllSubscribers (agnss_nif e1),
                       internet_nif := map_option dropAllSubscribers (internet_nif e1)\<rparr>)
                else e1)
      in if mNavigating e2 then loc_eng_start_handler (setInSession False e2) else e2)"

section \<open>The thread of the engine\<close>

fun eng_proc :: "eng_msg \<Rightarrow> loc_eng \<Rightarrow> loc_eng option" where
  "eng_proc LocEngInit e =
     Some (eng_post LocEngSetSystemInfo (eng_post LocEngSetCapabilities (emit (ModemGpsLock 1) (loc_eng_reinit e))))"
| "eng_proc (LocEngConfigure c) e = Some (emit (ModemConfigure c) e)"
| "eng_proc LocEngSetCapabilities e = Some (if has_capabilities_cb e then emit CapabilitiesCb e else e)"
| "eng_proc LocEngSetSystemInfo e = Some (if has_system_info_cb e then emit SystemInfoCb e else e)"
| "eng_proc LocEngStartFix e = Some (loc_eng_start_handler e)"
| "eng_proc LocEngStopFix e = Some (loc_eng_stop_handler (e\<lparr>mGnssSvIdUsedInPosition := None\<rparr>))"
| "eng_proc (LocEngPositionMode m r) e = Some (emit (ModemPositionMode m r) (e\<lparr>fix_mode := m, fix_recurrence := r\<rparr>))"
| "eng_proc (LocEngReportPosition p) e = Some (report_position p e)"
| "eng_proc (LocEngReportSv svs) e = Some (report_sv svs e)"
| "eng_proc (LocEngReportStatus st) e = Some (update_aiding_data_for_deletion (loc_eng_report_status st e))"
| "eng_proc (LocEngDelAidData f) e = Some (update_aiding_data_for_deletion (e\<lparr>aiding_data_for_deletion := f\<rparr>))"
| "eng_proc (LocEngRequestNi es ov t p) e = Some (request_ni es ov t p e)"
| "eng_proc (LocEngReqRelBIT t ipv4 ipv6 b) e = req_rel_bit t ipv4 ipv6 b e"
| "eng_proc LocEngSuplEsOpened e = ds_event RSRC_GRANTED e"
| "eng_proc LocEngSuplEsClosed e = ds_event RSRC_RELEASED e"
| "eng_proc (LocEngRequestSuplEs i) e = request_supl_es i e"
| "eng_proc (LocEngRequestATL i t) e = request_atl i t e"
| "eng_proc (LocEngReleaseATL i) e = Some (release_atl i e)"
| "eng_proc (LocEngReqRelWifi sender t) e = Some (emit (ModemAtlOpenStatus sender t) e)"
| "eng_proc (LocEngAtlOpenSuccess t apn b) e =
     nif_event t (\<lambda>m. onRsrcEvent RSRC_GRANTED (setAPN (Some apn) (m\<lparr>mBearer := b\<rparr>))) e"
| "eng_proc (LocEngAtlClosed t) e = nif_event t (onRsrcEvent RSRC_RELEASED) e"
| "eng_proc (LocEngAtlOpenFailed t) e = nif_event t (onRsrcEvent RSRC_DENIED) e"
| "eng_proc LocEngAgnssNifInit e = Some (createAgnssNifs e)"
| "eng_proc (LocEngInstallAGpsCert certs slots) e = Some (emit (ModemInstallCerts certs slots) e)"
| "eng_proc LocEngDown e = Some (loc_eng_handle_engine_down e)"
| "eng_proc LocEngUp e = Some (loc_eng_handle_engine_up e)"

text \<open>
  One step: a message is posted, the thread handles the first one, a step of the requests' threads and of
  the user's response, or a delay timer of the emergency machine expires. \<^term>\<open>None\<close> is a null pointer
  that is followed.
\<close>

fun outside_thread :: "ni_step \<Rightarrow> bool" where
  "outside_thread (NI_Request es ov t p) \<longleftrightarrow> False"
| "outside_thread NI_Reset \<longleftrightarrow> False"
| "outside_thread a \<longleftrightarrow> True"

datatype eng_step = Post eng_msg | Handle | NiStep ni_step | RetryExpires

fun eng_do :: "eng_step \<Rightarrow> loc_eng \<Rightarrow> loc_eng option" where
  "eng_do (Post m) e = Some (adapter_send m e)"
| "eng_do Handle e = (case msgs e of [] \<Rightarrow> Some e | m # ms \<Rightarrow> eng_proc m (e\<lparr>msgs := ms\<rparr>))"
| "eng_do (NiStep a) e =
     (case ni_do a (loc_eng_ni_data e) of
        Some n \<Rightarrow> Some (if outside_thread a then e\<lparr>loc_eng_ni_data := n\<rparr> else e)
      | None \<Rightarrow> Some e)"
| "eng_do RetryExpires e = (if ds_nif e \<noteq> None then on_nif Ds retryCallback e else Some e)"

fun eng_run :: "eng_step list \<Rightarrow> loc_eng \<Rightarrow> loc_eng option" where
  "eng_run [] e = Some e"
| "eng_run (a # as) e = (case eng_do a e of None \<Rightarrow> None | Some e' \<Rightarrow> eng_run as e')"

section \<open>The entry points\<close>

text \<open>
  The framework's callbacks (location, status, satellites, capabilities, system information), whether the
  event mask asks for NMEA sentences, and whether the framework handles the requests for connections.
\<close>

definition loc_eng_init :: "gps_conf \<Rightarrow> bool \<Rightarrow> bool \<Rightarrow> bool \<Rightarrow> bool \<Rightarrow> bool \<Rightarrow> bool \<Rightarrow> bool \<Rightarrow> loc_eng" where
  "loc_eng_init cf location_cb status_cb sv_cb capabilities_cb system_info_cb nmea_event supports =
     eng_post LocEngInit \<lparr>has_location_cb = location_cb, has_status_cb = status_cb, has_sv_cb = sv_cb,
       has_agps_cb = False, has_capabilities_cb = capabilities_cb, has_system_info_cb = system_info_cb,
       supl_host_set = False, c2k_host_set = False, intermediateFix = INTERMEDIATE_POS cf mod 256, engine_status = GPS_STATUS_NONE,
       fix_session_status = GPS_STATUS_NONE, aiding_data_for_deletion = 0,
       mute_session_state = LOC_MUTE_SESS_NONE, generateNmea = (nmea_event \<and> NMEA_PROVIDER_IS_AP cf),
       agnss_nif = None, internet_nif = None, ds_nif = None, loc_eng_ni_data = ni_none, mNavigating = False,
       fix_mode = LOC_POSITION_MODE_INVALID, fix_recurrence = GPS_POSITION_RECURRENCE_PERIODIC,
       mGnssSvIdUsedInPosition = None, mSupportsAgpsRequests = supports, conf = cf, fix_answers = [],
       client_answers = [], call_answers = [], odd_shift = (\<lambda>_. 0), msgs = [], eng_outs = []\<rparr>"

definition loc_eng_agps_init :: "loc_eng \<Rightarrow> loc_eng" where
  "loc_eng_agps_init e =
     (if has_agps_cb e then e
      else
        let e1 = e\<lparr>has_agps_cb := True\<rparr>;
            e2 = (if mSupportsAgpsRequests e1 then eng_post LocEngAgnssNifInit e1 else e1)
        in loc_eng_agps_reinit e2)"

definition loc_eng_cleanup :: "loc_eng \<Rightarrow> loc_eng" where
  "loc_eng_cleanup e = (if mNavigating e then eng_post LocEngStopFix e else e)"

lemma lowest_cleared: "w \<noteq> 0 \<Longrightarrow> unat (w AND (w - 1)) < unat (w :: 32 word)"
proof -
  assume "w \<noteq> 0"
  then have "w - 1 < w"
    by (simp add: word_less_nat_alt unat_minus_one unat_gt_0)
  moreover have "w AND (w - 1) \<le> w - 1"
    by (metis and.commute word_and_le1)
  ultimately show ?thesis
    by (simp add: word_less_nat_alt word_le_nat_alt)
qed

text \<open>The loop that counts the slots: it clears the lowest bit in each round.\<close>

function slot_count :: "32 word \<Rightarrow> nat" where
  "slot_count w = (if w = 0 then 0 else Suc (slot_count (w AND (w - 1))))"
  by pat_completeness auto
termination
  by (relation "measure unat") (simp_all add: lowest_cleared)

declare slot_count.simps [simp del]

datatype cert_result = AGPS_CERTIFICATE_OPERATION_SUCCESS | AGPS_CERTIFICATE_ERROR_GENERIC
  | AGPS_CERTIFICATE_ERROR_TOO_MANY_CERTIFICATES

abbreviation AGPS_CERTIFICATE_MAX_LENGTH :: nat where "AGPS_CERTIFICATE_MAX_LENGTH \<equiv> 2000"

definition loc_eng_agps_install_certificates :: "nat list \<Rightarrow> loc_eng \<Rightarrow> cert_result \<times> loc_eng" where
  "loc_eng_agps_install_certificates lengths e =
     (let slots = AGPS_CERT_WRITABLE_MASK (conf e)
      in if lengths = [] then (AGPS_CERTIFICATE_OPERATION_SUCCESS, e)
         else if slot_count slots < length lengths then (AGPS_CERTIFICATE_ERROR_TOO_MANY_CERTIFICATES, e)
         else if list_ex (\<lambda>n. n > AGPS_CERTIFICATE_MAX_LENGTH) lengths then (AGPS_CERTIFICATE_ERROR_GENERIC, e)
         else (AGPS_CERTIFICATE_OPERATION_SUCCESS, eng_post (LocEngInstallAGpsCert lengths slots) e))"

end
