(* ===== verification/Loc_Agps_Props.thy ===== *)
theory Loc_Agps_Props
  imports Loc_Agps
begin

text \<open>
  The properties of the machines of assisted positioning: what each state says of the subscribers and of
  the last request to the framework, that everybody listed is told, the retries of the data call, and
  the cases where a request gets lost or a deleted object is read.
\<close>

section \<open>What notifying does\<close>

definition requests :: "agps_out list \<Rightarrow> agps_action list" where
  "requests es = concat (map (\<lambda>e. case e of RequestRsrc a \<Rightarrow> [a] | _ \<Rightarrow> []) es)"

lemma requests_simps [simp]:
  "requests [] = []" "requests (xs @ ys) = requests xs @ requests ys"
  "requests [e] = (case e of RequestRsrc a \<Rightarrow> [a] | _ \<Rightarrow> [])"
  by (simp_all add: requests_def)

lemma out_simps [simp]:
  "outs (out e m) = outs m @ [e]" "mStatePtr (out e m) = mStatePtr m" "is_ds (out e m) = is_ds m"
  "mEnforceSingleSubscriber (out e m) = mEnforceSingleSubscriber m" "mRetries (out e m) = mRetries m"
  "mAPN (out e m) = mAPN m" "mBearer (out e m) = mBearer m" "mType (out e m) = mType m"
  "read_freed (out e m) = read_freed m" "freed (out e m) = freed m" "next_at (out e m) = next_at m"
  "answers_due (out e m) = answers_due m"
  by (simp_all add: out_def)

text \<open>The fields that notifications leave alone, and the requests among what was sent.\<close>

definition core :: "agps \<Rightarrow> bool \<times> agps_state \<times> bool \<times> agps_action list" where
  "core m = (is_ds m, mStatePtr m, mEnforceSingleSubscriber m, requests (outs m))"

lemma core_notify: "core (snd (notifyRsrcStatus n s m)) = core m"
  by (simp add: core_def notifyRsrcStatus_def notify_BIT_def notify_ATL_def notify_WIFI_def notify_DS_def
      atl_open_def informStatus_def split: subscriber_kind.split AgpsRsrcStatus.split)

lemma core_search: "core (snd (notify_search n ss m)) = core m"
proof (induction ss arbitrary: m)
  case (Cons s ss)
  have "core (snd (notifySubscriber n s m')) = core m'" for m'
    using core_notify [of n s m'] by (simp add: notifySubscriber_def split_beta)
  moreover have "core (m\<lparr>read_freed := b\<rparr>) = core m" for b
    by (simp add: core_def)
  ultimately show ?case
    by (simp add: Let_def split_beta Cons split: option.split)
qed simp

lemma core_delete: "core (notify_and_delete n m) = core m"
proof (induction n m rule: notify_and_delete.induct)
  case (1 n m)
  have same: "core (m1\<lparr>mSubscribers := r, freed := f\<rparr>) = core m1" for m1 r f
    by (simp add: core_def)
  obtain f rest m1 where s: "notify_search n (mSubscribers m) m = ((f, rest), m1)"
    by (metis surj_pair)
  then have "core m1 = core m"
    using core_search [of n "mSubscribers m" m] by simp
  then show ?case
    using 1 [OF s [symmetric] refl] by (subst notify_and_delete.simps) (simp add: s same split: option.split)
qed

lemma core_notifySubscribers: "core (notifySubscribers n m) = core m"
  by (simp add: notifySubscribers_def core_delete core_search del: notify_and_delete.simps)

text \<open>A closing notification deletes exactly those it is for.\<close>

definition closing :: "notification \<Rightarrow> bool" where
  "closing n \<longleftrightarrow> postNotifyDelete n \<and> rsrcStatus n \<in> {RSRC_UNSUBSCRIBE, RSRC_RELEASED, RSRC_DENIED}"

lemma closing_takes: "closing n \<Longrightarrow> fst (notifySubscriber n s m) = forMe n s"
  by (auto simp: closing_def notifySubscriber_def notifyRsrcStatus_def notify_BIT_def notify_ATL_def
      notify_WIFI_def notify_DS_def split: subscriber_kind.split)

lemma closing_search:
  "closing n \<Longrightarrow> fst (notify_search n ss m) =
     (List.find (forMe n) ss, case List.find (forMe n) ss of None \<Rightarrow> ss
        | Some s \<Rightarrow> takeWhile (\<lambda>x. \<not> forMe n x) ss @ tl (dropWhile (\<lambda>x. \<not> forMe n x) ss))"
proof (induction ss arbitrary: m)
  case (Cons s ss)
  then show ?case
    by (simp add: Let_def split_beta closing_takes prod_eq_iff split: option.splits)
qed simp

lemma filter_rest:
  "filter (\<lambda>x. \<not> P x) (takeWhile (\<lambda>x. \<not> P x) ss @ tl (dropWhile (\<lambda>x. \<not> P x) ss)) = filter (\<lambda>x. \<not> P x) ss"
  by (induction ss) auto

lemma closing_delete:
  "closing n \<Longrightarrow> mSubscribers (notify_and_delete n m) = filter (\<lambda>x. \<not> forMe n x) (mSubscribers m)"
proof (induction n m rule: notify_and_delete.induct)
  case (1 n m)
  obtain f rest m1 where s: "notify_search n (mSubscribers m) m = ((f, rest), m1)"
    by (metis surj_pair)
  then have m1: "mSubscribers m1 = mSubscribers m"
    using subscribers_search [of n "mSubscribers m" m] by simp
  have f: "f = List.find (forMe n) (mSubscribers m)"
    and rest: "f \<noteq> None \<Longrightarrow> rest = takeWhile (\<lambda>x. \<not> forMe n x) (mSubscribers m) @
      tl (dropWhile (\<lambda>x. \<not> forMe n x) (mSubscribers m))"
    using closing_search [OF 1(2), of "mSubscribers m" m] by (auto simp: s split: option.splits)
  show ?case
  proof (cases f)
    case None
    then have "filter (\<lambda>x. \<not> forMe n x) (mSubscribers m) = mSubscribers m"
      using f by (intro filter_True) (metis find_None_iff)
    then show ?thesis
      by (subst notify_and_delete.simps) (simp add: s None m1)
  next
    case (Some x)
    then show ?thesis
      using 1(1) [OF s [symmetric] refl Some 1(2)] rest filter_rest [of "forMe n" "mSubscribers m"]
      by (subst notify_and_delete.simps) (simp add: s Some del: notify_and_delete.simps filter_append)
  qed
qed

lemma closing_subscribers:
  "closing n \<Longrightarrow> mSubscribers (notifySubscribers n m) = filter (\<lambda>x. \<not> forMe n x) (mSubscribers m)"
  by (simp add: notifySubscribers_def closing_delete closing_def del: notify_and_delete.simps)


section \<open>The states and the subscribers\<close>

definition has_active :: "subscriber list \<Rightarrow> bool" where
  "has_active ss \<longleftrightarrow> (\<exists>s \<in> set ss. \<not> isInactive s)"

lemma hasActive: "hasActiveSubscribers m = has_active (mSubscribers m)"
  by (auto simp: hasActiveSubscribers_def find_subscriber_def has_active_def to_group_def forMe_def
      find_None_iff2 [symmetric] find_None_iff)





lemma for_one [simp]: "forMe (to_one s st d) = (\<lambda>x. equals x s)"
  by (simp add: fun_eq_iff to_one_def forMe_def)






lemma to_group_simps [simp]:
  "forMe (to_group BROADCAST_ALL st d) s" "forMe (to_group BROADCAST_INACTIVE st d) s = isInactive s"
  "forMe (to_group BROADCAST_ACTIVE st d) s = (\<not> isInactive s)"
  "closing (to_group g st d) \<longleftrightarrow> d \<and> st \<in> {RSRC_UNSUBSCRIBE, RSRC_RELEASED, RSRC_DENIED}"
  "closing (to_one x st d) \<longleftrightarrow> d \<and> st \<in> {RSRC_UNSUBSCRIBE, RSRC_RELEASED, RSRC_DENIED}"
  "postNotifyDelete (to_group g st d) = d"
  by (simp_all add: to_group_def to_one_def forMe_def closing_def)
















section \<open>Who is told what\<close>

definition granted :: "agps \<Rightarrow> subscriber \<Rightarrow> agps_out" where
  "granted m s = (case s_kind s of
     BITSubscriber \<Rightarrow> ServerDataConn GPSONE_DAEMON GPSONE_LOC_API_IF_REQUEST_SUCCESS
   | ATLSubscriber \<Rightarrow> AtlOpenStatus (s_ID s) True (mAPN m) (mBearer m)
       (if mBackwardCompatibleMode s then AGPS_TYPE_INVALID else mType m)
   | WIFISubscriber \<Rightarrow> ServerDataConn (s_ID s) GPSONE_LOC_API_IF_REQUEST_SUCCESS
   | DSSubscriber \<Rightarrow> AtlOpenStatus (s_ID s) True None AGPS_APN_BEARER_INVALID AGPS_TYPE_INVALID)"

definition denied :: "agps \<Rightarrow> subscriber \<Rightarrow> agps_out" where
  "denied m s = (case s_kind s of
     BITSubscriber \<Rightarrow> ServerDataConn GPSONE_DAEMON GPSONE_LOC_API_IF_FAILURE
   | ATLSubscriber \<Rightarrow> AtlOpenStatus (s_ID s) False (mAPN m) (mBearer m)
       (if mBackwardCompatibleMode s then AGPS_TYPE_INVALID else mType m)
   | WIFISubscriber \<Rightarrow> ServerDataConn (s_ID s) GPSONE_LOC_API_IF_FAILURE
   | DSSubscriber \<Rightarrow> RequestATL (s_ID s))"

lemma grant_one:
  "notifyRsrcStatus (to_group g RSRC_GRANTED d) s m =
     (if forMe (to_group g RSRC_GRANTED d) s then (True, out (granted m s) m) else (False, m))"
  by (simp add: notifyRsrcStatus_def notify_BIT_def notify_ATL_def notify_WIFI_def notify_DS_def atl_open_def
      informStatus_def granted_def to_group_def split: subscriber_kind.split)

lemma granted_out [simp]: "granted (out e m) = granted m" "denied (out e m) = denied m"
  by (simp_all add: fun_eq_iff granted_def denied_def split: subscriber_kind.split)

lemma grant_search:
  "notify_search (to_group g RSRC_GRANTED False) ss m =
     ((None, ss), m\<lparr>outs := outs m @ map (granted m) (filter (forMe (to_group g RSRC_GRANTED False)) ss)\<rparr>)"
proof (induction ss arbitrary: m)
  case (Cons s ss)
  have "rcver (to_group g RSRC_GRANTED False) = None" "\<not> postNotifyDelete (to_group g RSRC_GRANTED False)"
    by (simp_all add: to_group_def)
  then show ?case
    by (simp add: notifySubscriber_def grant_one Cons)
qed simp

lemma deny_one:
  "notifySubscriber (to_group BROADCAST_ALL RSRC_DENIED True) s m =
     (True, out (denied m s) (if s_kind s = DSSubscriber then m\<lparr>mRetries := 0\<rparr> else m))"
  by (simp add: notifySubscriber_def notifyRsrcStatus_def notify_BIT_def notify_ATL_def
      notify_WIFI_def notify_DS_def atl_open_def informStatus_def denied_def forMe_def to_group_def
      split: subscriber_kind.split)

lemma deny_all:
  "n = to_group BROADCAST_ALL RSRC_DENIED True \<Longrightarrow>
   outs (notify_and_delete n m) = outs m @ map (denied m) (mSubscribers m)"
proof (induction n m rule: notify_and_delete.induct)
  case (1 n m)
  show ?case
  proof (cases "mSubscribers m")
    case Nil
    then show ?thesis
      by simp
  next
    case (Cons s ss)
    define m1 where "m1 = (if s_kind s = DSSubscriber then m\<lparr>mRetries := 0\<rparr> else m)"
    have "rcver n = None"
      by (simp add: 1(2) to_group_def)
    then have search: "notify_search n (mSubscribers m) m = ((Some s, ss), out (denied m s) m1)"
      by (simp add: Cons 1(2) deny_one m1_def)
    have same: "denied (m2\<lparr>mSubscribers := x, freed := f\<rparr>) = denied m2" "denied (m2\<lparr>mRetries := q\<rparr>) = denied m2"
      for m2 x f q by (simp_all add: fun_eq_iff denied_def split: subscriber_kind.split)
    have "denied m1 = denied m" "outs m1 = outs m"
      by (simp_all add: m1_def same)
    then show ?thesis
      using 1(1) [OF search [symmetric] refl refl 1(2)]
      unfolding notify_and_delete.simps [of n m] search by (simp add: Cons same del: notify_and_delete.simps)
  qed
qed

section \<open>Retries of the data call\<close>

text \<open>How many delay timers were started since the last fallback to a normal connection.\<close>

fun delays :: "agps_out list \<Rightarrow> nat" where
  "delays [] = 0"
| "delays (DelayTimer # es) = Suc (delays es)"
| "delays (RequestATL i # es) = 0"
| "delays (e # es) = delays es"

definition delays_since :: "agps \<Rightarrow> nat" where
  "delays_since m = delays (rev (outs m))"

definition retries_ok :: "agps \<Rightarrow> bool" where
  "retries_ok m \<longleftrightarrow> unat (mRetries m) = delays_since m \<and> delays_since m \<le> 4"

lemma retries_out:
  "retries_ok (out e m) = (case e of
     DelayTimer \<Rightarrow> unat (mRetries m) = Suc (delays_since m) \<and> delays_since m \<le> 3
   | RequestATL i \<Rightarrow> mRetries m = 0
   | _ \<Rightarrow> retries_ok m)"
  by (auto simp: retries_ok_def delays_since_def out_def unat_eq_0 split: agps_out.split)

lemma retries_frame [simp]:
  "retries_ok (m\<lparr>read_freed := b\<rparr>) = retries_ok m" "retries_ok (m\<lparr>mSubscribers := ss\<rparr>) = retries_ok m"
  "retries_ok (m\<lparr>mSubscribers := ss, freed := f\<rparr>) = retries_ok m" "retries_ok (m\<lparr>mStatePtr := st\<rparr>) = retries_ok m"
  "retries_ok (m\<lparr>answers_due := a\<rparr>) = retries_ok m" "retries_ok (m\<lparr>mSubscribers := ss, next_at := k\<rparr>) = retries_ok m"
  by (simp_all add: retries_ok_def delays_since_def)

lemma inform_retries: "retries_ok m \<Longrightarrow> retries_ok (informStatus st i m)"
  by (cases st) (simp_all add: informStatus_def retries_out)

lemma notify_retries: "retries_ok m \<Longrightarrow> retries_ok (snd (notifyRsrcStatus n s m))"
  by (simp add: notifyRsrcStatus_def notify_BIT_def notify_ATL_def notify_WIFI_def notify_DS_def atl_open_def
      retries_out inform_retries split: subscriber_kind.split AgpsRsrcStatus.split)

lemma search_retries: "retries_ok m \<Longrightarrow> retries_ok (snd (notify_search n ss m))"
proof (induction ss arbitrary: m)
  case (Cons s ss)
  have "retries_ok m' \<Longrightarrow> retries_ok (snd (notifySubscriber n s m'))" for m'
    using notify_retries [of m' n s] by (simp add: notifySubscriber_def split_beta)
  then show ?case
    using Cons by (simp add: Let_def split_beta split: option.split)
qed simp

lemma delete_retries: "retries_ok m \<Longrightarrow> retries_ok (notify_and_delete n m)"
proof (induction n m rule: notify_and_delete.induct)
  case (1 n m)
  obtain f rest m1 where s: "notify_search n (mSubscribers m) m = ((f, rest), m1)"
    by (metis surj_pair)
  then have "retries_ok m1"
    using search_retries [OF 1(2), of n "mSubscribers m"] by simp
  then show ?case
    using 1(1) [OF s [symmetric] refl] by (subst notify_and_delete.simps) (simp add: s split: option.split)
qed

lemma notifySubscribers_retries: "retries_ok m \<Longrightarrow> retries_ok (notifySubscribers n m)"
  by (simp add: notifySubscribers_def delete_retries search_retries del: notify_and_delete.simps)

lemma add_retries: "retries_ok m \<Longrightarrow> retries_ok (addSubscriber s m)"
  by (simp add: addSubscriber_def split: option.split)

lemma leave_retries: "retries_ok m \<Longrightarrow> retries_ok (take_leave s m)"
  by (simp add: take_leave_def setInactive_def notifySubscribers_retries inform_retries Let_def
      split: subscriber_kind.split)

lemma send_retries:
  assumes "retries_ok m"
  shows "retries_ok (snd (sendRsrcRequest a m))"
proof -
  have inc: "unat (mRetries m + 1) = Suc (delays_since m)"
    using assms by (auto simp: retries_ok_def unat_word_ariths)
  have cmp: "mRetries m + 1 > (4 :: 8 word) \<longleftrightarrow> Suc (delays_since m) > 4"
    by (simp add: word_less_nat_alt inc)
  have d2: "delays_since (m\<lparr>outs := outs m @ [RequestRsrc a], mRetries := r\<rparr>) = delays_since m" for r
    by (simp add: delays_since_def)
  have d: "delays_since (m\<lparr>answers_due := x, outs := outs m @ [RequestRsrc a], mRetries := r\<rparr>) = delays_since m" for x r
    by (simp add: delays_since_def)
  have "retries_ok (m\<lparr>answers_due := x, outs := outs m @ [RequestRsrc a]\<rparr>)" for x
    using assms by (simp add: retries_ok_def delays_since_def)
  then show ?thesis
    using assms inc cmp
    by (auto simp: sendRsrcRequest_def sendRsrcRequest_agps_def sendRsrcRequest_DS_def dataCallCb_def Let_def retries_out
        informStatus_def MAX_START_DATA_CALL_RETRIES_def out_def d d2
        retries_ok_def delays_since_def split: if_splits)
qed

lemma released_retries: "retries_ok m \<Longrightarrow> retries_ok (snd (onRsrcEvent_Released e d m))"
  using add_retries send_retries notify_retries
  by (cases e; cases d) (auto simp: onRsrcEvent_Released_def Let_def split: prod.split dest!: arg_cong [where f = snd])

lemma leave_or_retries: "retries_ok m \<Longrightarrow> retries_ok (snd (leave_or_release st s m))"
  by (simp add: leave_or_release_def Let_def leave_retries send_retries)

lemma event_retries: "retries_ok m \<Longrightarrow> retries_ok (state_event e d m)"
proof -
  assume r: "retries_ok m"
  have "retries_ok (snd (onRsrcEvent_Pending e d m))"
    using r by (cases e; cases d) (simp_all add: onRsrcEvent_Pending_def add_retries leave_or_retries notifySubscribers_retries)
  moreover have "retries_ok (snd (onRsrcEvent_Acquired e d m))"
    using r by (cases e; cases d)
      (simp_all add: onRsrcEvent_Acquired_def add_retries leave_or_retries notifySubscribers_retries notify_retries)
  moreover have "retries_ok (snd (onRsrcEvent_Releasing e d m))"
    using r by (cases e; cases d)
      (simp_all add: onRsrcEvent_Releasing_def add_retries leave_retries notifySubscribers_retries send_retries Let_def)
  ultimately show ?thesis
    using released_retries [OF r] by (simp add: state_event_def split_beta split: agps_state.split)
qed

lemma do_retries: "retries_ok m \<Longrightarrow> retries_ok (agps_do c m)"
proof (cases c)
  case (Subscribe s)
  assume "retries_ok m"
  then show ?thesis
    using event_retries notify_retries [of m _ s]
    by (simp add: Subscribe subscribeRsrc_def notifySubscriber_def split_beta)
next
  case (Unsubscribe s)
  assume "retries_ok m"
  then show ?thesis
    using event_retries by (simp add: Unsubscribe unsubscribeRsrc_def split: option.split)
next
  case (RsrcEvent e)
  assume "retries_ok m"
  then show ?thesis
    using event_retries
    by (simp add: RsrcEvent onRsrcEvent_def onRsrcEvent_agps_def onRsrcEvent_DS_def Let_def)
qed (auto simp: retries_ok_def delays_since_def setAPN_def retryCallback_def out_def split: option.split)

lemma run_retries: "retries_ok m \<Longrightarrow> retries_ok (agps_run cs m)"
  by (induction cs arbitrary: m) (auto simp: do_retries)

section \<open>The properties\<close>


lemma new_retries: "retries_ok (new_machine ds t one ans)"
  by (simp add: retries_ok_def delays_since_def new_machine_def)


text \<open>
  C24: a pending machine that is granted the connection tells each active subscriber so, once, in the
  order of the list, tells nobody else anything, keeps the list and is acquired; when it is denied, it
  tells every subscriber, active or not, once, has no subscribers and is released.
\<close>

theorem pending_answer_reaches_all:
  assumes "mStatePtr m = AgpsPendingState"
  shows "outs (onRsrcEvent RSRC_GRANTED m) =
      outs m @ map (granted m) (filter (\<lambda>s. \<not> isInactive s) (mSubscribers m)) \<and>
    mSubscribers (onRsrcEvent RSRC_GRANTED m) = mSubscribers m \<and>
    mStatePtr (onRsrcEvent RSRC_GRANTED m) = AgpsAcquiredState \<and>
    outs (onRsrcEvent RSRC_DENIED m) = outs m @ map (denied m) (mSubscribers m) \<and>
    mSubscribers (onRsrcEvent RSRC_DENIED m) = [] \<and>
    mStatePtr (onRsrcEvent RSRC_DENIED m) = AgpsReleasedState"
proof -
  let ?n = "to_group BROADCAST_ALL RSRC_DENIED True"
  have f: "forMe (to_group BROADCAST_ACTIVE RSRC_GRANTED False) = (\<lambda>s. \<not> isInactive s)"
    by (simp add: fun_eq_iff)
  have "notifySubscribers ?n m = notify_and_delete ?n m"
    by (simp add: notifySubscribers_def del: notify_and_delete.simps)
  moreover have "mSubscribers (notify_and_delete ?n m) = []"
    by (simp add: closing_delete del: notify_and_delete.simps)
  moreover have "notifySubscribers (to_group BROADCAST_ACTIVE RSRC_GRANTED False) m =
      m\<lparr>outs := outs m @ map (granted m) (filter (\<lambda>s. \<not> isInactive s) (mSubscribers m))\<rparr>"
    by (simp add: notifySubscribers_def grant_search f)
  ultimately show ?thesis
    using assms deny_all [OF refl, of m]
    by (simp add: onRsrcEvent_def onRsrcEvent_agps_def onRsrcEvent_DS_def state_event_def onRsrcEvent_Pending_def
        del: notify_and_delete.simps)
qed

definition atl :: "32 word \<Rightarrow> subscriber" where
  "atl i = \<lparr>s_at = 0, s_kind = ATLSubscriber, s_ID = i, mIPv6Addr = [], mIsInactive = False,
     mBackwardCompatibleMode = False\<rparr>"

definition two_clients :: agps where
  "two_clients = agps_run [Subscribe (atl 1), Subscribe (atl 2)] (new_machine False AGPS_TYPE_SUPL False [])"

lemma two_clients: "two_clients = (new_machine False AGPS_TYPE_SUPL False [])
    \<lparr>mStatePtr := AgpsPendingState, mSubscribers := [(atl 2)\<lparr>s_at := 2\<rparr>, (atl 1)\<lparr>s_at := 1\<rparr>],
     outs := [RequestRsrc GPS_REQUEST_AGPS_DATA_CONN], next_at := 3\<rparr>"
  by (simp add: two_clients_def new_machine_def subscribeRsrc_def state_event_def onRsrcEvent_Released_def
      onRsrcEvent_Pending_def addSubscriber_def find_subscriber_def sendRsrcRequest_def sendRsrcRequest_agps_def
      Let_def atl_def equals_def isInactive_def waitForCloseComplete_def out_def)

theorem pending_answer_reaches_all_witness:
  "outs (onRsrcEvent RSRC_GRANTED two_clients) = [RequestRsrc GPS_REQUEST_AGPS_DATA_CONN,
     AtlOpenStatus 2 True None AGPS_APN_BEARER_INVALID AGPS_TYPE_SUPL,
     AtlOpenStatus 1 True None AGPS_APN_BEARER_INVALID AGPS_TYPE_SUPL]"
  using pending_answer_reaches_all [of two_clients]
  by (simp add: two_clients atl_def new_machine_def granted_def isInactive_def waitForCloseComplete_def)

text \<open>
  In every run of either machine, the retries counted are the delay timers started since the last
  fallback to a normal connection, and there are never more than four.
\<close>

theorem data_call_retries_bounded:
  "unat (mRetries (agps_run calls (new_machine ds type single ans))) =
     delays_since (agps_run calls (new_machine ds type single ans)) \<and>
   delays_since (agps_run calls (new_machine ds type single ans)) \<le> 4"
  using run_retries [OF new_retries, of calls ds type single ans] by (simp add: retries_ok_def)

text \<open>
  When one of several subscribers of an open or opening connection leaves, the loop that notifies
  and deletes goes on after it has deleted the subscriber the notification is for, and compares the
  others with the deleted object.
\<close>

theorem leaving_reads_deleted:
  assumes "mStatePtr m = AgpsPendingState \<or> mStatePtr m = AgpsAcquiredState"
    and "mSubscribers m = x # y # rest" and "s_kind x = ATLSubscriber" and "equals x s"
  shows "read_freed (snd (unsubscribeRsrc s m))"
proof -
  let ?n = "to_one x RSRC_UNSUBSCRIBE True"
  have grows: "read_freed m' \<Longrightarrow> read_freed (snd (notifyRsrcStatus n s' m'))" for n s' m'
    by (simp add: notifyRsrcStatus_def notify_BIT_def notify_ATL_def notify_WIFI_def notify_DS_def atl_open_def
        informStatus_def split: subscriber_kind.split AgpsRsrcStatus.split)
  have search: "read_freed m' \<Longrightarrow> read_freed (snd (notify_search n ss m'))" for n ss m'
  proof (induction ss arbitrary: m')
    case (Cons s' ss)
    then show ?case
      using grows [of _ n s'] by (simp add: Let_def split_beta notifySubscriber_def split: option.split)
  qed simp
  have delete: "read_freed m' \<Longrightarrow> read_freed (notify_and_delete n m')" for n m'
  proof (induction n m' rule: notify_and_delete.induct)
    case (1 n m')
    obtain f r m1 where r: "notify_search n (mSubscribers m') m' = ((f, r), m1)"
      by (metis surj_pair)
    then have "read_freed m1"
      using search [OF 1(2), of n "mSubscribers m'"] by simp
    then show ?case
      using 1(1) [OF r [symmetric] refl] by (subst notify_and_delete.simps) (simp add: r split: option.split)
  qed
  have x: "forMe ?n x"
    using assms(3) by (simp add: equals_def)
  obtain m1 where m1: "notify_search ?n (mSubscribers m) m = ((Some x, y # rest), m1)" "freed m1 = freed m"
    using x assms(2,3)
    by (simp add: Let_def notifySubscriber_def notifyRsrcStatus_def notify_ATL_def) (simp add: to_one_def)
  let ?m = "m1\<lparr>mSubscribers := y # rest, freed := s_at x # freed m1\<rparr>"
  have "read_freed (snd (notify_search ?n (y # rest) ?m))"
  proof -
    let ?m0 = "?m\<lparr>read_freed := read_freed ?m \<or> s_at x \<in> set (freed ?m)\<rparr>"
    have r: "rcver ?n = Some x"
      by (simp add: to_one_def)
    have "read_freed (snd (notifySubscriber ?n y ?m0))"
      using grows [of ?m0 ?n y] by (simp add: notifySubscriber_def split_beta)
    then show ?thesis
      using search by (simp add: r Let_def split_beta)
  qed
  then have "read_freed (notify_and_delete ?n ?m)"
    using delete by (subst notify_and_delete.simps)
      (auto split: prod.split option.split simp del: notify_and_delete.simps notify_search.simps)
  then have "read_freed (notifySubscribers ?n m)"
    by (simp add: notifySubscribers_def to_one_def notify_and_delete.simps [of _ m] m1 [unfolded to_one_def]
        del: notify_and_delete.simps notify_search.simps)
  then have left: "read_freed (take_leave x m)"
    using assms(3) by (simp add: take_leave_def waitForCloseComplete_def)
  have sent: "read_freed (snd (sendRsrcRequest a m'))" if "read_freed m'" for a m'
    using that by (simp add: sendRsrcRequest_def sendRsrcRequest_agps_def sendRsrcRequest_DS_def dataCallCb_def Let_def informStatus_def)
  have "find_subscriber (to_one s RSRC_STATUS_MAX False) m = Some x"
    using assms(2,4) by (simp add: find_subscriber_def)
  then show ?thesis
    using assms(1) left sent
    by (auto simp: unsubscribeRsrc_def state_event_def onRsrcEvent_Pending_def onRsrcEvent_Acquired_def
        leave_or_release_def Let_def)
qed

theorem leaving_reads_deleted_witness: "read_freed (snd (unsubscribeRsrc (atl 2) two_clients))"
  using leaving_reads_deleted [of two_clients "(atl 2)\<lparr>s_at := 2\<rparr>" "(atl 1)\<lparr>s_at := 1\<rparr>" "[]" "atl 2"]
  by (simp add: two_clients atl_def equals_def new_machine_def)

text \<open>
  A client that subscribes again while the machine waits for its connection to be released is
  taken for the inactive object of its earlier subscription: the request changes nothing, and after the
  release the machine is released without subscribers and without a new request to the framework.
\<close>

theorem resubscription_lost:
  assumes "mStatePtr m = AgpsReleasingState" and "\<not> mEnforceSingleSubscriber m"
    and "x \<in> set (mSubscribers m)" and "equals x s" and "filter (\<lambda>y. \<not> isInactive y) (mSubscribers m) = []"
  shows "subscribeRsrc s m = m \<and> mStatePtr (agps_run [Subscribe s, RsrcEvent RSRC_RELEASED] m) = AgpsReleasedState \<and>
    mSubscribers (agps_run [Subscribe s, RsrcEvent RSRC_RELEASED] m) = [] \<and>
    requests (outs (agps_run [Subscribe s, RsrcEvent RSRC_RELEASED] m)) = requests (outs m)"
proof -
  have "List.find (\<lambda>y. equals y s) (mSubscribers m) \<noteq> None"
    using assms(3,4) by (auto simp: find_None_iff)
  then have "addSubscriber s m = m"
    by (auto simp: addSubscriber_def find_subscriber_def)
  then have same: "subscribeRsrc s m = m"
    using assms(1,2) by (simp add: subscribeRsrc_def state_event_def onRsrcEvent_Releasing_def)
  let ?n = "to_group BROADCAST_INACTIVE RSRC_RELEASED True"
  let ?m = "notifySubscribers ?n m"
  have empty: "mSubscribers ?m = []"
    using assms(5) by (simp add: closing_subscribers)
  have "onRsrcEvent RSRC_RELEASED m = ?m\<lparr>mStatePtr := AgpsReleasedState\<rparr>"
    using assms(1) empty
    by (simp add: onRsrcEvent_def onRsrcEvent_agps_def onRsrcEvent_DS_def state_event_def onRsrcEvent_Releasing_def
        hasActive has_active_def Let_def)
  moreover have "requests (outs ?m) = requests (outs m)"
    using core_notifySubscribers [of ?n m] by (simp add: core_def)
  ultimately show ?thesis
    using same empty by simp
qed

definition ds_client :: subscriber where
  "ds_client = (atl 7)\<lparr>s_kind := DSSubscriber\<rparr>"

definition ds_leaving :: agps where
  "ds_leaving = (new_machine True AGPS_TYPE_INVALID False [])\<lparr>mStatePtr := AgpsReleasingState,
     mSubscribers := [ds_client\<lparr>s_at := 1, mIsInactive := True\<rparr>], next_at := 2,
     outs := [RequestRsrc GPS_REQUEST_AGPS_DATA_CONN, AtlCloseStatus 7 True, RequestRsrc GPS_RELEASE_AGPS_DATA_CONN]\<rparr>"

lemma ds_leaving_run:
  "ds_leaving = agps_run [Subscribe ds_client, Unsubscribe ds_client] (new_machine True AGPS_TYPE_INVALID False [])"
  by (simp add: ds_leaving_def ds_client_def new_machine_def subscribeRsrc_def unsubscribeRsrc_def state_event_def
      onRsrcEvent_Released_def onRsrcEvent_Pending_def addSubscriber_def find_subscriber_def sendRsrcRequest_def
      sendRsrcRequest_DS_def dataCallCb_def leave_or_release_def take_leave_def setInactive_def informStatus_def hasSubscribers_def
      hasActiveSubscribers_def waitForCloseComplete_def isInactive_def Let_def atl_def equals_def out_def)

theorem resubscription_lost_witness:
  "mSubscribers (agps_run [Subscribe ds_client, RsrcEvent RSRC_RELEASED] ds_leaving) = []"
proof -
  let ?x = "ds_client\<lparr>s_at := 1, mIsInactive := True\<rparr>"
  have "mStatePtr ds_leaving = AgpsReleasingState" "\<not> mEnforceSingleSubscriber ds_leaving"
    "?x \<in> set (mSubscribers ds_leaving)" "equals ?x ds_client"
    "filter (\<lambda>y. \<not> isInactive y) (mSubscribers ds_leaving) = []"
    by (simp_all add: ds_leaving_def ds_client_def atl_def new_machine_def equals_def isInactive_def
        waitForCloseComplete_def)
  from resubscription_lost [OF this] show ?thesis
    by blast
qed

text \<open>Addresses that differ after their first zero byte count as one subscriber.\<close>

lemma different_addresses_equal:
  "equals \<lparr>s_at = 1, s_kind = BITSubscriber, s_ID = INADDR_NONE, mIPv6Addr = 0 # a, mIsInactive = False, mBackwardCompatibleMode = False\<rparr>
     \<lparr>s_at = 2, s_kind = BITSubscriber, s_ID = INADDR_NONE, mIPv6Addr = 0 # b, mIsInactive = False, mBackwardCompatibleMode = False\<rparr>"
  by (simp add: equals_def numeral_eq_Suc)

end
