(* ===== verification/Loc_Engine_Props.thy ===== *)
theory Loc_Engine_Props
  imports Loc_Engine Loc_Agps_Props
begin

text \<open>
  Properties of the location engine: the muted session, the deferred deletion of aiding data, the machines
  its handlers reach, the emergency data call and its fallback, the restart of the modem, the satellites
  used in a fix, and the slots for certificates.
\<close>

section \<open>What the operations leave alone\<close>

fun loud :: "eng_out \<Rightarrow> bool" where
  "loud (LocationCb p) \<longleftrightarrow> True"
| "loud (StatusCb st) \<longleftrightarrow> True"
| "loud (SvCb svs) \<longleftrightarrow> True"
| "loud (NmeaPos p b) \<longleftrightarrow> True"
| "loud (NmeaSv svs) \<longleftrightarrow> True"
| "loud _ \<longleftrightarrow> False"

definition reports :: "loc_eng \<Rightarrow> eng_out list" where
  "reports e = filter loud (eng_outs e)"

text \<open>Mute state, reports, engine status and pending aiding data.\<close>

definition seen :: "loc_eng \<Rightarrow> loc_mute_session \<times> eng_out list \<times> GpsStatusValue \<times> nat" where
  "seen e = (mute_session_state e, reports e, engine_status e, aiding_data_for_deletion e)"

lemma reports_emit [simp]: "reports (emit x e) = reports e @ (if loud x then [x] else [])"
  by (simp add: reports_def emit_def)

lemma emit_simps [simp]:
  "mute_session_state (emit x e) = mute_session_state e" "engine_status (emit x e) = engine_status e"
  "aiding_data_for_deletion (emit x e) = aiding_data_for_deletion e" "msgs (emit x e) = msgs e"
  "agnss_nif (emit x e) = agnss_nif e" "internet_nif (emit x e) = internet_nif e" "ds_nif (emit x e) = ds_nif e"
  "mNavigating (emit x e) = mNavigating e" "conf (emit x e) = conf e" "has_agps_cb (emit x e) = has_agps_cb e"
  "mSupportsAgpsRequests (emit x e) = mSupportsAgpsRequests e" "call_answers (emit x e) = call_answers e"
  "fix_mode (emit x e) = fix_mode e" "loc_eng_ni_data (emit x e) = loc_eng_ni_data e"
  "eng_outs (emit x e) = eng_outs e @ [x]"
  by (simp_all add: emit_def)

lemma seen_emit [simp]: "\<not> loud x \<Longrightarrow> seen (emit x e) = seen e"
  by (simp add: seen_def)

lemma seen_update [simp]:
  "seen (e\<lparr>mNavigating := b\<rparr>) = seen e" "seen (e\<lparr>fix_mode := m\<rparr>) = seen e"
  "seen (e\<lparr>fix_mode := m, fix_recurrence := rc\<rparr>) = seen e"
  "seen (e\<lparr>fix_answers := as\<rparr>) = seen e" "seen (e\<lparr>client_answers := as\<rparr>) = seen e"
  "seen (e\<lparr>mGnssSvIdUsedInPosition := u\<rparr>) = seen e" "seen (e\<lparr>msgs := ms\<rparr>) = seen e"
  "seen (e\<lparr>agnss_nif := m1\<rparr>) = seen e" "seen (e\<lparr>internet_nif := m1\<rparr>) = seen e" "seen (e\<lparr>ds_nif := m1\<rparr>) = seen e"
  "seen (e\<lparr>agnss_nif := m1, internet_nif := m2\<rparr>) = seen e" "seen (e\<lparr>loc_eng_ni_data := n\<rparr>) = seen e"
  by (simp_all add: seen_def reports_def)

lemma seen_posts [simp]: "seen (eng_post m e) = seen e" "seen (adapter_send m e) = seen e"
  by (simp_all add: eng_post_def adapter_send_def)

lemma seen_configures [simp]: "seen (fold eng_post ms e) = seen e"
  by (induction ms arbitrary: e) simp_all

lemma seen_reinit [simp]: "seen (loc_eng_reinit e) = seen e" "seen (loc_eng_agps_reinit e) = seen e"
  unfolding loc_eng_reinit_def loc_eng_agps_reinit_def by (rule seen_configures)+

text \<open>The configuration is only posted.\<close>

lemma posts_conf: "fold eng_post ms e = e\<lparr>msgs := msgs e @ ms\<rparr>"
  by (induction ms arbitrary: e) (simp_all add: eng_post_def)

lemma reinit_posts:
  obtains xs where "loc_eng_reinit e = e\<lparr>msgs := msgs e @ map LocEngConfigure xs\<rparr>"
  unfolding loc_eng_reinit_def posts_conf by blast

lemma agps_reinit_posts:
  obtains xs where "loc_eng_agps_reinit e = e\<lparr>msgs := msgs e @ map LocEngConfigure xs\<rparr>"
  unfolding loc_eng_agps_reinit_def posts_conf by blast

text \<open>The engine after the modem has come back.\<close>

lemma engine_up_posts:
  obtains xs e1 where "loc_eng_handle_engine_up e = (if mNavigating e then loc_eng_start_handler (setInSession False e1) else e1)"
    "e1 = (if has_agps_cb e then e\<lparr>agnss_nif := map_option dropAllSubscribers (agnss_nif e),
       internet_nif := map_option dropAllSubscribers (internet_nif e)\<rparr> else e)\<lparr>msgs := msgs e @ map LocEngConfigure xs\<rparr>"
proof -
  obtain xs where xs: "loc_eng_reinit e = e\<lparr>msgs := msgs e @ map LocEngConfigure xs\<rparr>"
    by (rule reinit_posts)
  obtain ys where ys: "loc_eng_agps_reinit (e\<lparr>msgs := msgs e @ map LocEngConfigure xs,
      agnss_nif := map_option dropAllSubscribers (agnss_nif e), internet_nif := map_option dropAllSubscribers (internet_nif e)\<rparr>) =
    e\<lparr>agnss_nif := map_option dropAllSubscribers (agnss_nif e), internet_nif := map_option dropAllSubscribers (internet_nif e),
      msgs := msgs e @ map LocEngConfigure (xs @ ys)\<rparr>"
    using agps_reinit_posts [of "e\<lparr>msgs := msgs e @ map LocEngConfigure xs,
      agnss_nif := map_option dropAllSubscribers (agnss_nif e), internet_nif := map_option dropAllSubscribers (internet_nif e)\<rparr>"]
    by auto
  show ?thesis
    by (rule that [of _ "if has_agps_cb e then xs @ ys else xs", OF _ refl])
      (simp add: loc_eng_handle_engine_up_def xs ys Let_def)
qed

lemma seen_sends: "seen (fold adapter_send ms e) = seen e"
  by (induction ms arbitrary: e) simp_all

lemma seen_set [simp]: "seen (set_nif k m e) = seen e"
  by (cases k) simp_all

lemma seen_on_nif: "on_nif k f e = Some e' \<Longrightarrow> seen e' = seen e"
  by (auto simp: on_nif_def seen_sends Let_def split: option.splits)

lemma seen_session [simp]: "seen (setInSession b e) = seen e"
  by (simp add: setInSession_def Let_def)

lemma seen_start [simp]: "seen (loc_eng_start_handler e) = seen e"
  by (simp add: loc_eng_start_handler_def adapter_startFix_def Let_def)

lemma seen_stop [simp]: "seen (loc_eng_stop_handler e) = seen e"
  by (simp add: loc_eng_stop_handler_def)

lemma seen_create [simp]: "seen (createAgnssNifs e) = seen e"
  by (simp add: createAgnssNifs_def initDataServiceClient_def Let_def)

lemma seen_get [simp]: "seen (snd (getAgpsStateMachine t e)) = seen e"
  by (simp add: getAgpsStateMachine_def)

lemma seen_try [simp]: "seen (snd (try_release k s e)) = seen e"
  by (auto simp: try_release_def on_nif_def seen_sends Let_def split: option.splits)

lemma seen_release [simp]: "seen (release_atl i e) = seen e"
proof -
  have "seen e' = seen e" if "try_release k s e = (b, e')" for k s b e e'
    using seen_try [of k s e] that by simp
  then show ?thesis
    by (auto simp: release_atl_def Let_def split: prod.split)
qed

lemma seen_up [simp]: "seen (loc_eng_handle_engine_up e) = seen e"
  by (simp add: loc_eng_handle_engine_up_def Let_def)

text \<open>The messages that reach the reports, the mute state or the aiding data.\<close>

fun reporting :: "eng_msg \<Rightarrow> bool" where
  "reporting (LocEngReportPosition p) \<longleftrightarrow> True"
| "reporting (LocEngReportSv svs) \<longleftrightarrow> True"
| "reporting (LocEngReportStatus st) \<longleftrightarrow> True"
| "reporting (LocEngDelAidData f) \<longleftrightarrow> True"
| "reporting (LocEngRequestNi es ov t p) \<longleftrightarrow> ov"
| "reporting LocEngDown \<longleftrightarrow> True"
| "reporting m \<longleftrightarrow> False"

lemma seen_request_ni: "\<not> ov \<Longrightarrow> seen (request_ni es ov t p e) = seen e"
  by (simp add: request_ni_def loc_eng_ni_request_handler_def Let_def ni_free_def on_session_def)

lemma seen_nif_event: "nif_event t f e = Some e' \<Longrightarrow> seen e' = seen e"
  using seen_on_nif [of _ f "snd (getAgpsStateMachine t e)" e'] by (simp add: nif_event_def split_beta)

lemma seen_bit: "req_rel_bit t ipv4 ipv6 b e = Some e' \<Longrightarrow> seen e' = seen e"
  unfolding req_rel_bit_def Let_def split_beta by (drule seen_on_nif) simp

lemma seen_atl: "request_atl i t e = Some e' \<Longrightarrow> seen e' = seen e"
  unfolding request_atl_def Let_def split_beta by (auto split: if_splits dest!: seen_on_nif)

lemma seen_supl_es: "request_supl_es i e = Some e' \<Longrightarrow> seen e' = seen e"
  by (auto simp: request_supl_es_def split: if_splits dest!: seen_on_nif)

lemma seen_ds_event: "ds_event ev e = Some e' \<Longrightarrow> seen e' = seen e"
  by (auto simp: ds_event_def split: if_splits dest!: seen_on_nif)

lemma seen_proc: "\<not> reporting m \<Longrightarrow> eng_proc m e = Some e' \<Longrightarrow> seen e' = seen e"
  by (cases m) (auto simp: seen_request_ni loc_eng_reinit_def
      dest!: seen_nif_event seen_bit seen_atl seen_supl_es seen_ds_event)

section \<open>The queue of messages\<close>

fun from_engine :: "eng_msg \<Rightarrow> bool" where
  "from_engine (LocEngRequestATL i t) \<longleftrightarrow> t = AGPS_TYPE_SUPL"
| "from_engine (LocEngRequestSuplEs i) \<longleftrightarrow> True"
| "from_engine (LocEngConfigure c) \<longleftrightarrow> True"
| "from_engine LocEngSetCapabilities \<longleftrightarrow> True"
| "from_engine LocEngSetSystemInfo \<longleftrightarrow> True"
| "from_engine m \<longleftrightarrow> False"

text \<open>The handlers add only messages of the machines and those that pass on the configuration.\<close>

definition adds :: "loc_eng \<Rightarrow> loc_eng \<Rightarrow> bool" where
  "adds e e' \<longleftrightarrow> (\<exists>xs. msgs e' = msgs e @ xs \<and> (\<forall>x\<in>set xs. from_engine x))"

lemma adds_refl [simp, intro]: "adds e e"
  by (simp add: adds_def)

lemma adds_trans: "adds a b \<Longrightarrow> adds b c \<Longrightarrow> adds a c"
  unfolding adds_def by (metis UnE append.assoc set_append)

lemma adds_same: "msgs e' = msgs e \<Longrightarrow> adds e e'"
  by (simp add: adds_def)

lemma as_message_from: "as_message x = Some m \<Longrightarrow> from_engine m"
  by (cases x) auto

lemma adds_sends:
  assumes "\<forall>x\<in>set xs. from_engine x"
  shows "adds e (fold adapter_send xs e)"
  using assms
proof (induction xs arbitrary: e)
  case (Cons x xs)
  have "adds e (adapter_send x e)"
    using Cons.prems by (simp add: adds_def adapter_send_def eng_post_def)
  moreover have "adds (adapter_send x e) (fold adapter_send xs (adapter_send x e))"
    using Cons by simp
  ultimately show ?case
    using adds_trans by simp
qed simp

lemma msgs_simps [simp]:
  "msgs (set_nif k m e) = msgs e" "msgs (setInSession b e) = msgs e" "msgs (createAgnssNifs e) = msgs e"
  "msgs (snd (getAgpsStateMachine t e)) = msgs e" "msgs (loc_eng_start_handler e) = msgs e"
  "msgs (loc_eng_stop_handler e) = msgs e" "msgs (loc_eng_report_status st e) = msgs e"
  "msgs (update_aiding_data_for_deletion e) = msgs e" "msgs (request_ni es ov t p e) = msgs e"
  "msgs (report_sv svs e) = msgs e" "msgs (report_position pos e) = msgs e"
  by (simp_all add: setInSession_def createAgnssNifs_def initDataServiceClient_def getAgpsStateMachine_def
      loc_eng_start_handler_def adapter_startFix_def loc_eng_stop_handler_def loc_eng_report_status_def
      loc_inform_gps_status_def update_aiding_data_for_deletion_def request_ni_def loc_eng_mute_one_session_def
      report_sv_def report_position_def report_fix_def Let_def split: option.split) (cases k; simp)

lemma adds_on_nif: "on_nif k f e = Some e' \<Longrightarrow> adds e e'"
proof -
  assume "on_nif k f e = Some e'"
  then obtain m xs where e': "e' = fold adapter_send xs (set_nif k m e)" "\<forall>x\<in>set xs. from_engine x"
    by (auto simp: on_nif_def Let_def map_filter_def as_message_from split: option.splits)
  have "adds e (set_nif k m e)"
    by (rule adds_same) simp
  then show ?thesis
    unfolding e'(1) by (rule adds_trans [OF _ adds_sends [OF e'(2)]])
qed

lemma on_nif_there: "get_nif k e = Some m \<Longrightarrow> \<exists>e'. on_nif k f e = Some e'"
  by (simp add: on_nif_def Let_def)

lemma adds_try: "adds e (snd (try_release k s e))"
proof (cases "get_nif k e")
  case (Some m)
  then obtain e' where "on_nif k (\<lambda>m. snd (unsubscribeRsrc s m)) e = Some e'"
    using on_nif_there by blast
  then show ?thesis
    using adds_on_nif by (simp add: try_release_def Some)
qed (simp add: try_release_def)

lemma adds_emit [simp]: "adds e (emit x e') = adds e e'"
  by (simp add: adds_def)

lemma adds_release: "adds e (release_atl i e)"
proof -
  have t: "adds e e'" if "try_release k s e = (b, e')" for k s b e e'
    using adds_try [of e k s] that by simp
  show ?thesis
    by (auto simp: release_atl_def Let_def split: prod.split dest!: t intro: adds_trans)
qed

lemma adds_get: "on_nif (fst (getAgpsStateMachine t e)) f (snd (getAgpsStateMachine t e)) = Some e' \<Longrightarrow> adds e e'"
  using adds_on_nif adds_trans [OF adds_same] by (metis msgs_simps(4))

lemma adds_post: "from_engine m \<Longrightarrow> adds e e' \<Longrightarrow> adds e (eng_post m e')"
  unfolding adds_def eng_post_def by (auto intro: exI [of _ "_ @ [m]"])

lemma adds_reinit: "adds e (loc_eng_reinit e)"
  by (rule reinit_posts [of e]) (auto simp: adds_def)

lemma adds_up: "adds e (loc_eng_handle_engine_up e)"
  by (rule engine_up_posts [of e]) (auto simp: adds_def)

lemma adds_proc: "eng_proc m e = Some e' \<Longrightarrow> adds e e'"
proof (cases m)
  case (LocEngRequestATL i t)
  assume "eng_proc m e = Some e'"
  then show ?thesis
    by (auto simp: LocEngRequestATL request_atl_def Let_def split_beta adds_same split: if_splits intro: adds_get)
qed (auto simp: adds_release adds_same req_rel_bit_def nif_event_def ds_event_def request_supl_es_def Let_def split_beta
      loc_eng_handle_engine_down_def
      split: if_splits intro!: adds_post intro: adds_get adds_on_nif adds_reinit adds_up)

section \<open>The muted session\<close>


fun posted :: "eng_step \<Rightarrow> eng_msg list" where
  "posted (Post m) = [m]"
| "posted a = []"

text \<open>
  The interface between the thread and what a group of messages keeps: the handlers of the group keep it,
  the machines only post messages of the group, and what else changes the state does not reach it.
\<close>

locale message_invariant =
  fixes allowed :: "eng_msg \<Rightarrow> bool" and kept :: "loc_eng \<Rightarrow> bool"
  assumes handler: "allowed m \<Longrightarrow> kept e \<Longrightarrow> eng_proc m e = Some e' \<Longrightarrow> kept e'"
    and machine: "from_engine m \<Longrightarrow> allowed m"
    and queue: "kept (e\<lparr>msgs := ms\<rparr>) = kept e"
    and requests: "kept (e\<lparr>loc_eng_ni_data := n\<rparr>) = kept e"
    and retry: "kept e \<Longrightarrow> on_nif Ds retryCallback e = Some e' \<Longrightarrow> kept e'"
begin

definition holds :: "loc_eng \<Rightarrow> bool" where
  "holds e \<longleftrightarrow> kept e \<and> (\<forall>m\<in>set (msgs e). allowed m)"

lemma allowed_adds: "adds e e' \<Longrightarrow> \<forall>m\<in>set (msgs e). allowed m \<Longrightarrow> \<forall>m\<in>set (msgs e'). allowed m"
  using machine by (auto simp: adds_def)

lemma step:
  assumes "holds e" "eng_do a e = Some e'" "\<forall>m\<in>set (posted a). allowed m"
  shows "holds e'"
proof (cases a)
  case (Post m)
  then have "e' = e \<or> e' = e\<lparr>msgs := msgs e @ [m]\<rparr>" "allowed m"
    using assms by (auto simp: adapter_send_def eng_post_def)
  then show ?thesis
    using assms(1) by (auto simp: holds_def queue)
next
  case Handle
  show ?thesis
  proof (cases "msgs e")
    case Nil
    then show ?thesis
      using assms Handle by simp
  next
    case (Cons m ms)
    then have p: "eng_proc m (e\<lparr>msgs := ms\<rparr>) = Some e'" "allowed m" "kept (e\<lparr>msgs := ms\<rparr>)"
      and ms: "\<forall>m\<in>set (msgs (e\<lparr>msgs := ms\<rparr>)). allowed m"
      using assms Handle by (simp_all add: holds_def queue)
    show ?thesis
      using handler [OF p(2,3,1)] allowed_adds [OF adds_proc [OF p(1)] ms] by (simp add: holds_def)
  qed
next
  case (NiStep n)
  then show ?thesis
    using assms by (auto simp: holds_def requests split: option.splits if_splits)
next
  case RetryExpires
  show ?thesis
  proof (cases "ds_nif e = None")
    case False
    then have "on_nif Ds retryCallback e = Some e'"
      using assms RetryExpires by simp
    with retry allowed_adds [OF adds_on_nif] assms(1) show ?thesis
      by (auto simp: holds_def)
  qed (use assms RetryExpires in simp)
qed

lemma run:
  "holds e \<Longrightarrow> eng_run steps e = Some e' \<Longrightarrow> \<forall>m\<in>set (concat (map posted steps)). allowed m \<Longrightarrow> holds e'"
proof (induction steps arbitrary: e)
  case (Cons a as)
  then obtain e1 where "eng_do a e = Some e1" "eng_run as e1 = Some e'"
    by (auto split: option.splits)
  moreover have "holds e1"
    using step [OF Cons.prems(1) calculation(1)] Cons.prems(3) by simp
  ultimately show ?case
    using Cons.IH Cons.prems(3) by simp
qed simp

end



lemma reports_update [simp]:
  "reports (e\<lparr>engine_status := st\<rparr>) = reports e" "reports (e\<lparr>fix_session_status := st\<rparr>) = reports e"
  "reports (e\<lparr>mute_session_state := mu\<rparr>) = reports e" "reports (e\<lparr>aiding_data_for_deletion := f\<rparr>) = reports e"
  "reports (e\<lparr>msgs := ms\<rparr>) = reports e" "reports (e\<lparr>mNavigating := b\<rparr>) = reports e"
  "reports (e\<lparr>fix_mode := md\<rparr>) = reports e" "reports (e\<lparr>mGnssSvIdUsedInPosition := u\<rparr>) = reports e"
  by (simp_all add: reports_def)



section \<open>Aiding data\<close>

definition aiding_ok :: "loc_eng \<Rightarrow> bool" where
  "aiding_ok e \<longleftrightarrow> aiding_data_for_deletion e = 0 \<or> engine_status e = GPS_STATUS_ENGINE_ON"

lemma aiding_handler:
  assumes "m \<noteq> LocEngDown" "eng_proc m e = Some e'"
    and "aiding_data_for_deletion e = 0 \<or> engine_status e = GPS_STATUS_ENGINE_ON"
  shows "aiding_data_for_deletion e' = 0 \<or> engine_status e' = GPS_STATUS_ENGINE_ON"
proof (cases "reporting m")
  case True
  have r: "aiding_data_for_deletion (report_position p e) = aiding_data_for_deletion e"
    "engine_status (report_position p e) = engine_status e"
    "aiding_data_for_deletion (report_sv svs e) = aiding_data_for_deletion e"
    "engine_status (report_sv svs e) = engine_status e"
    "aiding_data_for_deletion (request_ni es ov t q e) = aiding_data_for_deletion e"
    "engine_status (request_ni es ov t q e) = engine_status e" for p svs es ov t q
    by (simp_all add: report_position_def report_fix_def report_sv_def request_ni_def loc_eng_mute_one_session_def
        setInSession_def Let_def split: option.split)
  show ?thesis
    using True assms by (cases m) (auto simp: r update_aiding_data_for_deletion_def)
next
  case False
  with seen_proc [OF this assms(2)] assms(3) show ?thesis
    by (simp add: seen_def)
qed

interpretation deferral: message_invariant "\<lambda>m. m \<noteq> LocEngDown" aiding_ok
proof
  show "aiding_ok e'" if "m \<noteq> LocEngDown" "aiding_ok e" "eng_proc m e = Some e'" for m e e'
    using aiding_handler [OF that(1,3)] that(2) by (simp add: aiding_ok_def)
  show "aiding_ok e'" if "aiding_ok e" "on_nif Ds retryCallback e = Some e'" for e e'
    using seen_on_nif [OF that(2)] that(1) by (simp add: aiding_ok_def seen_def)
qed (auto simp: aiding_ok_def)

section \<open>The machines are there\<close>

definition grows :: "loc_eng \<Rightarrow> loc_eng \<Rightarrow> bool" where
  "grows e e' \<longleftrightarrow> conf e' = conf e \<and> (\<forall>k. get_nif k e \<noteq> None \<longrightarrow> get_nif k e' \<noteq> None)"

lemma grows_refl [simp, intro]: "grows e e"
  by (simp add: grows_def)


lemma get_nif_simps [simp]:
  "get_nif k (emit x e) = get_nif k e" "get_nif k (e\<lparr>msgs := ms\<rparr>) = get_nif k e"
  "get_nif k (e\<lparr>loc_eng_ni_data := n\<rparr>) = get_nif k e" "get_nif k (setInSession b e) = get_nif k e"
  "get_nif k (set_nif k' m e) = (if k' = k then Some m else get_nif k e)"
  "get_nif k (e\<lparr>fix_answers := as\<rparr>) = get_nif k e" "get_nif k (e\<lparr>mute_session_state := mu\<rparr>) = get_nif k e"
  "get_nif k (e\<lparr>aiding_data_for_deletion := f\<rparr>) = get_nif k e"
  "get_nif k (e\<lparr>mGnssSvIdUsedInPosition := u\<rparr>) = get_nif k e" "get_nif k (e\<lparr>engine_status := st\<rparr>) = get_nif k e"
  "get_nif k (e\<lparr>fix_session_status := st\<rparr>) = get_nif k e"
  "get_nif k (e\<lparr>fix_mode := md, fix_recurrence := rc\<rparr>) = get_nif k e"
  by (cases k; simp add: setInSession_def Let_def; cases k'; simp)+

lemma conf_simps [simp]:
  "conf (setInSession b e) = conf e" "conf (set_nif k m e) = conf e"
  by (simp_all add: setInSession_def Let_def) (cases k; simp)










lemma nif_start [simp]:
  "agnss_nif (loc_eng_start_handler e) = agnss_nif e" "internet_nif (loc_eng_start_handler e) = internet_nif e"
  "ds_nif (loc_eng_start_handler e) = ds_nif e" "conf (loc_eng_start_handler e) = conf e"
  "agnss_nif (setInSession b e) = agnss_nif e" "internet_nif (setInSession b e) = internet_nif e"
  "ds_nif (setInSession b e) = ds_nif e"
  by (simp_all add: loc_eng_start_handler_def adapter_startFix_def setInSession_def Let_def)




text \<open>The machines and the configuration, for the operations that do not touch them.\<close>

definition nifs :: "loc_eng \<Rightarrow> agps option \<times> agps option \<times> agps option \<times> gps_conf" where
  "nifs e = (agnss_nif e, internet_nif e, ds_nif e, conf e)"

lemma nifs_update [simp]:
  "nifs (emit x e) = nifs e" "nifs (setInSession b e) = nifs e" "nifs (e\<lparr>mute_session_state := mu\<rparr>) = nifs e"
  "nifs (e\<lparr>engine_status := st\<rparr>) = nifs e" "nifs (e\<lparr>fix_session_status := st\<rparr>) = nifs e"
  "nifs (e\<lparr>aiding_data_for_deletion := f\<rparr>) = nifs e" "nifs (e\<lparr>mGnssSvIdUsedInPosition := u\<rparr>) = nifs e"
  "nifs (e\<lparr>loc_eng_ni_data := n\<rparr>) = nifs e" "nifs (e\<lparr>fix_mode := md, fix_recurrence := rc\<rparr>) = nifs e"
  by (simp_all add: nifs_def)


lemma nifs_report_fix [simp]: "nifs (snd (report_fix p e)) = nifs e"
  by (simp add: report_fix_def split: option.split)

lemma nifs_report_position [simp]: "nifs (report_position p e) = nifs e"
proof -
  have "nifs e1 = nifs e" if "report_fix p e = (r, e1)" for r e1
    using that nifs_report_fix [of p e] by simp
  then show ?thesis
    by (auto simp: report_position_def Let_def split: prod.split option.split)
qed

lemma nifs_report_sv [simp]: "nifs (report_sv svs e) = nifs e"
  by (simp add: report_sv_def Let_def)

lemma nifs_request_ni [simp]: "nifs (request_ni es ov t q e) = nifs e"
  by (simp add: request_ni_def loc_eng_mute_one_session_def Let_def)

lemma nifs_status [simp]: "nifs (loc_eng_report_status st e) = nifs e"
proof -
  have "nifs (if c then e1\<lparr>engine_status := st\<rparr> else e1) = nifs e1"
    "nifs (if c then e1\<lparr>fix_session_status := st\<rparr> else e1) = nifs e1"
    "nifs (if c then if d then loc_inform_gps_status st e1 else e1 else e1) = nifs e1" for c d e1
    by (simp_all add: loc_inform_gps_status_def)
  then show ?thesis
    unfolding loc_eng_report_status_def Let_def by simp
qed

lemma nifs_aiding [simp]: "nifs (update_aiding_data_for_deletion e) = nifs e"
  by (simp add: update_aiding_data_for_deletion_def)

lemma nifs_stop [simp]: "nifs (loc_eng_stop_handler e) = nifs e"
  by (simp add: loc_eng_stop_handler_def)










section \<open>Slots and satellites\<close>

unbundle bit_operations_syntax

text \<open>Clearing the lowest bit takes one from the number of bits that are set.\<close>

definition ones :: "nat \<Rightarrow> nat" where
  "ones n = card {i. bit n i}"

lemma finite_bits: "finite {i. bit (n :: nat) i}"
proof (rule finite_subset)
  show "{i. bit n i} \<subseteq> {..<n}"
  proof
    fix i
    assume "i \<in> {i. bit n i}"
    then have "2 ^ i \<le> n"
      by (simp add: bit_iff_odd) (metis div_less even_zero not_less)
    with less_exp [of i] have "i < n"
      by (rule less_le_trans)
    then show "i \<in> {..<n}"
      by simp
  qed
qed simp

lemma ones_double: "ones (2 * n) = ones n"
proof -
  have "{i. bit (2 * n) i} = Suc ` {i. bit n i}"
    by (auto simp: bit_double_iff image_iff gr0_conv_Suc)
  then show ?thesis
    by (simp add: ones_def card_image)
qed

lemma ones_odd: "ones (Suc (2 * n)) = Suc (ones n)"
proof -
  have "{i. bit (Suc (2 * n)) i} = insert 0 {i. bit (2 * n) i}"
    by (auto simp: bit_Suc bit_0 gr0_conv_Suc bit_double_iff split: nat.split)
  then show ?thesis
    using finite_bits [of "2 * n"] ones_double [of n] by (simp add: ones_def bit_0)
qed

lemma and_double: "(2 * a) AND (2 * b) = 2 * (a AND b)" "(2 * a) AND Suc (2 * b) = 2 * (a AND b)"
  "Suc (2 * a) AND (2 * b) = 2 * (a AND b)"
  for a b :: nat
  by (simp_all add: and_nat_rec [of "2 * a"] and_nat_rec [of "Suc (2 * a)"])

lemma clear_lowest: "0 < n \<Longrightarrow> ones n = Suc (ones (n AND (n - 1)))"
proof (induction n rule: nat_bit_induct)
  case (even n)
  then have "2 * n - 1 = Suc (2 * (n - 1))"
    by simp
  then show ?case
    using even by (simp only: and_double ones_double)
next
  case (odd n)
  then show ?case
    by (simp add: and_double ones_double ones_odd)
qed simp
lemma slot_count_ones: "slot_count w = ones (unat w)"
proof (induction w rule: slot_count.induct)
  case (1 w)
  show ?case
  proof (cases "w = 0")
    case True
    then show ?thesis
      by (simp add: slot_count.simps ones_def)
  next
    case False
    then have "unat (w AND (w - 1)) = unat w AND (unat w - 1)"
      by (simp add: unsigned_and_eq unat_minus_one)
    then show ?thesis
      using 1 [OF False] clear_lowest [of "unat w"] False by (simp add: slot_count.simps [of w] unat_gt_0)
  qed
qed

lemma slot_count_bits: "slot_count w = card {i. i < 32 \<and> bit w i}"
proof -
  have "{i. i < 32 \<and> bit w i} = {i. bit (unat w) i}"
    by (auto simp: bit_unsigned_iff dest: bit_imp_le_length)
  then show ?thesis
    by (simp add: slot_count_ones ones_def)
qed

lemma bit_shifted_one:
  assumes "0 \<le> n" "n \<le> 31"
  shows "bit (shifted_one n e) i = (i < 64 \<and> min 31 i = nat n)"
  using assms by (auto simp: shifted_one_def bit_signed_iff bit_exp_iff)

lemma and_nonzero: "(w AND v \<noteq> 0) = (\<exists>i<64. bit w i \<and> bit (v :: 64 word) i)"
  by (auto simp: bit_eq_iff bit_and_iff)



text \<open>For satellite 32 the shift has the sign of an \<open>int\<close>: it is taken for used if any of 32 to 64 was.\<close>

lemma satellite_32_marked:
  assumes "svid s = 32"
  shows "used_in_fix (mark_sv u e s) = (\<exists>i\<in>{31..<64}. bit (mask_of u (sv_constellation s)) i)"
proof -
  have "bit (shifted_one 31 e) i = (31 \<le> i \<and> i < 64)" for i
    by (auto simp: bit_shifted_one min_def)
  then show ?thesis
    using assms by (auto simp: mark_sv_def and_nonzero)
qed

section \<open>An engine to evaluate on\<close>

definition some_conf :: gps_conf where
  "some_conf = \<lparr>INTERMEDIATE_POS = 0, ACCURACY_THRES = 0, AGPS_CAPABLE = True, USE_EMERGENCY_PDN = True,
     AGPS_CERT_WRITABLE_MASK = 5, NMEA_PROVIDER_IS_AP = False, SENSOR_PROPERTY_VALID = False\<rparr>"

definition fresh :: loc_eng where
  "fresh = (loc_eng_init some_conf True True True True True True True)\<lparr>msgs := []\<rparr>"

definition gps_fix :: position where
  "gps_fix = \<lparr>p_id = 7, has_accuracy = False, accuracy = 0, tech_mask = LOC_POS_TECH_MASK_SATELLITE,
     p_status = LOC_SESS_SUCCESS, used_data = None, rawData = None\<rparr>"

lemmas engine_ops = fresh_def some_conf_def loc_eng_init_def eng_post_def adapter_send_def emit_def gps_fix_def
  ni_none_def ni_session_init_def

section \<open>The properties\<close>




text \<open>
  C23: in every run without a restart of the modem, a deletion of aiding data waits only while the engine
  is on, and the report that it is off carries it out.
\<close>

theorem aiding_data_waits_for_engine:
  assumes "eng_run steps (loc_eng_init cf l st sv cc si n a) = Some e" and "LocEngDown \<notin> set (concat (map posted steps))"
  shows "(aiding_data_for_deletion e = 0 \<or> engine_status e = GPS_STATUS_ENGINE_ON) \<and>
    (\<exists>e2. eng_proc (LocEngReportStatus GPS_STATUS_ENGINE_OFF) e = Some e2 \<and> aiding_data_for_deletion e2 = 0 \<and>
      (aiding_data_for_deletion e = 0 \<or> last (eng_outs e2) = ModemDeleteAiding (aiding_data_for_deletion e)))"
proof -
  have "deferral.holds (loc_eng_init cf l st sv cc si n a)"
    by (simp add: deferral.holds_def aiding_ok_def loc_eng_init_def eng_post_def)
  from deferral.run [OF this assms(1)] assms(2) have "aiding_ok e"
    by (auto simp: deferral.holds_def)
  moreover have "aiding_data_for_deletion (loc_eng_report_status GPS_STATUS_ENGINE_OFF e) = aiding_data_for_deletion e"
    "engine_status (loc_eng_report_status GPS_STATUS_ENGINE_OFF e) = GPS_STATUS_ENGINE_OFF"
    by (simp_all add: loc_eng_report_status_def loc_inform_gps_status_def Let_def)
  ultimately show ?thesis
    by (auto simp: aiding_ok_def update_aiding_data_for_deletion_def)
qed

definition aiding_run_steps :: "eng_step list" where
  "aiding_run_steps = [Post (LocEngReportStatus GPS_STATUS_ENGINE_ON), Post (LocEngDelAidData 3), Handle, Handle, Handle]"

theorem aiding_data_waits_for_engine_witness:
  "\<exists>e e2. eng_run aiding_run_steps (loc_eng_init some_conf True True True True True True True) = Some e \<and>
     aiding_data_for_deletion e = 3 \<and> eng_proc (LocEngReportStatus GPS_STATUS_ENGINE_OFF) e = Some e2 \<and>
     last (eng_outs e2) = ModemDeleteAiding 3"
proof -
  let ?r = "eng_run aiding_run_steps (loc_eng_init some_conf True True True True True True True)"
  have r: "?r = Some (the ?r)" "aiding_data_for_deletion (the ?r) = 3"
    by (simp_all add: aiding_run_steps_def loc_eng_init_def some_conf_def eng_post_def adapter_send_def emit_def
        loc_eng_reinit_def loc_eng_report_status_def mute_on_status_def loc_inform_gps_status_def
        update_aiding_data_for_deletion_def Let_def)
  from aiding_data_waits_for_engine [OF r(1)] r show ?thesis
    by (simp add: aiding_run_steps_def) blast
qed

text \<open>A restart of the modem leaves the deletion behind although the engine is off.\<close>

lemma restart_keeps_aiding_data:
  "eng_proc LocEngDown e = Some e' \<Longrightarrow> aiding_data_for_deletion e' = aiding_data_for_deletion e \<and>
   engine_status e' = GPS_STATUS_ENGINE_OFF"
  by (auto simp: loc_eng_handle_engine_down_def loc_eng_report_status_def loc_inform_gps_status_def Let_def)



text \<open>On a target without those capabilities a request of the BIT daemon is a null pointer that is followed.\<close>

lemma incapable_target_crashes:
  "\<not> AGPS_CAPABLE (conf e) \<Longrightarrow> agnss_nif e = None \<Longrightarrow>
   eng_proc (LocEngReqRelBIT AGPS_TYPE_SUPL ipv4 ipv6 b) (createAgnssNifs e) = None"
  by (simp add: req_rel_bit_def getAgpsStateMachine_def createAgnssNifs_def on_nif_def Let_def)

text \<open>Subscribing to a machine that is released and has no subscribers.\<close>

lemma first_request:
  assumes "mStatePtr m = AgpsReleasedState" "mSubscribers m = []" "\<not> is_ds m"
  shows "subscribeRsrc s m = m\<lparr>mSubscribers := [s\<lparr>s_at := next_at m, mIsInactive := False\<rparr>], next_at := next_at m + 1,
    outs := outs m @ [RequestRsrc GPS_REQUEST_AGPS_DATA_CONN], mStatePtr := AgpsPendingState\<rparr>"
  using assms by (simp add: subscribeRsrc_def hasSubscribers_def state_event_def onRsrcEvent_Released_def addSubscriber_def
      find_subscriber_def sendRsrcRequest_def sendRsrcRequest_agps_def out_def forMe_def to_group_def isInactive_def
      Let_def)





text \<open>
  When the modem comes back, the subscribers are dropped but the machine keeps its state: a request
  that comes after a restart in the pending state is put in the list, nothing is asked of the framework,
  and nobody answers the modem.
\<close>

theorem restart_forgets_request:
  assumes "has_agps_cb e" and "agnss_nif e = Some g" and "mStatePtr g = AgpsPendingState"
  shows "\<exists>e1 e2 g'. eng_proc LocEngUp e = Some e1 \<and> eng_proc (LocEngRequestATL i AGPS_TYPE_SUPL) e1 = Some e2 \<and>
    agnss_nif e2 = Some g' \<and> mStatePtr g' = AgpsPendingState \<and>
    map s_ID (mSubscribers g') = [word_of_int i] \<and> outs g' = outs g"
proof (rule engine_up_posts [of e])
  fix xs e1
  assume up: "loc_eng_handle_engine_up e = (if mNavigating e then loc_eng_start_handler (setInSession False e1) else e1)"
    and e1: "e1 = (if has_agps_cb e then e\<lparr>agnss_nif := map_option dropAllSubscribers (agnss_nif e),
       internet_nif := map_option dropAllSubscribers (internet_nif e)\<rparr> else e)\<lparr>msgs := msgs e @ map LocEngConfigure xs\<rparr>"
  have g: "agnss_nif (loc_eng_handle_engine_up e) = Some (dropAllSubscribers g)"
    using assms(1,2) by (simp add: up e1)
  then have "\<exists>e2 g'. eng_proc (LocEngRequestATL i AGPS_TYPE_SUPL) (loc_eng_handle_engine_up e) = Some e2 \<and>
      agnss_nif e2 = Some g' \<and> mStatePtr g' = AgpsPendingState \<and> map s_ID (mSubscribers g') = [word_of_int i] \<and>
      outs g' = outs g"
    using assms(3) by (simp add: request_atl_def getAgpsStateMachine_def on_nif_def
        dropAllSubscribers_def subscribeRsrc_def hasSubscribers_def state_event_def onRsrcEvent_Pending_def
        addSubscriber_def find_subscriber_def atl_subscriber_def map_filter_simps)
  then show ?thesis
    by auto
qed

definition pending_engine :: loc_eng where
  "pending_engine = fresh\<lparr>has_agps_cb := True,
     agnss_nif := Some (subscribeRsrc (atl_subscriber 4 False) (new_machine False AGPS_TYPE_SUPL False []))\<rparr>"

theorem restart_forgets_request_witness:
  "\<exists>e1 e2 g'. eng_proc LocEngUp pending_engine = Some e1 \<and> eng_proc (LocEngRequestATL 5 AGPS_TYPE_SUPL) e1 = Some e2 \<and>
     agnss_nif e2 = Some g' \<and> mStatePtr g' = AgpsPendingState \<and> map s_ID (mSubscribers g') = [5] \<and>
     outs g' = [RequestRsrc GPS_REQUEST_AGPS_DATA_CONN]"
  using restart_forgets_request [of pending_engine _ 5]
  by (simp add: pending_engine_def engine_ops first_request new_machine_def)

text \<open>
  A modem that restarts while a session is under way gets the session started again with an invalid
  mode: the flag of the session is cleared first, and that also clears the mode the framework has set.
\<close>

theorem restarted_fix_has_no_mode:
  assumes "mNavigating e"
  shows "\<exists>e' xs. eng_proc LocEngUp e = Some e' \<and> eng_outs e' = eng_outs e @ xs \<and>
    ModemStartFix LOC_POSITION_MODE_INVALID \<in> set xs \<and> fix_mode e' = LOC_POSITION_MODE_INVALID"
proof (rule engine_up_posts [of e])
  fix xs e1
  assume up: "loc_eng_handle_engine_up e = (if mNavigating e then loc_eng_start_handler (setInSession False e1) else e1)"
    and e1: "e1 = (if has_agps_cb e then e\<lparr>agnss_nif := map_option dropAllSubscribers (agnss_nif e),
       internet_nif := map_option dropAllSubscribers (internet_nif e)\<rparr> else e)\<lparr>msgs := msgs e @ map LocEngConfigure xs\<rparr>"
  have "eng_outs e1 = eng_outs e"
    by (simp add: e1)
  then show ?thesis
    using assms by (simp add: up loc_eng_start_handler_def adapter_startFix_def setInSession_def Let_def)
qed

theorem restarted_fix_has_no_mode_witness:
  "\<exists>e' xs. eng_proc LocEngUp (fresh\<lparr>mNavigating := True, fix_mode := 0\<rparr>) = Some e' \<and> eng_outs e' = xs \<and>
     ModemStartFix LOC_POSITION_MODE_INVALID \<in> set xs"
  using restarted_fix_has_no_mode [of "fresh\<lparr>mNavigating := True, fix_mode := 0\<rparr>"] by (simp add: engine_ops)

text \<open>
  A second request that overrides privacy while a session is muted ends the muting: the state goes
  back to waiting, and the next position of the very session is shown to the framework.
\<close>

theorem second_override_unmutes:
  assumes "mute_session_state e = LOC_MUTE_SESS_IN_SESSION" and "ni_notify_cb (loc_eng_ni_data e)"
    and "rawRequest (sessions (loc_eng_ni_data e) es) = None" and "rawRequest (sessions (loc_eng_ni_data e) True) = None"
    and "has_location_cb e" and "p_status p = LOC_SESS_SUCCESS" and "tech_mask p = LOC_POS_TECH_MASK_SATELLITE"
    and "msgs e = [LocEngRequestNi es True t q, LocEngReportPosition p]"
  shows "\<exists>e'. eng_run [Handle, Handle] e = Some e' \<and> LocationCb (Some (p_id p)) \<in> set (reports e')"
proof -
  let ?e1 = "request_ni es True t q (e\<lparr>msgs := [LocEngReportPosition p]\<rparr>)"
  have e1: "mute_session_state ?e1 = LOC_MUTE_SESS_WAIT" "has_location_cb ?e1" "msgs ?e1 = [LocEngReportPosition p]"
    using assms by (auto simp: request_ni_def loc_eng_ni_request_handler_def loc_eng_mute_one_session_def Let_def
        on_session_def)
  have acc: "accepts_fix p e0" for e0
    using assms(6,7) by (simp add: accepts_fix_def)
  have "LocationCb (Some (p_id p)) \<in> set (reports (report_position p (?e1\<lparr>msgs := []\<rparr>)))"
    using e1(1,2) assms(6) acc
    by (simp add: report_position_def report_fix_def setInSession_def Let_def split: option.split)
  moreover have "eng_run [Handle, Handle] e = Some (report_position p (?e1\<lparr>msgs := []\<rparr>))"
    using assms(8) e1(3) by simp
  ultimately show ?thesis
    by blast
qed

definition override_engine :: loc_eng where
  "override_engine = fresh\<lparr>mute_session_state := LOC_MUTE_SESS_IN_SESSION, loc_eng_ni_data := ni_ready,
     msgs := [LocEngRequestNi False True 0 3, LocEngReportPosition gps_fix]\<rparr>"

theorem second_override_unmutes_witness:
  "\<exists>e'. eng_run [Handle, Handle] override_engine = Some e' \<and> LocationCb (Some 7) \<in> set (reports e')"
  using second_override_unmutes [of override_engine False gps_fix 0 3]
  by (simp add: override_engine_def engine_ops ni_ready_def loc_eng_ni_init_def)





text \<open>
  Certificates are passed to the modem exactly if there are some, no more of them than slots, that is
  bits set in the mask, and none is longer than a slot; the loop that counts the slots always ends.
\<close>

theorem certificates_fit_slots:
  "loc_eng_agps_install_certificates lengths e =
     (let slots = AGPS_CERT_WRITABLE_MASK (conf e); n = card {i. i < 32 \<and> bit slots i}
      in if lengths = [] then (AGPS_CERTIFICATE_OPERATION_SUCCESS, e)
         else if n < length lengths then (AGPS_CERTIFICATE_ERROR_TOO_MANY_CERTIFICATES, e)
         else if Max (set lengths) > AGPS_CERTIFICATE_MAX_LENGTH then (AGPS_CERTIFICATE_ERROR_GENERIC, e)
         else (AGPS_CERTIFICATE_OPERATION_SUCCESS, e\<lparr>msgs := msgs e @ [LocEngInstallAGpsCert lengths slots]\<rparr>))"
proof -
  have "list_ex (\<lambda>n. n > AGPS_CERTIFICATE_MAX_LENGTH) lengths \<longleftrightarrow> Max (set lengths) > AGPS_CERTIFICATE_MAX_LENGTH"
    if "lengths \<noteq> []"
    using that by (simp add: list_ex_iff Max_gr_iff)
  then show ?thesis
    by (simp add: loc_eng_agps_install_certificates_def slot_count_bits eng_post_def Let_def)
qed

end
