(* ===== verification/Loc_List.thy ===== *)
theory Loc_List
  imports HAL_Prelude
begin

text \<open>
  The linked list of the location utilities (\<open>src/gps/utils/linked_list.c\<close>): elements with two pointers on
  a heap of allocated cells, a pointer to the head, where elements are added, and one to the tail, where
  they are taken. An access to an element that is not allocated has no result.
\<close>

section \<open>Elements, lists and errors\<close>

datatype ll_err = eLINKED_LIST_SUCCESS | eLINKED_LIST_FAILURE_GENERAL | eLINKED_LIST_INVALID_PARAMETER
  | eLINKED_LIST_INVALID_HANDLE | eLINKED_LIST_UNAVAILABLE_RESOURCE | eLINKED_LIST_INSUFFICIENT_BUFFER

record 'd list_element =
  e_next :: "nat option"
  e_prev :: "nat option"
  data_ptr :: 'd
  dealloc_func :: bool

text \<open>\<open>deallocated\<close> records the data handed to the elements' release functions.\<close>

record 'd list_state =
  cells :: "nat \<Rightarrow> 'd list_element option"
  p_head :: "nat option"
  p_tail :: "nat option"
  deallocated :: "'d list"

definition put_next :: "nat \<Rightarrow> nat option \<Rightarrow> 'd list_state \<Rightarrow> 'd list_state option" where
  "put_next a v l = map_option (\<lambda>el. l\<lparr>cells := (cells l)(a \<mapsto> el\<lparr>e_next := v\<rparr>)\<rparr>) (cells l a)"

definition put_prev :: "nat \<Rightarrow> nat option \<Rightarrow> 'd list_state \<Rightarrow> 'd list_state option" where
  "put_prev a v l = map_option (\<lambda>el. l\<lparr>cells := (cells l)(a \<mapsto> el\<lparr>e_prev := v\<rparr>)\<rparr>) (cells l a)"

definition free_element :: "nat \<Rightarrow> 'd list_state \<Rightarrow> 'd list_state" where
  "free_element a l = l\<lparr>cells := (cells l)(a := None)\<rparr>"

section \<open>The operations\<close>

text \<open>
  A pointer that may be null is an option: a handle, the data, the address that \<open>malloc\<close> returns, the
  comparison. \<open>place\<close> says whether there is a place for a result, \<open>calloc\<close> whether memory was found.
\<close>

definition empty_list :: "'d list_state" where
  "empty_list = \<lparr>cells = (\<lambda>_. None), p_head = None, p_tail = None, deallocated = []\<rparr>"

definition linked_list_init :: "bool \<Rightarrow> bool \<Rightarrow> ll_err \<times> 'd list_state option" where
  "linked_list_init place calloc =
     (if \<not> place then (eLINKED_LIST_INVALID_PARAMETER, None)
      else if \<not> calloc then (eLINKED_LIST_FAILURE_GENERAL, None)
      else (eLINKED_LIST_SUCCESS, Some empty_list))"

definition linked_list_add ::
    "nat option \<Rightarrow> 'd option \<Rightarrow> bool \<Rightarrow> 'd list_state option \<Rightarrow> (ll_err \<times> 'd list_state option) option" where
  "linked_list_add addr data dealloc lst =
     (case lst of
        None \<Rightarrow> Some (eLINKED_LIST_INVALID_HANDLE, None)
      | Some l \<Rightarrow>
          (case data of
             None \<Rightarrow> Some (eLINKED_LIST_INVALID_PARAMETER, Some l)
           | Some d \<Rightarrow>
               (case addr of
                  None \<Rightarrow> Some (eLINKED_LIST_FAILURE_GENERAL, Some l)
                | Some a \<Rightarrow>
                    let tmp = p_head l;
                        l1 = l\<lparr>cells := (cells l)(a \<mapsto> \<lparr>e_next = tmp, e_prev = None, data_ptr = d, dealloc_func = dealloc\<rparr>),
                               p_head := Some a\<rparr>
                    in map_option (\<lambda>l2. (eLINKED_LIST_SUCCESS, Some l2))
                         (case tmp of Some t \<Rightarrow> put_prev t (Some a) l1 | None \<Rightarrow> Some (l1\<lparr>p_tail := Some a\<rparr>)))))"

definition linked_list_remove ::
    "bool \<Rightarrow> 'd list_state option \<Rightarrow> (ll_err \<times> 'd option \<times> 'd list_state option) option" where
  "linked_list_remove place lst =
     (case lst of
        None \<Rightarrow> Some (eLINKED_LIST_INVALID_HANDLE, None, None)
      | Some l \<Rightarrow>
          if \<not> place then Some (eLINKED_LIST_INVALID_PARAMETER, None, Some l)
          else (case p_tail l of
             None \<Rightarrow> Some (eLINKED_LIST_UNAVAILABLE_RESOURCE, None, Some l)
           | Some tmp \<Rightarrow>
               (case cells l tmp of
                  None \<Rightarrow> None
                | Some el \<Rightarrow>
                    let l1 = l\<lparr>p_tail := e_prev el\<rparr>
                    in map_option (\<lambda>l2. (eLINKED_LIST_SUCCESS, Some (data_ptr el), Some (free_element tmp l2)))
                         (case e_prev el of Some q \<Rightarrow> put_next q None l1 | None \<Rightarrow> Some (l1\<lparr>p_head := None\<rparr>)))))"

text \<open>Without a list the result is the code of an error, which is not 0 and so taken for true.\<close>

definition linked_list_empty :: "'d list_state option \<Rightarrow> bool" where
  "linked_list_empty lst = (case lst of None \<Rightarrow> True | Some l \<Rightarrow> p_head l = None)"

text \<open>The element that is found is taken out of the list and released.\<close>

definition unlink_element :: "bool \<Rightarrow> nat \<Rightarrow> 'd list_element \<Rightarrow> 'd list_state \<Rightarrow> 'd list_state option" where
  "unlink_element copied a el l =
     (case (case e_prev el of None \<Rightarrow> Some (l\<lparr>p_head := e_next el\<rparr>) | Some q \<Rightarrow> put_next q (e_next el) l) of
        None \<Rightarrow> None
      | Some l1 \<Rightarrow>
          map_option (\<lambda>l2. free_element a
              (if \<not> copied \<and> dealloc_func el then l2\<lparr>deallocated := deallocated l2 @ [data_ptr el]\<rparr> else l2))
            (case e_next el of None \<Rightarrow> Some (l1\<lparr>p_tail := e_prev el\<rparr>) | Some n \<Rightarrow> put_prev n (e_prev el) l1))"

text \<open>
  The loop of the search from element \<open>tmp\<close>. The comparison is a function of the caller that may have
  effects, on a state \<open>s\<close> of his. A loop that does not return has no result either.
\<close>

partial_function (option) search_loop ::
    "('d \<Rightarrow> 's \<Rightarrow> bool \<times> 's) \<Rightarrow> bool \<Rightarrow> bool \<Rightarrow> nat option \<Rightarrow> 'd list_state \<Rightarrow> 's \<Rightarrow>
     ('d option \<times> 'd list_state \<times> 's) option" where
  "search_loop eq copied rm_if_found tmp l s =
     (case tmp of
        None \<Rightarrow> Some (None, l, s)
      | Some a \<Rightarrow>
          (case cells l a of
             None \<Rightarrow> None
           | Some el \<Rightarrow>
               let (found, s1) = eq (data_ptr el) s
               in if found then
                    if rm_if_found then map_option (\<lambda>l1. (Some (data_ptr el), l1, s1)) (unlink_element copied a el l)
                    else Some (Some (data_ptr el), l, s1)
                  else search_loop eq copied rm_if_found (e_next el) l s1))"

definition linked_list_search ::
    "('d \<Rightarrow> 's \<Rightarrow> bool \<times> 's) option \<Rightarrow> bool \<Rightarrow> bool \<Rightarrow> 'd list_state option \<Rightarrow> 's \<Rightarrow>
     (ll_err \<times> 'd option \<times> 'd list_state option \<times> 's) option" where
  "linked_list_search equal copied rm_if_found lst s =
     (case (lst, equal) of
        (None, _) \<Rightarrow> Some (eLINKED_LIST_INVALID_HANDLE, None, None, s)
      | (_, None) \<Rightarrow> Some (eLINKED_LIST_INVALID_HANDLE, None, lst, s)
      | (Some l, Some eq) \<Rightarrow>
          if p_tail l = None then Some (eLINKED_LIST_UNAVAILABLE_RESOURCE, None, Some l, s)
          else map_option (\<lambda>(d, l1, s1). (eLINKED_LIST_SUCCESS, if copied then d else None, Some l1, s1))
                 (search_loop eq copied rm_if_found (p_head l) l s))"

partial_function (option) ll_flush_loop :: "'d list_state \<Rightarrow> 'd list_state option" where
  "ll_flush_loop l =
     (case p_head l of
        None \<Rightarrow> Some l
      | Some a \<Rightarrow>
          (case cells l a of
             None \<Rightarrow> None
           | Some el \<Rightarrow>
               let l1 = (if dealloc_func el then l\<lparr>deallocated := deallocated l @ [data_ptr el]\<rparr> else l)
               in ll_flush_loop ((free_element a l1)\<lparr>p_head := e_next el\<rparr>)))"

definition linked_list_flush :: "'d list_state option \<Rightarrow> (ll_err \<times> 'd list_state option) option" where
  "linked_list_flush lst =
     (case lst of
        None \<Rightarrow> Some (eLINKED_LIST_INVALID_HANDLE, None)
      | Some l \<Rightarrow> map_option (\<lambda>l1. (eLINKED_LIST_SUCCESS, Some (l1\<lparr>p_tail := None\<rparr>))) (ll_flush_loop l))"

declare search_loop.simps [code] ll_flush_loop.simps [code]

text \<open>
  The place of the handle may be missing, and so may the list. The list is given up; the result has the
  data that it released.
\<close>

definition linked_list_destroy :: "'d list_state option option \<Rightarrow> (ll_err \<times> 'd list) option" where
  "linked_list_destroy place =
     (case place of
        None \<Rightarrow> Some (eLINKED_LIST_INVALID_HANDLE, [])
      | Some lst \<Rightarrow>
          map_option (\<lambda>(_, l). (eLINKED_LIST_SUCCESS, case l of None \<Rightarrow> [] | Some l1 \<Rightarrow> deallocated l1))
            (linked_list_flush lst))"

section \<open>A list in memory\<close>

text \<open>\<open>first_of as q\<close> and \<open>last_of p as\<close>: the first and the last of \<open>as\<close>, and what stands there if there is none.\<close>

definition first_of :: "nat list \<Rightarrow> nat option \<Rightarrow> nat option" where
  "first_of as q = (if as = [] then q else Some (hd as))"

definition last_of :: "nat option \<Rightarrow> nat list \<Rightarrow> nat option" where
  "last_of p as = (if as = [] then p else Some (last as))"

lemma ends_simps [simp]:
  "first_of [] q = q" "first_of (a # as) q = Some a" "last_of p [] = p" "last_of p (a # as) = last_of (Some a) as"
  "last_of p (as @ [a]) = Some a"
  by (simp_all add: first_of_def last_of_def)

text \<open>The elements \<open>as\<close> with their contents, between what is before and what comes after.\<close>

fun seg :: "(nat \<Rightarrow> 'd list_element option) \<Rightarrow> nat option \<Rightarrow> nat list \<Rightarrow> nat option \<Rightarrow> ('d \<times> bool) list \<Rightarrow> bool" where
  "seg c p [] q xs \<longleftrightarrow> xs = []"
| "seg c p (a # as) q xs \<longleftrightarrow>
     (\<exists>d b ys. xs = (d, b) # ys \<and> c a = Some \<lparr>e_next = first_of as q, e_prev = p, data_ptr = d, dealloc_func = b\<rparr> \<and>
        seg c (Some a) as q ys)"

definition rep_at :: "nat list \<Rightarrow> 'd list_state \<Rightarrow> ('d \<times> bool) list \<Rightarrow> bool" where
  "rep_at as l xs \<longleftrightarrow> distinct as \<and> seg (cells l) None as None xs \<and> dom (cells l) = set as \<and>
     p_head l = first_of as None \<and> p_tail l = last_of None as"

text \<open>The list holds \<open>xs\<close>, the head first, and nothing else is allocated.\<close>

definition rep :: "'d list_state \<Rightarrow> ('d \<times> bool) list \<Rightarrow> bool" where
  "rep l xs \<longleftrightarrow> (\<exists>as. rep_at as l xs)"

lemma seg_cong: "(\<And>a. a \<in> set as \<Longrightarrow> c' a = c a) \<Longrightarrow> seg c' p as q xs = seg c p as q xs"
  by (induction as arbitrary: p xs) auto

lemma first_of_append: "first_of (as @ bs) q = first_of as (first_of bs q)"
  by (cases as) simp_all

lemma seg_append:
  "seg c p (as @ bs) q xs \<longleftrightarrow> (\<exists>ys zs. xs = ys @ zs \<and> seg c p as (first_of bs q) ys \<and> seg c (last_of p as) bs q zs)"
proof (induction as arbitrary: p xs)
  case (Cons a as)
  show ?case
  proof
    assume "seg c p ((a # as) @ bs) q xs"
    then obtain d b ys zs where "xs = ((d, b) # ys) @ zs" "seg c p (a # as) (first_of bs q) ((d, b) # ys)"
      "seg c (last_of p (a # as)) bs q zs"
      by (auto simp: Cons.IH first_of_append)
    then show "\<exists>ys zs. xs = ys @ zs \<and> seg c p (a # as) (first_of bs q) ys \<and> seg c (last_of p (a # as)) bs q zs"
      by blast
  next
    assume "\<exists>ys zs. xs = ys @ zs \<and> seg c p (a # as) (first_of bs q) ys \<and> seg c (last_of p (a # as)) bs q zs"
    then obtain d b ys zs where *: "xs = (d, b) # ys @ zs" "seg c (Some a) as (first_of bs q) ys"
      "c a = Some \<lparr>e_next = first_of as (first_of bs q), e_prev = p, data_ptr = d, dealloc_func = b\<rparr>"
      "seg c (last_of (Some a) as) bs q zs"
      by auto
    then have "seg c (Some a) (as @ bs) q (ys @ zs)"
      using Cons.IH by blast
    with * show "seg c p ((a # as) @ bs) q xs"
      by (simp add: first_of_append)
  qed
qed simp

lemma seg_next:
  assumes "seg c p (as @ [a]) q xs" "distinct (as @ [a])"
  shows "\<exists>el. c a = Some el \<and> seg (c(a \<mapsto> el\<lparr>e_next := q'\<rparr>)) p (as @ [a]) q' xs"
proof -
  obtain ys d b where xs: "xs = ys @ [(d, b)]" "seg c p as (Some a) ys"
    "c a = Some \<lparr>e_next = q, e_prev = last_of p as, data_ptr = d, dealloc_func = b\<rparr>"
    using assms(1) by (auto simp: seg_append)
  have "seg (c(a \<mapsto> el)) p as (Some a) ys" for el
    using xs(2) assms(2) by (subst seg_cong) auto
  then show ?thesis
    by (auto simp: seg_append xs)
qed

lemma seg_prev:
  assumes "seg c p (a # as) q xs" "distinct (a # as)"
  shows "\<exists>el. c a = Some el \<and> seg (c(a \<mapsto> el\<lparr>e_prev := p'\<rparr>)) p' (a # as) q xs"
proof -
  obtain ys d b where xs: "xs = (d, b) # ys" "seg c (Some a) as q ys"
    "c a = Some \<lparr>e_next = first_of as q, e_prev = p, data_ptr = d, dealloc_func = b\<rparr>"
    using assms(1) by auto
  have "seg (c(a \<mapsto> el)) (Some a) as q ys" for el
    using xs(2) assms(2) by (subst seg_cong) auto
  then show ?thesis
    by (simp add: xs)
qed

section \<open>The operations on a list in memory\<close>

lemma empty_list_rep: "rep empty_list []"
  by (auto simp: rep_def rep_at_def empty_list_def intro: exI [of _ "[]"])

lemma add_rep:
  assumes "rep l xs" "cells l a = None"
  shows "\<exists>l'. linked_list_add (Some a) (Some d) b (Some l) = Some (eLINKED_LIST_SUCCESS, Some l') \<and> rep l' ((d, b) # xs) \<and>
    deallocated l' = deallocated l"
proof -
  obtain as where as: "distinct as" "seg (cells l) None as None xs" "dom (cells l) = set as"
    "p_head l = first_of as None" "p_tail l = last_of None as"
    using assms(1) by (auto simp: rep_def rep_at_def)
  have a: "a \<notin> set as"
    using assms(2) as(3) by auto
  show ?thesis
  proof (cases as)
    case Nil
    then show ?thesis
      using as by (auto simp: linked_list_add_def rep_def rep_at_def intro!: exI [of _ "[a]"])
  next
    case (Cons t ts)
    obtain el where el: "cells l t = Some el" "seg ((cells l)(t \<mapsto> el\<lparr>e_prev := Some a\<rparr>)) (Some a) as None xs"
      using seg_prev [of "cells l" None t ts None xs "Some a"] as(1,2) Cons by auto
    let ?c = "(cells l)(a \<mapsto> \<lparr>e_next = Some t, e_prev = None, data_ptr = d, dealloc_func = b\<rparr>, t \<mapsto> el\<lparr>e_prev := Some a\<rparr>)"
    have "seg ?c (Some a) as None xs"
      using el(2) a by (subst seg_cong [of _ _ "(cells l)(t \<mapsto> el\<lparr>e_prev := Some a\<rparr>)"]) (auto simp: Cons)
    moreover have "a \<noteq> t"
      using a Cons by auto
    ultimately have "rep_at (a # as) (l\<lparr>cells := ?c, p_head := Some a\<rparr>) ((d, b) # xs)"
      using as a by (auto simp: rep_at_def Cons)
    moreover have "linked_list_add (Some a) (Some d) b (Some l) =
        Some (eLINKED_LIST_SUCCESS, Some (l\<lparr>cells := ?c, p_head := Some a\<rparr>))"
      using as(4) \<open>a \<noteq> t\<close> el(1) by (simp add: linked_list_add_def Cons put_prev_def)
    ultimately show ?thesis
      unfolding rep_def by auto
  qed
qed

lemma remove_empty: "rep l [] \<Longrightarrow> linked_list_remove True (Some l) = Some (eLINKED_LIST_UNAVAILABLE_RESOURCE, None, Some l)"
proof -
  assume "rep l []"
  then obtain as where as: "rep_at as l []"
    by (auto simp: rep_def)
  then have "as = []"
    by (cases as) (auto simp: rep_at_def)
  with as show ?thesis
    by (simp add: rep_at_def linked_list_remove_def)
qed

lemma seg_length: "seg c p as q xs \<Longrightarrow> length as = length xs"
  by (induction as arbitrary: p xs) auto

lemma remove_rep:
  assumes "rep l (xs @ [(d, b)])"
  shows "\<exists>l'. linked_list_remove True (Some l) = Some (eLINKED_LIST_SUCCESS, Some d, Some l') \<and> rep l' xs \<and>
    deallocated l' = deallocated l"
proof -
  obtain as0 where as0: "distinct as0" "seg (cells l) None as0 None (xs @ [(d, b)])" "dom (cells l) = set as0"
    "p_head l = first_of as0 None" "p_tail l = last_of None as0"
    using assms by (auto simp: rep_def rep_at_def)
  moreover have "as0 \<noteq> []"
    using as0(2) by auto
  ultimately obtain as a where a: "as0 = as @ [a]"
    by (metis rev_exhaust)
  have x: "seg (cells l) None as (Some a) xs"
    "cells l a = Some \<lparr>e_next = None, e_prev = last_of None as, data_ptr = d, dealloc_func = b\<rparr>"
    using as0(2) by (auto simp: a seg_append)
  show ?thesis
  proof (cases as rule: rev_cases)
    case Nil
    let ?l = "l\<lparr>cells := (cells l)(a := None), p_head := None, p_tail := None\<rparr>"
    have "linked_list_remove True (Some l) = Some (eLINKED_LIST_SUCCESS, Some d, Some ?l)"
      using as0(5) x(2) by (simp add: linked_list_remove_def a Nil free_element_def)
    moreover have "rep_at [] ?l xs"
      using as0(3) x(1) by (auto simp: rep_at_def a Nil)
    ultimately show ?thesis
      unfolding rep_def by auto
  next
    case (snoc bs e)
    obtain el where el: "cells l e = Some el" "seg ((cells l)(e \<mapsto> el\<lparr>e_next := None\<rparr>)) None as None xs"
      using seg_next [of "cells l" None bs e "Some a" xs None] x(1) as0(1) by (auto simp: snoc a)
    let ?c = "((cells l)(e \<mapsto> el\<lparr>e_next := None\<rparr>))(a := None)"
    let ?l = "l\<lparr>cells := ?c, p_tail := Some e\<rparr>"
    have ne: "e \<noteq> a" "a \<notin> set as"
      using as0(1) by (auto simp: snoc a)
    have "p_tail l = Some a"
      using as0(5) by (simp add: a)
    then have "linked_list_remove True (Some l) = Some (eLINKED_LIST_SUCCESS, Some d, Some ?l)"
      using x(2) el(1) by (simp add: linked_list_remove_def snoc put_next_def free_element_def)
    moreover have "seg ?c None as None xs"
      using el(2) ne by (subst seg_cong [of _ _ "(cells l)(e \<mapsto> el\<lparr>e_next := None\<rparr>)"]) auto
    then have "rep_at as ?l xs"
      using as0 ne by (auto simp: rep_at_def a snoc first_of_def hd_append split: if_splits)
    ultimately show ?thesis
      unfolding rep_def by auto
  qed
qed

lemma empty_rep: "rep l xs \<Longrightarrow> linked_list_empty (Some l) = (xs = [])"
  by (auto simp: rep_def rep_at_def linked_list_empty_def first_of_def split: if_splits dest: seg_length)

text \<open>Taking an element out of the middle.\<close>

lemma unlink_rep:
  assumes "rep_at (as @ a # bs) l (ys @ (d, b) # zs)" "length as = length ys"
  shows "\<exists>el l'. cells l a = Some el \<and> data_ptr el = d \<and> unlink_element copied a el l = Some l' \<and> rep_at (as @ bs) l' (ys @ zs) \<and>
    deallocated l' = deallocated l @ (if \<not> copied \<and> b then [d] else [])"
proof -
  let ?xs = "ys @ (d, b) # zs"
  have r: "distinct (as @ a # bs)" "seg (cells l) None (as @ a # bs) None ?xs" "dom (cells l) = insert a (set as \<union> set bs)"
    "p_head l = first_of (as @ a # bs) None" "p_tail l = last_of None (as @ a # bs)"
    using assms(1) by (auto simp: rep_at_def)
  obtain ys' zs' where s: "?xs = ys' @ zs'" "seg (cells l) None as (Some a) ys'"
    "seg (cells l) (last_of None as) (a # bs) None zs'"
    using r(2) by (auto simp: seg_append)
  have "length ys' = length ys"
    using seg_length [OF s(2)] assms(2) by simp
  then have y: "ys' = ys" "zs' = (d, b) # zs"
    using s(1) by (auto simp: append_eq_append_conv)
  then have c: "seg (cells l) (Some a) bs None zs"
    "cells l a = Some \<lparr>e_next = first_of bs None, e_prev = last_of None as, data_ptr = d, dealloc_func = b\<rparr>"
    using s(3) by auto
  obtain l1 where l1: "(case last_of None as of None \<Rightarrow> Some (l\<lparr>p_head := first_of bs None\<rparr>) | Some q \<Rightarrow> put_next q (first_of bs None) l) = Some l1"
    "seg (cells l1) None as (first_of bs None) ys" "seg (cells l1) (Some a) bs None zs" "dom (cells l1) = dom (cells l)"
    "p_head l1 = first_of (as @ bs) None" "p_tail l1 = p_tail l" "deallocated l1 = deallocated l"
  proof (cases as rule: rev_cases)
    case Nil
    then show ?thesis
      using that s(2) y c by simp
  next
    case (snoc es e)
    obtain el where el: "cells l e = Some el" "seg ((cells l)(e \<mapsto> el\<lparr>e_next := first_of bs None\<rparr>)) None as (first_of bs None) ys"
      using seg_next [of "cells l" None es e "Some a" ys "first_of bs None"] s(2) r(1) y by (auto simp: snoc)
    have "seg ((cells l)(e \<mapsto> el\<lparr>e_next := first_of bs None\<rparr>)) (Some a) bs None zs"
      using c(1) r(1) by (subst seg_cong) (auto simp: snoc)
    moreover have "first_of (as @ a # bs) None = first_of (as @ bs) None"
      by (simp add: snoc first_of_def hd_append)
    ultimately show ?thesis
      using that [of "l\<lparr>cells := (cells l)(e \<mapsto> el\<lparr>e_next := first_of bs None\<rparr>)\<rparr>"] el r(4)
      by (auto simp: snoc put_next_def)
  qed
  obtain l2 where l2: "(case first_of bs None of None \<Rightarrow> Some (l1\<lparr>p_tail := last_of None as\<rparr>) | Some n \<Rightarrow> put_prev n (last_of None as) l1) = Some l2"
    "seg (cells l2) None as (first_of bs None) ys" "seg (cells l2) (last_of None as) bs None zs" "dom (cells l2) = dom (cells l)"
    "p_head l2 = first_of (as @ bs) None" "p_tail l2 = last_of None (as @ bs)" "deallocated l2 = deallocated l"
  proof (cases bs)
    case Nil
    then show ?thesis
      using that [of "l1\<lparr>p_tail := last_of None as\<rparr>"] l1 by simp
  next
    case (Cons n ns)
    obtain el where el: "cells l1 n = Some el" "seg ((cells l1)(n \<mapsto> el\<lparr>e_prev := last_of None as\<rparr>)) (last_of None as) bs None zs"
      using seg_prev [of "cells l1" "Some a" n ns None zs "last_of None as"] l1(3) r(1) by (auto simp: Cons)
    have "seg ((cells l1)(n \<mapsto> el\<lparr>e_prev := last_of None as\<rparr>)) None as (first_of bs None) ys"
      using l1(2) r(1) by (subst seg_cong) (auto simp: Cons)
    moreover have "last_of None (as @ a # bs) = last_of None (as @ bs)"
      by (simp add: Cons last_of_def)
    ultimately show ?thesis
      using that [of "l1\<lparr>cells := (cells l1)(n \<mapsto> el\<lparr>e_prev := last_of None as\<rparr>)\<rparr>"] el l1 r(5)
      by (auto simp: Cons put_prev_def)
  qed
  let ?l3 = "free_element a (if \<not> copied \<and> b then l2\<lparr>deallocated := deallocated l2 @ [d]\<rparr> else l2)"
  have "unlink_element copied a \<lparr>e_next = first_of bs None, e_prev = last_of None as, data_ptr = d, dealloc_func = b\<rparr> l = Some ?l3"
    using l1(1) l2(1) by (simp add: unlink_element_def cong: option.case_cong)
  moreover have "seg ((cells l2)(a := None)) None (as @ bs) None (ys @ zs)"
  proof -
    have "seg ((cells l2)(a := None)) None as (first_of bs None) ys" "seg ((cells l2)(a := None)) (last_of None as) bs None zs"
      using l2(2,3) r(1) by (subst seg_cong; auto)+
    then show ?thesis
      by (auto simp: seg_append)
  qed
  then have "rep_at (as @ bs) ?l3 (ys @ zs)"
    using l2 r(1,3) by (auto simp: rep_at_def free_element_def)
  ultimately show ?thesis
    using c(2) l2(7) by (auto simp: free_element_def)
qed

section \<open>Search and flush on a list in memory\<close>

text \<open>The specification of a search: the first element the comparison is true of, and the others.\<close>

fun first_match :: "('d \<Rightarrow> 's \<Rightarrow> bool \<times> 's) \<Rightarrow> ('d \<times> bool) list \<Rightarrow> 's \<Rightarrow> ('d \<times> bool) option \<times> ('d \<times> bool) list \<times> 's" where
  "first_match eq [] s = (None, [], s)"
| "first_match eq (x # xs) s =
     (let (found, s1) = eq (fst x) s
      in if found then (Some x, xs, s1)
         else let (f, rest, s2) = first_match eq xs s1 in (f, x # rest, s2))"

definition search_result ::
    "('d \<Rightarrow> 's \<Rightarrow> bool \<times> 's) \<Rightarrow> bool \<Rightarrow> bool \<Rightarrow> ('d \<times> bool) list \<Rightarrow> 's \<Rightarrow>
     'd option \<times> ('d \<times> bool) list \<times> 'd list \<times> 's" where
  "search_result eq copied rm xs s =
     (let (f, rest, s1) = first_match eq xs s
      in (map_option fst f, if rm then rest else xs,
          case f of Some (d, True) \<Rightarrow> if rm \<and> \<not> copied then [d] else [] | _ \<Rightarrow> [], s1))"

lemma search_result_Cons:
  "search_result eq copied rm ((d, b) # zs) s =
     (let (found, s1) = eq d s
      in if found then (Some d, if rm then zs else (d, b) # zs, if rm \<and> \<not> copied \<and> b then [d] else [], s1)
         else let (f, rest, out, s2) = search_result eq copied rm zs s1 in (f, (d, b) # rest, out, s2))"
  by (cases b) (simp_all add: search_result_def split_beta)

lemma rep_at_middle:
  assumes "rep_at (as @ a # bs) l (ys @ (d, b) # zs)" "length as = length ys"
  shows "cells l a = Some \<lparr>e_next = first_of bs None, e_prev = last_of None as, data_ptr = d, dealloc_func = b\<rparr>"
proof -
  obtain ys' zs' where s: "ys @ (d, b) # zs = ys' @ zs'" "seg (cells l) None as (Some a) ys'"
    "seg (cells l) (last_of None as) (a # bs) None zs'"
    using assms(1) by (auto simp: rep_at_def seg_append)
  have "length ys' = length ys"
    using seg_length [OF s(2)] assms(2) by simp
  then have "zs' = (d, b) # zs"
    using s(1) by (auto simp: append_eq_append_conv)
  then show ?thesis
    using s(3) by auto
qed

lemma search_loop_rep:
  assumes "rep_at (as @ bs) l (ys @ zs)" "length as = length ys"
  shows "\<exists>l'. search_loop eq copied rm (first_of bs None) l s =
      (let (f, rest, out, s1) = search_result eq copied rm zs s in Some (f, l', s1)) \<and>
    rep l' (ys @ fst (snd (search_result eq copied rm zs s))) \<and>
    deallocated l' = deallocated l @ fst (snd (snd (search_result eq copied rm zs s)))"
  using assms
proof (induction zs arbitrary: as bs ys s)
  case Nil
  then have "length bs = 0"
    using seg_length [of "cells l" None "as @ bs" None ys] by (simp add: rep_at_def)
  then show ?case
    using Nil by (subst search_loop.simps) (auto simp: search_result_def rep_def)
next
  case (Cons z zs)
  obtain d b where z: "z = (d, b)"
    by (cases z)
  have "length bs = Suc (length zs)"
    using seg_length [of "cells l" None "as @ bs" None "ys @ z # zs"] Cons.prems by (simp add: rep_at_def)
  then obtain a cs where bs: "bs = a # cs"
    by (cases bs) auto
  note el = rep_at_middle [OF Cons.prems(1) [unfolded bs z] Cons.prems(2)]
  obtain found s1 where f: "eq d s = (found, s1)"
    by (cases "eq d s")
  consider "found" "rm" | "found" "\<not> rm" | "\<not> found"
    by blast
  then show ?case
  proof cases
    case 1
    obtain l' where "unlink_element copied a \<lparr>e_next = first_of cs None, e_prev = last_of None as, data_ptr = d, dealloc_func = b\<rparr> l = Some l'"
      "rep_at (as @ cs) l' (ys @ zs)" "deallocated l' = deallocated l @ (if \<not> copied \<and> b then [d] else [])"
      using unlink_rep [OF Cons.prems(1) [unfolded bs z] Cons.prems(2), of copied] el by auto
    then show ?thesis
      using 1 el by (subst search_loop.simps) (auto simp: bs z f search_result_Cons rep_def)
  next
    case 2
    have "rep l (ys @ z # zs)"
      using Cons.prems(1) by (auto simp: rep_def)
    then show ?thesis
      using 2 el by (subst search_loop.simps) (auto simp: bs z f search_result_Cons)
  next
    case 3
    have "rep_at ((as @ [a]) @ cs) l ((ys @ [z]) @ zs)" "length (as @ [a]) = length (ys @ [z])"
      using Cons.prems by (simp_all add: bs)
    from Cons.IH [OF this, of s1]
    obtain l' where "search_loop eq copied rm (first_of cs None) l s1 =
        (let (f, rest, out, s2) = search_result eq copied rm zs s1 in Some (f, l', s2))"
      "rep l' ((ys @ [z]) @ fst (snd (search_result eq copied rm zs s1)))"
      "deallocated l' = deallocated l @ fst (snd (snd (search_result eq copied rm zs s1)))"
      by blast
    moreover obtain g rest out s2 where "search_result eq copied rm zs s1 = (g, rest, out, s2)"
      by (metis prod_cases4)
    ultimately show ?thesis
      using 3 el by (subst search_loop.simps) (simp add: bs z f search_result_Cons)
  qed
qed

lemma rep_tail: "rep l xs \<Longrightarrow> (p_tail l = None) = (xs = [])"
  by (auto simp: rep_def rep_at_def last_of_def split: if_splits dest: seg_length)

lemma search_rep:
  assumes "rep l xs" "xs \<noteq> []" "search_result eq copied rm xs s = (f, rest, out, s1)"
  shows "\<exists>l'. linked_list_search (Some eq) copied rm (Some l) s =
      Some (eLINKED_LIST_SUCCESS, if copied then f else None, Some l', s1) \<and>
    rep l' rest \<and> deallocated l' = deallocated l @ out"
proof -
  obtain as where "rep_at as l xs"
    using assms(1) by (auto simp: rep_def)
  then obtain l' where "search_loop eq copied rm (p_head l) l s = Some (f, l', s1)" "rep l' rest"
    "deallocated l' = deallocated l @ out"
    using search_loop_rep [of "[]" as l "[]" xs eq copied rm s] assms(3) by (auto simp: rep_at_def)
  then show ?thesis
    using rep_tail [OF assms(1)] assms(2) by (simp add: linked_list_search_def)
qed

lemma flush_loop_rep:
  "seg (cells l) p as None xs \<Longrightarrow> distinct as \<Longrightarrow> dom (cells l) = set as \<Longrightarrow> p_head l = first_of as None \<Longrightarrow>
   ll_flush_loop l = Some (l\<lparr>cells := Map.empty, p_head := None, deallocated := deallocated l @ map fst (filter snd xs)\<rparr>)"
proof (induction as arbitrary: p xs l)
  case Nil
  then show ?case
    by (subst ll_flush_loop.simps) (auto simp: dom_eq_empty_conv)
next
  case (Cons a as)
  obtain d b ys where x: "xs = (d, b) # ys" "seg (cells l) (Some a) as None ys"
    "cells l a = Some \<lparr>e_next = first_of as None, e_prev = p, data_ptr = d, dealloc_func = b\<rparr>"
    using Cons.prems(1) by auto
  let ?l = "(free_element a (if b then l\<lparr>deallocated := deallocated l @ [d]\<rparr> else l))\<lparr>p_head := first_of as None\<rparr>"
  have "seg (cells ?l) (Some a) as None ys"
    using x(2) Cons.prems(2) by (subst seg_cong [of _ _ "cells l"]) (auto simp: free_element_def)
  moreover have "distinct as" "dom (cells ?l) = set as" "p_head ?l = first_of as None"
    using Cons.prems(2,3) by (auto simp: free_element_def)
  ultimately have "ll_flush_loop ?l = Some (?l\<lparr>cells := Map.empty, p_head := None,
      deallocated := deallocated ?l @ map fst (filter snd ys)\<rparr>)"
    by (rule Cons.IH)
  then show ?case
    using Cons.prems(4) x by (subst ll_flush_loop.simps) (auto simp: free_element_def)
qed

lemma flush_rep:
  assumes "rep l xs"
  shows "\<exists>l'. linked_list_flush (Some l) = Some (eLINKED_LIST_SUCCESS, Some l') \<and> rep l' [] \<and>
    deallocated l' = deallocated l @ map fst (filter snd xs)"
proof -
  obtain as where as: "rep_at as l xs"
    using assms by (auto simp: rep_def)
  then have "ll_flush_loop l = Some (l\<lparr>cells := Map.empty, p_head := None, deallocated := deallocated l @ map fst (filter snd xs)\<rparr>)"
    by (intro flush_loop_rep) (auto simp: rep_at_def)
  then show ?thesis
    by (auto simp: linked_list_flush_def rep_def rep_at_def intro!: exI [of _ "[]"])
qed

text \<open>Destroying a list releases what was in it, once each.\<close>

lemma destroy_rep:
  "rep l xs \<Longrightarrow> linked_list_destroy (Some (Some l)) = Some (eLINKED_LIST_SUCCESS, deallocated l @ map fst (filter snd xs))"
  using flush_rep [of l xs] by (auto simp: linked_list_destroy_def)

section \<open>Runs\<close>

datatype ('d, 's) list_op =
    AddOp "nat option" 'd bool
  | RemoveOp
  | SearchOp "'d \<Rightarrow> 's \<Rightarrow> bool \<times> 's" bool bool
  | FlushOp

text \<open>An operation on the list of the program: its code and its data.\<close>

fun ll_do :: "('d, 's) list_op \<Rightarrow> 'd list_state option \<times> 's \<Rightarrow>
    ((ll_err \<times> 'd option) \<times> 'd list_state option \<times> 's) option" where
  "ll_do (AddOp a d b) (l, s) = map_option (\<lambda>(e, l1). ((e, None), l1, s)) (linked_list_add a (Some d) b l)"
| "ll_do RemoveOp (l, s) = map_option (\<lambda>(e, d, l1). ((e, d), l1, s)) (linked_list_remove True l)"
| "ll_do (SearchOp eq copied rm) (l, s) =
     map_option (\<lambda>(e, d, l1, s1). ((e, d), l1, s1)) (linked_list_search (Some eq) copied rm l s)"
| "ll_do FlushOp (l, s) = map_option (\<lambda>(e, l1). ((e, None), l1, s)) (linked_list_flush l)"

fun ll_run :: "('d, 's) list_op list \<Rightarrow> 'd list_state option \<times> 's \<Rightarrow>
    ((ll_err \<times> 'd option) list \<times> 'd list_state option \<times> 's) option" where
  "ll_run [] p = Some ([], p)"
| "ll_run (x # xs) p =
     (case ll_do x p of
        None \<Rightarrow> None
      | Some (r, p1) \<Rightarrow> map_option (\<lambda>(rs, p2). (r # rs, p2)) (ll_run xs p1))"

text \<open>An address that \<open>malloc\<close> returns is not allocated.\<close>

fun malloc_ok :: "('d, 's) list_op list \<Rightarrow> 'd list_state option \<times> 's \<Rightarrow> bool" where
  "malloc_ok [] p \<longleftrightarrow> True"
| "malloc_ok (x # xs) p \<longleftrightarrow>
     (case (x, fst p) of (AddOp (Some a) _ _, Some l) \<Rightarrow> cells l a = None | _ \<Rightarrow> True) \<and>
     (case ll_do x p of None \<Rightarrow> True | Some (_, p1) \<Rightarrow> malloc_ok xs p1)"

text \<open>The specification: a list, the data released so far, and the state of the comparisons.\<close>

fun spec_do :: "('d, 's) list_op \<Rightarrow> ('d \<times> bool) list \<times> 'd list \<times> 's \<Rightarrow>
    (ll_err \<times> 'd option) \<times> ('d \<times> bool) list \<times> 'd list \<times> 's" where
  "spec_do (AddOp a d b) (xs, out, s) =
     (if a = None then ((eLINKED_LIST_FAILURE_GENERAL, None), xs, out, s)
      else ((eLINKED_LIST_SUCCESS, None), (d, b) # xs, out, s))"
| "spec_do RemoveOp (xs, out, s) =
     (if xs = [] then ((eLINKED_LIST_UNAVAILABLE_RESOURCE, None), xs, out, s)
      else ((eLINKED_LIST_SUCCESS, Some (fst (last xs))), butlast xs, out, s))"
| "spec_do (SearchOp eq copied rm) (xs, out, s) =
     (if xs = [] then ((eLINKED_LIST_UNAVAILABLE_RESOURCE, None), xs, out, s)
      else let (f, rest, freed, s1) = search_result eq copied rm xs s
           in ((eLINKED_LIST_SUCCESS, if copied then f else None), rest, out @ freed, s1))"
| "spec_do FlushOp (xs, out, s) = ((eLINKED_LIST_SUCCESS, None), [], out @ map fst (filter snd xs), s)"

fun spec_run :: "('d, 's) list_op list \<Rightarrow> ('d \<times> bool) list \<times> 'd list \<times> 's \<Rightarrow>
    (ll_err \<times> 'd option) list \<times> ('d \<times> bool) list \<times> 'd list \<times> 's" where
  "spec_run [] p = ([], p)"
| "spec_run (x # xs) p = (let (r, p1) = spec_do x p; (rs, p2) = spec_run xs p1 in (r # rs, p2))"

lemma ll_do_refines:
  assumes "rep l xs" "case x of AddOp (Some a) _ _ \<Rightarrow> cells l a = None | _ \<Rightarrow> True"
    "spec_do x (xs, deallocated l, s) = (r, ys, out, s1)"
  shows "\<exists>l'. ll_do x (Some l, s) = Some (r, Some l', s1) \<and> rep l' ys \<and> deallocated l' = out"
proof (cases x)
  case (AddOp a d b)
  then show ?thesis
    using assms add_rep [OF assms(1), of _ d b] by (cases a) (auto simp: linked_list_add_def)
next
  case RemoveOp
  show ?thesis
  proof (cases xs rule: rev_cases)
    case Nil
    then show ?thesis
      using assms remove_empty [of l] RemoveOp by auto
  next
    case (snoc zs z)
    then show ?thesis
      using assms remove_rep [of l zs "fst z" "snd z"] RemoveOp by auto
  qed
next
  case (SearchOp eq copied rm)
  show ?thesis
  proof (cases "xs = []")
    case True
    then show ?thesis
      using assms rep_tail [OF assms(1)] SearchOp by (auto simp: linked_list_search_def)
  next
    case False
    obtain f rest freed s2 where "search_result eq copied rm xs s = (f, rest, freed, s2)"
      by (metis prod_cases4)
    then show ?thesis
      using assms search_rep [OF assms(1) False, of eq copied rm s] SearchOp False by auto
  qed
next
  case FlushOp
  then show ?thesis
    using assms flush_rep [OF assms(1)] by auto
qed

lemma ll_run_refines:
  assumes "rep l xs" "malloc_ok ops (Some l, s)" "spec_run ops (xs, deallocated l, s) = (rs, ys, out, s1)"
  shows "\<exists>l'. ll_run ops (Some l, s) = Some (rs, Some l', s1) \<and> rep l' ys \<and> deallocated l' = out"
  using assms
proof (induction ops arbitrary: l xs s rs)
  case (Cons x ops)
  obtain r zs out1 s2 where sp: "spec_do x (xs, deallocated l, s) = (r, zs, out1, s2)"
    by (metis prod_cases4)
  obtain rs' where rs: "rs = r # rs'" "spec_run ops (zs, out1, s2) = (rs', ys, out, s1)"
    using Cons.prems(3) by (cases "spec_run ops (zs, out1, s2)") (auto simp: sp)
  have "case x of AddOp (Some a) _ _ \<Rightarrow> cells l a = None | _ \<Rightarrow> True"
    using Cons.prems(2) by (auto split: list_op.splits option.splits)
  then obtain l1 where l1: "ll_do x (Some l, s) = Some (r, Some l1, s2)" "rep l1 zs" "deallocated l1 = out1"
    using ll_do_refines [OF Cons.prems(1) _ sp] by blast
  then have "malloc_ok ops (Some l1, s2)"
    using Cons.prems(2) by simp
  then show ?case
    using Cons.IH [OF l1(2), of s2 rs'] l1 rs by auto
qed auto

end
