(* ===== verification/Loc_Subscribers.thy ===== *)
theory Loc_Subscribers
  imports Loc_List Loc_Agps_Props
begin

text \<open>
  The subscribers of a data-connection machine (\<open>src/gps/loc_api/libloc_api_50001/loc_eng_agps.cpp\<close>) are kept
  in a linked list (\<open>src/gps/utils/linked_list.c\<close>). \<open>Loc_Agps\<close> has them in a list of its own; here its
  operations are those of the linked list, with the comparisons of the machine.
\<close>

text \<open>The comparison \<open>notifySubscriber\<close>, with its effects on the machine.\<close>

definition notifying :: "notification \<Rightarrow> subscriber \<Rightarrow> agps \<Rightarrow> bool \<times> agps" where
  "notifying n s m = notifySubscriber n s
     (case rcver n of Some r \<Rightarrow> m\<lparr>read_freed := read_freed m \<or> s_at r \<in> set (freed m)\<rparr> | None \<Rightarrow> m)"

text \<open>The comparison \<open>hasSubscriber\<close>, which has none.\<close>

definition matching :: "notification \<Rightarrow> subscriber \<Rightarrow> unit \<Rightarrow> bool \<times> unit" where
  "matching n s u = (forMe n s, u)"

text \<open>Every subscriber is entered with the function that deletes it.\<close>

definition subscribers_in :: "subscriber list_state \<Rightarrow> subscriber list \<Rightarrow> bool" where
  "subscribers_in l ss \<longleftrightarrow> rep l (map (\<lambda>s. (s, True)) ss)"

lemma notify_search_first:
  "notify_search n ss m =
     (let (f, rest, m1) = first_match (notifying n) (map (\<lambda>s. (s, True)) ss) m in ((map_option fst f, map fst rest), m1))"
proof (induction ss arbitrary: m)
  case (Cons s ss)
  show ?case
    by (simp add: notifying_def Let_def Cons split_beta comp_def)
qed simp

lemma first_match_rest: "set (fst (snd (first_match eq xs s))) \<subseteq> set xs"
  by (induction xs arbitrary: s) (auto simp: split_beta Let_def)

lemma find_first: "map_option fst (fst (first_match (matching n) (map (\<lambda>s. (s, True)) ss) u)) = List.find (forMe n) ss"
  by (induction ss) (auto simp: matching_def split_beta)

lemma all_deletable: "\<forall>x \<in> set xs. snd x \<Longrightarrow> map (\<lambda>s. (s, True)) (map fst xs) = xs"
  by (induction xs) auto

text \<open>
  C28: On the linked list that holds the subscribers of a machine, the calls of the machine do what the
  model of the machine does: a search that notifies visits the same subscribers in the same order with the
  same effects, takes out the same one and deletes none; the search for a match finds the same subscriber
  and leaves the list alone; and a flush deletes every subscriber, the newest first.
\<close>

theorem subscriber_list_implements:
  assumes "subscribers_in l ss" "ss \<noteq> []" "notify_search n ss m = ((f, rest), m1)"
  shows "(\<exists>l1. linked_list_search (Some (notifying n)) True True (Some l) m = Some (eLINKED_LIST_SUCCESS, f, Some l1, m1) \<and>
      subscribers_in l1 rest \<and> deallocated l1 = deallocated l) \<and>
    (\<exists>l1. linked_list_search (Some (matching n)) True False (Some l) () =
      Some (eLINKED_LIST_SUCCESS, List.find (forMe n) ss, Some l1, ()) \<and> subscribers_in l1 ss \<and> deallocated l1 = deallocated l) \<and>
    (\<exists>l1. linked_list_flush (Some l) = Some (eLINKED_LIST_SUCCESS, Some l1) \<and> subscribers_in l1 [] \<and>
      deallocated l1 = deallocated l @ ss)"
proof -
  let ?xs = "map (\<lambda>s. (s, True)) ss"
  have l: "rep l ?xs" "?xs \<noteq> []"
    using assms(1,2) by (auto simp: subscribers_in_def)
  obtain g rst m2 where g: "first_match (notifying n) ?xs m = (g, rst, m2)"
    by (metis prod_cases3)
  then have eq: "f = map_option fst g" "rest = map fst rst" "m1 = m2"
    using assms(3) by (simp_all add: notify_search_first)
  have "\<forall>x \<in> set rst. snd x"
    using first_match_rest [of "notifying n" ?xs m] g by auto
  then have rst: "map (\<lambda>s. (s, True)) rest = rst"
    unfolding eq by (rule all_deletable)
  have "search_result (notifying n) True True ?xs m = (f, rst, [], m1)"
    by (simp add: search_result_def g eq split: option.split bool.split)
  note notify = search_rep [OF l this]
  have "search_result (matching n) True False ?xs () = (List.find (forMe n) ss, ?xs, [], ())"
    using find_first [of n ss "()"] by (simp add: search_result_def split_beta split: option.split bool.split)
  note find = search_rep [OF l this]
  have "map fst (filter snd ?xs) = ss"
    by (simp add: filter_map comp_def)
  with notify find flush_rep [OF l(1)] rst show ?thesis
    by (simp add: subscribers_in_def)
qed

definition one_subscriber :: "subscriber list_state" where
  "one_subscriber = \<lparr>cells = [4 \<mapsto> \<lparr>e_next = None, e_prev = None, data_ptr = atl 1, dealloc_func = True\<rparr>],
     p_head = Some 4, p_tail = Some 4, deallocated = []\<rparr>"

theorem subscriber_list_implements_witness:
  "(\<exists>l1 m1. linked_list_search (Some (notifying (to_group BROADCAST_ALL RSRC_GRANTED True))) True True (Some one_subscriber) two_clients =
      Some (eLINKED_LIST_SUCCESS, Some (atl 1), Some l1, m1) \<and> subscribers_in l1 [] \<and> deallocated l1 = []) \<and>
   (\<exists>l1. linked_list_flush (Some one_subscriber) = Some (eLINKED_LIST_SUCCESS, Some l1) \<and> subscribers_in l1 [] \<and>
      deallocated l1 = [atl 1])"
proof -
  have "rep_at [4] one_subscriber [(atl 1, True)]"
    by (auto simp: rep_at_def one_subscriber_def)
  then have one: "subscribers_in one_subscriber [atl 1]"
    by (auto simp: subscribers_in_def rep_def)
  obtain m1 where "notify_search (to_group BROADCAST_ALL RSRC_GRANTED True) [atl 1] two_clients = ((Some (atl 1), []), m1)"
    by (simp add: to_group_def notifySubscriber_def notifyRsrcStatus_def forMe_def notify_ATL_def atl_def)
  from subscriber_list_implements [OF one _ this] have "deallocated one_subscriber = [] \<Longrightarrow> ?thesis"
    by fastforce
  then show ?thesis
    by (simp add: one_subscriber_def)
qed

end
