(* ===== verification/Loc_MsgQ.thy ===== *)
theory Loc_MsgQ
  imports Loc_List "HOL-Library.Multiset"
begin

text \<open>
  The message queue of the location utilities (\<open>src/gps/utils/msg_q.c\<close>), which is a linked list with a
  mutex and a condition, and the task that serves it (\<open>src/gps/utils/MsgTask.cpp\<close>). What a thread does
  while it holds the mutex is one step; a wait gives the mutex up, and may end without a signal.
\<close>

section \<open>The queue\<close>

datatype msq_q_err_type = eMSG_Q_SUCCESS | eMSG_Q_FAILURE_GENERAL | eMSG_Q_INVALID_PARAMETER
  | eMSG_Q_INVALID_HANDLE | eMSG_Q_UNAVAILABLE_RESOURCE | eMSG_Q_INSUFFICIENT_BUFFER

fun convert_linked_list_err_type :: "ll_err \<Rightarrow> msq_q_err_type" where
  "convert_linked_list_err_type eLINKED_LIST_SUCCESS = eMSG_Q_SUCCESS"
| "convert_linked_list_err_type eLINKED_LIST_INVALID_PARAMETER = eMSG_Q_INVALID_PARAMETER"
| "convert_linked_list_err_type eLINKED_LIST_INVALID_HANDLE = eMSG_Q_INVALID_HANDLE"
| "convert_linked_list_err_type eLINKED_LIST_UNAVAILABLE_RESOURCE = eMSG_Q_UNAVAILABLE_RESOURCE"
| "convert_linked_list_err_type eLINKED_LIST_INSUFFICIENT_BUFFER = eMSG_Q_INSUFFICIENT_BUFFER"
| "convert_linked_list_err_type eLINKED_LIST_FAILURE_GENERAL = eMSG_Q_FAILURE_GENERAL"

record 'd msg_q =
  msg_list :: "'d list_state option"
  unblocked :: bool

text \<open>The arguments say which of the allocations and initialisations succeed.\<close>

definition msg_q_init :: "bool \<Rightarrow> bool \<Rightarrow> bool \<Rightarrow> bool \<Rightarrow> bool \<Rightarrow> msq_q_err_type \<times> 'd msg_q option" where
  "msg_q_init place calloc list_calloc mutex cond =
     (if \<not> place then (eMSG_Q_INVALID_PARAMETER, None)
      else if \<not> calloc then (eMSG_Q_FAILURE_GENERAL, None)
      else let (rc, lst) = linked_list_init True list_calloc
           in if rc \<noteq> eLINKED_LIST_SUCCESS then (eMSG_Q_FAILURE_GENERAL, None)
              else if \<not> mutex then (eMSG_Q_FAILURE_GENERAL, None)
              else if \<not> cond then (eMSG_Q_FAILURE_GENERAL, None)
              else (eMSG_Q_SUCCESS, Some \<lparr>msg_list = lst, unblocked = False\<rparr>))"

definition msg_q_init2 :: "bool \<Rightarrow> bool \<Rightarrow> bool \<Rightarrow> bool \<Rightarrow> 'd msg_q option" where
  "msg_q_init2 calloc list_calloc mutex cond =
     (let (rc, q) = msg_q_init True calloc list_calloc mutex cond in if rc \<noteq> eMSG_Q_SUCCESS then None else q)"

text \<open>The place of the handle may be missing; a queue that is missing is used all the same.\<close>

definition msg_q_destroy :: "'d msg_q option option \<Rightarrow> (msq_q_err_type \<times> 'd list) option" where
  "msg_q_destroy place =
     (case place of
        None \<Rightarrow> Some (eMSG_Q_INVALID_HANDLE, [])
      | Some None \<Rightarrow> None
      | Some (Some q) \<Rightarrow> map_option (\<lambda>(_, ds). (eMSG_Q_SUCCESS, ds)) (linked_list_destroy (Some (msg_list q))))"

definition msg_q_snd ::
    "nat option \<Rightarrow> 'd option \<Rightarrow> bool \<Rightarrow> 'd msg_q option \<Rightarrow> (msq_q_err_type \<times> 'd msg_q option) option" where
  "msg_q_snd addr obj dealloc mq =
     (case mq of
        None \<Rightarrow> Some (eMSG_Q_INVALID_HANDLE, None)
      | Some q \<Rightarrow>
          (case obj of
             None \<Rightarrow> Some (eMSG_Q_INVALID_PARAMETER, mq)
           | Some d \<Rightarrow>
               if unblocked q then Some (eMSG_Q_UNAVAILABLE_RESOURCE, mq)
               else map_option (\<lambda>(rc, lst). (convert_linked_list_err_type rc, Some (q\<lparr>msg_list := lst\<rparr>)))
                      (linked_list_add addr (Some d) dealloc (msg_list q))))"

text \<open>
  A receiver that finds nothing waits; when it wakes up it looks again. A queue that was unblocked is
  left with what the list says.
\<close>

datatype 'd rcv = Returned msq_q_err_type "'d option" | Waits

definition rcv_loop :: "'d msg_q \<Rightarrow> ('d rcv \<times> 'd msg_q) option" where
  "rcv_loop q =
     (if linked_list_empty (msg_list q) \<and> \<not> unblocked q then Some (Waits, q)
      else map_option (\<lambda>(rc, d, lst). (Returned (convert_linked_list_err_type rc) d, q\<lparr>msg_list := lst\<rparr>))
             (linked_list_remove True (msg_list q)))"

definition msg_q_rcv :: "bool \<Rightarrow> 'd msg_q option \<Rightarrow> ('d rcv \<times> 'd msg_q option) option" where
  "msg_q_rcv place mq =
     (case mq of
        None \<Rightarrow> Some (Returned eMSG_Q_INVALID_HANDLE None, None)
      | Some q \<Rightarrow>
          if \<not> place then Some (Returned eMSG_Q_INVALID_PARAMETER None, mq)
          else if unblocked q then Some (Returned eMSG_Q_UNAVAILABLE_RESOURCE None, mq)
          else map_option (\<lambda>(r, q1). (r, Some q1)) (rcv_loop q))"

definition msg_q_flush :: "'d msg_q option \<Rightarrow> (msq_q_err_type \<times> 'd msg_q option) option" where
  "msg_q_flush mq =
     (case mq of
        None \<Rightarrow> Some (eMSG_Q_INVALID_HANDLE, None)
      | Some q \<Rightarrow> map_option (\<lambda>(rc, lst). (convert_linked_list_err_type rc, Some (q\<lparr>msg_list := lst\<rparr>)))
                   (linked_list_flush (msg_list q)))"

definition msg_q_unblock :: "'d msg_q option \<Rightarrow> msq_q_err_type \<times> 'd msg_q option" where
  "msg_q_unblock mq =
     (case mq of
        None \<Rightarrow> (eMSG_Q_INVALID_HANDLE, None)
      | Some q \<Rightarrow>
          if unblocked q then (eMSG_Q_UNAVAILABLE_RESOURCE, mq)
          else (eMSG_Q_SUCCESS, Some (q\<lparr>unblocked := True\<rparr>)))"

section \<open>The task\<close>

text \<open>
  A turn of the thread: it handles a message and goes on, or it ends, or it waits. \<open>handled\<close> is what was
  handled and deleted.
\<close>

datatype turn = GoesOn | Ends | WaitsFor

definition MsgTask_run :: "('d \<Rightarrow> 's \<Rightarrow> 's) \<Rightarrow> 'd msg_q option \<Rightarrow> 's \<Rightarrow> (turn \<times> 'd msg_q option \<times> 's) option" where
  "MsgTask_run process mq s =
     map_option (\<lambda>(r, mq1).
         (case r of
            Waits \<Rightarrow> (WaitsFor, mq1, s)
          | Returned rc d \<Rightarrow>
              (case d of
                 Some x \<Rightarrow> if rc = eMSG_Q_SUCCESS then (GoesOn, mq1, process x s) else (Ends, mq1, s)
               | None \<Rightarrow> (Ends, mq1, s))))
       (msg_q_rcv True mq)"

text \<open>The result of the queue is not looked at.\<close>

definition MsgTask_sendMsg :: "nat option \<Rightarrow> 'd \<Rightarrow> 'd msg_q option \<Rightarrow> 'd msg_q option option" where
  "MsgTask_sendMsg addr msg mq = map_option snd (msg_q_snd addr (Some msg) True mq)"

text \<open>The destructor; its result is what it deleted.\<close>

definition MsgTask_delete :: "'d msg_q option \<Rightarrow> 'd list option" where
  "MsgTask_delete mq =
     (case msg_q_flush mq of
        None \<Rightarrow> None
      | Some (_, mq1) \<Rightarrow> map_option snd (msg_q_destroy (Some mq1)))"

section \<open>Threads around a queue\<close>

text \<open>
  A thread that waits is asleep until it is signalled, or wakes up by itself. The logs: the messages that
  were accepted and that were refused, and what the receivers returned.
\<close>

record 'd mq_sys =
  mq :: "'d msg_q"
  asleep :: "nat list"
  awake :: "nat list"
  accepted :: "'d list"
  refused :: "'d list"
  returned :: "(nat \<times> msq_q_err_type \<times> 'd option) list"

text \<open>
  A message of \<open>MsgTask_sendMsg\<close>, with the address of \<open>malloc\<close> and the sleeper that a signal wakes up; a receiver;
  one that is waiting and looks again; the flush; the end of the task.
\<close>

datatype 'd mq_step = SendStep "nat option" 'd nat | ListenStep nat | WakeStep nat | FlushStep | UnblockStep

definition signal_one :: "nat \<Rightarrow> 'd mq_sys \<Rightarrow> 'd mq_sys" where
  "signal_one i s =
     (if asleep s = [] then s
      else let t = asleep s ! (i mod length (asleep s))
           in s\<lparr>asleep := remove1 t (asleep s), awake := t # awake s\<rparr>)"

definition rcv_reply :: "nat \<Rightarrow> 'd rcv \<Rightarrow> 'd mq_sys \<Rightarrow> 'd mq_sys" where
  "rcv_reply t r s =
     (case r of Waits \<Rightarrow> s\<lparr>asleep := t # asleep s\<rparr> | Returned rc d \<Rightarrow> s\<lparr>returned := returned s @ [(t, rc, d)]\<rparr>)"

fun mq_do :: "'d mq_step \<Rightarrow> 'd mq_sys \<Rightarrow> 'd mq_sys option" where
  "mq_do (SendStep a d i) s =
     (case msg_q_snd a (Some d) True (Some (mq s)) of
        Some (rc, Some q) \<Rightarrow>
          (let s1 = s\<lparr>mq := q\<rparr>;
               s2 = (if rc = eMSG_Q_SUCCESS then s1\<lparr>accepted := accepted s1 @ [d]\<rparr>
                     else s1\<lparr>refused := refused s1 @ [d]\<rparr>)
           in Some (if unblocked (mq s) then s2 else signal_one i s2))
      | _ \<Rightarrow> None)"
| "mq_do (ListenStep t) s =
     (if t \<in> set (asleep s) \<union> set (awake s) then Some s
      else case msg_q_rcv True (Some (mq s)) of
             Some (r, Some q) \<Rightarrow> Some (rcv_reply t r (s\<lparr>mq := q\<rparr>))
           | _ \<Rightarrow> None)"
| "mq_do (WakeStep t) s =
     (if t \<notin> set (asleep s) \<union> set (awake s) then Some s
      else case rcv_loop (mq s) of
             Some (r, q) \<Rightarrow> Some (rcv_reply t r (s\<lparr>mq := q, asleep := remove1 t (asleep s), awake := remove1 t (awake s)\<rparr>))
           | None \<Rightarrow> None)"
| "mq_do FlushStep s =
     (case msg_q_flush (Some (mq s)) of Some (rc, Some q) \<Rightarrow> Some (s\<lparr>mq := q\<rparr>) | _ \<Rightarrow> None)"
| "mq_do UnblockStep s =
     (case msg_q_unblock (Some (mq s)) of
        (rc, Some q) \<Rightarrow>
          Some (if rc = eMSG_Q_SUCCESS then s\<lparr>mq := q, awake := asleep s @ awake s, asleep := []\<rparr> else s\<lparr>mq := q\<rparr>)
      | _ \<Rightarrow> None)"

fun mq_run :: "'d mq_step list \<Rightarrow> 'd mq_sys \<Rightarrow> 'd mq_sys option" where
  "mq_run [] s = Some s"
| "mq_run (x # xs) s = (case mq_do x s of None \<Rightarrow> None | Some s1 \<Rightarrow> mq_run xs s1)"

fun mq_malloc_ok :: "'d mq_step list \<Rightarrow> 'd mq_sys \<Rightarrow> bool" where
  "mq_malloc_ok [] s \<longleftrightarrow> True"
| "mq_malloc_ok (x # xs) s \<longleftrightarrow>
     (case (x, msg_list (mq s)) of (SendStep (Some a) _ _, Some l) \<Rightarrow> cells l a = None | _ \<Rightarrow> True) \<and>
     (case mq_do x s of None \<Rightarrow> True | Some s1 \<Rightarrow> mq_malloc_ok xs s1)"

definition mq_start :: "'d mq_sys" where
  "mq_start = \<lparr>mq = \<lparr>msg_list = Some empty_list, unblocked = False\<rparr>, asleep = [], awake = [],
     accepted = [], refused = [], returned = []\<rparr>"

text \<open>What the receivers got, in order.\<close>

definition taken :: "'d mq_sys \<Rightarrow> 'd list" where
  "taken s = concat (map (\<lambda>(t, rc, d). case d of Some x \<Rightarrow> [x] | None \<Rightarrow> []) (returned s))"

section \<open>The contract of the queue\<close>

text \<open>The messages in the queue, the oldest first; every message has a function that releases it.\<close>

definition mq_queued :: "'d msg_q \<Rightarrow> 'd list \<Rightarrow> bool" where
  "mq_queued q ms \<longleftrightarrow> (\<exists>l. msg_list q = Some l \<and> rep l (rev (map (\<lambda>d. (d, True)) ms)))"

definition released :: "'d msg_q \<Rightarrow> 'd list" where
  "released q = (case msg_list q of None \<Rightarrow> [] | Some l \<Rightarrow> deallocated l)"

definition unused :: "nat \<Rightarrow> 'd msg_q \<Rightarrow> bool" where
  "unused a q \<longleftrightarrow> (case msg_list q of None \<Rightarrow> True | Some l \<Rightarrow> cells l a = None)"

lemma init_queued: "mq_queued \<lparr>msg_list = Some empty_list, unblocked = b\<rparr> []"
  by (simp add: mq_queued_def empty_list_rep)

lemma snd_queued:
  assumes "mq_queued q ms" "\<not> unblocked q" "unused a q"
  shows "\<exists>q'. msg_q_snd (Some a) (Some d) True (Some q) = Some (eMSG_Q_SUCCESS, Some q') \<and> mq_queued q' (ms @ [d]) \<and>
    unblocked q' = unblocked q \<and> released q' = released q"
proof -
  obtain l where l: "msg_list q = Some l" "rep l (rev (map (\<lambda>d. (d, True)) ms))"
    using assms(1) by (auto simp: mq_queued_def)
  moreover have "cells l a = None"
    using assms(3) l(1) by (simp add: unused_def)
  ultimately show ?thesis
    using add_rep [of l _ a d True] assms(2) by (force simp: msg_q_snd_def mq_queued_def released_def)
qed

lemma snd_no_memory:
  assumes "mq_queued q ms" "\<not> unblocked q"
  shows "msg_q_snd None (Some d) True (Some q) = Some (eMSG_Q_FAILURE_GENERAL, Some q)"
  using assms by (auto simp: mq_queued_def msg_q_snd_def linked_list_add_def)

lemma empty_queued: "mq_queued q ms \<Longrightarrow> linked_list_empty (msg_list q) = (ms = [])"
  by (auto simp: mq_queued_def dest: empty_rep)

lemma loop_queued:
  assumes "mq_queued q (m # ms)"
  shows "\<exists>q'. rcv_loop q = Some (Returned eMSG_Q_SUCCESS (Some m), q') \<and> mq_queued q' ms \<and>
    unblocked q' = unblocked q \<and> released q' = released q"
proof -
  obtain l where l: "msg_list q = Some l" "rep l (rev (map (\<lambda>d. (d, True)) ms) @ [(m, True)])"
    using assms by (auto simp: mq_queued_def)
  then show ?thesis
    using remove_rep [OF l(2)] empty_queued [OF assms] by (auto simp: rcv_loop_def mq_queued_def released_def)
qed

lemma loop_empty:
  assumes "mq_queued q []"
  shows "rcv_loop q = Some (if unblocked q then (Returned eMSG_Q_UNAVAILABLE_RESOURCE None, q) else (Waits, q))"
proof -
  obtain l where l: "msg_list q = Some l" "rep l []"
    using assms by (auto simp: mq_queued_def)
  have "q\<lparr>msg_list := Some l\<rparr> = q"
    using l(1) by (cases q) simp
  then show ?thesis
    using empty_queued [OF assms] remove_empty [OF l(2)] l(1) by (auto simp: rcv_loop_def)
qed

lemma flush_queued:
  assumes "mq_queued q ms"
  shows "\<exists>q'. msg_q_flush (Some q) = Some (eMSG_Q_SUCCESS, Some q') \<and> mq_queued q' [] \<and>
    unblocked q' = unblocked q \<and> released q' = released q @ rev ms"
proof -
  obtain l where l: "msg_list q = Some l" "rep l (rev (map (\<lambda>d. (d, True)) ms))"
    using assms by (auto simp: mq_queued_def)
  have "map fst (filter snd (rev (map (\<lambda>d. (d, True)) ms))) = rev ms"
    by (simp add: rev_map filter_map comp_def)
  then show ?thesis
    using flush_rep [OF l(2)] l(1) by (auto simp: msg_q_flush_def mq_queued_def released_def)
qed


text \<open>
  The interface that the tasks use: what is sent comes out in order. A task that serves it handles the
  messages one after another.
\<close>

locale message_source =
  fixes content :: "'q \<Rightarrow> 'm list \<Rightarrow> bool"
    and free_at :: "nat \<Rightarrow> 'q \<Rightarrow> bool"
    and send :: "nat \<Rightarrow> 'm \<Rightarrow> 'q \<Rightarrow> 'q option"
    and receive :: "'q \<Rightarrow> ('m \<times> 'q) option"
  assumes send_law: "content q ms \<Longrightarrow> free_at a q \<Longrightarrow> \<exists>q'. send a m q = Some q' \<and> content q' (ms @ [m])"
    and receive_law: "content q (m # ms) \<Longrightarrow> \<exists>q'. receive q = Some (m, q') \<and> content q' ms"
begin

fun serve :: "nat \<Rightarrow> ('m \<Rightarrow> 's \<Rightarrow> 's) \<Rightarrow> 'q \<Rightarrow> 's \<Rightarrow> ('q \<times> 's) option" where
  "serve 0 process q s = Some (q, s)"
| "serve (Suc n) process q s =
     (case receive q of None \<Rightarrow> None | Some (m, q1) \<Rightarrow> serve n process q1 (process m s))"

lemma serve_folds: "content q (ms @ ns) \<Longrightarrow> \<exists>q'. serve (length ms) process q s = Some (q', fold process ms s) \<and> content q' ns"
proof (induction ms arbitrary: q s)
  case (Cons m ms)
  then obtain q1 where "receive q = Some (m, q1)" "content q1 (ms @ ns)"
    using receive_law [of q m "ms @ ns"] by auto
  then show ?case
    using Cons.IH by simp
qed simp

end

definition live_queue :: "'d msg_q \<Rightarrow> 'd list \<Rightarrow> bool" where
  "live_queue q ms \<longleftrightarrow> mq_queued q ms \<and> \<not> unblocked q"

definition send_to :: "nat \<Rightarrow> 'd \<Rightarrow> 'd msg_q \<Rightarrow> 'd msg_q option" where
  "send_to a d q = (case MsgTask_sendMsg (Some a) d (Some q) of Some (Some q1) \<Rightarrow> Some q1 | _ \<Rightarrow> None)"

definition receive_from :: "'d msg_q \<Rightarrow> ('d \<times> 'd msg_q) option" where
  "receive_from q =
     (case msg_q_rcv True (Some q) of Some (Returned rc (Some d), Some q1) \<Rightarrow> Some (d, q1) | _ \<Rightarrow> None)"

interpretation source: message_source live_queue unused send_to receive_from
proof
  show "\<exists>q'. send_to a m q = Some q' \<and> live_queue q' (ms @ [m])" if "live_queue q ms" "unused a q"
    for q :: "'d msg_q" and ms a m
    using snd_queued [of q ms a m] that by (auto simp: live_queue_def send_to_def MsgTask_sendMsg_def)
  show "\<exists>q'. receive_from q = Some (m, q') \<and> live_queue q' ms" if "live_queue q (m # ms)"
    for q :: "'d msg_q" and m ms
    using loop_queued [of q m ms] that by (auto simp: live_queue_def receive_from_def msg_q_rcv_def)
qed

section \<open>The invariant of the threads\<close>

definition replies_ok :: "bool \<Rightarrow> (nat \<times> msq_q_err_type \<times> 'd option) list \<Rightarrow> bool" where
  "replies_ok u rs \<longleftrightarrow> (\<forall>(t, rc, d) \<in> set rs. if d = None then rc = eMSG_Q_UNAVAILABLE_RESOURCE \<and> u else rc = eMSG_Q_SUCCESS)"

text \<open>With \<open>ms\<close> in the queue, and \<open>n\<close> threads that will look for a message.\<close>

definition mq_ok :: "nat \<Rightarrow> 'd mq_sys \<Rightarrow> 'd list \<Rightarrow> bool" where
  "mq_ok n s ms \<longleftrightarrow> mq_queued (mq s) ms \<and>
     mset (accepted s) = mset (taken s) + mset ms + mset (released (mq s)) \<and>
     (released (mq s) = [] \<longrightarrow> accepted s = taken s @ ms) \<and>
     (asleep s \<noteq> [] \<longrightarrow> length ms \<le> n \<and> \<not> unblocked (mq s)) \<and>
     replies_ok (unblocked (mq s)) (returned s)"

definition mq_inv :: "'d mq_sys \<Rightarrow> bool" where
  "mq_inv s \<longleftrightarrow> (\<exists>ms. mq_ok (length (awake s)) s ms)"

lemma replies_snoc [simp]:
  "replies_ok u [] \<longleftrightarrow> True"
  "replies_ok u (rs @ [(t, rc, d)]) \<longleftrightarrow>
     replies_ok u rs \<and> (if d = None then rc = eMSG_Q_UNAVAILABLE_RESOURCE \<and> u else rc = eMSG_Q_SUCCESS)"
  by (auto simp: replies_ok_def)

lemma replies_mono: "replies_ok u rs \<Longrightarrow> replies_ok True rs"
  by (auto simp: replies_ok_def split: if_splits)

lemma taken_simps [simp]:
  "taken (s\<lparr>mq := q\<rparr>) = taken s" "taken (s\<lparr>asleep := xs\<rparr>) = taken s" "taken (s\<lparr>awake := xs\<rparr>) = taken s"
  "taken (s\<lparr>accepted := ds\<rparr>) = taken s" "taken (s\<lparr>refused := ds\<rparr>) = taken s"
  "taken (s\<lparr>returned := returned s @ [(t, rc, Some d)]\<rparr>) = taken s @ [d]"
  "taken (s\<lparr>returned := returned s @ [(t, rc, None)]\<rparr>) = taken s"
  by (simp_all add: taken_def)

lemma signal_frame:
  "mq (signal_one i s) = mq s" "accepted (signal_one i s) = accepted s" "refused (signal_one i s) = refused s"
  "returned (signal_one i s) = returned s" "taken (signal_one i s) = taken s"
  by (simp_all add: signal_one_def Let_def taken_def)

lemma signal_wakes: "asleep s \<noteq> [] \<Longrightarrow> length (awake (signal_one i s)) = Suc (length (awake s))"
  by (simp add: signal_one_def Let_def)

lemma signal_asleep: "asleep (signal_one i s) \<noteq> [] \<Longrightarrow> asleep s \<noteq> []"
  by (auto simp: signal_one_def Let_def split: if_splits)

lemma start_inv: "mq_inv mq_start"
  using init_queued [of False]
  by (auto simp: mq_inv_def mq_ok_def mq_start_def taken_def released_def empty_list_def intro!: exI [of _ "[]"])

lemma send_inv:
  assumes "mq_inv s" "case a of Some x \<Rightarrow> unused x (mq s) | None \<Rightarrow> True"
  shows "\<exists>s'. mq_do (SendStep a d i) s = Some s' \<and> mq_inv s'"
proof -
  obtain ms where ms: "mq_ok (length (awake s)) s ms"
    using assms(1) by (auto simp: mq_inv_def)
  then have q0: "mq_queued (mq s) ms"
    by (simp add: mq_ok_def)
  consider "unblocked (mq s)" | "\<not> unblocked (mq s)" "a = None" | x where "\<not> unblocked (mq s)" "a = Some x"
    by (cases a) auto
  then show ?thesis
  proof cases
    case 1
    then have "mq_do (SendStep a d i) s = Some (s\<lparr>refused := refused s @ [d]\<rparr>)"
      by (simp add: msg_q_snd_def)
    moreover have "mq_inv (s\<lparr>refused := refused s @ [d]\<rparr>)"
      using ms by (auto simp: mq_inv_def mq_ok_def)
    ultimately show ?thesis
      by blast
  next
    case 2
    let ?t = "s\<lparr>refused := refused s @ [d]\<rparr>"
    have "mq_do (SendStep a d i) s = Some (signal_one i ?t)"
      using 2 snd_no_memory [OF q0 2(1)] by simp
    moreover have "asleep (signal_one i ?t) \<noteq> [] \<Longrightarrow> length ms \<le> length (awake (signal_one i ?t))"
      using signal_asleep [of i ?t] signal_wakes [of ?t i] ms by (auto simp: mq_ok_def)
    then have "mq_ok (length (awake (signal_one i ?t))) (signal_one i ?t) ms"
      using 2 ms by (simp add: mq_ok_def signal_frame)
    ultimately show ?thesis
      unfolding mq_inv_def by blast
  next
    case 3
    obtain q where q: "msg_q_snd a (Some d) True (Some (mq s)) = Some (eMSG_Q_SUCCESS, Some q)" "mq_queued q (ms @ [d])"
      "unblocked q = unblocked (mq s)" "released q = released (mq s)"
      using snd_queued [OF q0 3(1), of x d] assms(2) 3(2) by auto
    let ?t = "s\<lparr>mq := q, accepted := accepted s @ [d]\<rparr>"
    have "mq_do (SendStep a d i) s = Some (signal_one i ?t)"
      using 3 q(1) by simp
    moreover have "asleep (signal_one i ?t) \<noteq> [] \<Longrightarrow> length (ms @ [d]) \<le> length (awake (signal_one i ?t))"
      using signal_asleep [of i ?t] signal_wakes [of ?t i] ms by (auto simp: mq_ok_def)
    then have "mq_ok (length (awake (signal_one i ?t))) (signal_one i ?t) (ms @ [d])"
      using 3 ms q by (simp add: mq_ok_def signal_frame)
    ultimately show ?thesis
      unfolding mq_inv_def by blast
  qed
qed

text \<open>A receiver that looks at the queue, whether it has just come or has waited.\<close>

lemma rcv_reply_frame [simp]:
  "mq (rcv_reply t r s) = mq s" "accepted (rcv_reply t r s) = accepted s" "awake (rcv_reply t r s) = awake s"
  "returned (rcv_reply t r s) = (case r of Waits \<Rightarrow> returned s | Returned rc d \<Rightarrow> returned s @ [(t, rc, d)])"
  "asleep (rcv_reply t r s) = (case r of Waits \<Rightarrow> t # asleep s | Returned rc d \<Rightarrow> asleep s)"
  "taken (rcv_reply t r s) = taken s @ (case r of Returned rc (Some d) \<Rightarrow> [d] | _ \<Rightarrow> [])"
  by (simp_all add: rcv_reply_def taken_def split: rcv.split option.split)

lemma rcv_reply_inv:
  assumes "mq_ok (Suc (length (awake s))) s ms"
  shows "\<exists>r q. rcv_loop (mq s) = Some (r, q) \<and> mq_inv (rcv_reply t r (s\<lparr>mq := q\<rparr>))"
proof (cases ms)
  case Nil
  then have "mq_queued (mq s) []"
    using assms by (simp add: mq_ok_def)
  note loop = loop_empty [OF this]
  have "mq_ok (length (awake s)) (rcv_reply t (if unblocked (mq s) then Returned eMSG_Q_UNAVAILABLE_RESOURCE None else Waits) s) []"
    using assms by (cases "unblocked (mq s)") (simp_all add: mq_ok_def Nil)
  then show ?thesis
    unfolding loop mq_inv_def by (cases "unblocked (mq s)") auto
next
  case (Cons m ns)
  have "mq_queued (mq s) (m # ns)"
    using assms by (simp add: mq_ok_def Cons)
  from loop_queued [OF this] obtain q where q: "rcv_loop (mq s) = Some (Returned eMSG_Q_SUCCESS (Some m), q)" "mq_queued q ns"
    "unblocked q = unblocked (mq s)" "released q = released (mq s)"
    by auto
  then have "mq_ok (length (awake s)) (rcv_reply t (Returned eMSG_Q_SUCCESS (Some m)) (s\<lparr>mq := q\<rparr>)) ns"
    using assms by (simp add: mq_ok_def Cons)
  with q(1) show ?thesis
    by (auto simp: mq_inv_def)
qed

lemma mq_ok_mono: "mq_ok n s ms \<Longrightarrow> n \<le> k \<Longrightarrow> mq_ok k s ms"
  by (auto simp: mq_ok_def)

lemma listen_inv:
  assumes "mq_inv s"
  shows "\<exists>s'. mq_do (ListenStep t) s = Some s' \<and> mq_inv s'"
proof -
  obtain ms where ms: "mq_ok (length (awake s)) s ms"
    using assms by (auto simp: mq_inv_def)
  consider "t \<in> set (asleep s) \<union> set (awake s)" | "unblocked (mq s)" "t \<notin> set (asleep s) \<union> set (awake s)"
    | "\<not> unblocked (mq s)" "t \<notin> set (asleep s) \<union> set (awake s)"
    by blast
  then show ?thesis
  proof cases
    case 2
    let ?s = "s\<lparr>returned := returned s @ [(t, eMSG_Q_UNAVAILABLE_RESOURCE, None)]\<rparr>"
    have "mq_do (ListenStep t) s = Some ?s"
      using 2 by (simp add: msg_q_rcv_def rcv_reply_def)
    moreover have "mq_ok (length (awake s)) ?s ms"
      using 2 ms by (simp add: mq_ok_def)
    ultimately show ?thesis
      by (auto simp: mq_inv_def)
  next
    case 3
    have "mq_ok (Suc (length (awake s))) s ms"
      using ms by (rule mq_ok_mono) simp
    then obtain r q where r: "rcv_loop (mq s) = Some (r, q)" "mq_inv (rcv_reply t r (s\<lparr>mq := q\<rparr>))"
      using rcv_reply_inv by blast
    then have "mq_do (ListenStep t) s = Some (rcv_reply t r (s\<lparr>mq := q\<rparr>))"
      using 3 by (auto simp: msg_q_rcv_def)
    with r(2) show ?thesis
      by blast
  qed (use assms in simp)
qed

lemma wake_inv:
  assumes "mq_inv s"
  shows "\<exists>s'. mq_do (WakeStep t) s = Some s' \<and> mq_inv s'"
proof (cases "t \<in> set (asleep s) \<union> set (awake s)")
  case True
  let ?s = "s\<lparr>asleep := remove1 t (asleep s), awake := remove1 t (awake s)\<rparr>"
  obtain ms where "mq_ok (length (awake s)) s ms"
    using assms by (auto simp: mq_inv_def)
  moreover have "length (awake s) \<le> Suc (length (remove1 t (awake s)))"
    by (auto simp: length_remove1)
  ultimately have "mq_ok (Suc (length (awake ?s))) ?s ms"
    by (auto simp: mq_ok_def)
  then obtain r q where "rcv_loop (mq s) = Some (r, q)" "mq_inv (rcv_reply t r (?s\<lparr>mq := q\<rparr>))"
    using rcv_reply_inv [of ?s ms t] by auto
  moreover have "?s\<lparr>mq := q\<rparr> = s\<lparr>mq := q, asleep := remove1 t (asleep s), awake := remove1 t (awake s)\<rparr>" for q
    by simp
  ultimately show ?thesis
    using True by simp
qed (use assms in simp)

lemma flush_inv:
  assumes "mq_inv s"
  shows "\<exists>s'. mq_do FlushStep s = Some s' \<and> mq_inv s'"
proof -
  obtain ms where ms: "mq_ok (length (awake s)) s ms"
    using assms by (auto simp: mq_inv_def)
  then obtain q where q: "msg_q_flush (Some (mq s)) = Some (eMSG_Q_SUCCESS, Some q)" "mq_queued q []"
    "unblocked q = unblocked (mq s)" "released q = released (mq s) @ rev ms"
    using flush_queued by (auto simp: mq_ok_def)
  then have "mq_ok (length (awake s)) (s\<lparr>mq := q\<rparr>) []"
    using ms by (auto simp: mq_ok_def ac_simps)
  with q show ?thesis
    by (auto simp: mq_inv_def)
qed

lemma unblock_inv:
  assumes "mq_inv s"
  shows "\<exists>s'. mq_do UnblockStep s = Some s' \<and> mq_inv s'"
proof -
  have *: "mq_queued ((mq s)\<lparr>unblocked := b\<rparr>) ms = mq_queued (mq s) ms" "released ((mq s)\<lparr>unblocked := b\<rparr>) = released (mq s)" for b ms
    by (simp_all add: mq_queued_def released_def)
  show ?thesis
  proof (cases "unblocked (mq s)")
    case True
    then show ?thesis
      using assms by (simp add: msg_q_unblock_def)
  next
    case False
    then show ?thesis
      using assms by (auto simp: msg_q_unblock_def mq_inv_def mq_ok_def * intro: replies_mono)
  qed
qed

lemma run_inv:
  "mq_inv s \<Longrightarrow> mq_malloc_ok xs s \<Longrightarrow> \<exists>s'. mq_run xs s = Some s' \<and> mq_inv s'"
proof (induction xs arbitrary: s)
  case (Cons x xs)
  have "\<exists>s'. mq_do x s = Some s' \<and> mq_inv s'"
  proof (cases x)
    case (SendStep a d i)
    have "case a of Some x \<Rightarrow> unused x (mq s) | None \<Rightarrow> True"
      using Cons.prems(2) by (auto simp: SendStep unused_def split: option.splits)
    then show ?thesis
      unfolding SendStep by (rule send_inv [OF Cons.prems(1)])
  qed (use Cons.prems(1) listen_inv wake_inv flush_inv unblock_inv in blast)+
  then show ?case
    using Cons by auto
qed simp

end
