(* ===== verification/Loc_Thread.thy ===== *)
theory Loc_Thread
  imports Loc_MsgQ
begin

text \<open>
  The threads of the location utilities (\<open>src/gps/utils/LocThread.cpp\<close>): an object shared by the thread
  that starts another and the thread that is started, which the last of them deletes, and the runnable,
  which the started thread deletes. Each access to the shared object is a step of its own, and the steps
  of the two threads come in any order. An access to a deleted object has no result.
\<close>

section \<open>The shared object\<close>

text \<open>Where the two threads are: in \<open>create\<close>, \<open>stop\<close> and \<open>destroy\<close>; in \<open>threadMain\<close> and \<open>destroy\<close>.\<close>

datatype parent_at = InCreate | Holding | InStop | InJoinable | Joining | InDestroy | Counting | Deleting | Parted

datatype child_at = AtStart | AtPrerun | AtLoop | InRun | AtPostrun | AtClear | DeletingRunnable
  | ChildDestroy | ChildCounting | ChildDeleting | HasReturned | NoThread

record loc_thread =
  mRunnable :: bool
  mJoinable :: bool
  mRefCount :: int
  delegate_alive :: bool
  runnable_deleted :: nat
  parent :: parent_at
  child :: child_at
  start_result :: "bool option"

text \<open>The constructor, with a runnable; \<open>ok\<close> says whether the thread was created.\<close>

definition new_delegate :: "bool \<Rightarrow> bool \<Rightarrow> loc_thread" where
  "new_delegate joinable ok =
     \<lparr>mRunnable = ok, mJoinable = (ok \<and> joinable), mRefCount = (if ok then 2 else 1), delegate_alive = True,
      runnable_deleted = 0, parent = InCreate, child = (if ok then AtStart else NoThread), start_result = None\<rparr>"

section \<open>The steps\<close>

text \<open>
  The client asks for \<open>stop\<close>, or deletes the \<open>LocThread\<close>, when it holds a thread: \<open>by_stop\<close>. A join
  waits for the thread to return.
\<close>

fun parent_do :: "bool \<Rightarrow> loc_thread \<Rightarrow> loc_thread" where
  "parent_do by_stop t =
     (case parent t of
        InCreate \<Rightarrow> if mRunnable t then t\<lparr>parent := Holding, start_result := Some True\<rparr>
                    else t\<lparr>parent := InDestroy, start_result := Some False\<rparr>
      | Holding \<Rightarrow> t\<lparr>parent := if by_stop \<or> mJoinable t then InStop else InDestroy\<rparr>
      | InStop \<Rightarrow> t\<lparr>mRunnable := False, parent := InJoinable\<rparr>
      | InJoinable \<Rightarrow> if mJoinable t then t\<lparr>mJoinable := False, parent := Joining\<rparr> else t\<lparr>parent := InDestroy\<rparr>
      | Joining \<Rightarrow> if child t = HasReturned then t\<lparr>parent := InDestroy\<rparr> else t
      | InDestroy \<Rightarrow> t\<lparr>parent := if 0 < mRefCount t then Counting else Parted\<rparr>
      | Counting \<Rightarrow> t\<lparr>mRefCount := mRefCount t - 1, parent := if mRefCount t = 1 then Deleting else Parted\<rparr>
      | Deleting \<Rightarrow> t\<lparr>delegate_alive := False, parent := Parted\<rparr>
      | Parted \<Rightarrow> t)"

text \<open>\<open>again\<close> is what \<open>run\<close> returns.\<close>

fun child_do :: "bool \<Rightarrow> loc_thread \<Rightarrow> loc_thread" where
  "child_do again t =
     (case child t of
        AtStart \<Rightarrow> t\<lparr>child := if mRunnable t then AtPrerun else ChildDestroy\<rparr>
      | AtPrerun \<Rightarrow> t\<lparr>child := AtLoop\<rparr>
      | AtLoop \<Rightarrow> t\<lparr>child := if mRunnable t then InRun else AtPostrun\<rparr>
      | InRun \<Rightarrow> t\<lparr>child := if again then AtLoop else AtPostrun\<rparr>
      | AtPostrun \<Rightarrow> t\<lparr>child := AtClear\<rparr>
      | AtClear \<Rightarrow> t\<lparr>mRunnable := False, child := DeletingRunnable\<rparr>
      | DeletingRunnable \<Rightarrow> t\<lparr>runnable_deleted := runnable_deleted t + 1, child := ChildDestroy\<rparr>
      | ChildDestroy \<Rightarrow> t\<lparr>child := if 0 < mRefCount t then ChildCounting else HasReturned\<rparr>
      | ChildCounting \<Rightarrow> t\<lparr>mRefCount := mRefCount t - 1, child := if mRefCount t = 1 then ChildDeleting else HasReturned\<rparr>
      | ChildDeleting \<Rightarrow> t\<lparr>delegate_alive := False, child := HasReturned\<rparr>
      | HasReturned \<Rightarrow> t
      | NoThread \<Rightarrow> t)"

text \<open>What does not look at the shared object: \<open>run\<close>, \<open>delete runnable\<close>, and a thread that is done.\<close>

definition parent_touches :: "loc_thread \<Rightarrow> bool" where
  "parent_touches t \<longleftrightarrow> parent t \<noteq> Parted"

definition child_touches :: "loc_thread \<Rightarrow> bool" where
  "child_touches t \<longleftrightarrow> child t \<notin> {InRun, DeletingRunnable, HasReturned, NoThread}"

datatype lt_turn = Parent bool | Child bool

fun lt_do :: "lt_turn \<Rightarrow> loc_thread \<Rightarrow> loc_thread option" where
  "lt_do (Parent by_stop) t = (if parent_touches t \<and> \<not> delegate_alive t then None else Some (parent_do by_stop t))"
| "lt_do (Child again) t = (if child_touches t \<and> \<not> delegate_alive t then None else Some (child_do again t))"

fun lt_run :: "lt_turn list \<Rightarrow> loc_thread \<Rightarrow> loc_thread option" where
  "lt_run [] t = Some t"
| "lt_run (x # xs) t = (case lt_do x t of None \<Rightarrow> None | Some t1 \<Rightarrow> lt_run xs t1)"

section \<open>The invariant\<close>

definition parent_holds :: "loc_thread \<Rightarrow> bool" where
  "parent_holds t \<longleftrightarrow> parent t \<notin> {Deleting, Parted}"

definition child_holds :: "loc_thread \<Rightarrow> bool" where
  "child_holds t \<longleftrightarrow> child t \<notin> {ChildDeleting, HasReturned, NoThread}"

text \<open>
  The count is the number of threads that hold the object; who deletes it is the last; the runnable is
  deleted at most once, by the thread that has seen it.
\<close>

definition lt_ok :: "loc_thread \<Rightarrow> bool" where
  "lt_ok t \<longleftrightarrow>
     mRefCount t = of_bool (parent_holds t) + of_bool (child_holds t) \<and>
     (delegate_alive t \<longleftrightarrow> parent_holds t \<or> child_holds t \<or> parent t = Deleting \<or> child t = ChildDeleting) \<and>
     (parent t = Deleting \<longrightarrow> child t \<in> {HasReturned, NoThread}) \<and>
     (child t = ChildDeleting \<longrightarrow> parent t = Parted) \<and>
     (child t \<in> {AtStart, AtPrerun, AtLoop, InRun, AtPostrun, AtClear, DeletingRunnable, NoThread} \<longrightarrow> runnable_deleted t = 0) \<and>
     runnable_deleted t \<le> 1 \<and>
     (child t \<in> {DeletingRunnable, ChildDestroy, ChildCounting, ChildDeleting, HasReturned, NoThread} \<longrightarrow> \<not> mRunnable t) \<and>
     (child t = NoThread \<longrightarrow> parent t \<in> {InCreate, InDestroy, Counting, Deleting, Parted} \<and> start_result t \<noteq> Some True) \<and>
     (mRunnable t \<longrightarrow> parent t \<notin> {InJoinable, Joining}) \<and>
     (parent t = InCreate \<longleftrightarrow> start_result t = None)"

lemma alive_iff:
  assumes "lt_ok t"
  shows "delegate_alive t \<longleftrightarrow> \<not> (parent t = Parted \<and> child t \<in> {HasReturned, NoThread})"
proof -
  have "delegate_alive t \<longleftrightarrow> parent_holds t \<or> child_holds t \<or> parent t = Deleting \<or> child t = ChildDeleting"
    using assms unfolding lt_ok_def by (elim conjE)
  then show ?thesis
    by (auto simp: parent_holds_def child_holds_def)
qed

lemma new_ok: "lt_ok (new_delegate j ok)"
  by (simp add: lt_ok_def new_delegate_def parent_holds_def child_holds_def)

lemma parent_ok: "lt_ok t \<Longrightarrow> \<exists>t'. lt_do (Parent b) t = Some t' \<and> lt_ok t'"
  by (cases "parent t"; cases "child t")
     (auto simp: lt_ok_def parent_holds_def child_holds_def parent_touches_def)

lemma child_ok: "lt_ok t \<Longrightarrow> \<exists>t'. lt_do (Child b) t = Some t' \<and> lt_ok t'"
  by (cases "parent t"; cases "child t")
     (auto simp: lt_ok_def parent_holds_def child_holds_def child_touches_def)

lemma step_ok: "lt_ok t \<Longrightarrow> \<exists>t'. lt_do x t = Some t' \<and> lt_ok t'"
  using parent_ok child_ok by (cases x) blast+

lemma run_ok: "lt_ok t \<Longrightarrow> \<exists>t'. lt_run xs t = Some t' \<and> lt_ok t'"
proof (induction xs arbitrary: t)
  case (Cons x xs)
  from step_ok [OF Cons.prems, of x] show ?case
    using Cons.IH by auto
qed simp

section \<open>Joining and ending\<close>

text \<open>A joinable thread that was started: whoever stops it gets on only when it has returned.\<close>

definition joins :: "loc_thread \<Rightarrow> bool" where
  "joins t \<longleftrightarrow> (if parent t \<in> {InCreate, Holding, InStop, InJoinable} then mJoinable t
     else start_result t = Some True \<longrightarrow> parent t = Joining \<or> child t = HasReturned)"

lemma joins_parent: "lt_ok t \<Longrightarrow> joins t \<Longrightarrow> joins (parent_do b t)"
  by (cases "parent t"; cases "child t") (auto simp: joins_def lt_ok_def)

lemma joins_child: "joins t \<Longrightarrow> joins (child_do b t)"
  by (cases "child t") (auto simp: joins_def)

lemma joins_run: "lt_ok t \<Longrightarrow> joins t \<Longrightarrow> lt_run xs t = Some t' \<Longrightarrow> joins t'"
proof (induction xs arbitrary: t)
  case (Cons x xs)
  then obtain t1 where "lt_do x t = Some t1" "lt_run xs t1 = Some t'"
    by (auto split: option.splits)
  moreover have "lt_ok t1"
    using step_ok [OF Cons.prems(1), of x] \<open>lt_do x t = Some t1\<close> by auto
  moreover have "joins t1"
    using \<open>lt_do x t = Some t1\<close> Cons.prems joins_parent joins_child
    by (cases x) (auto simp del: parent_do.simps child_do.simps split: if_splits)
  ultimately show ?case
    using Cons.IH by blast
qed simp

lemma joins_new: "joins (new_delegate True True)"
  by (simp add: joins_def new_delegate_def)

text \<open>The turns a thread needs once it has been told to end.\<close>

fun child_left :: "child_at \<Rightarrow> nat" where
  "child_left AtStart = 9"
| "child_left AtPrerun = 10"
| "child_left AtLoop = 8"
| "child_left InRun = 9"
| "child_left AtPostrun = 7"
| "child_left AtClear = 6"
| "child_left DeletingRunnable = 5"
| "child_left ChildDestroy = 4"
| "child_left ChildCounting = 3"
| "child_left ChildDeleting = 1"
| "child_left HasReturned = 0"
| "child_left NoThread = 0"

fun parent_left :: "parent_at \<Rightarrow> nat" where
  "parent_left InCreate = 9"
| "parent_left Holding = 8"
| "parent_left InStop = 7"
| "parent_left InJoinable = 6"
| "parent_left Joining = 5"
| "parent_left InDestroy = 4"
| "parent_left Counting = 3"
| "parent_left Deleting = 1"
| "parent_left Parted = 0"

lemma child_left_turns:
  "lt_do (Child b) t = Some t' \<Longrightarrow> \<not> mRunnable t \<Longrightarrow> \<not> mRunnable t' \<and> child_left (child t') \<le> child_left (child t) - 1"
  by (cases "child t") (auto split: if_splits)

lemma child_left_parent:
  "lt_do (Parent b) t = Some t' \<Longrightarrow> child_left (child t') = child_left (child t) \<and> (\<not> mRunnable t \<longrightarrow> \<not> mRunnable t')"
  by (cases "parent t") (auto split: if_splits)

lemma parent_left_turns:
  "lt_do (Parent b) t = Some t' \<Longrightarrow> child t = HasReturned \<Longrightarrow>
   child t' = HasReturned \<and> parent_left (parent t') \<le> parent_left (parent t) - 1"
  by (cases "parent t") (auto split: if_splits)

definition child_turns :: "lt_turn list \<Rightarrow> nat" where
  "child_turns xs = length (filter (\<lambda>x. case x of Child _ \<Rightarrow> True | Parent _ \<Rightarrow> False) xs)"

definition parent_turns :: "lt_turn list \<Rightarrow> nat" where
  "parent_turns xs = length (filter (\<lambda>x. case x of Parent _ \<Rightarrow> True | Child _ \<Rightarrow> False) xs)"

lemma child_ends:
  "lt_run xs t = Some t' \<Longrightarrow> \<not> mRunnable t \<Longrightarrow> child_left (child t') \<le> child_left (child t) - child_turns xs"
proof (induction xs arbitrary: t)
  case (Cons x xs)
  then obtain t1 where t1: "lt_do x t = Some t1" "lt_run xs t1 = Some t'"
    by (auto split: option.splits)
  show ?case
  proof (cases x)
    case (Parent b)
    then show ?thesis
      using Cons.IH [OF t1(2)] child_left_parent [OF t1(1) [unfolded Parent]] Cons.prems(2) Parent by (simp add: child_turns_def)
  next
    case (Child b)
    then show ?thesis
      using Cons.IH [OF t1(2)] child_left_turns [OF t1(1) [unfolded Child] Cons.prems(2)] Child
      by (simp add: child_turns_def) arith
  qed
qed (simp add: child_turns_def)

lemma parent_ends:
  "lt_run xs t = Some t' \<Longrightarrow> child t = HasReturned \<Longrightarrow>
   child t' = HasReturned \<and> parent_left (parent t') \<le> parent_left (parent t) - parent_turns xs"
proof (induction xs arbitrary: t)
  case (Cons x xs)
  then obtain t1 where t1: "lt_do x t = Some t1" "lt_run xs t1 = Some t'"
    by (auto split: option.splits)
  show ?case
  proof (cases x)
    case (Parent b)
    then show ?thesis
      using Cons.IH [OF t1(2)] parent_left_turns [OF t1(1) [unfolded Parent] Cons.prems(2)] Parent
      by (simp add: parent_turns_def) arith
  next
    case (Child b)
    then have "t1 = t"
      using t1(1) Cons.prems(2) by (auto split: if_splits)
    then show ?thesis
      using Cons.IH [OF t1(2)] Cons.prems(2) Child by (simp add: parent_turns_def)
  qed
qed (simp add: parent_turns_def)

lemma run_append: "lt_run (xs @ ys) t = (case lt_run xs t of None \<Rightarrow> None | Some t1 \<Rightarrow> lt_run ys t1)"
  by (induction xs arbitrary: t) (auto split: option.split)

lemma left_0: "child_left c = 0 \<longleftrightarrow> c \<in> {HasReturned, NoThread}" "parent_left p = 0 \<longleftrightarrow> p = Parted"
  by (cases c; simp) (cases p; simp)

text \<open>A thread that was created is never without a thread.\<close>

lemma created_stays: "lt_run xs t = Some t' \<Longrightarrow> child t \<noteq> NoThread \<Longrightarrow> child t' \<noteq> NoThread"
proof (induction xs arbitrary: t)
  case (Cons x xs)
  then obtain t1 where t1: "lt_do x t = Some t1" "lt_run xs t1 = Some t'"
    by (auto split: option.splits)
  have "child t1 \<noteq> NoThread"
  proof (cases x)
    case (Parent b)
    then show ?thesis
      using t1(1) Cons.prems(2) by (cases "parent t") (auto split: if_splits)
  next
    case (Child b)
    then show ?thesis
      using t1(1) Cons.prems(2) by (cases "child t") (auto split: if_splits)
  qed
  then show ?case
    by (rule Cons.IH [OF t1(2)])
qed simp

end
