(* ===== verification/Loc_Task.thy ===== *)
theory Loc_Task
  imports Loc_Thread
begin

text \<open>
  The message task with its thread (\<open>src/gps/utils/MsgTask.cpp\<close>): the thread of \<open>Loc_Thread\<close> runs
  \<open>MsgTask_run\<close> on the queue of \<open>Loc_MsgQ\<close> and deletes the task on its way out, while another thread
  destroys it. An access to a deleted task has no result. Then the properties of queue, threads and task.
\<close>

section \<open>The task and who destroys it\<close>

datatype destroy_at = NotAsked | ToUnblock | ToForget | ToDeleteThread | Finished

record 'd msg_task =
  task_alive :: bool
  mQ :: "'d msg_q option"
  has_thread :: bool
  lt :: loc_thread
  destroyer :: destroy_at
  handled :: "'d list"
  deleted :: "'d list"

text \<open>
  \<open>destroy\<close>: it reads the thread, unblocks the queue, clears the thread of the task, and deletes the thread;
  a task without a thread deletes itself.
\<close>

definition destroy_step :: "'d msg_task \<Rightarrow> 'd msg_task option" where
  "destroy_step k =
     (case destroyer k of
        NotAsked \<Rightarrow> if task_alive k then Some (k\<lparr>destroyer := ToUnblock\<rparr>) else None
      | ToUnblock \<Rightarrow> if task_alive k then Some (k\<lparr>mQ := snd (msg_q_unblock (mQ k)), destroyer := ToForget\<rparr>) else None
      | ToForget \<Rightarrow>
          (if \<not> task_alive k then None
           else if has_thread k then Some (k\<lparr>has_thread := False, destroyer := ToDeleteThread\<rparr>)
           else map_option (\<lambda>ds. k\<lparr>mQ := None, task_alive := False, deleted := ds, destroyer := Finished\<rparr>) (MsgTask_delete (mQ k)))
      | ToDeleteThread \<Rightarrow> map_option (\<lambda>t. k\<lparr>lt := t\<rparr>) (lt_do (Parent False) (lt k))
      | Finished \<Rightarrow> Some k)"

text \<open>The thread of the task.\<close>

definition thread_step :: "'d msg_task \<Rightarrow> 'd msg_task option" where
  "thread_step k =
     (case child (lt k) of
        InRun \<Rightarrow>
          (if \<not> task_alive k then None
           else case MsgTask_run (\<lambda>d ds. ds @ [d]) (mQ k) (handled k) of
                  None \<Rightarrow> None
                | Some (WaitsFor, q, ds) \<Rightarrow> Some (k\<lparr>mQ := q\<rparr>)
                | Some (GoesOn, q, ds) \<Rightarrow> map_option (\<lambda>t. k\<lparr>mQ := q, handled := ds, lt := t\<rparr>) (lt_do (Child True) (lt k))
                | Some (Ends, q, ds) \<Rightarrow> map_option (\<lambda>t. k\<lparr>mQ := q, lt := t\<rparr>) (lt_do (Child False) (lt k)))
      | DeletingRunnable \<Rightarrow>
          (if \<not> task_alive k then None
           else case MsgTask_delete (mQ k) of
                  None \<Rightarrow> None
                | Some ds \<Rightarrow> map_option (\<lambda>t. k\<lparr>mQ := None, task_alive := False, deleted := ds, lt := t\<rparr>) (lt_do (Child False) (lt k)))
      | _ \<Rightarrow> map_option (\<lambda>t. k\<lparr>lt := t\<rparr>) (lt_do (Child False) (lt k)))"

datatype task_turn = Destroyer | Thread

fun task_do :: "task_turn \<Rightarrow> 'd msg_task \<Rightarrow> 'd msg_task option" where
  "task_do Destroyer k = destroy_step k"
| "task_do Thread k = thread_step k"

fun task_run :: "task_turn list \<Rightarrow> 'd msg_task \<Rightarrow> 'd msg_task option" where
  "task_run [] k = Some k"
| "task_run (x # xs) k = (case task_do x k of None \<Rightarrow> None | Some k1 \<Rightarrow> task_run xs k1)"

text \<open>A task whose constructor has started its thread, with a queue.\<close>

definition started_task :: "bool \<Rightarrow> 'd msg_q \<Rightarrow> 'd msg_task" where
  "started_task joinable q =
     \<lparr>task_alive = True, mQ = Some q, has_thread = True, lt = (new_delegate joinable True)\<lparr>parent := Holding, start_result := Some True\<rparr>,
      destroyer = NotAsked, handled = [], deleted = []\<rparr>"

section \<open>A destruction that is not overtaken\<close>

lemma run_live:
  assumes "mq_queued q ms" "\<not> unblocked q"
  shows "\<exists>q'. MsgTask_run f (Some q) s =
      (case ms of [] \<Rightarrow> Some (WaitsFor, Some q', s) | m # ns \<Rightarrow> Some (GoesOn, Some q', f m s)) \<and>
    mq_queued q' (tl ms) \<and> unblocked q' = unblocked q \<and> released q' = released q"
proof (cases ms)
  case Nil
  then show ?thesis
    using assms loop_empty [of q] by (simp add: MsgTask_run_def msg_q_rcv_def)
next
  case (Cons m ns)
  then show ?thesis
    using assms loop_queued [of q m ns] by (auto simp: MsgTask_run_def msg_q_rcv_def)
qed

lemma run_unblocked: "unblocked q \<Longrightarrow> MsgTask_run f (Some q) s = Some (Ends, Some q, s)"
  by (simp add: MsgTask_run_def msg_q_rcv_def)

lemma delete_queued:
  assumes "mq_queued q ms"
  shows "MsgTask_delete (Some q) = Some (released q @ rev ms)"
proof -
  obtain q' where q: "msg_q_flush (Some q) = Some (eMSG_Q_SUCCESS, Some q')" "mq_queued q' []" "released q' = released q @ rev ms"
    using flush_queued [OF assms] by blast
  then obtain l where "msg_list q' = Some l" "rep l []"
    by (auto simp: mq_queued_def)
  then show ?thesis
    using q destroy_rep [of l "[]"] by (simp add: MsgTask_delete_def msg_q_destroy_def released_def)
qed

text \<open>
  Before it is destroyed the task has its queue; afterwards the thread ends and deletes the task with
  what is left in the queue. \<open>all\<close> are the messages that were in the queue at the start.
\<close>

definition task_ok :: "'d list \<Rightarrow> 'd msg_task \<Rightarrow> bool" where
  "task_ok all k \<longleftrightarrow> lt_ok (lt k) \<and> start_result (lt k) = Some True \<and>
     (destroyer k = NotAsked \<or> destroyer k = ToDeleteThread) \<and>
     (destroyer k = NotAsked \<longrightarrow> has_thread k \<and> parent (lt k) = Holding \<and> mRunnable (lt k) \<and>
        child (lt k) \<in> {AtStart, AtPrerun, AtLoop, InRun}) \<and>
     (child (lt k) \<in> {AtStart, AtPrerun, AtLoop, InRun, AtPostrun, AtClear, DeletingRunnable} \<longrightarrow> task_alive k) \<and>
     (if task_alive k
      then \<exists>q ms. mQ k = Some q \<and> mq_queued q ms \<and> released q = [] \<and> all = handled k @ ms \<and> deleted k = [] \<and>
        (unblocked q \<longleftrightarrow> destroyer k = ToDeleteThread)
      else mset all = mset (handled k) + mset (deleted k))"

lemma thread_ok:
  assumes "task_ok all k"
  shows "\<exists>k'. thread_step k = Some k' \<and> task_ok all k'"
proof -
  have lt: "lt_ok (lt k)"
    using assms by (simp add: task_ok_def)
  obtain t1 where t1: "lt_do (Child True) (lt k) = Some t1" "lt_ok t1"
    using child_ok [OF lt] by blast
  obtain t0 where t0: "lt_do (Child False) (lt k) = Some t0" "lt_ok t0"
    using child_ok [OF lt] by blast
  have keep: "parent t0 = parent (lt k)" "start_result t0 = start_result (lt k)"
    "parent t1 = parent (lt k)" "start_result t1 = start_result (lt k)"
    using t0(1) t1(1) by (cases "child (lt k)"; auto split: if_splits)+
  show ?thesis
  proof (cases "child (lt k) = InRun \<or> child (lt k) = DeletingRunnable")
    case False
    then have "thread_step k = Some (k\<lparr>lt := t0\<rparr>)"
      using t0(1) by (cases "child (lt k)") (simp_all add: thread_step_def)
    moreover have "task_ok all (k\<lparr>lt := t0\<rparr>)"
      using assms False t0 keep by (cases "child (lt k)") (auto simp: task_ok_def split: if_splits)
    ultimately show ?thesis
      by blast
  next
    case True
    then have alive: "task_alive k"
      using assms by (auto simp: task_ok_def)
    then obtain q ms where q: "mQ k = Some q" "mq_queued q ms" "released q = []" "all = handled k @ ms" "deleted k = []"
      "unblocked q \<longleftrightarrow> destroyer k = ToDeleteThread"
      using assms by (auto simp: task_ok_def)
    consider "child (lt k) = DeletingRunnable" | "child (lt k) = InRun" "unblocked q" | "child (lt k) = InRun" "\<not> unblocked q"
      using True by blast
    then show ?thesis
    proof cases
      case 1
      then have "destroyer k = ToDeleteThread"
        using assms by (auto simp: task_ok_def)
      moreover have "thread_step k = Some (k\<lparr>mQ := None, task_alive := False, deleted := rev ms, lt := t0\<rparr>)"
        using 1 alive q(1) delete_queued [OF q(2)] q(3) t0(1) by (simp add: thread_step_def)
      moreover have "child t0 = ChildDestroy"
        using t0(1) 1 by (auto split: if_splits)
      ultimately show ?thesis
        using assms keep t0(2) q(4) by (simp add: task_ok_def)
    next
      case 2
      then have "thread_step k = Some (k\<lparr>mQ := Some q, lt := t0\<rparr>)"
        using alive q(1) run_unblocked [OF 2(2), of "\<lambda>d ds. ds @ [d]" "handled k"] t0(1)
        by (simp add: thread_step_def)
      moreover have "child t0 = AtPostrun"
        using t0(1) 2(1) by (auto split: if_splits)
      ultimately show ?thesis
        using assms keep t0(2) q alive 2(2) by (simp add: task_ok_def)
    next
      case 3
      obtain q' where q': "MsgTask_run (\<lambda>d ds. ds @ [d]) (Some q) (handled k) =
          (case ms of [] \<Rightarrow> Some (WaitsFor, Some q', handled k) | m # ns \<Rightarrow> Some (GoesOn, Some q', handled k @ [m]))"
        "mq_queued q' (tl ms)" "unblocked q' = unblocked q" "released q' = released q"
        using run_live [OF q(2) 3(2), of "\<lambda>d ds. ds @ [d]" "handled k"] by blast
      show ?thesis
      proof (cases ms)
        case Nil
        then have "thread_step k = Some (k\<lparr>mQ := Some q'\<rparr>)"
          using alive q(1) 3(1) q'(1) by (simp add: thread_step_def)
        then show ?thesis
          using assms q q' Nil alive by (simp add: task_ok_def)
      next
        case (Cons m ns)
        have "child t1 = AtLoop" "mRunnable t1 = mRunnable (lt k)"
          using t1(1) 3(1) by (auto split: if_splits)
        moreover have "thread_step k = Some (k\<lparr>mQ := Some q', handled := handled k @ [m], lt := t1\<rparr>)"
          using alive q(1) 3(1) q'(1) t1(1) Cons by (simp add: thread_step_def)
        ultimately show ?thesis
          using assms q q' Cons alive keep t1(2) by (simp add: task_ok_def)
      qed
    qed
  qed
qed


lemma destroyer_ok:
  assumes "task_ok all k" "destroyer k = ToDeleteThread"
  shows "\<exists>k'. destroy_step k = Some k' \<and> task_ok all k' \<and> destroyer k' = ToDeleteThread"
proof -
  obtain t where t: "lt_do (Parent False) (lt k) = Some t" "lt_ok t"
    using parent_ok [of "lt k"] assms(1) by (auto simp: task_ok_def)
  have "parent (lt k) \<noteq> InCreate"
    using assms(1) by (auto simp: task_ok_def lt_ok_def)
  then have "child t = child (lt k)" "start_result t = start_result (lt k)"
    using t(1) by (cases "parent (lt k)"; auto split: if_splits)+
  with assms t show ?thesis
    by (cases "task_alive k") (auto simp: destroy_step_def task_ok_def simp del: lt_do.simps)
qed

lemma destroyed_ok:
  assumes "task_ok all k" "destroyer k = NotAsked"
  shows "\<exists>k'. task_run [Destroyer, Destroyer, Destroyer] k = Some k' \<and> task_ok all k' \<and> destroyer k' = ToDeleteThread"
proof -
  have alive: "task_alive k"
    using assms by (auto simp: task_ok_def)
  then obtain q ms where q: "mQ k = Some q" "mq_queued q ms" "released q = []" "all = handled k @ ms" "deleted k = []" "\<not> unblocked q"
    using assms by (auto simp: task_ok_def)
  let ?q = "q\<lparr>unblocked := True\<rparr>"
  have "mq_queued ?q ms" "released ?q = []"
    using q(2,3) by (simp_all add: mq_queued_def released_def)
  then show ?thesis
    using assms alive q by (simp add: destroy_step_def msg_q_unblock_def task_ok_def)
qed

lemma threads_ok: "task_ok all k \<Longrightarrow> \<exists>k'. task_run (replicate n Thread) k = Some k' \<and> task_ok all k' \<and> destroyer k' = destroyer k"
proof (induction n arbitrary: k)
  case (Suc n)
  obtain k1 where k1: "thread_step k = Some k1" "task_ok all k1"
    using thread_ok [OF Suc.prems] by blast
  then have "destroyer k1 = destroyer k"
    by (auto simp: thread_step_def split: child_at.splits if_splits option.splits prod.splits turn.splits)
  then show ?case
    using Suc.IH [OF k1(2)] k1(1) by simp
qed simp

lemma rest_ok:
  "task_ok all k \<Longrightarrow> destroyer k = ToDeleteThread \<Longrightarrow> \<exists>k'. task_run xs k = Some k' \<and> task_ok all k' \<and> destroyer k' = ToDeleteThread"
proof (induction xs arbitrary: k)
  case (Cons x xs)
  have "\<exists>k1. task_do x k = Some k1 \<and> task_ok all k1 \<and> destroyer k1 = ToDeleteThread"
    using destroyer_ok [OF Cons.prems] threads_ok [OF Cons.prems(1), of 1] Cons.prems(2)
    by (cases x) (auto split: option.splits)
  then show ?case
    using Cons.IH by auto
qed simp

lemma task_run_append: "task_run (xs @ ys) k = (case task_run xs k of None \<Rightarrow> None | Some k1 \<Rightarrow> task_run ys k1)"
  by (induction xs arbitrary: k) (auto split: option.split)

lemma started_ok: "mq_queued q ms \<Longrightarrow> \<not> unblocked q \<Longrightarrow> released q = [] \<Longrightarrow> task_ok ms (started_task j q)"
  by (auto simp: task_ok_def started_task_def new_delegate_def lt_ok_def parent_holds_def child_holds_def)


section \<open>Properties of the list\<close>

text \<open>
  C14: Any sequence of operations on a new list has a result: it never touches a released element and its
  loops end. Every code, every datum handed out and everything released is that of the same operations on
  a plain list, an addition at one end, a removal at the other, a search for the first match; the elements
  in memory are those of the list and no others; and destroying it releases what is left.
\<close>

theorem list_runs_refine:
  assumes "malloc_ok ops (snd (linked_list_init True True), s)"
    and "spec_run ops ([], [], s) = (rs, ys, out, s1)"
  shows "\<exists>l. ll_run ops (snd (linked_list_init True True), s) = Some (rs, Some l, s1) \<and> rep l ys \<and> deallocated l = out \<and>
    linked_list_destroy (Some (Some l)) = Some (eLINKED_LIST_SUCCESS, out @ map fst (filter snd ys))"
proof -
  obtain l where "ll_run ops (Some empty_list, s) = Some (rs, Some l, s1)" "rep l ys" "deallocated l = out"
    using ll_run_refines [OF empty_list_rep, of ops s rs ys out s1] assms
    by (auto simp: linked_list_init_def empty_list_def)
  then show ?thesis
    using destroy_rep [of l ys] by (simp add: linked_list_init_def)
qed

theorem list_runs_refine_witness:
  "\<exists>l. ll_run [AddOp (Some 7) (10::nat) True, AddOp (Some 3) 20 False, AddOp None 30 True,
        SearchOp (\<lambda>d n. (d = 10, n + 1)) False True, RemoveOp, RemoveOp] (snd (linked_list_init True True), 0::nat) =
      Some ([(eLINKED_LIST_SUCCESS, None), (eLINKED_LIST_SUCCESS, None), (eLINKED_LIST_FAILURE_GENERAL, None),
        (eLINKED_LIST_SUCCESS, None), (eLINKED_LIST_SUCCESS, Some 20), (eLINKED_LIST_UNAVAILABLE_RESOURCE, None)], Some l, 2) \<and>
    rep l [] \<and> deallocated l = [10] \<and>
    linked_list_destroy (Some (Some l)) = Some (eLINKED_LIST_SUCCESS, [10] @ map fst (filter snd []))"
  by (rule list_runs_refine; code_simp)

section \<open>Properties of the queue\<close>

text \<open>
  C13: Whatever senders and receivers do with a queue, in any order: no operation touches released memory;
  every message that was accepted has been received, or deleted by a flush, or is in the queue, each once;
  without a flush the messages are received in the order of the sending; and the destructor of the task
  deletes what is left.
\<close>

theorem messages_in_order:
  assumes "mq_malloc_ok xs mq_start"
  shows "\<exists>s ms. mq_run xs mq_start = Some s \<and> mq_queued (mq s) ms \<and>
    mset (accepted s) = mset (taken s) + mset ms + mset (released (mq s)) \<and>
    (released (mq s) = [] \<longrightarrow> accepted s = taken s @ ms) \<and>
    MsgTask_delete (Some (mq s)) = Some (released (mq s) @ rev ms)"
  using run_inv [OF start_inv assms] delete_queued by (auto simp: mq_inv_def mq_ok_def)

theorem messages_in_order_witness:
  "\<exists>s ms. mq_run [ListenStep 0, SendStep (Some 5) (1::nat) 0, SendStep (Some 6) 2 0, WakeStep 0, SendStep (Some 5) 3 0] mq_start = Some s \<and>
    mq_queued (mq s) ms \<and> mset (accepted s) = mset (taken s) + mset ms + mset (released (mq s)) \<and>
    (if released (mq s) = [] then accepted s = taken s @ ms else True) \<and>
    MsgTask_delete (Some (mq s)) = Some (released (mq s) @ rev ms)"
proof -
  have "mq_malloc_ok [ListenStep 0, SendStep (Some 5) (1::nat) 0, SendStep (Some 6) 2 0, WakeStep 0, SendStep (Some 5) 3 0] mq_start"
    by code_simp
  then show ?thesis
    using messages_in_order by fastforce
qed

text \<open>
  C16: No wakeup is lost: while a thread sleeps on the queue there are no more messages in it than threads
  that have been woken up for them, and the queue has not been unblocked; a thread that looks at the queue
  when it wakes up gets the oldest message, if there is one; and receivers fail only after the queue has
  been unblocked.
\<close>

theorem no_wakeup_lost:
  assumes "mq_malloc_ok xs mq_start" "mq_run xs mq_start = Some s"
  shows "\<exists>ms. mq_queued (mq s) ms \<and>
    (asleep s \<noteq> [] \<longrightarrow> length ms \<le> length (awake s) \<and> \<not> unblocked (mq s)) \<and>
    (\<forall>t m ns. t \<in> set (asleep s @ awake s) \<and> ms = m # ns \<longrightarrow>
       (\<exists>s1. mq_do (WakeStep t) s = Some s1 \<and> mq_queued (mq s1) ns \<and>
          returned s1 = returned s @ [(t, eMSG_Q_SUCCESS, Some m)])) \<and>
    (\<forall>(t, rc, d) \<in> set (returned s). if d = None then rc = eMSG_Q_UNAVAILABLE_RESOURCE \<and> unblocked (mq s)
       else rc = eMSG_Q_SUCCESS)"
proof -
  obtain ms where ms: "mq_ok (length (awake s)) s ms"
    using run_inv [OF start_inv assms(1)] assms(2) by (auto simp: mq_inv_def)
  have "\<exists>s1. mq_do (WakeStep t) s = Some s1 \<and> mq_queued (mq s1) ns \<and> returned s1 = returned s @ [(t, eMSG_Q_SUCCESS, Some m)]"
    if "t \<in> set (asleep s @ awake s)" "ms = m # ns" for t m ns
  proof -
    have "mq_queued (mq s) (m # ns)"
      using ms that(2) by (simp add: mq_ok_def)
    from loop_queued [OF this] that(1) show ?thesis
      by (auto simp: rcv_reply_def)
  qed
  with ms show ?thesis
    unfolding mq_ok_def replies_ok_def by blast
qed

definition two_receivers :: "nat mq_step list" where
  "two_receivers = [ListenStep 0, ListenStep 1, SendStep (Some 5) 1 0]"

theorem no_wakeup_lost_witness:
  "\<exists>ms. mq_queued (mq (the (mq_run two_receivers mq_start))) ms \<and>
    length ms \<le> length (awake (the (mq_run two_receivers mq_start)))"
proof -
  have ok: "mq_malloc_ok two_receivers mq_start" "mq_run two_receivers mq_start \<noteq> None"
    "asleep (the (mq_run two_receivers mq_start)) \<noteq> []"
    by code_simp+
  then have "mq_run two_receivers mq_start = Some (the (mq_run two_receivers mq_start))"
    by simp
  from no_wakeup_lost [OF ok(1) this] ok(3) show ?thesis
    by auto
qed

text \<open>A task whose queue could not be made follows a null pointer when it is deleted.\<close>

theorem null_queue_followed: "MsgTask_delete None = None \<and> msg_q_init2 True False mutex cond = None"
  by (simp add: MsgTask_delete_def msg_q_flush_def msg_q_destroy_def msg_q_init2_def msg_q_init_def linked_list_init_def)

section \<open>Properties of threads\<close>

text \<open>
  C15: However the steps of the two threads interleave, no thread touches the shared object after it was
  deleted; it is deleted when, and only when, both are done with it; the runnable is deleted at most once;
  and a thread that was started joinable has returned when the client is past the join.
\<close>

theorem thread_object_deleted_once:
  "\<exists>t. lt_run xs (new_delegate joinable ok) = Some t \<and>
    delegate_alive t = (\<not> (parent t = Parted \<and> child t \<in> {HasReturned, NoThread})) \<and>
    runnable_deleted t \<le> 1 \<and>
    \<not> (joinable \<and> ok \<and> parent t \<in> {InDestroy, Counting, Deleting, Parted} \<and> start_result t = Some True \<and> child t \<noteq> HasReturned)"
proof -
  obtain t where t: "lt_run xs (new_delegate joinable ok) = Some t" "lt_ok t"
    using run_ok [OF new_ok] by blast
  have "delegate_alive t = (\<not> (parent t = Parted \<and> child t \<in> {HasReturned, NoThread}))" "runnable_deleted t \<le> 1"
    using alive_iff [OF t(2)] t(2) unfolding lt_ok_def by blast+
  moreover have "joinable \<and> ok \<Longrightarrow> joins t"
    using joins_run [OF new_ok joins_new] t(1) by auto
  ultimately show ?thesis
    using t(1) by (auto simp: joins_def)
qed




text \<open>
  \<open>start\<close> looks at the runnable after the thread was created: a thread that is through by then has deleted
  its runnable and is reported as failed, so that the client, who keeps the runnable in this case, is left
  with a deleted one. And a thread that is stopped before it has read its runnable never deletes it.
\<close>

theorem quick_thread_reported_failed:
  "\<exists>t. lt_run (map Child [True, True, True, False, False, False, False, False, False] @ [Parent False]) (new_delegate j True) = Some t \<and>
    start_result t = Some False \<and> runnable_deleted t = 1"
  by (cases j; simp add: new_delegate_def child_touches_def parent_touches_def)

theorem early_stop_keeps_runnable:
  "\<exists>t. lt_run (replicate 3 (Parent True) @ replicate 9 (Child True) @ replicate 5 (Parent True)) (new_delegate False True) = Some t \<and>
    start_result t = Some True \<and> child t = HasReturned \<and> parent t = Parted \<and> runnable_deleted t = 0"
  by (simp add: new_delegate_def child_touches_def parent_touches_def eval_nat_numeral)

section \<open>Properties of the task\<close>

text \<open>
  C27: A task that is destroyed while its thread handles messages, when the thread does not get on between
  the three steps of \<open>destroy\<close>: whatever order the turns of the threads come in, neither touches the task
  after it was deleted, and every message that was in the queue has been handled, in order, or is still
  there, or was deleted with the task, each exactly once.
\<close>

theorem destroyed_task_accounts:
  assumes "mq_queued q ms" "\<not> unblocked q" "released q = []"
  shows "\<exists>k. task_run (replicate n Thread @ [Destroyer, Destroyer, Destroyer] @ xs) (started_task joinable q) = Some k \<and>
    (if task_alive k then \<exists>q1 ns. mQ k = Some q1 \<and> mq_queued q1 ns \<and> ms = handled k @ ns \<and> deleted k = []
     else mset ms = mset (handled k) + mset (deleted k))"
proof -
  have "destroyer (started_task joinable q) = NotAsked"
    by (simp add: started_task_def)
  then obtain k1 where k1: "task_run (replicate n Thread) (started_task joinable q) = Some k1" "task_ok ms k1" "destroyer k1 = NotAsked"
    using threads_ok [OF started_ok [OF assms], of n joinable] by auto
  obtain k2 where k2: "task_run [Destroyer, Destroyer, Destroyer] k1 = Some k2" "task_ok ms k2" "destroyer k2 = ToDeleteThread"
    using destroyed_ok [OF k1(2,3)] by blast
  obtain k3 where k3: "task_run xs k2 = Some k3" "task_ok ms k3"
    using rest_ok [OF k2(2,3)] by blast
  have "task_run (replicate n Thread @ [Destroyer, Destroyer, Destroyer] @ xs) (started_task joinable q) = Some k3"
    by (simp only: task_run_append k1(1) k2(1) k3(1) option.case)
  then show ?thesis
    using k3(2) by (auto simp: task_ok_def split: if_splits)
qed

definition two_messages :: "nat msg_q" where
  "two_messages =
     \<lparr>msg_list = Some \<lparr>cells = [5 \<mapsto> \<lparr>e_next = None, e_prev = Some 6, data_ptr = 1, dealloc_func = True\<rparr>,
        6 \<mapsto> \<lparr>e_next = Some 5, e_prev = None, data_ptr = 2, dealloc_func = True\<rparr>],
        p_head = Some 6, p_tail = Some 5, deallocated = []\<rparr>, unblocked = False\<rparr>"

lemma two_messages_queued: "mq_queued two_messages [1, 2]" "\<not> unblocked two_messages" "released two_messages = []"
proof -
  have "rep_at [6, 5] (the (msg_list two_messages)) [(2, True), (1, True)]"
    by (auto simp: rep_at_def two_messages_def)
  then show "mq_queued two_messages [1, 2]"
    by (auto simp: mq_queued_def rep_def two_messages_def)
qed (simp_all add: two_messages_def released_def)

theorem destroyed_task_accounts_witness:
  "\<exists>k. task_run (replicate 4 Thread @ [Destroyer, Destroyer, Destroyer] @ replicate 9 Thread) (started_task False two_messages) = Some k \<and>
    (if task_alive k then \<exists>q1 ns. mQ k = Some q1 \<and> mq_queued q1 ns \<and> [1, 2] = handled k @ ns \<and> deleted k = []
     else mset [1, 2] = mset (handled k) + mset (deleted k))"
  by (rule destroyed_task_accounts [OF two_messages_queued])

text \<open>
  C38: But \<open>destroy\<close> clears the thread of the task after it has unblocked the queue: when the thread of the
  task runs to its end in between, the task is gone, and \<open>destroy\<close> writes to released memory, whether the
  thread is joinable or not and whatever was in the queue.
\<close>

theorem destroy_overtaken:
  assumes "mq_queued q ms"
  shows "\<exists>k. task_run ([Destroyer, Destroyer] @ replicate 7 Thread) (started_task joinable q) = Some k \<and> \<not> task_alive k \<and>
    task_run ([Destroyer, Destroyer] @ replicate 7 Thread @ [Destroyer]) (started_task joinable q) = None"
proof -
  have q: "mq_queued (q\<lparr>unblocked := True\<rparr>) ms"
    using assms by (simp add: mq_queued_def)
  have u: "snd (msg_q_unblock (Some q)) = Some (q\<lparr>unblocked := True\<rparr>)"
    by (cases q) (simp add: msg_q_unblock_def)
  note run = run_unblocked [of "q\<lparr>unblocked := True\<rparr>" "\<lambda>d ds. ds @ [d]", simplified]
  show ?thesis
    using delete_queued [OF q]
    by (simp add: eval_nat_numeral started_task_def new_delegate_def destroy_step_def thread_step_def u run child_touches_def)
qed

theorem destroy_overtaken_witness:
  "task_run ([Destroyer, Destroyer] @ replicate 7 Thread @ [Destroyer]) (started_task True two_messages) = None"
  using destroy_overtaken [OF two_messages_queued(1), of True] by blast

end
