(* ===== verification/Cam_Types.thy ===== *)
theory Cam_Types
  imports HAL_Prelude
begin

text \<open>
  Types that the HAL and the interface below it share, from \<open>stack/common/cam_types.h\<close> and
  \<open>mm_camera_interface.h\<close>, and the C array and counter idioms both layers use.
\<close>

datatype cam_prep_snapshot_state = DO_NOT_NEED_FUTURE_FRAME | NEED_FUTURE_FRAME

datatype cam_stream_type =
    CAM_STREAM_TYPE_DEFAULT
  | CAM_STREAM_TYPE_PREVIEW
  | CAM_STREAM_TYPE_POSTVIEW
  | CAM_STREAM_TYPE_SNAPSHOT
  | CAM_STREAM_TYPE_VIDEO
  | CAM_STREAM_TYPE_IMPL_DEFINED
  | CAM_STREAM_TYPE_YUV
  | CAM_STREAM_TYPE_METADATA
  | CAM_STREAM_TYPE_RAW
  | CAM_STREAM_TYPE_OFFLINE_PROC

definition MAX_STREAM_NUM_IN_BUNDLE :: nat where
  "MAX_STREAM_NUM_IN_BUNDLE = 4"

text \<open>
  The definition of a frame buffer: the fields the interface reads. A pointer to a buffer is the
  buffer's definition here: nothing changes it while a pointer to it is queued.
\<close>

record mm_camera_buf_def =
  b_stream_id :: "32 word"
  b_stream_type :: cam_stream_type
  buf_idx :: "32 word"

datatype mm_camera_super_buf_notify_mode =
    MM_CAMERA_SUPER_BUF_NOTIFY_BURST
  | MM_CAMERA_SUPER_BUF_NOTIFY_CONTINUOUS

record mm_camera_channel_attr =
  notify_mode :: mm_camera_super_buf_notify_mode
  water_mark :: "8 word"
  look_back :: "8 word"
  post_frame_skip :: "8 word"
  max_unmatched_frames :: "8 word"

datatype mm_camera_advanced_capture =
    MM_CAMERA_AF_BRACKETING
  | MM_CAMERA_AE_BRACKETING
  | MM_CAMERA_FLASH_BRACKETING
  | MM_CAMERA_MTF_BRACKETING
  | MM_CAMERA_ZOOM_1X

end
