(* ===== verification/MM_Offset.thy ===== *)
theory MM_Offset
  imports Cam_Types "HOL-Library.Signed_Division"
begin

text \<open>
  The layout of a stream's frames: plane lengths, strides and the length of a frame, from the image
  format, the dimensions and the padding (\<open>mm_stream_calc_offset\<close> and the functions below it in
  \<open>mm_camera_stream.c\<close>), with the facts that make it safe to allocate by it.

  The arithmetic is the code's, on 32-bit words: \<open>int32_t\<close> and \<open>uint32_t\<close> agree on sums and products,
  and a signed division is written out (\<open>int_div\<close>). The macros of Venus, the video encoder, come from
  a kernel header and are a parameter; whether they are there, and whether the chip is of the A
  family, is the build's choice (\<open>build\<close>).
\<close>

unbundle bit_operations_syntax

section \<open>Formats and dimensions\<close>

text \<open>The raw formats come in four colour orders each.\<close>

datatype bayer_order = GBRG | GRBG | RGGB | BGGR

datatype bayer_raw =
    QCOM_RAW_8BPP | QCOM_RAW_10BPP | QCOM_RAW_12BPP | QCOM_RAW_14BPP
  | MIPI_RAW_8BPP | MIPI_RAW_10BPP | MIPI_RAW_12BPP | MIPI_RAW_14BPP
  | IDEAL_RAW_QCOM_8BPP | IDEAL_RAW_QCOM_10BPP | IDEAL_RAW_QCOM_12BPP | IDEAL_RAW_QCOM_14BPP
  | IDEAL_RAW_MIPI_8BPP | IDEAL_RAW_MIPI_10BPP | IDEAL_RAW_MIPI_12BPP | IDEAL_RAW_MIPI_14BPP
  | IDEAL_RAW_PLAIN8_8BPP
  | IDEAL_RAW_PLAIN16_8BPP | IDEAL_RAW_PLAIN16_10BPP | IDEAL_RAW_PLAIN16_12BPP
  | IDEAL_RAW_PLAIN16_14BPP

datatype cam_format =
    CAM_FORMAT_JPEG
  | CAM_FORMAT_YUV_420_NV12
  | CAM_FORMAT_YUV_420_NV21
  | CAM_FORMAT_YUV_420_NV21_ADRENO
  | CAM_FORMAT_YUV_420_YV12
  | CAM_FORMAT_YUV_422_NV16
  | CAM_FORMAT_YUV_422_NV61
  | CAM_FORMAT_YUV_420_NV12_VENUS
  | CAM_FORMAT_YUV_RAW_8BIT_YUYV
  | CAM_FORMAT_YUV_RAW_8BIT_YVYU
  | CAM_FORMAT_YUV_RAW_8BIT_UYVY
  | CAM_FORMAT_YUV_RAW_8BIT_VYUY
  | CAM_FORMAT_BAYER bayer_raw bayer_order
  | CAM_FORMAT_JPEG_RAW_8BIT
  | CAM_FORMAT_META_RAW_8BIT
  | CAM_FORMAT_META_RAW_10BIT

datatype v4l2_pix_fmt =
    V4L2_PIX_FMT_NV12 | V4L2_PIX_FMT_NV21 | V4L2_PIX_FMT_SBGGR10 | V4L2_PIX_FMT_NV61
  | V4L2_PIX_FMT_YUYV | V4L2_PIX_FMT_YVYU | V4L2_PIX_FMT_UYVY | V4L2_PIX_FMT_VYUY | V4L2_PIX_FMT_NV16

record cam_dimension =
  d_width :: "32 word"
  d_height :: "32 word"

record cam_padding_info =
  width_padding :: "32 word"
  height_padding :: "32 word"
  plane_padding :: "32 word"

record cam_mp_len_offset =
  p_len :: "32 word"
  p_offset :: "32 word"
  p_offset_x :: "32 word"
  p_offset_y :: "32 word"
  p_stride :: "32 word"
  p_scanline :: "32 word"
  p_width :: "32 word"
  p_height :: "32 word"

record cam_frame_len_offset =
  num_planes :: "32 word"
  mp :: "cam_mp_len_offset list"
  frame_len :: "32 word"

datatype cam_rotation = ROTATE_0 | ROTATE_90 | ROTATE_180 | ROTATE_270

record cam_pp_feature_config =
  feature_mask :: "32 word"
  rotation :: cam_rotation
  meta_max_size :: "32 word"

datatype cam_reproc_src =
    Offline cam_stream_type cam_frame_len_offset
  | Online cam_stream_type

record cam_stream_info =
  stream_svr_id :: "32 word"
  si_type :: cam_stream_type
  si_fmt :: cam_format
  si_dim :: cam_dimension
  buf_planes :: cam_frame_len_offset
  num_bufs :: "32 word"
  pp_config :: cam_pp_feature_config
  reproc_src :: cam_reproc_src
  reproc_pp :: cam_pp_feature_config

record venus =
  y_stride :: "32 word \<Rightarrow> 32 word"
  y_scanlines :: "32 word \<Rightarrow> 32 word"
  uv_stride :: "32 word \<Rightarrow> 32 word"
  uv_scanlines :: "32 word \<Rightarrow> 32 word"
  buffer_size :: "32 word \<Rightarrow> 32 word \<Rightarrow> 32 word"

record build =
  is_a_family :: bool
  venus_present :: "venus option"

section \<open>Padding\<close>

definition PAD_TO_SIZE :: "32 word \<Rightarrow> 32 word \<Rightarrow> 32 word" where
  "PAD_TO_SIZE sz padding = (sz + (padding - 1)) AND NOT (padding - 1)"

abbreviation (input) CAM_PAD_TO_4K :: "32 word" where "CAM_PAD_TO_4K \<equiv> 4096"
abbreviation (input) CAM_PAD_TO_2K :: "32 word" where "CAM_PAD_TO_2K \<equiv> 2048"

definition int_div :: "32 word \<Rightarrow> int \<Rightarrow> 32 word" where
  "int_div a n = word_of_int (sint a sdiv n)"

section \<open>Translation of formats\<close>

definition mm_stream_get_v4l2_fmt :: "cam_format \<Rightarrow> v4l2_pix_fmt option" where
  "mm_stream_get_v4l2_fmt fmt =
     (case fmt of
        CAM_FORMAT_YUV_420_NV12 \<Rightarrow> Some V4L2_PIX_FMT_NV12
      | CAM_FORMAT_YUV_420_NV12_VENUS \<Rightarrow> Some V4L2_PIX_FMT_NV12
      | CAM_FORMAT_YUV_420_NV21 \<Rightarrow> Some V4L2_PIX_FMT_NV21
      | CAM_FORMAT_BAYER QCOM_RAW_10BPP _ \<Rightarrow> Some V4L2_PIX_FMT_SBGGR10
      | CAM_FORMAT_YUV_422_NV61 \<Rightarrow> Some V4L2_PIX_FMT_NV61
      | CAM_FORMAT_YUV_RAW_8BIT_YUYV \<Rightarrow> Some V4L2_PIX_FMT_YUYV
      | CAM_FORMAT_YUV_RAW_8BIT_YVYU \<Rightarrow> Some V4L2_PIX_FMT_YVYU
      | CAM_FORMAT_YUV_RAW_8BIT_UYVY \<Rightarrow> Some V4L2_PIX_FMT_UYVY
      | CAM_FORMAT_YUV_RAW_8BIT_VYUY \<Rightarrow> Some V4L2_PIX_FMT_VYUY
      | CAM_FORMAT_YUV_420_YV12 \<Rightarrow> Some V4L2_PIX_FMT_NV12
      | CAM_FORMAT_YUV_422_NV16 \<Rightarrow> Some V4L2_PIX_FMT_NV16
      | _ \<Rightarrow> None)"

section \<open>Planes\<close>

text \<open>A plane as the code fills it in; the planes of a frame are written into the array in place.\<close>

definition plane :: "32 word \<Rightarrow> 32 word \<Rightarrow> 32 word \<Rightarrow> 32 word \<Rightarrow> 32 word \<Rightarrow> 32 word \<Rightarrow> 32 word \<Rightarrow> 32 word \<Rightarrow>
    cam_mp_len_offset" where
  "plane l off ox oy st sl w h =
     \<lparr>p_len = l, p_offset = off, p_offset_x = ox, p_offset_y = oy, p_stride = st, p_scanline = sl,
      p_width = w, p_height = h\<rparr>"

definition planes1 :: "cam_mp_len_offset \<Rightarrow> 32 word \<Rightarrow> cam_frame_len_offset \<Rightarrow> cam_frame_len_offset" where
  "planes1 a len p = p\<lparr>num_planes := 1, mp := (mp p)[0 := a], frame_len := len\<rparr>"

definition planes2 :: "cam_mp_len_offset \<Rightarrow> cam_mp_len_offset \<Rightarrow> 32 word \<Rightarrow>
    cam_frame_len_offset \<Rightarrow> cam_frame_len_offset" where
  "planes2 a b len p = p\<lparr>num_planes := 2, mp := (mp p)[0 := a, 1 := b], frame_len := len\<rparr>"

definition planes3 :: "cam_mp_len_offset \<Rightarrow> cam_mp_len_offset \<Rightarrow> cam_mp_len_offset \<Rightarrow>
    cam_frame_len_offset \<Rightarrow> cam_frame_len_offset" where
  "planes3 a b c p = p\<lparr>num_planes := 3, mp := (mp p)[0 := a, 1 := b, 2 := c],
     frame_len := PAD_TO_SIZE (p_len a + p_len b + p_len c) CAM_PAD_TO_4K\<rparr>"

text \<open>The length of a two-plane frame is that of its planes, padded to a page.\<close>

definition frame2 :: "cam_mp_len_offset \<Rightarrow> cam_mp_len_offset \<Rightarrow> cam_frame_len_offset \<Rightarrow> cam_frame_len_offset" where
  "frame2 a b = planes2 a b (PAD_TO_SIZE (p_len a + p_len b) CAM_PAD_TO_4K)"

text \<open>The formats that preview and postview lay out in the same way.\<close>

definition semi_planar :: "32 word \<Rightarrow> 32 word \<Rightarrow> cam_dimension \<Rightarrow> cam_frame_len_offset \<Rightarrow> cam_frame_len_offset" where
  "semi_planar pw ph dim =
     (let st = PAD_TO_SIZE (d_width dim) pw;
          sl = PAD_TO_SIZE (d_height dim) ph;
          sl' = PAD_TO_SIZE (int_div (d_height dim) 2) ph
      in frame2 (plane (st * sl) 0 0 0 st sl (d_width dim) (d_height dim))
           (plane (st * sl') 0 0 0 st sl' (d_width dim) (int_div (d_height dim) 2)))"

definition adreno :: "cam_dimension \<Rightarrow> cam_frame_len_offset \<Rightarrow> cam_frame_len_offset" where
  "adreno dim =
     (let st = PAD_TO_SIZE (d_width dim) 32;
          sl = PAD_TO_SIZE (d_height dim) 32;
          st' = PAD_TO_SIZE (int_div (d_width dim) 2) 32 * 2;
          sl' = PAD_TO_SIZE (int_div (d_height dim) 2) 32
      in frame2
           (plane (PAD_TO_SIZE (st * sl) CAM_PAD_TO_4K) 0 0 0 st sl (d_width dim) (d_height dim))
           (plane (PAD_TO_SIZE (st' * sl') CAM_PAD_TO_4K) 0 0 0 st' sl' (d_width dim)
              (int_div (d_height dim) 2)))"

definition yv12 :: "cam_dimension \<Rightarrow> cam_frame_len_offset \<Rightarrow> cam_frame_len_offset" where
  "yv12 dim =
     (let st = PAD_TO_SIZE (d_width dim) 16;
          sl = PAD_TO_SIZE (d_height dim) 2;
          st' = PAD_TO_SIZE (int_div st 2) 16;
          sl' = int_div sl 2;
          c = plane (st' * sl') 0 0 0 st' sl' (int_div (d_width dim) 2) (int_div (d_height dim) 2)
      in planes3 (plane (st * sl) 0 0 0 st sl (d_width dim) (d_height dim)) c c)"

definition nv16 :: "cam_dimension \<Rightarrow> cam_frame_len_offset \<Rightarrow> cam_frame_len_offset" where
  "nv16 dim =
     (let st = PAD_TO_SIZE (d_width dim) 16;
          a = plane (st * d_height dim) 0 0 0 st (d_height dim) (d_width dim) (d_height dim)
      in frame2 a a)"

definition venus_planes :: "venus \<Rightarrow> cam_dimension \<Rightarrow> cam_frame_len_offset \<Rightarrow> cam_frame_len_offset" where
  "venus_planes v dim =
     (let st = y_stride v (d_width dim);
          sl = y_scanlines v (d_height dim);
          total = buffer_size v (d_width dim) (d_height dim)
      in planes2 (plane (st * sl) 0 0 0 st sl (d_width dim) (d_height dim))
           (plane (total - st * sl) 0 0 0 (uv_stride v (d_width dim)) (uv_scanlines v (d_height dim))
              (d_width dim) (d_height dim))
           total)"

definition venus_format :: "build \<Rightarrow> cam_dimension \<Rightarrow> cam_frame_len_offset \<Rightarrow> int \<times> cam_frame_len_offset" where
  "venus_format B dim p =
     (case venus_present B of None \<Rightarrow> (- 1, p) | Some v \<Rightarrow> (0, venus_planes v dim p))"

section \<open>One function per stream type\<close>

definition calc_offset_preview :: "build \<Rightarrow> cam_stream_info \<Rightarrow> cam_dimension \<Rightarrow> cam_padding_info \<Rightarrow>
    cam_frame_len_offset \<Rightarrow> int \<times> cam_frame_len_offset" where
  "calc_offset_preview B si dim pad p =
     (let nv = (if si_type si \<noteq> CAM_STREAM_TYPE_OFFLINE_PROC then semi_planar 32 2 dim p
                else semi_planar (width_padding pad) (height_padding pad) dim p)
      in case si_fmt si of
           CAM_FORMAT_YUV_420_NV12 \<Rightarrow> (0, nv)
         | CAM_FORMAT_YUV_420_NV21 \<Rightarrow> (0, nv)
         | CAM_FORMAT_YUV_420_NV21_ADRENO \<Rightarrow> (0, adreno dim p)
         | CAM_FORMAT_YUV_420_YV12 \<Rightarrow> (0, yv12 dim p)
         | CAM_FORMAT_YUV_422_NV16 \<Rightarrow> (0, nv16 dim p)
         | CAM_FORMAT_YUV_422_NV61 \<Rightarrow> (0, nv16 dim p)
         | CAM_FORMAT_YUV_420_NV12_VENUS \<Rightarrow> venus_format B dim p
         | _ \<Rightarrow> (- 1, p))"

definition calc_offset_post_view :: "build \<Rightarrow> cam_format \<Rightarrow> cam_dimension \<Rightarrow>
    cam_frame_len_offset \<Rightarrow> int \<times> cam_frame_len_offset" where
  "calc_offset_post_view B fmt dim p =
     (case fmt of
        CAM_FORMAT_YUV_420_NV12 \<Rightarrow> (0, semi_planar 64 64 dim p)
      | CAM_FORMAT_YUV_420_NV21 \<Rightarrow> (0, semi_planar 64 64 dim p)
      | CAM_FORMAT_YUV_420_NV21_ADRENO \<Rightarrow> (0, adreno dim p)
      | CAM_FORMAT_YUV_420_YV12 \<Rightarrow> (0, yv12 dim p)
      | CAM_FORMAT_YUV_422_NV16 \<Rightarrow> (0, nv16 dim p)
      | CAM_FORMAT_YUV_422_NV61 \<Rightarrow> (0, nv16 dim p)
      | CAM_FORMAT_YUV_420_NV12_VENUS \<Rightarrow> venus_format B dim p
      | _ \<Rightarrow> (- 1, p))"

text \<open>
  Snapshot: the A family pads the height twice and moves the planes down by the padding. The chroma
  planes keep the stride and the offset of the luma plane.
\<close>

definition CAM_QCOM_FEATURE_ROTATION :: "32 word" where "CAM_QCOM_FEATURE_ROTATION = push_bit 3 1"
definition CAM_QCOM_FEATURE_TRUEPORTRAIT :: "32 word" where
  "CAM_QCOM_FEATURE_TRUEPORTRAIT = push_bit 17 1"

definition calc_offset_snapshot :: "build \<Rightarrow> cam_stream_info \<Rightarrow> cam_dimension \<Rightarrow> cam_padding_info \<Rightarrow>
    cam_frame_len_offset \<Rightarrow> int \<times> cam_frame_len_offset" where
  "calc_offset_snapshot B si dim pad p =
     (let w = d_width dim; h = d_height dim; pp = plane_padding pad;
          s0 = PAD_TO_SIZE h 16;
          ox = 0;
          oy = (if is_a_family B then s0 - h else 0);
          st = (if is_a_family B then w else PAD_TO_SIZE w (width_padding pad));
          sl = (if is_a_family B then s0 + oy else PAD_TO_SIZE h (height_padding pad));
          pl = (\<lambda>st sl w h. plane (PAD_TO_SIZE (st * sl) pp) (PAD_TO_SIZE (ox + st * oy) pp)
                  ox oy st sl w h);
          y = pl st sl w h;
          semi = (let c = pl st (int_div sl 2) w (int_div h 2)
                  in if feature_mask (reproc_pp si) AND CAM_QCOM_FEATURE_TRUEPORTRAIT \<noteq> 0
                     then planes2 y c (PAD_TO_SIZE (p_len y + p_len c + meta_max_size (reproc_pp si))
                            CAM_PAD_TO_4K) p
                     else frame2 y c p);
          planar = (let c = pl (PAD_TO_SIZE (int_div st 2) 16) (int_div sl 2) (int_div w 2) (int_div h 2)
                    in planes3 y c c p)
      in case si_fmt si of
           CAM_FORMAT_YUV_420_NV12 \<Rightarrow> (0, semi)
         | CAM_FORMAT_YUV_420_NV21 \<Rightarrow> (0, semi)
         | CAM_FORMAT_YUV_420_YV12 \<Rightarrow> (0, planar)
         | CAM_FORMAT_YUV_422_NV16 \<Rightarrow> (0, frame2 y y p)
         | CAM_FORMAT_YUV_422_NV61 \<Rightarrow> (0, frame2 y y p)
         | _ \<Rightarrow> (- 1, p))"

text \<open>Raw: one plane, whose length in bytes depends on how the pixels are packed.\<close>

definition raw_plane :: "32 word \<Rightarrow> 32 word \<Rightarrow> 32 word \<Rightarrow> 32 word \<Rightarrow>
    cam_frame_len_offset \<Rightarrow> int \<times> cam_frame_len_offset" where
  "raw_plane pp st sl bytes p =
     (let l = PAD_TO_SIZE bytes pp
      in (0, planes1 (plane l 0 0 0 st sl l 1) (PAD_TO_SIZE l CAM_PAD_TO_4K) p))"

definition calc_offset_raw :: "cam_format \<Rightarrow> cam_dimension \<Rightarrow> cam_padding_info \<Rightarrow>
    cam_frame_len_offset \<Rightarrow> int \<times> cam_frame_len_offset" where
  "calc_offset_raw fmt dim pad p =
     (let w = d_width dim; sl = d_height dim;
          raw = raw_plane (plane_padding pad);
          w16 = PAD_TO_SIZE w 16; w32 = PAD_TO_SIZE w 32; w8 = PAD_TO_SIZE w 8;
          w12 = int_div (w + 11) 12 * 12; w10 = int_div (w + 9) 10 * 10;
          mipi10 = PAD_TO_SIZE (int_div (w * 5) 4) 8;
          yuv = raw w16 sl (w16 * sl * 2) p;
          bpp8 = raw w16 sl (w16 * sl) p;
          qcom10 = raw w12 sl (int_div (w12 * sl * 8) 6) p;
          qcom12 = raw w10 sl (int_div (w10 * sl * 8) 5) p;
          packed10 = raw mipi10 sl (mipi10 * sl) p;
          packed12 = raw w32 sl (int_div (w32 * sl * 3) 2) p;
          plain16 = raw w8 sl (w8 * sl * 2) p
      in case fmt of
           CAM_FORMAT_YUV_RAW_8BIT_YUYV \<Rightarrow> yuv
         | CAM_FORMAT_YUV_RAW_8BIT_YVYU \<Rightarrow> yuv
         | CAM_FORMAT_YUV_RAW_8BIT_UYVY \<Rightarrow> yuv
         | CAM_FORMAT_YUV_RAW_8BIT_VYUY \<Rightarrow> yuv
         | CAM_FORMAT_JPEG_RAW_8BIT \<Rightarrow> yuv
         | CAM_FORMAT_META_RAW_8BIT \<Rightarrow> yuv
         | CAM_FORMAT_BAYER raw_fmt _ \<Rightarrow>
             (case raw_fmt of
                QCOM_RAW_8BPP \<Rightarrow> bpp8 | MIPI_RAW_8BPP \<Rightarrow> bpp8 | IDEAL_RAW_QCOM_8BPP \<Rightarrow> bpp8
              | IDEAL_RAW_MIPI_8BPP \<Rightarrow> bpp8 | IDEAL_RAW_PLAIN8_8BPP \<Rightarrow> bpp8
              | QCOM_RAW_10BPP \<Rightarrow> qcom10 | IDEAL_RAW_QCOM_10BPP \<Rightarrow> qcom10
              | QCOM_RAW_12BPP \<Rightarrow> qcom12 | IDEAL_RAW_QCOM_12BPP \<Rightarrow> qcom12
              | MIPI_RAW_10BPP \<Rightarrow> packed10 | IDEAL_RAW_MIPI_10BPP \<Rightarrow> packed10
              | MIPI_RAW_12BPP \<Rightarrow> packed12 | IDEAL_RAW_MIPI_12BPP \<Rightarrow> packed12
              | IDEAL_RAW_PLAIN16_8BPP \<Rightarrow> plain16 | IDEAL_RAW_PLAIN16_10BPP \<Rightarrow> plain16
              | IDEAL_RAW_PLAIN16_12BPP \<Rightarrow> plain16
              | _ \<Rightarrow> (- 1, p))
         | _ \<Rightarrow> (- 1, p))"

text \<open>Video, with Venus or without it; the latter writes the second plane's size into the first.\<close>

definition calc_offset_video :: "build \<Rightarrow> cam_dimension \<Rightarrow> cam_frame_len_offset \<Rightarrow> int \<times> cam_frame_len_offset" where
  "calc_offset_video B dim p =
     (case venus_present B of
        Some v \<Rightarrow> (0, venus_planes v dim p)
      | None \<Rightarrow>
          (let w = d_width dim; h = d_height dim; h' = int_div h 2;
               a = plane (PAD_TO_SIZE (w * h) CAM_PAD_TO_2K) 0 0 0 w h w h';
               old = mp p ! 1;
               b = plane (PAD_TO_SIZE (w * h') CAM_PAD_TO_2K) 0 0 0 w h' (p_width old) (p_height old)
           in (0, frame2 a b p)))"

definition calc_offset_metadata :: "cam_dimension \<Rightarrow> cam_padding_info \<Rightarrow>
    cam_frame_len_offset \<Rightarrow> int \<times> cam_frame_len_offset" where
  "calc_offset_metadata dim pad p =
     (let l = PAD_TO_SIZE (d_width dim * d_height dim) (plane_padding pad)
      in (0, planes1 (plane l 0 0 0 (d_width dim) (d_height dim) (d_width dim) (d_height dim)) l p))"

definition calc_offset_postproc :: "build \<Rightarrow> cam_stream_info \<Rightarrow> cam_padding_info \<Rightarrow>
    cam_frame_len_offset \<Rightarrow> int \<times> cam_frame_len_offset" where
  "calc_offset_postproc B si pad p =
     (let by_type = (\<lambda>ty. case ty of
            CAM_STREAM_TYPE_PREVIEW \<Rightarrow> calc_offset_preview B si (si_dim si) pad p
          | CAM_STREAM_TYPE_POSTVIEW \<Rightarrow> calc_offset_post_view B (si_fmt si) (si_dim si) p
          | CAM_STREAM_TYPE_SNAPSHOT \<Rightarrow> calc_offset_snapshot B si (si_dim si) pad p
          | CAM_STREAM_TYPE_VIDEO \<Rightarrow> calc_offset_video B (si_dim si) p
          | CAM_STREAM_TYPE_RAW \<Rightarrow> calc_offset_raw (si_fmt si) (si_dim si) pad p
          | CAM_STREAM_TYPE_METADATA \<Rightarrow> calc_offset_metadata (si_dim si) pad p
          | _ \<Rightarrow> (- 1, p))
      in case reproc_src si of
           Offline ty input_planes \<Rightarrow>
             if ty = CAM_STREAM_TYPE_DEFAULT then (0, if frame_len p = 0 then input_planes else p)
             else by_type ty
         | Online ty \<Rightarrow> by_type ty)"

text \<open>A stream rotated by a right angle, unless it is a video stream, has its sides exchanged.\<close>

definition rotated_dim :: "cam_stream_info \<Rightarrow> cam_dimension" where
  "rotated_dim si =
     (if feature_mask (pp_config si) AND CAM_QCOM_FEATURE_ROTATION \<noteq> 0 \<and>
         si_type si \<noteq> CAM_STREAM_TYPE_VIDEO \<and>
         (rotation (pp_config si) = ROTATE_90 \<or> rotation (pp_config si) = ROTATE_270)
      then \<lparr>d_width = d_height (si_dim si), d_height = d_width (si_dim si)\<rparr> else si_dim si)"

definition mm_stream_calc_offset :: "build \<Rightarrow> cam_padding_info \<Rightarrow> cam_stream_info \<Rightarrow>
    int \<times> cam_stream_info \<times> cam_frame_len_offset" where
  "mm_stream_calc_offset B pad si =
     (let dim = rotated_dim si; p = buf_planes si;
          (rc, p') =
            (case si_type si of
               CAM_STREAM_TYPE_PREVIEW \<Rightarrow> calc_offset_preview B si dim pad p
             | CAM_STREAM_TYPE_POSTVIEW \<Rightarrow> calc_offset_post_view B (si_fmt si) dim p
             | CAM_STREAM_TYPE_SNAPSHOT \<Rightarrow> calc_offset_snapshot B si dim pad p
             | CAM_STREAM_TYPE_OFFLINE_PROC \<Rightarrow> calc_offset_postproc B si pad p
             | CAM_STREAM_TYPE_VIDEO \<Rightarrow> calc_offset_video B dim p
             | CAM_STREAM_TYPE_RAW \<Rightarrow> calc_offset_raw (si_fmt si) dim pad p
             | CAM_STREAM_TYPE_METADATA \<Rightarrow> calc_offset_metadata dim pad p
             | _ \<Rightarrow> (- 1, p))
      in (rc, si\<lparr>buf_planes := p'\<rparr>, p'))"

end
