(* ===== verification/MM_Offset_Sound.thy ===== *)
theory MM_Offset_Sound
  imports MM_Offset
begin

text \<open>
  Why the layouts of \<open>MM_Offset\<close> can be trusted. Padding rounds up (\<open>pad_unat\<close>); for frames of up to
  8192 pixels a side no product or sum wraps around (\<open>area\<close>, \<open>packed\<close>); hence every plane has room
  for its lines and every frame for its planes (\<open>layout_ok\<close>), one lemma per stream type and one for
  all of them (\<open>calc_offset_sound\<close>). A rounding to at most 64 is a \<open>small_pad\<close>, one to at most a page
  a \<open>page_pad\<close>.
\<close>

section \<open>Padding and signed division\<close>

lemma and_not_mask_push: "x AND NOT (mask k) = push_bit k (drop_bit k x)" for x :: "'a::len word"
  by (rule bit_word_eqI) (auto simp: bit_simps)

lemma pad_unat:
  assumes "k < 32" and "unat s + 2 ^ k \<le> 2 ^ 32"
  shows "unat (PAD_TO_SIZE s (2 ^ k)) = (unat s + (2 ^ k - 1)) div 2 ^ k * 2 ^ k"
proof -
  have m: "(2 ^ k - 1 :: 32 word) = mask k" by (simp add: mask_eq_exp_minus_1)
  have um: "unat (mask k :: 32 word) = 2 ^ k - 1"
  proof -
    have "(2 :: nat) ^ k < 2 ^ 32" using assms(1) by (intro power_strict_increasing) simp_all
    then have "unat (of_nat (2 ^ k - 1) :: 32 word) = 2 ^ k - 1"
      by (simp add: unat_of_nat take_bit_nat_eq_self del: of_nat_diff)
    then show ?thesis by (simp add: mask_eq_exp_minus_1 of_nat_diff)
  qed
  have s: "unat (s + mask k) = unat s + (2 ^ k - 1)"
    using assms(2) by (subst unat_add_lem [THEN iffD1]) (auto simp: um)
  let ?n = "(unat s + (2 ^ k - 1)) div 2 ^ k * 2 ^ k"
  have "?n \<le> unat s + (2 ^ k - 1)" by simp
  moreover have "0 < (2 :: nat) ^ k" by simp
  ultimately have "?n < 2 ^ 32" using assms(2) by linarith
  then have "take_bit 32 ?n = ?n" by (simp add: take_bit_nat_eq_self)
  moreover have "unat (push_bit k (drop_bit k x)) = take_bit 32 (unat x div 2 ^ k * 2 ^ k)"
    for x :: "32 word"
    by (simp add: unsigned_push_bit_eq unat_drop_bit_eq flip: push_bit_eq_mult drop_bit_eq_div)
  ultimately show ?thesis by (simp only: PAD_TO_SIZE_def m and_not_mask_push s)
qed

lemma int_div_unat:
  assumes "unat a < 2 ^ 31" and "0 < n"
  shows "unat (int_div a (int n)) = unat a div n"
proof -
  have "sint a = signed_take_bit 31 (uint a)" by (simp add: sint_uint)
  moreover have "int m < 2 ^ 31" "- (2 ^ 31) \<le> int m" if "m < 2 ^ 31" for m :: nat
    using that by simp_all
  note this [OF assms(1)]
  ultimately have "sint a = int (unat a)" by (simp only: uint_nat signed_take_bit_int_eq_self)
  then have "sint a sdiv int n = int (unat a div n)" using assms(2)
    by (simp add: signed_divide_int_def sgn_if zdiv_int)
  moreover have "unat a div n < 2 ^ 32"
    by (rule le_less_trans [OF div_le_dividend less_trans [OF assms(1)]]) simp
  ultimately show ?thesis by (simp add: int_div_def unat_of_nat take_bit_nat_eq_self)
qed

text \<open>Bounds through the padding, products and quotients.\<close>

definition small_pad :: "32 word \<Rightarrow> bool" where
  "small_pad p \<longleftrightarrow> p \<in> {1, 2, 4, 8, 16, 32, 64}"

definition page_pad :: "32 word \<Rightarrow> bool" where
  "page_pad p \<longleftrightarrow> p \<in> {1, 2, 4, 8, 16, 32, 64, 128, 256, 512, 1024, 2048, 4096}"

lemma page_padE:
  assumes "page_pad p" obtains k where "p = 2 ^ k" "k \<le> 12"
proof -
  have "\<exists>k \<le> 12. p = 2 ^ k"
    using assms unfolding page_pad_def
    by (elim insertE emptyE; hypsubst)
      (rule exI [of _ 0], simp, rule exI [of _ 1], simp, rule exI [of _ 2], simp,
       rule exI [of _ 3], simp, rule exI [of _ 4], simp, rule exI [of _ 5], simp,
       rule exI [of _ 6], simp, rule exI [of _ 7], simp, rule exI [of _ 8], simp,
       rule exI [of _ 9], simp, rule exI [of _ 10], simp, rule exI [of _ 11], simp,
       rule exI [of _ 12], simp)
  then show thesis using that by blast
qed

lemma small_padE:
  assumes "small_pad p" obtains k where "p = 2 ^ k" "k \<le> 6"
proof -
  have "\<exists>k \<le> 6. p = 2 ^ k"
    using assms unfolding small_pad_def
    by (elim insertE emptyE; hypsubst)
      (rule exI [of _ 0], simp, rule exI [of _ 1], simp, rule exI [of _ 2], simp,
       rule exI [of _ 3], simp, rule exI [of _ 4], simp, rule exI [of _ 5], simp,
       rule exI [of _ 6], simp)
  then show thesis using that by blast
qed

lemma round_up: "0 < m \<Longrightarrow> n \<le> (n + (m - 1)) div m * m" for m n :: nat
proof -
  assume "0 < m"
  have "n + (m - 1) = (n + (m - 1)) div m * m + (n + (m - 1)) mod m" by simp
  moreover have "(n + (m - 1)) mod m < m" using \<open>0 < m\<close> by (rule mod_less_divisor)
  ultimately show ?thesis by linarith
qed

lemma pad_bounds:
  assumes "page_pad p" and "unat s \<le> B" and "B \<le> 2 ^ 31"
  shows "unat s \<le> unat (PAD_TO_SIZE s p)" and "unat (PAD_TO_SIZE s p) \<le> B + 4095"
proof -
  obtain k where k: "p = 2 ^ k" "k \<le> 12" using assms(1) by (rule page_padE)
  have "(2 :: nat) ^ k \<le> 2 ^ 12" using k(2) by (intro power_increasing) simp_all
  then have le: "(2 :: nat) ^ k \<le> 4096" by simp
  then have eq: "unat (PAD_TO_SIZE s p) = (unat s + (2 ^ k - 1)) div 2 ^ k * 2 ^ k"
    unfolding k(1) using k(2) assms(2,3) by (intro pad_unat) simp_all
  show "unat s \<le> unat (PAD_TO_SIZE s p)" unfolding eq by (rule round_up) simp
  have "(unat s + (2 ^ k - 1)) div 2 ^ k * 2 ^ k \<le> unat s + (2 ^ k - 1)" by simp
  then show "unat (PAD_TO_SIZE s p) \<le> B + 4095" unfolding eq using le assms(2) by linarith
qed

lemma small_page: "small_pad p \<Longrightarrow> page_pad p"
  by (auto simp: small_pad_def page_pad_def)

lemma pad_small:
  assumes "small_pad p" and "unat s \<le> B" and "B \<le> 2 ^ 31"
  shows "unat (PAD_TO_SIZE s p) \<le> B + 63"
proof -
  obtain k where k: "p = 2 ^ k" "k \<le> 6" using assms(1) by (rule small_padE)
  have "(2 :: nat) ^ k \<le> 2 ^ 6" using k(2) by (intro power_increasing) simp_all
  then have le: "(2 :: nat) ^ k \<le> 64" by simp
  then have "unat (PAD_TO_SIZE s p) = (unat s + (2 ^ k - 1)) div 2 ^ k * 2 ^ k"
    unfolding k(1) using k(2) assms(2,3) by (intro pad_unat) simp_all
  moreover have "(unat s + (2 ^ k - 1)) div 2 ^ k * 2 ^ k \<le> unat s + (2 ^ k - 1)" by simp
  ultimately show ?thesis using le assms(2) by linarith
qed

text \<open>What a layout must guarantee: each plane has room for its lines, and the frame for its planes.\<close>

definition roomy :: "cam_mp_len_offset \<Rightarrow> bool" where
  "roomy a \<longleftrightarrow> unat (p_stride a) * unat (p_scanline a) \<le> unat (p_len a)"

definition frame_planes :: "cam_frame_len_offset \<Rightarrow> cam_mp_len_offset list" where
  "frame_planes fo = take (unat (num_planes fo)) (mp fo)"

definition layout_ok :: "cam_frame_len_offset \<Rightarrow> bool" where
  "layout_ok fo \<longleftrightarrow> (\<forall>a \<in> set (frame_planes fo). roomy a) \<and>
     (\<Sum>a \<leftarrow> frame_planes fo. unat (p_len a)) \<le> unat (frame_len fo)"

definition good_plane :: "cam_mp_len_offset \<Rightarrow> bool" where
  "good_plane a \<longleftrightarrow> roomy a \<and> unat (p_len a) \<le> 2 ^ 29"

lemma page_4K [simp]: "page_pad 4096" and small_numerals [simp]:
  "small_pad 2" "small_pad 8" "small_pad 16" "small_pad 32" "small_pad 64" and page_2K [simp]: "page_pad 2048"
  by (simp_all add: page_pad_def small_pad_def)

lemma unat_add_small:
  "unat a \<le> A \<Longrightarrow> unat b \<le> B \<Longrightarrow> A + B < 2 ^ 32 \<Longrightarrow> unat (a + b) = unat a + unat b" for a b :: "32 word"
  by (subst unat_add_lem [THEN iffD1]) auto

lemma mp3: "3 \<le> length xs \<Longrightarrow> \<exists>a b c ys. xs = a # b # c # ys"
  by (metis Suc_le_length_iff numeral_3_eq_3)

lemma planes1_ok:
  "roomy a \<Longrightarrow> unat (p_len a) \<le> unat l \<Longrightarrow> 3 \<le> length (mp p) \<Longrightarrow> layout_ok (planes1 a l p)"
  by (drule mp3) (auto simp: planes1_def layout_ok_def frame_planes_def)

lemma planes2_ok:
  "roomy a \<Longrightarrow> roomy b \<Longrightarrow> unat (p_len a) + unat (p_len b) \<le> unat l \<Longrightarrow> 3 \<le> length (mp p) \<Longrightarrow>
   layout_ok (planes2 a b l p)"
  by (drule mp3) (auto simp: planes2_def layout_ok_def frame_planes_def)

lemma frame2_ok:
  assumes "good_plane a" and "good_plane b" and "3 \<le> length (mp p)"
  shows "layout_ok (frame2 a b p)"
proof -
  have s: "unat (p_len a + p_len b) = unat (p_len a) + unat (p_len b)"
    using assms by (intro unat_add_small [of _ "2 ^ 29" _ "2 ^ 29"]) (auto simp: good_plane_def)
  then have "unat (p_len a + p_len b) \<le> unat (PAD_TO_SIZE (p_len a + p_len b) 4096)"
    using assms by (intro pad_bounds(1) [of _ _ "2 ^ 30"]) (auto simp: good_plane_def)
  then show ?thesis
    using assms s by (auto simp: frame2_def good_plane_def intro!: planes2_ok)
qed

lemma planes3_ok:
  assumes "good_plane a" and "good_plane b" and "good_plane c" and "3 \<le> length (mp p)"
  shows "layout_ok (planes3 a b c p)"
proof -
  have s: "unat (p_len a + p_len b) = unat (p_len a) + unat (p_len b)"
    using assms by (intro unat_add_small [of _ "2 ^ 29" _ "2 ^ 29"]) (auto simp: good_plane_def)
  then have t: "unat (p_len a + p_len b + p_len c) = unat (p_len a) + unat (p_len b) + unat (p_len c)"
    using assms by (subst unat_add_small [of _ "2 ^ 30" _ "2 ^ 29"]) (auto simp: good_plane_def)
  then have "unat (p_len a + p_len b + p_len c) \<le> unat (PAD_TO_SIZE (p_len a + p_len b + p_len c) 4096)"
    using assms by (intro pad_bounds(1) [of _ _ "2 ^ 31"]) (auto simp: good_plane_def)
  then show ?thesis
    using assms(1-3) t mp3 [OF assms(4)]
    by (auto simp: planes3_def layout_ok_def frame_planes_def good_plane_def)
qed

definition side :: "32 word \<Rightarrow> bool" where "side x \<longleftrightarrow> unat x \<le> 20000"

lemma area:
  assumes "side a" and "side b"
  shows "unat (a * b) = unat a * unat b" and "unat (a * b) \<le> 400000000"
proof -
  have le: "unat a * unat b \<le> 20000 * 20000" using assms unfolding side_def by (intro mult_mono) auto
  then have "unat a * unat b < 2 ^ 32" by (rule le_less_trans) simp
  then show eq: "unat (a * b) = unat a * unat b" by (simp add: unat_mult_lem [THEN iffD1])
  show "unat (a * b) \<le> 400000000" unfolding eq using le by simp
qed

lemma plane_simps [simp]:
  "p_len (plane l off ox oy st sl w h) = l" "p_stride (plane l off ox oy st sl w h) = st"
  "p_scanline (plane l off ox oy st sl w h) = sl"
  by (simp_all add: plane_def)

lemma good_plain: "side st \<Longrightarrow> side sl \<Longrightarrow> good_plane (plane (st * sl) off ox oy st sl w h)"
  using area [of st sl] by (simp add: good_plane_def roomy_def)

lemma good_padded:
  assumes "side st" and "side sl" and "page_pad p"
  shows "good_plane (plane (PAD_TO_SIZE (st * sl) p) off ox oy st sl w h)"
  using area [OF assms(1,2)] pad_bounds [OF assms(3) area(2) [OF assms(1,2)]]
  by (simp add: good_plane_def roomy_def)

text \<open>The sides of a plane.\<close>

definition good_dim :: "cam_dimension \<Rightarrow> bool" where
  "good_dim d \<longleftrightarrow> unat (d_width d) \<le> 8192 \<and> unat (d_height d) \<le> 8192"

lemma side_le: "unat x \<le> B \<Longrightarrow> B \<le> 20000 \<Longrightarrow> side x"
  by (simp add: side_def)

lemma side_pad: "unat x \<le> 16000 \<Longrightarrow> small_pad p \<Longrightarrow> side (PAD_TO_SIZE x p)"
  using pad_small [of p x 16000] by (simp add: side_def)

lemma div2_le: "unat x \<le> B \<Longrightarrow> B < 2 ^ 31 \<Longrightarrow> unat (int_div x 2) \<le> B div 2"
  using int_div_unat [of x 2] by (simp add: div_le_mono)

section \<open>The formats\<close>

lemma dim_sides:
  assumes "good_dim d"
  shows "unat (d_width d) \<le> 16000" "unat (d_height d) \<le> 16000" "side (d_width d)" "side (d_height d)"
    "unat (int_div (d_width d) 2) \<le> 4096" "unat (int_div (d_height d) 2) \<le> 4096"
  using assms div2_le [of "d_width d" 8192] div2_le [of "d_height d" 8192]
  by (auto simp: good_dim_def side_def)

lemma semi_planar_ok:
  assumes "good_dim d" and "small_pad pw" and "small_pad ph" and "3 \<le> length (mp p)"
  shows "layout_ok (semi_planar pw ph d p)"
  using assms dim_sides [OF assms(1)] unfolding semi_planar_def Let_def
  by (intro frame2_ok good_plain side_pad) auto

lemma adreno_ok:
  assumes "good_dim d" and "3 \<le> length (mp p)"
  shows "layout_ok (adreno d p)"
proof -
  note s = dim_sides [OF assms(1)]
  have "unat (PAD_TO_SIZE (int_div (d_width d) 2) 32) \<le> 4096 + 63" using s by (intro pad_small) auto
  then have "unat (PAD_TO_SIZE (int_div (d_width d) 2) 32 * 2) \<le> 16384"
    by (subst unat_mult_lem [THEN iffD1]) auto
  then show ?thesis using assms s unfolding adreno_def Let_def
    by (intro frame2_ok good_padded side_pad) (auto simp: side_def)
qed

lemma yv12_ok:
  assumes "good_dim d" and "3 \<le> length (mp p)"
  shows "layout_ok (yv12 d p)"
proof -
  note s = dim_sides [OF assms(1)]
  have st: "unat (PAD_TO_SIZE (d_width d) 16) \<le> 8192 + 63" "unat (PAD_TO_SIZE (d_height d) 2) \<le> 8192 + 63"
    using assms(1) pad_small [of 16 "d_width d" 8192] pad_small [of 2 "d_height d" 8192]
    by (simp_all add: good_dim_def)
  have "unat (int_div (PAD_TO_SIZE (d_width d) 16) 2) \<le> 16000"
    "unat (int_div (PAD_TO_SIZE (d_height d) 2) 2) \<le> 16000"
    using div2_le [OF st(1)] div2_le [OF st(2)] by simp_all
  then show ?thesis using assms s unfolding yv12_def Let_def
    by (intro planes3_ok good_plain side_pad) (auto simp: side_def)
qed

lemma nv16_ok: "good_dim d \<Longrightarrow> 3 \<le> length (mp p) \<Longrightarrow> layout_ok (nv16 d p)"
  using dim_sides [of d] unfolding nv16_def Let_def
  by (intro frame2_ok good_plain side_pad) auto

text \<open>The contract of the Venus macros: a buffer holds both planes.\<close>

definition venus_ok :: "venus \<Rightarrow> bool" where
  "venus_ok v \<longleftrightarrow> (\<forall>d. good_dim d \<longrightarrow>
     side (y_stride v (d_width d)) \<and> side (y_scanlines v (d_height d)) \<and>
     unat (y_stride v (d_width d)) * unat (y_scanlines v (d_height d)) +
       unat (uv_stride v (d_width d)) * unat (uv_scanlines v (d_height d))
     \<le> unat (buffer_size v (d_width d) (d_height d)))"

lemma venus_planes_ok:
  assumes "venus_ok v" and "good_dim d" and "3 \<le> length (mp p)"
  shows "layout_ok (venus_planes v d p)"
proof -
  let ?a = "y_stride v (d_width d) * y_scanlines v (d_height d)"
  let ?t = "buffer_size v (d_width d) (d_height d)"
  have v: "side (y_stride v (d_width d))" "side (y_scanlines v (d_height d))"
    "unat (y_stride v (d_width d)) * unat (y_scanlines v (d_height d)) +
       unat (uv_stride v (d_width d)) * unat (uv_scanlines v (d_height d)) \<le> unat ?t"
    using assms by (auto simp: venus_ok_def)
  note a = area [OF v(1,2)]
  then have "?a \<le> ?t" using v(3) by (simp add: word_le_nat_alt)
  then have "unat (?t - ?a) = unat ?t - unat ?a" by (rule unat_sub)
  then show ?thesis using a v assms(3) unfolding venus_planes_def Let_def
    by (intro planes2_ok) (auto simp: roomy_def)
qed

lemma preview_ok:
  assumes "calc_offset_preview B si d pad p = (0, p')" and "good_dim d" and "3 \<le> length (mp p)"
    and "small_pad (width_padding pad)" and "small_pad (height_padding pad)"
    and "\<And>v. venus_present B = Some v \<Longrightarrow> venus_ok v"
  shows "layout_ok p'"
  using assms semi_planar_ok adreno_ok yv12_ok nv16_ok venus_planes_ok
  by (auto simp: calc_offset_preview_def Let_def venus_format_def
      split: cam_format.splits if_splits option.splits)

lemma post_view_ok:
  assumes "calc_offset_post_view B fmt d p = (0, p')" and "good_dim d" and "3 \<le> length (mp p)"
    and "\<And>v. venus_present B = Some v \<Longrightarrow> venus_ok v"
  shows "layout_ok p'"
  using assms semi_planar_ok adreno_ok yv12_ok nv16_ok venus_planes_ok
  by (auto simp: calc_offset_post_view_def venus_format_def
      split: cam_format.splits option.splits)

lemma metadata_ok:
  assumes "good_dim d" and "page_pad (plane_padding pad)" and "3 \<le> length (mp p)"
  shows "layout_ok (snd (calc_offset_metadata d pad p))"
  using good_padded [OF dim_sides(3) [OF assms(1)] dim_sides(4) [OF assms(1)] assms(2)] assms(3)
  by (auto simp: calc_offset_metadata_def Let_def good_plane_def intro!: planes1_ok)

lemma video_ok:
  assumes "calc_offset_video B d p = (0, p')" and "good_dim d" and "3 \<le> length (mp p)"
    and "\<And>v. venus_present B = Some v \<Longrightarrow> venus_ok v"
  shows "layout_ok p'"
proof -
  have "side (int_div (d_height d) 2)" using dim_sides(6) [OF assms(2)] by (simp add: side_def)
  then show ?thesis
    using assms dim_sides [OF assms(2)] venus_planes_ok
    by (auto simp: calc_offset_video_def Let_def split: option.splits intro!: frame2_ok good_padded)
qed

lemma raw_plane_ok:
  assumes "raw_plane pp st sl bytes p = (0, p')" and "page_pad pp" and "3 \<le> length (mp p)"
    and "unat st * unat sl \<le> unat bytes" and "unat bytes \<le> 2 ^ 30"
  shows "layout_ok p'"
proof -
  let ?l = "PAD_TO_SIZE bytes pp"
  note b = pad_bounds [OF assms(2,5)]
  then have "unat ?l \<le> unat (PAD_TO_SIZE ?l 4096)" by (intro pad_bounds(1) [of _ _ "2 ^ 31"]) simp_all
  then show ?thesis using assms b by (auto simp: raw_plane_def Let_def roomy_def intro!: planes1_ok)
qed

text \<open>\<open>m\<close> bytes for \<open>n\<close> pixels.\<close>

lemma packed:
  assumes "unat st \<le> 8255" and "unat sl \<le> 8192" and "0 < n" and "n \<le> m" and "m \<le> 8"
  shows "unat st * unat sl \<le> unat (int_div (st * sl * of_nat m) (int n))"
    and "unat (int_div (st * sl * of_nat m) (int n)) \<le> 2 ^ 30"
proof -
  have sides: "side st" "side sl" using assms(1,2) by (simp_all add: side_def)
  have "unat st * unat sl * m \<le> 8255 * 8192 * 8" using assms(1,2,5) by (intro mult_le_mono)
  moreover have um: "unat (of_nat m :: 32 word) = m"
    using assms(5) by (simp add: unat_of_nat take_bit_nat_eq_self)
  ultimately have "unat (st * sl * of_nat m) = unat st * unat sl * m"
    using area(1) [OF sides] by (subst unat_mult_lem [THEN iffD1]) simp_all
  moreover note le = this \<open>unat st * unat sl * m \<le> 8255 * 8192 * 8\<close>
  ultimately have d: "unat (int_div (st * sl * of_nat m) (int n)) = unat st * unat sl * m div n"
    using assms(3) by (subst int_div_unat) simp_all
  have "unat st * unat sl * n div n \<le> unat st * unat sl * m div n"
    using assms(4) by (intro div_le_mono mult_le_mono2)
  then show "unat st * unat sl \<le> unat (int_div (st * sl * of_nat m) (int n))"
    using assms(3) d by simp
  have "unat st * unat sl * m div n \<le> 2 ^ 30"
    by (rule order.trans [OF div_le_dividend order.trans [OF le(2)]]) simp
  then show "unat (int_div (st * sl * of_nat m) (int n)) \<le> 2 ^ 30" using d by simp
qed

lemma doubled:
  fixes st sl :: "32 word"
  assumes "unat st \<le> 8255" and "unat sl \<le> 8192"
  shows "unat st * unat sl \<le> unat (st * sl * 2)" and "unat (st * sl * 2) \<le> 2 ^ 30"
proof -
  have sides: "side st" "side sl" using assms(1,2) by (simp_all add: side_def)
  have e: "unat (st * sl * 2) = unat (st * sl) * 2"
    using area(2) [OF sides] by (subst unat_mult_lem [THEN iffD1]) simp_all
  have "unat (st * sl) * 2 \<le> 400000000 * 2" by (intro mult_le_mono1 area(2) sides)
  then show "unat st * unat sl \<le> unat (st * sl * 2)" "unat (st * sl * 2) \<le> 2 ^ 30"
    unfolding e using area(1) [OF sides] by simp_all
qed

lemma multiple:
  assumes "unat w \<le> 8192" and "0 < n" and "n \<le> 12"
  shows "unat (int_div (w + of_nat (n - 1)) (int n) * of_nat n) \<le> 8255"
proof -
  have un: "unat (of_nat k :: 32 word) = k" if "k \<le> 12" for k
    using that by (simp add: unat_of_nat take_bit_nat_eq_self)
  have "unat (w + of_nat (n - 1)) = unat w + (n - 1)"
    using assms un [of "n - 1"] by (subst unat_add_small [of _ 8192 _ 12]) simp_all
  then have d: "unat (int_div (w + of_nat (n - 1)) (int n)) = (unat w + (n - 1)) div n"
    using assms by (subst int_div_unat) simp_all
  have "(unat w + (n - 1)) div n * n \<le> unat w + (n - 1)" by simp
  then have le: "(unat w + (n - 1)) div n * n \<le> 8255" using assms by linarith
  then show ?thesis using d un [OF assms(3)] by (subst unat_mult_lem [THEN iffD1]) simp_all
qed

lemma mipi10_le:
  assumes "unat w \<le> 8192"
  shows "side (PAD_TO_SIZE (int_div (w * 5) 4) 8)"
proof -
  have "unat (w * 5) = unat w * 5" using assms by (subst unat_mult_lem [THEN iffD1]) simp_all
  then have "unat (int_div (w * 5) 4) \<le> 16000"
    using assms int_div_unat [of "w * 5" 4] by simp
  then show ?thesis by (rule side_pad) simp
qed

lemma raw_ok:
  assumes "calc_offset_raw fmt d pad p = (0, p')" and "good_dim d" and "page_pad (plane_padding pad)"
    and "3 \<le> length (mp p)"
  shows "layout_ok p'"
proof -
  have wh: "unat (d_width d) \<le> 8192" "unat (d_height d) \<le> 8192" using assms(2) by (simp_all add: good_dim_def)
  have w: "unat (PAD_TO_SIZE (d_width d) q) \<le> 8255" if "small_pad q" for q
    using pad_small [OF that wh(1)] by simp
  note two = doubled [OF w wh(2)]
  have one: "unat (PAD_TO_SIZE (d_width d) 16) * unat (d_height d) \<le> unat (PAD_TO_SIZE (d_width d) 16 * d_height d)"
    "unat (PAD_TO_SIZE (d_width d) 16 * d_height d) \<le> 2 ^ 30"
    using area [OF side_pad dim_sides(4) [OF assms(2)], of "d_width d" 16] wh by simp_all
  have mipi: "unat (PAD_TO_SIZE (int_div (d_width d * 5) 4) 8) * unat (d_height d) \<le>
      unat (PAD_TO_SIZE (int_div (d_width d * 5) 4) 8 * d_height d)"
    "unat (PAD_TO_SIZE (int_div (d_width d * 5) 4) 8 * d_height d) \<le> 2 ^ 30"
    using area [OF mipi10_le [OF wh(1)] dim_sides(4) [OF assms(2)]] by simp_all
  have m12: "unat (int_div (d_width d + 11) 12 * 12) \<le> 8255"
    and m10: "unat (int_div (d_width d + 9) 10 * 10) \<le> 8255"
    using multiple [OF wh(1), of 12] multiple [OF wh(1), of 10] by simp_all
  note q10 = packed [OF m12 wh(2), of 6 8, simplified]
  note q12 = packed [OF m10 wh(2), of 5 8, simplified]
  note p12 = packed [OF w wh(2), of 32 2 3, simplified]
  note ok = raw_plane_ok [OF _ assms(3,4)]
  show ?thesis
    using assms(1) unfolding calc_offset_raw_def Let_def
    by (auto split: cam_format.splits bayer_raw.splits
        elim!: ok intro: one mipi two q10 q12 p12 simp del: One_nat_def)
qed

lemma snapshot_ok:
  assumes "calc_offset_snapshot B si d pad p = (0, p')" and "good_dim d" and "3 \<le> length (mp p)"
    and "small_pad (width_padding pad)" and "small_pad (height_padding pad)"
    and "page_pad (plane_padding pad)" and "unat (meta_max_size (reproc_pp si)) \<le> 2 ^ 29"
  shows "layout_ok p'"
proof -
  let ?w = "d_width d" and ?h = "d_height d" and ?pp = "plane_padding pad"
  let ?s0 = "PAD_TO_SIZE ?h 16"
  have wh: "unat ?w \<le> 8192" "unat ?h \<le> 8192" using assms(2) by (simp_all add: good_dim_def)
  define oy where "oy = (if is_a_family B then ?s0 - ?h else 0)"
  define st where "st = (if is_a_family B then ?w else PAD_TO_SIZE ?w (width_padding pad))"
  define sl where "sl = (if is_a_family B then ?s0 + oy else PAD_TO_SIZE ?h (height_padding pad))"
  have st: "unat st \<le> 8255" using wh pad_small [OF assms(4) wh(1)] by (simp add: st_def)
  have s0: "unat ?s0 \<le> 8255" using pad_small [of 16, OF _ wh(2)] by simp
  have "unat ?h \<le> unat ?s0" by (rule pad_bounds(1) [OF _ wh(2)]) (simp_all add: small_page)
  then have "unat (?s0 - ?h) = unat ?s0 - unat ?h" by (intro unat_sub) (simp add: word_le_nat_alt)
  moreover have "unat ?s0 - unat ?h \<le> 8255" using s0 by linarith
  ultimately have oy: "unat oy \<le> 8255" by (simp add: oy_def)
  then have "unat (?s0 + oy) \<le> 20000" using s0 unat_add_small [OF s0 oy] by simp
  then have sl: "unat sl \<le> 20000" using pad_small [OF assms(5) wh(2)] by (simp add: sl_def)
  have sides: "side st" "side sl" "side (int_div sl 2)" "side (PAD_TO_SIZE (int_div st 2) 16)"
    using st sl div2_le [OF sl] div2_le [OF st] by (auto simp: side_def [of st] side_def [of sl] intro!: side_pad intro: side_le)
  define pl where "pl = (\<lambda>st sl w h. plane (PAD_TO_SIZE (st * sl) ?pp) (PAD_TO_SIZE (0 + st * oy) ?pp) 0 oy st sl w h)"
  have good: "good_plane (pl a b w h)" if "side a" "side b" for a b w h
    unfolding pl_def using that assms(6) by (rule good_padded)
  note y = good [OF sides(1,2)] and c = good [OF sides(1,3)] and c3 = good [OF sides(4,3)]
  have tp: "layout_ok (planes2 (pl st sl ?w ?h) (pl st (int_div sl 2) ?w (int_div ?h 2))
      (PAD_TO_SIZE (p_len (pl st sl ?w ?h) + p_len (pl st (int_div sl 2) ?w (int_div ?h 2)) +
         meta_max_size (reproc_pp si)) 4096) p)" (is "layout_ok (planes2 ?y ?c ?l p)")
  proof -
    have ly: "unat (p_len ?y) \<le> 2 ^ 29" and lc: "unat (p_len ?c) \<le> 2 ^ 29"
      using y c by (simp_all add: good_plane_def)
    have e: "unat (p_len ?y + p_len ?c) = unat (p_len ?y) + unat (p_len ?c)"
      using ly lc by (rule unat_add_small) simp
    then have l2: "unat (p_len ?y + p_len ?c) \<le> 2 ^ 30" using ly lc by simp
    have e3: "unat (p_len ?y + p_len ?c + meta_max_size (reproc_pp si)) =
        unat (p_len ?y) + unat (p_len ?c) + unat (meta_max_size (reproc_pp si))"
      using unat_add_small [OF l2 assms(7)] e by simp
    moreover have "unat (p_len ?y + p_len ?c + meta_max_size (reproc_pp si)) \<le> unat ?l"
      using ly lc assms(7) e3 by (intro pad_bounds(1) [of _ _ "2 ^ 31"]) simp_all
    ultimately show ?thesis using y c assms(3) by (intro planes2_ok) (auto simp: good_plane_def)
  qed
  show ?thesis
    using assms(1) unfolding calc_offset_snapshot_def Let_def
    unfolding oy_def [symmetric] unfolding st_def [symmetric] sl_def [symmetric]
    using tp frame2_ok [OF y c assms(3)] frame2_ok [OF y y assms(3)] planes3_ok [OF y c3 c3 assms(3)]
    by (auto simp: pl_def split: cam_format.splits if_splits)
qed

text \<open>The whole: whatever the stream type, a layout that is computed without an error is sound.\<close>

definition good_config :: "build \<Rightarrow> cam_padding_info \<Rightarrow> cam_stream_info \<Rightarrow> bool" where
  "good_config B pad si \<longleftrightarrow> good_dim (si_dim si) \<and>
     small_pad (width_padding pad) \<and> small_pad (height_padding pad) \<and> page_pad (plane_padding pad) \<and>
     unat (meta_max_size (reproc_pp si)) \<le> 2 ^ 29 \<and> 3 \<le> length (mp (buf_planes si)) \<and>
     (\<forall>v. venus_present B = Some v \<longrightarrow> venus_ok v) \<and>
     (\<forall>ip. reproc_src si \<noteq> Offline CAM_STREAM_TYPE_DEFAULT ip)"

lemma postproc_ok:
  assumes "calc_offset_postproc B si pad p = (0, p')" and "good_config B pad si" and "3 \<le> length (mp p)"
  shows "layout_ok p'"
  using assms preview_ok [of B si "si_dim si" pad p p'] post_view_ok [of B "si_fmt si" "si_dim si" p p']
    snapshot_ok [of B si "si_dim si" pad p p'] video_ok [of B "si_dim si" p p']
    raw_ok [of "si_fmt si" "si_dim si" pad p p'] metadata_ok [of "si_dim si" pad p]
  by (auto simp: calc_offset_postproc_def Let_def good_config_def
      split: cam_reproc_src.splits cam_stream_type.splits if_splits)

lemma rotated_good: "good_dim (si_dim si) \<Longrightarrow> good_dim (rotated_dim si)"
  by (simp add: rotated_dim_def good_dim_def)

lemma calc_offset_sound:
  assumes "mm_stream_calc_offset B pad si = (0, si', fo)" and "good_config B pad si"
  shows "layout_ok fo \<and> buf_planes si' = fo"
proof -
  let ?d = "rotated_dim si" and ?p = "buf_planes si"
  have d: "good_dim ?d" using assms(2) by (intro rotated_good) (simp add: good_config_def)
  have "layout_ok fo"
    using assms d preview_ok [of B si ?d pad ?p fo] post_view_ok [of B "si_fmt si" ?d ?p fo]
      snapshot_ok [of B si ?d pad ?p fo] video_ok [of B ?d ?p fo] postproc_ok [of B si pad ?p fo]
      raw_ok [of "si_fmt si" ?d pad ?p fo] metadata_ok [of ?d pad ?p]
    unfolding mm_stream_calc_offset_def Let_def good_config_def
    by (cases "si_type si") (auto split: prod.splits)
  moreover have "buf_planes si' = fo"
    using assms(1) by (auto simp: mm_stream_calc_offset_def Let_def split: prod.splits)
  ultimately show ?thesis by simp
qed

end
