(* ===== verification/MM_Superbuf.thy ===== *)
theory MM_Superbuf
  imports Cam_Types
begin

text \<open>
  The superbuffer queue of a channel (\<open>mm_camera_channel.c\<close>): the frames of the bundled streams are
  matched by frame index, and a complete set is delivered as one superbuffer. The queue is the list
  of its nodes, a pointer into it an index; \<open>cam_list.h\<close>'s links are the subject of \<open>Cam_Queue\<close>.

  Giving a buffer back to its stream is \<open>mm_channel_qbuf\<close>, which changes the streams and not the
  queue. The operations here take it as \<open>qb\<close> and thread the streams' state \<open>s\<close> through; the channel
  supplies its own (theory \<open>MM_Channel\<close>).
\<close>

section \<open>Data\<close>

record mm_camera_buf_info =
  bi_stream_id :: "32 word"
  bi_frame_idx :: "32 word"
  bi_buf :: "mm_camera_buf_def option"

record mm_channel_queue_node =
  num_of_bufs :: nat
  super_buf :: "mm_camera_buf_info list"
  matched :: bool
  n_frame_idx :: "32 word"

record mm_channel_queue =
  que :: "mm_channel_queue_node list"
  que_size :: "32 word"
  num_streams :: nat
  bundled_streams :: "32 word list"
  attr :: mm_camera_channel_attr
  expected_frame_id :: "32 word"
  match_cnt :: "32 word"
  expected_frame_id_without_led :: "32 word"

text \<open>The slots after \<open>memset\<close>.\<close>

definition no_buf :: mm_camera_buf_info where
  "no_buf = \<lparr>bi_stream_id = 0, bi_frame_idx = 0, bi_buf = None\<rparr>"

text \<open>
  The buffers a loop over the slots gives back: the slots with a frame index, or the ones with a
  buffer, as the loop tests.
\<close>

definition slots :: "mm_channel_queue_node \<Rightarrow> mm_camera_buf_info list" where
  "slots sb = take (num_of_bufs sb) (super_buf sb)"

definition used_bufs :: "mm_channel_queue_node \<Rightarrow> mm_camera_buf_def list" where
  "used_bufs sb = List.map_filter bi_buf (filter (\<lambda>b. bi_frame_idx b \<noteq> 0) (slots sb))"

definition held_bufs :: "mm_channel_queue_node \<Rightarrow> mm_camera_buf_def list" where
  "held_bufs sb = List.map_filter bi_buf (slots sb)"

definition give_back :: "(mm_camera_buf_def \<Rightarrow> 's \<Rightarrow> 's) \<Rightarrow> mm_camera_buf_info \<Rightarrow> 's \<Rightarrow> 's" where
  "give_back qb b s = (case bi_buf b of None \<Rightarrow> s | Some d \<Rightarrow> qb d s)"

section \<open>Matching\<close>

definition seq_comp_w_rollover :: "32 word \<Rightarrow> 32 word \<Rightarrow> int" where
  "seq_comp_w_rollover v1 v2 = (if v2 < v1 then 1 else if v1 < v2 then - 1 else 0)"

text \<open>
  The scan for an unmatched node of the frame: its index if there is one; the count of unmatched
  nodes passed, a \<open>uint8_t\<close>; the first of them that is older and the first that is newer.
\<close>

fun scan :: "32 word \<Rightarrow> mm_channel_queue_node list \<Rightarrow> nat \<Rightarrow>
    8 word \<times> nat option \<times> nat option \<Rightarrow> nat option \<times> 8 word \<times> nat option \<times> nat option" where
  "scan f [] pos (unmatched, last_buf, insert_before) = (None, unmatched, last_buf, insert_before)"
| "scan f (sb # q) pos (unmatched, last_buf, insert_before) =
     (if matched sb then scan f q (Suc pos) (unmatched, last_buf, insert_before)
      else if f = n_frame_idx sb then (Some pos, unmatched, last_buf, insert_before)
      else scan f q (Suc pos) (unmatched + 1,
        if last_buf = None \<and> n_frame_idx sb < f then Some pos else last_buf,
        if insert_before = None \<and> f < n_frame_idx sb then Some pos else insert_before))"

definition fill_slot :: "nat \<Rightarrow> mm_camera_buf_info \<Rightarrow> mm_channel_queue_node \<Rightarrow> mm_channel_queue_node" where
  "fill_slot i b sb =
     (let sb' = sb\<lparr>super_buf := (super_buf sb)[i := b]\<rparr>
      in sb'\<lparr>matched := list_all (\<lambda>x. bi_frame_idx x \<noteq> 0) (slots sb')\<rparr>)"

definition new_node :: "mm_channel_queue \<Rightarrow> nat \<Rightarrow> mm_camera_buf_info \<Rightarrow> mm_channel_queue_node" where
  "new_node q i b =
     \<lparr>num_of_bufs = num_streams q,
      super_buf = (replicate MAX_STREAM_NUM_IN_BUNDLE no_buf)[i := b],
      matched = num_streams q = 1, n_frame_idx = bi_frame_idx b\<rparr>"

definition next_expected :: "mm_channel_queue \<Rightarrow> mm_camera_buf_info \<Rightarrow> 32 word" where
  "next_expected q b = bi_frame_idx b + ucast (post_frame_skip (attr q))"

text \<open>
  The frame completes or extends the node at \<open>pos\<close>. A completed node moves the expected frame and
  releases everything from the first older unmatched node up to it. \<open>led\<close> is the channel's
  \<open>isFlashBracketingEnabled\<close>.
\<close>

definition match_node :: "(mm_camera_buf_def \<Rightarrow> 's \<Rightarrow> 's) \<Rightarrow> nat \<Rightarrow> nat option \<Rightarrow> nat \<Rightarrow>
    mm_camera_buf_info \<Rightarrow> mm_channel_queue \<times> bool \<times> 's \<Rightarrow> mm_channel_queue \<times> bool \<times> 's" where
  "match_node qb pos last_buf i b = (\<lambda>(q, led, s).
     let sb = fill_slot i b (que q ! pos); xs = (que q)[pos := sb] in
     if \<not> matched sb then (q\<lparr>que := xs\<rparr>, led, s)
     else
       let q1 = q\<lparr>que := xs, match_cnt := match_cnt q + 1,
                 expected_frame_id :=
                   (if led then expected_frame_id_without_led q else next_expected q b)\<rparr>
       in case last_buf of
            None \<Rightarrow> (q1, False, s)
          | Some l \<Rightarrow>
              (let old = drop l (take pos xs)
               in (q1\<lparr>que := take l xs @ drop pos xs,
                     que_size := que_size q - of_nat (length old)\<rparr>, False,
                   fold qb (concat (map used_bufs old)) s)))"

text \<open>
  No node of the frame: with too many unmatched nodes the oldest is released, or the new frame itself
  when it is older than all of them. \<open>mem\<close> tells whether both allocations succeed.
\<close>

definition drop_oldest :: "(mm_camera_buf_def \<Rightarrow> 's \<Rightarrow> 's) \<Rightarrow> nat \<Rightarrow>
    mm_channel_queue \<times> 's \<Rightarrow> mm_channel_queue \<times> 's" where
  "drop_oldest qb l = (\<lambda>(q, s).
     (q\<lparr>que := take l (que q) @ drop (Suc l) (que q), que_size := que_size q - 1\<rparr>,
      fold qb (used_bufs (que q ! l)) s))"

definition insert_node :: "(mm_camera_buf_def \<Rightarrow> 's \<Rightarrow> 's) \<Rightarrow> bool \<Rightarrow> nat option \<Rightarrow> nat \<Rightarrow>
    mm_camera_buf_info \<Rightarrow> mm_channel_queue \<times> 's \<Rightarrow> mm_channel_queue \<times> 's" where
  "insert_node qb mem insert_before i b = (\<lambda>(q, s).
     if \<not> mem then (q, give_back qb b s)
     else
       let nb = new_node q i b;
           xs = (case insert_before of
                   None \<Rightarrow> que q @ [nb]
                 | Some k \<Rightarrow> take k (que q) @ nb # drop k (que q));
           q1 = q\<lparr>que := xs, que_size := que_size q + 1\<rparr>
       in (if num_streams q = 1
           then q1\<lparr>expected_frame_id := next_expected q b, match_cnt := match_cnt q + 1\<rparr> else q1, s))"

definition add_node :: "(mm_camera_buf_def \<Rightarrow> 's \<Rightarrow> 's) \<Rightarrow> bool \<Rightarrow> 8 word \<Rightarrow> nat option \<Rightarrow> nat option \<Rightarrow>
    nat \<Rightarrow> mm_camera_buf_info \<Rightarrow> mm_channel_queue \<times> 's \<Rightarrow> mm_channel_queue \<times> 's" where
  "add_node qb mem unmatched last_buf insert_before i b = (\<lambda>(q, s).
     if max_unmatched_frames (attr q) < unmatched
     then (case last_buf of
             None \<Rightarrow> (q, give_back qb b s)
           | Some l \<Rightarrow>
               insert_node qb mem
                 (map_option (\<lambda>k. if l < k then k - 1 else k) insert_before) i b
                 (drop_oldest qb l (q, s)))
     else insert_node qb mem insert_before i b (q, s))"

text \<open>The matching part of \<open>comp_and_enqueue\<close>, for the stream at index \<open>i\<close> of the bundle.\<close>

definition superbuf_comp :: "(mm_camera_buf_def \<Rightarrow> 's \<Rightarrow> 's) \<Rightarrow> bool \<Rightarrow> nat \<Rightarrow> mm_camera_buf_info \<Rightarrow>
    mm_channel_queue \<times> bool \<times> 's \<Rightarrow> mm_channel_queue \<times> bool \<times> 's" where
  "superbuf_comp qb mem i b = (\<lambda>(q, led, s).
     case scan (bi_frame_idx b) (que q) 0 (0, None, None) of
       (Some pos, _, last_buf, _) \<Rightarrow> match_node qb pos last_buf i b (q, led, s)
     | (None, unmatched, last_buf, insert_before) \<Rightarrow>
         (case add_node qb mem unmatched last_buf insert_before i b (q, s) of
            (q', s') \<Rightarrow> (q', led, s')))"

section \<open>Taking superbuffers out\<close>

definition dequeue_internal :: "bool \<Rightarrow> mm_channel_queue \<Rightarrow>
    mm_channel_queue_node option \<times> mm_channel_queue" where
  "dequeue_internal matched_only q =
     (case que q of
        [] \<Rightarrow> (None, q)
      | sb # rest \<Rightarrow>
          if matched_only \<and> \<not> matched sb then (None, q)
          else (Some sb, q\<lparr>que := rest, que_size := que_size q - 1,
                 match_cnt := (if matched sb then match_cnt q - 1 else match_cnt q)\<rparr>))"

text \<open>
  The loops of \<open>bufdone_overflow\<close> and \<open>skip\<close>: while more superbuffers are matched than \<open>limit\<close>, the
  first one is given back; \<^term>\<open>None\<close> when the loop does not end.
\<close>

partial_function (option) trim_loop :: "(mm_camera_buf_def \<Rightarrow> 's \<Rightarrow> 's) \<Rightarrow> 32 word \<Rightarrow>
    mm_channel_queue \<Rightarrow> 's \<Rightarrow> (mm_channel_queue \<times> 's) option" where
  "trim_loop qb limit q s =
     (if limit < match_cnt q
      then (case dequeue_internal True q of
              (None, q') \<Rightarrow> trim_loop qb limit q' s
            | (Some sb, q') \<Rightarrow> trim_loop qb limit q' (fold qb (held_bufs sb) s))
      else Some (q, s))"

definition bufdone_overflow :: "(mm_camera_buf_def \<Rightarrow> 's \<Rightarrow> 's) \<Rightarrow> mm_channel_queue \<Rightarrow> 's \<Rightarrow>
    (mm_channel_queue \<times> 's) option" where
  "bufdone_overflow qb q s =
     (if notify_mode (attr q) = MM_CAMERA_SUPER_BUF_NOTIFY_CONTINUOUS then Some (q, s)
      else trim_loop qb (ucast (water_mark (attr q))) q s)"

definition superbuf_skip :: "(mm_camera_buf_def \<Rightarrow> 's \<Rightarrow> 's) \<Rightarrow> mm_channel_queue \<Rightarrow> 's \<Rightarrow>
    (mm_channel_queue \<times> 's) option" where
  "superbuf_skip qb q s =
     (if notify_mode (attr q) = MM_CAMERA_SUPER_BUF_NOTIFY_CONTINUOUS then Some (q, s)
      else trim_loop qb (ucast (look_back (attr q))) q s)"

text \<open>The loops of \<open>flush\<close>, of one stream type or of all, and of \<open>flush_matched\<close>.\<close>

function superbuf_flush_loop :: "(mm_camera_buf_def \<Rightarrow> 's \<Rightarrow> 's) \<Rightarrow> bool \<Rightarrow> (mm_camera_buf_def \<Rightarrow> bool) \<Rightarrow>
    mm_channel_queue \<Rightarrow> 's \<Rightarrow> mm_channel_queue \<times> 's" where
  "superbuf_flush_loop qb matched_only sel q s =
     (case dequeue_internal matched_only q of
        (None, q') \<Rightarrow> (q', s)
      | (Some sb, q') \<Rightarrow> superbuf_flush_loop qb matched_only sel q' (fold qb (filter sel (held_bufs sb)) s))"
  by pat_completeness auto
termination
  by (relation "measure (\<lambda>(qb, m, sel, q, s). length (que q))")
    (auto simp: dequeue_internal_def split: list.splits if_splits)

declare superbuf_flush_loop.simps [simp del]

definition superbuf_flush :: "(mm_camera_buf_def \<Rightarrow> 's \<Rightarrow> 's) \<Rightarrow> cam_stream_type \<Rightarrow>
    mm_channel_queue \<Rightarrow> 's \<Rightarrow> mm_channel_queue \<times> 's" where
  "superbuf_flush qb cam_type =
     superbuf_flush_loop qb False (\<lambda>b. cam_type = CAM_STREAM_TYPE_DEFAULT \<or> cam_type = b_stream_type b)"

definition superbuf_flush_matched :: "(mm_camera_buf_def \<Rightarrow> 's \<Rightarrow> 's) \<Rightarrow>
    mm_channel_queue \<Rightarrow> 's \<Rightarrow> mm_channel_queue \<times> 's" where
  "superbuf_flush_matched qb = superbuf_flush_loop qb True (\<lambda>_. True)"

end
