(* ===== verification/MM_Superbuf_Inv.thy ===== *)
theory MM_Superbuf_Inv
  imports MM_Superbuf "HOL-Library.Multiset"
begin

text \<open>
  What keeps the superbuffer queue right. The matched nodes stand before the unmatched ones, the
  unmatched ones are strictly ordered by frame index, the counters count, and a node is matched exactly
  when every slot of the bundle holds a buffer of the node's frame (\<open>wf_sbq\<close>). On such a queue a
  frame's effect is written out over the three parts of the queue, matched, older and newer
  (\<open>comp_found\<close>, \<open>comp_none\<close>); the rest follows from that: the invariant is kept, no buffer is
  lost or given back twice, what is delivered is complete, the trimming loops end at their limit and
  the number of unmatched nodes stays bounded.
\<close>

section \<open>The invariant\<close>

lemma no_buf_simps [simp]: "bi_frame_idx no_buf = 0" "bi_buf no_buf = None"
  by (simp_all add: no_buf_def)

definition node_ok :: "nat \<Rightarrow> mm_channel_queue_node \<Rightarrow> bool" where
  "node_ok n sb \<longleftrightarrow>
     num_of_bufs sb = n \<and> length (super_buf sb) = MAX_STREAM_NUM_IN_BUNDLE \<and> n_frame_idx sb \<noteq> 0 \<and>
     (\<forall>b \<in> set (slots sb). if bi_frame_idx b = 0 then bi_buf b = None
        else bi_frame_idx b = n_frame_idx sb \<and> bi_buf b \<noteq> None) \<and>
     list_ex (\<lambda>b. bi_frame_idx b \<noteq> 0) (slots sb) \<and>
     matched sb = list_all (\<lambda>b. bi_frame_idx b \<noteq> 0) (slots sb)"

definition split_at where
  "split_at q ms us \<longleftrightarrow> que q = ms @ us \<and> list_all matched ms \<and> list_all (\<lambda>sb. \<not> matched sb) us \<and>
     sorted_wrt (<) (map n_frame_idx us)"

definition wf_parts where
  "wf_parts q ms us \<longleftrightarrow> split_at q ms us \<and> 0 < num_streams q \<and>
     num_streams q \<le> MAX_STREAM_NUM_IN_BUNDLE \<and> list_all (node_ok (num_streams q)) (ms @ us) \<and>
     match_cnt q = of_nat (length ms) \<and> que_size q = of_nat (length (ms @ us))"

definition wf_sbq :: "mm_channel_queue \<Rightarrow> bool" where
  "wf_sbq q \<longleftrightarrow> (\<exists>ms us. wf_parts q ms us)"

definition good_frame :: "mm_channel_queue \<Rightarrow> nat \<Rightarrow> mm_camera_buf_info \<Rightarrow> bool" where
  "good_frame q i b \<longleftrightarrow> i < num_streams q \<and> bi_frame_idx b \<noteq> 0 \<and> bi_buf b \<noteq> None"

lemma scan_matched:
  "list_all matched ms \<Longrightarrow> scan f (ms @ q) p (u, l, k) = scan f q (p + length ms) (u, l, k)"
  by (induction ms arbitrary: p) auto

lemma scan_older:
  "list_all (\<lambda>sb. \<not> matched sb \<and> n_frame_idx sb < f) lo \<Longrightarrow>
   scan f (lo @ q) p (u, l, k) = scan f q (p + length lo)
     (u + of_nat (length lo), if l = None \<and> lo \<noteq> [] then Some p else l, k)"
proof (induction lo arbitrary: p u l)
  case (Cons sb lo)
  then show ?case by (auto simp: add.assoc)
qed simp

lemma scan_newer:
  "list_all (\<lambda>sb. \<not> matched sb \<and> f < n_frame_idx sb) hi \<Longrightarrow>
   scan f hi p (u, l, k) =
     (None, u + of_nat (length hi), l, if k = None \<and> hi \<noteq> [] then Some p else k)"
proof (induction hi arbitrary: p u k)
  case (Cons sb hi)
  then show ?case by (auto simp: add.assoc)
qed simp

text \<open>A strictly sorted list falls into the nodes before, at and after a frame.\<close>

lemma sorted_cases:
  assumes "sorted_wrt (<) (map n_frame_idx us)"
  obtains (found) lo sb hi where "us = lo @ sb # hi" "n_frame_idx sb = f"
      "\<forall>x \<in> set lo. n_frame_idx x < f" "\<forall>x \<in> set hi. f < n_frame_idx x"
    | (none) lo hi where "us = lo @ hi"
      "\<forall>x \<in> set lo. n_frame_idx x < f" "\<forall>x \<in> set hi. f < n_frame_idx x"
proof -
  define lo where "lo = takeWhile (\<lambda>x. n_frame_idx x < f) us"
  define r where "r = dropWhile (\<lambda>x. n_frame_idx x < f) us"
  have us: "us = lo @ r" by (simp add: lo_def r_def)
  have lo: "\<forall>x \<in> set lo. n_frame_idx x < f" by (auto simp: lo_def dest: set_takeWhileD)
  show thesis
  proof (cases r)
    case Nil
    then show thesis using none [of lo "[]"] us lo by simp
  next
    case (Cons sb hi)
    then have "\<not> n_frame_idx sb < f" by (metis dropWhile_eq_Cons_conv r_def)
    moreover have hi: "\<forall>x \<in> set hi. n_frame_idx sb < n_frame_idx x"
      using assms Cons us by (auto simp: sorted_wrt_append)
    ultimately show thesis
    proof (cases "n_frame_idx sb = f")
      case True
      then show thesis using found us Cons lo hi by simp
    next
      case False
      then have "f < n_frame_idx sb" using \<open>\<not> n_frame_idx sb < f\<close> by auto
      then have "\<forall>x \<in> set r. f < n_frame_idx x" using hi Cons by auto
      then show thesis using none us lo by simp
    qed
  qed
qed

lemma scan_split:
  assumes "list_all matched ms" and "list_all (\<lambda>sb. \<not> matched sb) (lo @ q)"
    and "\<forall>x \<in> set lo. n_frame_idx x < f"
  shows "scan f (ms @ lo @ q) 0 (0, None, None) =
    scan f q (length ms + length lo)
      (of_nat (length lo), if lo = [] then None else Some (length ms), None)"
  using assms scan_matched [OF assms(1)] scan_older [where f = f and lo = lo and q = q]
  by (auto simp: list_all_iff)

lemma scan_found:
  assumes "split_at q ms (lo @ sb # hi)" and "n_frame_idx sb = f"
    and "\<forall>x \<in> set lo. n_frame_idx x < f"
  shows "scan f (que q) 0 (0, None, None) =
    (Some (length ms + length lo), of_nat (length lo),
     if lo = [] then None else Some (length ms), None)"
  using assms scan_split [where ms = ms and lo = lo and q = "sb # hi" and f = f] by (auto simp: split_at_def)

lemma scan_none:
  assumes "split_at q ms (lo @ hi)" and "\<forall>x \<in> set lo. n_frame_idx x < f"
    and "\<forall>x \<in> set hi. f < n_frame_idx x"
  shows "scan f (que q) 0 (0, None, None) =
    (None, of_nat (length (lo @ hi)), if lo = [] then None else Some (length ms),
     if hi = [] then None else Some (length ms + length lo))"
proof -
  have "list_all (\<lambda>sb. \<not> matched sb \<and> f < n_frame_idx sb) hi"
    using assms by (auto simp: split_at_def list_all_iff)
  from scan_newer [OF this] show ?thesis
    using assms scan_split [where ms = ms and lo = lo and q = hi and f = f] by (auto simp: split_at_def)
qed

text \<open>What the frame does to the queue, over the three parts of the queue: matched, older, newer.\<close>

lemma comp_found:
  assumes "split_at q ms (lo @ sb # hi)" and "n_frame_idx sb = bi_frame_idx b"
    and "\<forall>x \<in> set lo. n_frame_idx x < bi_frame_idx b"
  shows "superbuf_comp qb mem i b (q, led, s) =
    (let sb' = fill_slot i b sb in
     if \<not> matched sb' then (q\<lparr>que := ms @ lo @ sb' # hi\<rparr>, led, s)
     else (q\<lparr>que := ms @ sb' # hi, match_cnt := match_cnt q + 1,
              expected_frame_id :=
                (if led then expected_frame_id_without_led q else next_expected q b),
              que_size := que_size q - of_nat (length lo)\<rparr>, False,
            fold qb (concat (map used_bufs lo)) s))"
proof -
  have q: "que q = ms @ lo @ sb # hi" using assms(1) by (simp add: split_at_def)
  have nth: "(ms @ lo @ sb # hi) ! (length ms + length lo) = sb"
    by (metis append.assoc length_append nth_append_length)
  have upd: "(ms @ lo @ sb # hi)[length ms + length lo := x] = ms @ lo @ x # hi" for x
    by (metis append.assoc length_append list_update_length)
  show ?thesis
    by (simp add: superbuf_comp_def scan_found [OF assms, unfolded q] match_node_def q nth upd Let_def)
qed

definition insert_spec where
  "insert_spec mem i b ms lo hi q =
     (if \<not> mem then q\<lparr>que := ms @ lo @ hi\<rparr>
      else (let q1 = q\<lparr>que := ms @ lo @ new_node q i b # hi, que_size := que_size q + 1\<rparr> in
            if num_streams q = 1
            then q1\<lparr>expected_frame_id := next_expected q b, match_cnt := match_cnt q + 1\<rparr> else q1))"

lemma insert_node_spec:
  assumes "que q = ms @ lo @ hi"
    and "k = (if hi = [] then None else Some (length ms + length lo))"
  shows "insert_node qb mem k i b (q, s) =
    (insert_spec mem i b ms lo hi q, if mem then s else give_back qb b s)"
proof -
  have *: "take (length ms + length lo) (ms @ lo @ hi) = ms @ lo"
    "drop (length ms + length lo) (ms @ lo @ hi) = hi" by simp_all
  have "q\<lparr>que := ms @ lo @ hi\<rparr> = q" using assms(1) by simp
  then show ?thesis using assms *
    by (cases "hi = []") (simp_all add: insert_node_def insert_spec_def Let_def new_node_def)
qed

lemma comp_none:
  assumes "split_at q ms (lo @ hi)" and "\<forall>x \<in> set lo. n_frame_idx x < bi_frame_idx b"
    and "\<forall>x \<in> set hi. bi_frame_idx b < n_frame_idx x"
  shows "superbuf_comp qb mem i b (q, led, s) =
    (if \<not> max_unmatched_frames (attr q) < of_nat (length (lo @ hi))
     then (insert_spec mem i b ms lo hi q, led,
           if mem then s else give_back qb b s)
     else case lo of
            [] \<Rightarrow> (q, led, give_back qb b s)
          | x # lo' \<Rightarrow>
              (insert_spec mem i b ms lo' hi (q\<lparr>que := ms @ lo' @ hi, que_size := que_size q - 1\<rparr>),
               led, (if mem then id else give_back qb b)
                 (fold qb (used_bufs x) s)))"
proof -
  have q: "que q = ms @ lo @ hi" using assms(1) by (simp add: split_at_def)
  show ?thesis
  proof (cases "max_unmatched_frames (attr q) < of_nat (length (lo @ hi))")
    case False
    then show ?thesis
      by (simp add: superbuf_comp_def scan_none [OF assms] add_node_def
          insert_node_spec [OF q] del: of_nat_add)
  next
    case True
    show ?thesis
    proof (cases lo)
      case Nil
      then show ?thesis using True
        by (simp add: superbuf_comp_def scan_none [OF assms] add_node_def del: of_nat_add)
    next
      case (Cons x lo')
      let ?q = "q\<lparr>que := ms @ lo' @ hi, que_size := que_size q - 1\<rparr>"
      have d: "drop_oldest qb (length ms) (q, s) = (?q, fold qb (used_bufs x) s)"
        by (simp add: drop_oldest_def q Cons)
      have k: "map_option (\<lambda>k. if length ms < k then k - 1 else k)
          (if hi = [] then None else Some (length ms + length lo)) =
        (if hi = [] then None else Some (length ms + length lo'))" by (simp add: Cons)
      have "insert_node qb mem (if hi = [] then None else Some (length ms + length lo')) i b
          (?q, fold qb (used_bufs x) s) =
        (insert_spec mem i b ms lo' hi ?q,
         if mem then fold qb (used_bufs x) s
         else give_back qb b (fold qb (used_bufs x) s))"
        by (rule insert_node_spec) simp_all
      then show ?thesis using True Cons
        by (cases "hi = []"; cases mem)
          (simp_all add: superbuf_comp_def scan_none [OF assms] add_node_def d k [simplified Cons]
            del: of_nat_add)
    qed
  qed
qed

lemma slots_fill:
  "i < num_of_bufs sb \<Longrightarrow> slots (fill_slot i b sb) = (slots sb)[i := b]"
  by (simp add: slots_def fill_slot_def Let_def take_update_swap)

lemma fill_slot_simps [simp]:
  "num_of_bufs (fill_slot i b sb) = num_of_bufs sb"
  "length (super_buf (fill_slot i b sb)) = length (super_buf sb)"
  "n_frame_idx (fill_slot i b sb) = n_frame_idx sb"
  by (simp_all add: fill_slot_def Let_def)

lemma matched_fill:
  "i < num_of_bufs sb \<Longrightarrow>
   matched (fill_slot i b sb) = list_all (\<lambda>x. bi_frame_idx x \<noteq> 0) ((slots sb)[i := b])"
  by (simp add: slots_def fill_slot_def Let_def take_update_swap)

lemma set_updateD: "x \<in> set (xs[i := b]) \<Longrightarrow> x = b \<or> x \<in> set xs"
  using set_update_subset_insert [of xs i b] by blast

lemma fill_slot_ok:
  assumes "node_ok n sb" and "i < n" and "n \<le> MAX_STREAM_NUM_IN_BUNDLE"
    and "bi_frame_idx b = n_frame_idx sb" and "bi_buf b \<noteq> None"
  shows "node_ok n (fill_slot i b sb)"
proof -
  have n: "num_of_bufs sb = n" using assms by (simp add: node_ok_def)
  have i: "i < length (slots sb)" using assms by (simp add: node_ok_def slots_def)
  have "b \<in> set ((slots sb)[i := b])" using i by (rule set_update_memI)
  moreover have "bi_frame_idx b \<noteq> 0" using assms by (simp add: node_ok_def)
  ultimately have "list_ex (\<lambda>b. bi_frame_idx b \<noteq> 0) ((slots sb)[i := b])"
    by (auto simp: list_ex_iff)
  moreover have "\<forall>x \<in> set ((slots sb)[i := b]). if bi_frame_idx x = 0 then bi_buf x = None
      else bi_frame_idx x = n_frame_idx sb \<and> bi_buf x \<noteq> None"
    using assms by (auto simp: node_ok_def dest!: set_updateD)
  ultimately show ?thesis
    using assms(1,2) by (simp add: node_ok_def n slots_fill matched_fill)
qed

lemma slots_new:
  "num_streams q \<le> MAX_STREAM_NUM_IN_BUNDLE \<Longrightarrow>
   slots (new_node q i b) = (replicate (num_streams q) no_buf)[i := b]"
  by (simp add: slots_def new_node_def take_update_swap min_def)

lemma new_node_simps [simp]:
  "num_of_bufs (new_node q i b) = num_streams q"
  "length (super_buf (new_node q i b)) = MAX_STREAM_NUM_IN_BUNDLE"
  "n_frame_idx (new_node q i b) = bi_frame_idx b"
  "matched (new_node q i b) = (num_streams q = 1)"
  by (simp_all add: new_node_def)

lemma new_node_queue [simp]: "new_node (q\<lparr>que := xs, que_size := n\<rparr>) i b = new_node q i b"
  by (simp add: new_node_def)

lemma new_node_ok:
  assumes "good_frame q i b" and "num_streams q \<le> MAX_STREAM_NUM_IN_BUNDLE"
  shows "node_ok (num_streams q) (new_node q i b)"
proof -
  let ?n = "num_streams q" and ?sl = "(replicate (num_streams q) no_buf)[i := b]"
  have b: "b \<in> set ?sl" "bi_frame_idx b \<noteq> 0" "bi_buf b \<noteq> None" "i < ?n"
    using assms by (auto simp: good_frame_def intro: set_update_memI)
  have "matched (new_node q i b) = list_all (\<lambda>b. bi_frame_idx b \<noteq> 0) ?sl"
  proof (cases "?n = 1")
    case True
    then show ?thesis using b by (simp add: new_node_def)
  next
    case False
    define j where "j = (if i = 0 then 1 else 0 :: nat)"
    have "j < length ?sl" "?sl ! j = no_buf" using False b by (auto simp: j_def)
    then have "no_buf \<in> set ?sl" by (metis nth_mem)
    then show ?thesis using False by (auto simp: new_node_def list_all_iff intro!: bexI [of _ no_buf])
  qed
  moreover have "\<forall>x \<in> set ?sl. if bi_frame_idx x = 0 then bi_buf x = None
      else bi_frame_idx x = bi_frame_idx b \<and> bi_buf x \<noteq> None"
    using b by (auto dest!: set_updateD)
  moreover have "list_ex (\<lambda>b. bi_frame_idx b \<noteq> 0) ?sl" using b by (auto simp: list_ex_iff)
  ultimately show ?thesis
    unfolding node_ok_def slots_new [OF assms(2)] new_node_simps(1-3)
    using b(2) by (intro conjI refl)
qed

lemma map_filter_used:
  "\<forall>b \<in> set xs. bi_frame_idx b = 0 \<longrightarrow> bi_buf b = None \<Longrightarrow>
   List.map_filter bi_buf (filter (\<lambda>b. bi_frame_idx b \<noteq> 0) xs) = List.map_filter bi_buf xs"
  by (induction xs) (auto simp: map_filter_simps split: option.splits)

lemma used_held: "node_ok n sb \<Longrightarrow> used_bufs sb = held_bufs sb"
  by (auto simp: used_bufs_def held_bufs_def node_ok_def intro: map_filter_used split: if_splits)

lemma node_ok_single: "node_ok 1 sb \<Longrightarrow> matched sb"
  by (cases "super_buf sb") (auto simp: node_ok_def slots_def MAX_STREAM_NUM_IN_BUNDLE_def)

lemma wf_parts_split:
  "wf_parts q ms us \<Longrightarrow> split_at q ms us"
  "wf_parts q ms us \<Longrightarrow> list_all (node_ok (num_streams q)) us"
  "wf_parts q ms us \<Longrightarrow> num_streams q \<le> MAX_STREAM_NUM_IN_BUNDLE"
  by (simp_all add: wf_parts_def)

lemma wf_found:
  assumes "wf_parts q ms (lo @ sb # hi)" and "good_frame q i b" and "n_frame_idx sb = bi_frame_idx b"
  shows "wf_sbq (q\<lparr>que := ms @ lo @ fill_slot i b sb # hi\<rparr>) \<or> matched (fill_slot i b sb)"
    and "matched (fill_slot i b sb) \<Longrightarrow>
      wf_sbq (q\<lparr>que := ms @ fill_slot i b sb # hi, match_cnt := match_cnt q + 1,
        expected_frame_id := e, que_size := que_size q - of_nat (length lo)\<rparr>)"
proof -
  let ?sb = "fill_slot i b sb"
  have ok: "node_ok (num_streams q) ?sb"
    using assms by (intro fill_slot_ok) (auto simp: wf_parts_def good_frame_def)
  show "wf_sbq (q\<lparr>que := ms @ lo @ ?sb # hi\<rparr>) \<or> matched ?sb"
  proof (cases "matched ?sb")
    case False
    then have "wf_parts (q\<lparr>que := ms @ lo @ ?sb # hi\<rparr>) ms (lo @ ?sb # hi)"
      using assms(1) ok by (simp add: wf_parts_def split_at_def)
    then show ?thesis by (auto simp: wf_sbq_def)
  qed simp
  assume "matched ?sb"
  then have "wf_parts (q\<lparr>que := ms @ ?sb # hi, match_cnt := match_cnt q + 1,
      expected_frame_id := e, que_size := que_size q - of_nat (length lo)\<rparr>) (ms @ [?sb]) hi"
    using assms(1) ok by (simp add: wf_parts_def split_at_def sorted_wrt_append)
  then show "wf_sbq (q\<lparr>que := ms @ ?sb # hi, match_cnt := match_cnt q + 1,
      expected_frame_id := e, que_size := que_size q - of_nat (length lo)\<rparr>)"
    unfolding wf_sbq_def by blast
qed

lemma wf_insert:
  assumes "wf_parts q ms (lo @ hi)" and "good_frame q i b"
    and "\<forall>x \<in> set lo. n_frame_idx x < bi_frame_idx b"
    and "\<forall>x \<in> set hi. bi_frame_idx b < n_frame_idx x"
  shows "wf_sbq (insert_spec mem i b ms lo hi q)"
proof (cases mem)
  case False
  then have "wf_parts (insert_spec mem i b ms lo hi q) ms (lo @ hi)"
    using assms(1) by (simp add: insert_spec_def wf_parts_def split_at_def)
  then show ?thesis by (auto simp: wf_sbq_def)
next
  case True
  note ok = new_node_ok [OF assms(2) wf_parts_split(3) [OF assms(1)]]
  show ?thesis
  proof (cases "num_streams q = 1")
    case single: True
    have "\<forall>sb \<in> set (lo @ hi). node_ok 1 sb \<and> \<not> matched sb"
      using assms(1) single by (auto simp: wf_parts_def split_at_def list_all_iff)
    then have "lo @ hi = []" using node_ok_single by (metis last_in_set)
    then have "wf_parts (insert_spec mem i b ms lo hi q) (ms @ [new_node q i b]) []"
      using assms(1) ok single True by (simp add: wf_parts_def split_at_def insert_spec_def Let_def)
    then show ?thesis by (auto simp: wf_sbq_def)
  next
    case False
    then have "wf_parts (insert_spec mem i b ms lo hi q) ms (lo @ new_node q i b # hi)"
      using assms ok True
      by (auto simp: wf_parts_def split_at_def insert_spec_def Let_def sorted_wrt_append)
    then show ?thesis by (auto simp: wf_sbq_def)
  qed
qed

lemma wf_drop_oldest:
  "wf_parts q ms (x # lo @ hi) \<Longrightarrow>
   wf_parts (q\<lparr>que := ms @ lo @ hi, que_size := que_size q - 1\<rparr>) ms (lo @ hi)"
  by (auto simp: wf_parts_def split_at_def sorted_wrt_append)

theorem superbuf_comp_wf:
  assumes "wf_sbq q" and "good_frame q i b"
  shows "wf_sbq (fst (superbuf_comp qb mem i b (q, led, s)))"
proof -
  obtain ms us where w: "wf_parts q ms us" using assms(1) by (auto simp: wf_sbq_def)
  then have "sorted_wrt (<) (map n_frame_idx us)" by (simp add: wf_parts_def split_at_def)
  then show ?thesis
  proof (cases rule: sorted_cases [where f = "bi_frame_idx b"])
    case (found lo sb hi)
    note p = w [unfolded found(1)]
    show ?thesis
      using wf_found [OF p assms(2) found(2)] 
      by (auto simp: comp_found [OF wf_parts_split(1) [OF p] found(2,3)] Let_def)
  next
    case (none lo hi)
    note p = w [unfolded none(1)]
    note c = comp_none [OF wf_parts_split(1) [OF p] none(2,3)]
    show ?thesis
    proof (cases lo)
      case Nil
      then show ?thesis using w wf_insert [OF p assms(2) none(2,3)]
        by (auto simp: c wf_sbq_def)
    next
      case (Cons x lo')
      have g: "good_frame (q\<lparr>que := ms @ lo' @ hi, que_size := que_size q - 1\<rparr>) i b"
        using assms(2) by (simp add: good_frame_def)
      have "wf_sbq (insert_spec mem i b ms lo' hi (q\<lparr>que := ms @ lo' @ hi, que_size := que_size q - 1\<rparr>))"
        using wf_insert [OF wf_drop_oldest g] p none(2,3) Cons by simp
      then show ?thesis using wf_insert [OF p assms(2) none(2,3)] by (simp add: c Cons)
    qed
  qed
qed

text \<open>
  Conservation. The buffers in the queue, in order; a frame is new when no unmatched node of its
  index holds a buffer of the same stream yet.
\<close>

definition queued :: "mm_channel_queue_node list \<Rightarrow> mm_camera_buf_def multiset" where
  "queued xs = mset (concat (map held_bufs xs))"

lemma queued_simps [simp]:
  "queued [] = {#}" "queued (sb # xs) = mset (held_bufs sb) + queued xs"
  "queued (xs @ ys) = queued xs + queued ys"
  by (simp_all add: queued_def)

definition slot_free :: "mm_channel_queue \<Rightarrow> nat \<Rightarrow> mm_camera_buf_info \<Rightarrow> bool" where
  "slot_free q i b \<longleftrightarrow> (\<forall>sb \<in> set (que q). matched sb \<or> n_frame_idx sb \<noteq> bi_frame_idx b \<or>
     bi_frame_idx (slots sb ! i) = 0)"

lemma map_filter_append: "List.map_filter f (xs @ ys) = List.map_filter f xs @ List.map_filter f ys"
  by (simp add: List.map_filter_def)

lemma mset_map_filter_update:
  assumes "i < length xs" and "f (xs ! i) = None" and "f b = Some d"
  shows "mset (List.map_filter f (xs[i := b])) = mset (List.map_filter f xs) + {#d#}"
proof -
  have "xs = take i xs @ xs ! i # drop (Suc i) xs" using assms(1) by (rule id_take_nth_drop)
  then have "List.map_filter f xs = List.map_filter f (take i xs @ xs ! i # drop (Suc i) xs)" by simp
  then show ?thesis
    using assms by (simp add: upd_conv_take_nth_drop map_filter_append map_filter_simps)
qed

lemma held_fill:
  assumes "node_ok n sb" and "i < n" and "n \<le> MAX_STREAM_NUM_IN_BUNDLE" 
    and "bi_frame_idx (slots sb ! i) = 0" and "bi_buf b = Some d"
  shows "mset (held_bufs (fill_slot i b sb)) = mset (held_bufs sb) + {#d#}"
proof -
  have "i < length (slots sb)" "i < num_of_bufs sb"
    using assms by (auto simp: node_ok_def slots_def)
  moreover from this have "bi_buf (slots sb ! i) = None"
    using assms by (metis node_ok_def nth_mem)
  ultimately show ?thesis using assms(5)
    by (simp add: held_bufs_def slots_fill mset_map_filter_update)
qed

lemma held_new:
  assumes "good_frame q i b" and "num_streams q \<le> MAX_STREAM_NUM_IN_BUNDLE" and "bi_buf b = Some d"
  shows "mset (held_bufs (new_node q i b)) = {#d#}"
proof -
  have "List.map_filter bi_buf (replicate n no_buf) = []" for n
    by (induction n) (simp_all add: map_filter_simps)
  then show ?thesis using assms
    by (simp add: held_bufs_def slots_new mset_map_filter_update good_frame_def)
qed

lemma used_held_all:
  "list_all (node_ok n) xs \<Longrightarrow> mset (concat (map used_bufs xs)) = queued xs"
  by (induction xs) (auto simp: used_held queued_def)

definition conserves where
  "conserves qb s s' old new \<longleftrightarrow> (\<exists>rel. s' = fold qb rel s \<and> mset rel + new = old)"

lemma conserves_I: "s' = fold qb rel s \<Longrightarrow> mset rel + new = old \<Longrightarrow> conserves qb s s' old new"
  by (auto simp: conserves_def)

lemma give_back_fold: "bi_buf b = Some d \<Longrightarrow> give_back qb b s = fold qb [d] s"
  by (simp add: give_back_def)

theorem superbuf_comp_conserves:
  assumes "wf_sbq q" and "good_frame q i b" and "slot_free q i b" and "bi_buf b = Some d"
    and "superbuf_comp qb mem i b (q, led, s) = (q', led', s')"
  shows "conserves qb s s' (queued (que q) + {#d#}) (queued (que q'))"
proof -
  obtain ms us where w: "wf_parts q ms us" using assms(1) by (auto simp: wf_sbq_def)
  then have srt: "sorted_wrt (<) (map n_frame_idx us)" by (simp add: wf_parts_def split_at_def)
  note gb = give_back_fold [OF assms(4), of qb]
  note hn = held_new [OF assms(2) wf_parts_split(3) [OF w] assms(4)]
  from srt show ?thesis
  proof (cases rule: sorted_cases [where f = "bi_frame_idx b"])
    case (found lo sb hi)
    note p = w [unfolded found(1)]
    have q: "que q = ms @ lo @ sb # hi" using p by (simp add: wf_parts_def split_at_def)
    have "\<not> matched sb" using p by (simp add: wf_parts_def split_at_def)
    then have "mset (held_bufs (fill_slot i b sb)) = mset (held_bufs sb) + {#d#}"
      using p assms(2,3,4) found(2)
      by (intro held_fill) (auto simp: wf_parts_def good_frame_def slot_free_def q)
    moreover have "mset (concat (map used_bufs lo)) = queued lo"
      using p by (intro used_held_all) (auto simp: wf_parts_def)
    ultimately show ?thesis
      using assms(5) [unfolded comp_found [OF wf_parts_split(1) [OF p] found(2,3)]] q
      by (cases "matched (fill_slot i b sb)")
        (auto intro: conserves_I [of _ _ "[]"] conserves_I [of _ _ "concat (map used_bufs lo)"])
  next
    case (none lo hi)
    note p = w [unfolded none(1)]
    have q: "que q = ms @ lo @ hi" using p by (simp add: wf_parts_def split_at_def)
    note c = comp_none [OF wf_parts_split(1) [OF p] none(2,3)]
    note r = assms(5) [unfolded c]
    show ?thesis
    proof (cases "max_unmatched_frames (attr q) < of_nat (length (lo @ hi))")
      case False
      then show ?thesis using r q gb hn
        by (cases mem) (auto simp: insert_spec_def Let_def split: if_splits
            intro: conserves_I [of _ _ "[]"] conserves_I [of _ _ "[d]"])
    next
      case full: True
      show ?thesis
      proof (cases lo)
        case Nil
        then show ?thesis using full r q gb by (auto intro: conserves_I [of _ _ "[d]"])
      next
        case (Cons x lo')
        have u: "mset (used_bufs x) = mset (held_bufs x)"
          using p Cons by (auto simp: wf_parts_def used_held)
        show ?thesis using full r q gb hn u Cons
          by (cases mem) (auto simp: insert_spec_def Let_def split: if_splits
            intro: conserves_I [of _ _ "used_bufs x"] conserves_I [of _ _ "used_bufs x @ [d]"])
      qed
    qed
  qed
qed

section \<open>Delivery\<close>

lemma wf_parts_filter: "wf_parts q ms us \<Longrightarrow> filter matched (que q) = ms"
  by (auto simp: wf_parts_def split_at_def list_all_iff filter_empty_conv)

text \<open>A superbuffer is taken from the front exactly when one is matched, and it is complete.\<close>

lemma dequeue_matched:
  assumes "wf_parts q (sb # ms) us"
  shows "dequeue_internal True q =
      (Some sb, q\<lparr>que := ms @ us, que_size := que_size q - 1, match_cnt := match_cnt q - 1\<rparr>)"
    and "wf_parts (q\<lparr>que := ms @ us, que_size := que_size q - 1, match_cnt := match_cnt q - 1\<rparr>) ms us"
  using assms by (auto simp: wf_parts_def split_at_def dequeue_internal_def)

lemma dequeue_unmatched:
  "wf_parts q [] us \<Longrightarrow> dequeue_internal True q = (None, q)"
  by (cases us) (auto simp: wf_parts_def split_at_def dequeue_internal_def)

definition complete :: "nat \<Rightarrow> mm_channel_queue_node \<Rightarrow> bool" where
  "complete n sb \<longleftrightarrow> length (held_bufs sb) = n \<and>
     (\<forall>b \<in> set (slots sb). bi_frame_idx b = n_frame_idx sb \<and> bi_buf b \<noteq> None)"

lemma node_complete:
  assumes "node_ok n sb" and "matched sb" and "n \<le> MAX_STREAM_NUM_IN_BUNDLE"
  shows "complete n sb"
proof -
  have all: "\<forall>b \<in> set (slots sb). bi_frame_idx b = n_frame_idx sb \<and> bi_buf b \<noteq> None"
    using assms by (auto simp: node_ok_def list_all_iff split: if_splits)
  have "\<forall>b \<in> set xs. bi_buf b \<noteq> None \<Longrightarrow> length (List.map_filter bi_buf xs) = length xs" for xs
    by (induction xs) (auto simp: map_filter_simps)
  from this [of "slots sb"] show ?thesis
    using all assms by (simp add: complete_def held_bufs_def node_ok_def slots_def)
qed

text \<open>The trimming loops give back the oldest superbuffers and stop at the limit.\<close>

lemma trim_loop_parts:
  assumes "wf_parts q ms us" and "length ms < 2 ^ 32"
  shows "\<exists>q'. trim_loop qb limit q s =
      Some (q', fold qb (concat (map held_bufs (take (length ms - unat limit) ms))) s) \<and>
    wf_parts q' (drop (length ms - unat limit) ms) us \<and> attr q' = attr q \<and> num_streams q' = num_streams q"
  using assms
proof (induction ms arbitrary: q s)
  case Nil
  then show ?case by (subst trim_loop.simps) (simp add: wf_parts_def)
next
  case (Cons sb ms)
  have cnt: "match_cnt q = of_nat (length (sb # ms))" using Cons.prems by (simp add: wf_parts_def)
  have lt: "limit < match_cnt q \<longleftrightarrow> unat limit < length (sb # ms)"
    using Cons.prems(2) unfolding cnt word_less_nat_alt by (simp add: unat_of_nat take_bit_nat_eq_self del: of_nat_Suc)
  show ?case
  proof (cases "unat limit < length (sb # ms)")
    case False
    then show ?thesis using Cons.prems(1) lt by (subst trim_loop.simps) simp
  next
    case True
    let ?q = "q\<lparr>que := ms @ us, que_size := que_size q - 1, match_cnt := match_cnt q - 1\<rparr>"
    have d: "length (sb # ms) - unat limit = Suc (length ms - unat limit)"
      using True by (simp add: Suc_diff_le)
    have "trim_loop qb limit q s = trim_loop qb limit ?q (fold qb (held_bufs sb) s)"
      using True lt by (subst trim_loop.simps) (simp add: dequeue_matched [OF Cons.prems(1)])
    moreover have "length ms < 2 ^ 32" using Cons.prems(2) by simp
    ultimately show ?thesis
      using Cons.IH [OF dequeue_matched(2) [OF Cons.prems(1)], of "fold qb (held_bufs sb) s"] d
      by simp
  qed
qed

text \<open>A match count that is too high makes the loop spin: it never returns.\<close>

lemma trim_loop_spins:
  assumes "dequeue_internal True q = (None, q)" and "limit < match_cnt q"
  shows "trim_loop qb limit q s = None"
proof -
  let ?P = "\<lambda>qb limit q s r. dequeue_internal True q = (None, q) \<longrightarrow> \<not> limit < match_cnt q"
  have "?P qb limit q s r" if "trim_loop qb limit q s = Some r" for r
    by (rule trim_loop.raw_induct [OF _ that, where P = ?P]) (auto split: if_splits)
  then show ?thesis using assms by (cases "trim_loop qb limit q s") auto
qed

lemma fold_concat_filter:
  "fold qb (filter sel (concat (map f (x # xs)))) s =
   fold qb (filter sel (concat (map f xs))) (fold qb (filter sel (f x)) s)"
  by simp

text \<open>Flushing empties the queue, or its matched part, and gives back what it selects, in order.\<close>

lemma flush_all:
  "\<exists>q'. superbuf_flush_loop qb False sel q s = (q', fold qb (filter sel (concat (map held_bufs (que q)))) s) \<and>
     que q' = [] \<and> match_cnt q' = match_cnt q - of_nat (length (filter matched (que q))) \<and>
     que_size q' = que_size q - of_nat (length (que q)) \<and>
     attr q' = attr q \<and> num_streams q' = num_streams q \<and> expected_frame_id q' = expected_frame_id q"
proof (induction "que q" arbitrary: q s)
  case Nil
  then show ?case by (subst superbuf_flush_loop.simps) (simp add: dequeue_internal_def split: list.split)
next
  case (Cons sb xs)
  let ?q = "q\<lparr>que := xs, que_size := que_size q - 1,
    match_cnt := (if matched sb then match_cnt q - 1 else match_cnt q)\<rparr>"
  have "superbuf_flush_loop qb False sel q s = superbuf_flush_loop qb False sel ?q (fold qb (filter sel (held_bufs sb)) s)"
    by (subst superbuf_flush_loop.simps) (simp add: dequeue_internal_def Cons(2) [symmetric])
  then show ?case
    using Cons(1) [of ?q "fold qb (filter sel (held_bufs sb)) s"] Cons(2) [symmetric]
    by (cases "matched sb") (simp_all add: algebra_simps)
qed

lemma flush_matched_parts:
  assumes "wf_parts q ms us"
  shows "\<exists>q'. superbuf_flush_loop qb True sel q s =
      (q', fold qb (filter sel (concat (map held_bufs ms))) s) \<and> wf_parts q' [] us \<and>
    attr q' = attr q \<and> expected_frame_id q' = expected_frame_id q \<and> num_streams q' = num_streams q"
  using assms
proof (induction ms arbitrary: q s)
  case Nil
  then show ?case by (subst superbuf_flush_loop.simps) (simp add: dequeue_unmatched)
next
  case (Cons sb ms)
  note d = dequeue_matched [OF Cons.prems]
  from Cons.IH [OF d(2), of "fold qb (filter sel (held_bufs sb)) s"] show ?case
    by (subst superbuf_flush_loop.simps) (simp add: d(1))
qed

lemma flush_all_wf:
  assumes "wf_sbq q"
  shows "wf_sbq (fst (superbuf_flush_loop qb False sel q s))"
proof -
  obtain ms us where w: "wf_parts q ms us" using assms by (auto simp: wf_sbq_def)
  obtain q' where q': "superbuf_flush_loop qb False sel q s =
        (q', fold qb (filter sel (concat (map held_bufs (que q)))) s)"
      "que q' = []" "match_cnt q' = match_cnt q - of_nat (length (filter matched (que q)))"
      "que_size q' = que_size q - of_nat (length (que q))" "num_streams q' = num_streams q"
    using flush_all [of qb sel q s] by blast
  have "match_cnt q' = 0" "que_size q' = 0"
    using w unfolding q' wf_parts_filter [OF w] by (simp_all add: wf_parts_def split_at_def)
  then have "wf_parts q' [] []" using w q' by (simp add: wf_parts_def split_at_def)
  then show ?thesis using q'(1) by (auto simp: wf_sbq_def)
qed

section \<open>Any frame\<close>

text \<open>Of a frame of which nothing is known: buffers are given back in some order, and the count grows by one.\<close>

lemma insert_node_gives:
  "\<exists>bs. snd (insert_node qb mem k i b (q, s)) = fold qb bs s"
  "num_streams (fst (insert_node qb mem k i b (q, s))) = num_streams q"
  "attr (fst (insert_node qb mem k i b (q, s))) = attr q"
proof -
  have "give_back qb b s = fold qb (case bi_buf b of None \<Rightarrow> [] | Some d \<Rightarrow> [d]) s"
    by (simp add: give_back_def split: option.split)
  then show "\<exists>bs. snd (insert_node qb mem k i b (q, s)) = fold qb bs s"
    by (auto simp: insert_node_def Let_def intro: exI [of _ "[]"])
  show "num_streams (fst (insert_node qb mem k i b (q, s))) = num_streams q"
    "attr (fst (insert_node qb mem k i b (q, s))) = attr q"
    by (simp_all add: insert_node_def Let_def)
qed

lemma add_node_gives:
  "\<exists>bs. snd (add_node qb mem u l k i b (q, s)) = fold qb bs s"
  "num_streams (fst (add_node qb mem u l k i b (q, s))) = num_streams q"
  "attr (fst (add_node qb mem u l k i b (q, s))) = attr q"
proof -
  have g: "\<exists>bs. give_back qb b s = fold qb bs s"
  proof
    show "give_back qb b s = fold qb (case bi_buf b of None \<Rightarrow> [] | Some d \<Rightarrow> [d]) s"
      by (simp add: give_back_def split: option.split)
  qed
  have ins: "\<exists>bs. snd (insert_node qb mem k i b (drop_oldest qb x (q, s))) = fold qb bs s" for k x
  proof -
    from insert_node_gives(1) [of qb mem k i b "fst (drop_oldest qb x (q, s))" "snd (drop_oldest qb x (q, s))"]
    obtain bs where "snd (insert_node qb mem k i b (drop_oldest qb x (q, s))) = fold qb bs (snd (drop_oldest qb x (q, s)))"
      by auto
    then have "snd (insert_node qb mem k i b (drop_oldest qb x (q, s))) = fold qb (used_bufs (que q ! x) @ bs) s"
      by (simp add: drop_oldest_def)
    then show ?thesis by blast
  qed
  show "\<exists>bs. snd (add_node qb mem u l k i b (q, s)) = fold qb bs s"
    using g ins insert_node_gives(1) [of qb mem k i b q s]
    by (auto simp: add_node_def split: option.split)
  have d: "num_streams (fst (insert_node qb mem k i b (drop_oldest qb x (q, s)))) = num_streams q"
    "attr (fst (insert_node qb mem k i b (drop_oldest qb x (q, s)))) = attr q" for k x
    by (simp_all add: insert_node_gives drop_oldest_def)
  show "num_streams (fst (add_node qb mem u l k i b (q, s))) = num_streams q"
    "attr (fst (add_node qb mem u l k i b (q, s))) = attr q"
    using d by (auto simp: add_node_def insert_node_gives split: option.split)
qed

lemma superbuf_comp_gives:
  assumes "superbuf_comp qb mem i b (q, led, s) = (q', led', s')"
  shows "\<exists>bs. s' = fold qb bs s" and "num_streams q' = num_streams q" and "attr q' = attr q"
proof -
  obtain r u l k where sc: "scan (bi_frame_idx b) (que q) 0 (0, None, None) = (r, u, l, k)"
    by (metis prod_cases4)
  have m: "match_node qb pos l i b (q, led, s) = (q', led', s') \<Longrightarrow>
    (\<exists>bs. s' = fold qb bs s) \<and> num_streams q' = num_streams q \<and> attr q' = attr q" for pos
    by (auto simp: match_node_def Let_def split: if_splits option.splits intro: exI [of _ "[]"])
  have a: "(case add_node qb mem u l k i b (q, s) of (q', s') \<Rightarrow> (q', led, s')) = (q', led', s') \<Longrightarrow>
    (\<exists>bs. s' = fold qb bs s) \<and> num_streams q' = num_streams q \<and> attr q' = attr q"
    using add_node_gives [of qb mem u l k i b q s] by (cases "add_node qb mem u l k i b (q, s)") auto
  have "(\<exists>bs. s' = fold qb bs s) \<and> num_streams q' = num_streams q \<and> attr q' = attr q"
    using assms m a by (cases r) (simp_all add: superbuf_comp_def sc)
  then show "\<exists>bs. s' = fold qb bs s" "num_streams q' = num_streams q" "attr q' = attr q" by blast+
qed

lemma superbuf_comp_matched:
  assumes "wf_sbq q"
  shows "length (filter matched (que (fst (superbuf_comp qb mem i b (q, led, s))))) \<le>
    Suc (length (filter matched (que q)))"
proof -
  obtain ms us where w: "wf_parts q ms us" using assms by (auto simp: wf_sbq_def)
  then have srt: "sorted_wrt (<) (map n_frame_idx us)" by (simp add: wf_parts_def split_at_def)
  have us: "filter matched us = []" and ms: "filter matched ms = ms"
    using w by (auto simp: wf_parts_def split_at_def list_all_iff filter_empty_conv intro: filter_True)
  note q = wf_parts_filter [OF w]
  have ins: "length (filter matched (que (insert_spec mem i b ms lo hi q))) \<le> Suc (length ms)"
    if "filter matched lo = []" "filter matched hi = []" "que q = ms @ xs" "filter matched xs = []" for lo hi q xs
    using that ms by (auto simp: insert_spec_def Let_def)
  from srt show ?thesis
  proof (cases rule: sorted_cases [where f = "bi_frame_idx b"])
    case (found lo sb hi)
    note c = comp_found [OF wf_parts_split(1) [OF w [unfolded found(1)]] found(2,3)]
    have "\<not> matched sb" "filter matched lo = []" "filter matched hi = []"
      using us by (auto simp: found(1) split: if_splits)
    then show ?thesis using ms q by (simp add: c Let_def)
  next
    case (none lo hi)
    note p = w [unfolded none(1)]
    note c = comp_none [OF wf_parts_split(1) [OF p] none(2,3)]
    have l: "filter matched lo = []" "filter matched hi = []" "que q = ms @ lo @ hi"
      using us none(1) p by (simp_all add: wf_parts_def split_at_def)
    show ?thesis
      using l q ms ins [of lo hi q "lo @ hi"] ins [of "tl lo" hi "q\<lparr>que := ms @ tl lo @ hi, que_size := que_size q - 1\<rparr>" "tl lo @ hi"]
      by (cases lo) (auto simp: c split: if_splits)
  qed
qed

section \<open>How many unmatched superbuffers\<close>

definition unmatched_cnt :: "mm_channel_queue \<Rightarrow> nat" where
  "unmatched_cnt q = length (filter (\<lambda>sb. \<not> matched sb) (que q))"

lemma unmatched_parts: "wf_parts q ms us \<Longrightarrow> unmatched_cnt q = length us"
proof -
  assume w: "wf_parts q ms us"
  then have "filter (\<lambda>sb. \<not> matched sb) (ms @ us) = us"
    by (auto simp: wf_parts_def split_at_def list_all_iff filter_empty_conv intro: filter_True)
  then show ?thesis using w by (simp add: unmatched_cnt_def wf_parts_def split_at_def)
qed

lemma unmatched_insert:
  assumes "wf_parts q ms us"
  shows "unmatched_cnt (insert_spec mem i b ms lo hi q) \<le> Suc (length (lo @ hi))"
proof -
  have "filter (\<lambda>sb. \<not> matched sb) ms = []"
    using assms by (auto simp: wf_parts_def split_at_def list_all_iff filter_empty_conv)
  moreover have "length (filter (\<lambda>sb. \<not> matched sb) lo) + length (filter (\<lambda>sb. \<not> matched sb) hi)
      \<le> length lo + length hi" by (intro add_mono length_filter_le)
  ultimately show ?thesis by (simp add: unmatched_cnt_def insert_spec_def Let_def)
qed

theorem unmatched_bounded:
  assumes "wf_sbq q" and "unat (max_unmatched_frames (attr q)) < 255"
    and "unmatched_cnt q \<le> Suc (unat (max_unmatched_frames (attr q)))"
  shows "unmatched_cnt (fst (superbuf_comp qb mem i b (q, led, s))) \<le>
    Suc (unat (max_unmatched_frames (attr q)))"
proof -
  obtain ms us where w: "wf_parts q ms us" using assms(1) by (auto simp: wf_sbq_def)
  then have srt: "sorted_wrt (<) (map n_frame_idx us)" by (simp add: wf_parts_def split_at_def)
  let ?max = "max_unmatched_frames (attr q)"
  have un: "length us \<le> Suc (unat ?max)" using assms(3) unmatched_parts [OF w] by simp
  have len: "?max < of_nat (length us) \<longleftrightarrow> unat ?max < length us"
    using un assms(2) unfolding word_less_nat_alt by (simp add: unat_of_nat take_bit_nat_eq_self)
  have ms: "filter (\<lambda>sb. \<not> matched sb) ms = []" "filter (\<lambda>sb. \<not> matched sb) us = us"
    using w by (auto simp: wf_parts_def split_at_def list_all_iff filter_empty_conv intro: filter_True)
  from srt show ?thesis
  proof (cases rule: sorted_cases [where f = "bi_frame_idx b"])
    case (found lo sb hi)
    note c = comp_found [OF wf_parts_split(1) [OF w [unfolded found(1)]] found(2,3)]
    have "\<forall>x \<in> set us. \<not> matched x"
      using w by (auto simp: wf_parts_def split_at_def list_all_iff)
    then have "filter (\<lambda>sb. \<not> matched sb) lo = lo" "filter (\<lambda>sb. \<not> matched sb) hi = hi"
      by (auto simp: found(1) intro: filter_True)
    then show ?thesis using un ms(1) found(1) by (simp add: c Let_def unmatched_cnt_def)
  next
    case (none lo hi)
    note p = w [unfolded none(1)]
    note c = comp_none [OF wf_parts_split(1) [OF p] none(2,3)]
    note ins = unmatched_insert [OF p, of mem i b]
    show ?thesis
    proof (cases "unat ?max < length us")
      case False
      then show ?thesis
        using ins [of lo hi] ms none(1) len by (simp add: c del: of_nat_add length_append)
    next
      case True
      show ?thesis
      proof (cases lo)
        case Nil
        then show ?thesis using True len none(1) assms(3) by (simp add: c)
      next
        case (Cons x lo')
        have "wf_parts (q\<lparr>que := ms @ lo' @ hi, que_size := que_size q - 1\<rparr>) ms (lo' @ hi)"
          using p Cons by (intro wf_drop_oldest) simp
        from unmatched_insert [OF this, of mem i b lo' hi]
        have "unmatched_cnt (fst (superbuf_comp qb mem i b (q, led, s))) \<le> length us"
          using True len none(1) ms Cons by (simp add: c del: of_nat_add length_append)
        then show ?thesis using un by simp
      qed
    qed
  qed
qed

end
