(* ===== verification/MM_Stream.thy ===== *)
theory MM_Stream
  imports MM_Offset MM_Superbuf
begin

text \<open>
  A stream of a channel (\<open>mm_camera_stream.c\<close>): its state machine, its buffers with their reference
  counts, and the way of a frame from the kernel to the channel and to the application.

  A stream operation runs on the stream itself and on what it touches outside (\<open>sw\<close>): the channel's
  count of preview frames to skip, the answers of the outside world in the order in which they are
  asked for (results of ioctls, of the memory operations of the layer above, of the domain socket and
  of the poll thread; allocations; ids; frames; allocated buffers), and the record of what it did
  there (\<open>trace\<close>). An answer that is not given is a success. An index out of range reads as a free
  buffer and writes nothing.
\<close>

section \<open>Data\<close>

datatype mm_stream_state_type =
    MM_STREAM_STATE_NOTUSED
  | MM_STREAM_STATE_INITED
  | MM_STREAM_STATE_ACQUIRED
  | MM_STREAM_STATE_CFG
  | MM_STREAM_STATE_BUFFED
  | MM_STREAM_STATE_REG
  | MM_STREAM_STATE_ACTIVE

definition MM_CAMERA_STREAM_BUF_CB_MAX :: nat where "MM_CAMERA_STREAM_BUF_CB_MAX = 4"
definition MM_CAMERA_MAX_NUM_FRAMES :: "8 word" where "MM_CAMERA_MAX_NUM_FRAMES = 24"

text \<open>A callback is the number of the function; \<open>cb_count\<close> is an \<open>int8_t\<close>, -1 for any number of times.\<close>

record mm_stream_data_cb =
  cb :: ptr
  cb_count :: "8 word"

record mm_stream_buf_status =
  buf_refcnt :: "8 word"
  initial_reg_flag :: bool
  in_kernel :: bool

text \<open>Which of the optional memory operations the layer above supplies.\<close>

record mm_camera_stream_mem_vtbl =
  invalidate_buf :: bool
  clean_invalidate_buf :: bool

record mm_camera_stream_config =
  c_stream_info :: cam_stream_info
  c_padding_info :: cam_padding_info
  c_mem_vtbl :: mm_camera_stream_mem_vtbl
  c_stream_cb :: ptr

text \<open>
  A pointer to a channel is the channel's index in the camera object, a pointer to a stream adds its
  index in the channel.
\<close>

record mm_stream =
  my_hdl :: "32 word"
  server_stream_id :: "32 word"
  fd :: int
  s_state :: mm_stream_state_type
  stream_info :: "cam_stream_info option"
  padding_info :: cam_padding_info
  frame_offset :: cam_frame_len_offset
  app_active :: bool
  app_queue :: "mm_camera_buf_info list"
  buf_cb :: "mm_stream_data_cb list"
  buf_num :: "8 word"
  bufs :: "mm_camera_buf_def list option"
  buf_status :: "mm_stream_buf_status list option"
  s_ch_obj :: ptr
  is_bundled :: bool
  linked_obj :: ptr
  linked_stream :: "(nat \<times> nat) option"
  is_linked :: bool
  mem_vtbl :: mm_camera_stream_mem_vtbl
  queued_buffer_count :: "8 word"

text \<open>The object after \<open>memset\<close>.\<close>

definition no_cb :: mm_stream_data_cb where "no_cb = \<lparr>cb = None, cb_count = 0\<rparr>"

definition no_stream :: mm_stream where
  "no_stream =
     \<lparr>my_hdl = 0, server_stream_id = 0, fd = 0, s_state = MM_STREAM_STATE_NOTUSED,
      stream_info = None, padding_info = \<lparr>width_padding = 0, height_padding = 0, plane_padding = 0\<rparr>,
      frame_offset = \<lparr>num_planes = 0, mp = replicate 8 (plane 0 0 0 0 0 0 0 0), frame_len = 0\<rparr>,
      app_active = False, app_queue = [], buf_cb = replicate MM_CAMERA_STREAM_BUF_CB_MAX no_cb,
      buf_num = 0, bufs = None, buf_status = None, s_ch_obj = None, is_bundled = False,
      linked_obj = None, linked_stream = None, is_linked = False,
      mem_vtbl = \<lparr>invalidate_buf = False, clean_invalidate_buf = False\<rparr>, queued_buffer_count = 0\<rparr>"

datatype mm_stream_evt =
    MM_STREAM_EVT_ACQUIRE
  | MM_STREAM_EVT_RELEASE
  | MM_STREAM_EVT_SET_FMT mm_camera_stream_config
  | MM_STREAM_EVT_GET_BUF
  | MM_STREAM_EVT_PUT_BUF
  | MM_STREAM_EVT_REG_BUF
  | MM_STREAM_EVT_UNREG_BUF
  | MM_STREAM_EVT_START
  | MM_STREAM_EVT_STOP
  | MM_STREAM_EVT_QBUF mm_camera_buf_def
  | MM_STREAM_EVT_SET_PARM bool
  | MM_STREAM_EVT_GET_PARM bool
  | MM_STREAM_EVT_DO_ACTION bool
  | MM_STREAM_EVT_GET_QUEUED_BUF_COUNT

section \<open>The world of a stream operation\<close>

datatype s_action =
    Qbuf "32 word"
  | Dqbuf "32 word"
  | Kept "32 word"
  | PollAdd
  | PollDel
  | CloseFd
  | ToChannel mm_camera_buf_info
  | ToLinked mm_camera_buf_info
  | Callback nat "32 word"

record sw =
  strm :: mm_stream
  skip_cnt :: "8 word"
  rets :: "int list"
  mems :: "bool list"
  frames :: "(32 word \<times> 32 word) list"
  allocs :: "bool list list"
  trace :: "s_action list"

type_synonym 'a sop = "(sw, 'a) state"

definition ask :: "int sop" where
  "ask = do {
     rs \<leftarrow> gets rets;
     case rs of [] \<Rightarrow> ret 0 | r # rs' \<Rightarrow> do { modify (\<lambda>w. w\<lparr>rets := rs'\<rparr>); ret r } }"

definition ask_mem :: "bool sop" where
  "ask_mem = do {
     ms \<leftarrow> gets mems;
     case ms of [] \<Rightarrow> ret True | m # ms' \<Rightarrow> do { modify (\<lambda>w. w\<lparr>mems := ms'\<rparr>); ret m } }"

definition ask_frame :: "(32 word \<times> 32 word) sop" where
  "ask_frame = do {
     fs \<leftarrow> gets frames;
     case fs of [] \<Rightarrow> ret (0, 0) | f # fs' \<Rightarrow> do { modify (\<lambda>w. w\<lparr>frames := fs'\<rparr>); ret f } }"

definition ask_alloc :: "bool list sop" where
  "ask_alloc = do {
     as \<leftarrow> gets allocs;
     case as of [] \<Rightarrow> ret [] | a # as' \<Rightarrow> do { modify (\<lambda>w. w\<lparr>allocs := as'\<rparr>); ret a } }"

definition emit :: "s_action \<Rightarrow> unit sop" where
  "emit a = modify (\<lambda>w. w\<lparr>trace := trace w @ [a]\<rparr>)"

definition obj :: "(mm_stream \<Rightarrow> 'a) \<Rightarrow> 'a sop" where
  "obj f = gets (\<lambda>w. f (strm w))"

definition upd :: "(mm_stream \<Rightarrow> mm_stream) \<Rightarrow> unit sop" where
  "upd f = modify (\<lambda>w. w\<lparr>strm := f (strm w)\<rparr>)"

definition free_status :: mm_stream_buf_status where
  "free_status = \<lparr>buf_refcnt = 0, initial_reg_flag = False, in_kernel = False\<rparr>"

definition status_at :: "nat \<Rightarrow> mm_stream \<Rightarrow> mm_stream_buf_status" where
  "status_at i s =
     (case buf_status s of
        None \<Rightarrow> free_status
      | Some xs \<Rightarrow> if i < length xs then xs ! i else free_status)"

definition upd_status :: "nat \<Rightarrow> (mm_stream_buf_status \<Rightarrow> mm_stream_buf_status) \<Rightarrow> unit sop" where
  "upd_status i f = upd (\<lambda>s. s\<lparr>buf_status := map_option (\<lambda>xs. xs[i := f (xs ! i)]) (buf_status s)\<rparr>)"

section \<open>Ioctls and configuration\<close>

definition mm_stream_set_ext_mode :: "int sop" where
  "mm_stream_set_ext_mode = do {
     rc \<leftarrow> ask;
     if rc = 0 then do {
       svr \<leftarrow> ask;
       upd (\<lambda>s. s\<lparr>server_stream_id := word_of_int svr\<rparr>);
       ret rc }
     else ret rc }"

definition mm_stream_sync_info :: "build \<Rightarrow> int sop" where
  "mm_stream_sync_info B = do {
     s \<leftarrow> obj id;
     case stream_info s of
       None \<Rightarrow> ret (- 1)
     | Some si \<Rightarrow>
         (case mm_stream_calc_offset B (padding_info s) (si\<lparr>stream_svr_id := server_stream_id s\<rparr>) of
            (rc, si', fo) \<Rightarrow> do {
              upd (\<lambda>s. s\<lparr>stream_info := Some si', frame_offset := fo\<rparr>);
              if rc = 0 then ask else ret rc }) }"

definition mm_stream_set_fmt :: "int sop" where
  "mm_stream_set_fmt = do {
     si \<leftarrow> obj stream_info;
     case si of
       None \<Rightarrow> ret (- 1)
     | Some si \<Rightarrow> if d_width (si_dim si) = 0 \<or> d_height (si_dim si) = 0 then ret (- 1) else ask }"

definition mm_stream_config :: "build \<Rightarrow> mm_camera_stream_config \<Rightarrow> int sop" where
  "mm_stream_config B config = do {
     upd (\<lambda>s. s\<lparr>stream_info := Some (c_stream_info config),
                buf_num := ucast (num_bufs (c_stream_info config)),
                mem_vtbl := c_mem_vtbl config, padding_info := c_padding_info config,
                buf_cb := (buf_cb s)[0 := \<lparr>cb = c_stream_cb config, cb_count = - 1\<rparr>]\<rparr>);
     rc \<leftarrow> mm_stream_sync_info B;
     if rc = 0 then mm_stream_set_fmt else ret rc }"

definition mm_stream_release :: "int sop" where
  "mm_stream_release = do {
     f \<leftarrow> obj fd;
     when_do (0 < f) (emit CloseFd);
     upd (\<lambda>_. no_stream);
     ret 0 }"

definition mm_stream_streamon :: "int sop" where
  "mm_stream_streamon = do {
     rc \<leftarrow> ask;
     when_do (rc < 0) (emit PollDel);
     ret rc }"

definition mm_stream_streamoff :: "int sop" where
  "mm_stream_streamoff = do {
     emit PollDel;
     rc \<leftarrow> ask;
     _ \<leftarrow> (if rc < 0 then ask else ret rc);
     ask }"

text \<open>The three requests that only pass on a buffer the server has mapped; the payload may be null.\<close>

definition mm_stream_set_parm :: "bool \<Rightarrow> int sop" where
  "mm_stream_set_parm given = (if given then ask else ret (- 1))"
definition mm_stream_get_parm :: "bool \<Rightarrow> int sop" where
  "mm_stream_get_parm given = (if given then ask else ret (- 1))"
definition mm_stream_do_action :: "bool \<Rightarrow> int sop" where
  "mm_stream_do_action given = (if given then ask else ret (- 1))"

text \<open>Mapping a buffer to the server is one message over the domain socket.\<close>

definition mm_stream_map_buf :: "int sop" where
  "mm_stream_map_buf = do {
     c \<leftarrow> obj s_ch_obj;
     case c of None \<Rightarrow> ret (- 1) | Some _ \<Rightarrow> ask }"
definition mm_stream_unmap_buf :: "int sop" where
  "mm_stream_unmap_buf = do {
     c \<leftarrow> obj s_ch_obj;
     case c of None \<Rightarrow> ret (- 1) | Some _ \<Rightarrow> ask }"

section \<open>Buffers\<close>

text \<open>Queueing a buffer in the kernel; the poll thread is told of the first one.\<close>

definition mm_stream_qbuf :: "mm_camera_buf_def \<Rightarrow> int sop" where
  "mm_stream_qbuf b = do {
     v \<leftarrow> obj mem_vtbl;
     rc \<leftarrow> (if invalidate_buf v then ask else ret 0);
     if rc < 0 then ret rc
     else do {
       upd (\<lambda>s. s\<lparr>queued_buffer_count := queued_buffer_count s + 1\<rparr>);
       n \<leftarrow> obj queued_buffer_count;
       when_do (n = 1) (emit PollAdd);
       rc \<leftarrow> ask;
       if rc < 0 then do {
         upd (\<lambda>s. s\<lparr>queued_buffer_count := queued_buffer_count s - 1\<rparr>);
         n \<leftarrow> obj queued_buffer_count;
         when_do (n = 0) (emit PollDel);
         ret rc }
       else do { emit (Qbuf (buf_idx b)); ret rc } } }"

text \<open>A reference is given back; the last one puts the buffer back into the kernel's queue.\<close>

definition mm_stream_buf_done :: "mm_camera_buf_def \<Rightarrow> int sop" where
  "mm_stream_buf_done b = do {
     let i = unat (buf_idx b);
     st \<leftarrow> obj (status_at i);
     if buf_refcnt st = 0 then ret (- 1)
     else do {
       upd_status i (\<lambda>x. x\<lparr>buf_refcnt := buf_refcnt x - 1\<rparr>);
       st \<leftarrow> obj (status_at i);
       if buf_refcnt st = 0 then do {
         rc \<leftarrow> mm_stream_qbuf b;
         when_do (\<not> rc < 0) (upd_status i (\<lambda>x. x\<lparr>in_kernel := True\<rparr>));
         ret rc }
       else ret 0 } }"

definition mm_stream_get_queued_buf_count :: "int sop" where
  "mm_stream_get_queued_buf_count = obj (\<lambda>s. sint (queued_buffer_count s))"

definition mm_stream_deinit_bufs :: "int sop" where
  "mm_stream_deinit_bufs = do {
     bs \<leftarrow> obj bufs;
     case bs of
       None \<Rightarrow> ret 0
     | Some _ \<Rightarrow> do {
         rc \<leftarrow> ask;
         upd (\<lambda>s. s\<lparr>bufs := None, buf_status := None\<rparr>);
         ret rc } }"

text \<open>
  The layer above allocates the buffers and numbers them; for each it tells whether the buffer is to
  be queued at first.
\<close>

definition new_bufs :: "mm_stream \<Rightarrow> nat \<Rightarrow> mm_camera_buf_def list" where
  "new_bufs s n =
     map (\<lambda>i. \<lparr>b_stream_id = my_hdl s,
               b_stream_type = (case stream_info s of None \<Rightarrow> CAM_STREAM_TYPE_DEFAULT | Some si \<Rightarrow> si_type si),
               buf_idx = of_nat i\<rparr>) [0..<n]"

definition mm_stream_init_bufs :: "int sop" where
  "mm_stream_init_bufs = do {
     bs \<leftarrow> obj bufs;
     when_do (bs \<noteq> None) (do { _ \<leftarrow> mm_stream_deinit_bufs; ret () });
     rc \<leftarrow> ask;
     if rc \<noteq> 0 then ret rc
     else do {
       flags \<leftarrow> ask_alloc;
       upd (\<lambda>s. s\<lparr>buf_num := of_nat (length flags), bufs := Some (new_bufs s (length flags))\<rparr>);
       m \<leftarrow> ask_mem;
       if \<not> m then do { _ \<leftarrow> mm_stream_deinit_bufs; ret (- 1) }
       else do {
         upd (\<lambda>s. s\<lparr>buf_status := Some (map (\<lambda>f. free_status\<lparr>initial_reg_flag := f\<rparr>) flags),
                    stream_info := map_option (\<lambda>si. si\<lparr>num_bufs := ucast (buf_num s)\<rparr>) (stream_info s)\<rparr>);
         ret rc } } }"

definition mm_stream_request_buf :: "int sop" where
  "mm_stream_request_buf = do {
     n \<leftarrow> obj buf_num;
     if MM_CAMERA_MAX_NUM_FRAMES < n then ret (- 1) else ask }"

text \<open>
  The buffers of the index list are registered in turn, up to the first that cannot be queued. One
  that is not queued stays with the layer above, as its first reference (\<^term>\<open>Kept\<close>).
\<close>

fun reg_loop :: "nat list \<Rightarrow> int sop" where
  "reg_loop [] = ret 0"
| "reg_loop (i # is) = do {
     st \<leftarrow> obj (status_at i);
     if initial_reg_flag st then do {
       bs \<leftarrow> obj bufs;
       rc \<leftarrow> mm_stream_qbuf (the bs ! i);
       if rc \<noteq> 0 then ret rc
       else do {
         upd_status i (\<lambda>x. x\<lparr>buf_refcnt := 0, in_kernel := True\<rparr>);
         reg_loop is } }
     else do {
       upd_status i (\<lambda>x. x\<lparr>buf_refcnt := 1, in_kernel := False\<rparr>);
       emit (Kept (of_nat i));
       reg_loop is } }"

definition mm_stream_reg_buf :: "int sop" where
  "mm_stream_reg_buf = do {
     rc \<leftarrow> mm_stream_request_buf;
     if rc \<noteq> 0 then ret rc
     else do {
       upd (\<lambda>s. s\<lparr>queued_buffer_count := 0\<rparr>);
       n \<leftarrow> obj buf_num;
       reg_loop [0..<unat n] } }"

definition mm_stream_unreg_buf :: "int sop" where
  "mm_stream_unreg_buf = do {
     rc \<leftarrow> ask;
     upd (\<lambda>s. s\<lparr>buf_status := map_option (map (\<lambda>x. x\<lparr>buf_refcnt := 0, in_kernel := False\<rparr>))
                  (buf_status s)\<rparr>);
     ret rc }"

section \<open>Frames\<close>

definition has_cb :: "mm_stream \<Rightarrow> bool" where
  "has_cb s \<longleftrightarrow> list_ex (\<lambda>c. cb c \<noteq> None) (buf_cb s)"

definition mm_stream_read_msm_frame :: "(int \<times> mm_camera_buf_info) sop" where
  "mm_stream_read_msm_frame = do {
     rc \<leftarrow> ask;
     if rc < 0 then ret (rc, no_buf)
     else do {
       (idx, seq) \<leftarrow> ask_frame;
       emit (Dqbuf idx);
       upd (\<lambda>s. s\<lparr>queued_buffer_count := queued_buffer_count s - 1\<rparr>);
       n \<leftarrow> obj queued_buffer_count;
       when_do (n = 0) (emit PollDel);
       upd (\<lambda>s. s\<lparr>bufs := map_option (\<lambda>bs. bs[unat idx :=
                    (bs ! unat idx)\<lparr>b_stream_id := my_hdl s, buf_idx := idx\<rparr>]) (bufs s)\<rparr>);
       s \<leftarrow> obj id;
       let b = \<lparr>bi_stream_id = my_hdl s, bi_frame_idx = seq,
                bi_buf = map_option (\<lambda>bs. bs ! unat idx) (bufs s)\<rparr>;
       rc \<leftarrow> (if clean_invalidate_buf (mem_vtbl s) then ask else ret rc);
       ret (rc, b) } }"

text \<open>
  A command for a channel's thread: the command and the queue's own node are allocated; only the
  failure of the first is reported.
\<close>

definition mm_stream_notify_channel :: "ptr \<Rightarrow> s_action \<Rightarrow> int sop" where
  "mm_stream_notify_channel ch a =
     (case ch of
        None \<Rightarrow> ret (- 19)
      | Some _ \<Rightarrow> do {
          node \<leftarrow> ask_mem;
          if node then do { q \<leftarrow> ask_mem; when_do q (emit a); ret 0 } else ret (- 12) })"

definition mm_stream_handle_rcvd_buf :: "mm_camera_buf_info \<Rightarrow> bool \<Rightarrow> unit sop" where
  "mm_stream_handle_rcvd_buf b with_cb = do {
     let d = the (bi_buf b);
     let i = unat (buf_idx d);
     s \<leftarrow> obj id;
     when_do (is_bundled s) (do {
       _ \<leftarrow> mm_stream_notify_channel (s_ch_obj s) (ToChannel b); ret () });
     when_do (is_linked s) (do {
       upd_status i (\<lambda>x. x\<lparr>buf_refcnt := buf_refcnt x + 1\<rparr>);
       _ \<leftarrow> mm_stream_notify_channel (linked_obj s) (ToLinked b); ret () });
     n \<leftarrow> gets skip_cnt;
     if n \<noteq> 0 \<and> map_option si_type (stream_info s) = Some CAM_STREAM_TYPE_PREVIEW then do {
       modify (\<lambda>w. w\<lparr>skip_cnt := skip_cnt w - 1\<rparr>);
       _ \<leftarrow> mm_stream_buf_done d;
       ret () }
     else when_do (with_cb \<and> app_active s) (do {
       node \<leftarrow> ask_mem;
       q \<leftarrow> (if node then ask_mem else ret False);
       when_do q (upd (\<lambda>s. s\<lparr>app_queue := app_queue s @ [b]\<rparr>)) }) }"

definition mm_stream_data_notify :: "unit sop" where
  "mm_stream_data_notify = do {
     s \<leftarrow> obj id;
     if s_state s \<noteq> MM_STREAM_STATE_ACTIVE then ret ()
     else do {
       (rc, b) \<leftarrow> mm_stream_read_msm_frame;
       if rc \<noteq> 0 then ret ()
       else do {
         let i = unat (buf_idx (the (bi_buf b)));
         upd_status i (\<lambda>x. x\<lparr>in_kernel := False\<rparr>);
         when_do (is_bundled s) (upd_status i (\<lambda>x. x\<lparr>buf_refcnt := buf_refcnt x + 1\<rparr>));
         upd_status i (\<lambda>x. x\<lparr>buf_refcnt := buf_refcnt x + (if has_cb s then 1 else 0)\<rparr>);
         mm_stream_handle_rcvd_buf b (has_cb s) } } }"

text \<open>
  The stream's own thread hands a frame to every registered callback, each with a reference of its
  own, and drops the reference of the thread.
\<close>

definition app_callback :: "mm_camera_buf_def \<Rightarrow> nat \<Rightarrow> unit sop" where
  "app_callback d k = do {
     c \<leftarrow> obj (\<lambda>s. buf_cb s ! k);
     case cb c of
       None \<Rightarrow> ret ()
     | Some f \<Rightarrow> do {
         when_do (cb_count c \<noteq> 0) (do {
           upd_status (unat (buf_idx d)) (\<lambda>x. x\<lparr>buf_refcnt := buf_refcnt x + 1\<rparr>);
           emit (Callback f (buf_idx d)) });
         when_do (0 < sint (cb_count c)) (
           let n = cb_count c - 1 in
           upd (\<lambda>s. s\<lparr>buf_cb := (buf_cb s)[k := if n = 0 then no_cb else c\<lparr>cb_count := n\<rparr>]\<rparr>)) } }"

definition mm_stream_dispatch_app_data :: "mm_camera_buf_info \<Rightarrow> unit sop" where
  "mm_stream_dispatch_app_data b = do {
     let d = the (bi_buf b);
     for_each (app_callback d) [0..<MM_CAMERA_STREAM_BUF_CB_MAX];
     _ \<leftarrow> mm_stream_buf_done d;
     ret () }"

definition mm_stream_reg_buf_cb :: "mm_stream_data_cb \<Rightarrow> int sop" where
  "mm_stream_reg_buf_cb v = do {
     s \<leftarrow> obj id;
     case filter (\<lambda>k. cb (buf_cb s ! k) = None) [0..<MM_CAMERA_STREAM_BUF_CB_MAX] of
       [] \<Rightarrow> ret (- 1)
     | k # _ \<Rightarrow> do { upd (\<lambda>s. s\<lparr>buf_cb := (buf_cb s)[k := v]\<rparr>); ret 0 } }"

section \<open>The stream's thread\<close>

definition app_thread_launch :: "unit sop" where
  "app_thread_launch = upd (\<lambda>s. s\<lparr>app_active := True, app_queue := []\<rparr>)"

text \<open>A turn of the thread: it takes the first frame of its queue and dispatches it.\<close>

definition app_thread_step :: "unit sop" where
  "app_thread_step = do {
     q \<leftarrow> obj app_queue;
     case q of
       [] \<Rightarrow> ret ()
     | b # q' \<Rightarrow> do { upd (\<lambda>s. s\<lparr>app_queue := q'\<rparr>); mm_stream_dispatch_app_data b } }"

text \<open>
  Releasing the thread sends it the exit command and waits for it: the commands queued before are
  executed first. If the command cannot be allocated the thread goes on.
\<close>

definition app_thread_release :: "unit sop" where
  "app_thread_release = do {
     m \<leftarrow> ask_mem;
     when_do m (do {
       q \<leftarrow> obj app_queue;
       for_each mm_stream_dispatch_app_data q;
       upd (\<lambda>s. s\<lparr>app_active := False, app_queue := []\<rparr>) }) }"

section \<open>The state machine\<close>

definition set_sstate :: "mm_stream_state_type \<Rightarrow> unit sop" where
  "set_sstate st = upd (\<lambda>s. s\<lparr>s_state := st\<rparr>)"

text \<open>\<open>dev\<close>: whether the camera has a device name.\<close>

definition mm_stream_fsm_inited :: "bool \<Rightarrow> mm_stream_evt \<Rightarrow> int sop" where
  "mm_stream_fsm_inited dev evt =
     (if \<not> dev then ret (- 1)
      else case evt of
        MM_STREAM_EVT_ACQUIRE \<Rightarrow> do {
          c \<leftarrow> obj s_ch_obj;
          if c = None then ret (- 1)
          else do {
            f \<leftarrow> ask;
            upd (\<lambda>s. s\<lparr>fd := f\<rparr>);
            if f \<le> 0 then ret (- 1)
            else do {
              rc \<leftarrow> mm_stream_set_ext_mode;
              (if rc = 0 then set_sstate MM_STREAM_STATE_ACQUIRED
               else do { emit CloseFd; upd (\<lambda>s. s\<lparr>fd := 0\<rparr>) });
              ret rc } } }
      | _ \<Rightarrow> ret 0)"

definition stream_parm_evt :: "mm_stream_evt \<Rightarrow> int sop" where
  "stream_parm_evt evt =
     (case evt of
        MM_STREAM_EVT_SET_PARM given \<Rightarrow> mm_stream_set_parm given
      | MM_STREAM_EVT_GET_PARM given \<Rightarrow> mm_stream_get_parm given
      | _ \<Rightarrow> ret 0)"

definition mm_stream_fsm_acquired :: "build \<Rightarrow> mm_stream_evt \<Rightarrow> int sop" where
  "mm_stream_fsm_acquired B evt =
     (case evt of
        MM_STREAM_EVT_SET_FMT config \<Rightarrow> do {
          rc \<leftarrow> mm_stream_config B config;
          set_sstate MM_STREAM_STATE_CFG;
          ret rc }
      | MM_STREAM_EVT_RELEASE \<Rightarrow> do {
          rc \<leftarrow> mm_stream_release;
          set_sstate MM_STREAM_STATE_NOTUSED;
          ret rc }
      | _ \<Rightarrow> stream_parm_evt evt)"

definition mm_stream_fsm_cfg :: "build \<Rightarrow> mm_stream_evt \<Rightarrow> int sop" where
  "mm_stream_fsm_cfg B evt =
     (case evt of
        MM_STREAM_EVT_SET_FMT config \<Rightarrow> do {
          rc \<leftarrow> mm_stream_config B config;
          set_sstate MM_STREAM_STATE_CFG;
          ret rc }
      | MM_STREAM_EVT_RELEASE \<Rightarrow> do {
          rc \<leftarrow> mm_stream_release;
          set_sstate MM_STREAM_STATE_NOTUSED;
          ret rc }
      | MM_STREAM_EVT_GET_BUF \<Rightarrow> do {
          rc \<leftarrow> mm_stream_init_bufs;
          when_do (rc = 0) (set_sstate MM_STREAM_STATE_BUFFED);
          ret rc }
      | _ \<Rightarrow> stream_parm_evt evt)"

definition mm_stream_fsm_buffed :: "mm_stream_evt \<Rightarrow> int sop" where
  "mm_stream_fsm_buffed evt =
     (case evt of
        MM_STREAM_EVT_PUT_BUF \<Rightarrow> do {
          rc \<leftarrow> mm_stream_deinit_bufs;
          set_sstate MM_STREAM_STATE_CFG;
          ret rc }
      | MM_STREAM_EVT_REG_BUF \<Rightarrow> do {
          rc \<leftarrow> mm_stream_reg_buf;
          when_do (rc = 0) (set_sstate MM_STREAM_STATE_REG);
          ret rc }
      | _ \<Rightarrow> stream_parm_evt evt)"

definition mm_stream_fsm_reg :: "mm_stream_evt \<Rightarrow> int sop" where
  "mm_stream_fsm_reg evt =
     (case evt of
        MM_STREAM_EVT_UNREG_BUF \<Rightarrow> do {
          rc \<leftarrow> mm_stream_unreg_buf;
          set_sstate MM_STREAM_STATE_BUFFED;
          ret rc }
      | MM_STREAM_EVT_START \<Rightarrow> do {
          c \<leftarrow> obj has_cb;
          when_do c app_thread_launch;
          set_sstate MM_STREAM_STATE_ACTIVE;
          rc \<leftarrow> mm_stream_streamon;
          when_do (rc \<noteq> 0) (do {
            when_do c app_thread_release;
            set_sstate MM_STREAM_STATE_REG });
          ret rc }
      | _ \<Rightarrow> stream_parm_evt evt)"

definition mm_stream_fsm_active :: "mm_stream_evt \<Rightarrow> int sop" where
  "mm_stream_fsm_active evt =
     (case evt of
        MM_STREAM_EVT_QBUF b \<Rightarrow> mm_stream_buf_done b
      | MM_STREAM_EVT_GET_QUEUED_BUF_COUNT \<Rightarrow> mm_stream_get_queued_buf_count
      | MM_STREAM_EVT_STOP \<Rightarrow> do {
          rc \<leftarrow> mm_stream_streamoff;
          c \<leftarrow> obj has_cb;
          when_do c app_thread_release;
          set_sstate MM_STREAM_STATE_REG;
          ret rc }
      | MM_STREAM_EVT_DO_ACTION given \<Rightarrow> mm_stream_do_action given
      | _ \<Rightarrow> stream_parm_evt evt)"

definition mm_stream_fsm_fn :: "build \<Rightarrow> bool \<Rightarrow> mm_stream_evt \<Rightarrow> int sop" where
  "mm_stream_fsm_fn B dev evt = do {
     st \<leftarrow> obj s_state;
     case st of
       MM_STREAM_STATE_NOTUSED \<Rightarrow> ret (- 1)
     | MM_STREAM_STATE_INITED \<Rightarrow> mm_stream_fsm_inited dev evt
     | MM_STREAM_STATE_ACQUIRED \<Rightarrow> mm_stream_fsm_acquired B evt
     | MM_STREAM_STATE_CFG \<Rightarrow> mm_stream_fsm_cfg B evt
     | MM_STREAM_STATE_BUFFED \<Rightarrow> mm_stream_fsm_buffed evt
     | MM_STREAM_STATE_REG \<Rightarrow> mm_stream_fsm_reg evt
     | MM_STREAM_STATE_ACTIVE \<Rightarrow> mm_stream_fsm_active evt }"

end
