(* ===== verification/MM_Stream_Refs.thy ===== *)
theory MM_Stream_Refs
  imports MM_Stream
begin

text \<open>
  The reference counts of a stream's buffers. The trace of a stream operation tells to whom it gave a
  reference: to a channel's thread, to a callback, or, at registration, to the layer above. The
  invariant \<open>ref_ok\<close> relates these to the counts: each buffer counts at least the references that are
  still out and the frames in the queue of the stream's thread, and a buffer in the kernel counts
  none. It is kept by every step, whatever the outside answers, allocations that fail included; so a
  buffer somebody still holds is never in the kernel's queue.
\<close>

section \<open>Running stream operations\<close>

lemma wp_obj [wp_simps]: "wp (obj f) Q w = Q (f (strm w)) w"
  by (simp add: obj_def wp_simps)
lemma wp_upd [wp_simps]: "wp (upd f) Q w = Q () (w\<lparr>strm := f (strm w)\<rparr>)"
  by (simp add: upd_def wp_simps)
lemma wp_emit [wp_simps]: "wp (emit a) Q w = Q () (w\<lparr>trace := trace w @ [a]\<rparr>)"
  by (simp add: emit_def wp_simps)
lemma wp_upd_status [wp_simps]:
  "wp (upd_status i f) Q w = Q () (w\<lparr>strm := (strm w)\<lparr>buf_status :=
     map_option (\<lambda>xs. xs[i := f (xs ! i)]) (buf_status (strm w))\<rparr>\<rparr>)"
  by (simp add: upd_status_def wp_simps)

text \<open>Whatever the outside answers.\<close>

lemma wp_ask:
  assumes "\<And>r rs. Q r (w\<lparr>rets := rs\<rparr>)"
  shows "wp ask Q w"
proof (cases "rets w")
  case Nil
  have "w\<lparr>rets := rets w\<rparr> = w" by simp
  then have "Q r w" for r using assms [of r "rets w"] by simp
  then show ?thesis using Nil by (simp add: ask_def wp_simps)
next
  case (Cons r rs)
  then show ?thesis using assms by (simp add: ask_def wp_simps)
qed

lemma wp_ask_mem:
  assumes "\<And>r rs. Q r (w\<lparr>mems := rs\<rparr>)"
  shows "wp ask_mem Q w"
proof (cases "mems w")
  case Nil
  have "w\<lparr>mems := mems w\<rparr> = w" by simp
  then have "Q r w" for r using assms [of r "mems w"] by simp
  then show ?thesis using Nil by (simp add: ask_mem_def wp_simps)
next
  case (Cons r rs)
  then show ?thesis using assms by (simp add: ask_mem_def wp_simps)
qed


text \<open>
  The references given away so far: one per command to a channel, one per callback. What the rest of
  the proofs looks at is the stream without its count of queued buffers, and that ledger.
\<close>

definition idx_of :: "mm_camera_buf_info \<Rightarrow> nat" where
  "idx_of b = unat (buf_idx (the (bi_buf b)))"

fun hands :: "nat \<Rightarrow> s_action \<Rightarrow> nat" where
  "hands i (ToChannel b) = of_bool (idx_of b = i)"
| "hands i (ToLinked b) = of_bool (idx_of b = i)"
| "hands i (Kept k) = of_bool (unat k = i)"
| "hands i (Callback _ k) = of_bool (unat k = i)"
| "hands i _ = 0"

definition handed :: "s_action list \<Rightarrow> nat \<Rightarrow> nat" where
  "handed tr i = (\<Sum>a \<leftarrow> tr. hands i a)"

lemma handed_snoc [simp]: "handed (tr @ [a]) i = handed tr i + hands i a"
  by (simp add: handed_def)

definition core :: "mm_stream \<Rightarrow> mm_stream" where
  "core s = s\<lparr>queued_buffer_count := 0\<rparr>"

definition obs :: "sw \<Rightarrow> mm_stream \<times> (nat \<Rightarrow> nat)" where
  "obs w = (core (strm w), handed (trace w))"

lemma obs_simps [simp]:
  "obs (w\<lparr>rets := rs\<rparr>) = obs w" "obs (w\<lparr>mems := ms\<rparr>) = obs w" "obs (w\<lparr>frames := fs\<rparr>) = obs w"
  "obs (w\<lparr>skip_cnt := n\<rparr>) = obs w"
  "obs (w\<lparr>strm := (strm w)\<lparr>queued_buffer_count := c\<rparr>\<rparr>) = obs w"
  "obs (w\<lparr>trace := trace w @ [Qbuf k]\<rparr>) = obs w" "obs (w\<lparr>trace := trace w @ [Dqbuf k]\<rparr>) = obs w"
  "obs (w\<lparr>trace := trace w @ [PollAdd]\<rparr>) = obs w" "obs (w\<lparr>trace := trace w @ [PollDel]\<rparr>) = obs w"
  by (simp_all add: obs_def core_def fun_eq_iff)

lemma keeps_upd_count: "(\<And>s. core (f s) = core s) \<Longrightarrow> keeps obs (upd f)"
  by (simp add: keeps_def upd_def obs_def)

lemma keeps_emit: "(\<And>i. hands i a = 0) \<Longrightarrow> keeps obs (emit a)"
  by (simp add: keeps_def emit_def obs_def fun_eq_iff)

lemma keeps_iff_wp: "keeps f m \<longleftrightarrow> (\<forall>w. wp m (\<lambda>_ w'. f w' = f w) w)"
  by (simp add: keeps_def wp_run)

lemma keeps_ask: "keeps obs ask"
  by (auto simp: keeps_iff_wp intro!: wp_ask)

lemma keeps_ask_mem: "keeps obs ask_mem"
  by (auto simp: keeps_iff_wp intro!: wp_ask_mem)

lemma keeps_obj: "keeps f (obj g)"
  by (simp add: keeps_def obj_def)

lemma qbuf_quiet: "keeps obs (mm_stream_qbuf b)"
  unfolding mm_stream_qbuf_def
  by (intro pres_intros keeps_upd_count keeps_emit keeps_ask keeps_obj) (simp_all add: core_def)

lemma core_upd_status [simp]: "core (s\<lparr>buf_status := x\<rparr>) = (core s)\<lparr>buf_status := x\<rparr>"
  by (simp add: core_def)

lemma core_fields [simp]:
  "buf_status (core s) = buf_status s" "app_queue (core s) = app_queue s" "bufs (core s) = bufs s"
  "buf_cb (core s) = buf_cb s" "s_state (core s) = s_state s" "core (core s) = core s"
  by (simp_all add: core_def)

lemma obs_eqD:
  assumes "obs w' = obs w"
  shows "core (strm w') = core (strm w)" and "handed (trace w') = handed (trace w)"
    and "buf_status (strm w') = buf_status (strm w)" and "app_queue (strm w') = app_queue (strm w)"
    and "bufs (strm w') = bufs (strm w)" and "buf_cb (strm w') = buf_cb (strm w)"
proof -
  show c: "core (strm w') = core (strm w)" "handed (trace w') = handed (trace w)"
    using assms by (simp_all add: obs_def)
  show "buf_status (strm w') = buf_status (strm w)" using arg_cong [OF c(1), of buf_status] by simp
  show "app_queue (strm w') = app_queue (strm w)" using arg_cong [OF c(1), of app_queue] by simp
  show "bufs (strm w') = bufs (strm w)" using arg_cong [OF c(1), of bufs] by simp
  show "buf_cb (strm w') = buf_cb (strm w)" using arg_cong [OF c(1), of buf_cb] by simp
qed

text \<open>Giving back a reference of a buffer that has one.\<close>

definition drop_ref :: "bool \<Rightarrow> nat \<Rightarrow> mm_stream \<Rightarrow> mm_stream" where
  "drop_ref k i s = s\<lparr>buf_status := map_option (\<lambda>xs. xs[i :=
     (xs ! i)\<lparr>buf_refcnt := buf_refcnt (xs ! i) - 1, in_kernel := k\<rparr>]) (buf_status s)\<rparr>"

definition add_ref :: "nat \<Rightarrow> mm_stream \<Rightarrow> mm_stream" where
  "add_ref i s = s\<lparr>buf_status := map_option (\<lambda>xs. xs[i :=
     (xs ! i)\<lparr>buf_refcnt := buf_refcnt (xs ! i) + 1\<rparr>]) (buf_status s)\<rparr>"

lemma status_at_Some: "buf_status s = Some xs \<Longrightarrow> i < length xs \<Longrightarrow> status_at i s = xs ! i"
  by (simp add: status_at_def)

lemma wp_buf_done:
  assumes xs: "buf_status (strm w) = Some xs" and i: "i = unat (buf_idx d)" "i < length xs"
    and r: "buf_refcnt (xs ! i) \<noteq> 0"
    and Q: "\<And>rc w' k. obs w' = (drop_ref k i (core (strm w)), handed (trace w)) \<Longrightarrow>
      (k \<longrightarrow> in_kernel (xs ! i) \<or> buf_refcnt (xs ! i) = 1) \<Longrightarrow> Q rc w'"
  shows "wp (mm_stream_buf_done d) Q w"
proof -
  let ?w = "w\<lparr>strm := (strm w)\<lparr>buf_status := Some (xs[i := (xs ! i)\<lparr>buf_refcnt := buf_refcnt (xs ! i) - 1\<rparr>])\<rparr>\<rparr>"
  have st: "status_at i (strm w) = xs ! i" using xs i by (simp add: status_at_Some)
  have st': "status_at i (strm ?w) = (xs ! i)\<lparr>buf_refcnt := buf_refcnt (xs ! i) - 1\<rparr>"
    using i by (simp add: status_at_def)
  have ow: "obs ?w = (drop_ref (in_kernel (xs ! i)) i (core (strm w)), handed (trace w))"
    by (simp add: obs_def drop_ref_def xs)
  show ?thesis
  proof (cases "buf_refcnt (xs ! i) = 1")
    case False
    then have "buf_refcnt (xs ! i) - 1 \<noteq> 0" by simp
    then show ?thesis using r st st' ow xs
      by (auto simp: mm_stream_buf_done_def wp_simps Let_def i(1) [symmetric] intro!: Q)
  next
    case True
    have "wp (mm_stream_qbuf d) (\<lambda>rc. wp (do {
          when_do (\<not> rc < 0) (upd_status i (\<lambda>x. x\<lparr>in_kernel := True\<rparr>)); ret rc }) Q) ?w"
    proof (rule wp_keepsI [OF qbuf_quiet])
      fix rc w' assume o: "obs w' = obs ?w"
      then have s: "buf_status (strm w') = Some (xs[i := (xs ! i)\<lparr>buf_refcnt := buf_refcnt (xs ! i) - 1\<rparr>])"
        using obs_eqD [OF o] by simp
      have "obs (w'\<lparr>strm := (strm w')\<lparr>buf_status := Some (xs[i :=
          (xs ! i)\<lparr>buf_refcnt := buf_refcnt (xs ! i) - 1, in_kernel := True\<rparr>])\<rparr>\<rparr>) =
        (drop_ref True i (core (strm w)), handed (trace w))"
        using o ow by (simp add: obs_def drop_ref_def xs)
      then show "wp (do {
          when_do (\<not> rc < 0) (upd_status i (\<lambda>x. x\<lparr>in_kernel := True\<rparr>)); ret rc }) Q w'"
        using Q o ow True i(2) by (auto simp: wp_simps s)
    qed
    then show ?thesis using r st st' True xs
      by (simp add: mm_stream_buf_done_def wp_simps Let_def i(1) [symmetric])
  qed
qed

section \<open>References\<close>

text \<open>
  For one buffer: \<open>o\<close> references given away so far, \<open>g\<close> of them given back, \<open>c\<close> commands for it in the
  queue of the stream's thread.
\<close>

definition buf_ok :: "nat \<Rightarrow> nat \<Rightarrow> nat \<Rightarrow> mm_stream_buf_status \<Rightarrow> bool" where
  "buf_ok out g c st \<longleftrightarrow> g \<le> out \<and> out + c \<le> unat (buf_refcnt st) + g \<and>
     (in_kernel st \<longrightarrow> buf_refcnt st = 0) \<and> c \<le> 1 \<and> unat (buf_refcnt st) \<le> (if c = 1 then 3 else 7)"

definition pending :: "mm_stream \<Rightarrow> nat \<Rightarrow> nat" where
  "pending s i = count_list (map idx_of (app_queue s)) i"

definition shape :: "mm_stream_buf_status list \<Rightarrow> mm_stream \<Rightarrow> bool" where
  "shape xs s \<longleftrightarrow> buf_status s = Some xs \<and> length xs \<le> 255 \<and>
     (\<exists>bs. bufs s = Some bs \<and> length bs = length xs \<and> (\<forall>i < length xs. buf_idx (bs ! i) = of_nat i)) \<and>
     (\<forall>b \<in> set (app_queue s). bi_buf b \<noteq> None \<and> idx_of b < length xs) \<and>
     length (buf_cb s) = MM_CAMERA_STREAM_BUF_CB_MAX"

definition ref_ok :: "(nat \<Rightarrow> nat) \<Rightarrow> sw \<Rightarrow> bool" where
  "ref_ok g w \<longleftrightarrow> (\<exists>xs. shape xs (strm w) \<and>
     (\<forall>i < length xs. buf_ok (handed (trace w) i) (g i) (pending (strm w) i) (xs ! i)))"

text \<open>
  In the middle of an operation on buffer \<open>i\<close>: \<open>e\<close> references counted that nobody has yet, at most
  \<open>cap\<close> in all.
\<close>

definition RI :: "nat \<Rightarrow> nat \<Rightarrow> nat \<Rightarrow> nat \<Rightarrow> bool \<Rightarrow> (nat \<Rightarrow> nat) \<Rightarrow> sw \<Rightarrow> bool" where
  "RI i e cap c kf g w \<longleftrightarrow> (\<exists>xs. shape xs (strm w) \<and> i < length xs \<and> pending (strm w) i = c \<and>
     g i \<le> handed (trace w) i \<and> handed (trace w) i + c + e \<le> unat (buf_refcnt (xs ! i)) + g i \<and>
     (in_kernel (xs ! i) \<longrightarrow> buf_refcnt (xs ! i) = 0 \<and> kf) \<and> unat (buf_refcnt (xs ! i)) \<le> cap \<and>
     (\<forall>j < length xs. j \<noteq> i \<longrightarrow>
        buf_ok (handed (trace w) j) (g j) (pending (strm w) j) (xs ! j)))"

lemma pending_core [simp]: "pending (core s) = pending s"
  by (simp add: pending_def fun_eq_iff)

lemma shape_core [simp]: "shape xs (core s) = shape xs s"
  by (simp add: shape_def)

lemma RI_obs:
  assumes "obs w' = obs w"
  shows "RI i e cap c kf g w' = RI i e cap c kf g w"
  by (simp only: RI_def pending_def shape_def obs_eqD [OF assms])

lemma RI_weaken:
  assumes "RI i e cap c kf g w" and "e' \<le> e" and "cap \<le> cap'"
  shows "RI i e' cap' c True g w"
proof -
  from assms(1) obtain xs where "shape xs (strm w)" "i < length xs" "pending (strm w) i = c"
      "g i \<le> handed (trace w) i" "handed (trace w) i + c + e \<le> unat (buf_refcnt (xs ! i)) + g i"
      "in_kernel (xs ! i) \<longrightarrow> buf_refcnt (xs ! i) = 0" "unat (buf_refcnt (xs ! i)) \<le> cap"
      "\<forall>j < length xs. j \<noteq> i \<longrightarrow> buf_ok (handed (trace w) j) (g j) (pending (strm w) j) (xs ! j)"
    unfolding RI_def by blast
  then show ?thesis using assms(2,3) unfolding RI_def by (intro exI [of _ xs]) simp
qed

lemma RI_ref_ok:
  assumes "RI i 0 cap c kf g w" and "c \<le> 1" and "cap \<le> (if c = 1 then 3 else 7)"
  shows "ref_ok g w"
proof -
  from assms(1) obtain xs where xs: "shape xs (strm w)" "i < length xs" "pending (strm w) i = c"
      "g i \<le> handed (trace w) i" "handed (trace w) i + c \<le> unat (buf_refcnt (xs ! i)) + g i"
      "in_kernel (xs ! i) \<longrightarrow> buf_refcnt (xs ! i) = 0" "unat (buf_refcnt (xs ! i)) \<le> cap"
      "\<forall>j < length xs. j \<noteq> i \<longrightarrow> buf_ok (handed (trace w) j) (g j) (pending (strm w) j) (xs ! j)"
    unfolding RI_def by auto
  then have "buf_ok (handed (trace w) i) (g i) (pending (strm w) i) (xs ! i)"
    using assms(2,3) by (simp add: buf_ok_def)
  then have "\<forall>j < length xs. buf_ok (handed (trace w) j) (g j) (pending (strm w) j) (xs ! j)"
    using xs(8) by blast
  then show ?thesis using xs(1) unfolding ref_ok_def by blast
qed

lemma ref_ok_RI:
  assumes "ref_ok g w" and "shape xs (strm w)" and "i < length xs"
  shows "RI i 0 (if pending (strm w) i = 1 then 3 else 7) (pending (strm w) i) True g w"
    and "pending (strm w) i \<le> 1"
  using assms unfolding ref_ok_def RI_def by (auto simp: shape_def buf_ok_def)

lemma shape_status:
  "shape xs s \<Longrightarrow> length xs' = length xs \<Longrightarrow> shape xs' (s\<lparr>buf_status := Some xs'\<rparr>)"
  by (simp add: shape_def)

lemma RI_inc:
  assumes "RI i e cap c False g w" and "cap < 255"
  shows "RI i (Suc e) (Suc cap) c False g (w\<lparr>strm := add_ref i (strm w)\<rparr>)"
proof -
  obtain xs where xs: "shape xs (strm w)" "i < length xs" "pending (strm w) i = c"
      "g i \<le> handed (trace w) i" "handed (trace w) i + c + e \<le> unat (buf_refcnt (xs ! i)) + g i"
      "\<not> in_kernel (xs ! i)" "unat (buf_refcnt (xs ! i)) \<le> cap"
      "\<forall>j < length xs. j \<noteq> i \<longrightarrow> buf_ok (handed (trace w) j) (g j) (pending (strm w) j) (xs ! j)"
    using assms(1) unfolding RI_def by blast
  let ?xs = "xs[i := (xs ! i)\<lparr>buf_refcnt := buf_refcnt (xs ! i) + 1\<rparr>]"
  have s: "add_ref i (strm w) = (strm w)\<lparr>buf_status := Some ?xs\<rparr>"
    using xs(1) by (simp add: add_ref_def shape_def)
  have u: "unat (buf_refcnt (xs ! i) + 1) = unat (buf_refcnt (xs ! i)) + 1"
    using xs(7) assms(2) by (subst unat_add_lem [THEN iffD1]) auto
  have "shape ?xs (strm (w\<lparr>strm := add_ref i (strm w)\<rparr>))" using xs(1) by (simp add: s shape_status)
  moreover have "pending (add_ref i (strm w)) = pending (strm w)" by (simp add: s pending_def fun_eq_iff)
  ultimately show ?thesis using xs u unfolding RI_def by (intro exI [of _ ?xs]) (auto simp: s)
qed

lemma RI_hand:
  assumes "RI i (Suc e) cap c kf g w" and "\<And>j. hands j a = of_bool (j = i)"
  shows "RI i e cap c kf g (w\<lparr>trace := trace w @ [a]\<rparr>)"
  using assms by (fastforce simp: RI_def)

lemma RI_done:
  assumes "RI i (Suc e) cap c kf g w" and "unat (buf_idx d) = i"
  shows "wp (mm_stream_buf_done d) (\<lambda>_. RI i e cap c True g) w"
proof -
  obtain xs where xs: "shape xs (strm w)" "i < length xs" "pending (strm w) i = c"
      "g i \<le> handed (trace w) i" "handed (trace w) i + c + Suc e \<le> unat (buf_refcnt (xs ! i)) + g i"
      "in_kernel (xs ! i) \<longrightarrow> buf_refcnt (xs ! i) = 0" "unat (buf_refcnt (xs ! i)) \<le> cap"
      "\<forall>j < length xs. j \<noteq> i \<longrightarrow> buf_ok (handed (trace w) j) (g j) (pending (strm w) j) (xs ! j)"
    using assms(1) unfolding RI_def by blast
  have r: "buf_refcnt (xs ! i) \<noteq> 0" using xs(4,5) by auto
  have u: "unat (buf_refcnt (xs ! i) - 1) = unat (buf_refcnt (xs ! i)) - 1"
    using r by (simp add: unat_minus_one)
  show ?thesis
  proof (rule wp_buf_done [where xs = xs and i = i])
    show "buf_status (strm w) = Some xs" using xs(1) by (simp add: shape_def)
    show "i = unat (buf_idx d)" "i < length xs" "buf_refcnt (xs ! i) \<noteq> 0" using assms(2) xs(2) r by auto
  next
    fix rc w' k
    assume o: "obs w' = (drop_ref k i (core (strm w)), handed (trace w))"
      and k: "k \<longrightarrow> in_kernel (xs ! i) \<or> buf_refcnt (xs ! i) = 1"
    let ?xs = "xs[i := (xs ! i)\<lparr>buf_refcnt := buf_refcnt (xs ! i) - 1, in_kernel := k\<rparr>]"
    have b: "buf_status (strm w) = Some xs" using xs(1) by (simp add: shape_def)
    have d: "drop_ref k i (core (strm w)) = core ((strm w)\<lparr>buf_status := Some ?xs\<rparr>)"
      by (simp add: drop_ref_def b)
    have o': "obs w' = obs (w\<lparr>strm := (strm w)\<lparr>buf_status := Some ?xs\<rparr>\<rparr>)"
      using o d by (simp add: obs_def)
    have "shape ?xs ((strm w)\<lparr>buf_status := Some ?xs\<rparr>)" using xs(1) by (simp add: shape_status)
    moreover have "pending ((strm w)\<lparr>buf_status := Some ?xs\<rparr>) = pending (strm w)"
      by (simp add: pending_def fun_eq_iff)
    ultimately have "RI i e cap c True g (w\<lparr>strm := (strm w)\<lparr>buf_status := Some ?xs\<rparr>\<rparr>)"
      using xs u k r unfolding RI_def by (intro exI [of _ ?xs]) auto
    then show "RI i e cap c True g w'" using RI_obs [OF o'] by simp
  qed
qed

lemma RI_upd:
  assumes "RI i e cap c kf g w"
    and "buf_status s' = buf_status (strm w)" and "app_queue s' = app_queue (strm w)"
    and "length (buf_cb s') = length (buf_cb (strm w))" and "bufs s' = bufs (strm w)"
  shows "RI i e cap c kf g (w\<lparr>strm := s'\<rparr>)"
  using assms unfolding RI_def shape_def pending_def by simp

lemma RI_less: "RI i (Suc e) cap c kf g w \<Longrightarrow> RI i e cap c kf g w"
  by (auto simp: RI_def)

lemma wp_notify:
  assumes "RI i (Suc e) cap c kf g w" and "\<And>j. hands j a = of_bool (j = i)"
  shows "wp (mm_stream_notify_channel ch a) (\<lambda>_. RI i e cap c kf g) w"
proof (cases ch)
  case None
  then show ?thesis using RI_less [OF assms(1)] by (simp add: mm_stream_notify_channel_def wp_simps)
next
  case (Some ch')
  have o: "RI i (Suc e) cap c kf g (w\<lparr>mems := ms\<rparr>)" for ms
    using assms(1) RI_obs [of "w\<lparr>mems := ms\<rparr>" w] by simp
  have h: "RI i e cap c kf g (w\<lparr>mems := ms, trace := trace w @ [a]\<rparr>)" for ms
    using RI_hand [OF o assms(2), of ms] by simp
  have "wp ask_mem (\<lambda>node. wp (if node then do { q \<leftarrow> ask_mem; when_do q (emit a); ret 0 } else ret (- 12 :: int))
      (\<lambda>_. RI i e cap c kf g)) w"
    by (rule wp_ask_mem) (auto simp: wp_simps RI_less [OF o] h intro!: wp_ask_mem)
  then show ?thesis by (simp add: mm_stream_notify_channel_def Some wp_simps)
qed

lemma wp_notify_unit:
  assumes "RI i (Suc e) cap c kf g w" and "\<And>j. hands j a = of_bool (j = i)"
  shows "wp (do { _ \<leftarrow> mm_stream_notify_channel ch a; ret () }) (\<lambda>_. RI i e cap c kf g) w"
  by (rule wp_seq [OF wp_notify [OF assms]]) (simp add: wp_return)

lemma RI_enq:
  assumes "RI i (Suc e) 3 0 kf g w" and "idx_of b = i" and "bi_buf b \<noteq> None"
  shows "RI i e 3 1 kf g (w\<lparr>strm := (strm w)\<lparr>app_queue := app_queue (strm w) @ [b]\<rparr>\<rparr>)"
proof -
  obtain xs where xs: "shape xs (strm w)" "i < length xs" "pending (strm w) i = 0"
      "g i \<le> handed (trace w) i" "handed (trace w) i + Suc e \<le> unat (buf_refcnt (xs ! i)) + g i"
      "in_kernel (xs ! i) \<longrightarrow> buf_refcnt (xs ! i) = 0 \<and> kf" "unat (buf_refcnt (xs ! i)) \<le> 3"
      "\<forall>j < length xs. j \<noteq> i \<longrightarrow> buf_ok (handed (trace w) j) (g j) (pending (strm w) j) (xs ! j)"
    using assms(1) unfolding RI_def by auto
  have p: "pending ((strm w)\<lparr>app_queue := app_queue (strm w) @ [b]\<rparr>) j = pending (strm w) j + of_bool (j = i)" for j
    using assms(2) by (auto simp: pending_def)
  have "shape xs ((strm w)\<lparr>app_queue := app_queue (strm w) @ [b]\<rparr>)"
    using xs(1,2) assms(2,3) by (auto simp: shape_def)
  then show ?thesis using xs p unfolding RI_def by (intro exI [of _ xs]) simp
qed

definition settled :: "nat \<Rightarrow> (nat \<Rightarrow> nat) \<Rightarrow> sw \<Rightarrow> bool" where
  "settled i g w \<longleftrightarrow> (\<exists>c \<le> 1. RI i 0 3 c True g w)"

lemma settled_I: "RI i e cap c kf g w \<Longrightarrow> c \<le> 1 \<Longrightarrow> cap \<le> 3 \<Longrightarrow> settled i g w"
  unfolding settled_def using RI_weaken [of i e cap c kf g w 0 3] by auto

lemma settled_ref_ok: "settled i g w \<Longrightarrow> ref_ok g w"
  unfolding settled_def by (auto dest: RI_ref_ok)

lemma add_ref_upd: "wp (upd_status i (\<lambda>x. x\<lparr>buf_refcnt := buf_refcnt x + 1\<rparr>)) Q w = Q () (w\<lparr>strm := add_ref i (strm w)\<rparr>)"
  by (simp add: wp_upd_status add_ref_def)


lemma RI_mems: "RI i e cap c kf g w \<Longrightarrow> RI i e cap c kf g (w\<lparr>mems := ms\<rparr>)"
  using RI_obs [of "w\<lparr>mems := ms\<rparr>" w] by simp

lemma wp_when_RI:
  assumes "b \<Longrightarrow> wp m Q w" and "\<not> b \<Longrightarrow> Q () w"
  shows "wp (when_do b m) Q w"
  using assms by (simp add: wp_simps)

lemma wp_handle_rcvd:
  assumes RI: "RI i (of_bool (is_bundled (strm w)) + of_bool with_cb) 2 0 False g w"
    and b: "bi_buf b = Some d" "unat (buf_idx d) = i"
    and cb: "with_cb \<or> map_option si_type (stream_info (strm w)) \<noteq> Some CAM_STREAM_TYPE_PREVIEW"
  shows "wp (mm_stream_handle_rcvd_buf b with_cb) (\<lambda>_. settled i g) w"
proof -
  have h: "hands j (ToChannel b) = of_bool (j = i)" "hands j (ToLinked b) = of_bool (j = i)" for j
    using b by (auto simp: idx_of_def)
  have ib: "idx_of b = i" "bi_buf b \<noteq> None" using b by (simp_all add: idx_of_def)
  have s1: "wp (when_do (is_bundled (strm w)) (do {
        _ \<leftarrow> mm_stream_notify_channel (s_ch_obj (strm w)) (ToChannel b); ret () }))
      (\<lambda>_. RI i (of_bool with_cb) 2 0 False g) w"
    using RI h(1) by (intro wp_when_RI) (auto intro!: wp_notify_unit)
  have s2: "wp (when_do (is_linked s) (do {
        upd_status i (\<lambda>x. x\<lparr>buf_refcnt := buf_refcnt x + 1\<rparr>);
        _ \<leftarrow> mm_stream_notify_channel (linked_obj s) (ToLinked b); ret () }))
      (\<lambda>_. RI i (of_bool with_cb) 3 0 False g) w1"
    if "RI i (of_bool with_cb) 2 0 False g w1" for s w1
  proof (rule wp_when_RI)
    have "RI i (Suc (of_bool with_cb)) 3 0 False g (w1\<lparr>strm := add_ref i (strm w1)\<rparr>)"
      using RI_inc [OF that] by (simp add: eval_nat_numeral)
    then show "wp (do { upd_status i (\<lambda>x. x\<lparr>buf_refcnt := buf_refcnt x + 1\<rparr>);
        _ \<leftarrow> mm_stream_notify_channel (linked_obj s) (ToLinked b); ret () })
      (\<lambda>_. RI i (of_bool with_cb) 3 0 False g) w1"
      using h(2) by (subst wp_bind) (simp add: add_ref_upd wp_notify_unit)
    show "RI i (of_bool with_cb) 3 0 False g w1"
      using that unfolding RI_def by (elim exE conjE) (intro exI conjI; assumption?; simp)
  qed
  have enq: "settled i g (w1\<lparr>mems := ms, strm := (strm w1)\<lparr>app_queue := app_queue (strm w1) @ [b]\<rparr>\<rparr>)"
    if "RI i 1 3 0 False g w1" for w1 ms
  proof -
    have "RI i (Suc 0) 3 0 False g (w1\<lparr>mems := ms\<rparr>)" using RI_mems [OF that] by simp
    from RI_enq [OF this ib] show ?thesis by (intro settled_I [of i 0 3 1]) simp_all
  qed
  have s3: "wp (do {
      n \<leftarrow> gets skip_cnt;
      if n \<noteq> 0 \<and> map_option si_type (stream_info s) = Some CAM_STREAM_TYPE_PREVIEW then do {
        modify (\<lambda>w. w\<lparr>skip_cnt := skip_cnt w - 1\<rparr>);
        _ \<leftarrow> mm_stream_buf_done (the (bi_buf b));
        ret () }
      else when_do (with_cb \<and> app_active s) (do {
        node \<leftarrow> ask_mem;
        q \<leftarrow> (if node then ask_mem else ret False);
        when_do q (upd (\<lambda>s. s\<lparr>app_queue := app_queue s @ [b]\<rparr>)) }) })
      (\<lambda>_. settled i g) w1"
    if w1: "RI i (of_bool with_cb) 3 0 False g w1"
      and s: "with_cb \<or> map_option si_type (stream_info s) \<noteq> Some CAM_STREAM_TYPE_PREVIEW" for s w1
  proof -
    have st: "settled i g (w1\<lparr>mems := ms\<rparr>)" for ms
      using RI_mems [OF w1] by (rule settled_I) simp_all
    have dn: "wp (do { _ \<leftarrow> mm_stream_buf_done d; ret () }) (\<lambda>_. settled i g) (w1\<lparr>skip_cnt := k\<rparr>)"
      if "with_cb" for k
    proof -
      have "RI i 1 3 0 False g (w1\<lparr>skip_cnt := k\<rparr>)"
        using RI_obs [of "w1\<lparr>skip_cnt := k\<rparr>" w1] w1 that by simp
      then show ?thesis
        by (intro wp_seq [OF RI_done [OF _ b(2)]]) (auto simp: wp_return intro: settled_I)
    qed
    have enq1: "settled i g (w1\<lparr>mems := ms, strm := (strm w1)\<lparr>app_queue := app_queue (strm w1) @ [b]\<rparr>\<rparr>)"
      if "with_cb" for ms using enq [of w1 ms] w1 that by simp
    show ?thesis
      using s st [of "mems w1"]
      by (auto simp: wp_simps b(1) st enq1 intro!: wp_ask_mem dn [unfolded wp_bind])
  qed
  have "wp (do {
      when_do (is_bundled (strm w)) (do {
        _ \<leftarrow> mm_stream_notify_channel (s_ch_obj (strm w)) (ToChannel b); ret () });
      when_do (is_linked (strm w)) (do {
        upd_status i (\<lambda>x. x\<lparr>buf_refcnt := buf_refcnt x + 1\<rparr>);
        _ \<leftarrow> mm_stream_notify_channel (linked_obj (strm w)) (ToLinked b); ret () });
      n \<leftarrow> gets skip_cnt;
      if n \<noteq> 0 \<and> map_option si_type (stream_info (strm w)) = Some CAM_STREAM_TYPE_PREVIEW then do {
        modify (\<lambda>w. w\<lparr>skip_cnt := skip_cnt w - 1\<rparr>);
        _ \<leftarrow> mm_stream_buf_done (the (bi_buf b));
        ret () }
      else when_do (with_cb \<and> app_active (strm w)) (do {
        node \<leftarrow> ask_mem;
        q \<leftarrow> (if node then ask_mem else ret False);
        when_do q (upd (\<lambda>s. s\<lparr>app_queue := app_queue s @ [b]\<rparr>)) }) })
      (\<lambda>_. settled i g) w"
    by (rule wp_seq [OF s1 wp_seq [OF s2 s3 [OF _ cb]]])
  then show ?thesis
    unfolding b option.sel
    by (simp only: mm_stream_handle_rcvd_buf_def Let_def wp_bind [of "obj id"] wp_obj id_apply b option.sel)
qed

section \<open>The thread and the holders\<close>

lemma RI_not_kernel: "RI i (Suc e) cap c kf g w \<Longrightarrow> RI i (Suc e) cap c False g w"
  by (auto simp: RI_def)

lemma RI_any: "RI i e cap c False g w \<Longrightarrow> RI i e cap c kf g w"
  by (auto simp: RI_def)

lemma RI_cap: "RI i e cap c kf g w \<Longrightarrow> cap \<le> cap' \<Longrightarrow> RI i e cap' c kf g w"
  unfolding RI_def by (elim exE conjE) (intro exI conjI; (assumption | simp)?)

lemma wp_app_callback:
  assumes "RI i (Suc e) cap c kf g w" and "cap < 254" and "unat (buf_idx d) = i"
  shows "wp (app_callback d k) (\<lambda>_. RI i (Suc e) (Suc cap) c False g) w"
proof (cases "cb (buf_cb (strm w) ! k)")
  case None
  then show ?thesis using RI_cap [OF RI_not_kernel [OF assms(1)], of "Suc cap"]
    by (simp add: app_callback_def wp_simps)
next
  case (Some f)
  let ?c = "buf_cb (strm w) ! k"
  let ?act = "do { upd_status (unat (buf_idx d)) (\<lambda>x. x\<lparr>buf_refcnt := buf_refcnt x + 1\<rparr>);
      emit (Callback f (buf_idx d)) }"
  have call: "wp (when_do (cb_count ?c \<noteq> 0) ?act) (\<lambda>_. RI i (Suc e) (Suc cap) c False g) w"
  proof (rule wp_when_RI)
    have "RI i (Suc (Suc e)) (Suc cap) c False g (w\<lparr>strm := add_ref i (strm w)\<rparr>)"
      using assms(1,2) by (intro RI_inc RI_not_kernel) simp_all
    from RI_hand [OF this, of "Callback f (buf_idx d)"] assms(3)
    show "wp ?act (\<lambda>_. RI i (Suc e) (Suc cap) c False g) w"
      by (subst wp_bind) (auto simp: add_ref_upd wp_emit)
    show "RI i (Suc e) (Suc cap) c False g w" by (rule RI_cap [OF RI_not_kernel [OF assms(1)]]) simp
  qed
  have cnt: "wp (when_do (0 < sint (cb_count ?c)) (
        let n = cb_count ?c - 1 in
        upd (\<lambda>s. s\<lparr>buf_cb := (buf_cb s)[k := if n = 0 then no_cb else ?c\<lparr>cb_count := n\<rparr>]\<rparr>)))
      (\<lambda>_. RI i (Suc e) (Suc cap) c False g) w'"
    if "RI i (Suc e) (Suc cap) c False g w'" for w'
    using that by (intro wp_when_RI) (auto simp: Let_def wp_upd intro: RI_upd)
  show ?thesis
    using wp_seq [OF call cnt] by (simp add: app_callback_def wp_bind [of "obj _"] wp_obj Some)
qed

lemma wp_callbacks:
  assumes "RI i (Suc e) cap c False g w" and "cap + length ks < 254" and "unat (buf_idx d) = i"
  shows "wp (for_each (app_callback d) ks) (\<lambda>_. RI i (Suc e) (cap + length ks) c False g) w"
  using assms(1,2)
proof (induction ks arbitrary: cap w)
  case Nil
  then show ?case by (simp add: wp_return)
next
  case (Cons k ks)
  have "wp (app_callback d k) (\<lambda>_. RI i (Suc e) (Suc cap) c False g) w"
    using Cons.prems assms(3) by (intro wp_app_callback) simp_all
  then show ?case
    using Cons.IH [of "Suc cap"] Cons.prems(2) by (auto intro: wp_seq)
qed

lemma wp_dispatch:
  assumes "RI i 1 3 0 kf g w" and "idx_of b = i"
  shows "wp (mm_stream_dispatch_app_data b) (\<lambda>_. ref_ok g) w"
proof -
  have i: "unat (buf_idx (the (bi_buf b))) = i" using assms(2) by (simp add: idx_of_def)
  have "RI i (Suc 0) 3 0 False g w" using assms(1) RI_not_kernel [of i 0 3 0 kf g w] by simp
  from wp_callbacks [OF this, of "[0..<MM_CAMERA_STREAM_BUF_CB_MAX]"] i
  have c: "wp (for_each (app_callback (the (bi_buf b))) [0..<MM_CAMERA_STREAM_BUF_CB_MAX])
      (\<lambda>_. RI i (Suc 0) 7 0 False g) w"
    by (simp add: MM_CAMERA_STREAM_BUF_CB_MAX_def)
  have d: "wp (do { _ \<leftarrow> mm_stream_buf_done (the (bi_buf b)); ret () }) (\<lambda>_. ref_ok g) w'"
    if "RI i (Suc 0) 7 0 False g w'" for w'
    by (rule wp_seq [OF RI_done [OF that i]]) (auto simp: wp_return intro: RI_ref_ok)
  show ?thesis unfolding mm_stream_dispatch_app_data_def Let_def by (rule wp_seq [OF c d])
qed

lemma ref_ok_shape: "ref_ok g w \<Longrightarrow> \<exists>xs. shape xs (strm w)"
  by (auto simp: ref_ok_def)

lemma RI_deq:
  assumes "ref_ok g w" and "app_queue (strm w) = b # q"
  shows "RI (idx_of b) 1 3 0 True g (w\<lparr>strm := (strm w)\<lparr>app_queue := q\<rparr>\<rparr>)"
proof -
  let ?i = "idx_of b"
  obtain xs where sh: "shape xs (strm w)"
    and ok: "\<forall>j < length xs. buf_ok (handed (trace w) j) (g j) (pending (strm w) j) (xs ! j)"
    using assms(1) by (auto simp: ref_ok_def)
  have i: "?i < length xs" using sh assms(2) by (auto simp: shape_def)
  have p: "pending (strm w) j = pending ((strm w)\<lparr>app_queue := q\<rparr>) j + of_bool (j = ?i)" for j
    using assms(2) by (auto simp: pending_def)
  have "shape xs ((strm w)\<lparr>app_queue := q\<rparr>)" using sh assms(2) by (auto simp: shape_def)
  moreover have "buf_ok (handed (trace w) ?i) (g ?i) (pending (strm w) ?i) (xs ! ?i)" using ok i by blast
  ultimately show ?thesis using ok i p unfolding RI_def
    by (intro exI [of _ xs]) (auto simp: buf_ok_def split: if_splits)
qed

lemma app_thread_ok:
  assumes "ref_ok g w"
  shows "wp app_thread_step (\<lambda>_. ref_ok g) w"
proof (cases "app_queue (strm w)")
  case Nil
  then show ?thesis using assms by (simp add: app_thread_step_def wp_simps)
next
  case (Cons b q)
  from wp_dispatch [OF RI_deq [OF assms Cons] refl] show ?thesis
    by (simp add: app_thread_step_def wp_bind [of "obj _"] wp_obj Cons wp_bind [of "upd _"] wp_upd)
qed

text \<open>A holder gives its reference back.\<close>

lemma give_ok:
  assumes "ref_ok g w" and "g i < handed (trace w) i" and "unat (buf_idx d) = i"
    and "i < length (the (buf_status (strm w)))"
  shows "wp (mm_stream_buf_done d) (\<lambda>_. ref_ok (g(i := Suc (g i)))) w"
proof -
  obtain xs where sh: "shape xs (strm w)" using ref_ok_shape [OF assms(1)] by blast
  then have i: "i < length xs" using assms(4) by (simp add: shape_def)
  let ?c = "pending (strm w) i"
  note r = ref_ok_RI [OF assms(1) sh i]
  have "RI i 1 (if ?c = 1 then 3 else 7) ?c True (g(i := Suc (g i))) w"
    using r(1) assms(2) unfolding RI_def by auto
  then have "RI i (Suc 0) (if ?c = 1 then 3 else 7) ?c True (g(i := Suc (g i))) w" by simp
  from RI_done [OF this assms(3)] show ?thesis
    by (rule wp_mono) (rule RI_ref_ok, assumption, use r(2) in auto)
qed

section \<open>Frames\<close>

lemma RI_leave_kernel:
  assumes "RI i e cap c kf g w"
  shows "wp (upd_status i (\<lambda>x. x\<lparr>in_kernel := False\<rparr>)) (\<lambda>_. RI i e cap c False g) w"
proof -
  obtain xs where xs: "shape xs (strm w)" "i < length xs" "pending (strm w) i = c"
      "g i \<le> handed (trace w) i" "handed (trace w) i + c + e \<le> unat (buf_refcnt (xs ! i)) + g i"
      "unat (buf_refcnt (xs ! i)) \<le> cap"
      "\<forall>j < length xs. j \<noteq> i \<longrightarrow> buf_ok (handed (trace w) j) (g j) (pending (strm w) j) (xs ! j)"
    using assms unfolding RI_def by blast
  let ?xs = "xs[i := (xs ! i)\<lparr>in_kernel := False\<rparr>]"
  have b: "buf_status (strm w) = Some xs" using xs(1) by (simp add: shape_def)
  have "shape ?xs ((strm w)\<lparr>buf_status := Some ?xs\<rparr>)" using xs(1) by (simp add: shape_status)
  moreover have "pending ((strm w)\<lparr>buf_status := Some ?xs\<rparr>) = pending (strm w)"
    by (simp add: pending_def fun_eq_iff)
  ultimately show ?thesis using xs unfolding wp_upd_status b RI_def
    by (intro exI [of _ ?xs]) auto
qed

lemma upd_status_zero: "wp (upd_status i (\<lambda>x. x\<lparr>buf_refcnt := buf_refcnt x + 0\<rparr>)) Q w = Q () w"
proof -
  have "map_option (\<lambda>xs. xs[i := xs ! i]) y = y" for y :: "mm_stream_buf_status list option"
    by (cases y) simp_all
  then show ?thesis by (simp add: wp_upd_status)
qed

lemma ref_ok_obs:
  assumes "obs w' = obs w"
  shows "ref_ok g w' = ref_ok g w"
  by (simp only: ref_ok_def pending_def shape_def obs_eqD [OF assms])

lemma wp_ask_frame: "frames w = f # fs \<Longrightarrow> wp ask_frame Q w = Q f (w\<lparr>frames := fs\<rparr>)"
  by (simp add: ask_frame_def wp_simps)

lemma handed_dqbuf [simp]:
  "handed (tr @ [Dqbuf k]) = handed tr" "handed (tr @ [Dqbuf k, PollDel]) = handed tr"
  by (simp_all add: handed_def fun_eq_iff)

definition read_post :: "(nat \<Rightarrow> nat) \<Rightarrow> nat \<Rightarrow> mm_stream \<Rightarrow> int \<Rightarrow> mm_camera_buf_info \<Rightarrow> sw \<Rightarrow> bool" where
  "read_post g i s rc b w' \<longleftrightarrow> ref_ok g w' \<and>
     (rc = 0 \<longrightarrow> (\<exists>d. bi_buf b = Some d \<and> unat (buf_idx d) = i) \<and> RI i 0 0 0 True g w' \<and>
        is_bundled (strm w') = is_bundled s \<and> stream_info (strm w') = stream_info s)"

lemma wp_read:
  assumes ok: "ref_ok g w" and fr: "frames w = (idx, seq) # fs"
    and k: "in_kernel (status_at (unat idx) (strm w))"
  shows "wp mm_stream_read_msm_frame (\<lambda>(rc, b). read_post g (unat idx) (strm w) rc b) w"
proof -
  let ?i = "unat idx"
  obtain xs bs where sh: "shape xs (strm w)" and bs: "bufs (strm w) = Some bs" "length bs = length xs"
      "\<forall>i < length xs. buf_idx (bs ! i) = of_nat i"
    and ok': "\<forall>j < length xs. buf_ok (handed (trace w) j) (g j) (pending (strm w) j) (xs ! j)"
    using ok by (auto simp: ref_ok_def shape_def)
  have i: "?i < length xs" and ki: "in_kernel (xs ! ?i)"
    using k sh by (auto simp: status_at_def free_status_def shape_def split: if_splits)
  define nb where "nb = (bs ! ?i)\<lparr>b_stream_id := my_hdl (strm w), buf_idx := idx\<rparr>"
  define s' where "s' = (\<lambda>n. (strm w)\<lparr>bufs := Some (bs[?i := nb]), queued_buffer_count := n\<rparr>)"
  have sh': "shape xs (s' n)" for n
    using sh bs i by (auto simp: shape_def s'_def nb_def nth_list_update)
  have p: "pending (s' n) = pending (strm w)" for n by (simp add: pending_def s'_def fun_eq_iff)
  have RI: "RI ?i 0 0 0 True g w'" if "strm w' = s' n" "handed (trace w') = handed (trace w)" for w' n
    using sh' p ok' i ki unfolding RI_def that by (intro exI [of _ xs]) (auto simp: buf_ok_def)
  have ro: "ref_ok g w'" if "strm w' = s' n" "handed (trace w') = handed (trace w)" for w' n
    using RI [OF that] by (rule RI_ref_ok) simp_all
  have nth: "bs[?i := nb] ! ?i = nb" using i bs by simp
  have fin: "read_post g ?i (strm w) rc b w'"
    if "(strm w')\<lparr>queued_buffer_count := 0\<rparr> = s' 0" "handed (trace w') = handed (trace w)"
      "bi_buf b = Some nb" for rc b w'
  proof -
    have "strm w' = ((strm w')\<lparr>queued_buffer_count := 0\<rparr>)\<lparr>queued_buffer_count := queued_buffer_count (strm w')\<rparr>"
      by simp
    then have "strm w' = s' (queued_buffer_count (strm w'))" unfolding that(1) by (simp add: s'_def)
    from RI [OF this that(2)] ro [OF this that(2)] this that(3) show ?thesis
      by (auto simp: read_post_def nb_def s'_def dest: arg_cong [of _ _ is_bundled] arg_cong [of _ _ stream_info])
  qed
  have fail: "read_post g ?i (strm w) rc b (w\<lparr>rets := rs\<rparr>)" if "rc < 0" for rc b rs
    using ok ref_ok_obs [of "w\<lparr>rets := rs\<rparr>" w] that by (simp add: read_post_def)
  show ?thesis
    unfolding mm_stream_read_msm_frame_def wp_bind [of ask]
    by (rule wp_ask)
      (auto simp: wp_simps Let_def wp_ask_frame [where f = "(idx, seq)" and fs = fs] fr bs(1) nth
        nb_def [symmetric] fail s'_def intro!: wp_ask fin)
qed

lemma data_notify_ok:
  assumes ok: "ref_ok g w" and fr: "frames w = (idx, seq) # fs"
    and k: "in_kernel (status_at (unat idx) (strm w))"
    and cb: "has_cb (strm w) \<or> map_option si_type (stream_info (strm w)) \<noteq> Some CAM_STREAM_TYPE_PREVIEW"
  shows "wp mm_stream_data_notify (\<lambda>_. ref_ok g) w"
proof (cases "s_state (strm w) = MM_STREAM_STATE_ACTIVE")
  case False
  then show ?thesis using ok by (simp add: mm_stream_data_notify_def wp_simps)
next
  case True
  let ?s = "strm w" and ?i = "unat idx"
  define J where "J = (\<lambda>e cap kf (_ :: unit) w1. RI ?i e cap 0 kf g w1 \<and>
    is_bundled (strm w1) = is_bundled ?s \<and> stream_info (strm w1) = stream_info ?s)"
  have stat: "wp (upd_status ?i f) (\<lambda>_ w2. is_bundled (strm w2) = is_bundled (strm w1) \<and>
      stream_info (strm w2) = stream_info (strm w1)) w1" for f w1
    by (simp add: wp_upd_status)
  have c1: "wp (upd_status ?i (\<lambda>x. x\<lparr>in_kernel := False\<rparr>)) (J 0 0 False) w1" if "J 0 0 True () w1" for w1
  proof -
    have "RI ?i 0 0 0 True g w1" using that by (simp add: J_def)
    from wp_conj [OF RI_leave_kernel [OF this] stat] that show ?thesis
      by (auto simp: J_def elim!: wp_mono)
  qed
  have add: "wp (upd_status ?i (\<lambda>x. x\<lparr>buf_refcnt := buf_refcnt x + 1\<rparr>)) (J (Suc e) (Suc cap) False) w1"
    if "J e cap False () w1" "cap < 255" for e cap w1
    using RI_inc [of ?i e cap 0 g w1] that unfolding add_ref_upd by (auto simp: J_def add_ref_def)
  have c2: "wp (when_do (is_bundled ?s) (upd_status ?i (\<lambda>x. x\<lparr>buf_refcnt := buf_refcnt x + 1\<rparr>)))
      (J (of_bool (is_bundled ?s)) 1 False) w1" if "J 0 0 False () w1" for w1
    using add [of 0 0 w1] that RI_cap [of ?i 0 0 0 False g w1 1] by (auto simp: wp_when J_def)
  have c3: "wp (upd_status ?i (\<lambda>x. x\<lparr>buf_refcnt := buf_refcnt x + (if has_cb ?s then 1 else 0)\<rparr>))
      (J (of_bool (is_bundled ?s) + of_bool (has_cb ?s)) 2 False) w1"
    if "J (of_bool (is_bundled ?s)) 1 False () w1" for w1
    using add [of "of_bool (is_bundled ?s)" 1 w1] that RI_cap [of ?i _ 1 0 False g w1 2] upd_status_zero [of ?i _ w1]
    by (auto simp: J_def eval_nat_numeral)
  have h: "wp (mm_stream_handle_rcvd_buf b (has_cb ?s)) (\<lambda>_. ref_ok g) w1"
    if "J (of_bool (is_bundled ?s) + of_bool (has_cb ?s)) 2 False () w1"
      "bi_buf b = Some d" "unat (buf_idx d) = ?i" for b d w1
    using wp_handle_rcvd [of ?i w1 "has_cb ?s" g b d] that cb
    by (auto simp: J_def intro: settled_ref_ok elim!: wp_mono)
  have cont: "wp (let i = unat (buf_idx (the (bi_buf b))) in do {
         upd_status i (\<lambda>x. x\<lparr>in_kernel := False\<rparr>);
         when_do (is_bundled ?s) (upd_status i (\<lambda>x. x\<lparr>buf_refcnt := buf_refcnt x + 1\<rparr>));
         upd_status i (\<lambda>x. x\<lparr>buf_refcnt := buf_refcnt x + (if has_cb ?s then 1 else 0)\<rparr>);
         mm_stream_handle_rcvd_buf b (has_cb ?s) }) (\<lambda>_. ref_ok g) w1"
    if rp: "read_post g ?i ?s 0 b w1" for b w1
  proof -
    obtain d where d: "bi_buf b = Some d" "unat (buf_idx d) = ?i" and j: "J 0 0 True () w1"
      using rp unfolding read_post_def J_def by blast
    show ?thesis unfolding d option.sel Let_def
      by (rule wp_seq [OF c1 [OF j] wp_seq [OF c2 wp_seq [OF c3 h [OF _ d]]]]) simp_all
  qed
  have k2: "wp (case p of (rc, b) \<Rightarrow> if rc \<noteq> 0 then ret () else (let i = unat (buf_idx (the (bi_buf b))) in do {
         upd_status i (\<lambda>x. x\<lparr>in_kernel := False\<rparr>);
         when_do (is_bundled ?s) (upd_status i (\<lambda>x. x\<lparr>buf_refcnt := buf_refcnt x + 1\<rparr>));
         upd_status i (\<lambda>x. x\<lparr>buf_refcnt := buf_refcnt x + (if has_cb ?s then 1 else 0)\<rparr>);
         mm_stream_handle_rcvd_buf b (has_cb ?s) })) (\<lambda>_. ref_ok g) w1"
    if "(case p of (rc, b) \<Rightarrow> read_post g ?i ?s rc b) w1" for p w1
    using that cont by (cases p) (auto simp: wp_return read_post_def)
  show ?thesis
    unfolding mm_stream_data_notify_def wp_bind [of "obj _"] wp_obj id_apply
    by (simp only: True simp_thms if_False) (rule wp_seq [OF wp_read [OF ok fr k] k2])
qed

end
