(* ===== verification/MM_Stream_Runs.thy ===== *)
theory MM_Stream_Runs
  imports MM_Stream_Refs
begin

text \<open>
  Runs of a registered stream: the references of its buffers over any interleaving of frames, turns of
  the stream's thread and references given back.
\<close>

lemma unat_of_nat_small: "n \<le> 255 \<Longrightarrow> unat (of_nat n :: 'a::len word) = n" if "8 \<le> LENGTH('a)"
proof -
  assume "n \<le> 255"
  also have "(255 :: nat) < 2 ^ 8" by simp
  also have "(2 :: nat) ^ 8 \<le> 2 ^ LENGTH('a)" using that by (intro power_increasing) simp_all
  finally show ?thesis by (simp add: unat_of_nat take_bit_nat_eq_self)
qed

section \<open>Runs\<close>

text \<open>
  A run of a registered stream: frames from the kernel (of a buffer that is in its queue, as V4L2
  promises; a preview stream with a callback, see \<open>skipped_preview_loses_reference\<close>), turns of the stream's thread,
  holders giving back references they have, and any change of the rest of the stream's world.
\<close>

inductive ref_step :: "sw \<times> (nat \<Rightarrow> nat) \<Rightarrow> sw \<times> (nat \<Rightarrow> nat) \<Rightarrow> bool" where
  frame: "frames w = (idx, seq) # fs \<Longrightarrow> in_kernel (status_at (unat idx) (strm w)) \<Longrightarrow>
    has_cb (strm w) \<or> map_option si_type (stream_info (strm w)) \<noteq> Some CAM_STREAM_TYPE_PREVIEW \<Longrightarrow>
    ref_step (w, g) (snd (run_state mm_stream_data_notify w), g)"
| app: "ref_step (w, g) (snd (run_state app_thread_step w), g)"
| give: "g (unat (buf_idx d)) < handed (trace w) (unat (buf_idx d)) \<Longrightarrow>
    unat (buf_idx d) < length (the (buf_status (strm w))) \<Longrightarrow>
    ref_step (w, g) (snd (run_state (mm_stream_buf_done d) w),
      g(unat (buf_idx d) := Suc (g (unat (buf_idx d)))))"
| other: "buf_status (strm w') = buf_status (strm w) \<Longrightarrow> app_queue (strm w') = app_queue (strm w) \<Longrightarrow>
    bufs (strm w') = bufs (strm w) \<Longrightarrow> length (buf_cb (strm w')) = length (buf_cb (strm w)) \<Longrightarrow>
    trace w' = trace w \<Longrightarrow> ref_step (w, g) (w', g)"

lemma wp_snd: "wp m (\<lambda>_. P) w \<Longrightarrow> P (snd (run_state m w))"
  by (simp add: wp_run)

lemma ref_step_ok:
  assumes "ref_step c c'" and "ref_ok (snd c) (fst c)"
  shows "ref_ok (snd c') (fst c')"
  using assms
proof (induction rule: ref_step.induct)
  case (frame w idx seq fs g)
  then show ?case using wp_snd [OF data_notify_ok [of g w idx seq fs]] by simp
next
  case (app w g)
  then show ?case using wp_snd [OF app_thread_ok [of g w]] by simp
next
  case (give g d w)
  then have "ref_ok g w" by simp
  from wp_snd [OF give_ok [OF this give(1) refl give(2)]] show ?case by (simp only: fst_conv snd_conv)
next
  case (other w' w g)
  then show ?case by (simp add: ref_ok_def shape_def pending_def)
qed

lemma ref_run_ok:
  assumes "ref_step\<^sup>*\<^sup>* c c'" and "ref_ok (snd c) (fst c)"
  shows "ref_ok (snd c') (fst c')"
  using assms by (induction rule: rtranclp_induct) (auto intro: ref_step_ok)

text \<open>Registration starts from buffers nobody counts.\<close>

definition fresh_bufs :: "mm_stream \<Rightarrow> bool" where
  "fresh_bufs s \<longleftrightarrow> app_queue s = [] \<and> length (buf_cb s) = MM_CAMERA_STREAM_BUF_CB_MAX \<and>
     (\<exists>xs bs. buf_status s = Some xs \<and> bufs s = Some bs \<and> length bs = length xs \<and> length xs \<le> 255 \<and>
        buf_num s = of_nat (length xs) \<and> (\<forall>i < length xs. buf_idx (bs ! i) = of_nat i) \<and>
        (\<forall>x \<in> set xs. buf_refcnt x = 0 \<and> \<not> in_kernel x))"

definition reg_inv :: "(nat \<Rightarrow> nat) \<Rightarrow> nat set \<Rightarrow> nat \<Rightarrow> sw \<Rightarrow> bool" where
  "reg_inv g is n w \<longleftrightarrow> ref_ok g w \<and> app_queue (strm w) = [] \<and> length (the (buf_status (strm w))) = n \<and>
     (\<forall>i \<in> is. i < n \<and> handed (trace w) i = g i)"

lemma reg_inv_obs:
  assumes "obs w' = obs w"
  shows "reg_inv g is n w' = reg_inv g is n w"
  by (simp only: reg_inv_def ref_ok_obs [OF assms] obs_eqD [OF assms])

lemma ref_ok_status:
  assumes "ref_ok g w" and "app_queue (strm w) = []" and "i < length (the (buf_status (strm w)))"
    and "f = (\<lambda>x. x\<lparr>buf_refcnt := r, in_kernel := k\<rparr>)" and "k \<longrightarrow> r = 0" and "unat r \<le> 7"
    and "g i \<le> handed (trace w @ tr) i" and "handed (trace w @ tr) i \<le> unat r + g i"
    and "\<And>j. j \<noteq> i \<Longrightarrow> handed (trace w @ tr) j = handed (trace w) j"
  shows "ref_ok g (w\<lparr>strm := (strm w)\<lparr>buf_status :=
     map_option (\<lambda>xs. xs[i := f (xs ! i)]) (buf_status (strm w))\<rparr>, trace := trace w @ tr\<rparr>)"
proof -
  obtain xs where sh: "shape xs (strm w)"
    and ok: "\<forall>j < length xs. buf_ok (handed (trace w) j) (g j) (pending (strm w) j) (xs ! j)"
    using assms(1) by (auto simp: ref_ok_def)
  let ?xs = "xs[i := f (xs ! i)]"
  have b: "buf_status (strm w) = Some xs" using sh by (simp add: shape_def)
  have "shape ?xs ((strm w)\<lparr>buf_status := Some ?xs\<rparr>)" using sh by (simp add: shape_status)
  moreover have "pending ((strm w)\<lparr>buf_status := Some ?xs\<rparr>) = (\<lambda>_. 0)" "pending (strm w) = (\<lambda>_. 0)"
    using assms(2) by (simp_all add: pending_def fun_eq_iff)
  moreover have "buf_ok (handed (trace w @ tr) i) (g i) 0 (f (xs ! i))"
    using assms(4-8) by (simp add: buf_ok_def)
  ultimately show ?thesis using ok assms(9) unfolding ref_ok_def b
    using assms(3) by (intro exI [of _ ?xs]) (auto simp: nth_list_update b)
qed

lemma length_status:
  assumes "ref_ok g w"
  shows "length (the (map_option (\<lambda>xs. xs[i := h xs]) (buf_status (strm w)))) = length (the (buf_status (strm w)))"
  using assms by (auto simp: ref_ok_def shape_def)

lemma reg_loop_ok:
  assumes "reg_inv g (set is) n w" and "distinct is"
  shows "wp (reg_loop is) (\<lambda>_. reg_inv g {} n) w"
  using assms
proof (induction "is" arbitrary: w)
  case Nil
  then show ?case by (simp add: wp_return)
next
  case (Cons i "is")
  have i: "i < length (the (buf_status (strm w)))" "handed (trace w) i = g i"
    using Cons.prems(1) by (auto simp: reg_inv_def)
  show ?case
  proof (cases "initial_reg_flag (status_at i (strm w))")
    case False
    let ?w = "w\<lparr>strm := (strm w)\<lparr>buf_status := map_option (\<lambda>xs. xs[i := (xs ! i)\<lparr>buf_refcnt := 1, in_kernel := False\<rparr>])
        (buf_status (strm w))\<rparr>, trace := trace w @ [Kept (of_nat i)]\<rparr>"
    have ok: "ref_ok g w" using Cons.prems(1) by (simp add: reg_inv_def)
    have n: "n \<le> 255" using Cons.prems(1) by (auto simp: reg_inv_def ref_ok_def shape_def)
    have le: "i \<le> 255" using i(1) n Cons.prems(1) by (auto simp: reg_inv_def)
    have un: "unat (of_nat i :: 32 word) = i" by (rule unat_of_nat_small [OF _ le]) simp
    have h: "handed (trace w @ [Kept (of_nat i)]) j = handed (trace w) j + of_bool (j = i)" for j
      by (auto simp: un)
    have "ref_ok g ?w"
      using Cons.prems(1) i by (intro ref_ok_status [where r = 1 and k = False]) (auto simp: reg_inv_def h un)
    then have "reg_inv g (set is) n ?w"
      using Cons.prems by (auto simp: reg_inv_def h un length_status [OF ok])
    then have "wp (reg_loop is) (\<lambda>_. reg_inv g {} n) ?w" using Cons.IH Cons.prems(2) by simp
    with False show ?thesis
      by (simp add: wp_bind [of "obj _"] wp_obj wp_bind [of "upd_status _ _"] wp_upd_status
        wp_bind [of "emit _"] wp_emit)
  next
    case True
    have q: "wp (mm_stream_qbuf (the (bufs (strm w)) ! i)) (\<lambda>_ w'. reg_inv g (set (i # is)) n w') w"
      by (rule wp_keepsI [OF qbuf_quiet]) (erule reg_inv_obs [THEN iffD2], rule Cons.prems(1))
    have k: "wp (if rc \<noteq> 0 then ret rc else do {
          upd_status i (\<lambda>x. x\<lparr>buf_refcnt := 0, in_kernel := True\<rparr>); reg_loop is })
        (\<lambda>_. reg_inv g {} n) w'" if w': "reg_inv g (set (i # is)) n w'" for rc w'
    proof -
      let ?w = "w'\<lparr>strm := (strm w')\<lparr>buf_status := map_option (\<lambda>xs. xs[i := (xs ! i)\<lparr>buf_refcnt := 0, in_kernel := True\<rparr>])
        (buf_status (strm w'))\<rparr>\<rparr>"
      have ok: "ref_ok g w'" using w' by (simp add: reg_inv_def)
      have "ref_ok g (?w\<lparr>trace := trace w' @ []\<rparr>)"
        using w' by (intro ref_ok_status [where r = 0 and k = True]) (auto simp: reg_inv_def)
      then have "reg_inv g (set is) n ?w" using w' by (auto simp: reg_inv_def length_status [OF ok])
      then have l: "wp (reg_loop is) (\<lambda>_. reg_inv g {} n) ?w" using Cons.IH Cons.prems(2) by simp
      have "reg_inv g {} n w'" using w' by (simp add: reg_inv_def)
      with l show ?thesis by (simp add: wp_bind [of "upd_status _ _"] wp_upd_status wp_return)
    qed
    from wp_seq [OF q k] True show ?thesis
      by (simp add: wp_bind [of "obj _"] wp_obj)
  qed
qed

lemma reg_buf_ok:
  assumes "fresh_bufs (strm w)"
  shows "wp mm_stream_reg_buf (\<lambda>_. ref_ok (handed (trace w))) w"
proof -
  let ?n = "length (the (buf_status (strm w)))"
  have n: "unat (buf_num (strm w)) = ?n" "?n \<le> 255"
    using assms by (auto simp: fresh_bufs_def unat_of_nat_small)
  have r: "reg_inv (handed (trace w)) (set [0..<?n]) ?n w"
    using assms by (auto simp: reg_inv_def ref_ok_def fresh_bufs_def shape_def buf_ok_def pending_def)
  have loop: "wp (do { upd (\<lambda>s. s\<lparr>queued_buffer_count := 0\<rparr>); n \<leftarrow> obj buf_num; reg_loop [0..<unat n] })
      (\<lambda>_. ref_ok (handed (trace w))) w'" if o: "obs w' = obs w" for w'
  proof -
    let ?w = "w'\<lparr>strm := (strm w')\<lparr>queued_buffer_count := 0\<rparr>\<rparr>"
    have "obs ?w = obs w" using o by simp
    then have "reg_inv (handed (trace w)) (set [0..<?n]) ?n ?w" using r reg_inv_obs by blast
    from reg_loop_ok [OF this] have "wp (reg_loop [0..<?n]) (\<lambda>_. ref_ok (handed (trace w))) ?w"
      by (rule wp_mono) (auto simp: reg_inv_def)
    moreover have "buf_num (strm w') = buf_num (strm w)"
      using arg_cong [OF obs_eqD(1) [OF o], of buf_num] by (simp add: core_def)
    ultimately show ?thesis by (simp add: wp_bind [of "upd _"] wp_bind [of "obj _"] wp_upd wp_obj n)
  qed
  have req: "keeps obs mm_stream_request_buf"
    unfolding mm_stream_request_buf_def by (intro pres_intros keeps_obj keeps_ask)
  show ?thesis unfolding mm_stream_reg_buf_def
  proof (rule wp_keeps_seq [OF req])
    fix rc w' assume o: "obs w' = obs w"
    have "ref_ok (handed (trace w)) w'" using r ref_ok_obs [OF o] by (simp add: reg_inv_def)
    then show "wp (if rc \<noteq> 0 then ret rc else do {
       upd (\<lambda>s. s\<lparr>queued_buffer_count := 0\<rparr>); n \<leftarrow> obj buf_num; reg_loop [0..<unat n] })
      (\<lambda>_. ref_ok (handed (trace w))) w'" using loop [OF o] by (simp add: wp_return)
  qed
qed
end
