(* ===== verification/MM_Stream_Fsm.thy ===== *)
theory MM_Stream_Fsm
  imports MM_Stream_Refs
begin

text \<open>
  The resources a stream owns in each state of its state machine: the file of the device from
  ACQUIRED on, a description from CFG on, and in BUFFED, REG and ACTIVE a table of buffers with a
  table of counts of the same length. Every event in every state, every frame and every turn of the
  stream's thread keeps this, whatever the outside answers.
\<close>

section \<open>Operations that leave the resources alone\<close>

definition lens :: "mm_stream \<Rightarrow>
    mm_stream_state_type \<times> int \<times> bool \<times> nat option \<times> nat option \<times> 8 word \<times> nat" where
  "lens s = (s_state s, fd s, stream_info s = None, map_option length (bufs s),
     map_option length (buf_status s), buf_num s, length (buf_cb s))"

definition res :: "sw \<Rightarrow> mm_stream_state_type \<times> int \<times> bool \<times> nat option \<times> nat option \<times> 8 word \<times> nat" where
  "res w = lens (strm w)"

named_theorems quiet "operations that keep the resources"

lemma res_ask [quiet]: "keeps res ask"
  by (auto simp: keeps_iff_wp res_def intro!: wp_ask)

lemma res_ask_mem [quiet]: "keeps res ask_mem"
  by (auto simp: keeps_iff_wp res_def intro!: wp_ask_mem)

lemma res_ask_frame [quiet]: "keeps res ask_frame"
  unfolding ask_frame_def res_def keeps_def by (auto split: list.split)

lemma res_ask_alloc [quiet]: "keeps res ask_alloc"
  unfolding ask_alloc_def res_def keeps_def by (auto split: list.split)

lemma res_emit [quiet]: "keeps res (emit a)"
  by (simp add: keeps_def emit_def res_def)

lemma res_obj [quiet]: "keeps res (obj f)"
  by (simp add: keeps_def obj_def)

lemma res_upd: "(\<And>s. lens (f s) = lens s) \<Longrightarrow> keeps res (upd f)"
  by (simp add: keeps_def upd_def res_def)

lemma res_skip [quiet]: "keeps res (modify (\<lambda>w. w\<lparr>skip_cnt := f w\<rparr>))"
  by (simp add: keeps_def res_def)

lemma res_upd_status [quiet]: "keeps res (upd_status i f)"
proof -
  have "map_option (length \<circ> (\<lambda>xs. xs[i := f (xs ! i)])) y = map_option length y" for y
    by (cases y) simp_all
  then show ?thesis unfolding upd_status_def by (intro res_upd) (simp add: lens_def option.map_comp)
qed

lemma res_qbuf [quiet]: "keeps res (mm_stream_qbuf b)"
  unfolding mm_stream_qbuf_def by (intro pres_intros quiet res_upd) (simp_all add: lens_def)

lemma res_buf_done [quiet]: "keeps res (mm_stream_buf_done b)"
  unfolding mm_stream_buf_done_def by (intro pres_intros quiet)

lemma res_set_ext_mode [quiet]: "keeps res mm_stream_set_ext_mode"
  unfolding mm_stream_set_ext_mode_def by (intro pres_intros quiet res_upd) (simp_all add: lens_def)

lemma res_set_fmt [quiet]: "keeps res mm_stream_set_fmt"
  unfolding mm_stream_set_fmt_def by (intro pres_intros quiet)

lemma res_streamon [quiet]: "keeps res mm_stream_streamon"
  unfolding mm_stream_streamon_def by (intro pres_intros quiet)

lemma res_streamoff [quiet]: "keeps res mm_stream_streamoff"
  unfolding mm_stream_streamoff_def by (intro pres_intros quiet)

lemma res_parm_evt [quiet]: "keeps res (stream_parm_evt e)"
  unfolding stream_parm_evt_def mm_stream_set_parm_def mm_stream_get_parm_def
  by (cases e) (simp_all add: pres_intros quiet)

lemma res_do_action [quiet]: "keeps res (mm_stream_do_action g)"
  unfolding mm_stream_do_action_def by (intro pres_intros quiet)

lemma res_request_buf [quiet]: "keeps res mm_stream_request_buf"
  unfolding mm_stream_request_buf_def by (intro pres_intros quiet)

lemma res_reg_loop [quiet]: "keeps res (reg_loop is)"
  by (induction "is") (auto intro!: pres_intros quiet)

lemma res_reg_buf [quiet]: "keeps res mm_stream_reg_buf"
  unfolding mm_stream_reg_buf_def by (intro pres_intros quiet res_upd) (simp_all add: lens_def)

lemma res_unreg_buf [quiet]: "keeps res mm_stream_unreg_buf"
proof -
  have "map_option (length \<circ> map f) y = map_option length y"
    for f :: "mm_stream_buf_status \<Rightarrow> mm_stream_buf_status" and y
    by (cases y) simp_all
  then show ?thesis unfolding mm_stream_unreg_buf_def
    by (intro pres_intros quiet res_upd) (simp_all add: lens_def option.map_comp)
qed

lemma res_callback [quiet]: "keeps res (app_callback d k)"
  unfolding app_callback_def by (intro pres_intros quiet res_upd) (simp_all add: lens_def)

lemma res_dispatch [quiet]: "keeps res (mm_stream_dispatch_app_data b)"
  unfolding mm_stream_dispatch_app_data_def by (intro pres_intros quiet)

lemma res_launch [quiet]: "keeps res app_thread_launch"
  unfolding app_thread_launch_def by (intro res_upd) (simp add: lens_def)

lemma res_app_release [quiet]: "keeps res app_thread_release"
  unfolding app_thread_release_def by (intro pres_intros quiet res_upd) (simp_all add: lens_def)

lemma res_app_step [quiet]: "keeps res app_thread_step"
  unfolding app_thread_step_def keeps_iff_wp wp_bind wp_obj
proof
  fix w
  show "wp (case app_queue (strm w) of [] \<Rightarrow> ret ()
      | b # q' \<Rightarrow> do { upd (\<lambda>s. s\<lparr>app_queue := q'\<rparr>); mm_stream_dispatch_app_data b })
      (\<lambda>_ w'. res w' = res w) w"
    by (cases "app_queue (strm w)")
      (auto intro!: keeps_wp pres_intros quiet res_upd simp: lens_def)
qed

lemma res_notify_channel [quiet]: "keeps res (mm_stream_notify_channel c a)"
  unfolding mm_stream_notify_channel_def by (intro pres_intros quiet)

lemma res_handle_rcvd [quiet]: "keeps res (mm_stream_handle_rcvd_buf b c)"
  unfolding mm_stream_handle_rcvd_buf_def by (intro pres_intros quiet res_upd) (simp_all add: lens_def)

lemma res_read [quiet]: "keeps res mm_stream_read_msm_frame"
proof -
  have "map_option (length \<circ> (\<lambda>bs. bs[i := f bs])) y = map_option length y"
    for i f and y :: "mm_camera_buf_def list option"
    by (cases y) simp_all
  then show ?thesis unfolding mm_stream_read_msm_frame_def
    by (intro pres_intros quiet res_upd) (simp_all add: lens_def option.map_comp)
qed

lemma res_notify [quiet]: "keeps res mm_stream_data_notify"
  unfolding mm_stream_data_notify_def by (intro pres_intros quiet)

lemma res_reg_cb [quiet]: "keeps res (mm_stream_reg_buf_cb v)"
  unfolding mm_stream_reg_buf_cb_def keeps_iff_wp wp_bind wp_obj id_apply
proof
  fix w
  show "wp (case filter (\<lambda>k. cb (buf_cb (strm w) ! k) = None) [0..<MM_CAMERA_STREAM_BUF_CB_MAX] of
      [] \<Rightarrow> ret (- 1) | k # _ \<Rightarrow> do { upd (\<lambda>s. s\<lparr>buf_cb := (buf_cb s)[k := v]\<rparr>); ret 0 })
      (\<lambda>_ w'. res w' = res w) w"
    by (cases "filter (\<lambda>k. cb (buf_cb (strm w) ! k) = None) [0..<MM_CAMERA_STREAM_BUF_CB_MAX]")
      (auto intro!: keeps_wp pres_intros quiet res_upd simp: lens_def)
qed

section \<open>The invariant\<close>

definition no_bufs :: "mm_stream \<Rightarrow> bool" where
  "no_bufs s \<longleftrightarrow> bufs s = None \<and> buf_status s = None"

definition has_bufs :: "mm_stream \<Rightarrow> bool" where
  "has_bufs s \<longleftrightarrow> (case (bufs s, buf_status s) of
     (Some bs, Some xs) \<Rightarrow> length bs = length xs \<and> buf_num s = of_nat (length bs)
   | _ \<Rightarrow> False)"

definition fsm_inv :: "mm_stream \<Rightarrow> bool" where
  "fsm_inv s \<longleftrightarrow> length (buf_cb s) = MM_CAMERA_STREAM_BUF_CB_MAX \<and>
     (case s_state s of
        MM_STREAM_STATE_NOTUSED \<Rightarrow> no_bufs s
      | MM_STREAM_STATE_INITED \<Rightarrow> no_bufs s
      | MM_STREAM_STATE_ACQUIRED \<Rightarrow> no_bufs s \<and> 0 < fd s
      | MM_STREAM_STATE_CFG \<Rightarrow> no_bufs s \<and> 0 < fd s \<and> stream_info s \<noteq> None
      | _ \<Rightarrow> has_bufs s \<and> 0 < fd s \<and> stream_info s \<noteq> None)"

lemma has_bufs_lens:
  "has_bufs s \<longleftrightarrow> (\<exists>n. map_option length (bufs s) = Some n \<and> map_option length (buf_status s) = Some n \<and>
     buf_num s = of_nat n)"
  by (auto simp: has_bufs_def split: option.splits)

lemma no_bufs_lens:
  "no_bufs s \<longleftrightarrow> map_option length (bufs s) = None \<and> map_option length (buf_status s) = None"
  by (auto simp: no_bufs_def)

lemma lens_eqD:
  assumes "lens s' = lens s"
  shows "s_state s' = s_state s" and "fd s' = fd s" and "stream_info s' = None \<longleftrightarrow> stream_info s = None"
    and "no_bufs s' = no_bufs s" and "has_bufs s' = has_bufs s" and "length (buf_cb s') = length (buf_cb s)"
  using assms by (auto simp: lens_def has_bufs_lens no_bufs_lens)

lemma fsm_inv_lens:
  assumes "lens s' = lens s"
  shows "fsm_inv s' = fsm_inv s"
  by (simp only: fsm_inv_def lens_eqD [OF assms])

definition winv :: "sw \<Rightarrow> bool" where "winv w \<longleftrightarrow> fsm_inv (strm w)"

lemma quiet_winv:
  assumes "keeps res m" and "winv w"
  shows "wp m (\<lambda>_. winv) w"
  using assms(1) by (rule wp_keepsI) (use assms(2) in \<open>auto simp: winv_def res_def dest: fsm_inv_lens\<close>)

text \<open>An operation that keeps the resources, and then a change of state.\<close>

lemma wp_quiet:
  assumes "keeps res m" and "\<And>a w'. lens (strm w') = lens (strm w) \<Longrightarrow> Q a w'"
  shows "wp m Q w"
  using assms(1) by (rule wp_keepsI) (use assms(2) in \<open>simp add: res_def\<close>)

lemma wp_quiet_seq:
  assumes "keeps res m" and "\<And>a w'. lens (strm w') = lens (strm w) \<Longrightarrow> wp (f a) Q w'"
  shows "wp (m \<bind> f) Q w"
  using assms(1) by (rule wp_keeps_seq) (use assms(2) in \<open>simp add: res_def\<close>)

lemma wp_set_sstate [wp_simps]: "wp (set_sstate st) Q w = Q () (w\<lparr>strm := (strm w)\<lparr>s_state := st\<rparr>\<rparr>)"
  by (simp add: set_sstate_def wp_simps)

lemma no_bufs_simps [simp]:
  "no_bufs (s\<lparr>s_state := st\<rparr>) = no_bufs s" "has_bufs (s\<lparr>s_state := st\<rparr>) = has_bufs s"
  "no_bufs (s\<lparr>fd := f\<rparr>) = no_bufs s" "no_bufs (s\<lparr>bufs := None, buf_status := None\<rparr>)"
  "no_bufs no_stream"
  by (simp_all add: no_bufs_def has_bufs_def no_stream_def split: option.split)

text \<open>The rules for leaving a state: what the invariant says of it is kept under the new state.\<close>

lemma set_state_winv:
  assumes "lens (strm w') = lens (strm w)" and "winv w"
    and "\<And>s. fsm_inv s \<Longrightarrow> s_state s = s_state (strm w) \<Longrightarrow> fsm_inv (s\<lparr>s_state := st\<rparr>)"
  shows "winv (w'\<lparr>strm := (strm w')\<lparr>s_state := st\<rparr>\<rparr>)" and "winv w'"
proof -
  have i: "fsm_inv (strm w')" using assms(2) unfolding winv_def fsm_inv_lens [OF assms(1)] .
  from assms(3) [OF i lens_eqD(1) [OF assms(1)]]
  show "winv (w'\<lparr>strm := (strm w')\<lparr>s_state := st\<rparr>\<rparr>)" by (simp add: winv_def)
  show "winv w'" using i by (simp add: winv_def)
qed

lemma quiet_then_state:
  assumes "keeps res m" and "winv w"
    and "\<And>s. fsm_inv s \<Longrightarrow> s_state s = s_state (strm w) \<Longrightarrow> fsm_inv (s\<lparr>s_state := st\<rparr>)"
  shows "wp (do { rc \<leftarrow> m; set_sstate st; ret rc }) (\<lambda>_. winv) w"
    and "wp (do { rc \<leftarrow> m; when_do (rc = 0) (set_sstate st); ret rc }) (\<lambda>_. winv) w"
proof -
  note s = set_state_winv [OF _ assms(2,3)]
  show "wp (do { rc \<leftarrow> m; set_sstate st; ret rc }) (\<lambda>_. winv) w"
    by (rule wp_quiet_seq [OF assms(1)]) (simp add: wp_simps s)
  show "wp (do { rc \<leftarrow> m; when_do (rc = 0) (set_sstate st); ret rc }) (\<lambda>_. winv) w"
    by (rule wp_quiet_seq [OF assms(1)]) (simp add: wp_simps s)
qed

section \<open>Operations that change the resources\<close>

lemma wp_sync_info:
  assumes "\<And>rc w'. lens (strm w') = lens (strm w) \<Longrightarrow> Q rc w'"
  shows "wp (mm_stream_sync_info B) Q w"
proof (cases "stream_info (strm w)")
  case None
  then show ?thesis using assms by (simp add: mm_stream_sync_info_def wp_simps)
next
  case (Some si)
  obtain rc si' fo where c: "mm_stream_calc_offset B (padding_info (strm w))
      (si\<lparr>stream_svr_id := server_stream_id (strm w)\<rparr>) = (rc, si', fo)"
    by (metis prod_cases3)
  show ?thesis
    by (auto simp: mm_stream_sync_info_def wp_simps Some c lens_def intro!: assms wp_ask)
qed

lemma wp_config:
  assumes "\<And>rc w'. lens (strm w') = lens ((strm w)\<lparr>stream_info := Some si, buf_num := n\<rparr>) \<Longrightarrow> Q rc w'"
    and "n = ucast (num_bufs (c_stream_info c))"
  shows "wp (mm_stream_config B c) Q w"
proof -
  let ?f = "\<lambda>s. s\<lparr>stream_info := Some (c_stream_info c), buf_num := ucast (num_bufs (c_stream_info c)),
     mem_vtbl := c_mem_vtbl c, padding_info := c_padding_info c,
     buf_cb := (buf_cb s)[0 := \<lparr>cb = c_stream_cb c, cb_count = - 1\<rparr>]\<rparr>"
  have l: "lens (?f (strm w)) = lens ((strm w)\<lparr>stream_info := Some si, buf_num := n\<rparr>)"
    using assms(2) by (simp add: lens_def)
  show ?thesis unfolding mm_stream_config_def
    apply (simp only: wp_bind [of "upd _"] wp_upd)
    apply (rule wp_seq [OF wp_sync_info])
     apply assumption
    apply (rule wp_ifI)
     apply (rule wp_quiet [OF res_set_fmt])
     apply (rule assms(1))
     apply (use l in simp)
    apply (use l in \<open>simp add: wp_return assms(1)\<close>)
    done
qed

lemma wp_deinit:
  assumes "\<And>rc w'. lens (strm w') = lens ((strm w)\<lparr>bufs := None, buf_status := None\<rparr>) \<Longrightarrow> Q rc w'"
    and "bufs (strm w) = None \<Longrightarrow> buf_status (strm w) = None"
  shows "wp mm_stream_deinit_bufs Q w"
proof (cases "bufs (strm w)")
  case None
  then show ?thesis using assms by (simp add: mm_stream_deinit_bufs_def wp_simps lens_def)
next
  case (Some bs)
  show ?thesis
    by (auto simp: mm_stream_deinit_bufs_def wp_simps Some lens_def intro!: assms(1) wp_ask)
qed

definition base :: "mm_stream \<Rightarrow> mm_stream \<Rightarrow> bool" where
  "base s s' \<longleftrightarrow> s_state s' = s_state s \<and> fd s' = fd s \<and> (stream_info s' = None \<longleftrightarrow> stream_info s = None) \<and>
     length (buf_cb s') = length (buf_cb s)"

lemma wp_ask_alloc:
  assumes "\<And>r rs. Q r (w\<lparr>allocs := rs\<rparr>)"
  shows "wp ask_alloc Q w"
proof (cases "allocs w")
  case Nil
  have "w\<lparr>allocs := allocs w\<rparr> = w" by simp
  then have "Q r w" for r using assms [of r "allocs w"] by simp
  then show ?thesis using Nil by (simp add: ask_alloc_def wp_simps)
next
  case (Cons r rs)
  then show ?thesis using assms by (simp add: ask_alloc_def wp_simps)
qed

lemma length_new_bufs [simp]: "length (new_bufs s n) = n"
  by (simp add: new_bufs_def)

lemma wp_init_bufs:
  assumes "no_bufs (strm w)"
  shows "wp mm_stream_init_bufs
    (\<lambda>rc w'. base (strm w) (strm w') \<and> (if rc = 0 then has_bufs (strm w') else no_bufs (strm w'))) w"
proof -
  have b: "bufs (strm w) = None" using assms by (simp add: no_bufs_def)
  show ?thesis unfolding mm_stream_init_bufs_def wp_bind [of "obj _"] wp_obj b
    by (auto simp: wp_simps base_def no_bufs_def has_bufs_def mm_stream_deinit_bufs_def
      assms [unfolded no_bufs_def] intro!: wp_ask wp_ask_alloc wp_ask_mem)
qed

lemma fsm_inv_base:
  assumes "fsm_inv s" and "s_state s = MM_STREAM_STATE_CFG" and "base s s'"
  shows "no_bufs s' \<Longrightarrow> fsm_inv s'" and "has_bufs s' \<Longrightarrow> fsm_inv (s'\<lparr>s_state := MM_STREAM_STATE_BUFFED\<rparr>)"
  using assms by (simp_all add: fsm_inv_def base_def)

lemma wp_release:
  assumes "Q 0 (w\<lparr>strm := no_stream\<rparr>)" and "Q 0 (w\<lparr>trace := trace w @ [CloseFd], strm := no_stream\<rparr>)"
  shows "wp mm_stream_release Q w"
  using assms by (simp add: mm_stream_release_def wp_simps)

section \<open>Every event keeps the invariant\<close>

lemma inited_winv:
  assumes "winv w" and "s_state (strm w) = MM_STREAM_STATE_INITED"
  shows "wp (mm_stream_fsm_inited dev evt) (\<lambda>_. winv) w"
proof -
  have i: "no_bufs (strm w)" "length (buf_cb (strm w)) = MM_CAMERA_STREAM_BUF_CB_MAX"
    using assms by (simp_all add: winv_def fsm_inv_def)
  let ?w = "\<lambda>f rs. w\<lparr>rets := rs, strm := (strm w)\<lparr>fd := f\<rparr>\<rparr>"
  have fd: "winv (?w f rs)" for f rs using i assms(2) by (simp add: winv_def fsm_inv_def)
  have e: "wp (do { rc \<leftarrow> mm_stream_set_ext_mode;
      (if rc = 0 then set_sstate MM_STREAM_STATE_ACQUIRED else do { emit CloseFd; upd (\<lambda>s. s\<lparr>fd := 0\<rparr>) });
      ret rc }) (\<lambda>_. winv) (?w f rs)" if "0 < f" for f rs
  proof (rule wp_quiet_seq [OF res_set_ext_mode])
    fix rc and w' :: sw assume l: "lens (strm w') = lens (strm (?w f rs))"
    have "fsm_inv (strm w')" using fd [of f rs] fsm_inv_lens [OF l] by (simp add: winv_def)
    then show "wp (do { (if rc = 0 then set_sstate MM_STREAM_STATE_ACQUIRED
        else do { emit CloseFd; upd (\<lambda>s. s\<lparr>fd := 0\<rparr>) }); ret rc }) (\<lambda>_. winv) w'"
      using lens_eqD [OF l] assms(2) that by (simp add: wp_simps winv_def fsm_inv_def)
  qed
  show ?thesis
  proof (cases "evt = MM_STREAM_EVT_ACQUIRE")
    case True
    then show ?thesis using assms(1) e fd
      by (auto simp: mm_stream_fsm_inited_def wp_bind [of "obj _"] wp_obj wp_bind [of ask]
        wp_bind [of "upd _"] wp_upd wp_return intro!: wp_ask wp_ifI)
  next
    case False
    then show ?thesis using assms(1) by (cases evt) (simp_all add: mm_stream_fsm_inited_def wp_simps)
  qed
qed

lemma config_winv:
  assumes "winv w" and "s_state (strm w) \<in> {MM_STREAM_STATE_ACQUIRED, MM_STREAM_STATE_CFG}"
  shows "wp (do { rc \<leftarrow> mm_stream_config B c; set_sstate MM_STREAM_STATE_CFG; ret rc }) (\<lambda>_. winv) w"
  unfolding wp_bind [of "mm_stream_config B c"]
proof (rule wp_config [OF _ refl])
  fix rc and w' :: sw and si
  assume l: "lens (strm w') = lens ((strm w)\<lparr>stream_info := Some si, buf_num := ucast (num_bufs (c_stream_info c))\<rparr>)"
  show "wp (do { set_sstate MM_STREAM_STATE_CFG; ret rc }) (\<lambda>_. winv) w'"
    using lens_eqD [OF l] assms by (auto simp: wp_simps winv_def fsm_inv_def no_bufs_def)
qed

lemma release_winv:
  "wp (do { rc \<leftarrow> mm_stream_release; set_sstate MM_STREAM_STATE_NOTUSED; ret rc }) (\<lambda>_. winv) w"
  unfolding wp_bind [of "mm_stream_release"]
  by (rule wp_release) (simp_all add: wp_simps winv_def fsm_inv_def, simp_all add: no_stream_def)


lemmas fsm_event_defs = mm_stream_fsm_acquired_def mm_stream_fsm_cfg_def mm_stream_fsm_buffed_def
  mm_stream_fsm_reg_def mm_stream_fsm_active_def

lemma acquired_winv:
  assumes "winv w" and "s_state (strm w) = MM_STREAM_STATE_ACQUIRED"
  shows "wp (mm_stream_fsm_acquired B evt) (\<lambda>_. winv) w"
  using assms config_winv [of w B] release_winv quiet_winv [OF res_parm_evt assms(1)]
  by (cases evt) (simp_all add: mm_stream_fsm_acquired_def)

lemma cfg_winv:
  assumes "winv w" and st: "s_state (strm w) = MM_STREAM_STATE_CFG"
  shows "wp (mm_stream_fsm_cfg B evt) (\<lambda>_. winv) w"
proof (cases "evt = MM_STREAM_EVT_GET_BUF")
  case True
  have i: "fsm_inv (strm w)" "no_bufs (strm w)" using assms by (simp_all add: winv_def fsm_inv_def)
  have "wp (do { rc \<leftarrow> mm_stream_init_bufs; when_do (rc = 0) (set_sstate MM_STREAM_STATE_BUFFED); ret rc })
      (\<lambda>_. winv) w"
  proof (rule wp_seq [OF wp_init_bufs [OF i(2)]])
    fix rc and w' :: sw
    assume a: "base (strm w) (strm w') \<and> (if rc = 0 then has_bufs (strm w') else no_bufs (strm w'))"
    then show "wp (do { when_do (rc = 0) (set_sstate MM_STREAM_STATE_BUFFED); ret rc }) (\<lambda>_. winv) w'"
      using fsm_inv_base [OF i(1) st, of "strm w'"] by (auto simp: wp_simps winv_def)
  qed
  then show ?thesis using True by (simp add: mm_stream_fsm_cfg_def)
next
  case False
  then show ?thesis
    using assms config_winv [of w B] release_winv quiet_winv [OF res_parm_evt assms(1)]
    by (cases evt) (simp_all add: mm_stream_fsm_cfg_def)
qed

lemma buffed_winv:
  assumes "winv w" and st: "s_state (strm w) = MM_STREAM_STATE_BUFFED"
  shows "wp (mm_stream_fsm_buffed evt) (\<lambda>_. winv) w"
proof -
  have i: "fsm_inv (strm w)" "has_bufs (strm w)" using assms by (simp_all add: winv_def fsm_inv_def)
  have put: "wp (do { rc \<leftarrow> mm_stream_deinit_bufs; set_sstate MM_STREAM_STATE_CFG; ret rc }) (\<lambda>_. winv) w"
    unfolding wp_bind [of mm_stream_deinit_bufs]
  proof (rule wp_deinit)
    fix rc and w' :: sw assume l: "lens (strm w') = lens ((strm w)\<lparr>bufs := None, buf_status := None\<rparr>)"
    then show "wp (do { set_sstate MM_STREAM_STATE_CFG; ret rc }) (\<lambda>_. winv) w'"
      using lens_eqD [OF l] i st by (simp add: wp_simps winv_def fsm_inv_def)
  qed (use i(2) in \<open>simp add: has_bufs_def\<close>)
  have reg: "wp (do { rc \<leftarrow> mm_stream_reg_buf; when_do (rc = 0) (set_sstate MM_STREAM_STATE_REG); ret rc })
      (\<lambda>_. winv) w"
    by (rule quiet_then_state(2) [OF res_reg_buf assms(1)]) (simp add: fsm_inv_def st)
  show ?thesis using put reg quiet_winv [OF res_parm_evt assms(1)]
    by (cases evt) (simp_all add: mm_stream_fsm_buffed_def)
qed

lemma wp_return_fun: "wp (ret x) Q = Q x"
  by (rule ext) (rule wp_return)

lemma wp_start:
  assumes "winv w" and st: "s_state (strm w) = MM_STREAM_STATE_REG"
  shows "wp (do { c \<leftarrow> obj has_cb; when_do c app_thread_launch; set_sstate MM_STREAM_STATE_ACTIVE;
      rc \<leftarrow> mm_stream_streamon;
      when_do (rc \<noteq> 0) (do { when_do c app_thread_release; set_sstate MM_STREAM_STATE_REG }); ret rc })
    (\<lambda>_. winv) w"
proof -
  have inv: "winv (w'\<lparr>strm := (strm w')\<lparr>s_state := r\<rparr>\<rparr>)"
    if "lens (strm w') = lens ((strm w)\<lparr>s_state := r'\<rparr>)" "r \<in> {MM_STREAM_STATE_ACTIVE, MM_STREAM_STATE_REG}"
    for w' :: sw and r r'
    using lens_eqD [OF that(1)] that(2) assms by (auto simp: winv_def fsm_inv_def)
  have k: "keeps res (when_do c app_thread_launch)" "keeps res (when_do c app_thread_release)" for c
    by (intro pres_intros quiet)+
  show ?thesis unfolding wp_bind [of "obj _"] wp_obj
  proof (rule wp_quiet_seq [OF k(1)])
    fix u and w1 :: sw assume l1: "lens (strm w1) = lens (strm w)"
    let ?w2 = "w1\<lparr>strm := (strm w1)\<lparr>s_state := MM_STREAM_STATE_ACTIVE\<rparr>\<rparr>"
    have l2: "lens (strm ?w2) = lens ((strm w)\<lparr>s_state := MM_STREAM_STATE_ACTIVE\<rparr>)"
      using l1 by (simp add: lens_def)
    have "wp (do { rc \<leftarrow> mm_stream_streamon;
      when_do (rc \<noteq> 0) (do { when_do (has_cb (strm w)) app_thread_release; set_sstate MM_STREAM_STATE_REG });
      ret rc }) (\<lambda>_. winv) ?w2"
    proof (rule wp_quiet_seq [OF res_streamon])
      fix rc and w3 :: sw assume "lens (strm w3) = lens (strm ?w2)"
      with l2 have l3: "lens (strm w3) = lens ((strm w)\<lparr>s_state := MM_STREAM_STATE_ACTIVE\<rparr>)" by simp
      have "strm w3 = (strm w3)\<lparr>s_state := MM_STREAM_STATE_ACTIVE\<rparr>" using lens_eqD(1) [OF l3] by simp
      then have i3: "winv w3" using inv [OF l3, of MM_STREAM_STATE_ACTIVE] by simp
      have "wp (do { when_do (has_cb (strm w)) app_thread_release; set_sstate MM_STREAM_STATE_REG })
        (\<lambda>_. winv) w3"
        by (rule wp_quiet_seq [OF k(2)]) (use l3 in \<open>simp add: wp_simps inv\<close>)
      then show "wp (do { when_do (rc \<noteq> 0) (do { when_do (has_cb (strm w)) app_thread_release;
          set_sstate MM_STREAM_STATE_REG }); ret rc }) (\<lambda>_. winv) w3"
        using i3 by (simp only: wp_bind [of "when_do (rc \<noteq> 0) _"] wp_when wp_return_fun if_split) simp
    qed
    then show "wp (do { set_sstate MM_STREAM_STATE_ACTIVE; rc \<leftarrow> mm_stream_streamon;
      when_do (rc \<noteq> 0) (do { when_do (has_cb (strm w)) app_thread_release; set_sstate MM_STREAM_STATE_REG });
      ret rc }) (\<lambda>_. winv) w1"
      by (simp add: wp_bind [of "set_sstate _"] wp_set_sstate)
  qed
qed

lemma reg_winv:
  assumes "winv w" and st: "s_state (strm w) = MM_STREAM_STATE_REG"
  shows "wp (mm_stream_fsm_reg evt) (\<lambda>_. winv) w"
proof -
  have "wp (do { rc \<leftarrow> mm_stream_unreg_buf; set_sstate MM_STREAM_STATE_BUFFED; ret rc }) (\<lambda>_. winv) w"
    by (rule quiet_then_state(1) [OF res_unreg_buf assms(1)]) (simp add: fsm_inv_def st)
  then show ?thesis using wp_start [OF assms] quiet_winv [OF res_parm_evt assms(1)]
    by (cases evt) (simp_all add: mm_stream_fsm_reg_def)
qed

lemma active_winv:
  assumes "winv w" and st: "s_state (strm w) = MM_STREAM_STATE_ACTIVE"
  shows "wp (mm_stream_fsm_active evt) (\<lambda>_. winv) w"
proof -
  let ?m = "do { rc \<leftarrow> mm_stream_streamoff; c \<leftarrow> obj has_cb; when_do c app_thread_release; ret rc }"
  have "keeps res ?m" by (intro pres_intros quiet)
  from quiet_then_state(1) [OF this assms(1), of MM_STREAM_STATE_REG] st
  have "wp (do { rc \<leftarrow> mm_stream_streamoff; c \<leftarrow> obj has_cb; when_do c app_thread_release;
      set_sstate MM_STREAM_STATE_REG; ret rc }) (\<lambda>_. winv) w"
    by (simp add: fsm_inv_def wp_bind wp_return)
  moreover have "keeps res mm_stream_get_queued_buf_count"
    unfolding mm_stream_get_queued_buf_count_def by (rule res_obj)
  ultimately show ?thesis
    using quiet_winv [OF res_parm_evt assms(1)] quiet_winv [OF res_buf_done assms(1)]
      quiet_winv [OF res_do_action assms(1)] quiet_winv [OF _ assms(1), of mm_stream_get_queued_buf_count]
    by (cases evt) (simp_all add: mm_stream_fsm_active_def)
qed

lemma fsm_fn_winv:
  assumes "winv w"
  shows "wp (mm_stream_fsm_fn B dev evt) (\<lambda>_. winv) w"
  using assms inited_winv acquired_winv cfg_winv buffed_winv reg_winv active_winv
  by (cases "s_state (strm w)") (simp_all add: mm_stream_fsm_fn_def wp_simps)

section \<open>Runs\<close>

text \<open>What can happen to a stream: an event, a frame, a turn of its thread, a new callback.\<close>

inductive stream_step :: "build \<Rightarrow> bool \<Rightarrow> sw \<Rightarrow> sw \<Rightarrow> bool" for B :: build and dev :: bool where
  event: "stream_step B dev w (snd (run_state (mm_stream_fsm_fn B dev evt) w))"
| frame: "stream_step B dev w (snd (run_state mm_stream_data_notify w))"
| turn: "stream_step B dev w (snd (run_state app_thread_step w))"
| register: "stream_step B dev w (snd (run_state (mm_stream_reg_buf_cb v) w))"

lemma stream_step_winv: "stream_step B dev w w' \<Longrightarrow> winv w \<Longrightarrow> winv w'"
proof (induction rule: stream_step.induct)
  case (event w evt)
  then show ?case using fsm_fn_winv [of w B dev evt] by (simp add: wp_run)
next
  case (frame w)
  then show ?case using quiet_winv [OF res_notify] by (simp add: wp_run)
next
  case (turn w)
  then show ?case using quiet_winv [OF res_app_step] by (simp add: wp_run)
next
  case (register w v)
  then show ?case using quiet_winv [OF res_reg_cb] by (simp add: wp_run)
qed

lemma stream_run_winv:
  assumes "(stream_step B dev)\<^sup>*\<^sup>* w w'" and "winv w"
  shows "winv w'"
  using assms by (induction rule: rtranclp_induct) (auto intro: stream_step_winv)

text \<open>A stream that was just added to a channel.\<close>

definition added_stream :: "32 word \<Rightarrow> ptr \<Rightarrow> mm_stream" where
  "added_stream h c = no_stream\<lparr>my_hdl := h, s_ch_obj := c, s_state := MM_STREAM_STATE_INITED\<rparr>"

lemma added_inv: "fsm_inv (added_stream h c)"
  by (simp add: added_stream_def fsm_inv_def no_stream_def no_bufs_def MM_CAMERA_STREAM_BUF_CB_MAX_def)

end
