(* ===== verification/MM_Channel.thy ===== *)
theory MM_Channel
  imports MM_Stream_Fsm
begin

text \<open>
  A channel (\<open>mm_camera_channel.c\<close>): up to four streams, the queue in which their frames are matched
  into superbuffers, and two threads: one that takes the channel's commands (frames of the bundled
  streams, requests, flushes), one that calls the client back with a complete superbuffer.

  A channel and a stream are addressed by their indices, since a stream can be linked into a second
  channel. The result \<^term>\<open>None\<close> of an operation says that it does not get past that point: it
  follows a null pointer, runs in a loop that does not end, or waits for what never comes. A thread
  executes its commands one by one; where an operation waits for the thread, the thread executes the
  commands queued before.
\<close>

section \<open>Data\<close>

datatype mm_channel_state_type =
    MM_CHANNEL_STATE_NOTUSED
  | MM_CHANNEL_STATE_STOPPED
  | MM_CHANNEL_STATE_ACTIVE
  | MM_CHANNEL_STATE_PAUSED

datatype mm_channel_bracketing_state =
    MM_CHANNEL_BRACKETING_STATE_OFF
  | MM_CHANNEL_BRACKETING_STATE_WAIT_GOOD_FRAME_IDX
  | MM_CHANNEL_BRACKETING_STATE_ACTIVE

datatype mm_camera_generic_cmd_type =
    MM_CAMERA_GENERIC_CMD_TYPE_AE_BRACKETING
  | MM_CAMERA_GENERIC_CMD_TYPE_AF_BRACKETING
  | MM_CAMERA_GENERIC_CMD_TYPE_FLASH_BRACKETING
  | MM_CAMERA_GENERIC_CMD_TYPE_MTF_BRACKETING
  | MM_CAMERA_GENERIC_CMD_TYPE_ZOOM_1X

text \<open>The commands of the channel's thread; of a generic command's payload only the first word is read.\<close>

datatype mm_camera_cmdcb =
    MM_CAMERA_CMD_TYPE_DATA_CB mm_camera_buf_info
  | MM_CAMERA_CMD_TYPE_REQ_DATA_CB "32 word"
  | MM_CAMERA_CMD_TYPE_START_ZSL
  | MM_CAMERA_CMD_TYPE_STOP_ZSL
  | MM_CAMERA_CMD_TYPE_CONFIG_NOTIFY mm_camera_super_buf_notify_mode
  | MM_CAMERA_CMD_TYPE_FLUSH_QUEUE "32 word" cam_stream_type
  | MM_CAMERA_CMD_TYPE_GENERAL mm_camera_generic_cmd_type "32 word"


record cam_stream_crop_info =
  crop_stream_id :: "32 word"
  crop_left :: "32 word"
  crop_top :: "32 word"

text \<open>The fields of a metadata buffer that the channel reads; \<open>crop_data\<close> holds the valid entries.\<close>

record cam_metadata_info =
  is_crop_valid :: bool
  crop_data :: "cam_stream_crop_info list"
  is_prep_snapshot_done_valid :: bool
  prep_snapshot_done_state :: cam_prep_snapshot_state
  is_good_frame_idx_range_valid :: bool
  min_frame_idx :: "32 word"
  max_frame_idx :: "32 word"
  is_meta_invalid :: bool
  is_frame_id_reset :: bool

text \<open>A queue of a thread that is not running is a zeroed object (\<^term>\<open>None\<close>).\<close>

type_synonym superbuf = "mm_camera_buf_def option list"

record mm_channel =
  ch_hdl :: "32 word"
  ch_state :: mm_channel_state_type
  bundle_active :: bool
  superbuf_queue :: mm_channel_queue
  super_buf_notify_cb :: ptr
  pending_cnt :: "32 word"
  ch_cmds :: "mm_camera_cmdcb list option"
  ch_cbs :: "superbuf list option"
  streams :: "mm_stream list"
  manualZSLSnapshot :: bool
  startZSlSnapshotCalled :: bool
  needLEDFlash :: bool
  previewSkipCnt :: "8 word"
  bracketingState :: mm_channel_bracketing_state
  isFlashBracketingEnabled :: bool
  isZoom1xFrameRequested :: bool

datatype cam_mapping_buf_type =
    CAM_MAPPING_BUF_TYPE_CAPABILITY
  | CAM_MAPPING_BUF_TYPE_PARM_BUF
  | CAM_MAPPING_BUF_TYPE_STREAM_BUF
  | CAM_MAPPING_BUF_TYPE_STREAM_INFO
  | CAM_MAPPING_BUF_TYPE_OFFLINE_INPUT_BUF
  | CAM_MAPPING_BUF_TYPE_OFFLINE_META_BUF

text \<open>
  The events with what their payloads hold. A stream link is the other channel's index and the
  stream's handle there; the payload of a mapping, which may be null in the active state, the
  stream's handle and the type of the buffer; a parameter request tells whether its buffer is given.
\<close>

datatype mm_channel_evt =
    MM_CHANNEL_EVT_ADD_STREAM
  | MM_CHANNEL_EVT_DEL_STREAM "32 word"
  | MM_CHANNEL_EVT_LINK_STREAM "(nat \<times> 32 word) option"
  | MM_CHANNEL_EVT_CONFIG_STREAM "32 word" mm_camera_stream_config
  | MM_CHANNEL_EVT_GET_BUNDLE_INFO
  | MM_CHANNEL_EVT_START
  | MM_CHANNEL_EVT_STOP
  | MM_CHANNEL_EVT_PAUSE
  | MM_CHANNEL_EVT_RESUME
  | MM_CHANNEL_EVT_REQUEST_SUPER_BUF "32 word"
  | MM_CHANNEL_EVT_CANCEL_REQUEST_SUPER_BUF
  | MM_CHANNEL_EVT_FLUSH_SUPER_BUF_QUEUE "32 word"
  | MM_CHANNEL_EVT_CONFIG_NOTIFY_MODE mm_camera_super_buf_notify_mode
  | MM_CHANNEL_EVT_START_ZSL_SNAPSHOT
  | MM_CHANNEL_EVT_STOP_ZSL_SNAPSHOT
  | MM_CHANNEL_EVT_MAP_STREAM_BUF "(32 word \<times> cam_mapping_buf_type) option"
  | MM_CHANNEL_EVT_UNMAP_STREAM_BUF "(32 word \<times> cam_mapping_buf_type) option"
  | MM_CHANNEL_EVT_SET_STREAM_PARM "32 word" bool
  | MM_CHANNEL_EVT_GET_STREAM_PARM "32 word" bool
  | MM_CHANNEL_EVT_DO_STREAM_ACTION "32 word" bool
  | MM_CHANNEL_EVT_DELETE
  | MM_CHANNEL_EVT_AF_BRACKETING "32 word"
  | MM_CHANNEL_EVT_AE_BRACKETING "32 word"
  | MM_CHANNEL_EVT_FLASH_BRACKETING "32 word"
  | MM_CHANNEL_EVT_MTF_BRACKETING "32 word"
  | MM_CHANNEL_EVT_ZOOM_1X "32 word"
  | MM_CHANNEL_EVT_GET_STREAM_QUEUED_BUF_COUNT "32 word"

text \<open>What an event writes through \<open>out_val\<close> or into the payload.\<close>

datatype chan_out = NoOut | Handle "32 word" | BundleInfo "32 word" "32 word list"

definition MM_CAMERA_POST_FLASH_PREVIEW_SKIP_CNT :: "8 word" where
  "MM_CAMERA_POST_FLASH_PREVIEW_SKIP_CNT = 3"

section \<open>The world of a channel operation\<close>

datatype cam_action =
    AtStream nat nat s_action
  | StartZsl
  | StopZsl
  | PollLaunch nat
  | PollRelease nat
  | SuperbufCallback nat superbuf

text \<open>The channels of a camera, the count of handles given out, and the outside, as for a stream.\<close>

record cw =
  chans :: "mm_channel list"
  g_handler_history_count :: "16 word"
  w_rets :: "int list"
  w_mems :: "bool list"
  w_frames :: "(32 word \<times> 32 word) list"
  w_allocs :: "bool list list"
  w_trace :: "cam_action list"

text \<open>The build, the camera's device name, and the contents of a metadata buffer, if it is mapped.\<close>

record cam_env =
  e_build :: build
  e_dev :: bool
  e_meta :: "mm_camera_buf_info \<Rightarrow> cam_metadata_info option"

definition chan :: "nat \<Rightarrow> cw \<Rightarrow> mm_channel" where
  "chan c w = chans w ! c"

definition upd_chan :: "nat \<Rightarrow> (mm_channel \<Rightarrow> mm_channel) \<Rightarrow> cw \<Rightarrow> cw" where
  "upd_chan c f w = w\<lparr>chans := (chans w)[c := f (chan c w)]\<rparr>"

definition stream :: "nat \<times> nat \<Rightarrow> cw \<Rightarrow> mm_stream" where
  "stream a w = streams (chan (fst a) w) ! snd a"

definition upd_stream :: "nat \<times> nat \<Rightarrow> (mm_stream \<Rightarrow> mm_stream) \<Rightarrow> cw \<Rightarrow> cw" where
  "upd_stream a f w =
     upd_chan (fst a) (\<lambda>ch. ch\<lparr>streams := (streams ch)[snd a := f (stream a w)]\<rparr>) w"

definition log_act :: "cam_action \<Rightarrow> cw \<Rightarrow> cw" where
  "log_act a w = w\<lparr>w_trace := w_trace w @ [a]\<rparr>"

definition alloc_ok :: "cw \<Rightarrow> bool \<times> cw" where
  "alloc_ok w = (case w_mems w of [] \<Rightarrow> (True, w) | m # ms \<Rightarrow> (m, w\<lparr>w_mems := ms\<rparr>))"

text \<open>
  A stream operation at an address. Its world holds the stream, the count of preview frames to skip
  of the channel that owns it, and the outside.
\<close>

definition on_stream :: "nat \<times> nat \<Rightarrow> 'a sop \<Rightarrow> cw \<Rightarrow> 'a \<times> cw" where
  "on_stream a m w =
     (let s = stream a w;
          own = (case s_ch_obj s of None \<Rightarrow> fst a | Some o' \<Rightarrow> o');
          w0 = \<lparr>strm = s, skip_cnt = previewSkipCnt (chan own w), rets = w_rets w, mems = w_mems w,
                frames = w_frames w, allocs = w_allocs w, trace = []\<rparr>
      in case run_state m w0 of
           (r, w1) \<Rightarrow>
             (r, (upd_stream a (\<lambda>_. strm w1)
                   (upd_chan own (\<lambda>ch. ch\<lparr>previewSkipCnt := skip_cnt w1\<rparr>) w))
                   \<lparr>w_rets := rets w1, w_mems := mems w1, w_frames := frames w1, w_allocs := allocs w1,
                    w_trace := w_trace w @ map (AtStream (fst a) (snd a)) (trace w1)\<rparr>))"

definition stream_evt :: "cam_env \<Rightarrow> nat \<times> nat \<Rightarrow> mm_stream_evt \<Rightarrow> cw \<Rightarrow> int \<times> cw" where
  "stream_evt E a evt = on_stream a (mm_stream_fsm_fn (e_build E) (e_dev E) evt)"

text \<open>A command enters the queue of a channel's thread; a zeroed queue has no head to link it to.\<close>

definition enq_cmd :: "nat \<Rightarrow> mm_camera_cmdcb \<Rightarrow> cw \<Rightarrow> cw option" where
  "enq_cmd c cmd w =
     (case ch_cmds (chan c w) of
        None \<Rightarrow> None
      | Some q \<Rightarrow> Some (upd_chan c (\<lambda>ch. ch\<lparr>ch_cmds := Some (q @ [cmd])\<rparr>) w))"

text \<open>
  A frame arrives (\<open>mm_stream_data_notify\<close>, called by the poll thread): what the stream passes on is
  put into the queues of the channels.
\<close>

fun pass_on :: "mm_stream \<Rightarrow> s_action list \<Rightarrow> cw \<Rightarrow> cw option" where
  "pass_on s [] w = Some w"
| "pass_on s (a # as) w =
     (case (case a of
              ToChannel b \<Rightarrow> (case s_ch_obj s of None \<Rightarrow> Some w | Some c \<Rightarrow> enq_cmd c (MM_CAMERA_CMD_TYPE_DATA_CB b) w)
            | ToLinked b \<Rightarrow> (case linked_obj s of None \<Rightarrow> Some w | Some c \<Rightarrow> enq_cmd c (MM_CAMERA_CMD_TYPE_DATA_CB b) w)
            | _ \<Rightarrow> Some w) of
        None \<Rightarrow> None
      | Some w' \<Rightarrow> pass_on s as w')"

definition frame_arrives :: "nat \<times> nat \<Rightarrow> cw \<Rightarrow> cw option" where
  "frame_arrives a w =
     (let (acts, w') = on_stream a (do { mm_stream_data_notify; gets trace }) w
      in pass_on (stream a w) acts w')"

section \<open>Looking up streams\<close>

definition get_stream_by_handler :: "mm_channel \<Rightarrow> 32 word \<Rightarrow> nat option" where
  "get_stream_by_handler ch handler =
     List.find (\<lambda>i. s_state (streams ch ! i) \<noteq> MM_STREAM_STATE_NOTUSED \<and> handler = my_hdl (streams ch ! i))
       [0..<MAX_STREAM_NUM_IN_BUNDLE]"

definition owned :: "nat \<Rightarrow> nat \<Rightarrow> cw \<Rightarrow> bool" where
  "owned c i w \<longleftrightarrow> s_ch_obj (stream (c, i) w) = Some c"

text \<open>A request for a stream of the channel: a linked stream passes it on, or ignores it.\<close>

definition redirected :: "cam_env \<Rightarrow> nat \<Rightarrow> 32 word \<Rightarrow> mm_stream_evt \<Rightarrow> cw \<Rightarrow> (int \<times> cw) option" where
  "redirected E c h evt w =
     (case get_stream_by_handler (chan c w) h of
        None \<Rightarrow> Some (- 1, w)
      | Some i \<Rightarrow>
          if owned c i w then Some (stream_evt E (c, i) evt w)
          else (case linked_stream (stream (c, i) w) of
                  None \<Rightarrow> None
                | Some a \<Rightarrow> Some (stream_evt E a evt w)))"

definition own_only :: "nat \<Rightarrow> 32 word \<Rightarrow> int sop \<Rightarrow> cw \<Rightarrow> int \<times> cw" where
  "own_only c h m w =
     (case get_stream_by_handler (chan c w) h of
        None \<Rightarrow> (- 1, w)
      | Some i \<Rightarrow> if owned c i w then on_stream (c, i) m w else (0, w))"

definition stream_fsm :: "cam_env \<Rightarrow> mm_stream_evt \<Rightarrow> int sop" where
  "stream_fsm E evt = mm_stream_fsm_fn (e_build E) (e_dev E) evt"

definition mm_channel_qbuf :: "cam_env \<Rightarrow> nat \<Rightarrow> mm_camera_buf_def \<Rightarrow> cw \<Rightarrow> (int \<times> cw) option" where
  "mm_channel_qbuf E c b = redirected E c (b_stream_id b) (MM_STREAM_EVT_QBUF b)"

definition mm_channel_get_queued_buf_count :: "cam_env \<Rightarrow> nat \<Rightarrow> 32 word \<Rightarrow> cw \<Rightarrow> (int \<times> cw) option" where
  "mm_channel_get_queued_buf_count E c h = redirected E c h MM_STREAM_EVT_GET_QUEUED_BUF_COUNT"

definition mm_channel_config_stream :: "cam_env \<Rightarrow> nat \<Rightarrow> 32 word \<Rightarrow> mm_camera_stream_config \<Rightarrow>
    cw \<Rightarrow> int \<times> cw" where
  "mm_channel_config_stream E c h config = own_only c h (stream_fsm E (MM_STREAM_EVT_SET_FMT config))"

definition mm_channel_set_stream_parm :: "cam_env \<Rightarrow> nat \<Rightarrow> 32 word \<Rightarrow> bool \<Rightarrow> cw \<Rightarrow> int \<times> cw" where
  "mm_channel_set_stream_parm E c h given = own_only c h (stream_fsm E (MM_STREAM_EVT_SET_PARM given))"

definition mm_channel_get_stream_parm :: "cam_env \<Rightarrow> nat \<Rightarrow> 32 word \<Rightarrow> bool \<Rightarrow> cw \<Rightarrow> int \<times> cw" where
  "mm_channel_get_stream_parm E c h given = own_only c h (stream_fsm E (MM_STREAM_EVT_GET_PARM given))"

definition mm_channel_do_stream_action :: "cam_env \<Rightarrow> nat \<Rightarrow> 32 word \<Rightarrow> bool \<Rightarrow> cw \<Rightarrow> int \<times> cw" where
  "mm_channel_do_stream_action E c h given = own_only c h (stream_fsm E (MM_STREAM_EVT_DO_ACTION given))"

definition mm_channel_map_stream_buf :: "nat \<Rightarrow> 32 word \<Rightarrow> cw \<Rightarrow> int \<times> cw" where
  "mm_channel_map_stream_buf c h = own_only c h mm_stream_map_buf"

definition mm_channel_unmap_stream_buf :: "nat \<Rightarrow> 32 word \<Rightarrow> cw \<Rightarrow> int \<times> cw" where
  "mm_channel_unmap_stream_buf c h = own_only c h mm_stream_unmap_buf"

section \<open>Operations on the superbuffer queue\<close>

text \<open>Giving a buffer back, in a world that may have come to an end; the result is ignored.\<close>

definition qb :: "cam_env \<Rightarrow> nat \<Rightarrow> mm_camera_buf_def \<Rightarrow> cw option \<Rightarrow> cw option" where
  "qb E c b wo = do { w \<leftarrow> wo; (rc, w) \<leftarrow> mm_channel_qbuf E c b w; Some w }"

definition set_queue :: "nat \<Rightarrow> mm_channel_queue \<times> cw option \<Rightarrow> cw option" where
  "set_queue c = (\<lambda>(q, wo). map_option (upd_chan c (\<lambda>ch. ch\<lparr>superbuf_queue := q\<rparr>)) wo)"

definition upd_queue :: "nat \<Rightarrow> (mm_channel_queue \<Rightarrow> mm_channel_queue) \<Rightarrow> cw \<Rightarrow> cw" where
  "upd_queue c f = upd_chan c (\<lambda>ch. ch\<lparr>superbuf_queue := f (superbuf_queue ch)\<rparr>)"

definition channel_flush :: "cam_env \<Rightarrow> nat \<Rightarrow> cam_stream_type \<Rightarrow> cw \<Rightarrow> cw option" where
  "channel_flush E c t w = set_queue c (superbuf_flush (qb E c) t (superbuf_queue (chan c w)) (Some w))"

definition channel_flush_matched :: "cam_env \<Rightarrow> nat \<Rightarrow> cw \<Rightarrow> cw option" where
  "channel_flush_matched E c w =
     set_queue c (superbuf_flush_matched (qb E c) (superbuf_queue (chan c w)) (Some w))"

definition channel_skip :: "cam_env \<Rightarrow> nat \<Rightarrow> cw \<Rightarrow> cw option" where
  "channel_skip E c w = do {
     r \<leftarrow> superbuf_skip (qb E c) (superbuf_queue (chan c w)) (Some w);
     set_queue c r }"

definition channel_overflow :: "cam_env \<Rightarrow> nat \<Rightarrow> cw \<Rightarrow> cw option" where
  "channel_overflow E c w = do {
     r \<leftarrow> bufdone_overflow (qb E c) (superbuf_queue (chan c w)) (Some w);
     set_queue c r }"

section \<open>Metadata\<close>

text \<open>
  The snapshot stream of the channel. The loop looks into the description of every slot before the
  one it finds, also of slots that are not in use.
\<close>

fun snapshot_stream_id :: "mm_stream list \<Rightarrow> 32 word option" where
  "snapshot_stream_id [] = Some 0"
| "snapshot_stream_id (s # ss) =
     (case stream_info s of
        None \<Rightarrow> None
      | Some si \<Rightarrow> if si_type si = CAM_STREAM_TYPE_SNAPSHOT then Some (server_stream_id s)
                  else snapshot_stream_id ss)"

definition is_crop_1x_found :: "32 word \<Rightarrow> cam_metadata_info \<Rightarrow> bool" where
  "is_crop_1x_found sid md \<longleftrightarrow> is_crop_valid md \<and>
     list_ex (\<lambda>c. sid = crop_stream_id c \<and> crop_left c = 0 \<and> crop_top c = 0) (crop_data md)"

definition max_future_frame_offset :: "32 word" where "max_future_frame_offset = 100"

definition expect_later :: "nat \<Rightarrow> cw \<Rightarrow> cw" where
  "expect_later c = upd_queue c (\<lambda>q. q\<lparr>expected_frame_id := expected_frame_id q + max_future_frame_offset\<rparr>)"

text \<open>The requests a metadata frame of the channel's own stream answers.\<close>

definition metadata_zoom :: "cam_env \<Rightarrow> nat \<Rightarrow> bool \<Rightarrow> mm_camera_buf_info \<Rightarrow> cw \<Rightarrow> cw option" where
  "metadata_zoom E c crop_1x b w =
     (if crop_1x
      then Some (upd_queue c (\<lambda>q. q\<lparr>expected_frame_id := bi_frame_idx b + 1\<rparr>)
                  (upd_chan c (\<lambda>ch. ch\<lparr>isZoom1xFrameRequested := False\<rparr>) w))
      else channel_flush_matched E c (expect_later c w))"

definition metadata_prepare :: "cam_env \<Rightarrow> nat \<Rightarrow> cam_metadata_info \<Rightarrow> cw \<Rightarrow> cw option" where
  "metadata_prepare E c md w =
     (if is_prep_snapshot_done_valid md then
        if prep_snapshot_done_state md = NEED_FUTURE_FRAME then
          map_option (upd_chan c (\<lambda>ch. ch\<lparr>needLEDFlash := True\<rparr>))
            (channel_flush E c CAM_STREAM_TYPE_DEFAULT (expect_later c w))
        else Some (upd_chan c (\<lambda>ch. ch\<lparr>needLEDFlash := False\<rparr>) w)
      else if is_good_frame_idx_range_valid md then
        Some (upd_queue c (\<lambda>q. q\<lparr>expected_frame_id := min_frame_idx md\<rparr>) w)
      else if bracketingState (chan c w) = MM_CHANNEL_BRACKETING_STATE_WAIT_GOOD_FRAME_IDX then
        map_option (expect_later c) (channel_flush_matched E c w)
      else Some w)"

definition metadata_bracketing :: "nat \<Rightarrow> cam_metadata_info \<Rightarrow> cw \<Rightarrow> cw" where
  "metadata_bracketing c md w =
     (if \<not> is_good_frame_idx_range_valid md then w
      else if isFlashBracketingEnabled (chan c w) then
        upd_queue c (\<lambda>q. q\<lparr>expected_frame_id := min_frame_idx md,
                          expected_frame_id_without_led := max_frame_idx md\<rparr>) w
      else upd_chan c (\<lambda>ch. ch\<lparr>bracketingState := MM_CHANNEL_BRACKETING_STATE_ACTIVE\<rparr>)
             (upd_queue c (\<lambda>q. q\<lparr>expected_frame_id := min_frame_idx md\<rparr>) w))"

definition mm_channel_handle_metadata :: "cam_env \<Rightarrow> nat \<Rightarrow> mm_camera_buf_info \<Rightarrow> cw \<Rightarrow> (int \<times> cw) option" where
  "mm_channel_handle_metadata E c b w =
     (case get_stream_by_handler (chan c w) (bi_stream_id b) of
        None \<Rightarrow> Some (- 1, w)
      | Some i \<Rightarrow>
        (case stream_info (stream (c, i) w) of
           None \<Rightarrow> Some (- 1, w)
         | Some si \<Rightarrow>
           if si_type si \<noteq> CAM_STREAM_TYPE_METADATA then Some (0, w)
           else
             (case e_meta E b of
                None \<Rightarrow> Some (- 1, w)
              | Some md \<Rightarrow> do {
                  w \<leftarrow> (if is_frame_id_reset md
                       then map_option (upd_queue c (\<lambda>q. q\<lparr>expected_frame_id := 1\<rparr>))
                              (channel_flush E c CAM_STREAM_TYPE_DEFAULT w)
                       else Some w);
                  if is_meta_invalid md then Some (- 1, w)
                  else if \<not> owned c i w then Some (0, w)
                  else do {
                    sid \<leftarrow> snapshot_stream_id (streams (chan c w));
                    if is_prep_snapshot_done_valid md \<and> is_good_frame_idx_range_valid md then Some (- 1, w)
                    else if isZoom1xFrameRequested (chan c w) then do {
                      w \<leftarrow> metadata_zoom E c (is_crop_1x_found sid md) b w;
                      Some (0, w) }
                    else do {
                      w \<leftarrow> metadata_prepare E c md w;
                      Some (0, metadata_bracketing c md w) } } })))"

section \<open>Matching a frame\<close>

definition bundle_index :: "mm_channel_queue \<Rightarrow> 32 word \<Rightarrow> nat option" where
  "bundle_index q h = List.find (\<lambda>i. h = bundled_streams q ! i) [0..<num_streams q]"

text \<open>Whether the frame needs a node of its own; then two allocations are made.\<close>

definition needs_node :: "mm_channel_queue \<Rightarrow> mm_camera_buf_info \<Rightarrow> bool" where
  "needs_node q b =
     (case scan (bi_frame_idx b) (que q) 0 (0, None, None) of
        (Some _, _) \<Rightarrow> False
      | (None, unmatched, last_buf, _) \<Rightarrow> \<not> (max_unmatched_frames (attr q) < unmatched \<and> last_buf = None))"

definition alloc_node :: "mm_channel_queue \<Rightarrow> mm_camera_buf_info \<Rightarrow> cw \<Rightarrow> bool \<times> cw" where
  "alloc_node q b w =
     (if needs_node q b
      then (let (m1, w1) = alloc_ok w; (m2, w2) = alloc_ok w1 in (m1 \<and> m2, w2))
      else (True, w))"

text \<open>A frame without a buffer would be a null pointer here; the streams send none.\<close>

definition comp_and_enqueue :: "cam_env \<Rightarrow> nat \<Rightarrow> mm_camera_buf_info \<Rightarrow> cw \<Rightarrow> (int \<times> cw) option" where
  "comp_and_enqueue E c b w =
     (case bundle_index (superbuf_queue (chan c w)) (bi_stream_id b) of
        None \<Rightarrow> Some (- 1, w)
      | Some i \<Rightarrow> do {
          d \<leftarrow> bi_buf b;
          (rc, w) \<leftarrow> mm_channel_handle_metadata E c b w;
          if rc < 0 then do { (_, w) \<leftarrow> mm_channel_qbuf E c d w; Some (- 1, w) }
          else
            let q = superbuf_queue (chan c w)
            in if seq_comp_w_rollover (bi_frame_idx b) (expected_frame_id q) < 0
               then do { (_, w) \<leftarrow> mm_channel_qbuf E c d w; Some (0, w) }
               else
                 (case alloc_node q b w of
                    (mem, w) \<Rightarrow>
                      (case superbuf_comp (qb E c) mem i b (q, isFlashBracketingEnabled (chan c w), Some w) of
                         (q', led, wo) \<Rightarrow> do {
                           w \<leftarrow> set_queue c (q', wo);
                           Some (0, upd_chan c (\<lambda>ch. ch\<lparr>isFlashBracketingEnabled := led\<rparr>) w) })) })"

section \<open>The command thread\<close>

text \<open>
  A superbuffer goes to the callback thread. Without a callback, or without memory for the message,
  its buffers are given back; without memory for the queue's own node it is lost.
\<close>

definition give_back_all :: "cam_env \<Rightarrow> nat \<Rightarrow> superbuf \<Rightarrow> cw \<Rightarrow> cw option" where
  "give_back_all E c ds w = fold (\<lambda>d wo. do { w \<leftarrow> wo; b \<leftarrow> d; qb E c b (Some w) }) ds (Some w)"

definition superbuf_of :: "mm_channel_queue_node \<Rightarrow> superbuf" where
  "superbuf_of sb = map bi_buf (slots sb)"

definition deliver :: "cam_env \<Rightarrow> nat \<Rightarrow> mm_channel_queue_node \<Rightarrow> cw \<Rightarrow> cw option" where
  "deliver E c sb w =
     (if super_buf_notify_cb (chan c w) = None then give_back_all E c (superbuf_of sb) w
      else
        (case alloc_ok w of
           (False, w) \<Rightarrow> give_back_all E c (superbuf_of sb) w
         | (True, w) \<Rightarrow>
             (case alloc_ok w of
                (False, w) \<Rightarrow> Some w
              | (True, w) \<Rightarrow> do {
                  q \<leftarrow> ch_cbs (chan c w);
                  Some (upd_chan c (\<lambda>ch. ch\<lparr>ch_cbs := Some (q @ [superbuf_of sb])\<rparr>) w) })))"

text \<open>In burst mode a superbuffer answers one request; the last one ends the snapshot.\<close>

definition count_down :: "nat \<Rightarrow> cw \<Rightarrow> cw" where
  "count_down c w =
     (let w = upd_chan c (\<lambda>ch. ch\<lparr>pending_cnt := pending_cnt ch - 1\<rparr>) w; ch = chan c w
      in if pending_cnt ch = 0 \<and> startZSlSnapshotCalled ch \<and> \<not> manualZSLSnapshot ch
         then log_act StopZsl (upd_chan c (\<lambda>ch. ch\<lparr>previewSkipCnt := MM_CAMERA_POST_FLASH_PREVIEW_SKIP_CNT,
                startZSlSnapshotCalled := False\<rparr>) w)
         else w)"

function dispatch_loop :: "cam_env \<Rightarrow> nat \<Rightarrow> mm_camera_super_buf_notify_mode \<Rightarrow>
    mm_channel_queue \<Rightarrow> cw \<Rightarrow> (mm_channel_queue \<times> cw) option" where
  "dispatch_loop E c mode q w =
     (if 0 < pending_cnt (chan c w) \<or> mode = MM_CAMERA_SUPER_BUF_NOTIFY_CONTINUOUS
      then (case dequeue_internal True q of
              (None, q') \<Rightarrow> Some (q', w)
            | (Some sb, q') \<Rightarrow>
                (case deliver E c sb (if mode = MM_CAMERA_SUPER_BUF_NOTIFY_BURST then count_down c w else w) of
                   None \<Rightarrow> None
                 | Some w' \<Rightarrow> dispatch_loop E c mode q' w'))
      else Some (q, w))"
  by pat_completeness auto
termination
  by (relation "measure (\<lambda>(E, c, mode, q, w). length (que q))")
    (auto simp: dequeue_internal_def split: list.splits if_splits)

declare dispatch_loop.simps [simp del]

text \<open>A request for superbuffers starts the snapshot when the flash or bracketing needs it, or ends it.\<close>

definition request_snapshot :: "nat \<Rightarrow> cw \<Rightarrow> cw" where
  "request_snapshot c w =
     (let ch = chan c w in
      if 0 < pending_cnt ch \<and> (needLEDFlash ch \<or> bracketingState ch \<noteq> MM_CHANNEL_BRACKETING_STATE_OFF) \<and>
         \<not> manualZSLSnapshot ch \<and> \<not> startZSlSnapshotCalled ch
      then upd_chan c (\<lambda>ch. ch\<lparr>startZSlSnapshotCalled := True, needLEDFlash := False, previewSkipCnt := 0\<rparr>)
             (log_act StartZsl w)
      else if pending_cnt ch = 0 \<and> startZSlSnapshotCalled ch \<and> \<not> manualZSLSnapshot ch
      then upd_chan c (\<lambda>ch. ch\<lparr>startZSlSnapshotCalled := False, needLEDFlash := False,
                          bracketingState := MM_CHANNEL_BRACKETING_STATE_OFF\<rparr>) (log_act StopZsl w)
      else w)"

definition general_cmd :: "cam_env \<Rightarrow> nat \<Rightarrow> mm_camera_generic_cmd_type \<Rightarrow> bool \<Rightarrow> cw \<Rightarrow> cw option" where
  "general_cmd E c t start w =
     (case t of
        MM_CAMERA_GENERIC_CMD_TYPE_FLASH_BRACKETING \<Rightarrow>
          Some (upd_chan c (\<lambda>ch. ch\<lparr>isFlashBracketingEnabled := start\<rparr>) w)
      | MM_CAMERA_GENERIC_CMD_TYPE_ZOOM_1X \<Rightarrow>
          Some (upd_chan c (\<lambda>ch. ch\<lparr>isZoom1xFrameRequested := start\<rparr>) w)
      | _ \<Rightarrow>
          map_option (upd_chan c (\<lambda>ch. ch\<lparr>bracketingState :=
              (if start then MM_CHANNEL_BRACKETING_STATE_WAIT_GOOD_FRAME_IDX
               else MM_CHANNEL_BRACKETING_STATE_OFF)\<rparr>))
            (channel_flush E c CAM_STREAM_TYPE_DEFAULT w))"

text \<open>The command itself, and then the superbuffers that can go out.\<close>

definition exec_cmd :: "cam_env \<Rightarrow> nat \<Rightarrow> mm_camera_cmdcb \<Rightarrow> cw \<Rightarrow> cw option" where
  "exec_cmd E c cmd w =
     (case cmd of
        MM_CAMERA_CMD_TYPE_DATA_CB b \<Rightarrow> map_option snd (comp_and_enqueue E c b w)
      | MM_CAMERA_CMD_TYPE_REQ_DATA_CB n \<Rightarrow>
          map_option (request_snapshot c) (channel_skip E c (upd_chan c (\<lambda>ch. ch\<lparr>pending_cnt := n\<rparr>) w))
      | MM_CAMERA_CMD_TYPE_START_ZSL \<Rightarrow>
          Some (log_act StartZsl (upd_chan c (\<lambda>ch. ch\<lparr>manualZSLSnapshot := True\<rparr>) w))
      | MM_CAMERA_CMD_TYPE_STOP_ZSL \<Rightarrow>
          Some (log_act StopZsl (upd_chan c (\<lambda>ch. ch\<lparr>manualZSLSnapshot := False\<rparr>) w))
      | MM_CAMERA_CMD_TYPE_CONFIG_NOTIFY mode \<Rightarrow>
          Some (upd_queue c (\<lambda>q. q\<lparr>attr := (attr q)\<lparr>notify_mode := mode\<rparr>\<rparr>) w)
      | MM_CAMERA_CMD_TYPE_FLUSH_QUEUE idx t \<Rightarrow>
          channel_flush E c t (upd_queue c (\<lambda>q. q\<lparr>expected_frame_id := idx\<rparr>) w)
      | MM_CAMERA_CMD_TYPE_GENERAL t start \<Rightarrow> general_cmd E c t (start \<noteq> 0) w)"

definition dispatch :: "cam_env \<Rightarrow> nat \<Rightarrow> cw \<Rightarrow> cw option" where
  "dispatch E c w = do {
     w \<leftarrow> channel_overflow E c w;
     (q, w) \<leftarrow> dispatch_loop E c (notify_mode (attr (superbuf_queue (chan c w)))) (superbuf_queue (chan c w)) w;
     set_queue c (q, Some w) }"

definition mm_channel_process_stream_buf :: "cam_env \<Rightarrow> nat \<Rightarrow> mm_camera_cmdcb \<Rightarrow> cw \<Rightarrow> cw option" where
  "mm_channel_process_stream_buf E c cmd w = do {
     w \<leftarrow> exec_cmd E c cmd w;
     (case cmd of MM_CAMERA_CMD_TYPE_FLUSH_QUEUE _ _ \<Rightarrow> Some w | _ \<Rightarrow> dispatch E c w) }"

text \<open>The thread takes all commands of its queue in turn.\<close>

fun run_cmds :: "cam_env \<Rightarrow> nat \<Rightarrow> mm_camera_cmdcb list \<Rightarrow> cw \<Rightarrow> cw option" where
  "run_cmds E c [] w = Some w"
| "run_cmds E c (cmd # cmds) w = do {
     w \<leftarrow> mm_channel_process_stream_buf E c cmd w;
     run_cmds E c cmds w }"

definition run_cmd_thread :: "cam_env \<Rightarrow> nat \<Rightarrow> cw \<Rightarrow> cw option" where
  "run_cmd_thread E c w =
     (case ch_cmds (chan c w) of
        None \<Rightarrow> Some w
      | Some cmds \<Rightarrow> run_cmds E c cmds (upd_chan c (\<lambda>ch. ch\<lparr>ch_cmds := Some []\<rparr>) w))"

text \<open>The callback thread calls the client with every superbuffer of its queue.\<close>

definition mm_channel_dispatch_super_buf :: "nat \<Rightarrow> superbuf \<Rightarrow> cw \<Rightarrow> cw" where
  "mm_channel_dispatch_super_buf c sb w =
     (if super_buf_notify_cb (chan c w) = None then w else log_act (SuperbufCallback c sb) w)"

definition cb_thread :: "nat \<Rightarrow> cw \<Rightarrow> cw" where
  "cb_thread c w =
     (case ch_cbs (chan c w) of
        None \<Rightarrow> w
      | Some sbs \<Rightarrow> fold (mm_channel_dispatch_super_buf c) sbs (upd_chan c (\<lambda>ch. ch\<lparr>ch_cbs := Some []\<rparr>) w))"

section \<open>Requests to the thread\<close>

text \<open>
  The command is allocated, then the queue's own node; only the failure of the first is reported.
\<close>

definition send_cmd :: "nat \<Rightarrow> mm_camera_cmdcb \<Rightarrow> cw \<Rightarrow> (int \<times> cw) option" where
  "send_cmd c cmd w =
     (case alloc_ok w of
        (False, w) \<Rightarrow> Some (- 1, w)
      | (True, w) \<Rightarrow>
          (case alloc_ok w of
             (False, w) \<Rightarrow> Some (0, w)
           | (True, w) \<Rightarrow> map_option (Pair 0) (enq_cmd c cmd w)))"

definition mm_channel_request_super_buf :: "nat \<Rightarrow> 32 word \<Rightarrow> cw \<Rightarrow> (int \<times> cw) option" where
  "mm_channel_request_super_buf c n = send_cmd c (MM_CAMERA_CMD_TYPE_REQ_DATA_CB n)"

definition mm_channel_cancel_super_buf_request :: "nat \<Rightarrow> cw \<Rightarrow> (int \<times> cw) option" where
  "mm_channel_cancel_super_buf_request c = mm_channel_request_super_buf c 0"

definition mm_channel_config_notify_mode :: "nat \<Rightarrow> mm_camera_super_buf_notify_mode \<Rightarrow> cw \<Rightarrow> (int \<times> cw) option" where
  "mm_channel_config_notify_mode c mode = send_cmd c (MM_CAMERA_CMD_TYPE_CONFIG_NOTIFY mode)"

definition mm_channel_start_zsl_snapshot :: "nat \<Rightarrow> cw \<Rightarrow> (int \<times> cw) option" where
  "mm_channel_start_zsl_snapshot c = send_cmd c MM_CAMERA_CMD_TYPE_START_ZSL"

definition mm_channel_stop_zsl_snapshot :: "nat \<Rightarrow> cw \<Rightarrow> (int \<times> cw) option" where
  "mm_channel_stop_zsl_snapshot c = send_cmd c MM_CAMERA_CMD_TYPE_STOP_ZSL"

definition mm_channel_proc_general_cmd :: "nat \<Rightarrow> mm_camera_generic_cmd_type \<Rightarrow> 32 word \<Rightarrow> cw \<Rightarrow> (int \<times> cw) option" where
  "mm_channel_proc_general_cmd c t start = send_cmd c (MM_CAMERA_CMD_TYPE_GENERAL t start)"

text \<open>
  A flush waits until the thread has executed it. Without memory for the queue's node nothing wakes
  the caller.
\<close>

definition mm_channel_flush_super_buf_queue :: "cam_env \<Rightarrow> nat \<Rightarrow> 32 word \<Rightarrow> cam_stream_type \<Rightarrow> cw \<Rightarrow> (int \<times> cw) option" where
  "mm_channel_flush_super_buf_queue E c idx t w =
     (case alloc_ok w of
        (False, w) \<Rightarrow> Some (- 1, w)
      | (True, w) \<Rightarrow>
          (case alloc_ok w of
             (False, w) \<Rightarrow> None
           | (True, w) \<Rightarrow> do {
               w \<leftarrow> enq_cmd c (MM_CAMERA_CMD_TYPE_FLUSH_QUEUE idx t) w;
               w \<leftarrow> run_cmd_thread E c w;
               Some (0, w) }))"

text \<open>
  Releasing a thread: the exit command is behind the others, which are executed first; then the
  object is zeroed. Without memory for the command the thread goes on; without memory for the queue's
  node it never exits and its caller waits for ever.
\<close>

definition release_thread :: "(cw \<Rightarrow> cw option) \<Rightarrow> (mm_channel \<Rightarrow> mm_channel) \<Rightarrow> nat \<Rightarrow> bool \<Rightarrow> cw \<Rightarrow> cw option" where
  "release_thread run zero c launched w =
     (case alloc_ok w of
        (False, w) \<Rightarrow> Some w
      | (True, w) \<Rightarrow>
          (case alloc_ok w of
             (False, w) \<Rightarrow> None
           | (True, w) \<Rightarrow> if launched then map_option (upd_chan c zero) (run w) else None))"

definition release_cmd_thread :: "cam_env \<Rightarrow> nat \<Rightarrow> cw \<Rightarrow> cw option" where
  "release_cmd_thread E c w =
     release_thread (run_cmd_thread E c) (\<lambda>ch. ch\<lparr>ch_cmds := None\<rparr>) c (ch_cmds (chan c w) \<noteq> None) w"

definition release_cb_thread :: "nat \<Rightarrow> cw \<Rightarrow> cw option" where
  "release_cb_thread c w =
     release_thread (\<lambda>w. Some (cb_thread c w)) (\<lambda>ch. ch\<lparr>ch_cbs := None\<rparr>) c (ch_cbs (chan c w) \<noteq> None) w"

section \<open>Streams of a channel\<close>

text \<open>\<open>mm_camera_util_generate_handler\<close>: the count of handles in the upper, the index in the lower bits.\<close>

definition generate_handler :: "nat \<Rightarrow> cw \<Rightarrow> 32 word \<times> cw" where
  "generate_handler idx w =
     (let n = g_handler_history_count w + 1; n = (if n = 0 then n + 1 else n)
      in (or (push_bit 8 (ucast n)) (of_nat idx), w\<lparr>g_handler_history_count := n\<rparr>))"

definition free_slot :: "mm_channel \<Rightarrow> nat option" where
  "free_slot ch =
     List.find (\<lambda>i. s_state (streams ch ! i) = MM_STREAM_STATE_NOTUSED) [0..<MAX_STREAM_NUM_IN_BUNDLE]"

definition mm_channel_link_stream :: "nat \<Rightarrow> (nat \<times> 32 word) option \<Rightarrow> cw \<Rightarrow> 32 word \<times> cw" where
  "mm_channel_link_stream c link w =
     (case link of
        None \<Rightarrow> (0, w)
      | Some (c', h) \<Rightarrow>
          (case get_stream_by_handler (chan c' w) h of
             None \<Rightarrow> (0, w)
           | Some j \<Rightarrow>
               (case free_slot (chan c w) of
                  None \<Rightarrow> (0, w)
                | Some i \<Rightarrow>
                    (my_hdl (stream (c', j) w),
                     upd_stream (c, i) (\<lambda>_. (stream (c', j) w)\<lparr>linked_stream := Some (c', j)\<rparr>) w))))"

definition mm_channel_add_stream :: "cam_env \<Rightarrow> nat \<Rightarrow> cw \<Rightarrow> 32 word \<times> cw" where
  "mm_channel_add_stream E c w =
     (case free_slot (chan c w) of
        None \<Rightarrow> (0, w)
      | Some i \<Rightarrow>
          (case generate_handler i w of
             (h, w) \<Rightarrow>
               (case stream_evt E (c, i) MM_STREAM_EVT_ACQUIRE (upd_stream (c, i) (\<lambda>_. added_stream h (Some c)) w) of
                  (rc, w) \<Rightarrow> if rc = 0 then (h, w) else (0, upd_stream (c, i) (\<lambda>_. no_stream) w))))"

definition unlink :: "nat \<times> nat \<Rightarrow> cw \<Rightarrow> cw" where
  "unlink a = upd_stream a (\<lambda>s. s\<lparr>is_linked := False, linked_obj := None\<rparr>)"

definition mm_channel_del_stream :: "cam_env \<Rightarrow> nat \<Rightarrow> 32 word \<Rightarrow> cw \<Rightarrow> (int \<times> cw) option" where
  "mm_channel_del_stream E c h w =
     (case get_stream_by_handler (chan c w) h of
        None \<Rightarrow> Some (- 1, w)
      | Some i \<Rightarrow>
          if owned c i w then Some (stream_evt E (c, i) MM_STREAM_EVT_RELEASE w)
          else do {
            a \<leftarrow> linked_stream (stream (c, i) w);
            Some (0, upd_stream (c, i) (\<lambda>_. no_stream) (unlink a w)) })"

text \<open>
  The streams a start, a stop or a query goes through, each by the slot its handle is found in, with
  the type of each; a stream that is not configured has no description to read it from.
\<close>

fun collect :: "mm_channel \<Rightarrow> nat list \<Rightarrow> (nat \<times> cam_stream_type) list option" where
  "collect ch [] = Some []"
| "collect ch (i # is) =
     (if my_hdl (streams ch ! i) = 0 then collect ch is
      else
        (case get_stream_by_handler ch (my_hdl (streams ch ! i)) of
           None \<Rightarrow> collect ch is
         | Some k \<Rightarrow> do {
             si \<leftarrow> stream_info (streams ch ! k);
             rest \<leftarrow> collect ch is;
             Some ((k, si_type si) # rest) }))"

definition all_slots :: "nat list" where "all_slots = [0..<MAX_STREAM_NUM_IN_BUNDLE]"

text \<open>The position of the channel's own metadata stream, the last one if there are several, else 0.\<close>

definition meta_idx :: "nat \<Rightarrow> cw \<Rightarrow> (nat \<times> cam_stream_type) list \<Rightarrow> nat" where
  "meta_idx c w xs =
     (case filter (\<lambda>p. snd (xs ! p) = CAM_STREAM_TYPE_METADATA \<and> owned c (fst (xs ! p)) w) [0..<length xs] of
        [] \<Rightarrow> 0 | ps \<Rightarrow> last ps)"

definition swap_at :: "nat \<Rightarrow> nat \<Rightarrow> 'a list \<Rightarrow> 'a list" where
  "swap_at i j xs = xs[i := xs ! j, j := xs ! i]"

fun bundle_ids :: "nat \<Rightarrow> cw \<Rightarrow> nat list \<Rightarrow> (int \<times> 32 word list) option" where
  "bundle_ids c w [] = Some (0, [])"
| "bundle_ids c w (i # is) =
     (let ch = chan c w in
      if my_hdl (streams ch ! i) = 0 then bundle_ids c w is
      else
        (case get_stream_by_handler ch (my_hdl (streams ch ! i)) of
           None \<Rightarrow> Some (- 1, [])
         | Some k \<Rightarrow> do {
             si \<leftarrow> stream_info (streams ch ! k);
             (rc, ids) \<leftarrow> bundle_ids c w is;
             Some (rc, if si_type si \<noteq> CAM_STREAM_TYPE_METADATA \<and> owned c k w
                       then server_stream_id (streams ch ! k) # ids else ids) }))"

text \<open>On an error the answer is zeroed.\<close>

definition mm_channel_get_bundle_info :: "nat \<Rightarrow> cw \<Rightarrow> (int \<times> chan_out) option" where
  "mm_channel_get_bundle_info c w = do {
     (rc, ids) \<leftarrow> bundle_ids c w all_slots;
     Some (rc, if rc \<noteq> 0 then BundleInfo 0 [] else BundleInfo (ch_hdl (chan c w)) ids) }"

section \<open>Starting and stopping\<close>

definition zero_queue :: mm_channel_queue where
  "zero_queue =
     \<lparr>que = [], que_size = 0, num_streams = 0, bundled_streams = replicate MAX_STREAM_NUM_IN_BUNDLE 0,
      attr = \<lparr>notify_mode = MM_CAMERA_SUPER_BUF_NOTIFY_BURST, water_mark = 0, look_back = 0,
              post_frame_skip = 0, max_unmatched_frames = 0\<rparr>,
      expected_frame_id = 0, match_cnt = 0, expected_frame_id_without_led = 0\<rparr>"

text \<open>Initialising and emptying the list of the queue; the nodes are freed, the counts of matches stay.\<close>

definition superbuf_queue_init :: "mm_channel_queue \<Rightarrow> mm_channel_queue" where
  "superbuf_queue_init q = q\<lparr>que := [], que_size := 0\<rparr>"
definition superbuf_queue_deinit :: "mm_channel_queue \<Rightarrow> mm_channel_queue" where
  "superbuf_queue_deinit q = q\<lparr>que := [], que_size := 0\<rparr>"

text \<open>With a callback the streams are bundled and both threads launched.\<close>

definition set_bundled :: "nat \<Rightarrow> nat \<Rightarrow> cw \<Rightarrow> cw" where
  "set_bundled c k w = (if owned c k w then upd_stream (c, k) (\<lambda>s. s\<lparr>is_bundled := True\<rparr>) w else w)"

definition start_bundle :: "nat \<Rightarrow> nat list \<Rightarrow> cw \<Rightarrow> cw" where
  "start_bundle c ks w =
     (let w1 = fold (set_bundled c) ks w; hs = map (\<lambda>k. my_hdl (stream (c, k) w)) ks
      in upd_chan c (\<lambda>ch. ch\<lparr>bundle_active := True, ch_cmds := Some [], ch_cbs := Some [],
             superbuf_queue := (superbuf_queue_init (superbuf_queue ch))
               \<lparr>num_streams := length ks, expected_frame_id := 0, expected_frame_id_without_led := 0,
                bundled_streams := hs @ drop (length hs) (bundled_streams (superbuf_queue ch))\<rparr>\<rparr>) w1)"

text \<open>
  The streams are started in turn; the loop stops at the first that fails and leaves its position.
\<close>

fun start_streams :: "cam_env \<Rightarrow> nat \<Rightarrow> nat list \<Rightarrow> nat \<Rightarrow> cw \<Rightarrow> (int \<times> nat \<times> cw) option" where
  "start_streams E c [] i w = Some (0, i, w)"
| "start_streams E c (k # ks) i w =
     (if \<not> owned c k w then
        (case linked_stream (stream (c, k) w) of
           None \<Rightarrow> None
         | Some a \<Rightarrow> start_streams E c ks (Suc i)
                      (upd_stream a (\<lambda>s. s\<lparr>linked_obj := Some c, is_linked := True\<rparr>) w))
      else if s_state (stream (c, k) w) = MM_STREAM_STATE_ACTIVE then Some (- 1, i, w)
      else
        (case stream_evt E (c, k) MM_STREAM_EVT_GET_BUF w of
           (rc, w) \<Rightarrow> if rc \<noteq> 0 then Some (rc, i, w) else
        (case stream_evt E (c, k) MM_STREAM_EVT_REG_BUF w of
           (rc, w) \<Rightarrow> if rc \<noteq> 0 then Some (rc, i, w) else
        (case stream_evt E (c, k) MM_STREAM_EVT_START w of
           (rc, w) \<Rightarrow> if rc \<noteq> 0 then Some (rc, i, w) else start_streams E c ks (Suc i) w))))"

text \<open>A linked stream is unlinked, its frames flushed by the type \<open>t\<close>, and the slot cleared.\<close>

definition drop_linked :: "cam_env \<Rightarrow> nat \<Rightarrow> nat \<Rightarrow> cam_stream_type option \<Rightarrow> cw \<Rightarrow> cw option" where
  "drop_linked E c k t w = do {
     a \<leftarrow> linked_stream (stream (c, k) w);
     let w = unlink a w;
     w \<leftarrow> (if bundle_active (chan c w)
          then do { t \<leftarrow> t; (_, w) \<leftarrow> mm_channel_flush_super_buf_queue E c 0 t w; Some w }
          else Some w);
     Some (upd_stream (c, k) (\<lambda>_. no_stream) w) }"

definition type_of :: "nat \<times> nat \<Rightarrow> cw \<Rightarrow> cam_stream_type option" where
  "type_of a w = map_option si_type (stream_info (stream a w))"

definition stop_own :: "cam_env \<Rightarrow> nat \<times> nat \<Rightarrow> cw \<Rightarrow> cw" where
  "stop_own E a w = snd (stream_evt E a MM_STREAM_EVT_UNREG_BUF (snd (stream_evt E a MM_STREAM_EVT_STOP w)))"

definition put_bufs :: "cam_env \<Rightarrow> nat \<times> nat \<Rightarrow> cw \<Rightarrow> cw" where
  "put_bufs E a w = snd (stream_evt E a MM_STREAM_EVT_PUT_BUF w)"

text \<open>After a failure at the stream \<open>f\<close>, it and the ones before it are taken down.\<close>

fun undo_streams :: "cam_env \<Rightarrow> nat \<Rightarrow> nat \<Rightarrow> nat list \<Rightarrow> cw \<Rightarrow> cw option" where
  "undo_streams E c f [] w = Some w"
| "undo_streams E c f (k # ks) w =
     (if \<not> owned c k w then
        (case drop_linked E c k (type_of (c, f) w) w of
           None \<Rightarrow> None | Some w \<Rightarrow> undo_streams E c f ks w)
      else undo_streams E c f ks (put_bufs E (c, k) (stop_own E (c, k) w)))"

definition release_threads :: "cam_env \<Rightarrow> nat \<Rightarrow> cw \<Rightarrow> cw option" where
  "release_threads E c w = do {
     w \<leftarrow> release_cmd_thread E c w;
     w \<leftarrow> release_cb_thread c w;
     Some (upd_queue c superbuf_queue_deinit w) }"

definition zero_bundle :: "mm_channel \<Rightarrow> mm_channel" where
  "zero_bundle ch = ch\<lparr>bundle_active := False, superbuf_queue := zero_queue, super_buf_notify_cb := None\<rparr>"

definition mm_channel_start :: "cam_env \<Rightarrow> nat \<Rightarrow> cw \<Rightarrow> (int \<times> cw) option" where
  "mm_channel_start E c w = do {
     xs \<leftarrow> collect (chan c w) all_slots;
     let m = meta_idx c w xs;
     let ks = (if 0 < m then swap_at 0 m (map fst xs) else map fst xs);
     let w = (if super_buf_notify_cb (chan c w) \<noteq> None then start_bundle c ks w else w);
     (rc, i, w) \<leftarrow> start_streams E c ks 0 w;
     if rc = 0 then Some (0, w)
     else do {
       w \<leftarrow> undo_streams E c (ks ! i) (take (Suc i) ks) w;
       w \<leftarrow> (if bundle_active (chan c w)
            then map_option (upd_chan c zero_bundle) (release_threads E c w)
            else Some w);
       Some (rc, w) } }"

fun stop_streams :: "cam_env \<Rightarrow> nat \<Rightarrow> nat list \<Rightarrow> cw \<Rightarrow> cw option" where
  "stop_streams E c [] w = Some w"
| "stop_streams E c (k # ks) w =
     (if \<not> owned c k w then
        (case drop_linked E c k (type_of (c, k) w) w of
           None \<Rightarrow> None | Some w \<Rightarrow> stop_streams E c ks w)
      else stop_streams E c ks (stop_own E (c, k) w))"

definition mm_channel_stop :: "cam_env \<Rightarrow> nat \<Rightarrow> cw \<Rightarrow> (int \<times> cw) option" where
  "mm_channel_stop E c w = do {
     xs \<leftarrow> collect (chan c w) all_slots;
     let m = meta_idx c w xs;
     let ks = (if int m < int (length xs) - 1 then swap_at (length xs - 1) m (map fst xs) else map fst xs);
     w \<leftarrow> stop_streams E c ks w;
     w \<leftarrow> (if bundle_active (chan c w) then release_threads E c w else Some w);
     Some (0, fold (\<lambda>k w. if owned c k w then put_bufs E (c, k) w else w) ks w) }"

section \<open>The state machine\<close>

definition mm_channel_init :: "nat \<Rightarrow> mm_camera_channel_attr option \<Rightarrow> ptr \<Rightarrow> cw \<Rightarrow> cw" where
  "mm_channel_init c at cbf w =
     upd_chan c (\<lambda>ch. ch\<lparr>super_buf_notify_cb := cbf,
         superbuf_queue := (case at of None \<Rightarrow> superbuf_queue ch | Some x \<Rightarrow> (superbuf_queue ch)\<lparr>attr := x\<rparr>),
         ch_state := MM_CHANNEL_STATE_STOPPED\<rparr>)
       (log_act (PollLaunch c) w)"

definition mm_channel_release :: "nat \<Rightarrow> cw \<Rightarrow> cw" where
  "mm_channel_release c w = upd_chan c (\<lambda>ch. ch\<lparr>ch_state := MM_CHANNEL_STATE_NOTUSED\<rparr>) (log_act (PollRelease c) w)"

definition no_out :: "(int \<times> cw) option \<Rightarrow> (int \<times> chan_out \<times> cw) option" where
  "no_out = map_option (\<lambda>(rc, w). (rc, NoOut, w))"

definition handle_out :: "32 word \<times> cw \<Rightarrow> (int \<times> chan_out \<times> cw) option" where
  "handle_out = (\<lambda>(h, w). Some (0, Handle h, w))"

definition mm_channel_fsm_fn_stopped :: "cam_env \<Rightarrow> nat \<Rightarrow> mm_channel_evt \<Rightarrow> cw \<Rightarrow> (int \<times> chan_out \<times> cw) option" where
  "mm_channel_fsm_fn_stopped E c evt w =
     (case evt of
        MM_CHANNEL_EVT_ADD_STREAM \<Rightarrow> handle_out (mm_channel_add_stream E c w)
      | MM_CHANNEL_EVT_LINK_STREAM link \<Rightarrow> handle_out (mm_channel_link_stream c link w)
      | MM_CHANNEL_EVT_DEL_STREAM h \<Rightarrow> no_out (mm_channel_del_stream E c h w)
      | MM_CHANNEL_EVT_START \<Rightarrow> no_out (do {
          (rc, w) \<leftarrow> mm_channel_start E c w;
          Some (rc, if rc = 0 then upd_chan c (\<lambda>ch. ch\<lparr>ch_state := MM_CHANNEL_STATE_ACTIVE\<rparr>) w else w) })
      | MM_CHANNEL_EVT_CONFIG_STREAM h config \<Rightarrow> no_out (Some (mm_channel_config_stream E c h config w))
      | MM_CHANNEL_EVT_GET_BUNDLE_INFO \<Rightarrow> do {
          (rc, out) \<leftarrow> mm_channel_get_bundle_info c w; Some (rc, out, w) }
      | MM_CHANNEL_EVT_DELETE \<Rightarrow> no_out (Some (0, mm_channel_release c w))
      | MM_CHANNEL_EVT_SET_STREAM_PARM h given \<Rightarrow> no_out (Some (mm_channel_set_stream_parm E c h given w))
      | MM_CHANNEL_EVT_GET_STREAM_QUEUED_BUF_COUNT h \<Rightarrow> no_out (mm_channel_get_queued_buf_count E c h w)
      | MM_CHANNEL_EVT_GET_STREAM_PARM h given \<Rightarrow> no_out (Some (mm_channel_get_stream_parm E c h given w))
      | MM_CHANNEL_EVT_DO_STREAM_ACTION h given \<Rightarrow> no_out (Some (mm_channel_do_stream_action E c h given w))
      | MM_CHANNEL_EVT_MAP_STREAM_BUF p \<Rightarrow>
          (case p of None \<Rightarrow> None | Some (h, _) \<Rightarrow> no_out (Some (mm_channel_map_stream_buf c h w)))
      | MM_CHANNEL_EVT_UNMAP_STREAM_BUF p \<Rightarrow>
          (case p of None \<Rightarrow> None | Some (h, _) \<Rightarrow> no_out (Some (mm_channel_unmap_stream_buf c h w)))
      | _ \<Rightarrow> Some (0, NoOut, w))"

text \<open>Only the buffers of offline processing can be mapped while the channel is active.\<close>

definition offline_buf :: "cam_mapping_buf_type \<Rightarrow> bool" where
  "offline_buf t \<longleftrightarrow> t = CAM_MAPPING_BUF_TYPE_OFFLINE_INPUT_BUF \<or> t = CAM_MAPPING_BUF_TYPE_OFFLINE_META_BUF"

definition map_active :: "(32 word \<Rightarrow> cw \<Rightarrow> int \<times> cw) \<Rightarrow> (32 word \<times> cam_mapping_buf_type) option \<Rightarrow>
    cw \<Rightarrow> (int \<times> cw) option" where
  "map_active f p w =
     Some (case p of None \<Rightarrow> (0, w) | Some (h, t) \<Rightarrow> if offline_buf t then f h w else (0, w))"

definition mm_channel_fsm_fn_active :: "cam_env \<Rightarrow> nat \<Rightarrow> mm_channel_evt \<Rightarrow> cw \<Rightarrow> (int \<times> cw) option" where
  "mm_channel_fsm_fn_active E c evt w =
     (case evt of
        MM_CHANNEL_EVT_STOP \<Rightarrow> do {
          (rc, w) \<leftarrow> mm_channel_stop E c w;
          Some (rc, upd_chan c (\<lambda>ch. ch\<lparr>ch_state := MM_CHANNEL_STATE_STOPPED\<rparr>) w) }
      | MM_CHANNEL_EVT_REQUEST_SUPER_BUF n \<Rightarrow> mm_channel_request_super_buf c n w
      | MM_CHANNEL_EVT_CANCEL_REQUEST_SUPER_BUF \<Rightarrow> mm_channel_cancel_super_buf_request c w
      | MM_CHANNEL_EVT_FLUSH_SUPER_BUF_QUEUE idx \<Rightarrow>
          mm_channel_flush_super_buf_queue E c idx CAM_STREAM_TYPE_DEFAULT w
      | MM_CHANNEL_EVT_START_ZSL_SNAPSHOT \<Rightarrow> mm_channel_start_zsl_snapshot c w
      | MM_CHANNEL_EVT_STOP_ZSL_SNAPSHOT \<Rightarrow> mm_channel_stop_zsl_snapshot c w
      | MM_CHANNEL_EVT_CONFIG_NOTIFY_MODE mode \<Rightarrow> mm_channel_config_notify_mode c mode w
      | MM_CHANNEL_EVT_SET_STREAM_PARM h given \<Rightarrow> Some (mm_channel_set_stream_parm E c h given w)
      | MM_CHANNEL_EVT_GET_STREAM_QUEUED_BUF_COUNT h \<Rightarrow> mm_channel_get_queued_buf_count E c h w
      | MM_CHANNEL_EVT_GET_STREAM_PARM h given \<Rightarrow> Some (mm_channel_get_stream_parm E c h given w)
      | MM_CHANNEL_EVT_DO_STREAM_ACTION h given \<Rightarrow> Some (mm_channel_do_stream_action E c h given w)
      | MM_CHANNEL_EVT_MAP_STREAM_BUF p \<Rightarrow> map_active (mm_channel_map_stream_buf c) p w
      | MM_CHANNEL_EVT_UNMAP_STREAM_BUF p \<Rightarrow> map_active (mm_channel_unmap_stream_buf c) p w
      | MM_CHANNEL_EVT_AF_BRACKETING s \<Rightarrow>
          mm_channel_proc_general_cmd c MM_CAMERA_GENERIC_CMD_TYPE_AF_BRACKETING s w
      | MM_CHANNEL_EVT_MTF_BRACKETING s \<Rightarrow>
          mm_channel_proc_general_cmd c MM_CAMERA_GENERIC_CMD_TYPE_MTF_BRACKETING s w
      | MM_CHANNEL_EVT_AE_BRACKETING s \<Rightarrow>
          mm_channel_proc_general_cmd c MM_CAMERA_GENERIC_CMD_TYPE_AE_BRACKETING s w
      | MM_CHANNEL_EVT_FLASH_BRACKETING s \<Rightarrow>
          mm_channel_proc_general_cmd c MM_CAMERA_GENERIC_CMD_TYPE_FLASH_BRACKETING s w
      | MM_CHANNEL_EVT_ZOOM_1X s \<Rightarrow>
          mm_channel_proc_general_cmd c MM_CAMERA_GENERIC_CMD_TYPE_ZOOM_1X s w
      | _ \<Rightarrow> Some (0, w))"

definition mm_channel_fsm_fn_notused :: "mm_channel_evt \<Rightarrow> cw \<Rightarrow> int \<times> cw" where
  "mm_channel_fsm_fn_notused evt w = (- 1, w)"

definition mm_channel_fsm_fn_paused :: "mm_channel_evt \<Rightarrow> cw \<Rightarrow> int \<times> cw" where
  "mm_channel_fsm_fn_paused evt w = (0, w)"

definition mm_channel_fsm_fn :: "cam_env \<Rightarrow> nat \<Rightarrow> mm_channel_evt \<Rightarrow> cw \<Rightarrow> (int \<times> chan_out \<times> cw) option" where
  "mm_channel_fsm_fn E c evt w =
     (case ch_state (chan c w) of
        MM_CHANNEL_STATE_NOTUSED \<Rightarrow> no_out (Some (mm_channel_fsm_fn_notused evt w))
      | MM_CHANNEL_STATE_STOPPED \<Rightarrow> mm_channel_fsm_fn_stopped E c evt w
      | MM_CHANNEL_STATE_ACTIVE \<Rightarrow> no_out (mm_channel_fsm_fn_active E c evt w)
      | MM_CHANNEL_STATE_PAUSED \<Rightarrow> no_out (Some (mm_channel_fsm_fn_paused evt w)))"

end
