(* ===== verification/MM_Channel_Thread.thy ===== *)
theory MM_Channel_Thread
  imports MM_Channel MM_Superbuf_Inv
begin

text \<open>
  The command thread of a channel. Giving buffers back changes nothing but the counts of the streams'
  buffers (\<open>vw\<close>), so the lemmas on the superbuffer queue carry over to the channel: a command is
  always executed to its end, keeps the queue well formed, and sends out as many superbuffers as are
  requested and complete.
\<close>

section \<open>Giving a buffer back\<close>

text \<open>What stays the same of a stream, and of the world.\<close>

definition ident :: "mm_stream \<Rightarrow> mm_stream" where
  "ident s = s\<lparr>queued_buffer_count := 0, buf_status := None\<rparr>"

definition vw :: "cw \<Rightarrow> cw" where
  "vw w = w\<lparr>chans := map (\<lambda>ch. ch\<lparr>streams := map ident (streams ch)\<rparr>) (chans w), w_rets := [], w_trace := []\<rparr>"

definition still :: "sw \<Rightarrow> sw" where
  "still w = w\<lparr>strm := ident (strm w), rets := [], trace := []\<rparr>"

named_theorems still_ops "stream operations that only count buffers"

lemma still_ask [still_ops]: "keeps still ask"
  by (auto simp: keeps_iff_wp still_def intro!: wp_ask)
lemma still_emit [still_ops]: "keeps still (emit a)"
  by (simp add: keeps_def emit_def still_def)
lemma still_obj [still_ops]: "keeps still (obj f)"
  by (simp add: keeps_def obj_def)
lemma still_upd: "(\<And>s. ident (f s) = ident s) \<Longrightarrow> keeps still (upd f)"
  by (simp add: keeps_def upd_def still_def)
lemma still_upd_status [still_ops]: "keeps still (upd_status i f)"
  unfolding upd_status_def by (rule still_upd) (simp add: ident_def)
lemma still_qbuf [still_ops]: "keeps still (mm_stream_qbuf b)"
  unfolding mm_stream_qbuf_def by (intro pres_intros still_ops still_upd) (simp_all add: ident_def)
lemma still_buf_done [still_ops]: "keeps still (mm_stream_buf_done b)"
  unfolding mm_stream_buf_done_def by (intro pres_intros still_ops)

lemma still_fsm_qbuf: "keeps still (mm_stream_fsm_fn B dev (MM_STREAM_EVT_QBUF b))"
proof -
  have e: "keeps still (mm_stream_fsm_inited dev (MM_STREAM_EVT_QBUF b))"
    "keeps still (mm_stream_fsm_acquired B (MM_STREAM_EVT_QBUF b))"
    "keeps still (mm_stream_fsm_cfg B (MM_STREAM_EVT_QBUF b))"
    "keeps still (mm_stream_fsm_buffed (MM_STREAM_EVT_QBUF b))"
    "keeps still (mm_stream_fsm_reg (MM_STREAM_EVT_QBUF b))"
    "keeps still (mm_stream_fsm_active (MM_STREAM_EVT_QBUF b))"
    by (simp_all add: mm_stream_fsm_inited_def fsm_event_defs stream_parm_evt_def pres_intros still_ops)
  show ?thesis unfolding mm_stream_fsm_fn_def
  proof (intro keeps_bind still_obj)
    fix st show "keeps still (case st of MM_STREAM_STATE_NOTUSED \<Rightarrow> ret (- 1)
     | MM_STREAM_STATE_INITED \<Rightarrow> mm_stream_fsm_inited dev (MM_STREAM_EVT_QBUF b)
     | MM_STREAM_STATE_ACQUIRED \<Rightarrow> mm_stream_fsm_acquired B (MM_STREAM_EVT_QBUF b)
     | MM_STREAM_STATE_CFG \<Rightarrow> mm_stream_fsm_cfg B (MM_STREAM_EVT_QBUF b)
     | MM_STREAM_STATE_BUFFED \<Rightarrow> mm_stream_fsm_buffed (MM_STREAM_EVT_QBUF b)
     | MM_STREAM_STATE_REG \<Rightarrow> mm_stream_fsm_reg (MM_STREAM_EVT_QBUF b)
     | MM_STREAM_STATE_ACTIVE \<Rightarrow> mm_stream_fsm_active (MM_STREAM_EVT_QBUF b))"
      using e by (cases st) (simp_all add: pres_intros)
  qed
qed

lemma vw_upd_chan:
  assumes "(f (chan c w))\<lparr>streams := map ident (streams (f (chan c w)))\<rparr> =
    (chan c w)\<lparr>streams := map ident (streams (chan c w))\<rparr>"
  shows "vw (upd_chan c f w) = vw w"
proof (cases "c < length (chans w)")
  case True
  then show ?thesis using assms
    by (simp add: vw_def upd_chan_def chan_def map_update list_update_same_conv)
next
  case False
  then show ?thesis by (simp add: upd_chan_def not_less list_update_beyond)
qed

lemma vw_upd_stream:
  assumes "ident (f (stream a w)) = ident (stream a w)"
  shows "vw (upd_stream a f w) = vw w"
  unfolding upd_stream_def
proof (rule vw_upd_chan)
  let ?ss = "streams (chan (fst a) w)"
  have "map ident (?ss[snd a := f (stream a w)]) = map ident ?ss"
  proof (cases "snd a < length ?ss")
    case True
    then show ?thesis using assms by (simp add: map_update list_update_same_conv stream_def)
  qed (simp add: not_less list_update_beyond)
  then show "(chan (fst a) w)\<lparr>streams := ?ss[snd a := f (stream a w)]\<rparr>
      \<lparr>streams := map ident (streams ((chan (fst a) w)\<lparr>streams := ?ss[snd a := f (stream a w)]\<rparr>))\<rparr> =
    (chan (fst a) w)\<lparr>streams := map ident ?ss\<rparr>"
    by simp
qed

lemma stream_upd_chan_same:
  assumes "streams (f (chan c w)) = streams (chan c w)"
  shows "stream a (upd_chan c f w) = stream a w"
  using assms by (cases "fst a = c \<and> c < length (chans w)")
    (auto simp: stream_def chan_def upd_chan_def nth_list_update not_less list_update_beyond)

lemma on_stream_still:
  assumes "keeps still m"
  shows "vw (snd (on_stream a m w)) = vw w"
proof -
  let ?s = "stream a w"
  define own where "own = (case s_ch_obj ?s of None \<Rightarrow> fst a | Some o' \<Rightarrow> o')"
  define w0 where "w0 = \<lparr>strm = ?s, skip_cnt = previewSkipCnt (chan own w), rets = w_rets w, mems = w_mems w,
                frames = w_frames w, allocs = w_allocs w, trace = []\<rparr>"
  obtain r w1 where r: "run_state m w0 = (r, w1)" by fastforce
  have st: "still w1 = still w0" using keepsD [OF assms, of w0] r by simp
  have f: "ident (strm w1) = ident ?s" "skip_cnt w1 = previewSkipCnt (chan own w)" "mems w1 = w_mems w"
      "frames w1 = w_frames w" "allocs w1 = w_allocs w"
    using st by (cases w1; simp add: still_def w0_def)+
  let ?w2 = "upd_chan own (\<lambda>ch. ch\<lparr>previewSkipCnt := skip_cnt w1\<rparr>) w"
  have v2: "vw ?w2 = vw w" by (rule vw_upd_chan) (simp add: f(2))
  have v3: "vw (upd_stream a (\<lambda>_. strm w1) ?w2) = vw ?w2"
    by (rule vw_upd_stream) (simp add: f(1) stream_upd_chan_same)
  have "on_stream a m w = (r, (upd_stream a (\<lambda>_. strm w1) ?w2)
      \<lparr>w_rets := rets w1, w_mems := mems w1, w_frames := frames w1, w_allocs := allocs w1,
       w_trace := w_trace w @ map (AtStream (fst a) (snd a)) (trace w1)\<rparr>)"
    using r by (simp add: on_stream_def Let_def own_def [symmetric] w0_def [symmetric])
  moreover have "vw (x\<lparr>w_rets := a1, w_mems := w_mems w, w_frames := w_frames w, w_allocs := w_allocs w,
      w_trace := a2\<rparr>) = vw w" if "vw x = vw w" for x a1 a2
    using that by (cases x; cases w) (simp add: vw_def)
  ultimately show ?thesis using v2 v3 f by simp
qed

text \<open>Every stream in use is the channel's own, or linked to a stream.\<close>

definition wired :: "nat \<Rightarrow> cw \<Rightarrow> bool" where
  "wired c w \<longleftrightarrow> (\<forall>i < MAX_STREAM_NUM_IN_BUNDLE. s_state (stream (c, i) w) \<noteq> MM_STREAM_STATE_NOTUSED \<longrightarrow>
     owned c i w \<or> linked_stream (stream (c, i) w) \<noteq> None)"

lemma find_slot:
  assumes "get_stream_by_handler ch h = Some i"
  shows "i < MAX_STREAM_NUM_IN_BUNDLE" and "s_state (streams ch ! i) \<noteq> MM_STREAM_STATE_NOTUSED"
    and "my_hdl (streams ch ! i) = h"
  using assms by (auto simp: get_stream_by_handler_def find_Some_iff)

lemma qbuf_total:
  assumes "wired c w"
  shows "\<exists>p. mm_channel_qbuf E c b w = Some p \<and> vw (snd p) = vw w"
proof (cases "get_stream_by_handler (chan c w) (b_stream_id b)")
  case None
  then show ?thesis by (simp add: mm_channel_qbuf_def redirected_def)
next
  case (Some i)
  have l: "owned c i w \<or> linked_stream (stream (c, i) w) \<noteq> None"
    using find_slot [OF Some] assms by (simp add: wired_def stream_def)
  have v: "vw (snd (stream_evt E a (MM_STREAM_EVT_QBUF b) w)) = vw w" for a
    unfolding stream_evt_def by (rule on_stream_still [OF still_fsm_qbuf])
  show ?thesis
  proof (cases "owned c i w")
    case True
    then show ?thesis using Some v by (simp add: mm_channel_qbuf_def redirected_def)
  next
    case False
    then obtain a where "linked_stream (stream (c, i) w) = Some a" using l by auto
    then show ?thesis using Some False v by (simp add: mm_channel_qbuf_def redirected_def)
  qed
qed

lemma vw_length: "vw w' = vw w \<Longrightarrow> length (chans w') = length (chans w)"
  by (drule arg_cong [of _ _ "\<lambda>w. length (chans w)"]) (simp add: vw_def)

lemma vw_chan:
  assumes "vw w' = vw w" and "c < length (chans w)"
  shows "(chan c w')\<lparr>streams := map ident (streams (chan c w'))\<rparr> =
    (chan c w)\<lparr>streams := map ident (streams (chan c w))\<rparr>"
  using arg_cong [OF assms(1), of "\<lambda>w. chans w ! c"] assms(2) vw_length [OF assms(1)]
  by (simp add: vw_def chan_def)

lemma vw_chan_fields:
  assumes "vw w' = vw w" and "c < length (chans w)"
  shows "superbuf_queue (chan c w') = superbuf_queue (chan c w)"
    and "super_buf_notify_cb (chan c w') = super_buf_notify_cb (chan c w)"
    and "pending_cnt (chan c w') = pending_cnt (chan c w)"
    and "ch_cmds (chan c w') = ch_cmds (chan c w)" and "ch_cbs (chan c w') = ch_cbs (chan c w)"
    and "map ident (streams (chan c w')) = map ident (streams (chan c w))"
    and "isFlashBracketingEnabled (chan c w') = isFlashBracketingEnabled (chan c w)"
  using vw_chan [OF assms] by (cases "chan c w'"; cases "chan c w"; simp)+

text \<open>The parts the command thread relies on: its own streams, their descriptions, the callback thread.\<close>

definition thread_ok :: "nat \<Rightarrow> cw \<Rightarrow> bool" where
  "thread_ok c w \<longleftrightarrow> c < length (chans w) \<and> length (streams (chan c w)) = MAX_STREAM_NUM_IN_BUNDLE \<and>
     wired c w \<and> ch_cbs (chan c w) \<noteq> None \<and> snapshot_stream_id (streams (chan c w)) \<noteq> None"

definition queue_inv :: "nat \<Rightarrow> nat \<Rightarrow> mm_channel_queue \<Rightarrow> bool" where
  "queue_inv n k q \<longleftrightarrow> wf_sbq q \<and> num_streams q = n \<and> length (filter matched (que q)) \<le> k"

definition chan_inv :: "nat \<Rightarrow> nat \<Rightarrow> nat \<Rightarrow> cw \<Rightarrow> bool" where
  "chan_inv n k c w \<longleftrightarrow> thread_ok c w \<and> queue_inv n k (superbuf_queue (chan c w))"

lemma ident_fields [simp]:
  "s_state (ident s) = s_state s" "my_hdl (ident s) = my_hdl s" "s_ch_obj (ident s) = s_ch_obj s"
  "linked_stream (ident s) = linked_stream s" "stream_info (ident s) = stream_info s"
  "server_stream_id (ident s) = server_stream_id s" "is_bundled (ident s) = is_bundled s"
  by (simp_all add: ident_def)

lemma snapshot_ident: "snapshot_stream_id (map ident ss) = snapshot_stream_id ss"
  by (induction ss) (auto split: option.split)

lemma wired_cong:
  assumes "map ident (streams (chan c w')) = map ident (streams (chan c w))"
    and "length (streams (chan c w)) = MAX_STREAM_NUM_IN_BUNDLE"
  shows "wired c w' = wired c w"
proof -
  have l: "length (streams (chan c w')) = MAX_STREAM_NUM_IN_BUNDLE"
    using arg_cong [OF assms(1), of length] assms(2) by simp
  have "ident (streams (chan c w') ! i) = ident (streams (chan c w) ! i)"
    if "i < MAX_STREAM_NUM_IN_BUNDLE" for i
    using arg_cong [OF assms(1), of "\<lambda>xs. xs ! i"] that l assms(2) by simp
  then have "s_state (stream (c, i) w') = s_state (stream (c, i) w) \<and>
      s_ch_obj (stream (c, i) w') = s_ch_obj (stream (c, i) w) \<and>
      linked_stream (stream (c, i) w') = linked_stream (stream (c, i) w)"
    if "i < MAX_STREAM_NUM_IN_BUNDLE" for i
    using that arg_cong [of _ _ s_state] arg_cong [of _ _ s_ch_obj] arg_cong [of _ _ linked_stream]
    unfolding stream_def fst_conv snd_conv by (metis ident_fields(1,3,4))
  then show ?thesis by (auto simp: wired_def owned_def)
qed

lemma thread_ok_cong:
  assumes "map ident (streams (chan c w')) = map ident (streams (chan c w))"
    and "length (chans w') = length (chans w)" and "ch_cbs (chan c w') = None \<longleftrightarrow> ch_cbs (chan c w) = None"
    and "thread_ok c w"
  shows "thread_ok c w'"
proof -
  have "length (streams (chan c w')) = length (streams (chan c w))"
    using arg_cong [OF assms(1), of length] by simp
  moreover have "snapshot_stream_id (streams (chan c w')) = snapshot_stream_id (streams (chan c w))"
    using arg_cong [OF assms(1), of snapshot_stream_id] by (simp add: snapshot_ident)
  ultimately show ?thesis using assms(2-4) wired_cong [OF assms(1)] by (simp add: thread_ok_def)
qed

lemma thread_ok_vw:
  assumes "vw w' = vw w" and "thread_ok c w"
  shows "thread_ok c w'"
proof -
  have c: "c < length (chans w)" using assms(2) by (simp add: thread_ok_def)
  show ?thesis
    by (rule thread_ok_cong [OF _ _ _ assms(2)])
      (simp_all add: vw_chan_fields [OF assms(1) c] vw_length [OF assms(1)])
qed

lemma chan_inv_vw: "vw w' = vw w \<Longrightarrow> chan_inv n k c w \<Longrightarrow> chan_inv n k c w'"
  using thread_ok_vw [of w' w c] vw_chan_fields(1) [of w' w c] by (simp add: chan_inv_def thread_ok_def)

lemma chan_upd [simp]: "c < length (chans w) \<Longrightarrow> chan c (upd_chan c f w) = f (chan c w)"
  by (simp add: chan_def upd_chan_def)

lemma length_upd_chan [simp]: "length (chans (upd_chan c f w)) = length (chans w)"
  by (simp add: upd_chan_def)

lemma chan_log [simp]: "chan c (log_act a w) = chan c w" "length (chans (log_act a w)) = length (chans w)"
  by (simp_all add: log_act_def chan_def)

lemma thread_ok_upd:
  assumes "thread_ok c w" and "streams (f (chan c w)) = streams (chan c w)"
    and "ch_cbs (f (chan c w)) \<noteq> None"
  shows "thread_ok c (upd_chan c f w)"
  by (rule thread_ok_cong [OF _ _ _ assms(1)]) (use assms in \<open>auto simp: thread_ok_def\<close>)

lemma thread_ok_log [simp]: "thread_ok c (log_act a w) = thread_ok c w"
  by (simp add: thread_ok_def wired_def owned_def stream_def)

lemma fold_qb:
  assumes "thread_ok c w"
  shows "\<exists>w'. fold (qb E c) bs (Some w) = Some w' \<and> vw w' = vw w"
  using assms
proof (induction bs arbitrary: w)
  case (Cons b bs)
  from Cons.prems have "wired c w" by (simp add: thread_ok_def)
  from qbuf_total [OF this, of E b] obtain p where p: "mm_channel_qbuf E c b w = Some p" "vw (snd p) = vw w"
    by blast
  from Cons.IH [OF thread_ok_vw [OF p(2) Cons.prems]] obtain w' where
    "fold (qb E c) bs (Some (snd p)) = Some w'" "vw w' = vw (snd p)" by blast
  moreover have "qb E c b (Some w) = Some (snd p)" using p(1) by (cases p) (simp add: qb_def)
  ultimately show ?case using p(2) by simp
qed simp

text \<open>Operations on the queue, carried over to the channel.\<close>

lemma set_queue_inv:
  assumes "thread_ok c w" and "vw w' = vw w" and "queue_inv n k q"
  shows "\<exists>w2. set_queue c (q, Some w') = Some w2 \<and> chan_inv n k c w2 \<and> superbuf_queue (chan c w2) = q \<and>
    (chan c w2)\<lparr>superbuf_queue := q', streams := []\<rparr> = (chan c w)\<lparr>superbuf_queue := q', streams := []\<rparr>"
proof -
  have ok: "thread_ok c w'" by (rule thread_ok_vw [OF assms(2,1)])
  then have c: "c < length (chans w')" and cb: "ch_cbs (chan c w') \<noteq> None" by (simp_all add: thread_ok_def)
  have cw: "c < length (chans w)" using assms(1) by (simp add: thread_ok_def)
  have "(chan c w')\<lparr>superbuf_queue := q', streams := []\<rparr> = (chan c w)\<lparr>superbuf_queue := q', streams := []\<rparr>"
    using vw_chan [OF assms(2) cw] by (cases "chan c w'"; cases "chan c w"; simp)
  then show ?thesis using thread_ok_upd [OF ok, of "\<lambda>ch. ch\<lparr>superbuf_queue := q\<rparr>"] c cb assms(3)
    by (simp add: set_queue_def chan_inv_def)
qed

lemma queue_inv_trim:
  assumes "queue_inv n k q" and "k < 2 ^ 32"
  shows "\<exists>q' bs. trim_loop qbf limit q s = Some (q', fold qbf bs s) \<and>
    queue_inv n (min k (unat limit)) q' \<and> attr q' = attr q"
proof -
  obtain ms us where w: "wf_parts q ms us" using assms by (auto simp: queue_inv_def wf_sbq_def)
  have l: "length ms \<le> k" using assms wf_parts_filter [OF w] by (simp add: queue_inv_def)
  then have "length ms < 2 ^ 32" using assms(2) by (rule le_less_trans)
  from trim_loop_parts [OF w this, of qbf limit s] obtain q' where
    q': "trim_loop qbf limit q s =
        Some (q', fold qbf (concat (map held_bufs (take (length ms - unat limit) ms))) s)"
      "wf_parts q' (drop (length ms - unat limit) ms) us" "attr q' = attr q" "num_streams q' = num_streams q"
    by blast
  have "queue_inv n (min k (unat limit)) q'" using q'(2,4) l assms(1) wf_parts_filter [OF q'(2)]
    by (auto simp: queue_inv_def wf_sbq_def)
  then show ?thesis using q' by blast
qed

lemma queue_inv_flush:
  assumes "queue_inv n k q"
  shows "\<exists>q' bs. superbuf_flush_loop qbf m sel q s = (q', fold qbf bs s) \<and> queue_inv n 0 q'"
proof (cases m)
  case True
  obtain ms us where w: "wf_parts q ms us" using assms by (auto simp: queue_inv_def wf_sbq_def)
  from flush_matched_parts [OF w, of qbf sel s] obtain q' where
    "superbuf_flush_loop qbf True sel q s = (q', fold qbf (filter sel (concat (map held_bufs ms))) s)"
    "wf_parts q' [] us" "num_streams q' = num_streams q" by blast
  then show ?thesis using True assms wf_parts_filter [of q' "[]" us] by (auto simp: queue_inv_def wf_sbq_def)
next
  case False
  from flush_all [of qbf sel q s] obtain q' where q': "superbuf_flush_loop qbf False sel q s =
    (q', fold qbf (filter sel (concat (map held_bufs (que q)))) s)" "que q' = []"
    "num_streams q' = num_streams q" by blast
  have "wf_sbq q'" using flush_all_wf [of q qbf sel s] assms q'(1) by (simp add: queue_inv_def)
  then show ?thesis using q' False assms by (auto simp: queue_inv_def)
qed

definition inv_after :: "nat \<Rightarrow> nat \<Rightarrow> nat \<Rightarrow> cw option \<Rightarrow> bool" where
  "inv_after n k c wo \<longleftrightarrow> (\<exists>w'. wo = Some w' \<and> chan_inv n k c w')"

lemma inv_afterI: "chan_inv n k c w \<Longrightarrow> inv_after n k c (Some w)"
  by (simp add: inv_after_def)

lemma chan_inv_mono: "chan_inv n k c w \<Longrightarrow> k \<le> k' \<Longrightarrow> chan_inv n k' c w"
  by (simp add: chan_inv_def queue_inv_def)

lemma inv_after_mono: "inv_after n k c wo \<Longrightarrow> k \<le> k' \<Longrightarrow> inv_after n k' c wo"
  using chan_inv_mono by (fastforce simp: inv_after_def)

lemma inv_after_bind: "inv_after n k c wo \<Longrightarrow> (\<And>w. chan_inv n k c w \<Longrightarrow> inv_after n k c (f w)) \<Longrightarrow> inv_after n k c (wo \<bind> f)"
  by (auto simp: inv_after_def)

lemma inv_after_map: "inv_after n k c wo \<Longrightarrow> (\<And>w. chan_inv n k c w \<Longrightarrow> chan_inv n k c (f w)) \<Longrightarrow> inv_after n k c (map_option f wo)"
  by (auto simp: inv_after_def)

lemma flush_loop_inv:
  assumes "chan_inv n k c w"
  shows "inv_after n 0 c (set_queue c (superbuf_flush_loop (qb E c) m sel (superbuf_queue (chan c w)) (Some w)))"
proof -
  have i: "queue_inv n k (superbuf_queue (chan c w))" "thread_ok c w" using assms by (simp_all add: chan_inv_def)
  from queue_inv_flush [OF i(1), of "qb E c" m sel "Some w"] obtain q' bs where
    f: "superbuf_flush_loop (qb E c) m sel (superbuf_queue (chan c w)) (Some w) = (q', fold (qb E c) bs (Some w))"
      "queue_inv n 0 q'" by blast
  from fold_qb [OF i(2), of E bs] obtain w' where "fold (qb E c) bs (Some w) = Some w'" "vw w' = vw w" by blast
  with f set_queue_inv [OF i(2) _ f(2)] show ?thesis by (fastforce simp: inv_after_def)
qed

lemma channel_flush_inv0: "chan_inv n k c w \<Longrightarrow> inv_after n 0 c (channel_flush E c t w)"
  unfolding channel_flush_def superbuf_flush_def by (rule flush_loop_inv)

lemma channel_flush_inv: "chan_inv n k c w \<Longrightarrow> inv_after n k c (channel_flush E c t w)"
  using channel_flush_inv0 inv_after_mono by blast

lemma channel_flush_matched_inv: "chan_inv n k c w \<Longrightarrow> inv_after n k c (channel_flush_matched E c w)"
  unfolding channel_flush_matched_def superbuf_flush_matched_def
  by (rule inv_after_mono [OF flush_loop_inv]) simp_all

lemma trim_inv:
  assumes "chan_inv n k c w" and "k < 2 ^ 32" and "m = trim_loop (qb E c) limit (superbuf_queue (chan c w)) (Some w) \<or>
    m = Some (superbuf_queue (chan c w), Some w)"
  shows "inv_after n k c (m \<bind> set_queue c)"
proof -
  have i: "queue_inv n k (superbuf_queue (chan c w))" "thread_ok c w" using assms by (simp_all add: chan_inv_def)
  show ?thesis using assms(3)
  proof
    assume m: "m = trim_loop (qb E c) limit (superbuf_queue (chan c w)) (Some w)"
    from queue_inv_trim [OF i(1) assms(2), of "qb E c" limit "Some w"] obtain q' bs where
      f: "m = Some (q', fold (qb E c) bs (Some w))" "queue_inv n k q'" unfolding m
      by (auto simp: queue_inv_def)
    from fold_qb [OF i(2), of E bs] obtain w' where "fold (qb E c) bs (Some w) = Some w'" "vw w' = vw w" by blast
    with f set_queue_inv [OF i(2) _ f(2)] show ?thesis by (fastforce simp: inv_after_def)
  next
    assume "m = Some (superbuf_queue (chan c w), Some w)"
    then show ?thesis using set_queue_inv [OF i(2) refl i(1)] by (fastforce simp: inv_after_def)
  qed
qed

lemma channel_skip_inv: "chan_inv n k c w \<Longrightarrow> k < 2 ^ 32 \<Longrightarrow> inv_after n k c (channel_skip E c w)"
  unfolding channel_skip_def superbuf_skip_def by (rule trim_inv [where E = E]) auto

lemma channel_overflow_inv: "chan_inv n k c w \<Longrightarrow> k < 2 ^ 32 \<Longrightarrow> inv_after n k c (channel_overflow E c w)"
  unfolding channel_overflow_def bufdone_overflow_def by (rule trim_inv [where E = E]) auto

section \<open>A command is executed to its end\<close>

lemma queue_inv_simps [simp]:
  "queue_inv n k (q\<lparr>expected_frame_id := e\<rparr>) = queue_inv n k q"
  "queue_inv n k (q\<lparr>expected_frame_id_without_led := e\<rparr>) = queue_inv n k q"
  "queue_inv n k (q\<lparr>attr := a\<rparr>) = queue_inv n k q"
  by (simp_all add: queue_inv_def wf_sbq_def wf_parts_def split_at_def)

lemma chan_inv_upd:
  assumes "chan_inv n k c w" and "streams (f (chan c w)) = streams (chan c w)"
    and "ch_cbs (chan c w) \<noteq> None \<Longrightarrow> ch_cbs (f (chan c w)) \<noteq> None"
    and "queue_inv n k (superbuf_queue (chan c w)) \<Longrightarrow> queue_inv n k (superbuf_queue (f (chan c w)))"
  shows "chan_inv n k c (upd_chan c f w)"
proof -
  have ok: "thread_ok c w" and c: "c < length (chans w)" "ch_cbs (chan c w) \<noteq> None"
    using assms(1) by (simp_all add: chan_inv_def thread_ok_def)
  from thread_ok_upd [OF ok, of f] assms(2) assms(3) [OF c(2)] show ?thesis
    using assms(1,4) c by (simp add: chan_inv_def)
qed

lemma chan_inv_log [simp]: "chan_inv n k c (log_act a w) = chan_inv n k c w"
  by (simp add: chan_inv_def)

lemmas chan_inv_flags = chan_inv_upd [of n k c w "\<lambda>ch. ch\<lparr>isZoom1xFrameRequested := x\<rparr>" for n k c w x, simplified]
  chan_inv_upd [of n k c w "\<lambda>ch. ch\<lparr>needLEDFlash := x\<rparr>" for n k c w x, simplified]
  chan_inv_upd [of n k c w "\<lambda>ch. ch\<lparr>bracketingState := x\<rparr>" for n k c w x, simplified]
  chan_inv_upd [of n k c w "\<lambda>ch. ch\<lparr>isFlashBracketingEnabled := x\<rparr>" for n k c w x, simplified]
  chan_inv_upd [of n k c w "\<lambda>ch. ch\<lparr>manualZSLSnapshot := x\<rparr>" for n k c w x, simplified]
  chan_inv_upd [of n k c w "\<lambda>ch. ch\<lparr>pending_cnt := x\<rparr>" for n k c w x, simplified]

lemma chan_inv_queue:
  assumes "chan_inv n k c w" and "\<And>q. queue_inv n k q \<Longrightarrow> queue_inv n k (f q)"
  shows "chan_inv n k c (upd_queue c f w)"
  unfolding upd_queue_def by (rule chan_inv_upd [OF assms(1)]) (simp_all add: assms(2))

lemma expect_later_inv: "chan_inv n k c w \<Longrightarrow> chan_inv n k c (expect_later c w)"
  unfolding expect_later_def by (rule chan_inv_queue) simp_all

lemma metadata_zoom_inv:
  assumes "chan_inv n k c w"
  shows "inv_after n k c (metadata_zoom E c x b w)"
  unfolding metadata_zoom_def using assms
  by (auto intro!: inv_afterI chan_inv_queue chan_inv_flags channel_flush_matched_inv expect_later_inv)

lemma metadata_prepare_inv:
  assumes "chan_inv n k c w"
  shows "inv_after n k c (metadata_prepare E c md w)"
  unfolding metadata_prepare_def using assms
  by (auto intro!: inv_afterI inv_after_map chan_inv_queue chan_inv_flags channel_flush_inv
      channel_flush_matched_inv expect_later_inv)

lemma metadata_bracketing_inv: "chan_inv n k c w \<Longrightarrow> chan_inv n k c (metadata_bracketing c md w)"
  unfolding metadata_bracketing_def by (auto intro!: chan_inv_queue chan_inv_flags)

text \<open>The same for operations that also return a code.\<close>

definition inv_after2 :: "nat \<Rightarrow> nat \<Rightarrow> nat \<Rightarrow> (int \<times> cw) option \<Rightarrow> bool" where
  "inv_after2 n k c r \<longleftrightarrow> (\<exists>rc w'. r = Some (rc, w') \<and> chan_inv n k c w')"

lemma inv_after2I: "chan_inv n k c w \<Longrightarrow> inv_after2 n k c (Some (rc, w))"
  by (simp add: inv_after2_def)

lemma inv_after2_bind: "inv_after n k c wo \<Longrightarrow> (\<And>w. chan_inv n k c w \<Longrightarrow> inv_after2 n k c (f w)) \<Longrightarrow>
  inv_after2 n k c (wo \<bind> f)"
  by (auto simp: inv_after_def)

lemma handle_metadata_inv:
  assumes "chan_inv n k c w"
  shows "inv_after2 n k c (mm_channel_handle_metadata E c b w)"
proof -
  have step: "inv_after2 n k c (if is_meta_invalid md then Some (- 1, w)
      else if \<not> owned c i w then Some (0, w)
      else do {
        sid \<leftarrow> snapshot_stream_id (streams (chan c w));
        if is_prep_snapshot_done_valid md \<and> is_good_frame_idx_range_valid md then Some (- 1, w)
        else if isZoom1xFrameRequested (chan c w) then do {
          w \<leftarrow> metadata_zoom E c (is_crop_1x_found sid md) b w;
          Some (0, w) }
        else do {
          w \<leftarrow> metadata_prepare E c md w;
          Some (0, metadata_bracketing c md w) } })" if i: "chan_inv n k c w" for w md i
  proof -
    obtain sid where "snapshot_stream_id (streams (chan c w)) = Some sid"
      using i by (auto simp: chan_inv_def thread_ok_def)
    then show ?thesis using i
      by (auto intro!: inv_after2I inv_after2_bind metadata_zoom_inv metadata_prepare_inv metadata_bracketing_inv)
  qed
  have reset: "inv_after n k c (if is_frame_id_reset md
       then map_option (upd_queue c (\<lambda>q. q\<lparr>expected_frame_id := 1\<rparr>)) (channel_flush E c CAM_STREAM_TYPE_DEFAULT w)
       else Some w)" for md
    using assms by (auto intro!: inv_after_map inv_afterI channel_flush_inv chan_inv_queue)
  have md: "inv_after2 n k c (case e_meta E b of None \<Rightarrow> Some (- 1, w) | Some md \<Rightarrow> do {
        w \<leftarrow> (if is_frame_id_reset md
             then map_option (upd_queue c (\<lambda>q. q\<lparr>expected_frame_id := 1\<rparr>)) (channel_flush E c CAM_STREAM_TYPE_DEFAULT w)
             else Some w);
        if is_meta_invalid md then Some (- 1, w)
        else if \<not> owned c i w then Some (0, w)
        else do {
          sid \<leftarrow> snapshot_stream_id (streams (chan c w));
          if is_prep_snapshot_done_valid md \<and> is_good_frame_idx_range_valid md then Some (- 1, w)
          else if isZoom1xFrameRequested (chan c w) then do {
            w \<leftarrow> metadata_zoom E c (is_crop_1x_found sid md) b w;
            Some (0, w) }
          else do {
            w \<leftarrow> metadata_prepare E c md w;
            Some (0, metadata_bracketing c md w) } } })" for i
  proof (cases "e_meta E b")
    case None
    then show ?thesis using assms by (simp add: inv_after2I)
  next
    case (Some md)
    show ?thesis unfolding Some option.case by (rule inv_after2_bind [OF reset step])
  qed
  show ?thesis unfolding mm_channel_handle_metadata_def
    using assms md by (auto intro: inv_after2I split: option.split simp del: not_None_eq)
qed

lemma qbuf_inv:
  assumes "chan_inv n k c w"
  shows "inv_after2 n k c (mm_channel_qbuf E c d w)"
proof -
  have "wired c w" using assms by (simp add: chan_inv_def thread_ok_def)
  from qbuf_total [OF this, of E d] obtain p where
    p: "mm_channel_qbuf E c d w = Some p" "vw (snd p) = vw w" by blast
  from chan_inv_vw [OF p(2) assms] p(1) show ?thesis by (cases p) (simp add: inv_after2_def)
qed

text \<open>A frame with a buffer and an index; the index 0 marks an empty slot.\<close>

definition good_buf :: "mm_camera_buf_info \<Rightarrow> bool" where
  "good_buf b \<longleftrightarrow> bi_frame_idx b \<noteq> 0 \<and> bi_buf b \<noteq> None"

lemma alloc_ok_chan [simp]: "chan c (snd (alloc_ok w)) = chan c w" "chans (snd (alloc_ok w)) = chans w"
  by (simp_all add: alloc_ok_def chan_def split: list.split)

lemma alloc_node_chan [simp]: "chans (snd (alloc_node q b w)) = chans w"
  by (simp add: alloc_node_def alloc_ok_def Let_def split: list.split)

lemma chan_inv_chans: "chans w' = chans w \<Longrightarrow> chan_inv n k c w' = chan_inv n k c w"
  by (simp add: chan_inv_def thread_ok_def wired_def owned_def stream_def chan_def)

lemma comp_inv:
  assumes "chan_inv n k c w" and "good_buf b" and "i < n"
    and "superbuf_comp (qb E c) mem i b (superbuf_queue (chan c w), led, Some w) = (q', led', wo)"
  shows "inv_after n (Suc k) c (set_queue c (q', wo))"
proof -
  let ?q = "superbuf_queue (chan c w)"
  have i: "wf_sbq ?q" "num_streams ?q = n" "length (filter matched (que ?q)) \<le> k" "thread_ok c w"
    using assms(1) by (simp_all add: chan_inv_def queue_inv_def)
  have g: "good_frame ?q i b" using assms(2,3) i(2) by (auto simp: good_buf_def good_frame_def)
  note gives = superbuf_comp_gives [OF assms(4)]
  have "wf_sbq q'" using superbuf_comp_wf [OF i(1) g, of "qb E c" mem led "Some w"] assms(4) by simp
  moreover have "length (filter matched (que q')) \<le> Suc k"
    using superbuf_comp_matched [OF i(1), of "qb E c" mem i b led "Some w"] assms(4) i(3) by simp
  ultimately have qi: "queue_inv n (Suc k) q'" using gives(2) i(2) by (simp add: queue_inv_def)
  obtain bs where "wo = fold (qb E c) bs (Some w)" using gives(1) by blast
  moreover obtain w' where "fold (qb E c) bs (Some w) = Some w'" "vw w' = vw w" using fold_qb [OF i(4)] by blast
  ultimately show ?thesis using set_queue_inv [OF i(4) _ qi] by (fastforce simp: inv_after_def)
qed

lemma bundle_index_less: "bundle_index q h = Some i \<Longrightarrow> i < num_streams q"
  by (auto simp: bundle_index_def find_Some_iff)

lemma comp_and_enqueue_inv:
  assumes "chan_inv n k c w" and "good_buf b"
  shows "inv_after2 n (Suc k) c (comp_and_enqueue E c b w)"
proof (cases "bundle_index (superbuf_queue (chan c w)) (bi_stream_id b)")
  case None
  then show ?thesis using chan_inv_mono [OF assms(1), of "Suc k"]
    by (simp add: comp_and_enqueue_def inv_after2I)
next
  case (Some i)
  have i: "i < n" using bundle_index_less [OF Some] assms(1) by (simp add: chan_inv_def queue_inv_def)
  obtain d where d: "bi_buf b = Some d" using assms(2) by (auto simp: good_buf_def)
  obtain rc w1 where m: "mm_channel_handle_metadata E c b w = Some (rc, w1)" "chan_inv n k c w1"
    using handle_metadata_inv [OF assms(1), of E b] by (auto simp: inv_after2_def)
  obtain rc2 w2 where qbuf: "mm_channel_qbuf E c d w1 = Some (rc2, w2)" "chan_inv n k c w2"
    using qbuf_inv [OF m(2), of E d] by (auto simp: inv_after2_def)
  let ?q = "superbuf_queue (chan c w1)"
  obtain mem w3 where a: "alloc_node ?q b w1 = (mem, w3)" by fastforce
  then have ch: "chans w3 = chans w1" using alloc_node_chan [of ?q b w1] by simp
  then have w3: "chan_inv n k c w3" "superbuf_queue (chan c w3) = ?q"
    using m(2) by (simp_all add: chan_inv_chans [OF ch] chan_def ch)
  obtain q' led wo where s: "superbuf_comp (qb E c) mem i b (?q, isFlashBracketingEnabled (chan c w3), Some w3) =
      (q', led, wo)" by (metis prod_cases3)
  from comp_inv [OF w3(1) assms(2) i, unfolded w3(2), OF s] obtain w4 where
    w4: "set_queue c (q', wo) = Some w4" "chan_inv n (Suc k) c w4" by (auto simp: inv_after_def)
  have early: "inv_after2 n (Suc k) c (do { (_, w) \<leftarrow> mm_channel_qbuf E c d w1; Some (r, w) })" for r
    using chan_inv_mono [OF qbuf(2), of "Suc k"] by (simp add: qbuf(1) inv_after2I)
  have late: "inv_after2 n (Suc k) c (case alloc_node ?q b w1 of (mem, w) \<Rightarrow>
      (case superbuf_comp (qb E c) mem i b (?q, isFlashBracketingEnabled (chan c w), Some w) of
         (q', led, wo) \<Rightarrow> do {
           w \<leftarrow> set_queue c (q', wo);
           Some (0, upd_chan c (\<lambda>ch. ch\<lparr>isFlashBracketingEnabled := led\<rparr>) w) }))"
    unfolding a prod.case s using chan_inv_flags(4) [OF w4(2), of led] by (simp add: w4(1) inv_after2I)
  show ?thesis
    unfolding comp_and_enqueue_def Some option.case d m(1) Let_def
    using early late by simp
qed

section \<open>Superbuffers go out\<close>

lemma give_back_all_total:
  assumes "thread_ok c w" and "None \<notin> set ds"
  shows "\<exists>w'. give_back_all E c ds w = Some w' \<and> vw w' = vw w"
proof -
  have "fold (\<lambda>d wo. do { w \<leftarrow> wo; b \<leftarrow> d; qb E c b (Some w) }) ds (Some w) = fold (qb E c) (map the ds) (Some w)"
    if "None \<notin> set ds" "thread_ok c w" for w
    using that
  proof (induction ds arbitrary: w)
    case (Cons d ds)
    then obtain b where d: "d = Some b" by (cases d) auto
    obtain w1 where w1: "qb E c b (Some w) = Some w1" "vw w1 = vw w"
      using fold_qb [OF Cons.prems(2), of E "[b]"] by auto
    then show ?case using Cons.IH [of w1] Cons.prems thread_ok_vw [OF w1(2)] d by simp
  qed simp
  then show ?thesis using assms fold_qb [OF assms(1), of E "map the ds"] by (simp add: give_back_all_def)
qed

lemma complete_superbuf: "complete n sb \<Longrightarrow> None \<notin> set (superbuf_of sb)"
  by (auto simp: complete_def superbuf_of_def)

lemma thread_ok_chans: "chans w' = chans w \<Longrightarrow> thread_ok c w \<Longrightarrow> thread_ok c w'"
  by (simp add: thread_ok_def wired_def owned_def stream_def chan_def)

lemma deliver_total:
  assumes ok: "thread_ok c w" and "complete n sb"
  shows "\<exists>w'. deliver E c sb w = Some w' \<and> thread_ok c w' \<and>
    pending_cnt (chan c w') = pending_cnt (chan c w)"
proof -
  have returned: "\<exists>w'. give_back_all E c (superbuf_of sb) v = Some w' \<and> thread_ok c w' \<and>
      pending_cnt (chan c w') = pending_cnt (chan c w)" if v: "chans v = chans w" for v
  proof -
    have "thread_ok c v" by (rule thread_ok_chans [OF v ok])
    with give_back_all_total [OF this complete_superbuf [OF assms(2)], of E] obtain w' where
      w': "give_back_all E c (superbuf_of sb) v = Some w'" "vw w' = vw v" "thread_ok c v" by blast
    have c: "c < length (chans v)" using w'(3) by (simp add: thread_ok_def)
    show ?thesis using w'(1) thread_ok_vw [OF w'(2,3)] vw_chan_fields(3) [OF w'(2) c] v
      by (simp add: chan_def)
  qed
  obtain m1 w1 where m1: "alloc_ok w = (m1, w1)" by fastforce
  obtain m2 w2 where m2: "alloc_ok w1 = (m2, w2)" by fastforce
  have ch: "chans w1 = chans w" "chans w2 = chans w"
    using alloc_ok_chan(2) [of w] alloc_ok_chan(2) [of w1] m1 m2 by simp_all
  have ok2: "thread_ok c w2" by (rule thread_ok_chans [OF ch(2) ok])
  obtain q where q: "ch_cbs (chan c w2) = Some q" using ok2 by (auto simp: thread_ok_def)
  have "c < length (chans w2)" using ok2 by (simp add: thread_ok_def)
  moreover have p2: "pending_cnt (chan c w2) = pending_cnt (chan c w)" using ch by (simp add: chan_def)
  ultimately have sent: "thread_ok c (upd_chan c (\<lambda>ch. ch\<lparr>ch_cbs := Some (q @ [superbuf_of sb])\<rparr>) w2)"
    "pending_cnt (chan c (upd_chan c (\<lambda>ch. ch\<lparr>ch_cbs := Some (q @ [superbuf_of sb])\<rparr>) w2)) = pending_cnt (chan c w)"
    using ok2 p2 by (auto intro: thread_ok_upd)
  show ?thesis
    using returned [OF refl] returned [OF ch(1)] sent ok2 p2 q
    by (cases m1; cases m2) (auto simp: deliver_def m1 m2)
qed

lemma count_down_ok:
  assumes "thread_ok c w"
  shows "thread_ok c (count_down c w)" and "pending_cnt (chan c (count_down c w)) = pending_cnt (chan c w) - 1"
proof -
  have c: "c < length (chans w)" "ch_cbs (chan c w) \<noteq> None" using assms by (simp_all add: thread_ok_def)
  have p: "thread_ok c (upd_chan c (\<lambda>ch. ch\<lparr>pending_cnt := pending_cnt ch - 1\<rparr>) w)"
    using assms c by (auto intro: thread_ok_upd)
  then have r: "thread_ok c (upd_chan c (\<lambda>ch. ch\<lparr>previewSkipCnt := x, startZSlSnapshotCalled := False\<rparr>)
      (upd_chan c (\<lambda>ch. ch\<lparr>pending_cnt := pending_cnt ch - 1\<rparr>) w))" for x
    using c by (intro thread_ok_upd [OF p]) auto
  show "thread_ok c (count_down c w)" using p r by (simp add: count_down_def Let_def)
  show "pending_cnt (chan c (count_down c w)) = pending_cnt (chan c w) - 1"
    using c by (simp add: count_down_def Let_def)
qed

text \<open>
  The dispatch always ends, and when it ends, no complete superbuffer is left, or, in burst mode, no
  request is.
\<close>

lemma dispatch_loop_total:
  assumes "wf_parts q ms us" and "thread_ok c w"
  shows "\<exists>q' w' ms'. dispatch_loop E c mode q w = Some (q', w') \<and> thread_ok c w' \<and> wf_parts q' ms' us \<and>
    length ms' \<le> length ms \<and> num_streams q' = num_streams q \<and> attr q' = attr q \<and>
    (ms' = [] \<or> mode = MM_CAMERA_SUPER_BUF_NOTIFY_BURST \<and> pending_cnt (chan c w') = 0)"
  using assms
proof (induction ms arbitrary: q w)
  case Nil
  then show ?case by (subst dispatch_loop.simps) (auto simp: dequeue_unmatched intro!: exI [of _ "[]"])
next
  case (Cons sb ms)
  show ?case
  proof (cases "0 < pending_cnt (chan c w) \<or> mode = MM_CAMERA_SUPER_BUF_NOTIFY_CONTINUOUS")
    case False
    then have "mode = MM_CAMERA_SUPER_BUF_NOTIFY_BURST" "pending_cnt (chan c w) = 0"
      by (cases mode, auto simp: word_gt_0)
    then show ?thesis using Cons.prems
      by (subst dispatch_loop.simps) (auto intro!: exI [of _ "sb # ms"])
  next
    case True
    note d = dequeue_matched [OF Cons.prems(1)]
    let ?q = "q\<lparr>que := ms @ us, que_size := que_size q - 1, match_cnt := match_cnt q - 1\<rparr>"
    let ?w = "if mode = MM_CAMERA_SUPER_BUF_NOTIFY_BURST then count_down c w else w"
    have ok: "thread_ok c ?w" using Cons.prems(2) count_down_ok(1) by simp
    have "complete (num_streams q) sb"
      using Cons.prems(1) by (intro node_complete) (auto simp: wf_parts_def split_at_def)
    from deliver_total [OF ok this, of E] obtain w1 where
      w1: "deliver E c sb ?w = Some w1" "thread_ok c w1" by blast
    have "dispatch_loop E c mode q w = dispatch_loop E c mode ?q w1"
      using True w1(1) by (subst dispatch_loop.simps) (simp add: d(1))
    moreover obtain q' w' ms' where "dispatch_loop E c mode ?q w1 = Some (q', w')" "thread_ok c w'"
      "wf_parts q' ms' us" "length ms' \<le> length ms" "num_streams q' = num_streams ?q" "attr q' = attr ?q"
      "ms' = [] \<or> mode = MM_CAMERA_SUPER_BUF_NOTIFY_BURST \<and> pending_cnt (chan c w') = 0"
      using Cons.IH [OF d(2) w1(2)] by blast
    ultimately show ?thesis by (intro exI [of _ q'] exI [of _ w'] exI [of _ ms']) simp
  qed
qed

lemma dispatch_inv:
  assumes "chan_inv n k c w" and "k < 2 ^ 32"
  shows "\<exists>w'. dispatch E c w = Some w' \<and> chan_inv n 255 c w' \<and>
    (filter matched (que (superbuf_queue (chan c w'))) = [] \<or>
     notify_mode (attr (superbuf_queue (chan c w'))) = MM_CAMERA_SUPER_BUF_NOTIFY_BURST \<and>
     pending_cnt (chan c w') = 0)"
proof -
  let ?q = "superbuf_queue (chan c w)"
  have i: "queue_inv n k ?q" "thread_ok c w" using assms by (simp_all add: chan_inv_def)
  have "\<exists>q1 bs. bufdone_overflow (qb E c) ?q (Some w) = Some (q1, fold (qb E c) bs (Some w)) \<and>
      queue_inv n k q1 \<and> attr q1 = attr ?q \<and>
      (notify_mode (attr ?q) = MM_CAMERA_SUPER_BUF_NOTIFY_BURST \<longrightarrow> queue_inv n 255 q1)"
  proof (cases "notify_mode (attr ?q)")
    case MM_CAMERA_SUPER_BUF_NOTIFY_CONTINUOUS
    then show ?thesis using i by (auto simp: bufdone_overflow_def intro: exI [of _ "[]"])
  next
    case MM_CAMERA_SUPER_BUF_NOTIFY_BURST
    let ?l = "ucast (water_mark (attr ?q)) :: 32 word"
    have "unat (water_mark (attr ?q)) < 2 ^ 8" using unsigned_less [of "water_mark (attr ?q)"] by simp
    then have "unat ?l \<le> 255" by (simp add: unsigned_ucast_eq take_bit_nat_eq_self)
    then show ?thesis
      using queue_inv_trim [OF i(1) assms(2), of "qb E c" ?l "Some w"] MM_CAMERA_SUPER_BUF_NOTIFY_BURST
      by (fastforce simp: bufdone_overflow_def queue_inv_def)
  qed
  then obtain q1 bs where q1: "bufdone_overflow (qb E c) ?q (Some w) = Some (q1, fold (qb E c) bs (Some w))"
      "queue_inv n k q1" "attr q1 = attr ?q"
      "notify_mode (attr ?q) = MM_CAMERA_SUPER_BUF_NOTIFY_BURST \<longrightarrow> queue_inv n 255 q1" by blast
  obtain wa where wa: "fold (qb E c) bs (Some w) = Some wa" "vw wa = vw w" using fold_qb [OF i(2)] by blast
  from set_queue_inv [OF i(2) wa(2) q1(2)] obtain w1 where
    w1: "set_queue c (q1, Some wa) = Some w1" "chan_inv n k c w1" "superbuf_queue (chan c w1) = q1" by blast
  have o: "channel_overflow E c w = Some w1" by (simp add: channel_overflow_def q1(1) wa(1) w1(1))
  obtain ms us where parts: "wf_parts q1 ms us" using q1(2) by (auto simp: queue_inv_def wf_sbq_def)
  have ok1: "thread_ok c w1" using w1(2) by (simp add: chan_inv_def)
  from dispatch_loop_total [OF parts ok1, of E "notify_mode (attr q1)"] obtain q' w2 ms' where
    l: "dispatch_loop E c (notify_mode (attr q1)) q1 w1 = Some (q', w2)" "thread_ok c w2" "wf_parts q' ms' us"
      "length ms' \<le> length ms" "num_streams q' = num_streams q1" "attr q' = attr q1"
      "ms' = [] \<or> notify_mode (attr q1) = MM_CAMERA_SUPER_BUF_NOTIFY_BURST \<and> pending_cnt (chan c w2) = 0"
    by blast
  have f: "filter matched (que q') = ms'" "filter matched (que q1) = ms"
    using wf_parts_filter l(3) parts by blast+
  have "queue_inv n 255 q'"
    using l q1(2,3,4) f by (auto simp: queue_inv_def wf_sbq_def)
  from set_queue_inv [OF l(2) refl this, of undefined] obtain w3 where
    w3: "set_queue c (q', Some w2) = Some w3" "chan_inv n 255 c w3" "superbuf_queue (chan c w3) = q'"
      "(chan c w3)\<lparr>superbuf_queue := undefined, streams := []\<rparr> = (chan c w2)\<lparr>superbuf_queue := undefined, streams := []\<rparr>"
    by blast
  have "pending_cnt (chan c w3) = pending_cnt (chan c w2)" using arg_cong [OF w3(4), of pending_cnt] by simp
  then show ?thesis using o w1(3) l w3 f by (auto simp: dispatch_def)
qed

section \<open>Commands\<close>

definition good_cmd :: "mm_camera_cmdcb \<Rightarrow> bool" where
  "good_cmd cmd = (case cmd of MM_CAMERA_CMD_TYPE_DATA_CB b \<Rightarrow> good_buf b | _ \<Rightarrow> True)"

lemma request_snapshot_inv:
  assumes "chan_inv n k c w"
  shows "chan_inv n k c (request_snapshot c w)"
proof -
  have l: "chan_inv n k c (log_act a w)" for a using assms by simp
  have "chan_inv n k c (upd_chan c (\<lambda>ch. ch\<lparr>startZSlSnapshotCalled := True, needLEDFlash := False,
      previewSkipCnt := 0\<rparr>) (log_act StartZsl w))"
    "chan_inv n k c (upd_chan c (\<lambda>ch. ch\<lparr>startZSlSnapshotCalled := False, needLEDFlash := False,
      bracketingState := MM_CHANNEL_BRACKETING_STATE_OFF\<rparr>) (log_act StopZsl w))"
    by (rule chan_inv_upd [OF l]; simp)+
  then show ?thesis using assms by (simp add: request_snapshot_def Let_def)
qed

lemma general_cmd_inv:
  assumes "chan_inv n k c w"
  shows "inv_after n k c (general_cmd E c t start w)"
  using assms
  by (cases t) (auto simp: general_cmd_def intro!: inv_afterI inv_after_map channel_flush_inv chan_inv_flags)

lemma exec_cmd_inv:
  assumes "chan_inv n k c w" and "good_cmd cmd" and "k < 2 ^ 32"
  shows "inv_after n (Suc k) c (exec_cmd E c cmd w)"
proof -
  have up: "inv_after n k c wo \<Longrightarrow> inv_after n (Suc k) c wo" for wo
    using inv_after_mono [of n k c wo "Suc k"] by simp
  show ?thesis
  proof (cases cmd)
    case (MM_CAMERA_CMD_TYPE_DATA_CB b)
    then have "good_buf b" using assms(2) by (simp add: good_cmd_def)
    from comp_and_enqueue_inv [OF assms(1) this, of E] show ?thesis
      by (auto simp: exec_cmd_def MM_CAMERA_CMD_TYPE_DATA_CB inv_after_def inv_after2_def)
  next
    case (MM_CAMERA_CMD_TYPE_REQ_DATA_CB m)
    have "inv_after n k c (map_option (request_snapshot c) (channel_skip E c (upd_chan c (\<lambda>ch. ch\<lparr>pending_cnt := m\<rparr>) w)))"
      by (intro inv_after_map channel_skip_inv request_snapshot_inv chan_inv_flags assms)
    then show ?thesis by (simp add: exec_cmd_def MM_CAMERA_CMD_TYPE_REQ_DATA_CB up)
  next
    case (MM_CAMERA_CMD_TYPE_FLUSH_QUEUE idx t)
    have "inv_after n k c (channel_flush E c t (upd_queue c (\<lambda>q. q\<lparr>expected_frame_id := idx\<rparr>) w))"
      using assms(1) by (intro channel_flush_inv chan_inv_queue) simp_all
    then show ?thesis by (simp add: exec_cmd_def MM_CAMERA_CMD_TYPE_FLUSH_QUEUE up)
  next
    case (MM_CAMERA_CMD_TYPE_CONFIG_NOTIFY mode)
    have "chan_inv n k c (upd_queue c (\<lambda>q. q\<lparr>attr := (attr q)\<lparr>notify_mode := mode\<rparr>\<rparr>) w)"
      using assms(1) by (intro chan_inv_queue) simp_all
    then show ?thesis by (simp add: exec_cmd_def MM_CAMERA_CMD_TYPE_CONFIG_NOTIFY up inv_afterI)
  next
    case (MM_CAMERA_CMD_TYPE_GENERAL t start)
    then show ?thesis using general_cmd_inv [OF assms(1)] by (simp add: exec_cmd_def up)
  qed (auto simp: exec_cmd_def intro!: inv_afterI chan_inv_flags chan_inv_mono [OF assms(1)])
qed

definition served :: "nat \<Rightarrow> cw \<Rightarrow> bool" where
  "served c w \<longleftrightarrow> filter matched (que (superbuf_queue (chan c w))) = [] \<or>
     notify_mode (attr (superbuf_queue (chan c w))) = MM_CAMERA_SUPER_BUF_NOTIFY_BURST \<and>
     pending_cnt (chan c w) = 0"

lemma served_nothing: "chan_inv n 0 c w \<Longrightarrow> served c w"
  by (simp add: chan_inv_def queue_inv_def served_def)

theorem process_inv:
  assumes "chan_inv n 255 c w" and "good_cmd cmd"
  shows "\<exists>w'. mm_channel_process_stream_buf E c cmd w = Some w' \<and> chan_inv n 255 c w' \<and> served c w'"
proof (cases "\<exists>idx t. cmd = MM_CAMERA_CMD_TYPE_FLUSH_QUEUE idx t")
  case True
  then obtain idx t where cmd: "cmd = MM_CAMERA_CMD_TYPE_FLUSH_QUEUE idx t" by blast
  have "inv_after n 0 c (channel_flush E c t (upd_queue c (\<lambda>q. q\<lparr>expected_frame_id := idx\<rparr>) w))"
    using assms(1) by (intro channel_flush_inv0 [of n 255] chan_inv_queue) simp_all
  then obtain w' where "channel_flush E c t (upd_queue c (\<lambda>q. q\<lparr>expected_frame_id := idx\<rparr>) w) = Some w'"
    "chan_inv n 0 c w'" by (auto simp: inv_after_def)
  then show ?thesis using chan_inv_mono [of n 0 c w' 255] served_nothing [of n c w']
    by (simp add: mm_channel_process_stream_buf_def exec_cmd_def cmd)
next
  case False
  obtain w1 where w1: "exec_cmd E c cmd w = Some w1" "chan_inv n (Suc 255) c w1"
    using exec_cmd_inv [OF assms] by (auto simp: inv_after_def)
  obtain w' where "dispatch E c w1 = Some w'" "chan_inv n 255 c w'" "served c w'"
    using dispatch_inv [OF w1(2), of E] by (auto simp: served_def)
  moreover have "(case cmd of MM_CAMERA_CMD_TYPE_FLUSH_QUEUE _ _ \<Rightarrow> Some w1 | _ \<Rightarrow> dispatch E c w1) = dispatch E c w1"
    using False by (cases cmd) auto
  ultimately show ?thesis using w1(1) by (simp add: mm_channel_process_stream_buf_def)
qed

lemma run_cmds_inv:
  assumes "chan_inv n 255 c w" and "list_all good_cmd cmds"
  shows "\<exists>w'. run_cmds E c cmds w = Some w' \<and> chan_inv n 255 c w' \<and> (cmds \<noteq> [] \<longrightarrow> served c w')"
  using assms
proof (induction cmds arbitrary: w)
  case (Cons cmd cmds)
  obtain w1 where w1: "mm_channel_process_stream_buf E c cmd w = Some w1" "chan_inv n 255 c w1" "served c w1"
    using process_inv [OF Cons.prems(1)] Cons.prems(2) by auto
  obtain w2 where "run_cmds E c cmds w1 = Some w2" "chan_inv n 255 c w2" "cmds \<noteq> [] \<longrightarrow> served c w2"
    using Cons.IH [OF w1(2)] Cons.prems(2) by auto
  then show ?case using w1 by (cases cmds) auto
qed simp

section \<open>What is delivered\<close>

text \<open>
  With memory for the messages, burst mode sends the oldest complete superbuffers, in order, one for
  each request.
\<close>

lemma deliver_sends:
  assumes "w_mems w = []" and "super_buf_notify_cb (chan c w) \<noteq> None" and "ch_cbs (chan c w) = Some q"
  shows "deliver E c sb w = Some (upd_chan c (\<lambda>ch. ch\<lparr>ch_cbs := Some (q @ [superbuf_of sb])\<rparr>) w)"
  using assms by (auto simp: deliver_def alloc_ok_def)

lemma count_down_fields:
  assumes "c < length (chans w)"
  shows "ch_cbs (chan c (count_down c w)) = ch_cbs (chan c w)"
    and "super_buf_notify_cb (chan c (count_down c w)) = super_buf_notify_cb (chan c w)"
    and "pending_cnt (chan c (count_down c w)) = pending_cnt (chan c w) - 1"
    and "w_mems (count_down c w) = w_mems w" and "length (chans (count_down c w)) = length (chans w)"
  using assms by (simp_all add: count_down_def Let_def) (simp_all add: upd_chan_def log_act_def)

lemma unat_pred: "0 < (x :: 32 word) \<Longrightarrow> unat x = Suc (unat (x - 1))"
  by (simp add: unat_minus_one word_gt_0 unat_gt_0)

theorem dispatch_loop_burst:
  assumes "wf_parts q ms us" and "c < length (chans w)" and "w_mems w = []"
    and "super_buf_notify_cb (chan c w) \<noteq> None" and "ch_cbs (chan c w) = Some sent"
  shows "\<exists>q' w'. dispatch_loop E c MM_CAMERA_SUPER_BUF_NOTIFY_BURST q w = Some (q', w') \<and>
    wf_parts q' (drop (unat (pending_cnt (chan c w))) ms) us \<and>
    ch_cbs (chan c w') = Some (sent @ map superbuf_of (take (unat (pending_cnt (chan c w))) ms)) \<and>
    pending_cnt (chan c w') = pending_cnt (chan c w) - of_nat (min (unat (pending_cnt (chan c w))) (length ms))"
  using assms
proof (induction ms arbitrary: q w sent)
  case Nil
  then show ?case by (subst dispatch_loop.simps) (simp add: dequeue_unmatched)
next
  case (Cons sb ms)
  let ?p = "pending_cnt (chan c w)"
  show ?case
  proof (cases "0 < ?p")
    case False
    then show ?thesis using Cons.prems by (subst dispatch_loop.simps) (simp add: word_gt_0)
  next
    case True
    note d = dequeue_matched [OF Cons.prems(1)]
    note f = count_down_fields [OF Cons.prems(2)]
    let ?q = "q\<lparr>que := ms @ us, que_size := que_size q - 1, match_cnt := match_cnt q - 1\<rparr>"
    let ?w = "upd_chan c (\<lambda>ch. ch\<lparr>ch_cbs := Some (sent @ [superbuf_of sb])\<rparr>) (count_down c w)"
    have "deliver E c sb (count_down c w) = Some ?w"
      using Cons.prems(3-5) by (intro deliver_sends) (simp_all add: f)
    then have step: "dispatch_loop E c MM_CAMERA_SUPER_BUF_NOTIFY_BURST q w =
        dispatch_loop E c MM_CAMERA_SUPER_BUF_NOTIFY_BURST ?q ?w"
      using True by (subst dispatch_loop.simps) (simp add: d(1))
    have w: "c < length (chans ?w)" "w_mems ?w = []" "super_buf_notify_cb (chan c ?w) \<noteq> None"
        "ch_cbs (chan c ?w) = Some (sent @ [superbuf_of sb])" "pending_cnt (chan c ?w) = ?p - 1"
      using Cons.prems(2-4) f by (simp_all add: upd_chan_def chan_def)
    have u: "unat ?p = Suc (unat (?p - 1))" using True by (rule unat_pred)
    from Cons.IH [OF d(2) w(1-4)] show ?thesis
      unfolding step w(5) u by (auto simp: algebra_simps)
  qed
qed

end
