(* ===== verification/MM_Channel_Start.thy ===== *)
theory MM_Channel_Start
  imports MM_Channel
begin

text \<open>
  Starting and stopping a channel of streams of its own. The calls a start and a stop make change the
  stream they are made on and nothing else of the channel (\<open>calm\<close>, \<open>evt_at\<close>), and take it one state
  up or down; so a start that fails takes every stream back to where it was.
\<close>

section \<open>What the events of a start and a stop leave alone\<close>

definition tag :: "sw \<Rightarrow> 8 word \<times> 32 word \<times> ptr \<times> bool \<times> (nat \<times> nat) option \<times> cam_stream_type option" where
  "tag w = (skip_cnt w, my_hdl (strm w), s_ch_obj (strm w), is_bundled (strm w), linked_stream (strm w),
     map_option si_type (stream_info (strm w)))"

definition calm where
  "calm t = (\<lambda>w. mems w = [] \<and> tag w = t)"

named_theorems calm_ops "stream operations that leave the identity of the stream alone"

lemma calm_ask [calm_ops]: "pres (calm t) ask"
  by (auto simp: pres_wp calm_def tag_def intro!: wp_ask)
lemma calm_ask_mem [calm_ops]: "pres (calm t) ask_mem"
  by (auto simp: pres_wp calm_def tag_def ask_mem_def wp_simps)
lemma calm_ask_alloc [calm_ops]: "pres (calm t) ask_alloc"
  by (auto simp: pres_wp calm_def tag_def intro!: wp_ask_alloc)
lemma calm_emit [calm_ops]: "pres (calm t) (emit a)"
  by (simp add: pres_def emit_def calm_def tag_def)
lemma calm_obj [calm_ops]: "pres (calm t) (obj f)"
  by (simp add: pres_def obj_def)

definition same_id :: "(mm_stream \<Rightarrow> mm_stream) \<Rightarrow> bool" where
  "same_id f \<longleftrightarrow> (\<forall>s. my_hdl (f s) = my_hdl s \<and> s_ch_obj (f s) = s_ch_obj s \<and> is_bundled (f s) = is_bundled s \<and>
     linked_stream (f s) = linked_stream s \<and>
     map_option si_type (stream_info (f s)) = map_option si_type (stream_info s))"

lemma calm_upd: "same_id f \<Longrightarrow> pres (calm t) (upd f)"
  by (simp add: pres_def upd_def calm_def tag_def same_id_def)
lemma calm_upd_status [calm_ops]: "pres (calm t) (upd_status i f)"
  unfolding upd_status_def by (rule calm_upd) (simp add: same_id_def)
lemma calm_set_sstate [calm_ops]: "pres (calm t) (set_sstate st)"
  unfolding set_sstate_def by (rule calm_upd) (simp add: same_id_def)
lemma calm_qbuf [calm_ops]: "pres (calm t) (mm_stream_qbuf b)"
  unfolding mm_stream_qbuf_def by (intro pres_intros calm_ops calm_upd) (simp_all add: same_id_def)
lemma calm_buf_done [calm_ops]: "pres (calm t) (mm_stream_buf_done b)"
  unfolding mm_stream_buf_done_def by (intro pres_intros calm_ops)
lemma calm_deinit [calm_ops]: "pres (calm t) mm_stream_deinit_bufs"
  unfolding mm_stream_deinit_bufs_def by (intro pres_intros calm_ops calm_upd) (simp_all add: same_id_def)
lemma calm_init [calm_ops]: "pres (calm t) mm_stream_init_bufs"
  unfolding mm_stream_init_bufs_def
  by (intro pres_intros calm_ops calm_upd) (simp_all add: same_id_def option.map_comp comp_def)
lemma calm_reg_loop [calm_ops]: "pres (calm t) (reg_loop is)"
  by (induction "is") (auto intro!: pres_intros calm_ops)
lemma calm_reg [calm_ops]: "pres (calm t) mm_stream_reg_buf"
  unfolding mm_stream_reg_buf_def mm_stream_request_buf_def
  by (intro pres_intros calm_ops calm_upd) (simp_all add: same_id_def)
lemma calm_unreg [calm_ops]: "pres (calm t) mm_stream_unreg_buf"
  unfolding mm_stream_unreg_buf_def by (intro pres_intros calm_ops calm_upd) (simp_all add: same_id_def)
lemma calm_for_each: "(\<And>x. pres (calm t) (m x)) \<Longrightarrow> pres (calm t) (for_each m xs)"
  by (induction xs) (auto intro!: pres_intros)
lemma calm_callback [calm_ops]: "pres (calm t) (app_callback d k)"
  unfolding app_callback_def by (intro pres_intros calm_ops calm_upd) (simp_all add: same_id_def)
lemma calm_dispatch [calm_ops]: "pres (calm t) (mm_stream_dispatch_app_data b)"
  unfolding mm_stream_dispatch_app_data_def by (intro pres_intros calm_ops calm_for_each)
lemma calm_release_thread [calm_ops]: "pres (calm t) app_thread_release"
  unfolding app_thread_release_def
  by (intro pres_intros calm_ops calm_upd calm_for_each) (simp_all add: same_id_def)
lemma calm_launch [calm_ops]: "pres (calm t) app_thread_launch"
  unfolding app_thread_launch_def by (intro calm_upd) (simp add: same_id_def)
lemma calm_streamon [calm_ops]: "pres (calm t) mm_stream_streamon"
  unfolding mm_stream_streamon_def by (intro pres_intros calm_ops)
lemma calm_streamoff [calm_ops]: "pres (calm t) mm_stream_streamoff"
  unfolding mm_stream_streamoff_def by (intro pres_intros calm_ops)

definition run_evt :: "mm_stream_evt \<Rightarrow> bool" where
  "run_evt e \<longleftrightarrow> e \<in> {MM_STREAM_EVT_GET_BUF, MM_STREAM_EVT_PUT_BUF, MM_STREAM_EVT_REG_BUF,
     MM_STREAM_EVT_UNREG_BUF, MM_STREAM_EVT_START, MM_STREAM_EVT_STOP}"

lemma calm_fsm:
  assumes "run_evt e"
  shows "pres (calm t) (mm_stream_fsm_fn B dev e)"
proof -
  have 1: "pres (calm t) (stream_parm_evt e)" "pres (calm t) (mm_stream_fsm_inited dev e)"
    using assms by (auto simp: run_evt_def stream_parm_evt_def mm_stream_fsm_inited_def intro!: pres_intros)
  have 2: "pres (calm t) (mm_stream_fsm_acquired B e)" "pres (calm t) (mm_stream_fsm_cfg B e)"
    "pres (calm t) (mm_stream_fsm_buffed e)" "pres (calm t) (mm_stream_fsm_reg e)"
    "pres (calm t) (mm_stream_fsm_active e)"
    using assms 1(1) by (auto simp: run_evt_def fsm_event_defs intro!: pres_intros calm_ops)
  have 3: "pres (calm t) (case st of MM_STREAM_STATE_NOTUSED \<Rightarrow> ret (- 1)
     | MM_STREAM_STATE_INITED \<Rightarrow> mm_stream_fsm_inited dev e
     | MM_STREAM_STATE_ACQUIRED \<Rightarrow> mm_stream_fsm_acquired B e
     | MM_STREAM_STATE_CFG \<Rightarrow> mm_stream_fsm_cfg B e
     | MM_STREAM_STATE_BUFFED \<Rightarrow> mm_stream_fsm_buffed e
     | MM_STREAM_STATE_REG \<Rightarrow> mm_stream_fsm_reg e
     | MM_STREAM_STATE_ACTIVE \<Rightarrow> mm_stream_fsm_active e)" for st
    using 1(2) 2 by (cases st) (auto intro: pres_intros)
  show ?thesis unfolding mm_stream_fsm_fn_def by (intro pres_bind calm_obj 3)
qed

section \<open>One state up, one state down\<close>

text \<open>The state after an event, from the state before and the result.\<close>

fun after_evt :: "mm_stream_state_type \<Rightarrow> mm_stream_evt \<Rightarrow> int \<Rightarrow> mm_stream_state_type" where
  "after_evt MM_STREAM_STATE_CFG MM_STREAM_EVT_GET_BUF rc =
     (if rc = 0 then MM_STREAM_STATE_BUFFED else MM_STREAM_STATE_CFG)"
| "after_evt MM_STREAM_STATE_BUFFED MM_STREAM_EVT_REG_BUF rc =
     (if rc = 0 then MM_STREAM_STATE_REG else MM_STREAM_STATE_BUFFED)"
| "after_evt MM_STREAM_STATE_REG MM_STREAM_EVT_START rc =
     (if rc = 0 then MM_STREAM_STATE_ACTIVE else MM_STREAM_STATE_REG)"
| "after_evt MM_STREAM_STATE_ACTIVE MM_STREAM_EVT_STOP rc = MM_STREAM_STATE_REG"
| "after_evt MM_STREAM_STATE_REG MM_STREAM_EVT_UNREG_BUF rc = MM_STREAM_STATE_BUFFED"
| "after_evt MM_STREAM_STATE_BUFFED MM_STREAM_EVT_PUT_BUF rc = MM_STREAM_STATE_CFG"
| "after_evt st _ rc = st"

definition configured :: "mm_stream \<Rightarrow> bool" where
  "configured s \<longleftrightarrow> fsm_inv s \<and> s_state s \<in> {MM_STREAM_STATE_CFG, MM_STREAM_STATE_BUFFED,
     MM_STREAM_STATE_REG, MM_STREAM_STATE_ACTIVE}"

lemma wp_quiet_state_seq:
  assumes "keeps res m" and "\<And>a w'. s_state (strm w') = s_state (strm w) \<Longrightarrow> wp (f a) Q w'"
  shows "wp (m \<bind> f) Q w"
  using assms(1) by (rule wp_quiet_seq) (rule assms(2), erule lens_eqD(1))

lemma evt_state:
  assumes "configured (strm w)" and "run_evt e"
  shows "wp (mm_stream_fsm_fn B dev e) (\<lambda>rc w'. s_state (strm w') = after_evt (s_state (strm w)) e rc) w"
proof -
  have init: "wp (do { rc \<leftarrow> mm_stream_init_bufs; when_do (rc = 0) (set_sstate MM_STREAM_STATE_BUFFED); ret rc })
      (\<lambda>rc w'. s_state (strm w') = (if rc = 0 then MM_STREAM_STATE_BUFFED else MM_STREAM_STATE_CFG)) w"
    if "s_state (strm w) = MM_STREAM_STATE_CFG"
  proof (rule wp_seq [OF wp_init_bufs])
    show "no_bufs (strm w)" using assms(1) that by (simp add: configured_def fsm_inv_def)
    fix rc and w' :: sw
    assume "base (strm w) (strm w') \<and> (if rc = 0 then has_bufs (strm w') else no_bufs (strm w'))"
    then show "wp (do { when_do (rc = 0) (set_sstate MM_STREAM_STATE_BUFFED); ret rc })
      (\<lambda>rc w'. s_state (strm w') = (if rc = 0 then MM_STREAM_STATE_BUFFED else MM_STREAM_STATE_CFG)) w'"
      using that by (simp add: wp_simps base_def)
  qed
  have put: "wp (do { rc \<leftarrow> mm_stream_deinit_bufs; set_sstate MM_STREAM_STATE_CFG; ret rc })
      (\<lambda>rc w'. s_state (strm w') = MM_STREAM_STATE_CFG) w"
    by (rule wp_any) (simp add: wp_simps)
  have reg: "wp (do { rc \<leftarrow> mm_stream_reg_buf; when_do (rc = 0) (set_sstate MM_STREAM_STATE_REG); ret rc })
      (\<lambda>rc w'. s_state (strm w') = (if rc = 0 then MM_STREAM_STATE_REG else MM_STREAM_STATE_BUFFED)) w"
    if "s_state (strm w) = MM_STREAM_STATE_BUFFED"
    by (rule wp_quiet_state_seq [OF res_reg_buf]) (simp add: wp_simps that)
  have unreg: "wp (do { rc \<leftarrow> mm_stream_unreg_buf; set_sstate MM_STREAM_STATE_BUFFED; ret rc })
      (\<lambda>rc w'. s_state (strm w') = MM_STREAM_STATE_BUFFED) w"
    by (rule wp_any) (simp add: wp_simps)
  have stop: "wp (do { rc \<leftarrow> mm_stream_streamoff; c \<leftarrow> obj has_cb; when_do c app_thread_release;
      set_sstate MM_STREAM_STATE_REG; ret rc }) (\<lambda>rc w'. s_state (strm w') = MM_STREAM_STATE_REG) w"
    by (rule wp_any, rule wp_any, rule wp_any) (simp add: wp_simps)
  have start: "wp (do { c \<leftarrow> obj has_cb; when_do c app_thread_launch; set_sstate MM_STREAM_STATE_ACTIVE;
      rc \<leftarrow> mm_stream_streamon;
      when_do (rc \<noteq> 0) (do { when_do c app_thread_release; set_sstate MM_STREAM_STATE_REG }); ret rc })
    (\<lambda>rc w'. s_state (strm w') = (if rc = 0 then MM_STREAM_STATE_ACTIVE else MM_STREAM_STATE_REG)) w"
  proof (rule wp_any, rule wp_any)
    fix c u and w1 :: sw
    have fail: "wp (do { when_do c app_thread_release; set_sstate MM_STREAM_STATE_REG })
        (\<lambda>_ w'. s_state (strm w') = MM_STREAM_STATE_REG) w3" for w3
      by (rule wp_any) (simp add: wp_simps)
    have "wp (do { rc \<leftarrow> mm_stream_streamon;
      when_do (rc \<noteq> 0) (do { when_do c app_thread_release; set_sstate MM_STREAM_STATE_REG }); ret rc })
    (\<lambda>rc w'. s_state (strm w') = (if rc = 0 then MM_STREAM_STATE_ACTIVE else MM_STREAM_STATE_REG)) w2"
      if "s_state (strm w2) = MM_STREAM_STATE_ACTIVE" for w2
    proof (rule wp_quiet_state_seq [OF res_streamon])
      fix rc and w3 :: sw assume "s_state (strm w3) = s_state (strm w2)"
      then show "wp (do { when_do (rc \<noteq> 0) (do { when_do c app_thread_release; set_sstate MM_STREAM_STATE_REG });
          ret rc })
        (\<lambda>rc w'. s_state (strm w') = (if rc = 0 then MM_STREAM_STATE_ACTIVE else MM_STREAM_STATE_REG)) w3"
        using that fail [of w3] by (simp add: wp_bind [of "when_do (rc \<noteq> 0) _"] wp_when wp_return_fun)
    qed
    then show "wp (do { set_sstate MM_STREAM_STATE_ACTIVE; rc \<leftarrow> mm_stream_streamon;
      when_do (rc \<noteq> 0) (do { when_do c app_thread_release; set_sstate MM_STREAM_STATE_REG }); ret rc })
    (\<lambda>rc w'. s_state (strm w') = (if rc = 0 then MM_STREAM_STATE_ACTIVE else MM_STREAM_STATE_REG)) w1"
      by (simp add: wp_bind [of "set_sstate _"] wp_set_sstate)
  qed
  consider "s_state (strm w) = MM_STREAM_STATE_CFG" | "s_state (strm w) = MM_STREAM_STATE_BUFFED"
    | "s_state (strm w) = MM_STREAM_STATE_REG" | "s_state (strm w) = MM_STREAM_STATE_ACTIVE"
    using assms(1) by (auto simp: configured_def)
  then show ?thesis
    using assms(2) init put reg unreg stop start
    by cases (auto simp: run_evt_def mm_stream_fsm_fn_def wp_bind [of "obj _"] wp_obj fsm_event_defs
        stream_parm_evt_def wp_return)
qed

section \<open>Events on a stream of the channel\<close>

definition sid :: "mm_stream \<Rightarrow> 32 word \<times> ptr \<times> bool \<times> (nat \<times> nat) option \<times> cam_stream_type option" where
  "sid s = (my_hdl s, s_ch_obj s, is_bundled s, linked_stream s, map_option si_type (stream_info s))"

text \<open>From \<open>w\<close> to \<open>w'\<close> the streams \<open>K\<close> of channel \<open>c\<close> have changed, and they are who they were.\<close>

definition touch :: "nat \<Rightarrow> nat set \<Rightarrow> cw \<Rightarrow> cw \<Rightarrow> bool" where
  "touch c K w w' \<longleftrightarrow> length (chans w') = length (chans w) \<and> w_mems w' = w_mems w \<and>
     (\<exists>ss. chan c w' = (chan c w)\<lparr>streams := ss\<rparr> \<and> length ss = length (streams (chan c w))) \<and>
     (\<forall>k. sid (stream (c, k) w') = sid (stream (c, k) w)) \<and>
     (\<forall>k. k \<notin> K \<longrightarrow> stream (c, k) w' = stream (c, k) w) \<and>
     (\<forall>k. configured (stream (c, k) w) \<longrightarrow> configured (stream (c, k) w'))"

lemma touch_refl: "touch c K w w"
  by (auto simp: touch_def intro!: exI [of _ "streams (chan c w)"])

lemma touch_trans: "touch c K w w' \<Longrightarrow> touch c L w' w'' \<Longrightarrow> touch c (K \<union> L) w w''"
  by (auto simp: touch_def)

lemma touch_mono: "touch c K w w' \<Longrightarrow> K \<subseteq> L \<Longrightarrow> touch c L w w'"
  by (auto simp: touch_def)

lemma touchD:
  assumes "touch c K w w'"
  shows "length (chans w') = length (chans w)" and "w_mems w' = w_mems w"
    and "length (streams (chan c w')) = length (streams (chan c w))"
    and "sid (stream (c, k) w') = sid (stream (c, k) w)"
    and "k \<notin> K \<Longrightarrow> stream (c, k) w' = stream (c, k) w"
    and "configured (stream (c, k) w) \<Longrightarrow> configured (stream (c, k) w')"
    and "s_ch_obj (stream (c, k) w') = s_ch_obj (stream (c, k) w)"
    and "owned c k w' = owned c k w"
    and "(chan c w')\<lparr>streams := ss\<rparr> = (chan c w)\<lparr>streams := ss\<rparr>"
  using assms by (auto simp: touch_def sid_def owned_def)

lemma evt_at:
  assumes c: "c < length (chans w)" "k < length (streams (chan c w))"
    and s: "configured (stream (c, k) w)" "owned c k w" and m: "w_mems w = []" and e: "run_evt e"
    and r: "stream_evt E (c, k) e w = (rc, w')"
  shows "touch c {k} w w'"
    and "s_state (stream (c, k) w') = after_evt (s_state (stream (c, k) w)) e rc"
proof -
  let ?s = "stream (c, k) w"
  define w0 where "w0 = \<lparr>strm = ?s, skip_cnt = previewSkipCnt (chan c w), rets = w_rets w, mems = w_mems w,
                frames = w_frames w, allocs = w_allocs w, trace = []\<rparr>"
  obtain rc1 w1 where run: "run_state (mm_stream_fsm_fn (e_build E) (e_dev E) e) w0 = (rc1, w1)" by fastforce
  have own: "s_ch_obj ?s = Some c" using s(2) by (simp add: owned_def)
  have "calm (tag w0) w0" using m by (simp add: calm_def w0_def)
  with calm_fsm [OF e] have "calm (tag w0) (snd (run_state (mm_stream_fsm_fn (e_build E) (e_dev E) e) w0))"
    by (rule presD)
  then have t: "mems w1 = []" "tag w1 = tag w0" by (simp_all add: calm_def run)
  have st: "s_state (strm w1) = after_evt (s_state ?s) e rc1"
    using wpD [OF evt_state run] s(1) e by (simp add: w0_def)
  have i: "fsm_inv (strm w1)"
    using wpD [OF fsm_fn_winv run] s(1) by (simp add: w0_def winv_def configured_def)
  have cf: "configured (strm w1)"
    using i s(1) unfolding configured_def st
    by (cases "s_state ?s"; cases e) auto
  have w': "rc = rc1" "w' = (upd_stream (c, k) (\<lambda>_. strm w1)
      (upd_chan c (\<lambda>ch. ch\<lparr>previewSkipCnt := skip_cnt w1\<rparr>) w))
      \<lparr>w_rets := rets w1, w_mems := mems w1, w_frames := frames w1, w_allocs := allocs w1,
       w_trace := w_trace w @ map (AtStream c k) (trace w1)\<rparr>"
    using r run by (simp_all add: stream_evt_def on_stream_def Let_def own w0_def [symmetric])
  have sk: "skip_cnt w1 = previewSkipCnt (chan c w)" and id: "sid (strm w1) = sid ?s"
    using t(2) by (simp_all add: tag_def sid_def w0_def)
  have ch: "chan c w' = (chan c w)\<lparr>streams := (streams (chan c w))[k := strm w1]\<rparr>"
    using c sk by (simp add: w' upd_stream_def upd_chan_def chan_def)
  have str: "stream (c, j) w' = (if j = k then strm w1 else stream (c, j) w)" for j
    using c(2) by (simp add: stream_def ch)
  have len: "length (chans w') = length (chans w)" by (simp add: w' upd_stream_def upd_chan_def)
  show "s_state (stream (c, k) w') = after_evt (s_state ?s) e rc" using st w'(1) by (simp add: str)
  have mm: "w_mems w' = w_mems w" using t(1) m by (simp add: w')
  show "touch c {k} w w'"
    unfolding touch_def using len mm ch id cf
    by (auto simp: str intro!: exI [of _ "(streams (chan c w))[k := strm w1]"])
qed

text \<open>A channel in range, without a failing allocation.\<close>

definition roomy_chan :: "nat \<Rightarrow> cw \<Rightarrow> bool" where
  "roomy_chan c w \<longleftrightarrow> c < length (chans w) \<and> length (streams (chan c w)) = MAX_STREAM_NUM_IN_BUNDLE \<and>
     w_mems w = []"

lemma roomy_touch: "touch c K w w' \<Longrightarrow> roomy_chan c w \<Longrightarrow> roomy_chan c w'"
  by (simp add: roomy_chan_def touchD)

definition ours :: "nat \<Rightarrow> nat \<Rightarrow> cw \<Rightarrow> bool" where
  "ours c k w \<longleftrightarrow> k < MAX_STREAM_NUM_IN_BUNDLE \<and> owned c k w \<and> configured (stream (c, k) w)"

lemma ours_touch: "touch c K w w' \<Longrightarrow> ours c k w \<Longrightarrow> ours c k w'"
  by (simp add: ours_def touchD)

lemma evt_ours:
  assumes "roomy_chan c w" and "ours c k w" and "run_evt e" and "stream_evt E (c, k) e w = (rc, w')"
  shows "touch c {k} w w'" and "s_state (stream (c, k) w') = after_evt (s_state (stream (c, k) w)) e rc"
    and "roomy_chan c w'" and "ours c k w'"
  using evt_at [of c w k e E rc w'] assms roomy_touch ours_touch
  by (auto simp: roomy_chan_def ours_def)

lemma run_evts [simp]:
  "run_evt MM_STREAM_EVT_GET_BUF" "run_evt MM_STREAM_EVT_PUT_BUF" "run_evt MM_STREAM_EVT_REG_BUF"
  "run_evt MM_STREAM_EVT_UNREG_BUF" "run_evt MM_STREAM_EVT_START" "run_evt MM_STREAM_EVT_STOP"
  by (simp_all add: run_evt_def)

text \<open>Stopping and putting the buffers back takes a stream down from any state.\<close>

lemma stop_own_ours:
  assumes "roomy_chan c w" and "ours c k w"
  shows "touch c {k} w (stop_own E (c, k) w)"
    and "s_state (stream (c, k) (stop_own E (c, k) w)) \<in> {MM_STREAM_STATE_CFG, MM_STREAM_STATE_BUFFED}"
proof -
  obtain r1 w1 where 1: "stream_evt E (c, k) MM_STREAM_EVT_STOP w = (r1, w1)" by fastforce
  obtain r2 w2 where 2: "stream_evt E (c, k) MM_STREAM_EVT_UNREG_BUF w1 = (r2, w2)" by fastforce
  note a = evt_ours [OF assms run_evts(6) 1]
  note b = evt_ours [OF a(3,4) run_evts(4) 2]
  have w2: "stop_own E (c, k) w = w2" by (simp add: stop_own_def 1 2)
  show "touch c {k} w (stop_own E (c, k) w)" using touch_trans [OF a(1) b(1)] by (simp add: w2)
  have "s_state (stream (c, k) w) \<in> {MM_STREAM_STATE_CFG, MM_STREAM_STATE_BUFFED,
     MM_STREAM_STATE_REG, MM_STREAM_STATE_ACTIVE}" using assms(2) by (simp add: ours_def configured_def)
  then show "s_state (stream (c, k) (stop_own E (c, k) w)) \<in> {MM_STREAM_STATE_CFG, MM_STREAM_STATE_BUFFED}"
    unfolding w2 b(2) a(2) by auto
qed

lemma put_bufs_ours:
  assumes "roomy_chan c w" and "ours c k w"
    and "s_state (stream (c, k) w) \<in> {MM_STREAM_STATE_CFG, MM_STREAM_STATE_BUFFED}"
  shows "touch c {k} w (put_bufs E (c, k) w)"
    and "s_state (stream (c, k) (put_bufs E (c, k) w)) = MM_STREAM_STATE_CFG"
proof -
  obtain r1 w1 where 1: "stream_evt E (c, k) MM_STREAM_EVT_PUT_BUF w = (r1, w1)" by fastforce
  note a = evt_ours [OF assms(1,2) run_evts(2) 1]
  show "touch c {k} w (put_bufs E (c, k) w)" using a(1) by (simp add: put_bufs_def 1)
  show "s_state (stream (c, k) (put_bufs E (c, k) w)) = MM_STREAM_STATE_CFG"
    using a(2) assms(3) by (auto simp: put_bufs_def 1)
qed

section \<open>The loops of a start and a stop\<close>

abbreviation st_of :: "nat \<Rightarrow> nat \<Rightarrow> cw \<Rightarrow> mm_stream_state_type" where
  "st_of c k w \<equiv> s_state (stream (c, k) w)"

lemma st_of_touch: "touch c K w w' \<Longrightarrow> k \<notin> K \<Longrightarrow> st_of c k w' = st_of c k w"
  by (simp add: touchD)

lemma ours_rest:
  assumes "touch c {k} w w'" and "k \<notin> set ks" and "\<forall>j\<in>set ks. ours c j w \<and> P (st_of c j w)"
  shows "\<forall>j\<in>set ks. ours c j w' \<and> P (st_of c j w')"
proof
  fix j assume "j \<in> set ks"
  then have "j \<notin> {k}" "ours c j w" "P (st_of c j w)" using assms(2,3) by auto
  then show "ours c j w' \<and> P (st_of c j w')" using assms(1) by (simp add: st_of_touch ours_touch)
qed

text \<open>
  The streams are started one after the other; at a failure the ones before it are active and the
  ones behind it untouched.
\<close>

lemma start_streams_ours:
  assumes "distinct ks" and "roomy_chan c w"
    and "\<forall>k\<in>set ks. ours c k w \<and> st_of c k w = MM_STREAM_STATE_CFG"
  shows "\<exists>rc j w'. start_streams E c ks i w = Some (rc, i + j, w') \<and> touch c (set (take (Suc j) ks)) w w' \<and>
    (if rc = 0 then j = length ks \<and> (\<forall>k\<in>set ks. st_of c k w' = MM_STREAM_STATE_ACTIVE) else j < length ks)"
  using assms
proof (induction ks arbitrary: i w)
  case Nil
  then show ?case by (auto simp: touch_refl intro!: exI [of _ 0])
next
  case (Cons k ks)
  have k: "ours c k w" "owned c k w" "st_of c k w = MM_STREAM_STATE_CFG" and dk: "k \<notin> set ks"
    using Cons.prems by (auto simp: ours_def)
  obtain r1 w1 where 1: "stream_evt E (c, k) MM_STREAM_EVT_GET_BUF w = (r1, w1)" by fastforce
  obtain r2 w2 where 2: "stream_evt E (c, k) MM_STREAM_EVT_REG_BUF w1 = (r2, w2)" by fastforce
  obtain r3 w3 where 3: "stream_evt E (c, k) MM_STREAM_EVT_START w2 = (r3, w3)" by fastforce
  note a1 = evt_ours [OF Cons.prems(2) k(1) run_evts(1) 1]
  note a2 = evt_ours [OF a1(3,4) run_evts(3) 2]
  note a3 = evt_ours [OF a2(3,4) run_evts(5) 3]
  have t2: "touch c {k} w w2" using touch_trans [OF a1(1) a2(1)] by simp
  have t3: "touch c {k} w w3" using touch_trans [OF t2 a3(1)] by simp
  have fail: "\<exists>rc j w'. Some (r, i, v) = Some (rc, i + j, w') \<and>
      touch c (set (take (Suc j) (k # ks))) w w' \<and>
      (if rc = 0 then j = length (k # ks) \<and> (\<forall>k\<in>set (k # ks). st_of c k w' = MM_STREAM_STATE_ACTIVE)
       else j < length (k # ks))" if "r \<noteq> 0" "touch c {k} w v" for r v
    using that by (intro exI [of _ r] exI [of _ 0] exI [of _ v]) simp
  show ?case
  proof (cases "r1 = 0 \<and> r2 = 0 \<and> r3 = 0")
    case False
    then show ?thesis
      using k fail [OF _ a1(1)] fail [OF _ t2] fail [OF _ t3] by (auto simp: 1 2 3)
  next
    case True
    have act: "st_of c k w3 = MM_STREAM_STATE_ACTIVE" using True k(3) a1(2) a2(2) a3(2) by simp
    have rest: "\<forall>j\<in>set ks. ours c j w3 \<and> st_of c j w3 = MM_STREAM_STATE_CFG"
      using ours_rest [OF t3 dk, of "\<lambda>s. s = MM_STREAM_STATE_CFG"] Cons.prems(3) by simp
    obtain rc j w' where r: "start_streams E c ks (Suc i) w3 = Some (rc, Suc i + j, w')"
        "touch c (set (take (Suc j) ks)) w3 w'"
        "if rc = 0 then j = length ks \<and> (\<forall>k\<in>set ks. st_of c k w' = MM_STREAM_STATE_ACTIVE) else j < length ks"
      using Cons.IH [OF _ a3(3) rest, of "Suc i"] Cons.prems(1) by auto
    have "k \<notin> set (take (Suc j) ks)" using dk by (auto dest: in_set_takeD)
    then have "st_of c k w' = MM_STREAM_STATE_ACTIVE" using act r(2) by (simp add: st_of_touch)
    moreover have "touch c (set (take (Suc (Suc j)) (k # ks))) w w'" using touch_trans [OF t3 r(2)] by simp
    ultimately show ?thesis
      using True k r by (intro exI [of _ rc] exI [of _ "Suc j"] exI [of _ w']) (auto simp: 1 2 3)
  qed
qed

lemma undo_streams_ours:
  assumes "distinct ks" and "roomy_chan c w" and "\<forall>k\<in>set ks. ours c k w"
  shows "\<exists>w'. undo_streams E c f ks w = Some w' \<and> touch c (set ks) w w' \<and>
    (\<forall>k\<in>set ks. st_of c k w' = MM_STREAM_STATE_CFG)"
  using assms
proof (induction ks arbitrary: w)
  case Nil
  then show ?case by (simp add: touch_refl)
next
  case (Cons k ks)
  have k: "ours c k w" "owned c k w" and dk: "k \<notin> set ks" using Cons.prems by (auto simp: ours_def)
  note a = stop_own_ours [OF Cons.prems(2) k(1), of E]
  note b = put_bufs_ours [OF roomy_touch [OF a(1) Cons.prems(2)] ours_touch [OF a(1) k(1)] a(2), of E]
  let ?w1 = "put_bufs E (c, k) (stop_own E (c, k) w)"
  have t: "touch c {k} w ?w1" using touch_trans [OF a(1) b(1)] by simp
  have "\<forall>j\<in>set ks. ours c j ?w1" using Cons.prems(3) t by (auto intro: ours_touch)
  from Cons.IH [OF _ roomy_touch [OF t Cons.prems(2)] this] Cons.prems(1)
  obtain w' where r: "undo_streams E c f ks ?w1 = Some w'" "touch c (set ks) ?w1 w'"
      "\<forall>k\<in>set ks. st_of c k w' = MM_STREAM_STATE_CFG" by auto
  have "st_of c k w' = MM_STREAM_STATE_CFG" using st_of_touch [OF r(2) dk] b(2) by simp
  then show ?case using r k touch_trans [OF t r(2)] by auto
qed

lemma stop_streams_ours:
  assumes "distinct ks" and "roomy_chan c w" and "\<forall>k\<in>set ks. ours c k w"
  shows "\<exists>w'. stop_streams E c ks w = Some w' \<and> touch c (set ks) w w' \<and>
    (\<forall>k\<in>set ks. st_of c k w' \<in> {MM_STREAM_STATE_CFG, MM_STREAM_STATE_BUFFED})"
  using assms
proof (induction ks arbitrary: w)
  case Nil
  then show ?case by (simp add: touch_refl)
next
  case (Cons k ks)
  have k: "ours c k w" "owned c k w" and dk: "k \<notin> set ks" using Cons.prems by (auto simp: ours_def)
  note a = stop_own_ours [OF Cons.prems(2) k(1), of E]
  have "\<forall>j\<in>set ks. ours c j (stop_own E (c, k) w)" using Cons.prems(3) a(1) by (auto intro: ours_touch)
  from Cons.IH [OF _ roomy_touch [OF a(1) Cons.prems(2)] this] Cons.prems(1)
  obtain w' where r: "stop_streams E c ks (stop_own E (c, k) w) = Some w'"
      "touch c (set ks) (stop_own E (c, k) w) w'"
      "\<forall>k\<in>set ks. st_of c k w' \<in> {MM_STREAM_STATE_CFG, MM_STREAM_STATE_BUFFED}" by auto
  have "st_of c k w' \<in> {MM_STREAM_STATE_CFG, MM_STREAM_STATE_BUFFED}"
    using st_of_touch [OF r(2) dk] a(2) by simp
  then show ?case using r k touch_trans [OF a(1) r(2)] by auto
qed

definition put_own :: "cam_env \<Rightarrow> nat \<Rightarrow> nat \<Rightarrow> cw \<Rightarrow> cw" where
  "put_own E c k w = (if owned c k w then put_bufs E (c, k) w else w)"

lemma put_all_ours:
  assumes "distinct ks" and "roomy_chan c w"
    and "\<forall>k\<in>set ks. ours c k w \<and> st_of c k w \<in> {MM_STREAM_STATE_CFG, MM_STREAM_STATE_BUFFED}"
  shows "touch c (set ks) w (fold (put_own E c) ks w) \<and>
    (\<forall>k\<in>set ks. st_of c k (fold (put_own E c) ks w) = MM_STREAM_STATE_CFG)"
  using assms
proof (induction ks arbitrary: w)
  case Nil
  then show ?case by (simp add: touch_refl)
next
  case (Cons k ks)
  have k: "ours c k w" "owned c k w" "st_of c k w \<in> {MM_STREAM_STATE_CFG, MM_STREAM_STATE_BUFFED}"
    and dk: "k \<notin> set ks" using Cons.prems by (auto simp: ours_def)
  have e: "put_own E c k w = put_bufs E (c, k) w" using k(2) by (simp add: put_own_def)
  note a = put_bufs_ours [OF Cons.prems(2) k(1,3), of E]
  let ?w1 = "put_bufs E (c, k) w"
  have "\<forall>j\<in>set ks. ours c j ?w1 \<and> st_of c j ?w1 \<in> {MM_STREAM_STATE_CFG, MM_STREAM_STATE_BUFFED}"
    using ours_rest [OF a(1) dk, of "\<lambda>s. s \<in> {MM_STREAM_STATE_CFG, MM_STREAM_STATE_BUFFED}"]
      Cons.prems(3) by simp
  with Cons.IH [OF _ roomy_touch [OF a(1) Cons.prems(2)] this] Cons.prems(1)
  have r: "touch c (set ks) ?w1 (fold (put_own E c) ks ?w1)"
    "\<forall>k\<in>set ks. st_of c k (fold (put_own E c) ks ?w1) = MM_STREAM_STATE_CFG" by auto
  have "st_of c k (fold (put_own E c) ks ?w1) = MM_STREAM_STATE_CFG"
    using st_of_touch [OF r(1) dk] a(2) by simp
  then show ?case using r touch_trans [OF a(1) r(1)] by (auto simp: e)
qed

section \<open>The streams a start goes through\<close>

lemma find_only:
  assumes "i \<in> set xs" and "P i" and "\<And>j. j \<in> set xs \<Longrightarrow> P j \<Longrightarrow> j = i"
  shows "List.find P xs = Some i"
  using assms
proof (induction xs)
  case (Cons a xs)
  show ?case
  proof (cases "P a")
    case True
    then have "a = i" by (intro Cons.prems(3)) simp_all
    then show ?thesis by (simp only: find.simps Cons.prems(2) if_True)
  next
    case False
    then have "i \<in> set xs" using Cons.prems(1,2) by auto
    then have "List.find P xs = Some i"
    proof (rule Cons.IH [OF _ Cons.prems(2)])
      fix j assume "j \<in> set xs" "P j"
      then show "j = i" by (intro Cons.prems(3)) simp_all
    qed
    then show ?thesis using False by simp
  qed
qed simp

definition used :: "nat \<Rightarrow> cw \<Rightarrow> nat list" where
  "used c w = filter (\<lambda>k. my_hdl (stream (c, k) w) \<noteq> 0) all_slots"

text \<open>
  A channel whose streams are its own and configured, with handles that tell them apart. Without a
  callback it has no bundle.
\<close>

definition plain :: "nat \<Rightarrow> cw \<Rightarrow> bool" where
  "plain c w \<longleftrightarrow> roomy_chan c w \<and> (\<forall>k\<in>set (used c w). ours c k w) \<and>
     distinct (map (\<lambda>k. my_hdl (stream (c, k) w)) (used c w)) \<and>
     (super_buf_notify_cb (chan c w) = None \<longrightarrow> \<not> bundle_active (chan c w))"

lemma used_props: "distinct (used c w)" "k \<in> set (used c w) \<longleftrightarrow> k < MAX_STREAM_NUM_IN_BUNDLE \<and> my_hdl (stream (c, k) w) \<noteq> 0"
  by (auto simp: used_def all_slots_def)

lemma plainD:
  assumes "plain c w"
  shows "roomy_chan c w" and "\<forall>k\<in>set (used c w). ours c k w"
    and "inj_on (\<lambda>k. my_hdl (stream (c, k) w)) (set (used c w))"
  using assms by (simp_all add: plain_def distinct_map)

lemma used_touch: "touch c K w w' \<Longrightarrow> used c w' = used c w"
  by (auto simp: touch_def sid_def used_def intro!: filter_cong)

lemma lookup_used:
  assumes "plain c w" and "k \<in> set (used c w)"
  shows "get_stream_by_handler (chan c w) (my_hdl (stream (c, k) w)) = Some k"
  unfolding get_stream_by_handler_def
proof (rule find_only)
  have k: "k < MAX_STREAM_NUM_IN_BUNDLE" "my_hdl (stream (c, k) w) \<noteq> 0" using assms(2) by (simp_all add: used_props)
  show "k \<in> set [0..<MAX_STREAM_NUM_IN_BUNDLE]" using k by simp
  show "s_state (streams (chan c w) ! k) \<noteq> MM_STREAM_STATE_NOTUSED \<and>
      my_hdl (stream (c, k) w) = my_hdl (streams (chan c w) ! k)"
    using plainD(2) [OF assms(1)] assms(2) by (auto simp: ours_def configured_def stream_def)
  fix j assume "j \<in> set [0..<MAX_STREAM_NUM_IN_BUNDLE]"
    and "s_state (streams (chan c w) ! j) \<noteq> MM_STREAM_STATE_NOTUSED \<and>
      my_hdl (stream (c, k) w) = my_hdl (streams (chan c w) ! j)"
  then have "j \<in> set (used c w)" "my_hdl (stream (c, k) w) = my_hdl (stream (c, j) w)"
    using k(2) by (simp_all add: used_props stream_def)
  then show "j = k" using plainD(3) [OF assms(1)] assms(2) by (simp add: inj_on_def)
qed

lemma collect_used:
  assumes "plain c w"
  shows "\<exists>xs. collect (chan c w) all_slots = Some xs \<and> map fst xs = used c w"
proof -
  have "\<exists>xs. collect (chan c w) is = Some xs \<and> map fst xs = filter (\<lambda>k. my_hdl (stream (c, k) w) \<noteq> 0) is"
    if "set is \<subseteq> {..<MAX_STREAM_NUM_IN_BUNDLE}" for "is"
    using that
  proof (induction "is")
    case (Cons i "is")
    then obtain xs where xs: "collect (chan c w) is = Some xs"
        "map fst xs = filter (\<lambda>k. my_hdl (stream (c, k) w) \<noteq> 0) is" by auto
    show ?case
    proof (cases "my_hdl (stream (c, i) w) = 0")
      case True
      then show ?thesis using xs by (simp add: stream_def)
    next
      case False
      then have i: "i \<in> set (used c w)" using Cons.prems by (simp add: used_props)
      then obtain si where "stream_info (stream (c, i) w) = Some si"
        using plainD(2) [OF assms] by (fastforce simp: ours_def configured_def fsm_inv_def)
      then show ?thesis using False xs lookup_used [OF assms i] by (simp add: stream_def)
    qed
  qed simp
  from this [of all_slots] show ?thesis by (simp add: used_def all_slots_def lessThan_atLeast0)
qed

lemma meta_idx_less: "meta_idx c w xs = 0 \<or> meta_idx c w xs < length xs"
proof (cases "filter (\<lambda>p. snd (xs ! p) = CAM_STREAM_TYPE_METADATA \<and> owned c (fst (xs ! p)) w) [0..<length xs]")
  case (Cons p ps)
  then have "last (p # ps) \<in> set [0..<length xs]" by (metis filter_is_subset last_in_set list.distinct(1) subsetD)
  then show ?thesis by (simp add: meta_idx_def Cons)
qed (simp add: meta_idx_def)

lemma swap_at_props:
  assumes "i < length xs" and "j < length xs"
  shows "distinct (swap_at i j xs) \<longleftrightarrow> distinct xs" and "set (swap_at i j xs) = set xs"
  using assms by (simp_all add: swap_at_def distinct_swap set_swap)

section \<open>The bundle\<close>

lemma set_bundled_all:
  assumes "c < length (chans w)" and "set ks \<subseteq> {..<length (streams (chan c w))}"
  shows "(\<exists>ss. chan c (fold (set_bundled c) ks w) = (chan c w)\<lparr>streams := ss\<rparr> \<and>
      length ss = length (streams (chan c w))) \<and>
    length (chans (fold (set_bundled c) ks w)) = length (chans w) \<and>
    w_mems (fold (set_bundled c) ks w) = w_mems w \<and>
    (\<forall>k. stream (c, k) (fold (set_bundled c) ks w) =
      (if k \<in> set ks \<and> owned c k w then (stream (c, k) w)\<lparr>is_bundled := True\<rparr> else stream (c, k) w))"
  using assms
proof (induction ks arbitrary: w)
  case Nil
  then show ?case by (auto intro!: exI [of _ "streams (chan c w)"])
next
  case (Cons j ks)
  let ?w = "set_bundled c j w"
  have j: "c < length (chans w)" "j < length (streams (chan c w))" using Cons.prems by auto
  have ch: "\<exists>ss. chan c ?w = (chan c w)\<lparr>streams := ss\<rparr> \<and> length ss = length (streams (chan c w))"
  proof (cases "owned c j w")
    case True
    then show ?thesis
      using j by (intro exI [of _ "streams (chan c ?w)"]) (simp add: set_bundled_def upd_stream_def upd_chan_def chan_def)
  next
    case False
    then show ?thesis by (intro exI [of _ "streams (chan c w)"]) (simp add: set_bundled_def)
  qed
  have str: "stream (c, k) ?w =
      (if k = j \<and> owned c j w then (stream (c, k) w)\<lparr>is_bundled := True\<rparr> else stream (c, k) w)" for k
    using j by (auto simp: set_bundled_def upd_stream_def upd_chan_def chan_def stream_def)
  have own: "owned c k ?w = owned c k w" for k by (simp add: owned_def str)
  have len: "length (chans ?w) = length (chans w)" "w_mems ?w = w_mems w"
    by (simp_all add: set_bundled_def upd_stream_def upd_chan_def)
  have "set ks \<subseteq> {..<length (streams (chan c ?w))}" "c < length (chans ?w)" using Cons.prems ch len by auto
  note ih = Cons.IH [OF this(2,1)]
  show ?case using ih ch len by (auto simp: own str)
qed

lemma start_bundle_props:
  assumes "roomy_chan c w" and "set ks \<subseteq> {..<MAX_STREAM_NUM_IN_BUNDLE}"
  defines "w' \<equiv> start_bundle c ks w"
  shows "roomy_chan c w'"
    and "stream (c, k) w' =
      (if k \<in> set ks \<and> owned c k w then (stream (c, k) w)\<lparr>is_bundled := True\<rparr> else stream (c, k) w)"
    and "bundle_active (chan c w')" and "ch_cmds (chan c w') = Some []" and "ch_cbs (chan c w') = Some []"
    and "super_buf_notify_cb (chan c w') = super_buf_notify_cb (chan c w)"
    and "match_cnt (superbuf_queue (chan c w')) = match_cnt (superbuf_queue (chan c w))"
    and "que (superbuf_queue (chan c w')) = []"
    and "attr (superbuf_queue (chan c w')) = attr (superbuf_queue (chan c w))"
proof -
  have c: "c < length (chans w)" "set ks \<subseteq> {..<length (streams (chan c w))}"
    using assms(1,2) by (auto simp: roomy_chan_def)
  note a = set_bundled_all [OF c]
  have c': "c < length (chans (fold (set_bundled c) ks w))" using a c(1) by simp
  obtain ss where ss: "chan c (fold (set_bundled c) ks w) = (chan c w)\<lparr>streams := ss\<rparr>"
      "length ss = length (streams (chan c w))" using a by auto
  have upd: "chan c w' = (let ch = chan c (fold (set_bundled c) ks w); q = superbuf_queue ch;
      hs = map (\<lambda>k. my_hdl (stream (c, k) w)) ks
    in ch\<lparr>bundle_active := True, ch_cmds := Some [], ch_cbs := Some [],
             superbuf_queue := (superbuf_queue_init q)
               \<lparr>num_streams := length ks, expected_frame_id := 0, expected_frame_id_without_led := 0,
                bundled_streams := hs @ drop (length hs) (bundled_streams q)\<rparr>\<rparr>)"
    using c' by (simp add: w'_def start_bundle_def Let_def upd_chan_def chan_def)
  have str: "stream (c, k) w' = stream (c, k) (fold (set_bundled c) ks w)" for k
    using c' by (simp add: w'_def start_bundle_def Let_def upd_chan_def chan_def stream_def)
  have len: "length (chans w') = length (chans w)" "w_mems w' = w_mems w"
    using a by (simp_all add: w'_def start_bundle_def Let_def upd_chan_def)
  show "roomy_chan c w'" using assms(1) ss(2) len by (simp add: roomy_chan_def upd ss(1) Let_def)
  show "stream (c, k) w' =
      (if k \<in> set ks \<and> owned c k w then (stream (c, k) w)\<lparr>is_bundled := True\<rparr> else stream (c, k) w)"
    using a str by simp
  show "bundle_active (chan c w')" "ch_cmds (chan c w') = Some []" "ch_cbs (chan c w') = Some []"
    "super_buf_notify_cb (chan c w') = super_buf_notify_cb (chan c w)"
    "match_cnt (superbuf_queue (chan c w')) = match_cnt (superbuf_queue (chan c w))"
    "que (superbuf_queue (chan c w')) = []"
    "attr (superbuf_queue (chan c w')) = attr (superbuf_queue (chan c w))"
    by (simp_all add: upd ss(1) Let_def superbuf_queue_init_def)
qed

text \<open>Releasing threads with nothing left to do.\<close>

lemma release_threads_idle:
  assumes "roomy_chan c w" and "ch_cmds (chan c w) = Some []" and "ch_cbs (chan c w) \<noteq> None"
  shows "\<exists>w'. release_threads E c w = Some w' \<and> roomy_chan c w' \<and> streams (chan c w') = streams (chan c w) \<and>
    ch_cmds (chan c w') = None \<and> ch_cbs (chan c w') = None \<and>
    bundle_active (chan c w') = bundle_active (chan c w) \<and>
    super_buf_notify_cb (chan c w') = super_buf_notify_cb (chan c w) \<and>
    attr (superbuf_queue (chan c w')) = attr (superbuf_queue (chan c w)) \<and>
    match_cnt (superbuf_queue (chan c w')) = match_cnt (superbuf_queue (chan c w)) \<and>
    que (superbuf_queue (chan c w')) = []"
proof -
  obtain sbs where sbs: "ch_cbs (chan c w) = Some sbs" using assms(3) by auto
  have f: "chans (fold (mm_channel_dispatch_super_buf c) xs v) = chans v \<and>
      w_mems (fold (mm_channel_dispatch_super_buf c) xs v) = w_mems v" for xs v
    by (induction xs arbitrary: v) (auto simp: mm_channel_dispatch_super_buf_def log_act_def)
  show ?thesis
    using assms sbs f
    by (auto simp: roomy_chan_def release_threads_def release_cmd_thread_def release_cb_thread_def release_thread_def
        alloc_ok_def run_cmd_thread_def cb_thread_def upd_chan_def chan_def upd_queue_def superbuf_queue_deinit_def)
qed

section \<open>Start and stop\<close>

text \<open>What a start and a stop keep of the channel.\<close>

definition same_streams :: "nat \<Rightarrow> cw \<Rightarrow> cw \<Rightarrow> bool" where
  "same_streams c w w' \<longleftrightarrow> roomy_chan c w' \<and>
     (\<forall>k. my_hdl (stream (c, k) w') = my_hdl (stream (c, k) w) \<and> (ours c k w \<longrightarrow> ours c k w'))"

lemma same_streams_trans: "same_streams c u v \<Longrightarrow> same_streams c v w \<Longrightarrow> same_streams c u w"
  by (simp add: same_streams_def)

lemma same_streams_touch: "touch c K w w' \<Longrightarrow> roomy_chan c w \<Longrightarrow> same_streams c w w'"
  using touchD(4) [of c K w w'] roomy_touch ours_touch by (auto simp: same_streams_def sid_def)

lemma same_streams_used: "same_streams c w w' \<Longrightarrow> used c w' = used c w"
  by (simp add: same_streams_def used_def)

lemma same_streams_plain:
  assumes "same_streams c w w'" and "plain c w"
    and "super_buf_notify_cb (chan c w') = None \<longrightarrow> \<not> bundle_active (chan c w')"
  shows "plain c w'"
  using assms by (simp add: plain_def same_streams_used) (simp add: same_streams_def)

lemma configured_bundled [simp]: "configured (s\<lparr>is_bundled := b\<rparr>) = configured s"
  by (cases "s_state s") (simp_all add: configured_def fsm_inv_def no_bufs_def has_bufs_lens)

lemma same_streams_bundle:
  assumes "roomy_chan c w" and "set ks \<subseteq> {..<MAX_STREAM_NUM_IN_BUNDLE}"
  shows "same_streams c w (start_bundle c ks w)"
  using start_bundle_props(1,2) [OF assms] by (auto simp: same_streams_def ours_def owned_def)

lemma same_streams_eq:
  assumes "streams (chan c w') = streams (chan c w)" and "roomy_chan c w'"
  shows "same_streams c w w'"
  using assms by (simp add: same_streams_def ours_def owned_def stream_def)

lemma touch_chan:
  assumes "touch c K w w'"
  shows "super_buf_notify_cb (chan c w') = super_buf_notify_cb (chan c w)"
    and "bundle_active (chan c w') = bundle_active (chan c w)"
    and "ch_cmds (chan c w') = ch_cmds (chan c w)" and "ch_cbs (chan c w') = ch_cbs (chan c w)"
    and "superbuf_queue (chan c w') = superbuf_queue (chan c w)"
    and "is_bundled (stream (c, k) w') = is_bundled (stream (c, k) w)"
  using assms by (auto simp: touch_def sid_def)

text \<open>The order in which a start takes the streams.\<close>

lemma start_order:
  assumes "plain c w"
  obtains xs ks where "collect (chan c w) all_slots = Some xs" and "distinct ks" and "set ks = set (used c w)"
    and "ks = (if 0 < meta_idx c w xs then swap_at 0 (meta_idx c w xs) (map fst xs) else map fst xs)"
proof -
  obtain xs where xs: "collect (chan c w) all_slots = Some xs" "map fst xs = used c w"
    using collect_used [OF assms] by auto
  have len: "length (used c w) = length xs" using arg_cong [OF xs(2), of length] by simp
  let ?m = "meta_idx c w xs"
  have m: "0 < length (used c w)" "?m < length (used c w)" if "0 < ?m"
    using meta_idx_less [of c w xs] len that by linarith+
  show thesis
  proof (rule that [OF xs(1)])
    show "distinct (if 0 < ?m then swap_at 0 ?m (map fst xs) else map fst xs)"
      by (simp add: xs(2) swap_at_props m used_props(1) del: length_greater_0_conv)
    show "set (if 0 < ?m then swap_at 0 ?m (map fst xs) else map fst xs) = set (used c w)"
      by (simp add: xs(2) swap_at_props m del: length_greater_0_conv)
  qed simp
qed

lemma stop_order:
  assumes "plain c w"
  obtains xs ks where "collect (chan c w) all_slots = Some xs" and "distinct ks" and "set ks = set (used c w)"
    and "ks = (if int (meta_idx c w xs) < int (length xs) - 1
      then swap_at (length xs - 1) (meta_idx c w xs) (map fst xs) else map fst xs)"
proof -
  obtain xs where xs: "collect (chan c w) all_slots = Some xs" "map fst xs = used c w"
    using collect_used [OF assms] by auto
  have len: "length (used c w) = length xs" using arg_cong [OF xs(2), of length] by simp
  let ?m = "meta_idx c w xs" and ?n = "length xs - 1"
  have m: "?m < length xs \<and> ?n < length xs" if "int ?m < int (length xs) - 1" using that by linarith
  show thesis
  proof (rule that [OF xs(1)])
    show "distinct (if int ?m < int (length xs) - 1 then swap_at ?n ?m (map fst xs) else map fst xs)"
      using m len by (simp add: xs(2) swap_at_props used_props(1))
    show "set (if int ?m < int (length xs) - 1 then swap_at ?n ?m (map fst xs) else map fst xs) = set (used c w)"
      using m len by (simp add: xs(2) swap_at_props)
  qed simp
qed

text \<open>A start takes all streams up, or puts all back and forgets the bundle.\<close>

lemma start_result:
  assumes p: "plain c w" and cfg: "\<forall>k\<in>set (used c w). st_of c k w = MM_STREAM_STATE_CFG"
  shows "\<exists>rc w'. mm_channel_start E c w = Some (rc, w') \<and> same_streams c w w' \<and>
    (\<forall>k\<in>set (used c w). st_of c k w' = (if rc = 0 then MM_STREAM_STATE_ACTIVE else MM_STREAM_STATE_CFG) \<and>
       is_bundled (stream (c, k) w') = (is_bundled (stream (c, k) w) \<or> super_buf_notify_cb (chan c w) \<noteq> None)) \<and>
    (if super_buf_notify_cb (chan c w) = None
     then super_buf_notify_cb (chan c w') = None \<and> \<not> bundle_active (chan c w') \<and>
       ch_cmds (chan c w') = ch_cmds (chan c w) \<and> ch_cbs (chan c w') = ch_cbs (chan c w)
     else if rc = 0
     then super_buf_notify_cb (chan c w') = super_buf_notify_cb (chan c w) \<and> bundle_active (chan c w') \<and>
       ch_cmds (chan c w') = Some [] \<and> ch_cbs (chan c w') = Some [] \<and>
       que (superbuf_queue (chan c w')) = [] \<and>
       attr (superbuf_queue (chan c w')) = attr (superbuf_queue (chan c w)) \<and>
       match_cnt (superbuf_queue (chan c w')) = match_cnt (superbuf_queue (chan c w))
     else super_buf_notify_cb (chan c w') = None \<and> \<not> bundle_active (chan c w') \<and>
       ch_cmds (chan c w') = None \<and> ch_cbs (chan c w') = None)"
proof -
  obtain xs ks where xs: "collect (chan c w) all_slots = Some xs" and ks: "distinct ks" "set ks = set (used c w)"
    "ks = (if 0 < meta_idx c w xs then swap_at 0 (meta_idx c w xs) (map fst xs) else map fst xs)"
    using start_order [OF p] by blast
  let ?cb = "super_buf_notify_cb (chan c w) \<noteq> None"
  define w1 where "w1 = (if ?cb then start_bundle c ks w else w)"
  have room: "roomy_chan c w" by (rule plainD(1) [OF p])
  have sub: "set ks \<subseteq> {..<MAX_STREAM_NUM_IN_BUNDLE}" by (auto simp: ks(2) used_props)
  note sb = start_bundle_props [OF room sub]
  have own: "owned c k w" if "k \<in> set ks" for k using plainD(2) [OF p] that ks(2) by (simp add: ours_def)
  have s1: "same_streams c w w1"
    using same_streams_bundle [OF room sub] same_streams_eq [of c w w] room by (simp add: w1_def)
  have r1: "roomy_chan c w1" using s1 by (simp add: same_streams_def)
  have o1: "\<forall>k\<in>set ks. ours c k w1"
    using s1 plainD(2) [OF p] ks(2) by (simp add: same_streams_def)
  have c1: "\<forall>k\<in>set ks. st_of c k w1 = MM_STREAM_STATE_CFG \<and>
      is_bundled (stream (c, k) w1) = (is_bundled (stream (c, k) w) \<or> ?cb)"
    using cfg ks(2) sb(2) own by (auto simp: w1_def)
  obtain rc j w2 where st: "start_streams E c ks 0 w1 = Some (rc, j, w2)"
      and t2: "touch c (set (take (Suc j) ks)) w1 w2"
      and j: "if rc = 0 then j = length ks \<and> (\<forall>k\<in>set ks. st_of c k w2 = MM_STREAM_STATE_ACTIVE) else j < length ks"
    using start_streams_ours [OF ks(1) r1, of E 0] o1 c1 by auto
  have start: "mm_channel_start E c w =
      (if rc = 0 then Some (0, w2)
       else do {
         w \<leftarrow> undo_streams E c (ks ! j) (take (Suc j) ks) w2;
         w \<leftarrow> (if bundle_active (chan c w)
              then map_option (upd_chan c zero_bundle) (release_threads E c w)
              else Some w);
         Some (rc, w) })"
    unfolding mm_channel_start_def xs Option.bind.simps Let_def
    unfolding ks(3) [symmetric] w1_def [symmetric] st by simp
  have s2: "same_streams c w w2" using same_streams_trans [OF s1 same_streams_touch [OF t2 r1]] .
  note k2 = touch_chan [OF t2]
  show ?thesis
  proof (cases "rc = 0")
    case True
    have "plain c w" by fact
    then show ?thesis
      using True start s2 j ks(2) c1 k2 sb by (auto simp: w1_def plain_def)
  next
    case False
    have r2: "roomy_chan c w2" using s2 by (simp add: same_streams_def)
    have o2: "\<forall>k\<in>set (take (Suc j) ks). ours c k w2"
      using o1 t2 by (auto dest: in_set_takeD intro: ours_touch)
    obtain w3 where u: "undo_streams E c (ks ! j) (take (Suc j) ks) w2 = Some w3"
        and t3: "touch c (set (take (Suc j) ks)) w2 w3"
        and d3: "\<forall>k\<in>set (take (Suc j) ks). st_of c k w3 = MM_STREAM_STATE_CFG"
      using undo_streams_ours [OF distinct_take [OF ks(1)] r2 o2] by blast
    have t13: "touch c (set (take (Suc j) ks)) w1 w3" using touch_trans [OF t2 t3] by simp
    note k3 = touch_chan [OF t13]
    have s3: "same_streams c w w3" using same_streams_trans [OF s1 same_streams_touch [OF t13 r1]] .
    have r3: "roomy_chan c w3" using s3 by (simp add: same_streams_def)
    have d: "\<forall>k\<in>set ks. st_of c k w3 = MM_STREAM_STATE_CFG"
      using d3 c1 st_of_touch [OF t13] by metis
    show ?thesis
    proof (cases ?cb)
      case True
      then have b: "bundle_active (chan c w3)" "ch_cmds (chan c w3) = Some []" "ch_cbs (chan c w3) \<noteq> None"
        using k3 sb by (simp_all add: w1_def)
      obtain w4 where r: "release_threads E c w3 = Some w4" and q: "roomy_chan c w4"
          "streams (chan c w4) = streams (chan c w3)" "ch_cmds (chan c w4) = None" "ch_cbs (chan c w4) = None"
        using release_threads_idle [OF r3 b(2,3)] by blast
      let ?w5 = "upd_chan c zero_bundle w4"
      have e5: "streams (chan c ?w5) = streams (chan c w3)" "super_buf_notify_cb (chan c ?w5) = None"
          "\<not> bundle_active (chan c ?w5)" "ch_cmds (chan c ?w5) = None" "ch_cbs (chan c ?w5) = None"
          "roomy_chan c ?w5"
        using q by (simp_all add: roomy_chan_def upd_chan_def chan_def zero_bundle_def)
      have "stream (c, k) ?w5 = stream (c, k) w3" for k using e5(1) by (simp add: stream_def)
      moreover have "same_streams c w ?w5"
        using same_streams_trans [OF s3 same_streams_eq [OF e5(1,6)]] .
      ultimately show ?thesis
        using False True start u b(1) r e5(2-5) d c1 k3(6) ks(2) by auto
    next
      case nocb: False
      then have "\<not> bundle_active (chan c w3)" using k3(2) p by (simp add: w1_def plain_def)
      then show ?thesis
        using False nocb start u s3 d c1 k3 ks(2) by (simp add: w1_def)
    qed
  qed
qed

text \<open>A stop takes every stream of the channel down, whatever the state it is in.\<close>

lemma stop_result:
  assumes p: "plain c w"
    and thr: "bundle_active (chan c w) \<longrightarrow> ch_cmds (chan c w) = Some [] \<and> ch_cbs (chan c w) \<noteq> None"
  shows "\<exists>w'. mm_channel_stop E c w = Some (0, w') \<and> same_streams c w w' \<and>
    (\<forall>k\<in>set (used c w). st_of c k w' = MM_STREAM_STATE_CFG) \<and>
    (bundle_active (chan c w) \<longrightarrow> bundle_active (chan c w') \<and> ch_cmds (chan c w') = None \<and> ch_cbs (chan c w') = None \<and>
       super_buf_notify_cb (chan c w') = super_buf_notify_cb (chan c w) \<and>
       que (superbuf_queue (chan c w')) = [] \<and>
       attr (superbuf_queue (chan c w')) = attr (superbuf_queue (chan c w)) \<and>
       match_cnt (superbuf_queue (chan c w')) = match_cnt (superbuf_queue (chan c w)))"
proof -
  obtain xs ks where xs: "collect (chan c w) all_slots = Some xs" and ks: "distinct ks" "set ks = set (used c w)"
    "ks = (if int (meta_idx c w xs) < int (length xs) - 1
      then swap_at (length xs - 1) (meta_idx c w xs) (map fst xs) else map fst xs)"
    using stop_order [OF p] by blast
  have room: "roomy_chan c w" by (rule plainD(1) [OF p])
  obtain w2 where st: "stop_streams E c ks w = Some w2" and t2: "touch c (set ks) w w2"
      and d2: "\<forall>k\<in>set ks. st_of c k w2 \<in> {MM_STREAM_STATE_CFG, MM_STREAM_STATE_BUFFED}"
    using stop_streams_ours [OF ks(1) room] plainD(2) [OF p] ks(2) by metis
  note k2 = touch_chan [OF t2]
  have s2: "same_streams c w w2" by (rule same_streams_touch [OF t2 room])
  obtain w3 where r: "(if bundle_active (chan c w2) then release_threads E c w2 else Some w2) = Some w3"
      and e3: "roomy_chan c w3" "streams (chan c w3) = streams (chan c w2)"
        "bundle_active (chan c w3) = bundle_active (chan c w2)"
        "bundle_active (chan c w2) \<longrightarrow> ch_cmds (chan c w3) = None \<and> ch_cbs (chan c w3) = None \<and>
          super_buf_notify_cb (chan c w3) = super_buf_notify_cb (chan c w2) \<and>
          que (superbuf_queue (chan c w3)) = [] \<and>
          attr (superbuf_queue (chan c w3)) = attr (superbuf_queue (chan c w2)) \<and>
          match_cnt (superbuf_queue (chan c w3)) = match_cnt (superbuf_queue (chan c w2))"
  proof (cases "bundle_active (chan c w2)")
    case True
    have "roomy_chan c w2" "ch_cmds (chan c w2) = Some []" "ch_cbs (chan c w2) \<noteq> None"
      using s2 thr True k2 by (auto simp: same_streams_def)
    from release_threads_idle [OF this, of E] True show ?thesis using that by auto
  next
    case False
    then show ?thesis using s2 by (intro that [of w2]) (auto simp: same_streams_def)
  qed
  have s3: "same_streams c w w3" using same_streams_trans [OF s2 same_streams_eq [OF e3(2,1)]] .
  have "\<forall>k\<in>set ks. ours c k w3 \<and> st_of c k w3 \<in> {MM_STREAM_STATE_CFG, MM_STREAM_STATE_BUFFED}"
    using s3 plainD(2) [OF p] ks(2) d2 e3(2) by (simp add: same_streams_def stream_def)
  note f = put_all_ours [OF ks(1) e3(1) this, of E]
  have t4: "touch c (set ks) w3 (fold (put_own E c) ks w3)"
    and d4: "\<forall>k\<in>set ks. st_of c k (fold (put_own E c) ks w3) = MM_STREAM_STATE_CFG" using f by blast+
  note k4 = touch_chan [OF t4]
  have po: "(\<lambda>k w. if owned c k w then put_bufs E (c, k) w else w) = put_own E c"
    by (simp add: fun_eq_iff put_own_def)
  have "mm_channel_stop E c w = Some (0, fold (put_own E c) ks w3)"
    unfolding mm_channel_stop_def xs Option.bind.simps Let_def
    unfolding ks(3) [symmetric] st Option.bind.simps r po by (rule refl)
  moreover have "same_streams c w (fold (put_own E c) ks w3)"
    using same_streams_trans [OF s3 same_streams_touch [OF t4 e3(1)]] .
  ultimately show ?thesis using d4 ks(2) e3(3,4) k2 k4 by auto
qed

end
