(* ===== verification/MM_Restart.thy ===== *)
theory MM_Restart
  imports MM_Channel_Start MM_Superbuf_Inv
begin

text \<open>
  Starting a channel again: after a start that failed, and after a stop with superbuffers in the queue.
\<close>

section \<open>A frame for a channel without a thread\<close>

lemma wp_ask_nil: "rets w = [] \<Longrightarrow> wp ask Q w = Q 0 w"
  by (simp add: ask_def wp_simps)
lemma wp_mem_nil: "mems w = [] \<Longrightarrow> wp ask_mem Q w = Q True w"
  by (simp add: ask_mem_def wp_simps)

definition passed :: "mm_camera_buf_info \<Rightarrow> sw \<Rightarrow> bool" where
  "passed b w \<longleftrightarrow> ToChannel b \<in> set (trace w)"

lemma passed_ask: "pres (passed b) ask"
  by (auto simp: pres_wp passed_def intro!: wp_ask)
lemma passed_mem: "pres (passed b) ask_mem"
  by (auto simp: pres_wp passed_def ask_mem_def wp_simps split: list.split)
lemma passed_emit: "pres (passed b) (emit a)"
  by (simp add: pres_def emit_def passed_def)
lemma passed_obj: "pres (passed b) (obj f)"
  by (simp add: pres_def obj_def)
lemma passed_upd: "pres (passed b) (upd f)" "pres (passed b) (upd_status i g)"
  by (simp_all add: pres_def upd_def upd_status_def passed_def)
lemma passed_modify: "pres (passed b) (modify (\<lambda>w. w\<lparr>skip_cnt := f w\<rparr>))"
  by (simp add: pres_def passed_def)
lemma passed_gets: "pres (passed b) (gets f)"
  by (simp add: pres_def)

lemmas passed_ops = passed_ask passed_mem passed_emit passed_obj passed_upd passed_modify passed_gets

lemma passed_buf_done: "pres (passed b) (mm_stream_buf_done d)"
  unfolding mm_stream_buf_done_def mm_stream_qbuf_def by (intro pres_intros passed_ops)
lemma passed_notify: "pres (passed b) (mm_stream_notify_channel ch a)"
  unfolding mm_stream_notify_channel_def by (intro pres_intros passed_ops)

lemma wp_then_pres: "wp m (\<lambda>_. P) w \<Longrightarrow> (\<And>a. pres P (f a)) \<Longrightarrow> wp (m \<bind> f) (\<lambda>_. P) w"
  by (erule wp_seq) (simp add: pres_wp)

lemma passed_rcvd:
  assumes "mems w = []" and "is_bundled (strm w)" and "s_ch_obj (strm w) = Some c"
  shows "wp (mm_stream_handle_rcvd_buf b hc) (\<lambda>_. passed b) w"
proof -
  have rest: "pres (passed b) (do {
     when_do (is_linked s) (do {
       upd_status i (\<lambda>x. x\<lparr>buf_refcnt := buf_refcnt x + 1\<rparr>);
       _ \<leftarrow> mm_stream_notify_channel (linked_obj s) (ToLinked b); ret () });
     n \<leftarrow> gets skip_cnt;
     if n \<noteq> 0 \<and> map_option si_type (stream_info s) = Some CAM_STREAM_TYPE_PREVIEW then do {
       modify (\<lambda>w. w\<lparr>skip_cnt := skip_cnt w - 1\<rparr>);
       _ \<leftarrow> mm_stream_buf_done (the (bi_buf b));
       ret () }
     else when_do (hc \<and> app_active s) (do {
       node \<leftarrow> ask_mem;
       q \<leftarrow> (if node then ask_mem else ret False);
       when_do q (upd (\<lambda>s. s\<lparr>app_queue := app_queue s @ [b]\<rparr>)) }) })" for s i
    by (intro pres_intros passed_ops passed_buf_done passed_notify)
  have n: "wp (mm_stream_notify_channel (Some c) (ToChannel b)) (\<lambda>_ w'. passed b w') w"
    using assms(1) by (simp add: mm_stream_notify_channel_def wp_simps wp_mem_nil passed_def)
  have "wp (when_do (is_bundled (strm w)) (do {
       _ \<leftarrow> mm_stream_notify_channel (s_ch_obj (strm w)) (ToChannel b); ret () })) (\<lambda>_. passed b) w"
    using n by (simp add: wp_when assms wp_bind wp_return_fun)
  from wp_then_pres [OF this rest] show ?thesis
    unfolding mm_stream_handle_rcvd_buf_def Let_def wp_bind [of "obj _"] wp_obj id_apply .
qed

lemma passed_notify_data:
  assumes "s_state (strm w) = MM_STREAM_STATE_ACTIVE" and "is_bundled (strm w)" and "s_ch_obj (strm w) = Some c"
    and "mems w = []" and "rets w = []"
  shows "\<exists>b. wp mm_stream_data_notify (\<lambda>_. passed b) w"
proof -
  define r where "r = run_state mm_stream_read_msm_frame w"
  define b where "b = snd (fst r)"
  have read: "wp mm_stream_read_msm_frame (\<lambda>x w'. w' = snd r \<and> fst x = 0 \<and> snd x = b \<and> mems w' = [] \<and>
      is_bundled (strm w') \<and> s_ch_obj (strm w') = Some c) w"
    using assms by (auto simp: wp_run mm_stream_read_msm_frame_def r_def b_def ask_def ask_frame_def emit_def upd_def obj_def Let_def
        split: list.split)
  have rcvd: "wp (do {
         let i = unat (buf_idx (the (bi_buf b)));
         upd_status i (\<lambda>x. x\<lparr>in_kernel := False\<rparr>);
         when_do t (upd_status i (\<lambda>x. x\<lparr>buf_refcnt := buf_refcnt x + 1\<rparr>));
         upd_status i (\<lambda>x. x\<lparr>buf_refcnt := buf_refcnt x + (if hc then 1 else 0)\<rparr>);
         mm_stream_handle_rcvd_buf b hc }) (\<lambda>_. passed b) w'"
    if "mems w' = []" "is_bundled (strm w')" "s_ch_obj (strm w') = Some c" for w' t hc
    using that by (auto simp: Let_def wp_bind [of "upd_status _ _"] wp_bind [of "when_do _ _"] wp_upd_status wp_when
        intro!: passed_rcvd)
  have act: "\<not> s_state (strm w) \<noteq> MM_STREAM_STATE_ACTIVE" using assms(1) by simp
  have "wp mm_stream_data_notify (\<lambda>_. passed b) w"
    unfolding mm_stream_data_notify_def wp_bind [of "obj _"] wp_obj id_apply
    unfolding if_not_P [OF act]
  proof (rule wp_seq [OF read])
    fix x w' assume x: "w' = snd r \<and> fst x = 0 \<and> snd x = b \<and> mems w' = [] \<and>
      is_bundled (strm w') \<and> s_ch_obj (strm w') = Some c"
    then have xb: "x = (0, b)" by (simp add: prod_eq_iff)
    have "wp (do {
         let i = unat (buf_idx (the (bi_buf b)));
         upd_status i (\<lambda>x. x\<lparr>in_kernel := False\<rparr>);
         when_do (is_bundled (strm w)) (upd_status i (\<lambda>x. x\<lparr>buf_refcnt := buf_refcnt x + 1\<rparr>));
         upd_status i (\<lambda>x. x\<lparr>buf_refcnt := buf_refcnt x + (if has_cb (strm w) then 1 else 0)\<rparr>);
         mm_stream_handle_rcvd_buf b (has_cb (strm w)) }) (\<lambda>_. passed b) w'"
      using x by (intro rcvd) blast+
    then show "wp (case x of (rc, b) \<Rightarrow> if rc \<noteq> 0 then ret () else do {
         let i = unat (buf_idx (the (bi_buf b)));
         upd_status i (\<lambda>x. x\<lparr>in_kernel := False\<rparr>);
         when_do (is_bundled (strm w)) (upd_status i (\<lambda>x. x\<lparr>buf_refcnt := buf_refcnt x + 1\<rparr>));
         upd_status i (\<lambda>x. x\<lparr>buf_refcnt := buf_refcnt x + (if has_cb (strm w) then 1 else 0)\<rparr>);
         mm_stream_handle_rcvd_buf b (has_cb (strm w)) }) (\<lambda>_. passed b) w'"
      unfolding xb prod.case by (simp only: simp_thms if_False)
  qed
  then show ?thesis ..
qed

lemma pass_on_dead:
  assumes "ToChannel b \<in> set acts" and "s_ch_obj s = Some c" and "ch_cmds (chan c w) = None"
  shows "pass_on s acts w = None"
  using assms
proof (induction acts arbitrary: w)
  case (Cons a acts)
  have keep: "ch_cmds (chan c w') = None" if "enq_cmd d cmd w = Some w'" for d cmd w'
    using that Cons.prems(3)
    by (auto simp: enq_cmd_def upd_chan_def chan_def nth_list_update split: option.splits)
      (metis nth_list_update_neq option.distinct(1))
  show ?case
  proof (cases a)
    case (ToChannel b')
    then show ?thesis using Cons.prems by (simp add: enq_cmd_def)
  next
    case (ToLinked b')
    then show ?thesis using Cons keep by (auto split: option.split)
  qed (use Cons in auto)
qed simp

lemma frame_on_dead_channel:
  assumes "c < length (chans w)" and "k < length (streams (chan c w))"
    and "s_state (stream (c, k) w) = MM_STREAM_STATE_ACTIVE" and "is_bundled (stream (c, k) w)" and "owned c k w"
    and "ch_cmds (chan c w) = None" and "w_mems w = []" and "w_rets w = []"
  shows "frame_arrives (c, k) w = None"
proof -
  let ?w0 = "\<lparr>strm = stream (c, k) w, skip_cnt = previewSkipCnt (chan c w), rets = w_rets w, mems = w_mems w,
                frames = w_frames w, allocs = w_allocs w, trace = []\<rparr>"
  have own: "s_ch_obj (stream (c, k) w) = Some c" using assms(5) by (simp add: owned_def)
  obtain b where b: "wp mm_stream_data_notify (\<lambda>_. passed b) ?w0"
    using passed_notify_data [of ?w0 c] assms own by auto
  define w1 where "w1 = snd (run_state mm_stream_data_notify ?w0)"
  then have run: "run_state mm_stream_data_notify ?w0 = ((), w1)" by (simp add: prod_eq_iff)
  have p: "ToChannel b \<in> set (trace w1)" using b run by (simp add: wp_run passed_def)
  have run2: "run_state (do { mm_stream_data_notify; gets trace }) ?w0 = (trace w1, w1)"
    using run by simp
  obtain w' where on: "on_stream (c, k) (do { mm_stream_data_notify; gets trace }) w = (trace w1, w')"
    and cm: "ch_cmds (chan c w') = None"
    using run2 assms(1,2,6) own
    by (auto simp: on_stream_def Let_def upd_stream_def upd_chan_def chan_def)
  show ?thesis using pass_on_dead [OF p own cm] by (simp add: frame_arrives_def on)
qed

section \<open>A stale count of matches\<close>

lemma skip_spins:
  assumes "notify_mode (attr (superbuf_queue (chan c w))) = MM_CAMERA_SUPER_BUF_NOTIFY_BURST"
    and "que (superbuf_queue (chan c w)) = []"
    and "ucast (look_back (attr (superbuf_queue (chan c w)))) < match_cnt (superbuf_queue (chan c w))"
    and "c < length (chans w)"
  shows "mm_channel_process_stream_buf E c (MM_CAMERA_CMD_TYPE_REQ_DATA_CB n) w = None"
proof -
  let ?w = "upd_chan c (\<lambda>ch. ch\<lparr>pending_cnt := n\<rparr>) w"
  have q: "superbuf_queue (chan c ?w) = superbuf_queue (chan c w)" using assms(4) by (simp add: upd_chan_def chan_def)
  have "superbuf_skip (qb E c) (superbuf_queue (chan c w)) (Some ?w) = None"
    unfolding superbuf_skip_def assms(1)
    using trim_loop_spins [OF _ assms(3)] assms(2) by (simp add: dequeue_internal_def)
  then have "channel_skip E c ?w = None" by (simp add: channel_skip_def q)
  then show ?thesis by (simp add: mm_channel_process_stream_buf_def exec_cmd_def)
qed

section \<open>Starting again\<close>

lemma after_failed_start:
  assumes p: "plain c w" and cfg: "\<forall>k\<in>set (used c w). st_of c k w = MM_STREAM_STATE_CFG"
    and cb: "super_buf_notify_cb (chan c w) \<noteq> None"
    and fail: "mm_channel_start E c w = Some (rc, w1)" "rc \<noteq> 0"
    and retry: "mm_channel_start E c w1 = Some (0, w2)"
  shows "ch_cmds (chan c w2) = None \<and> roomy_chan c w2 \<and> (\<forall>k\<in>set (used c w). k < MAX_STREAM_NUM_IN_BUNDLE \<and>
    st_of c k w2 = MM_STREAM_STATE_ACTIVE \<and> is_bundled (stream (c, k) w2) \<and> owned c k w2)"
proof -
  from start_result [OF p cfg, of E] fail cb
  have 1: "same_streams c w w1" "\<forall>k\<in>set (used c w). st_of c k w1 = MM_STREAM_STATE_CFG \<and> is_bundled (stream (c, k) w1)"
    "super_buf_notify_cb (chan c w1) = None" "\<not> bundle_active (chan c w1)" "ch_cmds (chan c w1) = None"
    by auto
  have u: "used c w1 = used c w" by (rule same_streams_used [OF 1(1)])
  have p1: "plain c w1" using same_streams_plain [OF 1(1) p] 1(4) by simp
  have "\<forall>k\<in>set (used c w1). st_of c k w1 = MM_STREAM_STATE_CFG" using 1(2) u by simp
  from start_result [OF p1 this, of E] retry 1(3,5) u 1(2)
  have 2: "same_streams c w1 w2" "\<forall>k\<in>set (used c w). st_of c k w2 = MM_STREAM_STATE_ACTIVE \<and> is_bundled (stream (c, k) w2)"
    "ch_cmds (chan c w2) = None" by auto
  have "\<forall>k\<in>set (used c w). ours c k w2"
    using plainD(2) [OF p] 1(1) 2(1) by (simp add: same_streams_def)
  then show ?thesis using 2 by (simp add: same_streams_def ours_def)
qed

end
