(* ===== verification/MM_Properties.thy ===== *)
theory MM_Properties
  imports MM_Offset_Sound MM_Superbuf_Inv MM_Stream_Runs MM_Stream_Fsm MM_Channel_Thread MM_Restart
begin

text \<open>
  The properties of the layer below the HAL (\<open>stack/mm-camera-interface\<close>): streams, their buffers and
  their layouts, channels and superbuffers. Each is followed by an instance at a concrete input.
\<close>

section \<open>Objects to evaluate on\<close>

definition vga :: cam_stream_info where
  "vga = \<lparr>stream_svr_id = 1, si_type = CAM_STREAM_TYPE_PREVIEW, si_fmt = CAM_FORMAT_YUV_420_NV21,
     si_dim = \<lparr>d_width = 640, d_height = 480\<rparr>, buf_planes = frame_offset no_stream, num_bufs = 1,
     pp_config = \<lparr>feature_mask = 0, rotation = ROTATE_0, meta_max_size = 0\<rparr>,
     reproc_src = Online CAM_STREAM_TYPE_PREVIEW,
     reproc_pp = \<lparr>feature_mask = 0, rotation = ROTATE_0, meta_max_size = 0\<rparr>\<rparr>"


definition build0 :: build where "build0 = \<lparr>is_a_family = False, venus_present = None\<rparr>"

definition env0 :: cam_env where "env0 = \<lparr>e_build = build0, e_dev = True, e_meta = (\<lambda>_. None)\<rparr>"

definition stream0 :: mm_stream where
  "stream0 = (added_stream 257 (Some 0))\<lparr>s_state := MM_STREAM_STATE_CFG, fd := 3, stream_info := Some vga\<rparr>"

definition chan0 :: mm_channel where
  "chan0 = \<lparr>ch_hdl = 1, ch_state = MM_CHANNEL_STATE_STOPPED, bundle_active = False,
     superbuf_queue = zero_queue\<lparr>attr := (attr zero_queue)\<lparr>look_back := 2, water_mark := 3, max_unmatched_frames := 4\<rparr>\<rparr>,
     super_buf_notify_cb = Some 7, pending_cnt = 0, ch_cmds = None, ch_cbs = None,
     streams = [stream0, no_stream, no_stream, no_stream],
     manualZSLSnapshot = False, startZSlSnapshotCalled = False, needLEDFlash = False, previewSkipCnt = 0,
     bracketingState = MM_CHANNEL_BRACKETING_STATE_OFF, isFlashBracketingEnabled = False,
     isZoom1xFrameRequested = False\<rparr>"

definition cw0 :: cw where
  "cw0 = \<lparr>chans = [chan0], g_handler_history_count = 1, w_rets = [], w_mems = [], w_frames = [], w_allocs = [],
     w_trace = []\<rparr>"

lemma plain0: "plain 0 (cw0\<lparr>w_rets := r\<rparr>)"
  "\<forall>k\<in>set (used 0 (cw0\<lparr>w_rets := r\<rparr>)). st_of 0 k (cw0\<lparr>w_rets := r\<rparr>) = MM_STREAM_STATE_CFG"
  and used0: "used 0 (cw0\<lparr>w_rets := r\<rparr>) = [0]"
proof -
  let ?w = "cw0\<lparr>w_rets := r\<rparr>"
  show u: "used 0 ?w = [0]"
    by (simp add: used_def all_slots_def cw0_def chan0_def stream_def chan_def stream0_def added_stream_def no_stream_def
        MAX_STREAM_NUM_IN_BUNDLE_def upt_rec)
  have s: "stream (0, 0) ?w = stream0" by (simp add: stream_def chan_def cw0_def chan0_def)
  have c: "configured stream0"
    by (simp add: configured_def fsm_inv_def stream0_def added_stream_def no_stream_def no_bufs_def MM_CAMERA_STREAM_BUF_CB_MAX_def)
  have "roomy_chan 0 ?w" by (simp add: roomy_chan_def cw0_def chan_def chan0_def MAX_STREAM_NUM_IN_BUNDLE_def)
  moreover have "ours 0 0 ?w"
    using c by (simp add: ours_def owned_def s MAX_STREAM_NUM_IN_BUNDLE_def) (simp add: stream0_def added_stream_def)
  ultimately show "plain 0 ?w" by (simp add: plain_def u) (simp add: cw0_def chan_def chan0_def)
  show "\<forall>k\<in>set (used 0 ?w). st_of 0 k ?w = MM_STREAM_STATE_CFG" by (simp add: u s) (simp add: stream0_def)
qed




section \<open>Layouts of frames\<close>




section \<open>Streams\<close>

text \<open>
  C33: whatever events, frames, turns of its thread and callbacks a stream sees after it was added to a
  channel, its object fits its state: a stream has its buffers, their status and their count exactly
  from BUFFED on, an open device from ACQUIRED on and a description from CFG on.
\<close>

theorem stream_object_fits_state:
  assumes "strm w = added_stream h c" and "(stream_step B dev)\<^sup>*\<^sup>* w w'"
  shows "fsm_inv (strm w')"
proof -
  have "winv w" using added_inv [of h c] assms(1) by (simp add: winv_def)
  then show ?thesis using stream_run_winv [OF assms(2)] by (simp add: winv_def)
qed

definition sw0 :: "mm_stream \<Rightarrow> sw" where
  "sw0 s = \<lparr>strm = s, skip_cnt = 0, rets = [], mems = [], frames = [], allocs = [], trace = []\<rparr>"

theorem stream_object_fits_state_witness:
  "\<exists>w'. (stream_step build0 True)\<^sup>*\<^sup>* (sw0 (added_stream 257 (Some 0))) w' \<and> fsm_inv (strm w')"
proof -
  let ?w = "sw0 (added_stream 257 (Some 0))"
  have "(stream_step build0 True)\<^sup>*\<^sup>* ?w (snd (run_state (mm_stream_fsm_fn build0 True MM_STREAM_EVT_ACQUIRE) ?w))"
    by (rule r_into_rtranclp) (rule stream_step.event)
  moreover have "strm ?w = added_stream 257 (Some 0)" by (simp add: sw0_def)
  ultimately show ?thesis using stream_object_fits_state [of ?w 257 "Some 0" build0 True] by blast
qed

text \<open>
  C6: from the registration of fresh buffers on, over any interleaving of frames, turns of the
  stream's thread and references given back (a preview stream having a callback), a buffer that
  somebody outside the stream still holds is not in the kernel's queue, and its count covers all the
  references that are out; nobody's buffer is overwritten.
\<close>

theorem held_buffer_not_in_kernel:
  assumes "fresh_bufs (strm w)"
    and "ref_step\<^sup>*\<^sup>* (snd (run_state mm_stream_reg_buf w), handed (trace w)) (w', g)"
    and "i < length (the (buf_status (strm w')))" and "g i < handed (trace w') i"
  shows "\<not> in_kernel (the (buf_status (strm w')) ! i) \<and>
    handed (trace w') i - g i \<le> unat (buf_refcnt (the (buf_status (strm w')) ! i))"
proof -
  have "ref_ok (handed (trace w)) (snd (run_state mm_stream_reg_buf w))"
    using wp_snd [OF reg_buf_ok [OF assms(1)]] .
  then have "ref_ok g w'" using ref_run_ok [OF assms(2)] by simp
  then obtain xs where xs: "buf_status (strm w') = Some xs"
    "\<forall>j < length xs. buf_ok (handed (trace w') j) (g j) (pending (strm w') j) (xs ! j)"
    by (auto simp: ref_ok_def shape_def)
  then have "buf_ok (handed (trace w') i) (g i) (pending (strm w') i) (xs ! i)" using assms(3) by simp
  then show ?thesis using assms(4) by (auto simp: buf_ok_def xs(1))
qed

text \<open>A stream with one buffer, which its client keeps at the registration.\<close>

definition kept_stream :: mm_stream where
  "kept_stream = stream0\<lparr>s_state := MM_STREAM_STATE_BUFFED, buf_num := 1,
     bufs := Some [\<lparr>b_stream_id = 257, b_stream_type = CAM_STREAM_TYPE_PREVIEW, buf_idx = 0\<rparr>],
     buf_status := Some [\<lparr>buf_refcnt = 0, initial_reg_flag = False, in_kernel = False\<rparr>]\<rparr>"

theorem held_buffer_not_in_kernel_witness:
  "\<exists>w'. w' = snd (run_state mm_stream_reg_buf (sw0 kept_stream)) \<and> handed (trace w') 0 = 1 \<and>
     \<not> in_kernel (the (buf_status (strm w')) ! 0)"
proof -
  let ?w = "sw0 kept_stream" let ?w' = "snd (run_state mm_stream_reg_buf ?w)"
  have f: "fresh_bufs (strm ?w)"
    by (simp add: fresh_bufs_def sw0_def kept_stream_def stream0_def added_stream_def no_stream_def MM_CAMERA_STREAM_BUF_CB_MAX_def)
  have h: "handed (trace ?w) 0 = 0" by code_simp
  have r: "handed (trace ?w') 0 = 1 \<and> length (the (buf_status (strm ?w'))) = 1" by code_simp
  show ?thesis
    using held_buffer_not_in_kernel [OF f rtranclp.rtrancl_refl, of 0] r h by simp
qed

text \<open>
  A preview frame that is skipped after a snapshot, of a bundled stream without a callback, goes
  to the channel and back to the kernel at the same time: the one reference was the channel's, and
  skipping drops it.
\<close>

theorem skipped_preview_loses_reference:
  assumes "s_state (strm w) = MM_STREAM_STATE_ACTIVE" and "is_bundled (strm w)" and "s_ch_obj (strm w) = Some c"
    and "\<not> is_linked (strm w)" and "\<not> has_cb (strm w)"
    and "map_option si_type (stream_info (strm w)) = Some CAM_STREAM_TYPE_PREVIEW" and "skip_cnt w \<noteq> 0"
    and "\<not> clean_invalidate_buf (mem_vtbl (strm w))" and "\<not> invalidate_buf (mem_vtbl (strm w))"
    and "rets w = []" and "mems w = []" and "frames w = [(idx, seq)]" and "trace w = []"
    and "buf_status (strm w) = Some xs" and "unat idx < length xs" and "buf_refcnt (xs ! unat idx) = 0"
    and "bufs (strm w) = Some bs" and "length bs = length xs"
  shows "\<exists>w'. w' = snd (run_state mm_stream_data_notify w) \<and> in_kernel (the (buf_status (strm w')) ! unat idx) \<and>
    (\<exists>b. ToChannel b \<in> set (trace w') \<and> map_option buf_idx (bi_buf b) = Some idx)"
proof -
  have "wp mm_stream_data_notify (\<lambda>_ w'. in_kernel (the (buf_status (strm w')) ! unat idx) \<and>
    (\<exists>b. ToChannel b \<in> set (trace w') \<and> map_option buf_idx (bi_buf b) = Some idx)) w"
    using assms
    by (simp add: mm_stream_data_notify_def mm_stream_read_msm_frame_def ask_frame_def
      mm_stream_handle_rcvd_buf_def mm_stream_notify_channel_def mm_stream_buf_done_def mm_stream_qbuf_def
      wp_simps wp_ask_nil wp_mem_nil status_at_def)
  then show ?thesis by (simp add: wp_run)
qed

definition skipping :: sw where
  "skipping = (sw0 (kept_stream\<lparr>s_state := MM_STREAM_STATE_ACTIVE, is_bundled := True,
       buf_status := Some [\<lparr>buf_refcnt = 0, initial_reg_flag = True, in_kernel = True\<rparr>]\<rparr>))
     \<lparr>skip_cnt := 3, frames := [(0, 12)]\<rparr>"

theorem skipped_preview_loses_reference_witness:
  "in_kernel (the (buf_status (strm (snd (run_state mm_stream_data_notify skipping)))) ! 0)"
proof -
  have h: "s_state (strm skipping) = MM_STREAM_STATE_ACTIVE \<and> is_bundled (strm skipping) \<and> s_ch_obj (strm skipping) = Some 0 \<and>
    \<not> is_linked (strm skipping) \<and> \<not> has_cb (strm skipping) \<and>
    map_option si_type (stream_info (strm skipping)) = Some CAM_STREAM_TYPE_PREVIEW \<and> skip_cnt skipping \<noteq> 0 \<and>
    \<not> clean_invalidate_buf (mem_vtbl (strm skipping)) \<and> \<not> invalidate_buf (mem_vtbl (strm skipping)) \<and>
    rets skipping = [] \<and> mems skipping = [] \<and> frames skipping = [(0, 12)] \<and> trace skipping = [] \<and>
    buf_status (strm skipping) = Some [\<lparr>buf_refcnt = 0, initial_reg_flag = True, in_kernel = True\<rparr>] \<and>
    bufs (strm skipping) = Some [\<lparr>b_stream_id = 257, b_stream_type = CAM_STREAM_TYPE_PREVIEW, buf_idx = 0\<rparr>]"
    by (simp add: skipping_def sw0_def kept_stream_def stream0_def added_stream_def no_stream_def vga_def has_cb_def
      no_cb_def list_ex_iff MM_CAMERA_STREAM_BUF_CB_MAX_def)
  show ?thesis using skipped_preview_loses_reference [of skipping 0 0 12] h by simp
qed

section \<open>Superbuffers\<close>

text \<open>
  C19: matching loses no buffer and invents none: after a frame is added, the buffers in the queue and
  the ones given back to their streams are together the ones that were in the queue and the new one,
  provided the frame's slot was free.
\<close>

theorem matching_conserves_buffers:
  assumes "wf_sbq q" and "good_frame q i b" and "slot_free q i b" and "bi_buf b = Some d"
    and "superbuf_comp (\<lambda>d s. s + {#d#}) mem i b (q, led, {#}) = (q', led', returned)"
  shows "returned + queued (que q') = queued (que q) + {#d#} \<and> wf_sbq q'"
proof -
  obtain rel where r: "returned = fold (\<lambda>d s. s + {#d#}) rel {#}" "mset rel + queued (que q') = queued (que q) + {#d#}"
    using superbuf_comp_conserves [OF assms] by (auto simp: conserves_def)
  have "fold (\<lambda>d s. s + {#d#}) rel m = m + mset rel" for m :: "mm_camera_buf_def multiset"
    by (induction rel arbitrary: m) auto
  moreover have "wf_sbq q'" using superbuf_comp_wf [OF assms(1,2), of "\<lambda>d s. s + {#d#}" mem led "{#}"] assms(5) by simp
  ultimately show ?thesis using r by simp
qed

definition buf_a :: mm_camera_buf_info where
  "buf_a = \<lparr>bi_stream_id = 257, bi_frame_idx = 5,
     bi_buf = Some \<lparr>b_stream_id = 257, b_stream_type = CAM_STREAM_TYPE_PREVIEW, buf_idx = 0\<rparr>\<rparr>"
definition buf_b :: mm_camera_buf_info where
  "buf_b = \<lparr>bi_stream_id = 513, bi_frame_idx = 5,
     bi_buf = Some \<lparr>b_stream_id = 513, b_stream_type = CAM_STREAM_TYPE_SNAPSHOT, buf_idx = 3\<rparr>\<rparr>"

text \<open>Two streams are bundled, and the frame 5 of the first has come.\<close>

definition half :: mm_channel_queue_node where
  "half = \<lparr>num_of_bufs = 2, super_buf = [buf_a, no_buf, no_buf, no_buf], matched = False, n_frame_idx = 5\<rparr>"

definition half_queue :: mm_channel_queue where
  "half_queue = zero_queue\<lparr>que := [half], que_size := 1, num_streams := 2, bundled_streams := [257, 513, 0, 0],
     attr := (attr zero_queue)\<lparr>look_back := 2, water_mark := 3, max_unmatched_frames := 4\<rparr>\<rparr>"

lemma half_wf: "wf_sbq half_queue" and half_good: "good_frame half_queue 1 buf_b" "slot_free half_queue 1 buf_b"
proof -
  have "wf_parts half_queue [] [half]"
    by (simp add: wf_parts_def split_at_def half_queue_def half_def zero_queue_def node_ok_def slots_def buf_a_def no_buf_def
        MAX_STREAM_NUM_IN_BUNDLE_def)
  then show "wf_sbq half_queue" by (auto simp: wf_sbq_def)
qed (simp_all add: good_frame_def slot_free_def half_queue_def half_def buf_b_def slots_def no_buf_def)

theorem matching_conserves_buffers_witness:
  "\<exists>q' led' returned. superbuf_comp (\<lambda>d s. s + {#d#}) True 1 buf_b (half_queue, False, {#}) = (q', led', returned) \<and>
    returned + queued (que q') = queued (que half_queue) + {#the (bi_buf buf_b)#} \<and> wf_sbq q'"
proof -
  obtain q' led' ret where "superbuf_comp (\<lambda>d s. s + {#d#}) True 1 buf_b (half_queue, False, {#}) = (q', led', ret)"
    by (metis prod_cases3)
  then show ?thesis
    using matching_conserves_buffers [OF half_wf half_good, of "the (bi_buf buf_b)" True False] by (simp add: buf_b_def)
qed

text \<open>
  The queue never holds more than one unmatched superbuffer above the limit of its attributes
  (below the 255 the 8-bit count can tell apart), whatever frame comes in.
\<close>

theorem unmatched_stay_bounded:
  assumes "wf_sbq q" and "unat (max_unmatched_frames (attr q)) < 255"
    and "length (filter (\<lambda>sb. \<not> matched sb) (que q)) \<le> Suc (unat (max_unmatched_frames (attr q)))"
  shows "length (filter (\<lambda>sb. \<not> matched sb) (que (fst (superbuf_comp give mem i b (q, led, s))))) \<le>
    Suc (unat (max_unmatched_frames (attr q)))"
  using unmatched_bounded [OF assms(1,2)] assms(3) by (simp add: unmatched_cnt_def)

theorem unmatched_stay_bounded_witness:
  "length (filter (\<lambda>sb. \<not> matched sb) (que (fst (superbuf_comp (\<lambda>_ s. s) True 0 (buf_a\<lparr>bi_frame_idx := 6\<rparr>)
     (half_queue, False, ()))))) \<le> 5"
  using unmatched_stay_bounded [OF half_wf, of "\<lambda>_ s. s" True 0 "buf_a\<lparr>bi_frame_idx := 6\<rparr>" False "()"]
  by (simp add: half_queue_def)

section \<open>The thread of a channel\<close>








section \<open>Starting and stopping a channel\<close>





text \<open>
  After a start that failed, the channel has lost its callback but its streams still count as
  bundled; a retry that succeeds launches no thread, and the first frame of any of them is put into the
  queue of a thread that does not exist (a null pointer).
\<close>

theorem retried_start_crashes:
  assumes "plain c w" and "\<forall>k\<in>set (used c w). st_of c k w = MM_STREAM_STATE_CFG"
    and "super_buf_notify_cb (chan c w) \<noteq> None"
    and "mm_channel_start E c w = Some (rc, w1)" and "rc \<noteq> 0" and "mm_channel_start E c w1 = Some (0, w2)"
    and "k \<in> set (used c w)" and "w_rets w2 = []"
  shows "st_of c k w2 = MM_STREAM_STATE_ACTIVE \<and> frame_arrives (c, k) w2 = None"
proof -
  note a = after_failed_start [OF assms(1-6)]
  then show ?thesis
    using frame_on_dead_channel [of c w2 k] assms(7,8) by (simp add: roomy_chan_def)
qed

definition start_twice :: "int list \<Rightarrow> (int \<times> int \<times> cw) option" where
  "start_twice r = do {
     (rc, w1) \<leftarrow> mm_channel_start env0 0 (cw0\<lparr>w_rets := r\<rparr>);
     (rc2, w2) \<leftarrow> mm_channel_start env0 0 w1;
     Some (rc, rc2, w2) }"

theorem retried_start_crashes_witness:
  "\<exists>w2. start_twice [- 1] = Some (- 1, 0, w2) \<and> frame_arrives (0, 0) w2 = None"
proof -
  have "map_option (\<lambda>(rc, rc2, w2). (rc, rc2, w_rets w2)) (start_twice [- 1]) = Some (- 1, 0, [])" by code_simp
  then obtain w1 w2 where w: "mm_channel_start env0 0 (cw0\<lparr>w_rets := [- 1]\<rparr>) = Some (- 1, w1)"
      "mm_channel_start env0 0 w1 = Some (0, w2)" "w_rets w2 = []"
    by (auto simp: start_twice_def split: bind_splits)
  have "super_buf_notify_cb (chan 0 (cw0\<lparr>w_rets := [- 1]\<rparr>)) \<noteq> None" by (simp add: chan_def cw0_def chan0_def)
  from retried_start_crashes [OF plain0 this w(1) _ w(2) _ w(3), of 0] show ?thesis
    using w by (simp add: start_twice_def used0)
qed



end
