(* ===== verification/MM_Poll.thy ===== *)
theory MM_Poll
  imports MM_Channel
begin

text \<open>
  The poll thread of a channel or a camera (\<open>mm_camera_thread.c\<close>): a table of descriptors with the
  callback to notify, a pipe through which the owner makes the thread look at the table again, and the
  thread's loop over \<open>poll\<close>.
\<close>

section \<open>Data\<close>

datatype mm_camera_poll_thread_type = MM_CAMERA_POLL_TYPE_EVT | MM_CAMERA_POLL_TYPE_DATA

datatype mm_camera_pipe_cmd =
    MM_CAMERA_PIPE_CMD_POLL_ENTRIES_UPDATED
  | MM_CAMERA_PIPE_CMD_POLL_ENTRIES_UPDATED_ASYNC
  | MM_CAMERA_PIPE_CMD_COMMIT
  | MM_CAMERA_PIPE_CMD_EXIT

datatype mm_camera_poll_task_state = MM_CAMERA_POLL_TASK_STATE_STOPPED | MM_CAMERA_POLL_TASK_STATE_POLL

record mm_camera_poll_entry =
  pe_fd :: int
  pe_handler :: "32 word"
  pe_notify_cb :: ptr
  pe_user_data :: ptr

text \<open>The pipe holds the commands written and not yet read; \<open>poll_fds\<close> the first \<open>num_fds\<close> descriptors.\<close>

record mm_camera_poll_thread =
  poll_type :: mm_camera_poll_thread_type
  poll_entries :: "mm_camera_poll_entry list"
  pfd :: int
  pipe_cmds :: "mm_camera_pipe_cmd list"
  poll_fds :: "int list"
  poll_state :: mm_camera_poll_task_state

definition no_entry :: mm_camera_poll_entry where
  "no_entry = \<lparr>pe_fd = 0, pe_handler = 0, pe_notify_cb = None, pe_user_data = None\<rparr>"

definition no_poll_thread :: mm_camera_poll_thread where
  "no_poll_thread = \<lparr>poll_type = MM_CAMERA_POLL_TYPE_EVT, poll_entries = replicate MAX_STREAM_NUM_IN_BUNDLE no_entry,
     pfd = 0, pipe_cmds = [], poll_fds = [], poll_state = MM_CAMERA_POLL_TASK_STATE_STOPPED\<rparr>"

definition get_index_by_handler :: "32 word \<Rightarrow> nat" where
  "get_index_by_handler handler = unat (and handler 255)"

section \<open>The thread\<close>

text \<open>
  The thread reads one command from the pipe. A data thread keeps one place per stream, -1 for those
  without a descriptor, so that a place tells the entry.
\<close>

definition poll_table :: "mm_camera_poll_thread \<Rightarrow> int list" where
  "poll_table p = pfd p #
     (case poll_type p of
        MM_CAMERA_POLL_TYPE_EVT \<Rightarrow>
          (if 0 < pe_fd (poll_entries p ! 0) then [pe_fd (poll_entries p ! 0)] else [])
      | MM_CAMERA_POLL_TYPE_DATA \<Rightarrow>
          map (\<lambda>i. if 0 < pe_fd (poll_entries p ! i) then pe_fd (poll_entries p ! i) else - 1)
            [0..<MAX_STREAM_NUM_IN_BUNDLE])"

definition mm_camera_poll_proc_pipe :: "mm_camera_poll_thread \<Rightarrow> mm_camera_poll_thread" where
  "mm_camera_poll_proc_pipe p =
     (case pipe_cmds p of
        [] \<Rightarrow> p
      | cmd # cmds \<Rightarrow>
          (let p = p\<lparr>pipe_cmds := cmds\<rparr>
           in case cmd of
                MM_CAMERA_PIPE_CMD_POLL_ENTRIES_UPDATED \<Rightarrow> p\<lparr>poll_fds := poll_table p\<rparr>
              | MM_CAMERA_PIPE_CMD_POLL_ENTRIES_UPDATED_ASYNC \<Rightarrow> p\<lparr>poll_fds := poll_table p\<rparr>
              | MM_CAMERA_PIPE_CMD_COMMIT \<Rightarrow> p
              | MM_CAMERA_PIPE_CMD_EXIT \<Rightarrow> p\<lparr>poll_state := MM_CAMERA_POLL_TASK_STATE_STOPPED\<rparr>))"

text \<open>What \<open>poll\<close> reports for a place; nothing for a negative descriptor.\<close>

record revents =
  POLLIN :: bool
  POLLRDNORM :: bool
  POLLPRI :: bool

text \<open>
  One iteration: with a command on the pipe only the pipe is looked at, else every ready place notifies
  the callback of its entry. The result is the callbacks called, with their data.
\<close>

definition place_ready :: "mm_camera_poll_thread \<Rightarrow> (nat \<Rightarrow> revents) \<Rightarrow> nat \<Rightarrow> bool" where
  "place_ready p revs i = (0 \<le> poll_fds p ! i \<and>
     (case poll_type p of
        MM_CAMERA_POLL_TYPE_EVT \<Rightarrow> POLLPRI (revs i)
      | MM_CAMERA_POLL_TYPE_DATA \<Rightarrow> POLLIN (revs i) \<and> POLLRDNORM (revs i)))"

definition callback :: "mm_camera_poll_entry \<Rightarrow> (nat \<times> ptr) option" where
  "callback e = map_option (\<lambda>f. (f, pe_user_data e)) (pe_notify_cb e)"

definition notified :: "mm_camera_poll_thread \<Rightarrow> (nat \<Rightarrow> revents) \<Rightarrow> (nat \<times> ptr) list" where
  "notified p revs =
     List.map_filter (\<lambda>i. if place_ready p revs i then callback (poll_entries p ! (i - 1)) else None)
       [1..<length (poll_fds p)]"

definition mm_camera_poll_fn :: "(nat \<Rightarrow> revents) \<Rightarrow> mm_camera_poll_thread \<Rightarrow> (nat \<times> ptr) list \<times> mm_camera_poll_thread" where
  "mm_camera_poll_fn revs p =
     (if POLLIN (revs 0) \<and> POLLRDNORM (revs 0) then ([], mm_camera_poll_proc_pipe p)
      else (notified p revs, p))"

section \<open>Its owner\<close>

text \<open>
  A synchronous command waits until the thread has read it, after the ones that were in the pipe; the
  thread is stopped by an exit command and reads nothing more. \<open>wr\<close> tells whether the pipe was
  written; if not nobody waits.
\<close>

fun read_all :: "nat \<Rightarrow> mm_camera_poll_thread \<Rightarrow> mm_camera_poll_thread option" where
  "read_all 0 p = Some p"
| "read_all (Suc n) p =
     (if poll_state p = MM_CAMERA_POLL_TASK_STATE_STOPPED then None else read_all n (mm_camera_poll_proc_pipe p))"

definition mm_camera_poll_sig :: "bool \<Rightarrow> mm_camera_pipe_cmd \<Rightarrow> mm_camera_poll_thread \<Rightarrow>
    (int \<times> mm_camera_poll_thread) option" where
  "mm_camera_poll_sig wr cmd p =
     (if \<not> wr then Some (0, p)
      else map_option (Pair 0) (read_all (Suc (length (pipe_cmds p))) (p\<lparr>pipe_cmds := pipe_cmds p @ [cmd]\<rparr>)))"

definition mm_camera_poll_sig_async :: "bool \<Rightarrow> mm_camera_pipe_cmd \<Rightarrow> mm_camera_poll_thread \<Rightarrow>
    int \<times> mm_camera_poll_thread" where
  "mm_camera_poll_sig_async wr cmd p = (0, if wr then p\<lparr>pipe_cmds := pipe_cmds p @ [cmd]\<rparr> else p)"

definition poll_thread_notify_entries_updated :: "bool \<Rightarrow> mm_camera_poll_thread \<Rightarrow> (int \<times> mm_camera_poll_thread) option" where
  "poll_thread_notify_entries_updated wr = mm_camera_poll_sig wr MM_CAMERA_PIPE_CMD_POLL_ENTRIES_UPDATED"

definition poll_thread_commit_updates :: "bool \<Rightarrow> mm_camera_poll_thread \<Rightarrow> (int \<times> mm_camera_poll_thread) option" where
  "poll_thread_commit_updates wr = mm_camera_poll_sig wr MM_CAMERA_PIPE_CMD_COMMIT"

definition entries_updated :: "bool \<Rightarrow> bool \<Rightarrow> mm_camera_poll_thread \<Rightarrow> (int \<times> mm_camera_poll_thread) option" where
  "entries_updated sync wr p =
     (if sync then mm_camera_poll_sig wr MM_CAMERA_PIPE_CMD_POLL_ENTRIES_UPDATED p
      else Some (mm_camera_poll_sig_async wr MM_CAMERA_PIPE_CMD_POLL_ENTRIES_UPDATED_ASYNC p))"

definition entry_of :: "32 word \<Rightarrow> mm_camera_poll_thread \<Rightarrow> nat" where
  "entry_of handler p =
     (case poll_type p of MM_CAMERA_POLL_TYPE_DATA \<Rightarrow> get_index_by_handler handler | _ \<Rightarrow> 0)"

definition poll_thread_add_poll_fd :: "32 word \<Rightarrow> int \<Rightarrow> ptr \<Rightarrow> ptr \<Rightarrow> bool \<Rightarrow> bool \<Rightarrow> mm_camera_poll_thread \<Rightarrow>
    (int \<times> mm_camera_poll_thread) option" where
  "poll_thread_add_poll_fd handler d f user sync wr p =
     (let idx = entry_of handler p in
      if idx < MAX_STREAM_NUM_IN_BUNDLE
      then entries_updated sync wr (p\<lparr>poll_entries := (poll_entries p)[idx :=
             \<lparr>pe_fd = d, pe_handler = handler, pe_notify_cb = f, pe_user_data = user\<rparr>]\<rparr>)
      else Some (- 1, p))"

definition poll_thread_del_poll_fd :: "32 word \<Rightarrow> bool \<Rightarrow> bool \<Rightarrow> mm_camera_poll_thread \<Rightarrow>
    (int \<times> mm_camera_poll_thread) option" where
  "poll_thread_del_poll_fd handler sync wr p =
     (let idx = entry_of handler p in
      if idx < MAX_STREAM_NUM_IN_BUNDLE \<and> handler = pe_handler (poll_entries p ! idx)
      then entries_updated sync wr (p\<lparr>poll_entries := (poll_entries p)[idx :=
             (poll_entries p ! idx)\<lparr>pe_fd := - 1, pe_handler := 0, pe_notify_cb := None\<rparr>]\<rparr>)
      else Some (- 1, p))"

text \<open>\<open>pfd\<close> is the read end of the new pipe, negative when there is none.\<close>

definition poll_thread_launch :: "int \<Rightarrow> mm_camera_poll_thread_type \<Rightarrow> mm_camera_poll_thread \<Rightarrow> int \<times> mm_camera_poll_thread" where
  "poll_thread_launch d t p =
     (if d < 0 then (- 1, p\<lparr>poll_type := t, pfd := 0\<rparr>)
      else (0, p\<lparr>poll_type := t, pfd := d, pipe_cmds := [], poll_fds := poll_fds p @ [d],
                 poll_state := MM_CAMERA_POLL_TASK_STATE_POLL\<rparr>))"

definition poll_thread_release :: "bool \<Rightarrow> mm_camera_poll_thread \<Rightarrow> (int \<times> mm_camera_poll_thread) option" where
  "poll_thread_release wr p =
     (if poll_state p = MM_CAMERA_POLL_TASK_STATE_STOPPED then Some (0, p)
      else
        (case mm_camera_poll_sig wr MM_CAMERA_PIPE_CMD_EXIT p of
           None \<Rightarrow> None
         | Some (_, p) \<Rightarrow> if poll_state p = MM_CAMERA_POLL_TASK_STATE_STOPPED then Some (0, no_poll_thread) else None))"

section \<open>Laws\<close>

text \<open>
  Between the owner's operations: as many entries as streams, an idle pipe, a table that is the one of
  the entries.
\<close>

definition in_step :: "mm_camera_poll_thread \<Rightarrow> bool" where
  "in_step p \<longleftrightarrow> length (poll_entries p) = MAX_STREAM_NUM_IN_BUNDLE \<and>
     poll_state p = MM_CAMERA_POLL_TASK_STATE_POLL \<and> poll_fds p = poll_table p"

text \<open>Commands an owner leaves in the pipe: those it does not wait for.\<close>

definition only_async :: "mm_camera_poll_thread \<Rightarrow> bool" where
  "only_async p \<longleftrightarrow> set (pipe_cmds p) \<subseteq> {MM_CAMERA_PIPE_CMD_POLL_ENTRIES_UPDATED_ASYNC}"

lemma poll_table_frame [simp]:
  "poll_table (p\<lparr>pipe_cmds := c\<rparr>) = poll_table p"
  "poll_table (p\<lparr>poll_fds := t\<rparr>) = poll_table p"
  "poll_table (p\<lparr>poll_state := st\<rparr>) = poll_table p"
  by (cases "poll_type p"; simp add: poll_table_def)+

lemma read_all_async:
  "poll_state p = MM_CAMERA_POLL_TASK_STATE_POLL \<Longrightarrow>
   set cs \<subseteq> {MM_CAMERA_PIPE_CMD_POLL_ENTRIES_UPDATED_ASYNC} \<Longrightarrow>
   read_all (Suc (length cs)) (p\<lparr>pipe_cmds := cs @ [cmd]\<rparr>) =
     Some (case cmd of
        MM_CAMERA_PIPE_CMD_EXIT \<Rightarrow> p\<lparr>pipe_cmds := [], poll_fds := (if cs = [] then poll_fds p else poll_table p),
                                      poll_state := MM_CAMERA_POLL_TASK_STATE_STOPPED\<rparr>
      | MM_CAMERA_PIPE_CMD_COMMIT \<Rightarrow> p\<lparr>pipe_cmds := [], poll_fds := (if cs = [] then poll_fds p else poll_table p)\<rparr>
      | _ \<Rightarrow> p\<lparr>pipe_cmds := [], poll_fds := poll_table p\<rparr>)"
proof (induction cs arbitrary: p)
  case Nil
  then show ?case
    by (auto simp: mm_camera_poll_proc_pipe_def split: mm_camera_pipe_cmd.splits)
next
  case (Cons c cs)
  let ?q = "p\<lparr>poll_fds := poll_table p\<rparr>"
  have "mm_camera_poll_proc_pipe (p\<lparr>pipe_cmds := (c # cs) @ [cmd]\<rparr>) = ?q\<lparr>pipe_cmds := cs @ [cmd]\<rparr>"
    using Cons.prems by (simp add: mm_camera_poll_proc_pipe_def)
  moreover have "read_all (Suc (length cs)) (?q\<lparr>pipe_cmds := cs @ [cmd]\<rparr>) =
     Some (case cmd of
        MM_CAMERA_PIPE_CMD_EXIT \<Rightarrow> ?q\<lparr>pipe_cmds := [], poll_fds := (if cs = [] then poll_fds ?q else poll_table ?q),
                                      poll_state := MM_CAMERA_POLL_TASK_STATE_STOPPED\<rparr>
      | MM_CAMERA_PIPE_CMD_COMMIT \<Rightarrow> ?q\<lparr>pipe_cmds := [], poll_fds := (if cs = [] then poll_fds ?q else poll_table ?q)\<rparr>
      | _ \<Rightarrow> ?q\<lparr>pipe_cmds := [], poll_fds := poll_table ?q\<rparr>)"
    by (rule Cons.IH) (use Cons.prems in auto)
  ultimately show ?case
    using Cons.prems by (simp del: read_all.simps(2) add: read_all.simps(2)[of "Suc (length cs)"]
        split: mm_camera_pipe_cmd.split)
qed

lemmas poll_ops = entries_updated_def mm_camera_poll_sig_def mm_camera_poll_sig_async_def

lemma entries_updated_sync:
  "poll_state p = MM_CAMERA_POLL_TASK_STATE_POLL \<Longrightarrow> only_async p \<Longrightarrow>
   entries_updated True True p = Some (0, p\<lparr>pipe_cmds := [], poll_fds := poll_table p\<rparr>)"
  using read_all_async[of p "pipe_cmds p" MM_CAMERA_PIPE_CMD_POLL_ENTRIES_UPDATED]
  by (simp add: poll_ops only_async_def)

lemma commit_updates_in_step:
  assumes "poll_state p = MM_CAMERA_POLL_TASK_STATE_POLL" "only_async p"
    "poll_fds p = poll_table p \<or> pipe_cmds p \<noteq> []"
  shows "poll_thread_commit_updates True p = Some (0, p\<lparr>pipe_cmds := [], poll_fds := poll_table p\<rparr>)"
  using read_all_async[of p "pipe_cmds p" MM_CAMERA_PIPE_CMD_COMMIT] assms
  by (auto simp: poll_ops poll_thread_commit_updates_def only_async_def)

lemma release_running:
  assumes "poll_state p = MM_CAMERA_POLL_TASK_STATE_POLL" "only_async p"
  shows "poll_thread_release True p = Some (0, no_poll_thread)"
  using read_all_async[of p "pipe_cmds p" MM_CAMERA_PIPE_CMD_EXIT] assms
  by (simp add: poll_ops poll_thread_release_def only_async_def)

section \<open>Owners and the registry\<close>

text \<open>What an owner does with a data thread, and the registry it means to keep.\<close>

datatype poll_op = Add_Fd "32 word" int ptr ptr bool | Del_Fd "32 word" bool

fun poll_do :: "poll_op \<Rightarrow> mm_camera_poll_thread \<Rightarrow> (int \<times> mm_camera_poll_thread) option" where
  "poll_do (Add_Fd h d f u sync) p = poll_thread_add_poll_fd h d f u sync True p"
| "poll_do (Del_Fd h sync) p = poll_thread_del_poll_fd h sync True p"

fun poll_dos :: "poll_op list \<Rightarrow> mm_camera_poll_thread \<Rightarrow> mm_camera_poll_thread option" where
  "poll_dos [] p = Some p"
| "poll_dos (x # xs) p = (case poll_do x p of None \<Rightarrow> None | Some (_, q) \<Rightarrow> poll_dos xs q)"

type_synonym registry = "nat \<Rightarrow> (32 word \<times> int \<times> ptr \<times> ptr) option"

fun reg_do :: "poll_op \<Rightarrow> registry \<Rightarrow> registry" where
  "reg_do (Add_Fd h d f u _) m =
     (if get_index_by_handler h < MAX_STREAM_NUM_IN_BUNDLE then m(get_index_by_handler h \<mapsto> (h, d, f, u)) else m)"
| "reg_do (Del_Fd h _) m =
     (case m (get_index_by_handler h) of
        Some (h', _) \<Rightarrow> if h' = h then m(get_index_by_handler h := None) else m
      | None \<Rightarrow> m)"

definition reg_callback :: "registry \<Rightarrow> (nat \<Rightarrow> revents) \<Rightarrow> nat \<Rightarrow> (nat \<times> ptr) option" where
  "reg_callback m revs i =
     (case m i of
        None \<Rightarrow> None
      | Some (_, d, f, u) \<Rightarrow>
          if 0 < d \<and> POLLIN (revs (Suc i)) \<and> POLLRDNORM (revs (Suc i)) then map_option (\<lambda>g. (g, u)) f else None)"

fun entry_rel :: "mm_camera_poll_entry \<Rightarrow> (32 word \<times> int \<times> ptr \<times> ptr) option \<Rightarrow> bool" where
  "entry_rel e None \<longleftrightarrow> pe_fd e \<le> 0 \<and> pe_notify_cb e = None \<and> pe_handler e = 0"
| "entry_rel e (Some (h, d, f, u)) \<longleftrightarrow> e = \<lparr>pe_fd = d, pe_handler = h, pe_notify_cb = f, pe_user_data = u\<rparr>"

definition follows :: "mm_camera_poll_thread \<Rightarrow> registry \<Rightarrow> bool" where
  "follows p m \<longleftrightarrow> length (poll_entries p) = MAX_STREAM_NUM_IN_BUNDLE \<and>
     poll_state p = MM_CAMERA_POLL_TASK_STATE_POLL \<and> poll_type p = MM_CAMERA_POLL_TYPE_DATA \<and> only_async p \<and>
     (\<forall>i < MAX_STREAM_NUM_IN_BUNDLE. entry_rel (poll_entries p ! i) (m i)) \<and>
     (\<forall>i \<ge> MAX_STREAM_NUM_IN_BUNDLE. m i = None)"

definition table_known :: "mm_camera_poll_thread \<Rightarrow> registry \<Rightarrow> bool" where
  "table_known p m \<longleftrightarrow> pipe_cmds p \<noteq> [] \<or> poll_fds p = poll_table p \<or> m = Map.empty \<and> poll_fds p = [pfd p]"

lemma async_update:
  "entries_updated False True p =
     Some (0, p\<lparr>pipe_cmds := pipe_cmds p @ [MM_CAMERA_PIPE_CMD_POLL_ENTRIES_UPDATED_ASYNC]\<rparr>)"
  by (simp add: poll_ops)

lemma update_follows:
  assumes "follows p m"
  shows "\<exists>q. entries_updated sync True p = Some (0, q) \<and> follows q m \<and> table_known q m \<and> pfd q = pfd p"
proof (cases sync)
  case True
  moreover have "poll_table (p\<lparr>pipe_cmds := [], poll_fds := poll_table p\<rparr>) = poll_table p"
    using poll_table_frame(1)[of "[]" "p\<lparr>poll_fds := poll_table p\<rparr>"] by simp
  ultimately show ?thesis
    using assms by (simp add: entries_updated_sync follows_def table_known_def only_async_def)
next
  case False
  then show ?thesis
    using assms by (auto simp: async_update follows_def table_known_def only_async_def)
qed

lemma set_entry_follows:
  assumes "follows p m" "i < MAX_STREAM_NUM_IN_BUNDLE" "entry_rel e x"
  shows "follows (p\<lparr>poll_entries := (poll_entries p)[i := e]\<rparr>) (m(i := x))"
  using assms by (auto simp: follows_def only_async_def nth_list_update)

lemma poll_do_follows:
  assumes f: "follows p m" and t: "table_known p m"
  shows "\<exists>rc q. poll_do x p = Some (rc, q) \<and> follows q (reg_do x m) \<and> table_known q (reg_do x m) \<and> pfd q = pfd p"
proof -
  have ty: "entry_of h p = get_index_by_handler h" for h
    using f by (simp add: entry_of_def follows_def)
  show ?thesis
  proof (cases x)
    case (Add_Fd h d g u sync)
    let ?i = "get_index_by_handler h"
    show ?thesis
    proof (cases "?i < MAX_STREAM_NUM_IN_BUNDLE")
      case True
      then show ?thesis
        using update_follows[OF set_entry_follows[OF f True, of
              "\<lparr>pe_fd = d, pe_handler = h, pe_notify_cb = g, pe_user_data = u\<rparr>" "Some (h, d, g, u)"], of sync]
        by (auto simp: Add_Fd poll_thread_add_poll_fd_def ty)
    qed (use f t in \<open>simp add: Add_Fd poll_thread_add_poll_fd_def ty\<close>)
  next
    case (Del_Fd h sync)
    let ?i = "get_index_by_handler h"
    let ?e = "poll_entries p ! ?i"
    show ?thesis
    proof (cases "?i < MAX_STREAM_NUM_IN_BUNDLE \<and> h = pe_handler ?e")
      case True
      then have "entry_rel ?e (m ?i)"
        using f by (simp add: follows_def)
      then have "reg_do x m = m(?i := None)"
        using True by (auto simp: Del_Fd split: option.splits)
      then show ?thesis
        using update_follows[OF set_entry_follows[OF f, of ?i
              "?e\<lparr>pe_fd := - 1, pe_handler := 0, pe_notify_cb := None\<rparr>" None], of sync] True
        by (auto simp: Del_Fd poll_thread_del_poll_fd_def ty)
    next
      case False
      have "?i < MAX_STREAM_NUM_IN_BUNDLE \<Longrightarrow> entry_rel ?e (m ?i)"
        and "\<not> ?i < MAX_STREAM_NUM_IN_BUNDLE \<Longrightarrow> m ?i = None"
        using f by (simp_all add: follows_def)
      then have "reg_do x m = m"
        using False by (cases "?i < MAX_STREAM_NUM_IN_BUNDLE") (auto simp: Del_Fd split: option.splits)
      then show ?thesis
        using f t False by (auto simp: Del_Fd poll_thread_del_poll_fd_def ty)
    qed
  qed
qed

lemma poll_dos_follow:
  "follows p m \<Longrightarrow> table_known p m \<Longrightarrow>
   \<exists>q. poll_dos xs p = Some q \<and> follows q (fold reg_do xs m) \<and> table_known q (fold reg_do xs m)"
proof (induction xs arbitrary: p m)
  case (Cons x xs)
  then show ?case
    using poll_do_follows[OF Cons.prems, of x] by fastforce
qed auto

lemma launched_follows:
  assumes "0 \<le> r"
  shows "follows (snd (poll_thread_launch r MM_CAMERA_POLL_TYPE_DATA no_poll_thread)) Map.empty"
    and "table_known (snd (poll_thread_launch r MM_CAMERA_POLL_TYPE_DATA no_poll_thread)) Map.empty"
  using assms
  by (auto simp: poll_thread_launch_def no_poll_thread_def follows_def table_known_def only_async_def no_entry_def)

lemma commit_follows:
  assumes f: "follows p m" and t: "table_known p m"
  shows "\<exists>q. poll_thread_commit_updates True p = Some (0, q) \<and> follows q m \<and>
    (poll_fds q = poll_table q \<or> m = Map.empty \<and> poll_fds q = [pfd q])"
proof (cases "pipe_cmds p = []")
  case True
  then show ?thesis
    using f t read_all_async[of p "[]" MM_CAMERA_PIPE_CMD_COMMIT]
    by (auto simp: poll_ops poll_thread_commit_updates_def table_known_def follows_def only_async_def)
next
  case False
  have "poll_table (p\<lparr>pipe_cmds := [], poll_fds := poll_table p\<rparr>) = poll_table p"
    using poll_table_frame(1)[of "[]" "p\<lparr>poll_fds := poll_table p\<rparr>"] by simp
  then show ?thesis
    using f False commit_updates_in_step[of p] by (auto simp: follows_def only_async_def)
qed

lemma map_filter_Suc: "List.map_filter f [1..<Suc n] = List.map_filter (\<lambda>i. f (Suc i)) [0..<n]"
  by (simp add: List.map_filter_def map_Suc_upt[symmetric] filter_map o_def del: upt_Suc)

lemma map_filter_eq:
  "(\<And>x. x \<in> set xs \<Longrightarrow> f x = g x) \<Longrightarrow> List.map_filter f xs = List.map_filter g xs"
  by (induction xs) (auto simp: List.map_filter_simps split: option.split)

lemma notified_registry:
  assumes f: "follows p m" and t: "poll_fds p = poll_table p \<or> m = Map.empty \<and> poll_fds p = [pfd p]"
  shows "notified p revs = List.map_filter (reg_callback m revs) [0..<MAX_STREAM_NUM_IN_BUNDLE]"
proof (cases "m = Map.empty \<and> poll_fds p = [pfd p]")
  case True
  then show ?thesis
    by (simp add: notified_def reg_callback_def List.map_filter_def)
next
  case False
  then have tab: "poll_fds p = poll_table p"
    using t by blast
  have len: "length (poll_fds p) = Suc MAX_STREAM_NUM_IN_BUNDLE"
    using f by (simp add: tab poll_table_def follows_def)
  have "(if place_ready p revs (Suc i) then callback (poll_entries p ! i) else None) = reg_callback m revs i"
    if "i < MAX_STREAM_NUM_IN_BUNDLE" for i
  proof -
    have "entry_rel (poll_entries p ! i) (m i)"
      using f that by (simp add: follows_def)
    then show ?thesis
      using f that
      by (cases "m i") (auto simp: place_ready_def tab poll_table_def follows_def callback_def reg_callback_def)
  qed
  then show ?thesis
    unfolding notified_def len map_filter_Suc diff_Suc_1 by (rule map_filter_eq) simp
qed

text \<open>
  C7: the poll thread of a channel serves the streams its owner has registered. After any sequence
  of additions and removals of descriptors, waited for or not, a commit returns and brings the table
  up to date: each stream registered last in its place, with a descriptor, and no other, has its
  callback called with its data when its descriptor is ready, once, in the order of the streams; the
  thread then exits when it is released.
\<close>

theorem poll_thread_serves_registry:
  assumes "0 \<le> r"
  shows "\<exists>p q. poll_dos xs (snd (poll_thread_launch r MM_CAMERA_POLL_TYPE_DATA no_poll_thread)) = Some p \<and>
    poll_thread_commit_updates True p = Some (0, q) \<and>
    notified q revs =
      List.map_filter (reg_callback (fold reg_do xs Map.empty) revs) [0..<MAX_STREAM_NUM_IN_BUNDLE] \<and>
    poll_thread_release True q = Some (0, no_poll_thread)"
proof -
  obtain p where p: "poll_dos xs (snd (poll_thread_launch r MM_CAMERA_POLL_TYPE_DATA no_poll_thread)) = Some p"
      "follows p (fold reg_do xs Map.empty)" "table_known p (fold reg_do xs Map.empty)"
    using poll_dos_follow[OF launched_follows[OF assms], of xs] by blast
  then obtain q where q: "poll_thread_commit_updates True p = Some (0, q)" "follows q (fold reg_do xs Map.empty)"
      "poll_fds q = poll_table q \<or> fold reg_do xs Map.empty = Map.empty \<and> poll_fds q = [pfd q]"
    using commit_follows by blast
  then show ?thesis
    using p(1) notified_registry[OF q(2,3)] release_running[of q] by (simp add: follows_def)
qed

theorem poll_thread_serves_registry_witness:
  "\<exists>p q. poll_dos [Add_Fd 0x100 20 (Some 1) (Some 5) False, Add_Fd 0x201 21 (Some 1) (Some 6) True, Del_Fd 0x100 False]
        (snd (poll_thread_launch 9 MM_CAMERA_POLL_TYPE_DATA no_poll_thread)) = Some p \<and>
    poll_thread_commit_updates True p = Some (0, q) \<and>
    notified q (\<lambda>_. \<lparr>POLLIN = True, POLLRDNORM = True, POLLPRI = False\<rparr>) = [(1, Some 6)] \<and>
    poll_thread_release True q = Some (0, no_poll_thread)"
proof -
  let ?xs = "[Add_Fd 0x100 20 (Some 1) (Some 5) False, Add_Fd 0x201 21 (Some 1) (Some 6) True, Del_Fd 0x100 False]"
  let ?r = "\<lambda>_. \<lparr>POLLIN = True, POLLRDNORM = True, POLLPRI = False\<rparr>"
  have "List.map_filter (reg_callback (fold reg_do ?xs Map.empty) ?r) [0..<MAX_STREAM_NUM_IN_BUNDLE] = [(1, Some 6)]"
    by code_simp
  then show ?thesis
    using poll_thread_serves_registry[of 9 ?xs ?r] by simp
qed

end
