(* ===== verification/MM_Camera.thy ===== *)
theory MM_Camera
  imports MM_Poll
begin

text \<open>
  The camera object (\<open>mm_camera.c\<close>) and the entry points of the library
  (\<open>mm_camera_interface.c\<close>): a table of open cameras, each with a count of its users, its descriptors,
  its event callbacks, its event thread and poll thread, and up to sixteen channels. An operation looks
  the camera up by its handle and then the channel by its own.

  What the kernel and the camera daemon answer is an argument of an operation. As for channels,
  \<^term>\<open>None\<close> is the result of an operation that does not return.
\<close>

section \<open>Data\<close>

definition MM_CAMERA_CHANNEL_MAX :: nat where "MM_CAMERA_CHANNEL_MAX = 16"
definition MM_CAMERA_EVT_ENTRY_MAX :: nat where "MM_CAMERA_EVT_ENTRY_MAX = 4"
definition MM_CAMERA_DEV_OPEN_TRIES :: nat where "MM_CAMERA_DEV_OPEN_TRIES = 2"

record mm_camera_evt_entry =
  ee_cb :: ptr
  ee_user_data :: ptr

text \<open>The events passed to the application.\<close>

datatype mm_camera_event =
    CAM_EVENT_TYPE_REPROCESS_STAGE_DONE
  | CAM_EVENT_TYPE_INT_TAKE_PIC
  | CAM_EVENT_TYPE_DAEMON_DIED

datatype msm_camera_status = MSM_CAMERA_STATUS_SUCCESS | MSM_CAMERA_STATUS_FAIL | Other_status "32 word"

text \<open>The event read from the kernel; a failed read is also \<open>Other_event\<close>.\<close>

datatype msm_v4l2_event =
    Map_unmap_done msm_camera_status
  | Reprocess_stage_done
  | Int_take_pic
  | Priv_shutdown
  | Other_event

text \<open>
  \<open>evt_rcvd\<close> is the status of a mapping that has been answered and not yet looked at; \<open>evt_queue\<close> the
  queue of the event thread, \<^term>\<open>None\<close> when it is not running.
\<close>

record mm_camera_obj =
  cam_hdl :: "32 word"
  ref_count :: int
  ctrl_fd :: int
  ds_fd :: int
  cam_chans :: "mm_channel list"
  evt_entries :: "mm_camera_evt_entry list"
  reg_count :: int
  evt_poll_thread :: mm_camera_poll_thread
  evt_queue :: "mm_camera_event list option"
  evt_rcvd :: "msm_camera_status option"

definition no_channel :: mm_channel where
  "no_channel =
     \<lparr>ch_hdl = 0, ch_state = MM_CHANNEL_STATE_NOTUSED, bundle_active = False, superbuf_queue = zero_queue,
      super_buf_notify_cb = None, pending_cnt = 0, ch_cmds = None, ch_cbs = None,
      streams = replicate MAX_STREAM_NUM_IN_BUNDLE no_stream, manualZSLSnapshot = False,
      startZSlSnapshotCalled = False, needLEDFlash = False, previewSkipCnt = 0,
      bracketingState = MM_CHANNEL_BRACKETING_STATE_OFF, isFlashBracketingEnabled = False,
      isZoom1xFrameRequested = False\<rparr>"

definition no_evt_entry :: mm_camera_evt_entry where
  "no_evt_entry = \<lparr>ee_cb = None, ee_user_data = None\<rparr>"

definition new_camera :: "32 word \<Rightarrow> mm_camera_obj" where
  "new_camera h =
     \<lparr>cam_hdl = h, ref_count = 1, ctrl_fd = 0, ds_fd = 0,
      cam_chans = replicate MM_CAMERA_CHANNEL_MAX no_channel,
      evt_entries = replicate MM_CAMERA_EVT_ENTRY_MAX no_evt_entry, reg_count = 0,
      evt_poll_thread = no_poll_thread, evt_queue = None, evt_rcvd = None\<rparr>"

section \<open>Events\<close>

text \<open>The callbacks called for an event: function, camera, event and data of each.\<close>

definition mm_camera_dispatch_app_event :: "mm_camera_obj \<Rightarrow> mm_camera_event \<Rightarrow>
    (nat \<times> 32 word \<times> mm_camera_event \<times> ptr) list" where
  "mm_camera_dispatch_app_event ob e =
     List.map_filter (\<lambda>x. map_option (\<lambda>f. (f, cam_hdl ob, e, ee_user_data x)) (ee_cb x)) (evt_entries ob)"

definition mm_camera_enqueue_evt :: "bool \<Rightarrow> mm_camera_event \<Rightarrow> mm_camera_obj \<Rightarrow> (int \<times> mm_camera_obj) option" where
  "mm_camera_enqueue_evt mem e ob =
     (if mem then map_option (\<lambda>q. (0, ob\<lparr>evt_queue := Some (q @ [e])\<rparr>)) (evt_queue ob) else Some (- 1, ob))"

definition mm_camera_event_notify :: "bool \<Rightarrow> msm_v4l2_event \<Rightarrow> mm_camera_obj \<Rightarrow> mm_camera_obj option" where
  "mm_camera_event_notify mem ev ob =
     (case ev of
        Map_unmap_done st \<Rightarrow> Some (ob\<lparr>evt_rcvd := Some st\<rparr>)
      | Reprocess_stage_done \<Rightarrow> map_option snd (mm_camera_enqueue_evt mem CAM_EVENT_TYPE_REPROCESS_STAGE_DONE ob)
      | Int_take_pic \<Rightarrow> map_option snd (mm_camera_enqueue_evt mem CAM_EVENT_TYPE_INT_TAKE_PIC ob)
      | Priv_shutdown \<Rightarrow> map_option snd (mm_camera_enqueue_evt mem CAM_EVENT_TYPE_DAEMON_DIED ob)
      | Other_event \<Rightarrow> Some ob)"

text \<open>The event thread takes its queue down; the application's calls are the result.\<close>

definition run_evt_thread :: "mm_camera_obj \<Rightarrow> (nat \<times> 32 word \<times> mm_camera_event \<times> ptr) list \<times> mm_camera_obj" where
  "run_evt_thread ob =
     (case evt_queue ob of
        None \<Rightarrow> ([], ob)
      | Some q \<Rightarrow> (concat (map (mm_camera_dispatch_app_event ob) q), ob\<lparr>evt_queue := Some []\<rparr>))"

text \<open>
  A callback is entered in the first place without user data, and taken out at the first place with
  the user data given.
\<close>

definition first_with :: "ptr \<Rightarrow> mm_camera_obj \<Rightarrow> nat option" where
  "first_with u ob = List.find (\<lambda>i. ee_user_data (evt_entries ob ! i) = u) [0..<MM_CAMERA_EVT_ENTRY_MAX]"

definition mm_camera_register_event_notify_internal :: "ptr \<Rightarrow> ptr \<Rightarrow> mm_camera_obj \<Rightarrow> int \<times> mm_camera_obj" where
  "mm_camera_register_event_notify_internal f user ob =
     (if f \<noteq> None then
        (case first_with None ob of
           None \<Rightarrow> (- 1, ob)
         | Some i \<Rightarrow> (0, ob\<lparr>evt_entries := (evt_entries ob)[i := \<lparr>ee_cb = f, ee_user_data = user\<rparr>],
                           reg_count := reg_count ob + 1\<rparr>))
      else
        (case first_with user ob of
           None \<Rightarrow> (- 1, ob)
         | Some i \<Rightarrow> (0, ob\<lparr>evt_entries := (evt_entries ob)[i := no_evt_entry], reg_count := reg_count ob - 1\<rparr>)))"

definition mm_camera_register_event_notify :: "ptr \<Rightarrow> ptr \<Rightarrow> mm_camera_obj \<Rightarrow> int \<times> mm_camera_obj" where
  "mm_camera_register_event_notify f user ob = mm_camera_register_event_notify_internal f user ob"

text \<open>
  The subscription to the kernel's events, whose answer is \<open>io\<close>; the callback of the poll thread is
  \<open>mm_camera_event_notify\<close>, its data the camera.
\<close>

definition EVENT_NOTIFY :: ptr where "EVENT_NOTIFY = Some 1"

definition mm_camera_evt_sub :: "int \<Rightarrow> bool \<Rightarrow> bool \<Rightarrow> mm_camera_obj \<Rightarrow> (int \<times> mm_camera_obj) option" where
  "mm_camera_evt_sub io wr reg_flag ob =
     (if io < 0 then Some (io, ob)
      else map_option (\<lambda>(rc, p). (rc, ob\<lparr>evt_poll_thread := p\<rparr>))
        (if reg_flag
         then poll_thread_add_poll_fd (cam_hdl ob) (ctrl_fd ob) EVENT_NOTIFY (Some (unat (cam_hdl ob))) True wr
                (evt_poll_thread ob)
         else poll_thread_del_poll_fd (cam_hdl ob) True wr (evt_poll_thread ob)))"

section \<open>Controls\<close>

datatype cam_priv =
    CAM_PRIV_PARM
  | CAM_PRIV_DO_AUTO_FOCUS
  | CAM_PRIV_CANCEL_AUTO_FOCUS
  | CAM_PRIV_PREPARE_SNAPSHOT
  | CAM_PRIV_START_ZSL_SNAPSHOT
  | CAM_PRIV_STOP_ZSL_SNAPSHOT

datatype cam_ioctl = S_CTRL int cam_priv int | G_CTRL int cam_priv int | QUERYCAP int

text \<open>An operation on the control descriptor: its result for the kernel's answer \<open>io\<close>, and its call.\<close>

definition mm_camera_util_s_ctrl :: "int \<Rightarrow> int \<Rightarrow> cam_priv \<Rightarrow> int \<Rightarrow> int \<times> cam_ioctl list" where
  "mm_camera_util_s_ctrl io d ctl v = (if 0 \<le> io then 0 else - 1, [S_CTRL d ctl v])"

definition mm_camera_util_g_ctrl :: "int \<Rightarrow> int \<Rightarrow> cam_priv \<Rightarrow> int \<Rightarrow> int \<times> cam_ioctl list" where
  "mm_camera_util_g_ctrl io d ctl v = (if 0 \<le> io then 0 else - 1, [G_CTRL d ctl v])"

definition mm_camera_query_capability :: "int \<Rightarrow> mm_camera_obj \<Rightarrow> int \<times> cam_ioctl list" where
  "mm_camera_query_capability io ob = (io, [QUERYCAP (ctrl_fd ob)])"

definition mm_camera_set_parms :: "int \<Rightarrow> bool \<Rightarrow> mm_camera_obj \<Rightarrow> int \<times> cam_ioctl list" where
  "mm_camera_set_parms io given ob =
     (if given then mm_camera_util_s_ctrl io (ctrl_fd ob) CAM_PRIV_PARM 0 else (- 1, []))"

definition mm_camera_get_parms :: "int \<Rightarrow> bool \<Rightarrow> mm_camera_obj \<Rightarrow> int \<times> cam_ioctl list" where
  "mm_camera_get_parms io given ob =
     (if given then mm_camera_util_g_ctrl io (ctrl_fd ob) CAM_PRIV_PARM 0 else (- 1, []))"

definition mm_camera_do_auto_focus :: "int \<Rightarrow> mm_camera_obj \<Rightarrow> int \<times> cam_ioctl list" where
  "mm_camera_do_auto_focus io ob = mm_camera_util_s_ctrl io (ctrl_fd ob) CAM_PRIV_DO_AUTO_FOCUS 0"

definition mm_camera_cancel_auto_focus :: "int \<Rightarrow> mm_camera_obj \<Rightarrow> int \<times> cam_ioctl list" where
  "mm_camera_cancel_auto_focus io ob = mm_camera_util_s_ctrl io (ctrl_fd ob) CAM_PRIV_CANCEL_AUTO_FOCUS 0"

definition mm_camera_prepare_snapshot :: "int \<Rightarrow> int \<Rightarrow> mm_camera_obj \<Rightarrow> int \<times> cam_ioctl list" where
  "mm_camera_prepare_snapshot io af ob = mm_camera_util_s_ctrl io (ctrl_fd ob) CAM_PRIV_PREPARE_SNAPSHOT af"

definition mm_camera_start_zsl_snapshot :: "int \<Rightarrow> mm_camera_obj \<Rightarrow> int \<times> cam_ioctl list" where
  "mm_camera_start_zsl_snapshot io ob = mm_camera_util_s_ctrl io (ctrl_fd ob) CAM_PRIV_START_ZSL_SNAPSHOT 0"

text \<open>The value given when a ZSL snapshot stops is an uninitialised variable, \<open>junk\<close>.\<close>

definition mm_camera_stop_zsl_snapshot :: "int \<Rightarrow> int \<Rightarrow> mm_camera_obj \<Rightarrow> int \<times> cam_ioctl list" where
  "mm_camera_stop_zsl_snapshot io junk ob = mm_camera_util_s_ctrl io (ctrl_fd ob) CAM_PRIV_STOP_ZSL_SNAPSHOT junk"

section \<open>Mapping buffers\<close>

text \<open>
  A message to the camera daemon and the wait for its answer. \<open>answer\<close> is what arrives while the
  operation waits, \<^term>\<open>None\<close> when it waits in vain for five seconds; \<open>sent\<close> the result of sending.
\<close>

datatype cam_sock_packet = FD_MAPPING cam_mapping_buf_type int nat | FD_UNMAPPING cam_mapping_buf_type

definition mm_camera_util_wait_for_event :: "msm_camera_status option \<Rightarrow> mm_camera_obj \<Rightarrow>
    msm_camera_status \<times> mm_camera_obj" where
  "mm_camera_util_wait_for_event answer ob =
     (case evt_rcvd ob of
        Some st \<Rightarrow> (st, ob\<lparr>evt_rcvd := None\<rparr>)
      | None \<Rightarrow>
          (case answer of
             None \<Rightarrow> (MSM_CAMERA_STATUS_FAIL, ob\<lparr>evt_rcvd := None\<rparr>)
           | Some st \<Rightarrow> (st, ob\<lparr>evt_rcvd := None\<rparr>)))"

definition mm_camera_util_sendmsg :: "int \<Rightarrow> msm_camera_status option \<Rightarrow> mm_camera_obj \<Rightarrow> int \<times> mm_camera_obj" where
  "mm_camera_util_sendmsg sent answer ob =
     (if 0 < sent
      then case mm_camera_util_wait_for_event answer ob of
             (st, ob) \<Rightarrow> (if st = MSM_CAMERA_STATUS_SUCCESS then 0 else - 1, ob)
      else (- 1, ob))"

text \<open>The daemon is a function of the packet and the descriptor sent along: result of sending, answer.\<close>

type_synonym daemon = "cam_sock_packet \<Rightarrow> int \<Rightarrow> int \<times> msm_camera_status option"

definition mm_camera_map_buf :: "daemon \<Rightarrow> cam_mapping_buf_type \<Rightarrow> int \<Rightarrow> nat \<Rightarrow> mm_camera_obj \<Rightarrow> int \<times> mm_camera_obj" where
  "mm_camera_map_buf D t d n ob = (case D (FD_MAPPING t d n) d of (sent, ans) \<Rightarrow> mm_camera_util_sendmsg sent ans ob)"

definition mm_camera_unmap_buf :: "daemon \<Rightarrow> cam_mapping_buf_type \<Rightarrow> mm_camera_obj \<Rightarrow> int \<times> mm_camera_obj" where
  "mm_camera_unmap_buf D t ob = (case D (FD_UNMAPPING t) 0 of (sent, ans) \<Rightarrow> mm_camera_util_sendmsg sent ans ob)"

section \<open>Opening and closing\<close>

text \<open>
  What happens outside while a camera is opened: the descriptor of each attempt and whether it failed
  with \<open>EIO\<close>, the descriptor of each socket, the read end of the pipe, the answer to the subscription
  and whether the pipe can be written.
\<close>

record open_env =
  has_dev_name :: bool
  o_dev :: "nat \<Rightarrow> int \<times> bool"
  o_sock :: "nat \<Rightarrow> int"
  o_pipe :: int
  o_sub :: int
  o_wr :: bool

text \<open>Attempt \<open>k\<close>, with \<open>n\<close> more left after it.\<close>

fun open_dev :: "open_env \<Rightarrow> nat \<Rightarrow> nat \<Rightarrow> int" where
  "open_dev oe k 0 = fst (o_dev oe k)"
| "open_dev oe k (Suc n) =
     (if 0 < fst (o_dev oe k) \<or> \<not> snd (o_dev oe k) then fst (o_dev oe k) else open_dev oe (Suc k) n)"

fun open_sock :: "open_env \<Rightarrow> nat \<Rightarrow> nat \<Rightarrow> int" where
  "open_sock oe k 0 = o_sock oe k"
| "open_sock oe k (Suc n) = (if 0 < o_sock oe k then o_sock oe k else open_sock oe (Suc k) n)"

definition mm_camera_open :: "open_env \<Rightarrow> mm_camera_obj \<Rightarrow> (int \<times> mm_camera_obj) option" where
  "mm_camera_open oe ob =
     (if \<not> has_dev_name oe then Some (- 1, ob)
      else
        (let ob = ob\<lparr>ctrl_fd := open_dev oe 0 (MM_CAMERA_DEV_OPEN_TRIES - 1)\<rparr>
         in if ctrl_fd ob \<le> 0 then Some (- 1, ob)
            else
              (let ob = ob\<lparr>ds_fd := open_sock oe 0 (MM_CAMERA_DEV_OPEN_TRIES - 1)\<rparr>
               in if ds_fd ob \<le> 0 then Some (- 1, ob\<lparr>ctrl_fd := 0\<rparr>)
                  else
                    (case poll_thread_launch (o_pipe oe) MM_CAMERA_POLL_TYPE_EVT (evt_poll_thread ob) of
                       (_, p) \<Rightarrow>
                         map_option (\<lambda>(_, ob). (0, ob))
                           (mm_camera_evt_sub (o_sub oe) (o_wr oe) True
                             (ob\<lparr>evt_queue := Some [], evt_poll_thread := p\<rparr>))))))"

text \<open>Closing: the event thread serves what is queued before it exits.\<close>

definition mm_camera_close :: "int \<Rightarrow> bool \<Rightarrow> mm_camera_obj \<Rightarrow>
    ((nat \<times> 32 word \<times> mm_camera_event \<times> ptr) list \<times> mm_camera_obj) option" where
  "mm_camera_close io wr ob =
     (case mm_camera_evt_sub io wr False ob of
        None \<Rightarrow> None
      | Some (_, ob) \<Rightarrow>
          (case poll_thread_release wr (evt_poll_thread ob) of
             None \<Rightarrow> None
           | Some (_, p) \<Rightarrow>
               (case run_evt_thread (ob\<lparr>evt_poll_thread := p\<rparr>) of
                  (calls, ob) \<Rightarrow>
                    Some (calls, ob\<lparr>evt_queue := None, ctrl_fd := (if 0 < ctrl_fd ob then 0 else ctrl_fd ob),
                                    ds_fd := (if 0 < ds_fd ob then 0 else ds_fd ob)\<rparr>))))"

section \<open>The channels of a camera\<close>

definition get_channel_by_handler :: "cw \<Rightarrow> 32 word \<Rightarrow> nat option" where
  "get_channel_by_handler w h = List.find (\<lambda>i. h = ch_hdl (chan i w)) [0..<MM_CAMERA_CHANNEL_MAX]"

text \<open>An event for the channel with a handle; \<open>missing\<close> is the result when there is none.\<close>

definition channel_evt :: "cam_env \<Rightarrow> int \<Rightarrow> 32 word \<Rightarrow> mm_channel_evt \<Rightarrow> cw \<Rightarrow> (int \<times> chan_out \<times> cw) option" where
  "channel_evt E missing h evt w =
     (case get_channel_by_handler w h of
        None \<Rightarrow> Some (missing, NoOut, w)
      | Some c \<Rightarrow> mm_channel_fsm_fn E c evt w)"

definition channel_op :: "cam_env \<Rightarrow> int \<Rightarrow> 32 word \<Rightarrow> mm_channel_evt \<Rightarrow> cw \<Rightarrow> (int \<times> cw) option" where
  "channel_op E missing h evt w = map_option (\<lambda>(rc, _, w). (rc, w)) (channel_evt E missing h evt w)"

definition channel_hdl_op :: "cam_env \<Rightarrow> 32 word \<Rightarrow> mm_channel_evt \<Rightarrow> cw \<Rightarrow> (32 word \<times> cw) option" where
  "channel_hdl_op E h evt w =
     map_option (\<lambda>(_, out, w). (case out of Handle s \<Rightarrow> s | _ \<Rightarrow> 0, w)) (channel_evt E 0 h evt w)"

definition mm_camera_qbuf :: "cam_env \<Rightarrow> 32 word \<Rightarrow> mm_camera_buf_def \<Rightarrow> cw \<Rightarrow> (int \<times> cw) option" where
  "mm_camera_qbuf E h b w =
     (case get_channel_by_handler w h of None \<Rightarrow> Some (- 1, w) | Some c \<Rightarrow> mm_channel_qbuf E c b w)"

definition mm_camera_get_queued_buf_count :: "cam_env \<Rightarrow> 32 word \<Rightarrow> 32 word \<Rightarrow> cw \<Rightarrow> (int \<times> cw) option" where
  "mm_camera_get_queued_buf_count E h s = channel_op E (- 1) h (MM_CHANNEL_EVT_GET_STREAM_QUEUED_BUF_COUNT s)"

definition free_channel :: "cw \<Rightarrow> nat option" where
  "free_channel w = List.find (\<lambda>i. ch_state (chan i w) = MM_CHANNEL_STATE_NOTUSED) [0..<MM_CAMERA_CHANNEL_MAX]"

definition mm_camera_add_channel :: "mm_camera_channel_attr option \<Rightarrow> ptr \<Rightarrow> cw \<Rightarrow> 32 word \<times> cw" where
  "mm_camera_add_channel at f w =
     (case free_channel w of
        None \<Rightarrow> (0, w)
      | Some c \<Rightarrow>
          (case generate_handler c w of
             (h, w) \<Rightarrow>
               (h, mm_channel_init c at f
                     (upd_chan c (\<lambda>_. no_channel\<lparr>ch_hdl := h, ch_state := MM_CHANNEL_STATE_STOPPED\<rparr>) w))))"

text \<open>A deleted channel's object is zeroed, whatever the channel's state was.\<close>

definition mm_camera_del_channel :: "cam_env \<Rightarrow> 32 word \<Rightarrow> cw \<Rightarrow> (int \<times> cw) option" where
  "mm_camera_del_channel E h w =
     (case get_channel_by_handler w h of
        None \<Rightarrow> Some (- 1, w)
      | Some c \<Rightarrow> map_option (\<lambda>(rc, _, w). (rc, upd_chan c (\<lambda>_. no_channel) w))
                    (mm_channel_fsm_fn E c MM_CHANNEL_EVT_DELETE w))"

definition mm_camera_get_bundle_info :: "cam_env \<Rightarrow> 32 word \<Rightarrow> cw \<Rightarrow> (int \<times> chan_out \<times> cw) option" where
  "mm_camera_get_bundle_info E h = channel_evt E (- 1) h MM_CHANNEL_EVT_GET_BUNDLE_INFO"

definition mm_camera_link_stream :: "cam_env \<Rightarrow> 32 word \<Rightarrow> 32 word \<Rightarrow> 32 word \<Rightarrow> cw \<Rightarrow> (32 word \<times> cw) option" where
  "mm_camera_link_stream E h s linked w =
     (case get_channel_by_handler w h of
        None \<Rightarrow> Some (0, w)
      | Some owner \<Rightarrow> channel_hdl_op E linked (MM_CHANNEL_EVT_LINK_STREAM (Some (owner, s))) w)"

definition mm_camera_add_stream :: "cam_env \<Rightarrow> 32 word \<Rightarrow> cw \<Rightarrow> (32 word \<times> cw) option" where
  "mm_camera_add_stream E h = channel_hdl_op E h MM_CHANNEL_EVT_ADD_STREAM"

definition mm_camera_del_stream :: "cam_env \<Rightarrow> 32 word \<Rightarrow> 32 word \<Rightarrow> cw \<Rightarrow> (int \<times> cw) option" where
  "mm_camera_del_stream E h s = channel_op E (- 1) h (MM_CHANNEL_EVT_DEL_STREAM s)"

definition mm_camera_start_zsl_snapshot_ch :: "cam_env \<Rightarrow> 32 word \<Rightarrow> cw \<Rightarrow> (int \<times> cw) option" where
  "mm_camera_start_zsl_snapshot_ch E h = channel_op E (- 1) h MM_CHANNEL_EVT_START_ZSL_SNAPSHOT"

definition mm_camera_stop_zsl_snapshot_ch :: "cam_env \<Rightarrow> 32 word \<Rightarrow> cw \<Rightarrow> (int \<times> cw) option" where
  "mm_camera_stop_zsl_snapshot_ch E h = channel_op E (- 1) h MM_CHANNEL_EVT_STOP_ZSL_SNAPSHOT"

definition mm_camera_config_stream :: "cam_env \<Rightarrow> 32 word \<Rightarrow> 32 word \<Rightarrow> mm_camera_stream_config \<Rightarrow> cw \<Rightarrow>
    (int \<times> cw) option" where
  "mm_camera_config_stream E h s config = channel_op E (- 1) h (MM_CHANNEL_EVT_CONFIG_STREAM s config)"

definition mm_camera_start_channel :: "cam_env \<Rightarrow> 32 word \<Rightarrow> cw \<Rightarrow> (int \<times> cw) option" where
  "mm_camera_start_channel E h = channel_op E (- 1) h MM_CHANNEL_EVT_START"

text \<open>Stopping a channel that does not exist succeeds.\<close>

definition mm_camera_stop_channel :: "cam_env \<Rightarrow> 32 word \<Rightarrow> cw \<Rightarrow> (int \<times> cw) option" where
  "mm_camera_stop_channel E h = channel_op E 0 h MM_CHANNEL_EVT_STOP"

definition mm_camera_request_super_buf :: "cam_env \<Rightarrow> 32 word \<Rightarrow> 32 word \<Rightarrow> cw \<Rightarrow> (int \<times> cw) option" where
  "mm_camera_request_super_buf E h n = channel_op E (- 1) h (MM_CHANNEL_EVT_REQUEST_SUPER_BUF n)"

definition mm_camera_cancel_super_buf_request :: "cam_env \<Rightarrow> 32 word \<Rightarrow> cw \<Rightarrow> (int \<times> cw) option" where
  "mm_camera_cancel_super_buf_request E h = channel_op E (- 1) h MM_CHANNEL_EVT_CANCEL_REQUEST_SUPER_BUF"

definition mm_camera_flush_super_buf_queue :: "cam_env \<Rightarrow> 32 word \<Rightarrow> 32 word \<Rightarrow> cw \<Rightarrow> (int \<times> cw) option" where
  "mm_camera_flush_super_buf_queue E h idx = channel_op E (- 1) h (MM_CHANNEL_EVT_FLUSH_SUPER_BUF_QUEUE idx)"

definition mm_camera_config_channel_notify :: "cam_env \<Rightarrow> 32 word \<Rightarrow> mm_camera_super_buf_notify_mode \<Rightarrow> cw \<Rightarrow>
    (int \<times> cw) option" where
  "mm_camera_config_channel_notify E h mode = channel_op E (- 1) h (MM_CHANNEL_EVT_CONFIG_NOTIFY_MODE mode)"

definition mm_camera_set_stream_parms :: "cam_env \<Rightarrow> 32 word \<Rightarrow> 32 word \<Rightarrow> bool \<Rightarrow> cw \<Rightarrow> (int \<times> cw) option" where
  "mm_camera_set_stream_parms E h s given = channel_op E (- 1) h (MM_CHANNEL_EVT_SET_STREAM_PARM s given)"

definition mm_camera_get_stream_parms :: "cam_env \<Rightarrow> 32 word \<Rightarrow> 32 word \<Rightarrow> bool \<Rightarrow> cw \<Rightarrow> (int \<times> cw) option" where
  "mm_camera_get_stream_parms E h s given = channel_op E (- 1) h (MM_CHANNEL_EVT_GET_STREAM_PARM s given)"

definition mm_camera_do_stream_action :: "cam_env \<Rightarrow> 32 word \<Rightarrow> 32 word \<Rightarrow> bool \<Rightarrow> cw \<Rightarrow> (int \<times> cw) option" where
  "mm_camera_do_stream_action E h s given = channel_op E (- 1) h (MM_CHANNEL_EVT_DO_STREAM_ACTION s given)"

definition mm_camera_map_stream_buf :: "cam_env \<Rightarrow> 32 word \<Rightarrow> 32 word \<Rightarrow> cam_mapping_buf_type \<Rightarrow> cw \<Rightarrow>
    (int \<times> cw) option" where
  "mm_camera_map_stream_buf E h s t = channel_op E (- 1) h (MM_CHANNEL_EVT_MAP_STREAM_BUF (Some (s, t)))"

definition mm_camera_unmap_stream_buf :: "cam_env \<Rightarrow> 32 word \<Rightarrow> 32 word \<Rightarrow> cam_mapping_buf_type \<Rightarrow> cw \<Rightarrow>
    (int \<times> cw) option" where
  "mm_camera_unmap_stream_buf E h s t = channel_op E (- 1) h (MM_CHANNEL_EVT_UNMAP_STREAM_BUF (Some (s, t)))"

definition mm_camera_channel_advanced_capture :: "cam_env \<Rightarrow> mm_camera_advanced_capture \<Rightarrow> 32 word \<Rightarrow> 32 word \<Rightarrow>
    cw \<Rightarrow> (int \<times> cw) option" where
  "mm_camera_channel_advanced_capture E t h start_flag =
     channel_op E (- 1) h
       (case t of
          MM_CAMERA_AF_BRACKETING \<Rightarrow> MM_CHANNEL_EVT_AF_BRACKETING start_flag
        | MM_CAMERA_AE_BRACKETING \<Rightarrow> MM_CHANNEL_EVT_AE_BRACKETING start_flag
        | MM_CAMERA_FLASH_BRACKETING \<Rightarrow> MM_CHANNEL_EVT_FLASH_BRACKETING start_flag
        | MM_CAMERA_MTF_BRACKETING \<Rightarrow> MM_CHANNEL_EVT_MTF_BRACKETING start_flag
        | MM_CAMERA_ZOOM_1X \<Rightarrow> MM_CHANNEL_EVT_ZOOM_1X start_flag)"

end
