(* ===== verification/MM_Handles.thy ===== *)
theory MM_Handles
  imports MM_Camera
begin

text \<open>
  The handles and states of a camera's channels: no operation below the state machine of a channel
  changes them, so that handles stay those given out by \<open>mm_camera_add_channel\<close>.
\<close>

section \<open>What giving buffers back preserves, the superbuffer queue preserves\<close>

locale giving_back =
  fixes P :: "'s \<Rightarrow> bool" and qbuf :: "mm_camera_buf_def \<Rightarrow> 's \<Rightarrow> 's"
  assumes qbuf_pres: "P s \<Longrightarrow> P (qbuf d s)"
begin

lemma fold_pres: "P s \<Longrightarrow> P (fold qbuf ds s)"
  by (induction ds arbitrary: s) (auto simp: qbuf_pres)

lemma give_back_pres: "P s \<Longrightarrow> P (give_back qbuf b s)"
  by (auto simp: give_back_def qbuf_pres split: option.split)

lemma comp_pres: "P s \<Longrightarrow> superbuf_comp qbuf mem i b (q, led, s) = (q', led', s') \<Longrightarrow> P s'"
  by (auto simp: superbuf_comp_def match_node_def add_node_def insert_node_def drop_oldest_def Let_def
      fold_pres give_back_pres split: prod.splits option.splits if_splits)

lemma flush_loop_pres: "P s \<Longrightarrow> superbuf_flush_loop qbuf m sel q s = (q', s') \<Longrightarrow> P s'"
proof (induction "length (que q)" arbitrary: q s rule: less_induct)
  case less
  obtain t r where d: "dequeue_internal m q = (t, r)"
    by fastforce
  show ?case
  proof (cases t)
    case None
    then show ?thesis
      using less.prems d by (subst (asm) superbuf_flush_loop.simps) simp
  next
    case (Some sb)
    moreover from this have "length (que r) < length (que q)"
      using d by (auto simp: dequeue_internal_def split: list.splits if_splits)
    moreover have "superbuf_flush_loop qbuf m sel r (fold qbuf (filter sel (held_bufs sb)) s) = (q', s')"
      using less.prems(2) d Some by (subst (asm) superbuf_flush_loop.simps) simp
    ultimately show ?thesis
      using less.hyps less.prems(1) fold_pres by blast
  qed
qed

lemma trim_loop_pres: "P s \<Longrightarrow> trim_loop qbuf l q s = Some (q', s') \<Longrightarrow> P s'"
proof -
  have "P s \<longrightarrow> P (snd r)" if "trim_loop qbuf l q s = Some r" for r
    using trim_loop.raw_induct [of "\<lambda>f l q s r. f = qbuf \<longrightarrow> P s \<longrightarrow> P (snd r)" qbuf l q s r, OF _ that]
    by (fastforce simp: fold_pres split: if_splits prod.splits option.splits)
  then show "P s \<Longrightarrow> trim_loop qbuf l q s = Some (q', s') \<Longrightarrow> P s'" by fastforce
qed

end

section \<open>Handles and states\<close>

definition hs :: "cw \<Rightarrow> (32 word \<times> mm_channel_state_type) list" where
  "hs w = map (\<lambda>ch. (ch_hdl ch, ch_state ch)) (chans w)"

lemma hs_more [simp]:
  "hs (w\<lparr>g_handler_history_count := n\<rparr>) = hs w"
  "hs (w\<lparr>w_rets := rs\<rparr>) = hs w" "hs (w\<lparr>w_mems := ms\<rparr>) = hs w" "hs (w\<lparr>w_frames := fs\<rparr>) = hs w"
  "hs (w\<lparr>w_allocs := als\<rparr>) = hs w" "hs (w\<lparr>w_trace := t\<rparr>) = hs w" "hs (log_act a w) = hs w"
  by (simp_all add: hs_def log_act_def)

lemma hs_upd_chan:
  assumes "ch_hdl (f (chan c w)) = ch_hdl (chan c w)" "ch_state (f (chan c w)) = ch_state (chan c w)"
  shows "hs (upd_chan c f w) = hs w"
  using assms
  by (cases "c < length (chans w)")
    (auto simp: hs_def upd_chan_def chan_def map_update not_less list_update_beyond
      intro!: list_update_same_conv [THEN iffD2])

lemma hs_upd_stream [simp]: "hs (upd_stream a f w) = hs w"
  by (simp add: upd_stream_def hs_upd_chan)

lemma hs_alloc [simp]: "hs (snd (alloc_ok w)) = hs w"
  by (simp add: alloc_ok_def split: list.split)

lemma hs_on_stream [simp]: "hs (snd (on_stream a m w)) = hs w"
  by (simp add: on_stream_def Let_def hs_upd_chan split: prod.split)

lemma hs_stream_evt [simp]: "hs (snd (stream_evt E a evt w)) = hs w"
  by (simp add: stream_evt_def)

lemma hs_upd_queue [simp]: "hs (upd_queue c f w) = hs w"
  by (simp add: upd_queue_def hs_upd_chan)

lemma hs_pairD:
  "alloc_ok w = (m, w') \<Longrightarrow> hs w' = hs w" "on_stream a op w = (x, w') \<Longrightarrow> hs w' = hs w"
  "stream_evt E a evt w = (rc, w') \<Longrightarrow> hs w' = hs w"
  by (metis hs_alloc hs_on_stream hs_stream_evt snd_conv)+

section \<open>Below the state machine\<close>

named_theorems hs_dest \<open>an operation that returns keeps handles and states\<close>

lemmas hs_cases = Option.bind_eq_Some_conv map_option_eq_Some hs_upd_chan

declare hs_pairD [hs_dest]

lemma enq_cmd_hs [hs_dest]: "enq_cmd c cmd w = Some w' \<Longrightarrow> hs w' = hs w"
  by (auto simp: enq_cmd_def hs_upd_chan split: option.splits)

lemma redirected_hs [hs_dest]: "redirected E c s evt w = Some (rc, w') \<Longrightarrow> hs w' = hs w"
  by (auto simp: redirected_def split: option.splits if_splits dest: hs_dest)

lemma own_only_hs [hs_dest]: "own_only c s m w = (rc, w') \<Longrightarrow> hs w' = hs w"
  by (auto simp: own_only_def split: option.splits if_splits dest: hs_dest)

lemma qbuf_hs [hs_dest]: "mm_channel_qbuf E c b w = Some (rc, w') \<Longrightarrow> hs w' = hs w"
  by (auto simp: mm_channel_qbuf_def dest: hs_dest)

text \<open>The world of the queue's operations, if it has not ended, has the handles and states \<open>h\<close>.\<close>

definition hw :: "(32 word \<times> mm_channel_state_type) list \<Rightarrow> cw option \<Rightarrow> bool" where
  "hw h wo \<longleftrightarrow> (\<forall>w. wo = Some w \<longrightarrow> hs w = h)"

interpretation handles: giving_back "hw h" "qb E c" for h E c
  by unfold_locales (auto simp: hw_def qb_def hs_cases dest: hs_dest)

lemma hw_Some: "hw (hs w) (Some w)"
  by (simp add: hw_def)

lemma set_queue_hs [hs_dest]: "set_queue c (q, wo) = Some w' \<Longrightarrow> hw h wo \<Longrightarrow> hs w' = h"
  by (auto simp: set_queue_def hw_def hs_upd_chan)

lemma flush_hs [hs_dest]:
  "channel_flush E c t w = Some w' \<Longrightarrow> hs w' = hs w"
  "channel_flush_matched E c w = Some w' \<Longrightarrow> hs w' = hs w"
  by (cases "superbuf_flush (qb E c) t (superbuf_queue (chan c w)) (Some w)",
      simp add: channel_flush_def superbuf_flush_def, blast intro: set_queue_hs handles.flush_loop_pres hw_Some)
    (cases "superbuf_flush_matched (qb E c) (superbuf_queue (chan c w)) (Some w)",
      simp add: channel_flush_matched_def superbuf_flush_matched_def, blast intro: set_queue_hs handles.flush_loop_pres hw_Some)

lemma skip_hs [hs_dest]:
  "channel_skip E c w = Some w' \<Longrightarrow> hs w' = hs w" "channel_overflow E c w = Some w' \<Longrightarrow> hs w' = hs w"
  by (auto simp: channel_skip_def channel_overflow_def superbuf_skip_def bufdone_overflow_def Option.bind_eq_Some_conv
      split: if_splits intro: set_queue_hs handles.trim_loop_pres hw_Some)

lemma expect_later_hs [simp]: "hs (expect_later c w) = hs w"
  by (simp add: expect_later_def)

lemma metadata_hs [hs_dest]:
  "metadata_zoom E c crop b w = Some w' \<Longrightarrow> hs w' = hs w" "metadata_prepare E c md w = Some w' \<Longrightarrow> hs w' = hs w"
  by (auto simp: metadata_zoom_def metadata_prepare_def hs_cases split: if_splits dest: hs_dest)

lemma metadata_bracketing_hs [simp]: "hs (metadata_bracketing c md w) = hs w"
  by (simp add: metadata_bracketing_def hs_upd_chan)

definition hr :: "(32 word \<times> mm_channel_state_type) list \<Rightarrow> ('a \<times> cw) option \<Rightarrow> bool" where
  "hr h x \<longleftrightarrow> (\<forall>r w. x = Some (r, w) \<longrightarrow> hs w = h)"

lemma hr_rules:
  "hs w = h \<Longrightarrow> hr h (Some (r, w))" "hr h None"
  "hr h a \<Longrightarrow> (\<And>y. hr h (f y)) \<Longrightarrow> hr h (case_option a f x)"
  "hr h x' \<Longrightarrow> hr h y' \<Longrightarrow> hr h (if p then x' else y')"
  by (auto simp: hr_def split: option.split)

lemma hr_bind:
  "(\<And>w. wo = Some w \<Longrightarrow> hr h (g w)) \<Longrightarrow> hr h (wo \<bind> g)"
  "(\<And>r w. x = Some (r, w) \<Longrightarrow> hr h (l (r, w))) \<Longrightarrow> hr h (x \<bind> l)"
  "(\<And>r i w. y = Some (r, i, w) \<Longrightarrow> hr h (m (r, i, w))) \<Longrightarrow> hr h (y \<bind> m)"
  by (auto simp: hr_def Option.bind_eq_Some_conv)

lemma reset_hs:
  "(if r then map_option (upd_queue c f) (channel_flush E c t w) else Some w) = Some v \<Longrightarrow> hs v = hs w"
  by (auto split: if_splits dest!: flush_hs)

lemma handle_metadata_hs [hs_dest]: "mm_channel_handle_metadata E c b w = Some (rc, w') \<Longrightarrow> hs w' = hs w"
proof -
  have "hr (hs w) (mm_channel_handle_metadata E c b w)"
    unfolding mm_channel_handle_metadata_def
    by (intro hr_rules hr_bind(1) refl) (auto dest!: reset_hs metadata_hs)
  then show "mm_channel_handle_metadata E c b w = Some (rc, w') \<Longrightarrow> hs w' = hs w"
    by (simp add: hr_def)
qed

lemma alloc_node_hs [hs_dest]: "alloc_node q b w = (m, w') \<Longrightarrow> hs w' = hs w"
  by (auto simp: alloc_node_def Let_def split: if_splits prod.splits dest!: hs_pairD)

lemma comp_and_enqueue_hs [hs_dest]: "comp_and_enqueue E c b w = Some (rc, w') \<Longrightarrow> hs w' = hs w"
proof -
  have match: "hs w2 = hs w1" if "set_queue c (q', wo) = Some w2" "superbuf_comp (qb E c) m i b (q, l, Some w1) = (q', l', wo)"
    for q q' wo w1 w2 m i l l'
    using set_queue_hs [OF that(1) handles.comp_pres [OF hw_Some that(2)]] by simp
  have "hr (hs w) (comp_and_enqueue E c b w)"
    unfolding comp_and_enqueue_def Let_def
    by (rule hr_rules hr_bind refl)+
      (auto simp: hr_def hs_cases split: prod.splits if_splits
        dest!: handle_metadata_hs qbuf_hs alloc_node_hs match)
  then show "comp_and_enqueue E c b w = Some (rc, w') \<Longrightarrow> hs w' = hs w"
    by (simp add: hr_def)
qed

lemma give_back_all_hs [hs_dest]: "give_back_all E c ds w = Some w' \<Longrightarrow> hs w' = hs w"
proof -
  have step: "hw h (do { w \<leftarrow> wo; b \<leftarrow> d; qb E c b (Some w) })" if "hw h wo" for h d wo
    using that handles.qbuf_pres [of h wo E c] by (cases wo; cases d) (simp_all add: hw_def)
  have "hw h (fold (\<lambda>d wo. do { w \<leftarrow> wo; b \<leftarrow> d; qb E c b (Some w) }) ds wo)" if "hw h wo" for h wo
    using that by (induction ds arbitrary: wo) (simp_all add: step)
  from this [OF hw_Some] show "give_back_all E c ds w = Some w' \<Longrightarrow> hs w' = hs w"
    by (simp add: give_back_all_def hw_def)
qed

lemma deliver_hs [hs_dest]: "deliver E c sb w = Some w' \<Longrightarrow> hs w' = hs w"
  by (auto simp: deliver_def hs_cases split: if_splits prod.splits bool.splits dest!: give_back_all_hs hs_pairD)

lemma count_down_hs [simp]: "hs (count_down c w) = hs w"
  by (simp add: count_down_def Let_def hs_upd_chan)

lemma dispatch_loop_hs [hs_dest]: "dispatch_loop E c mode q w = Some (q', w') \<Longrightarrow> hs w' = hs w"
proof (induction "length (que q)" arbitrary: q w rule: less_induct)
  case less
  obtain t r where d: "dequeue_internal True q = (t, r)"
    by fastforce
  have "length (que r) < length (que q)" if "t \<noteq> None"
    using d that by (auto simp: dequeue_internal_def split: list.splits if_splits)
  then show ?case
    using less d
    by (subst (asm) (2) dispatch_loop.simps)
      (auto split: if_splits option.splits dest!: deliver_hs)
qed

lemma request_snapshot_hs [simp]: "hs (request_snapshot c w) = hs w"
  by (simp add: request_snapshot_def Let_def hs_upd_chan)

lemma general_cmd_hs [hs_dest]: "general_cmd E c t st w = Some w' \<Longrightarrow> hs w' = hs w"
  by (cases t) (auto simp: general_cmd_def hs_cases dest!: flush_hs)

lemma exec_cmd_hs [hs_dest]: "exec_cmd E c cmd w = Some w' \<Longrightarrow> hs w' = hs w"
  by (cases cmd)
    (auto simp: exec_cmd_def hs_cases dest!: flush_hs skip_hs general_cmd_hs comp_and_enqueue_hs)

lemma dispatch_hs [hs_dest]: "dispatch E c w = Some w' \<Longrightarrow> hs w' = hs w"
  by (auto simp: dispatch_def Option.bind_eq_Some_conv hw_def dest!: skip_hs dispatch_loop_hs set_queue_hs)

lemma process_hs [hs_dest]: "mm_channel_process_stream_buf E c cmd w = Some w' \<Longrightarrow> hs w' = hs w"
  by (cases cmd)
    (auto simp: mm_channel_process_stream_buf_def Option.bind_eq_Some_conv dest!: exec_cmd_hs dispatch_hs)

lemma run_cmds_hs [hs_dest]: "run_cmds E c cmds w = Some w' \<Longrightarrow> hs w' = hs w"
  by (induction cmds arbitrary: w) (auto simp: Option.bind_eq_Some_conv dest!: process_hs)

lemma run_cmd_thread_hs [hs_dest]: "run_cmd_thread E c w = Some w' \<Longrightarrow> hs w' = hs w"
  by (auto simp: run_cmd_thread_def hs_upd_chan split: option.splits dest!: run_cmds_hs)

lemma cb_thread_hs [simp]: "hs (cb_thread c w) = hs w"
proof -
  have "hs (fold (mm_channel_dispatch_super_buf c) sbs v) = hs v" for sbs v
    by (induction sbs arbitrary: v) (simp_all add: mm_channel_dispatch_super_buf_def)
  then show ?thesis
    by (simp add: cb_thread_def hs_upd_chan split: option.split)
qed

lemma send_cmd_hs [hs_dest]: "send_cmd c cmd w = Some (rc, w') \<Longrightarrow> hs w' = hs w"
  by (auto simp: send_cmd_def split: prod.splits bool.splits dest!: enq_cmd_hs hs_pairD(1))

lemma flush_queue_hs [hs_dest]: "mm_channel_flush_super_buf_queue E c i t w = Some (rc, w') \<Longrightarrow> hs w' = hs w"
  by (auto simp: mm_channel_flush_super_buf_queue_def Option.bind_eq_Some_conv split: prod.splits bool.splits
      dest!: enq_cmd_hs run_cmd_thread_hs hs_pairD(1))

lemma release_threads_hs [hs_dest]: "release_threads E c w = Some w' \<Longrightarrow> hs w' = hs w"
proof -
  have thread: "release_thread run zero c l v = Some v' \<Longrightarrow> hs v' = hs v"
    if "\<And>x y. run x = Some y \<Longrightarrow> hs y = hs x" "\<And>ch. ch_hdl (zero ch) = ch_hdl ch \<and> ch_state (zero ch) = ch_state ch"
    for run zero c l v v'
    using that by (auto simp: release_thread_def hs_upd_chan split: prod.splits bool.splits if_splits dest!: hs_pairD(1))
  have cmd: "release_cmd_thread E c v = Some v' \<Longrightarrow> hs v' = hs v" for v v'
    unfolding release_cmd_thread_def by (erule thread [rotated 2]) (auto dest: run_cmd_thread_hs)
  have cb: "release_cb_thread c v = Some v' \<Longrightarrow> hs v' = hs v" for v v'
    unfolding release_cb_thread_def by (erule thread [rotated 2]) auto
  show "release_threads E c w = Some w' \<Longrightarrow> hs w' = hs w"
    by (auto simp: release_threads_def Option.bind_eq_Some_conv dest!: cmd cb)
qed

section \<open>Streams\<close>

lemma set_bundled_hs: "hs (fold (set_bundled c) ks w) = hs w"
  by (induction ks arbitrary: w) (simp_all add: set_bundled_def)

lemma start_bundle_hs [simp]: "hs (start_bundle c ks w) = hs w"
  by (simp add: start_bundle_def Let_def hs_upd_chan set_bundled_hs)

lemma start_streams_hs [hs_dest]: "start_streams E c ks i w = Some (rc, j, w') \<Longrightarrow> hs w' = hs w"
  by (induction ks arbitrary: i w)
    (auto split: if_splits option.splits prod.splits dest!: hs_pairD(3))

lemma drop_linked_hs [hs_dest]: "drop_linked E c k t w = Some w' \<Longrightarrow> hs w' = hs w"
  by (auto simp: drop_linked_def unlink_def Let_def Option.bind_eq_Some_conv split: if_splits dest!: flush_queue_hs)

lemma stop_own_hs [simp]: "hs (stop_own E a w) = hs w" "hs (put_bufs E a w) = hs w"
  by (simp_all add: stop_own_def put_bufs_def)

lemma undo_streams_hs [hs_dest]: "undo_streams E c f ks w = Some w' \<Longrightarrow> hs w' = hs w"
  by (induction ks arbitrary: w) (auto split: if_splits option.splits dest!: drop_linked_hs)

lemma stop_streams_hs [hs_dest]: "stop_streams E c ks w = Some w' \<Longrightarrow> hs w' = hs w"
  by (induction ks arbitrary: w) (auto split: if_splits option.splits dest!: drop_linked_hs)

lemma start_hs [hs_dest]: "mm_channel_start E c w = Some (rc, w') \<Longrightarrow> hs w' = hs w"
proof -
  have zeroed: "hs (upd_chan c zero_bundle v) = hs v" for v
    by (simp add: hs_upd_chan zero_bundle_def)
  have bundled: "hs (if p then start_bundle c ks v else v) = hs v" for p ks v
    by simp
  have started: "start_streams E c ks 0 (if p then start_bundle c ks w else w) = Some (rc, i, v) \<Longrightarrow> hs v = hs w"
    for p ks rc i v
    using bundled by (metis start_streams_hs)
  have undone: "(if p then map_option (upd_chan c zero_bundle) (release_threads E c v) else Some v) = Some v' \<Longrightarrow>
      hs v' = hs v" for p v v'
    by (auto simp only: map_option_eq_Some zeroed option.inject split: if_split_asm dest!: release_threads_hs)
  have "hr (hs w) (mm_channel_start E c w)"
    unfolding mm_channel_start_def Let_def
    by (rule hr_bind(1), rule hr_bind(3), simp only: prod.case, intro hr_rules(1,4) hr_bind(1))
      (metis started undo_streams_hs undone)+
  then show "mm_channel_start E c w = Some (rc, w') \<Longrightarrow> hs w' = hs w"
    by (simp add: hr_def)
qed

lemma stop_hs [hs_dest]: "mm_channel_stop E c w = Some (rc, w') \<Longrightarrow> hs w' = hs w"
proof -
  have "hs (fold (\<lambda>k w. if owned c k w then put_bufs E (c, k) w else w) ks v) = hs v" for ks v
    by (induction ks arbitrary: v) simp_all
  then show "mm_channel_stop E c w = Some (rc, w') \<Longrightarrow> hs w' = hs w"
    by (auto simp: mm_channel_stop_def Let_def Option.bind_eq_Some_conv split: if_splits
        dest!: stop_streams_hs release_threads_hs)
qed

lemma generate_handler_hs [simp]: "generate_handler i w = (h, w') \<Longrightarrow> hs w' = hs w"
  by (auto simp: generate_handler_def Let_def)

lemma add_stream_hs [hs_dest]: "mm_channel_add_stream E c w = (h, w') \<Longrightarrow> hs w' = hs w"
  by (auto simp: mm_channel_add_stream_def split: option.splits prod.splits if_splits
      dest!: hs_pairD(3) generate_handler_hs)

lemma link_stream_hs [hs_dest]: "mm_channel_link_stream c l w = (h, w') \<Longrightarrow> hs w' = hs w"
  by (auto simp: mm_channel_link_stream_def split: option.splits)

lemma del_stream_hs [hs_dest]: "mm_channel_del_stream E c h w = Some (rc, w') \<Longrightarrow> hs w' = hs w"
  by (auto simp: mm_channel_del_stream_def unlink_def Option.bind_eq_Some_conv split: option.splits if_splits
      dest!: hs_pairD(3))

section \<open>The state machine\<close>

text \<open>
  An event changes at most the state of its own channel, never a handle; \<open>keep\<close>: a channel in use stays
  in use.
\<close>

definition only_state :: "bool \<Rightarrow> nat \<Rightarrow> cw \<Rightarrow> cw \<Rightarrow> bool" where
  "only_state keep c w w' \<longleftrightarrow> length (hs w') = length (hs w) \<and>
     (\<forall>i. i \<noteq> c \<longrightarrow> i < length (hs w) \<longrightarrow> hs w' ! i = hs w ! i) \<and>
     (c < length (hs w) \<longrightarrow> fst (hs w' ! c) = fst (hs w ! c) \<and>
        (keep \<longrightarrow> (snd (hs w' ! c) = MM_CHANNEL_STATE_NOTUSED) = (snd (hs w ! c) = MM_CHANNEL_STATE_NOTUSED)))"

lemma only_state_eq: "hs w' = hs w \<Longrightarrow> only_state k c w w'"
  by (simp add: only_state_def)

lemma hs_chan: "c < length (chans w) \<Longrightarrow> hs w ! c = (ch_hdl (chan c w), ch_state (chan c w))"
  by (simp add: hs_def chan_def)

lemma length_hs: "length (hs w) = length (chans w)"
  by (simp add: hs_def)

lemma hs_upd: "hs (upd_chan c f w) = (hs w)[c := (ch_hdl (f (chan c w)), ch_state (f (chan c w)))]"
  by (simp add: hs_def upd_chan_def map_update)

lemma only_state_upd:
  assumes "hs v = hs w" "\<And>ch. ch_hdl (f ch) = ch_hdl ch"
    and "k \<Longrightarrow> ch_state (chan c w) \<noteq> MM_CHANNEL_STATE_NOTUSED \<and> (\<forall>ch. ch_state (f ch) \<noteq> MM_CHANNEL_STATE_NOTUSED)"
  shows "only_state k c w (upd_chan c f v)"
proof (cases "c < length (chans w)")
  case True
  then have "ch_hdl (chan c v) = ch_hdl (chan c w)"
    using assms(1) by (metis fst_conv hs_chan length_hs)
  then show ?thesis
    using assms(2,3) True by (auto simp: only_state_def hs_upd assms(1) hs_chan length_hs)
next
  case False
  then show ?thesis
    by (simp add: only_state_def hs_upd assms(1) length_hs list_update_beyond)
qed

lemma no_outD: "no_out x = Some (rc, out, w') \<Longrightarrow> x = Some (rc, w')"
  by (auto simp: no_out_def)

lemma fsm_stopped_only:
  assumes "ch_state (chan c w) = MM_CHANNEL_STATE_STOPPED"
  shows "mm_channel_fsm_fn_stopped E c evt w = Some (rc, out, w') \<Longrightarrow> only_state (evt \<noteq> MM_CHANNEL_EVT_DELETE) c w w'"
proof (cases evt)
  case MM_CHANNEL_EVT_START
  then show "mm_channel_fsm_fn_stopped E c evt w = Some (rc, out, w') \<Longrightarrow> only_state (evt \<noteq> MM_CHANNEL_EVT_DELETE) c w w'"
    using assms
    by (auto simp: mm_channel_fsm_fn_stopped_def Option.bind_eq_Some_conv dest!: no_outD start_hs
        intro!: only_state_upd split: if_splits intro: only_state_eq)
next
  case MM_CHANNEL_EVT_DELETE
  then show "mm_channel_fsm_fn_stopped E c evt w = Some (rc, out, w') \<Longrightarrow> only_state (evt \<noteq> MM_CHANNEL_EVT_DELETE) c w w'"
    by (auto simp: mm_channel_fsm_fn_stopped_def mm_channel_release_def dest!: no_outD intro!: only_state_upd)
qed (auto simp: mm_channel_fsm_fn_stopped_def handle_out_def Option.bind_eq_Some_conv
    mm_channel_config_stream_def mm_channel_set_stream_parm_def mm_channel_get_stream_parm_def
    mm_channel_do_stream_action_def mm_channel_map_stream_buf_def mm_channel_unmap_stream_buf_def
    mm_channel_get_queued_buf_count_def
    split: option.splits prod.splits
    dest!: no_outD own_only_hs redirected_hs add_stream_hs link_stream_hs del_stream_hs intro: only_state_eq)

lemma fsm_active_only:
  assumes "ch_state (chan c w) = MM_CHANNEL_STATE_ACTIVE"
  shows "mm_channel_fsm_fn_active E c evt w = Some (rc, w') \<Longrightarrow> only_state k c w w'"
proof (cases evt)
  case MM_CHANNEL_EVT_STOP
  then show "mm_channel_fsm_fn_active E c evt w = Some (rc, w') \<Longrightarrow> only_state k c w w'"
    using assms
    by (auto simp: mm_channel_fsm_fn_active_def Option.bind_eq_Some_conv dest!: stop_hs intro!: only_state_upd)
qed (auto simp: mm_channel_fsm_fn_active_def map_active_def Let_def
    mm_channel_set_stream_parm_def mm_channel_get_stream_parm_def
    mm_channel_do_stream_action_def mm_channel_map_stream_buf_def mm_channel_unmap_stream_buf_def
    mm_channel_get_queued_buf_count_def mm_channel_request_super_buf_def mm_channel_cancel_super_buf_request_def
    mm_channel_start_zsl_snapshot_def mm_channel_stop_zsl_snapshot_def mm_channel_config_notify_mode_def
    mm_channel_proc_general_cmd_def
    split: option.splits prod.splits if_splits
    dest!: own_only_hs redirected_hs send_cmd_hs flush_queue_hs intro: only_state_eq)

lemma fsm_only: "mm_channel_fsm_fn E c evt w = Some (rc, out, w') \<Longrightarrow> only_state (evt \<noteq> MM_CHANNEL_EVT_DELETE) c w w'"
  by (auto simp: mm_channel_fsm_fn_def mm_channel_fsm_fn_notused_def mm_channel_fsm_fn_paused_def
      split: mm_channel_state_type.splits
      dest!: no_outD dest: fsm_stopped_only fsm_active_only intro: only_state_eq)

section \<open>Handles of the channels\<close>

lemma ucast_16_0: "(ucast (n :: 16 word) :: 32 word) = 0 \<longleftrightarrow> n = 0"
  by transfer (simp add: take_bit_eq_0_iff)

lemma generated_handler:
  assumes "generate_handler i w = (h, w')" "i < 256"
  shows "get_index_by_handler h = i" "h \<noteq> 0"
proof -
  obtain n :: "16 word" where n: "h = or (push_bit 8 (ucast n)) (of_nat i)" "n \<noteq> 0"
  proof -
    define n where "n = g_handler_history_count w + 1"
    have "n + 1 \<noteq> 0" if "n = 0" using that by simp
    then show ?thesis
      using assms(1) that [of "if n = 0 then n + 1 else n"] by (auto simp: generate_handler_def Let_def n_def)
  qed
  have "take_bit 8 i = i"
    using assms(2) by (simp add: take_bit_nat_eq_self)
  then have i: "of_nat i = (take_bit 8 (of_nat i) :: 32 word)"
    by (metis take_bit_of_nat)
  have "and h 255 = take_bit 8 h"
    by (simp add: take_bit_eq_mask mask_eq_exp_minus_1 and.commute)
  also have "\<dots> = of_nat i"
    unfolding n(1) by (simp add: take_bit_or take_bit_push_bit i [symmetric])
  finally show "get_index_by_handler h = i"
    using assms(2) by (simp add: get_index_by_handler_def unat_of_nat)
  have "\<not> bit (of_nat i :: 32 word) m" if "8 \<le> m" for m
    using that by (subst i) (simp add: bit_take_bit_iff)
  then have "drop_bit 8 h = ucast n"
    unfolding n(1) by (intro bit_word_eqI) (auto simp: bit_simps dest: bit_imp_le_length)
  then show "h \<noteq> 0"
    using n(2) by (auto simp: ucast_16_0)
qed

text \<open>A channel in use has the handle made for its place, one that is not has none.\<close>

definition channel_ok :: "nat \<Rightarrow> 32 word \<times> mm_channel_state_type \<Rightarrow> bool" where
  "channel_ok i = (\<lambda>(h, st). if st = MM_CHANNEL_STATE_NOTUSED then h = 0 else h \<noteq> 0 \<and> get_index_by_handler h = i)"

definition chans_ok :: "cw \<Rightarrow> bool" where
  "chans_ok w \<longleftrightarrow> length (chans w) = MM_CAMERA_CHANNEL_MAX \<and>
     (\<forall>i < MM_CAMERA_CHANNEL_MAX. channel_ok i (ch_hdl (chan i w), ch_state (chan i w)))"

lemma chans_ok_hs:
  "chans_ok w \<longleftrightarrow> length (hs w) = MM_CAMERA_CHANNEL_MAX \<and> (\<forall>i < MM_CAMERA_CHANNEL_MAX. channel_ok i (hs w ! i))"
  by (auto simp: chans_ok_def length_hs hs_chan)

lemma find_channel:
  "get_channel_by_handler w h = Some c \<Longrightarrow> c < MM_CAMERA_CHANNEL_MAX \<and> ch_hdl (chan c w) = h"
  by (auto simp: get_channel_by_handler_def find_Some_iff)

lemma no_channel_iff:
  "get_channel_by_handler w h = None \<longleftrightarrow> (\<forall>i < MM_CAMERA_CHANNEL_MAX. ch_hdl (chan i w) \<noteq> h)"
  by (auto simp: get_channel_by_handler_def find_None_iff)

lemma resolves:
  assumes "chans_ok w" "h \<noteq> 0"
  shows "get_channel_by_handler w h = Some c \<longleftrightarrow> c < MM_CAMERA_CHANNEL_MAX \<and> ch_hdl (chan c w) = h"
proof
  assume c: "c < MM_CAMERA_CHANNEL_MAX \<and> ch_hdl (chan c w) = h"
  then obtain d where d: "get_channel_by_handler w h = Some d"
    using no_channel_iff [of w h] by (cases "get_channel_by_handler w h") auto
  have "d = get_index_by_handler h" "c = get_index_by_handler h"
    using assms c find_channel [OF d] by (auto simp: chans_ok_def channel_ok_def split: if_splits)
  then show "get_channel_by_handler w h = Some c"
    using d by simp
qed (rule find_channel)

lemma chans_ok_put:
  "chans_ok w \<Longrightarrow> hs v = (hs w)[c := x] \<Longrightarrow> (c < MM_CAMERA_CHANNEL_MAX \<Longrightarrow> channel_ok c x) \<Longrightarrow> chans_ok v"
  by (cases "c < MM_CAMERA_CHANNEL_MAX") (auto simp: chans_ok_hs nth_list_update list_update_beyond)

lemma chans_ok_only:
  assumes "only_state True c w w'" "chans_ok w"
  shows "chans_ok w'"
proof -
  have "channel_ok i (hs w' ! i)" if "i < MM_CAMERA_CHANNEL_MAX" for i
    using assms that
    by (cases "hs w' ! i"; cases "hs w ! i"; cases "i = c") (auto simp: only_state_def chans_ok_hs channel_ok_def split: if_splits)
  then show ?thesis
    using assms by (simp add: only_state_def chans_ok_hs)
qed

section \<open>Runs of a camera's channel operations\<close>

text \<open>The operations of the channels of a camera: each of the interface is one of these.\<close>

datatype chan_op =
    Add_channel "mm_camera_channel_attr option" ptr
  | Del_channel "32 word"
  | Event "32 word" mm_channel_evt
  | Link_stream "32 word" "32 word" "32 word"
  | Queue_buf "32 word" mm_camera_buf_def

fun chan_do :: "cam_env \<Rightarrow> chan_op \<Rightarrow> cw \<Rightarrow> cw option" where
  "chan_do E (Add_channel at f) w = Some (snd (mm_camera_add_channel at f w))"
| "chan_do E (Del_channel h) w = map_option snd (mm_camera_del_channel E h w)"
| "chan_do E (Event h evt) w = (if evt = MM_CHANNEL_EVT_DELETE then Some w else map_option snd (channel_op E 0 h evt w))"
| "chan_do E (Link_stream h s l) w = map_option snd (mm_camera_link_stream E h s l w)"
| "chan_do E (Queue_buf h b) w = map_option snd (mm_camera_qbuf E h b w)"

fun chan_dos :: "cam_env \<Rightarrow> chan_op list \<Rightarrow> cw \<Rightarrow> cw option" where
  "chan_dos E [] w = Some w"
| "chan_dos E (x # xs) w = (case chan_do E x w of None \<Rightarrow> None | Some v \<Rightarrow> chan_dos E xs v)"

lemma new_chans_ok: "chans_ok (w\<lparr>chans := cam_chans (new_camera h)\<rparr>)"
  by (simp add: chans_ok_hs hs_def new_camera_def channel_ok_def no_channel_def)

lemma free_channel: "free_channel w = Some c \<Longrightarrow> c < MM_CAMERA_CHANNEL_MAX \<and> ch_state (chan c w) = MM_CHANNEL_STATE_NOTUSED"
  by (auto simp: free_channel_def find_Some_iff)

text \<open>What adding a channel does to handles and states.\<close>

lemma add_channel_hs:
  assumes "mm_camera_add_channel at f w = (h, w')" "length (chans w) = MM_CAMERA_CHANNEL_MAX"
  shows "free_channel w = None \<and> h = 0 \<and> w' = w \<or>
    (\<exists>c. free_channel w = Some c \<and> h \<noteq> 0 \<and> get_index_by_handler h = c \<and> hs w' = (hs w)[c := (h, MM_CHANNEL_STATE_STOPPED)])"
proof (cases "free_channel w")
  case None
  then show ?thesis using assms by (simp add: mm_camera_add_channel_def)
next
  case (Some c)
  obtain v where v: "generate_handler c w = (h, v)"
    using assms(1) Some by (auto simp: mm_camera_add_channel_def split: prod.splits)
  have c: "c < MM_CAMERA_CHANNEL_MAX" "c < 256"
    using free_channel [OF Some] by (auto simp: MM_CAMERA_CHANNEL_MAX_def)
  have "hs w' = (hs w)[c := (h, MM_CHANNEL_STATE_STOPPED)]"
    using assms(1) Some v c assms(2)
    by (auto simp: mm_camera_add_channel_def mm_channel_init_def hs_upd length_hs generate_handler_hs [OF v])
      (simp add: chan_def upd_chan_def log_act_def length_hs [symmetric] generate_handler_hs [OF v])
  then show ?thesis
    using generated_handler [OF v c(2)] Some by blast
qed

lemma chans_ok_length: "chans_ok w \<Longrightarrow> length (chans w) = MM_CAMERA_CHANNEL_MAX"
  by (simp add: chans_ok_def)

lemma add_channel_ok:
  assumes "chans_ok w"
  shows "chans_ok (snd (mm_camera_add_channel at f w))"
proof (cases "mm_camera_add_channel at f w")
  case (Pair h v)
  then show ?thesis
    using add_channel_hs [OF Pair chans_ok_length [OF assms]] assms chans_ok_put [OF assms, of v]
    by (auto simp: channel_ok_def)
qed

lemma del_channel_ok:
  assumes "chans_ok w" "mm_camera_del_channel E h w = Some (rc, w')"
  shows "chans_ok w'"
proof (cases "get_channel_by_handler w h")
  case None
  then show ?thesis using assms by (simp add: mm_camera_del_channel_def)
next
  case (Some c)
  then obtain v out where v: "mm_channel_fsm_fn E c MM_CHANNEL_EVT_DELETE w = Some (rc, out, v)" "w' = upd_chan c (\<lambda>_. no_channel) v"
    using assms(2) by (auto simp: mm_camera_del_channel_def)
  have "hs v = (hs w)[c := hs v ! c]"
    using fsm_only [OF v(1)] by (cases "c < length (hs w)"; auto simp: only_state_def list_update_beyond intro!: nth_equalityI; metis nth_list_update)
  then have "hs w' = (hs w)[c := (0, MM_CHANNEL_STATE_NOTUSED)]"
    by (metis hs_upd list_update_overwrite mm_channel.select_convs(1,2) no_channel_def v(2))
  then show ?thesis
    by (rule chans_ok_put [OF assms(1)]) (simp add: channel_ok_def)
qed

lemma channel_evt_ok:
  assumes "chans_ok w" "evt \<noteq> MM_CHANNEL_EVT_DELETE" "channel_evt E m h evt w = Some (rc, out, w')"
  shows "chans_ok w'"
  using assms fsm_only [of E _ evt w rc out w'] chans_ok_only
  by (auto simp: channel_evt_def split: option.splits)

lemma chan_do_ok: "chans_ok w \<Longrightarrow> chan_do E x w = Some w' \<Longrightarrow> chans_ok w'"
proof (cases x)
  case (Link_stream h s l)
  then show "chans_ok w \<Longrightarrow> chan_do E x w = Some w' \<Longrightarrow> chans_ok w'"
    by (auto simp: mm_camera_link_stream_def channel_hdl_op_def split: option.splits dest: channel_evt_ok [rotated 2])
next
  case (Queue_buf h b)
  then show "chans_ok w \<Longrightarrow> chan_do E x w = Some w' \<Longrightarrow> chans_ok w'"
    by (auto simp: mm_camera_qbuf_def chans_ok_hs split: option.splits dest!: qbuf_hs)
qed (auto simp: add_channel_ok channel_op_def split: if_splits dest: del_channel_ok channel_evt_ok [rotated 2])

lemma chan_dos_ok: "chans_ok w \<Longrightarrow> chan_dos E xs w = Some w' \<Longrightarrow> chans_ok w'"
  by (induction xs arbitrary: w) (auto split: option.splits dest: chan_do_ok)

end
