(* ===== verification/MM_Interface.thy ===== *)
theory MM_Interface
  imports MM_Camera
begin

text \<open>
  The entry points of the camera library (\<open>mm_camera_interface.c\<close>): the table of open cameras, opening,
  closing and the operations of an open camera, and the discovery of the cameras of the device.
\<close>

section \<open>The table of cameras\<close>

record cam_info =
  facing :: nat
  orientation :: nat

text \<open>
  The table of the library. The places of \<open>cam_obj\<close> are as many as the kernel's header allows cameras.
  \<open>cworld\<close> is the outside of the channels and the count of handles; its own list of channels is empty,
  each camera has its channels. \<open>intf_locked\<close> tells that the library's lock was left locked by an operation
  that has returned: whoever takes the lock waits for ever.
\<close>

record mm_camera_ctrl =
  num_cam :: nat
  cam_obj :: "mm_camera_obj option list"
  info :: "cam_info list"
  is_yuv :: "bool list"
  video_dev_name :: "string list"
  cworld :: cw
  intf_locked :: bool

definition get_camera_by_handler :: "mm_camera_ctrl \<Rightarrow> 32 word \<Rightarrow> nat option" where
  "get_camera_by_handler g h =
     (let k = get_index_by_handler h in
      if k < length (cam_obj g)
      then (case cam_obj g ! k of None \<Rightarrow> None | Some ob \<Rightarrow> if h = cam_hdl ob then Some k else None)
      else None)"

definition get_dev_name :: "mm_camera_ctrl \<Rightarrow> 32 word \<Rightarrow> string option" where
  "get_dev_name g h =
     (let k = get_index_by_handler h in if k < length (cam_obj g) then Some (video_dev_name g ! k) else None)"

definition put_cam :: "nat \<Rightarrow> mm_camera_obj \<Rightarrow> mm_camera_ctrl \<Rightarrow> mm_camera_ctrl" where
  "put_cam k ob g = g\<lparr>cam_obj := (cam_obj g)[k := Some ob]\<rparr>"

text \<open>An operation of the camera with a handle; without one the result is \<open>missing\<close>.\<close>

definition intf :: "'a \<Rightarrow> (mm_camera_obj \<Rightarrow> cw \<Rightarrow> ('a \<times> mm_camera_obj \<times> cw) option) \<Rightarrow> 32 word \<Rightarrow> mm_camera_ctrl \<Rightarrow>
    ('a \<times> mm_camera_ctrl) option" where
  "intf missing f h g =
     (if intf_locked g then None else
      case get_camera_by_handler g h of
        None \<Rightarrow> Some (missing, g)
      | Some k \<Rightarrow>
          map_option (\<lambda>(r, ob, w). (r, put_cam k ob (g\<lparr>cworld := w\<rparr>))) (f (the (cam_obj g ! k)) (cworld g)))"

text \<open>Operations that use the camera only, its descriptor only, its channels only.\<close>

definition of_obj :: "(mm_camera_obj \<Rightarrow> 'a \<times> mm_camera_obj) \<Rightarrow> mm_camera_obj \<Rightarrow> cw \<Rightarrow> ('a \<times> mm_camera_obj \<times> cw) option" where
  "of_obj f ob w = Some (case f ob of (r, ob) \<Rightarrow> (r, ob, w))"

definition of_ctl :: "(mm_camera_obj \<Rightarrow> int \<times> cam_ioctl list) \<Rightarrow> mm_camera_obj \<Rightarrow> cw \<Rightarrow>
    ((int \<times> cam_ioctl list) \<times> mm_camera_obj \<times> cw) option" where
  "of_ctl f ob w = Some (f ob, ob, w)"

definition of_chans :: "(cw \<Rightarrow> ('a \<times> cw) option) \<Rightarrow> mm_camera_obj \<Rightarrow> cw \<Rightarrow> ('a \<times> mm_camera_obj \<times> cw) option" where
  "of_chans f ob w =
     map_option (\<lambda>(r, v). (r, ob\<lparr>cam_chans := chans v\<rparr>, v\<lparr>chans := []\<rparr>)) (f (w\<lparr>chans := cam_chans ob\<rparr>))"

section \<open>Operations\<close>

definition mm_camera_intf_query_capability where
  "mm_camera_intf_query_capability io = intf (- 1, []) (of_ctl (mm_camera_query_capability io))"
definition mm_camera_intf_set_parms where
  "mm_camera_intf_set_parms io given = intf (- 1, []) (of_ctl (mm_camera_set_parms io given))"
definition mm_camera_intf_get_parms where
  "mm_camera_intf_get_parms io given = intf (- 1, []) (of_ctl (mm_camera_get_parms io given))"
definition mm_camera_intf_do_auto_focus where
  "mm_camera_intf_do_auto_focus io = intf (- 1, []) (of_ctl (mm_camera_do_auto_focus io))"
definition mm_camera_intf_cancel_auto_focus where
  "mm_camera_intf_cancel_auto_focus io = intf (- 1, []) (of_ctl (mm_camera_cancel_auto_focus io))"
definition mm_camera_intf_prepare_snapshot where
  "mm_camera_intf_prepare_snapshot io af = intf (- 1, []) (of_ctl (mm_camera_prepare_snapshot io af))"

definition mm_camera_intf_add_channel where
  "mm_camera_intf_add_channel at f = intf 0 (of_chans (\<lambda>w. Some (mm_camera_add_channel at f w)))"
definition mm_camera_intf_del_channel where
  "mm_camera_intf_del_channel E ch = intf (- 1) (of_chans (mm_camera_del_channel E ch))"
definition mm_camera_intf_get_bundle_info where
  "mm_camera_intf_get_bundle_info E ch =
     intf (- 1, NoOut) (of_chans (\<lambda>w. map_option (\<lambda>(rc, out, w). ((rc, out), w)) (mm_camera_get_bundle_info E ch w)))"
definition mm_camera_intf_register_event_notify where
  "mm_camera_intf_register_event_notify f user = intf (- 1) (of_obj (mm_camera_register_event_notify f user))"
definition mm_camera_intf_qbuf where
  "mm_camera_intf_qbuf E ch b = intf (- 1) (of_chans (mm_camera_qbuf E ch b))"
definition mm_camera_intf_get_queued_buf_count where
  "mm_camera_intf_get_queued_buf_count E ch s = intf (- 1) (of_chans (mm_camera_get_queued_buf_count E ch s))"
definition mm_camera_intf_link_stream where
  "mm_camera_intf_link_stream E ch s linked = intf 0 (of_chans (mm_camera_link_stream E ch s linked))"
definition mm_camera_intf_add_stream where
  "mm_camera_intf_add_stream E ch = intf 0 (of_chans (mm_camera_add_stream E ch))"
definition mm_camera_intf_del_stream where
  "mm_camera_intf_del_stream E ch s = intf (- 1) (of_chans (mm_camera_del_stream E ch s))"
definition mm_camera_intf_config_stream where
  "mm_camera_intf_config_stream E ch s config = intf (- 1) (of_chans (mm_camera_config_stream E ch s config))"
definition mm_camera_intf_start_channel where
  "mm_camera_intf_start_channel E ch = intf (- 1) (of_chans (mm_camera_start_channel E ch))"
definition mm_camera_intf_stop_channel where
  "mm_camera_intf_stop_channel E ch = intf (- 1) (of_chans (mm_camera_stop_channel E ch))"
definition mm_camera_intf_request_super_buf where
  "mm_camera_intf_request_super_buf E ch n = intf (- 1) (of_chans (mm_camera_request_super_buf E ch n))"
definition mm_camera_intf_cancel_super_buf_request where
  "mm_camera_intf_cancel_super_buf_request E ch = intf (- 1) (of_chans (mm_camera_cancel_super_buf_request E ch))"
definition mm_camera_intf_flush_super_buf_queue where
  "mm_camera_intf_flush_super_buf_queue E ch idx = intf (- 1) (of_chans (mm_camera_flush_super_buf_queue E ch idx))"
definition mm_camera_intf_start_zsl_snapshot where
  "mm_camera_intf_start_zsl_snapshot E ch = intf (- 1) (of_chans (mm_camera_start_zsl_snapshot_ch E ch))"
definition mm_camera_intf_stop_zsl_snapshot where
  "mm_camera_intf_stop_zsl_snapshot E ch = intf (- 1) (of_chans (mm_camera_stop_zsl_snapshot_ch E ch))"
definition mm_camera_intf_configure_notify_mode where
  "mm_camera_intf_configure_notify_mode E ch mode = intf (- 1) (of_chans (mm_camera_config_channel_notify E ch mode))"
definition mm_camera_intf_map_buf where
  "mm_camera_intf_map_buf D t d n = intf (- 1) (of_obj (mm_camera_map_buf D t d n))"
definition mm_camera_intf_unmap_buf where
  "mm_camera_intf_unmap_buf D t = intf (- 1) (of_obj (mm_camera_unmap_buf D t))"
definition mm_camera_intf_set_stream_parms where
  "mm_camera_intf_set_stream_parms E ch s given = intf (- 1) (of_chans (mm_camera_set_stream_parms E ch s given))"
definition mm_camera_intf_get_stream_parms where
  "mm_camera_intf_get_stream_parms E ch s given = intf (- 1) (of_chans (mm_camera_get_stream_parms E ch s given))"
definition mm_camera_intf_map_stream_buf where
  "mm_camera_intf_map_stream_buf E ch s t = intf (- 1) (of_chans (mm_camera_map_stream_buf E ch s t))"
definition mm_camera_intf_unmap_stream_buf where
  "mm_camera_intf_unmap_stream_buf E ch s t = intf (- 1) (of_chans (mm_camera_unmap_stream_buf E ch s t))"
definition mm_camera_intf_process_advanced_capture :: "cam_env \<Rightarrow> mm_camera_advanced_capture \<Rightarrow> 32 word \<Rightarrow> 8 word \<Rightarrow>
    32 word \<Rightarrow> mm_camera_ctrl \<Rightarrow> (int \<times> mm_camera_ctrl) option" where
  "mm_camera_intf_process_advanced_capture E t ch start_flag =
     intf (- 1) (of_chans (mm_camera_channel_advanced_capture E t ch (scast start_flag)))"

section \<open>Opening and closing\<close>

text \<open>
  \<open>mem\<close> tells whether the object can be allocated, \<open>outside\<close> what happens outside meanwhile. The new
  object enters the table only after it has been opened. The result is the camera's handle.
\<close>

definition camera_open :: "bool \<Rightarrow> open_env \<Rightarrow> nat \<Rightarrow> mm_camera_ctrl \<Rightarrow> (32 word option \<times> mm_camera_ctrl) option" where
  "camera_open mem oe k g =
     (if num_cam g \<le> k then Some (None, g)
      else if intf_locked g then None
      else
        (case cam_obj g ! k of
           Some ob \<Rightarrow> Some (Some (cam_hdl ob), put_cam k (ob\<lparr>ref_count := ref_count ob + 1\<rparr>) g)
         | None \<Rightarrow>
             if \<not> mem then Some (None, g)
             else
               (case generate_handler k (cworld g) of
                  (h, w) \<Rightarrow>
                    (let g = g\<lparr>cworld := w\<rparr> in
                     case mm_camera_open (oe\<lparr>has_dev_name := get_dev_name g h \<noteq> None\<rparr>) (new_camera h) of
                       None \<Rightarrow> None
                     | Some (rc, ob) \<Rightarrow>
                         if rc \<noteq> 0 then Some (None, g\<lparr>cam_obj := (cam_obj g)[k := None]\<rparr>)
                         else Some (Some h, put_cam k ob g)))))"

definition mm_camera_intf_close :: "int \<Rightarrow> bool \<Rightarrow> 32 word \<Rightarrow> mm_camera_ctrl \<Rightarrow> (int \<times> mm_camera_ctrl) option" where
  "mm_camera_intf_close io wr h g =
     (if intf_locked g then None else
      case get_camera_by_handler g h of
        None \<Rightarrow> Some (- 1, g)
      | Some k \<Rightarrow>
          (let ob = the (cam_obj g ! k); n = ref_count ob - 1 in
           if 0 < n then Some (0, put_cam k (ob\<lparr>ref_count := n\<rparr>) g)
           else map_option (\<lambda>_. (0, g\<lparr>cam_obj := (cam_obj g)[get_index_by_handler h := None]\<rparr>))
                  (mm_camera_close io wr (ob\<lparr>ref_count := n\<rparr>))))"

text \<open>
  Whether a second camera may be opened; \<open>pip\<close> is the property \<open>persist.camera.pip.support\<close>. With two
  cameras \<open>1 - camera_idx\<close> is the other one.
\<close>

definition check_cam_access :: "bool \<Rightarrow> nat \<Rightarrow> mm_camera_ctrl \<Rightarrow> bool option" where
  "check_cam_access pip k g =
     (if intf_locked g then None
      else Some (num_cam g \<noteq> 2 \<or>
        (case cam_obj g ! (1 - k) of
           None \<Rightarrow> True
         | Some _ \<Rightarrow> pip \<and> (is_yuv g ! k \<or> is_yuv g ! (1 - k)))))"

section \<open>Users of a camera\<close>

fun open_times :: "open_env \<Rightarrow> nat \<Rightarrow> nat \<Rightarrow> mm_camera_ctrl \<Rightarrow> (32 word option list \<times> mm_camera_ctrl) option" where
  "open_times oe k 0 g = Some ([], g)"
| "open_times oe k (Suc n) g =
     (case camera_open True oe k g of
        None \<Rightarrow> None
      | Some (r, g) \<Rightarrow> map_option (\<lambda>(rs, g). (r # rs, g)) (open_times oe k n g))"

fun close_times :: "32 word \<Rightarrow> nat \<Rightarrow> mm_camera_ctrl \<Rightarrow> (int list \<times> mm_camera_ctrl) option" where
  "close_times h 0 g = Some ([], g)"
| "close_times h (Suc n) g =
     (case mm_camera_intf_close 0 True h g of
        None \<Rightarrow> None
      | Some (r, g) \<Rightarrow> map_option (\<lambda>(rs, g). (r # rs, g)) (close_times h n g))"

text \<open>The camera at a place is open, with a number of users and a poll thread that runs.\<close>

definition opened :: "nat \<Rightarrow> 32 word \<Rightarrow> int \<Rightarrow> mm_camera_ctrl \<Rightarrow> bool" where
  "opened k h n g \<longleftrightarrow> k < num_cam g \<and> k < length (cam_obj g) \<and> get_index_by_handler h = k \<and> \<not> intf_locked g \<and>
     (\<exists>ob. cam_obj g ! k = Some ob \<and> cam_hdl ob = h \<and> ref_count ob = n \<and>
        poll_state (evt_poll_thread ob) = MM_CAMERA_POLL_TASK_STATE_POLL \<and> only_async (evt_poll_thread ob))"

lemma opened_found: "opened k h n g \<Longrightarrow> get_camera_by_handler g h = Some k"
  by (auto simp: opened_def get_camera_by_handler_def)

lemma open_again:
  assumes "opened k h n g"
  shows "\<exists>g'. camera_open mem oe k g = Some (Some h, g') \<and> opened k h (n + 1) g' \<and>
    cam_obj g' = (cam_obj g)[k := cam_obj g' ! k]"
  using assms by (auto simp: opened_def camera_open_def put_cam_def)

lemma close_one:
  assumes "opened k h n g" "1 < n"
  shows "\<exists>g'. mm_camera_intf_close io wr h g = Some (0, g') \<and> opened k h (n - 1) g' \<and>
    cam_obj g' = (cam_obj g)[k := cam_obj g' ! k]"
  using assms opened_found [OF assms(1)]
  by (auto simp: opened_def mm_camera_intf_close_def put_cam_def Let_def)

lemma evt_unsub_poll:
  assumes "poll_state (evt_poll_thread ob) = MM_CAMERA_POLL_TASK_STATE_POLL" "only_async (evt_poll_thread ob)"
  shows "\<exists>rc ob'. mm_camera_evt_sub io True False ob = Some (rc, ob') \<and>
    poll_state (evt_poll_thread ob') = MM_CAMERA_POLL_TASK_STATE_POLL \<and> only_async (evt_poll_thread ob')"
  using assms
  by (auto simp: mm_camera_evt_sub_def poll_thread_del_poll_fd_def entries_updated_sync only_async_def Let_def)

lemma close_returns:
  assumes "poll_state (evt_poll_thread ob) = MM_CAMERA_POLL_TASK_STATE_POLL" "only_async (evt_poll_thread ob)"
  shows "mm_camera_close io True ob \<noteq> None"
proof -
  obtain rc ob' where "mm_camera_evt_sub io True False ob = Some (rc, ob')"
      "poll_thread_release True (evt_poll_thread ob') = Some (0, no_poll_thread)"
    using evt_unsub_poll [OF assms] release_running by blast
  then show ?thesis
    by (simp add: mm_camera_close_def split: prod.split)
qed

lemma close_last:
  assumes "opened k h 1 g"
  shows "\<exists>g'. mm_camera_intf_close io True h g = Some (0, g') \<and> cam_obj g' = (cam_obj g)[k := None]"
proof -
  obtain ob where ob: "cam_obj g ! k = Some ob" "ref_count ob = 1"
      "poll_state (evt_poll_thread ob) = MM_CAMERA_POLL_TASK_STATE_POLL" "only_async (evt_poll_thread ob)"
    using assms by (auto simp: opened_def)
  have "mm_camera_close io True (ob\<lparr>ref_count := 0\<rparr>) \<noteq> None"
    by (rule close_returns) (use ob in simp_all)
  then show ?thesis
    using ob assms opened_found [OF assms] by (auto simp: mm_camera_intf_close_def opened_def Let_def)
qed

lemma open_times_opened:
  "opened k h n g \<Longrightarrow>
   \<exists>g'. open_times oe k m g = Some (replicate m (Some h), g') \<and> opened k h (n + int m) g' \<and>
     cam_obj g' = (cam_obj g)[k := cam_obj g' ! k]"
proof (induction m arbitrary: g n)
  case (Suc m)
  obtain g1 where g1: "camera_open True oe k g = Some (Some h, g1)" "opened k h (n + 1) g1"
      "cam_obj g1 = (cam_obj g)[k := cam_obj g1 ! k]"
    using open_again [OF Suc.prems] by blast
  obtain g' where "open_times oe k m g1 = Some (replicate m (Some h), g')" "opened k h (n + 1 + int m) g'"
      "cam_obj g' = (cam_obj g1)[k := cam_obj g' ! k]"
    using Suc.IH [OF g1(2)] by blast
  then show ?case
    using g1 by (auto simp: algebra_simps) (metis list_update_overwrite)
qed (auto)

lemma close_times_opened:
  "opened k h n g \<Longrightarrow> int m < n \<Longrightarrow>
   \<exists>g'. close_times h m g = Some (replicate m 0, g') \<and> opened k h (n - int m) g' \<and>
     cam_obj g' = (cam_obj g)[k := cam_obj g' ! k]"
proof (induction m arbitrary: g n)
  case (Suc m)
  obtain g1 where g1: "mm_camera_intf_close 0 True h g = Some (0, g1)" "opened k h (n - 1) g1"
      "cam_obj g1 = (cam_obj g)[k := cam_obj g1 ! k]"
    using close_one [OF Suc.prems(1)] Suc.prems(2) by force
  obtain g' where "close_times h m g1 = Some (replicate m 0, g')" "opened k h (n - 1 - int m) g'"
      "cam_obj g' = (cam_obj g1)[k := cam_obj g' ! k]"
    using Suc.IH [OF g1(2)] Suc.prems(2) by force
  then show ?case
    using g1 by (auto simp: algebra_simps) (metis list_update_overwrite)
qed (auto)

end
