(* ===== verification/MM_Probe.thy ===== *)
theory MM_Probe
  imports MM_Interface "HOL-Library.Multiset"
begin

text \<open>
  The discovery of the device's cameras (\<open>get_num_of_cameras\<close> of \<open>mm_camera_interface.c\<close>): the media
  devices of the kernel are gone through for the sensor initialiser, for the video nodes and for the
  sensors; the cameras found are then sorted, those facing back first.
\<close>

section \<open>What the kernel shows\<close>

datatype media_type = MEDIA_ENT_T_V4L2_SUBDEV | MEDIA_ENT_T_DEVNODE_V4L | Other_type
datatype media_group = MSM_CAMERA_SUBDEV_SENSOR | MSM_CAMERA_SUBDEV_SENSOR_INIT | QCAMERA_VNODE_GROUP_ID | Other_group

record media_entity =
  me_type :: media_type
  me_group :: media_group
  me_name :: string
  me_flags :: "32 word"

text \<open>\<open>md_ok\<close>: the device answers the request for its description.\<close>

record media_device =
  md_ok :: bool
  md_model :: string
  md_entities :: "media_entity list"

text \<open>
  The devices in order, up to the first that does not open; the models named in the kernel's headers;
  whether a sensor initialiser opens; and what the name of the initialiser is when none is found, an
  array that is not initialised.
\<close>

record kernel =
  media_devices :: "media_device list"
  k_camera_name :: string
  k_configuration_name :: string
  opens :: "string \<Rightarrow> bool"
  junk_name :: string

definition CAMERA_FACING_BACK :: nat where "CAMERA_FACING_BACK = 0"
definition CAMERA_FACING_FRONT :: nat where "CAMERA_FACING_FRONT = 1"

section \<open>The three passes\<close>

text \<open>The last initialiser found counts; a name is cut to the size of its array.\<close>

fun find_sensor_init :: "media_device list \<Rightarrow> string \<Rightarrow> string" where
  "find_sensor_init [] name = name"
| "find_sensor_init (d # ds) name =
     (if \<not> md_ok d then name
      else if md_model d \<noteq> ''msm_config'' then find_sensor_init ds name
      else find_sensor_init ds
        (case List.find (\<lambda>e. me_type e = MEDIA_ENT_T_V4L2_SUBDEV \<and> me_group e = MSM_CAMERA_SUBDEV_SENSOR_INIT)
                (md_entities d) of
           None \<Rightarrow> name
         | Some e \<Rightarrow> take 31 (''/dev/'' @ me_name e)))"

text \<open>Every camera device counts; \<^term>\<open>None\<close> is a write past the end of the table.\<close>

fun find_nodes :: "string \<Rightarrow> media_device list \<Rightarrow> nat \<Rightarrow> string list \<Rightarrow> (nat \<times> string list) option" where
  "find_nodes cam [] n names = Some (n, names)"
| "find_nodes cam (d # ds) n names =
     (if \<not> md_ok d then Some (0, names)
      else if md_model d \<noteq> cam then find_nodes cam ds n names
      else
        (case List.find (\<lambda>e. me_type e = MEDIA_ENT_T_DEVNODE_V4L \<and> me_group e = QCAMERA_VNODE_GROUP_ID)
                (md_entities d) of
           None \<Rightarrow> find_nodes cam ds (Suc n) names
         | Some e \<Rightarrow>
             if n < length names then find_nodes cam ds (Suc n) (names[n := me_name e]) else None))"

definition sensor_info :: "32 word \<Rightarrow> cam_info \<times> bool" where
  "sensor_info flags =
     (let temp = drop_bit 8 flags in
      (\<lparr>facing = unat (drop_bit 8 (and temp 0xFF00)), orientation = unat (and temp 0xFF * 90)\<rparr>,
       bit flags 25))"

fun find_sensors :: "string \<Rightarrow> media_device list \<Rightarrow> nat \<Rightarrow> cam_info list \<Rightarrow> bool list \<Rightarrow>
    (cam_info list \<times> bool list) option" where
  "find_sensors config [] n cs ys = Some (cs, ys)"
| "find_sensors config (d # ds) n cs ys =
     (if \<not> md_ok d then Some (cs, ys)
      else if md_model d \<noteq> config then find_sensors config ds n cs ys
      else
        (let es = filter (\<lambda>e. me_type e = MEDIA_ENT_T_V4L2_SUBDEV \<and> me_group e = MSM_CAMERA_SUBDEV_SENSOR) (md_entities d);
             found = map (sensor_info \<circ> me_flags) es; m = n + length es
         in if length cs < m then None
            else find_sensors config ds m (take n cs @ map fst found @ drop m cs) (take n ys @ map snd found @ drop m ys)))"

definition get_sensor_info :: "kernel \<Rightarrow> mm_camera_ctrl \<Rightarrow> mm_camera_ctrl option" where
  "get_sensor_info K g =
     map_option (\<lambda>(cs, ys). g\<lparr>info := cs, is_yuv := ys\<rparr>)
       (find_sensors (k_configuration_name K) (media_devices K) 0 (info g) (is_yuv g))"

section \<open>Sorting\<close>

definition facing_at :: "mm_camera_ctrl \<Rightarrow> nat \<Rightarrow> nat" where "facing_at g i = facing (info g ! i)"

definition sort_order :: "nat \<Rightarrow> mm_camera_ctrl \<Rightarrow> nat list" where
  "sort_order n g =
     filter (\<lambda>i. facing_at g i = CAMERA_FACING_BACK) [0..<n] @ filter (\<lambda>i. facing_at g i = CAMERA_FACING_FRONT) [0..<n]"

definition rearrange :: "nat list \<Rightarrow> 'a \<Rightarrow> 'a list \<Rightarrow> 'a list" where
  "rearrange is z xs = map ((!) xs) is @ replicate (length xs - length is) z"

text \<open>The tables are rearranged, their rest zeroed, if every camera faces back or front.\<close>

definition sort_camera_info :: "nat \<Rightarrow> mm_camera_ctrl \<Rightarrow> mm_camera_ctrl" where
  "sort_camera_info n g =
     (let is = sort_order n g in
      if length is = n
      then g\<lparr>info := rearrange is \<lparr>facing = 0, orientation = 0\<rparr> (info g), is_yuv := rearrange is False (is_yuv g),
             video_dev_name := rearrange is [] (video_dev_name g)\<rparr>
      else g)"

section \<open>Discovery\<close>

text \<open>
  Nothing is looked for before the device is decrypted. When the sensor initialiser cannot be opened
  the function returns with the library's lock held. \<^term>\<open>None\<close> is a wait for that lock, or an access past the
  end of a table.
\<close>

definition get_num_of_cameras :: "kernel \<Rightarrow> bool \<Rightarrow> mm_camera_ctrl \<Rightarrow> (nat \<times> mm_camera_ctrl) option" where
  "get_num_of_cameras K decrypt g =
     (if decrypt then Some (0, g)
      else if intf_locked g then None
      else if \<not> opens K (find_sensor_init (media_devices K) (junk_name K)) then Some (0, g\<lparr>intf_locked := True\<rparr>)
      else do {
        (n, names) \<leftarrow> find_nodes (k_camera_name K) (media_devices K) 0 (video_dev_name g);
        g \<leftarrow> get_sensor_info K (g\<lparr>video_dev_name := names, num_cam := n\<rparr>);
        if length (info g) < n then None else Some (n, sort_camera_info n g) })"

section \<open>Laws of sorting\<close>

lemma sort_order_distinct: "distinct (sort_order n g)"
  by (auto simp: sort_order_def CAMERA_FACING_BACK_def CAMERA_FACING_FRONT_def)

lemma set_sort_order:
  "set (sort_order n g) = {i. i < n \<and> facing_at g i \<in> {CAMERA_FACING_BACK, CAMERA_FACING_FRONT}}"
  by (auto simp: sort_order_def)

lemma sort_order_perm: "length (sort_order n g) = n \<longleftrightarrow> mset (sort_order n g) = mset [0..<n]"
proof
  assume "length (sort_order n g) = n"
  then have "card (set (sort_order n g)) = n"
    using sort_order_distinct distinct_card by metis
  moreover have "set (sort_order n g) \<subseteq> {0..<n}"
    by (auto simp: set_sort_order)
  ultimately have "set (sort_order n g) = set [0..<n]"
    using card_subset_eq[of "{0..<n}" "set (sort_order n g)"] by simp
  then show "mset (sort_order n g) = mset [0..<n]"
    using set_eq_iff_mset_eq_distinct[OF sort_order_distinct distinct_upt] by blast
next
  assume "mset (sort_order n g) = mset [0..<n]"
  then show "length (sort_order n g) = n"
    by (metis length_upt diff_zero size_mset)
qed

lemma take_rearrange: "n = length is \<Longrightarrow> take n (rearrange is z xs) = map ((!) xs) is"
  by (simp add: rearrange_def)

end
