(* ===== verification/MM_Camera_Props.thy ===== *)
theory MM_Camera_Props
  imports MM_Properties MM_Handles MM_Probe
begin

text \<open>
  Properties of the camera objects: their channels' handles, the count of their users, the answers to
  their messages, and the discovery of the cameras.
\<close>

section \<open>Channels\<close>

text \<open>
  C21: the handles of a camera's channels are sound: after any run of channel operations that
  returns, on a camera just opened, a channel that is in use is found by its handle and by no other,
  and a new channel takes a place that was not in use, gets a handle no channel has, and leaves every
  other handle as it was.
\<close>

theorem channel_handles_resolve:
  assumes run: "chan_dos E xs (w0\<lparr>chans := cam_chans (new_camera k)\<rparr>) = Some w"
    and c: "c < MM_CAMERA_CHANNEL_MAX" "ch_state (chan c w) \<noteq> MM_CHANNEL_STATE_NOTUSED"
    and add: "mm_camera_add_channel at f w = (h, w')" "h \<noteq> 0"
  shows "get_channel_by_handler w (ch_hdl (chan c w)) = Some c \<and>
    get_channel_by_handler w h = None \<and>
    get_channel_by_handler w' (ch_hdl (chan c w)) = Some c \<and>
    get_channel_by_handler w' h = free_channel w"
proof -
  have ok: "chans_ok w"
    using chan_dos_ok [OF new_chans_ok run] .
  have ok': "chans_ok w'"
    using add_channel_ok [OF ok, of at f] add(1) by simp
  obtain d where d: "free_channel w = Some d" "get_index_by_handler h = d" "hs w' = (hs w)[d := (h, MM_CHANNEL_STATE_STOPPED)]"
    using add_channel_hs [OF add(1) chans_ok_length [OF ok]] add(2) by auto
  have hdl: "ch_hdl (chan c w) \<noteq> 0"
    using ok c by (auto simp: chans_ok_def channel_ok_def)
  have d': "d < MM_CAMERA_CHANNEL_MAX" "ch_hdl (chan d w) = 0" "c \<noteq> d"
    using free_channel [OF d(1)] ok c(2) by (auto simp: chans_ok_def channel_ok_def)
  have at: "hs w' ! i = (ch_hdl (chan i w'), ch_state (chan i w'))" "hs w ! i = (ch_hdl (chan i w), ch_state (chan i w))"
    if "i < MM_CAMERA_CHANNEL_MAX" for i
    using that ok ok' by (simp_all add: hs_chan chans_ok_length)
  have "ch_hdl (chan c w') = ch_hdl (chan c w)" "ch_hdl (chan d w') = h"
    using at(1) [OF c(1)] at(2) [OF c(1)] at(1) [OF d'(1)] d(3) d'(1,3) ok
    by (auto simp: length_hs chans_ok_length)
  moreover have "ch_hdl (chan i w) \<noteq> h" if "i < MM_CAMERA_CHANNEL_MAX" for i
    using ok that d(2) d'(2) add(2) by (auto simp: chans_ok_def channel_ok_def split: if_splits)
  ultimately show ?thesis
    using c(1) d(1) d'(1) add(2) hdl by (auto simp: resolves [OF ok hdl] resolves [OF ok' hdl] resolves [OF ok' add(2)] no_channel_iff)
qed

definition blank :: cw where
  "blank = \<lparr>chans = [], g_handler_history_count = 0, w_rets = [], w_mems = [], w_frames = [], w_allocs = [], w_trace = []\<rparr>"

definition one_channel :: cw where
  "one_channel = the (chan_dos env0 [Add_channel None None] (blank\<lparr>chans := cam_chans (new_camera 1)\<rparr>))"

lemma one_channel_run: "chan_dos env0 [Add_channel None None] (blank\<lparr>chans := cam_chans (new_camera 1)\<rparr>) = Some one_channel"
  by (simp add: one_channel_def)

lemma one_channel_state: "ch_state (chan 0 one_channel) = MM_CHANNEL_STATE_STOPPED" "ch_hdl (chan 0 one_channel) = 0x100"
  "fst (mm_camera_add_channel None None one_channel) = 0x201" "free_channel one_channel = Some 1"
  by code_simp+

theorem channel_handles_resolve_witness:
  "get_channel_by_handler one_channel 0x100 = Some 0 \<and>
   get_channel_by_handler (snd (mm_camera_add_channel None None one_channel)) 0x201 = Some 1"
proof -
  have c: "0 < MM_CAMERA_CHANNEL_MAX" "ch_state (chan 0 one_channel) \<noteq> MM_CHANNEL_STATE_NOTUSED"
    by (simp_all add: MM_CAMERA_CHANNEL_MAX_def one_channel_state)
  have a: "mm_camera_add_channel None None one_channel = (0x201, snd (mm_camera_add_channel None None one_channel))"
    by (metis one_channel_state(3) prod.collapse)
  show ?thesis
    using channel_handles_resolve [OF one_channel_run c a] by (simp add: one_channel_state)
qed

text \<open>
  Deleting a channel that is active succeeds and zeroes its object: its streams are not stopped,
  neither its poll thread nor its other threads are released, and nothing happens outside.
\<close>

theorem active_channel_wiped:
  assumes "get_channel_by_handler w h = Some c" "ch_state (chan c w) = MM_CHANNEL_STATE_ACTIVE"
  shows "mm_camera_del_channel E h w = Some (0, upd_chan c (\<lambda>_. no_channel) w)"
  using assms
  by (simp add: mm_camera_del_channel_def mm_channel_fsm_fn_def mm_channel_fsm_fn_active_def no_out_def)

theorem active_channel_wiped_witness:
  "mm_camera_del_channel env0 0x100
     (upd_chan 0 (\<lambda>ch. ch\<lparr>ch_state := MM_CHANNEL_STATE_ACTIVE\<rparr>) one_channel) =
   Some (0, upd_chan 0 (\<lambda>_. no_channel) (upd_chan 0 (\<lambda>ch. ch\<lparr>ch_state := MM_CHANNEL_STATE_ACTIVE\<rparr>) one_channel))"
proof -
  let ?w = "upd_chan 0 (\<lambda>ch. ch\<lparr>ch_state := MM_CHANNEL_STATE_ACTIVE\<rparr>) one_channel"
  have "get_channel_by_handler ?w 0x100 = Some 0" "ch_state (chan 0 ?w) = MM_CHANNEL_STATE_ACTIVE"
    by code_simp+
  then show ?thesis
    by (rule active_channel_wiped)
qed

section \<open>Opening and closing\<close>

text \<open>What opens a camera: its devices and its pipe open.\<close>

definition opens_well :: "open_env \<Rightarrow> bool" where
  "opens_well oe \<longleftrightarrow> 0 < open_dev oe 0 (MM_CAMERA_DEV_OPEN_TRIES - 1) \<and> 0 < open_sock oe 0 (MM_CAMERA_DEV_OPEN_TRIES - 1) \<and>
     0 \<le> o_pipe oe \<and> o_wr oe"

lemma add_fd_running:
  assumes "poll_state p = MM_CAMERA_POLL_TASK_STATE_POLL" "only_async p"
  shows "\<exists>rc q. poll_thread_add_poll_fd h d f u True True p = Some (rc, q) \<and>
    poll_state q = MM_CAMERA_POLL_TASK_STATE_POLL \<and> only_async q"
  using assms by (simp add: poll_thread_add_poll_fd_def entries_updated_sync only_async_def Let_def)

lemma evt_sub_poll:
  assumes "poll_state (evt_poll_thread ob) = MM_CAMERA_POLL_TASK_STATE_POLL" "only_async (evt_poll_thread ob)"
  shows "\<exists>rc p. mm_camera_evt_sub io True True ob = Some (rc, ob\<lparr>evt_poll_thread := p\<rparr>) \<and>
    poll_state p = MM_CAMERA_POLL_TASK_STATE_POLL \<and> only_async p"
proof (cases "io < 0")
  case True
  have "ob = ob\<lparr>evt_poll_thread := evt_poll_thread ob\<rparr>"
    by (cases ob) simp
  then show ?thesis
    using True assms by (metis mm_camera_evt_sub_def)
next
  case False
  then show ?thesis
    using add_fd_running [OF assms, of "cam_hdl ob" "ctrl_fd ob" EVENT_NOTIFY "Some (unat (cam_hdl ob))"]
    by (auto simp: mm_camera_evt_sub_def)
qed

lemma open_dev_name [simp]: "open_dev (oe\<lparr>has_dev_name := b\<rparr>) k n = open_dev oe k n"
  by (induction n arbitrary: k) simp_all

lemma open_sock_name [simp]: "open_sock (oe\<lparr>has_dev_name := b\<rparr>) k n = open_sock oe k n"
  by (induction n arbitrary: k) simp_all

lemma camera_opens:
  assumes "opens_well oe"
  shows "\<exists>ob. mm_camera_open (oe\<lparr>has_dev_name := True\<rparr>) (new_camera h) = Some (0, ob) \<and> cam_hdl ob = h \<and> ref_count ob = 1 \<and>
    poll_state (evt_poll_thread ob) = MM_CAMERA_POLL_TASK_STATE_POLL \<and> only_async (evt_poll_thread ob)"
proof -
  let ?p = "snd (poll_thread_launch (o_pipe oe) MM_CAMERA_POLL_TYPE_EVT no_poll_thread)"
  let ?ob = "(new_camera h)\<lparr>ctrl_fd := open_dev oe 0 (MM_CAMERA_DEV_OPEN_TRIES - 1),
    ds_fd := open_sock oe 0 (MM_CAMERA_DEV_OPEN_TRIES - 1), evt_queue := Some [], evt_poll_thread := ?p\<rparr>"
  have "poll_state ?p = MM_CAMERA_POLL_TASK_STATE_POLL" "only_async ?p"
    using assms by (simp_all add: poll_thread_launch_def opens_well_def only_async_def)
  then obtain rc p where "mm_camera_evt_sub (o_sub oe) True True ?ob = Some (rc, ?ob\<lparr>evt_poll_thread := p\<rparr>)"
      "poll_state p = MM_CAMERA_POLL_TASK_STATE_POLL" "only_async p"
    using evt_sub_poll [of ?ob "o_sub oe"] by auto
  then show ?thesis
    using assms by (auto simp: mm_camera_open_def opens_well_def Let_def new_camera_def split: prod.split)
qed

text \<open>
  C22: a camera is closed with its last user. Opened once when it was closed, and \<open>n\<close> times more, it is
  opened under one handle every time; each of the \<open>n\<close> closes that follow succeeds and leaves it open,
  the next one takes it out of the table, which is then as it was, and its handle is no longer known.
\<close>

theorem users_counted:
  assumes "k < num_cam g" "k < length (cam_obj g)" "k < 256" "cam_obj g ! k = None" "\<not> intf_locked g"
    and "opens_well oe"
  shows "\<exists>h g2 g3 g4. open_times oe k (Suc n) g = Some (replicate (Suc n) (Some h), g2) \<and>
    close_times h n g2 = Some (replicate n 0, g3) \<and> get_camera_by_handler g3 h = Some k \<and>
    mm_camera_intf_close 0 True h g3 = Some (0, g4) \<and> cam_obj g4 = cam_obj g \<and> get_camera_by_handler g4 h = None"
proof -
  obtain h w where h: "generate_handler k (cworld g) = (h, w)"
    by fastforce
  have ix: "get_index_by_handler h = k"
    using generated_handler [OF h assms(3)] by simp
  obtain ob where ob: "mm_camera_open (oe\<lparr>has_dev_name := True\<rparr>) (new_camera h) = Some (0, ob)" "cam_hdl ob = h"
      "ref_count ob = 1" "poll_state (evt_poll_thread ob) = MM_CAMERA_POLL_TASK_STATE_POLL" "only_async (evt_poll_thread ob)"
    using camera_opens [OF assms(6)] by blast
  let ?g1 = "put_cam k ob (g\<lparr>cworld := w\<rparr>)"
  have o1: "camera_open True oe k g = Some (Some h, ?g1)"
    using assms ob(1) ix by (simp add: camera_open_def h Let_def get_dev_name_def)
  have c1: "cam_obj ?g1 = (cam_obj g)[k := Some ob]"
    by (simp add: put_cam_def)
  have op1: "opened k h 1 ?g1"
    using assms ob ix by (simp add: opened_def put_cam_def)
  obtain g2 where g2: "open_times oe k n ?g1 = Some (replicate n (Some h), g2)" "opened k h (1 + int n) g2"
      "cam_obj g2 = (cam_obj ?g1)[k := cam_obj g2 ! k]"
    using open_times_opened [OF op1] by blast
  obtain g3 where g3: "close_times h n g2 = Some (replicate n 0, g3)" "opened k h 1 g3"
      "cam_obj g3 = (cam_obj g2)[k := cam_obj g3 ! k]"
    using close_times_opened [OF g2(2), of n] by auto
  obtain g4 where g4: "mm_camera_intf_close 0 True h g3 = Some (0, g4)" "cam_obj g4 = (cam_obj g3)[k := None]"
    using close_last [OF g3(2)] by blast
  have "cam_obj g4 = (cam_obj g)[k := None]"
    by (metis c1 g2(3) g3(3) g4(2) list_update_overwrite)
  then have "cam_obj g4 = cam_obj g"
    using assms(4) by (metis list_update_id)
  moreover from this have "get_camera_by_handler g4 h = None"
    using assms(4) ix by (simp add: get_camera_by_handler_def Let_def)
  ultimately show ?thesis
    using o1 g2(1) g3(1) g4(1) opened_found [OF g3(2)] by auto
qed

definition two_cameras :: mm_camera_ctrl where
  "two_cameras = \<lparr>num_cam = 2, cam_obj = [None, None], info = replicate 2 \<lparr>facing = 0, orientation = 90\<rparr>,
     is_yuv = [False, False], video_dev_name = [''video1'', ''video2''], cworld = blank, intf_locked = False\<rparr>"

definition open_fine :: open_env where
  "open_fine = \<lparr>has_dev_name = True, o_dev = (\<lambda>_. (10, False)), o_sock = (\<lambda>_. 11), o_pipe = 12, o_sub = 0, o_wr = True\<rparr>"

theorem users_counted_witness:
  "\<exists>h g2 g3 g4. open_times open_fine 1 3 two_cameras = Some ([Some h, Some h, Some h], g2) \<and>
    close_times h 2 g2 = Some ([0, 0], g3) \<and> get_camera_by_handler g3 h = Some 1 \<and>
    mm_camera_intf_close 0 True h g3 = Some (0, g4) \<and> cam_obj g4 = [None, None] \<and> get_camera_by_handler g4 h = None"
proof -
  have "opens_well open_fine"
    by (simp add: opens_well_def open_fine_def MM_CAMERA_DEV_OPEN_TRIES_def)
  then show ?thesis
    using users_counted [of 1 two_cameras open_fine 2]
    by (simp add: two_cameras_def numeral_3_eq_3 numeral_2_eq_2)
qed

section \<open>Messages\<close>

text \<open>
  An answer that comes too late is taken for the next message's. When a mapping is given up after
  five seconds and the daemon reports its success after that, the next message succeeds at once,
  whatever the daemon answers to it.
\<close>

theorem late_answer_taken:
  assumes "evt_rcvd ob = None" "D (FD_MAPPING t d n) d = (sent, None)"
    and "0 < fst (D' (FD_UNMAPPING t') 0)"
  shows "\<exists>ob1 ob2. mm_camera_map_buf D t d n ob = (- 1, ob1) \<and>
    mm_camera_event_notify mem (Map_unmap_done MSM_CAMERA_STATUS_SUCCESS) ob1 = Some ob2 \<and>
    fst (mm_camera_unmap_buf D' t' ob2) = 0"
  using assms
  by (auto simp: mm_camera_map_buf_def mm_camera_unmap_buf_def mm_camera_util_sendmsg_def mm_camera_event_notify_def
      mm_camera_util_wait_for_event_def split: prod.split)

theorem late_answer_taken_witness:
  "\<exists>ob1 ob2. mm_camera_map_buf (\<lambda>_ _. (8, None)) CAM_MAPPING_BUF_TYPE_CAPABILITY 20 4096 (new_camera 257) = (- 1, ob1) \<and>
    mm_camera_event_notify True (Map_unmap_done MSM_CAMERA_STATUS_SUCCESS) ob1 = Some ob2 \<and>
    fst (mm_camera_unmap_buf (\<lambda>_ _. (8, Some MSM_CAMERA_STATUS_FAIL)) CAM_MAPPING_BUF_TYPE_PARM_BUF ob2) = 0"
  by (rule late_answer_taken [where sent = 8]) (simp_all add: new_camera_def)

section \<open>Discovery\<close>

text \<open>The cameras of the table: their descriptions, whether they are YUV sensors, and their nodes.\<close>

definition cameras :: "nat \<Rightarrow> mm_camera_ctrl \<Rightarrow> (cam_info \<times> bool \<times> string) list" where
  "cameras n g = map (\<lambda>i. (info g ! i, is_yuv g ! i, video_dev_name g ! i)) [0..<n]"

definition faces :: "nat \<Rightarrow> cam_info \<times> bool \<times> string \<Rightarrow> bool" where "faces f c \<longleftrightarrow> facing (fst c) = f"

text \<open>
  Sorting the cameras keeps each camera's description, kind and node together and puts those that
  face back before those that face front, in the order they had: the cameras are those of the first
  kind followed by those of the second, provided each is of one of them.
\<close>

theorem cameras_sorted:
  assumes "n \<le> length (info g)" "length (is_yuv g) = length (info g)" "length (video_dev_name g) = length (info g)"
    and "list_all (\<lambda>c. faces CAMERA_FACING_BACK c \<or> faces CAMERA_FACING_FRONT c) (cameras n g)"
  shows "cameras n (sort_camera_info n g) =
      filter (faces CAMERA_FACING_BACK) (cameras n g) @ filter (faces CAMERA_FACING_FRONT) (cameras n g) \<and>
    mset (cameras n (sort_camera_info n g)) = mset (cameras n g)"
proof -
  let ?cam = "\<lambda>i. (info g ! i, is_yuv g ! i, video_dev_name g ! i)"
  let ?o = "sort_order n g"
  have set_o: "set ?o = {0..<n}"
    using assms(4) by (auto simp: set_sort_order cameras_def list_all_iff faces_def facing_at_def)
  then have perm: "mset ?o = mset [0..<n]"
    using sort_order_distinct [of n g] by (metis distinct_upt set_eq_iff_mset_eq_distinct set_upt)
  then have len: "length ?o = n"
    using sort_order_perm by blast
  have "cameras n (sort_camera_info n g) = map ?cam ?o"
    using assms(1-3) len
    by (auto simp: cameras_def sort_camera_info_def Let_def rearrange_def nth_append intro!: nth_equalityI)
  moreover have "map ?cam ?o = filter (faces CAMERA_FACING_BACK) (cameras n g) @ filter (faces CAMERA_FACING_FRONT) (cameras n g)"
    by (simp add: sort_order_def cameras_def filter_map faces_def facing_at_def o_def)
  moreover have "mset (map ?cam ?o) = mset (cameras n g)"
    using perm by (simp add: cameras_def)
  ultimately show ?thesis
    by simp
qed

theorem cameras_sorted_witness:
  "cameras 2 (sort_camera_info 2 (two_cameras\<lparr>info := [\<lparr>facing = 1, orientation = 270\<rparr>, \<lparr>facing = 0, orientation = 90\<rparr>]\<rparr>)) =
   [(\<lparr>facing = 0, orientation = 90\<rparr>, False, ''video2''), (\<lparr>facing = 1, orientation = 270\<rparr>, False, ''video1'')]"
proof -
  let ?g = "two_cameras\<lparr>info := [\<lparr>facing = 1, orientation = 270\<rparr>, \<lparr>facing = 0, orientation = 90\<rparr>]\<rparr>"
  have "list_all (\<lambda>c. faces CAMERA_FACING_BACK c \<or> faces CAMERA_FACING_FRONT c) (cameras 2 ?g)"
    "filter (faces CAMERA_FACING_BACK) (cameras 2 ?g) @ filter (faces CAMERA_FACING_FRONT) (cameras 2 ?g) =
     [(\<lparr>facing = 0, orientation = 90\<rparr>, False, ''video2''), (\<lparr>facing = 1, orientation = 270\<rparr>, False, ''video1'')]"
    by code_simp+
  then show ?thesis
    using cameras_sorted [of 2 ?g] by (simp add: two_cameras_def)
qed

text \<open>
  A discovery that cannot open the sensor initialiser reports no camera and leaves the library
  locked: from then on a discovery, the check whether a camera may be opened, and every operation of
  an open camera, its close too, wait for ever.
\<close>

theorem failed_discovery_blocks:
  assumes "\<not> intf_locked g" "\<not> opens K (find_sensor_init (media_devices K) (junk_name K))"
  shows "\<exists>g'. get_num_of_cameras K False g = Some (0, g') \<and> get_num_of_cameras K' False g' = None \<and>
    check_cam_access pip k g' = None \<and> mm_camera_intf_close io wr h g' = None \<and>
    mm_camera_intf_start_channel E ch h g' = None"
  using assms
  by (simp add: get_num_of_cameras_def check_cam_access_def mm_camera_intf_close_def mm_camera_intf_start_channel_def intf_def)

theorem failed_discovery_blocks_witness:
  "\<exists>g'. get_num_of_cameras \<lparr>media_devices = [], k_camera_name = ''msm_camera'', k_configuration_name = ''msm_config'',
        opens = (\<lambda>_. False), junk_name = []\<rparr> False (two_cameras\<lparr>num_cam := 0\<rparr>) = Some (0, g') \<and>
    check_cam_access True 0 g' = None"
  using failed_discovery_blocks [of "two_cameras\<lparr>num_cam := 0\<rparr>"
      "\<lparr>media_devices = [], k_camera_name = ''msm_camera'', k_configuration_name = ''msm_config'',
        opens = (\<lambda>_. False), junk_name = []\<rparr>" _ True 0]
  by (fastforce simp: two_cameras_def)

end
