(* ===== verification/Cam_Queue.thy ===== *)
theory Cam_Queue
  imports HAL_Prelude
begin

text \<open>
  The command queue \<open>QCameraQueue\<close> (\<open>camera/QCamera2/util/QCameraQueue.cpp\<close>) on the circular
  doubly linked list of \<open>camera/QCamera2/stack/common/cam_list.h\<close>. Nodes are addresses; the
  \<open>next\<close>, \<open>prev\<close> and \<open>data\<close> fields are functions of the address, and the pointer assignments
  are those of the source, in its order. The abstraction \<open>q_list\<close> reads the queue as a list; the
  locale \<open>command_queue\<close> is the contract the threads of the HAL rely on, interpreted on the
  pointer operations.
\<close>

section \<open>The linked list\<close>

record 'd cam_q =
  q_next :: "nat \<Rightarrow> nat"
  q_prev :: "nat \<Rightarrow> nat"
  q_data :: "nat \<Rightarrow> 'd option"
  q_head :: nat
  m_size :: int
  q_freed :: "'d option list"

text \<open>
  \<open>q_freed\<close> records the node data handed to the release function and to \<open>free\<close> by the flush
  operations, in order.
\<close>

definition cam_list_init :: "nat \<Rightarrow> 'd cam_q \<Rightarrow> 'd cam_q" where
  "cam_list_init p q = q\<lparr>q_next := (q_next q)(p := p), q_prev := (q_prev q)(p := p)\<rparr>"

definition cam_list_add_tail_node :: "nat \<Rightarrow> nat \<Rightarrow> 'd cam_q \<Rightarrow> 'd cam_q" where
  "cam_list_add_tail_node item h q =
     (let prev = q_prev q h;
          q1 = q\<lparr>q_prev := (q_prev q)(h := item)\<rparr>;
          q2 = q1\<lparr>q_next := (q_next q1)(item := h)\<rparr>;
          q3 = q2\<lparr>q_prev := (q_prev q2)(item := prev)\<rparr>
      in q3\<lparr>q_next := (q_next q3)(prev := item)\<rparr>)"

definition cam_list_del_node :: "nat \<Rightarrow> 'd cam_q \<Rightarrow> 'd cam_q" where
  "cam_list_del_node p q =
     (let prev = q_prev q p; next = q_next q p;
          q1 = q\<lparr>q_prev := (q_prev q)(next := q_prev q p)\<rparr>;
          q2 = q1\<lparr>q_next := (q_next q1)(prev := q_next q1 p)\<rparr>;
          q3 = q2\<lparr>q_next := (q_next q2)(p := p)\<rparr>
      in q3\<lparr>q_prev := (q_prev q3)(p := p)\<rparr>)"

section \<open>The queue operations\<close>

text \<open>
  \<open>malloc\<close> is the argument \<open>a\<close>: \<^term>\<open>None\<close> when it returns \<open>NULL\<close>, otherwise the address of the
  new node.
\<close>

definition queue_init :: "nat \<Rightarrow> 'd cam_q" where
  "queue_init h = cam_list_init h
     \<lparr>q_next = (\<lambda>_. h), q_prev = (\<lambda>_. h), q_data = (\<lambda>_. None), q_head = h, m_size = 0,
      q_freed = []\<rparr>"

definition isEmpty :: "'d cam_q \<Rightarrow> bool" where
  "isEmpty q = (if m_size q > 0 then False else True)"

definition enqueue :: "nat option \<Rightarrow> 'd option \<Rightarrow> 'd cam_q \<Rightarrow> bool \<times> 'd cam_q" where
  "enqueue a d q = (case a of
       None \<Rightarrow> (False, q)
     | Some node \<Rightarrow>
         (let q1 = q\<lparr>q_data := (q_data q)(node := d)\<rparr>;
              q2 = cam_list_add_tail_node node (q_head q) q1
          in (True, q2\<lparr>m_size := m_size q2 + 1\<rparr>)))"

definition enqueueWithPriority ::
    "nat option \<Rightarrow> 'd option \<Rightarrow> 'd cam_q \<Rightarrow> bool \<times> 'd cam_q" where
  "enqueueWithPriority a d q = (case a of
       None \<Rightarrow> (False, q)
     | Some node \<Rightarrow>
         (let q1 = q\<lparr>q_data := (q_data q)(node := d)\<rparr>;
              p_next = q_next q1 (q_head q);
              q2 = q1\<lparr>q_next := (q_next q1)(q_head q := node)\<rparr>;
              q3 = q2\<lparr>q_prev := (q_prev q2)(p_next := node)\<rparr>;
              q4 = q3\<lparr>q_next := (q_next q3)(node := p_next)\<rparr>;
              q5 = q4\<lparr>q_prev := (q_prev q4)(node := q_head q)\<rparr>
          in (True, q5\<lparr>m_size := m_size q5 + 1\<rparr>)))"

definition dequeue :: "bool \<Rightarrow> 'd cam_q \<Rightarrow> 'd option \<times> 'd cam_q" where
  "dequeue bFromHead q =
     (let head = q_head q;
          pos = (if bFromHead then q_next q head else q_prev q head)
      in if pos \<noteq> head
         then (q_data q pos, (cam_list_del_node pos q)\<lparr>m_size := m_size q - 1\<rparr>)
         else (None, q))"

text \<open>
  The loop of \<open>flushNodes\<close> from node \<open>pos\<close>; the loop of \<open>flush\<close> is the one whose test always
  succeeds. It may run forever on a corrupt list, so it is a partial function: \<^term>\<open>None\<close> means it
  does not return.
\<close>

partial_function (option) flush_loop ::
    "('d option \<Rightarrow> bool) \<Rightarrow> nat \<Rightarrow> 'd cam_q \<Rightarrow> 'd cam_q option" where
  "flush_loop match pos q =
     (if pos = q_head q then Some q
      else let next = q_next q pos in
        if match (q_data q pos)
        then (let q1 = cam_list_del_node pos q;
                  q2 = q1\<lparr>m_size := m_size q1 - 1\<rparr>;
                  q3 = (if q_data q pos \<noteq> None
                        then q2\<lparr>q_freed := q_freed q2 @ [q_data q pos]\<rparr> else q2)
              in flush_loop match next q3)
        else flush_loop match next q)"

definition queue_flush :: "'d cam_q \<Rightarrow> 'd cam_q option" where
  "queue_flush q = (case flush_loop (\<lambda>_. True) (q_next q (q_head q)) q of
       None \<Rightarrow> None
     | Some q' \<Rightarrow> Some (q'\<lparr>m_size := 0\<rparr>))"

definition flushNodes :: "('d option \<Rightarrow> bool) option \<Rightarrow> 'd cam_q \<Rightarrow> 'd cam_q option" where
  "flushNodes match q = (case match of
       None \<Rightarrow> Some q
     | Some f \<Rightarrow> flush_loop f (q_next q (q_head q)) q)"

section \<open>The representation invariant\<close>

text \<open>
  \<open>chain f x as y\<close>: following the field \<open>f\<close> from \<open>x\<close> visits the nodes \<open>as\<close> and then \<open>y\<close>.
  \<open>ring q as\<close>: the nodes of the queue are \<open>as\<close>, in order; following \<open>next\<close> from the dummy head
  visits them and comes back to the head, \<open>prev\<close> is the way back, no node occurs twice, and
  \<open>m_size\<close> counts them. \<open>q_nodes\<close> computes the nodes of a queue from its \<open>next\<close> fields.
\<close>

fun chain :: "(nat \<Rightarrow> nat) \<Rightarrow> nat \<Rightarrow> nat list \<Rightarrow> nat \<Rightarrow> bool" where
  "chain f x [] y = (f x = y)"
| "chain f x (a # as) y = (f x = a \<and> chain f a as y)"

fun walk :: "(nat \<Rightarrow> nat) \<Rightarrow> nat \<Rightarrow> nat \<Rightarrow> nat list" where
  "walk f 0 x = []"
| "walk f (Suc n) x = x # walk f n (f x)"

definition ring :: "'d cam_q \<Rightarrow> nat list \<Rightarrow> bool" where
  "ring q as \<longleftrightarrow>
     chain (q_next q) (q_head q) as (q_head q) \<and>
     chain (q_prev q) (q_head q) (rev as) (q_head q) \<and>
     distinct (q_head q # as) \<and> m_size q = int (length as)"

definition q_nodes :: "'d cam_q \<Rightarrow> nat list" where
  "q_nodes q = walk (q_next q) (nat (m_size q)) (q_next q (q_head q))"

definition wf_q :: "'d cam_q \<Rightarrow> bool" where
  "wf_q q \<longleftrightarrow> ring q (q_nodes q)"

definition q_list :: "'d cam_q \<Rightarrow> 'd option list" where
  "q_list q = map (q_data q) (q_nodes q)"

definition fresh_in :: "nat \<Rightarrow> 'd cam_q \<Rightarrow> bool" where
  "fresh_in a q \<longleftrightarrow> a \<notin> set (q_head q # q_nodes q)"

lemma chain_append [simp]:
  "chain f x (us @ a # vs) y \<longleftrightarrow> chain f x us a \<and> chain f a vs y"
  by (induction us arbitrary: x) auto

lemma chain_upd [simp]: "u \<notin> set (x # as) \<Longrightarrow> chain (f(u := b)) x as y = chain f x as y"
  by (induction as arbitrary: x) auto

lemma chain_hd: "chain f x as y \<Longrightarrow> f x = hd (as @ [y])"
  by (cases as) auto

lemma chain_last_upd:
  "chain f x as y \<Longrightarrow> distinct (x # as) \<Longrightarrow> chain (f(last (x # as) := z)) x as z"
  by (induction as arbitrary: x) auto

lemma chain_walk: "chain f x as y \<Longrightarrow> walk f (length as) (f x) = as"
  by (induction as arbitrary: x) auto

lemma ring_nodes: "ring q as \<Longrightarrow> q_nodes q = as"
  by (auto simp: ring_def q_nodes_def intro: chain_walk)

lemma ring_wf: "ring q as \<Longrightarrow> wf_q q"
  by (simp add: wf_q_def ring_nodes)

lemma ring_list: "ring q as \<Longrightarrow> q_list q = map (q_data q) as"
  by (simp add: q_list_def ring_nodes)

lemma ring_ends:
  assumes "ring q as"
  shows "q_next q (q_head q) = hd (as @ [q_head q])"
    and "q_prev q (q_head q) = last (q_head q # as)"
proof -
  from assms show "q_next q (q_head q) = hd (as @ [q_head q])"
    by (simp add: ring_def chain_hd)
  from assms have "q_prev q (q_head q) = hd (rev as @ [q_head q])"
    by (simp add: ring_def chain_hd)
  then show "q_prev q (q_head q) = last (q_head q # as)"
    by (cases as rule: rev_cases) auto
qed

section \<open>Insertion and removal on the ring\<close>

lemma hd_rev_snoc: "hd (rev us @ [h]) = last (h # us)"
  by (cases us rule: rev_cases) auto

lemma last_rev_cons: "last (h # rev vs) = hd (vs @ [h])"
  by (cases vs) auto

text \<open>The chain after inserting \<open>n\<close> behind \<open>us\<close>, and after taking out the node behind \<open>us\<close>.\<close>

lemma chain_split:
  assumes "chain f h (us @ vs) h"
  shows "chain f h us (hd (vs @ [h]))" and "chain f (last (h # us)) vs h"
proof -
  show "chain f h us (hd (vs @ [h]))"
    using assms by (cases vs) auto
  show "chain f (last (h # us)) vs h"
    using assms by (cases us rule: rev_cases) auto
qed

lemma chain_insert:
  assumes C: "chain f h (us @ vs) h" and D: "distinct (h # us @ vs)"
    and N: "n \<notin> set (h # us @ vs)"
  shows "chain (f(last (h # us) := n, n := hd (vs @ [h]))) h (us @ n # vs) h"
proof -
  have "chain (f(last (h # us) := n)) h us n"
    using chain_split(1) [OF C] D by (intro chain_last_upd) auto
  then have "chain (f(last (h # us) := n, n := hd (vs @ [h]))) h us n"
    using N by simp
  moreover have "chain (f(last (h # us) := n, n := hd (vs @ [h]))) n vs h"
  proof (cases vs)
    case (Cons v ws)
    have "last (h # us) \<notin> set (v # ws)"
      using D Cons by (cases us rule: rev_cases) auto
    moreover have "chain f v ws h"
      using C Cons by simp
    ultimately show ?thesis
      using Cons N by simp
  qed simp
  ultimately show ?thesis by simp
qed

lemma chain_remove:
  assumes C: "chain f h (us @ x # vs) h" and D: "distinct (h # us @ x # vs)"
  shows "chain (f(last (h # us) := hd (vs @ [h]), x := b)) h (us @ vs) h"
proof -
  have last: "last (h # us) \<notin> set (x # vs)"
    using D by (cases us rule: rev_cases) auto
  have U: "chain (f(last (h # us) := hd (vs @ [h]))) h us (hd (vs @ [h]))"
    using C D by (intro chain_last_upd [of _ _ _ x]) auto
  have "chain (f(last (h # us) := hd (vs @ [h]))) h (us @ vs) h"
  proof (cases vs)
    case Nil
    then show ?thesis using U by simp
  next
    case (Cons v ws)
    then show ?thesis using U C last by simp
  qed
  then show ?thesis using D by simp
qed

lemma ring_enqueue:
  assumes "ring q as" and "n \<notin> set (q_head q # as)"
  shows "\<exists>q'. enqueue (Some n) d q = (True, q') \<and> ring q' (as @ [n]) \<and>
    q_data q' = (q_data q)(n := d) \<and> q_head q' = q_head q \<and> q_freed q' = q_freed q"
proof -
  let ?h = "q_head q" and ?l = "last (q_head q # as)"
  have ne: "n \<noteq> ?l" using assms(2) by (cases as rule: rev_cases) auto
  have "chain ((q_next q)(?l := n, n := ?h)) ?h (as @ [n]) ?h"
    using assms chain_insert [of "q_next q" ?h as "[]" n] by (simp add: ring_def)
  then have N: "chain ((q_next q)(n := ?h, ?l := n)) ?h (as @ [n]) ?h"
    using ne by (simp add: fun_upd_twist)
  have P: "chain ((q_prev q)(?h := n, n := ?l)) ?h (n # rev as) ?h"
    using assms chain_insert [of "q_prev q" ?h "[]" "rev as" n]
    by (simp add: ring_def hd_rev_snoc)
  show ?thesis
    using assms N P ring_ends(2) [OF assms(1)]
    by (simp add: enqueue_def cam_list_add_tail_node_def Let_def ring_def)
qed

lemma ring_enqueueWithPriority:
  assumes "ring q as" and "n \<notin> set (q_head q # as)"
  shows "\<exists>q'. enqueueWithPriority (Some n) d q = (True, q') \<and> ring q' (n # as) \<and>
    q_data q' = (q_data q)(n := d) \<and> q_head q' = q_head q \<and> q_freed q' = q_freed q"
proof -
  let ?h = "q_head q" and ?f = "hd (as @ [q_head q])"
  have N: "chain ((q_next q)(?h := n, n := ?f)) ?h (n # as) ?h"
    using assms chain_insert [of "q_next q" ?h "[]" as n] by (simp add: ring_def)
  have P: "chain ((q_prev q)(?f := n, n := ?h)) ?h (rev as @ [n]) ?h"
    using assms chain_insert [of "q_prev q" ?h "rev as" "[]" n]
    by (simp add: ring_def last_rev_cons del: last.simps)
  show ?thesis
    using assms N P ring_ends(1) [OF assms(1)]
    by (simp add: enqueueWithPriority_def Let_def ring_def)
qed

lemma ring_del_node:
  assumes "ring q (us @ x # vs)"
  shows "ring ((cam_list_del_node x q)\<lparr>m_size := m_size q - 1\<rparr>) (us @ vs)"
    and "q_data (cam_list_del_node x q) = q_data q"
    and "q_head (cam_list_del_node x q) = q_head q"
    and "q_freed (cam_list_del_node x q) = q_freed q"
    and "m_size (cam_list_del_node x q) = m_size q"
proof -
  let ?h = "q_head q" and ?l = "last (q_head q # us)" and ?f = "hd (vs @ [q_head q])"
  from assms have D: "distinct (?h # us @ x # vs)"
    and CN: "chain (q_next q) ?h (us @ x # vs) ?h"
    and CP: "chain (q_prev q) ?h (rev vs @ x # rev us) ?h"
    by (simp_all add: ring_def)
  have nx: "q_next q x = ?f"
    using CN by (simp add: chain_hd)
  have "q_prev q x = hd (rev us @ [?h])"
    using CP by (simp add: chain_hd)
  then have pv: "q_prev q x = ?l"
    by (simp only: hd_rev_snoc)
  have N: "chain ((q_next q)(?l := ?f, x := x)) ?h (us @ vs) ?h"
    using CN D by (rule chain_remove)
  have "distinct (?h # rev vs @ x # rev us)" using D by auto
  with CP have "chain ((q_prev q)(last (?h # rev vs) := hd (rev us @ [?h]), x := x)) ?h
      (rev vs @ rev us) ?h"
    by (rule chain_remove)
  then have P: "chain ((q_prev q)(?f := ?l, x := x)) ?h (rev vs @ rev us) ?h"
    by (simp only: last_rev_cons hd_rev_snoc)
  show "ring ((cam_list_del_node x q)\<lparr>m_size := m_size q - 1\<rparr>) (us @ vs)"
    using assms N P D
    by (simp add: cam_list_del_node_def Let_def ring_def nx pv)
qed (simp_all add: cam_list_del_node_def Let_def)

lemma flush_loop_ring:
  assumes "ring q (us @ vs)"
  shows "\<exists>q'. flush_loop match (hd (vs @ [q_head q])) q = Some q' \<and>
    ring q' (us @ filter (\<lambda>a. \<not> match (q_data q a)) vs) \<and> q_data q' = q_data q \<and>
    q_head q' = q_head q \<and>
    q_freed q' = q_freed q @ filter (\<lambda>d. match d \<and> d \<noteq> None) (map (q_data q) vs)"
  using assms
proof (induction vs arbitrary: us q)
  case Nil
  then show ?case by (simp add: flush_loop.simps)
next
  case (Cons x vs)
  from Cons.prems have x: "x \<noteq> q_head q" and nx: "q_next q x = hd (vs @ [q_head q])"
    by (auto simp: ring_def chain_hd)
  show ?case
  proof (cases "match (q_data q x)")
    case False
    from Cons.prems have "ring q ((us @ [x]) @ vs)" by simp
    from Cons.IH [OF this] False x nx show ?thesis
      by (simp add: flush_loop.simps [of match x q])
  next
    case True
    let ?q1 = "(cam_list_del_node x q)\<lparr>m_size := m_size q - 1\<rparr>"
    let ?q2 = "if q_data q x \<noteq> None then ?q1\<lparr>q_freed := q_freed q @ [q_data q x]\<rparr> else ?q1"
    note del = ring_del_node [OF Cons.prems]
    have "ring ?q2 (us @ vs)" and hd: "q_head ?q2 = q_head q" and dt: "q_data ?q2 = q_data q"
      and fr: "q_freed ?q2 = q_freed q @ filter (\<lambda>d. d \<noteq> None) [q_data q x]"
      using del by (auto simp: ring_def)
    from Cons.IH [OF this(1)] obtain q' where
      "flush_loop match (hd (vs @ [q_head q])) ?q2 = Some q'"
      "ring q' (us @ filter (\<lambda>a. \<not> match (q_data q a)) vs)" "q_data q' = q_data q"
      "q_head q' = q_head q"
      "q_freed q' = q_freed ?q2 @ filter (\<lambda>d. match d \<and> d \<noteq> None) (map (q_data q) vs)"
      unfolding hd dt by blast
    moreover have "flush_loop match x q = flush_loop match (hd (vs @ [q_head q])) ?q2"
      using x nx True del by (simp add: flush_loop.simps [of match x q] Let_def)
    ultimately show ?thesis
      using True fr by simp
  qed
qed

section \<open>The contract of a command queue\<close>

text \<open>
  What the threads of the HAL use: a queue whose contents are a list, extended at the tail by
  \<open>enq\<close>, at the head by \<open>enq_prio\<close>, and shortened by \<open>deq\<close>. The first argument of the insertions
  is the result of \<open>malloc\<close>.
\<close>

locale command_queue =
  fixes wf :: "'q \<Rightarrow> bool"
    and contents :: "'q \<Rightarrow> 'd option list"
    and fresh :: "nat \<Rightarrow> 'q \<Rightarrow> bool"
    and enq :: "nat option \<Rightarrow> 'd option \<Rightarrow> 'q \<Rightarrow> bool \<times> 'q"
    and enq_prio :: "nat option \<Rightarrow> 'd option \<Rightarrow> 'q \<Rightarrow> bool \<times> 'q"
    and deq :: "bool \<Rightarrow> 'q \<Rightarrow> 'd option \<times> 'q"
  assumes enq_None: "enq None d q = (False, q)"
    and enq_Some: "wf q \<Longrightarrow> fresh a q \<Longrightarrow>
      \<exists>q'. enq (Some a) d q = (True, q') \<and> wf q' \<and> contents q' = contents q @ [d]"
    and prio_None: "enq_prio None d q = (False, q)"
    and prio_Some: "wf q \<Longrightarrow> fresh a q \<Longrightarrow>
      \<exists>q'. enq_prio (Some a) d q = (True, q') \<and> wf q' \<and> contents q' = d # contents q"
    and deq_Nil: "wf q \<Longrightarrow> contents q = [] \<Longrightarrow> deq b q = (None, q)"
    and deq_head: "wf q \<Longrightarrow> contents q = d # ds \<Longrightarrow>
      \<exists>q'. deq True q = (d, q') \<and> wf q' \<and> contents q' = ds"
    and deq_tail: "wf q \<Longrightarrow> contents q = ds @ [d] \<Longrightarrow>
      \<exists>q'. deq False q = (d, q') \<and> wf q' \<and> contents q' = ds"

text \<open>A client that takes \<open>n\<close> commands from the head of the queue, as the threads do.\<close>

primrec drain :: "(bool \<Rightarrow> 'q \<Rightarrow> 'd option \<times> 'q) \<Rightarrow> nat \<Rightarrow> 'q \<Rightarrow> 'd option list \<times> 'q" where
  "drain deq 0 q = ([], q)"
| "drain deq (Suc n) q =
     (let (d, q1) = deq True q; (ds, q2) = drain deq n q1 in (d # ds, q2))"

context command_queue
begin

lemma drain_contents:
  "wf q \<Longrightarrow> \<exists>q'. drain deq (length (contents q)) q = (contents q, q') \<and> wf q' \<and> contents q' = []"
proof (induction "contents q" arbitrary: q)
  case Nil
  then show ?case by (metis drain.simps(1) list.size(3))
next
  case (Cons d ds)
  from Cons.prems Cons.hyps(2) obtain q1 where
    q1: "deq True q = (d, q1)" "wf q1" "contents q1 = ds"
    by (metis deq_head)
  from Cons.hyps(1) [of q1] q1 obtain q' where
    "drain deq (length ds) q1 = (ds, q')" "wf q'" "contents q' = []"
    by auto
  then show ?case
    using q1 by (simp flip: Cons.hyps(2))
qed

lemma enq_drain:
  assumes "wf q" and "fresh a q"
  shows "\<exists>q1 q2. enq (Some a) d q = (True, q1) \<and>
    drain deq (Suc (length (contents q))) q1 = (contents q @ [d], q2) \<and> contents q2 = []"
proof -
  obtain q1 where q1: "enq (Some a) d q = (True, q1)" "wf q1" "contents q1 = contents q @ [d]"
    using enq_Some [OF assms] by blast
  then show ?thesis
    using drain_contents [OF q1(2)] by auto
qed

lemma prio_next:
  assumes "wf q" and "fresh a q"
  shows "\<exists>q1 q2. enq_prio (Some a) d q = (True, q1) \<and> deq True q1 = (d, q2) \<and>
    wf q2 \<and> contents q2 = contents q"
  using prio_Some [OF assms] deq_head by metis

end

lemma map_upd_fresh: "a \<notin> set xs \<Longrightarrow> map (f(a := b)) xs = map f xs"
  by (induction xs) auto

lemma enqueue_refines:
  assumes "wf_q q" and "fresh_in a q"
  shows "\<exists>q'. enqueue (Some a) d q = (True, q') \<and> wf_q q' \<and> q_list q' = q_list q @ [d]"
proof -
  from assms have R: "ring q (q_nodes q)" and F: "a \<notin> set (q_head q # q_nodes q)"
    by (simp_all add: wf_q_def fresh_in_def)
  from ring_enqueue [OF R F] obtain q' where
    q': "enqueue (Some a) d q = (True, q')" "ring q' (q_nodes q @ [a])"
      "q_data q' = (q_data q)(a := d)" by blast
  then have "q_list q' = q_list q @ [d]"
    using F ring_list [OF q'(2)] by (simp add: q_list_def [of q] map_upd_fresh)
  then show ?thesis using q' ring_wf by blast
qed

lemma enqueueWithPriority_refines:
  assumes "wf_q q" and "fresh_in a q"
  shows "\<exists>q'. enqueueWithPriority (Some a) d q = (True, q') \<and> wf_q q' \<and> q_list q' = d # q_list q"
proof -
  from assms have R: "ring q (q_nodes q)" and F: "a \<notin> set (q_head q # q_nodes q)"
    by (simp_all add: wf_q_def fresh_in_def)
  from ring_enqueueWithPriority [OF R F] obtain q' where
    q': "enqueueWithPriority (Some a) d q = (True, q')" "ring q' (a # q_nodes q)"
      "q_data q' = (q_data q)(a := d)" by blast
  then have "q_list q' = d # q_list q"
    using F ring_list [OF q'(2)] by (simp add: q_list_def [of q] map_upd_fresh)
  then show ?thesis using q' ring_wf by blast
qed

lemma dequeue_Nil_refines:
  assumes "wf_q q" and "q_list q = []"
  shows "dequeue b q = (None, q)"
  using assms by (auto simp: wf_q_def q_list_def dequeue_def Let_def ring_def)

lemma dequeue_head_refines:
  assumes "wf_q q" and "q_list q = d # ds"
  shows "\<exists>q'. dequeue True q = (d, q') \<and> wf_q q' \<and> q_list q' = ds"
proof -
  from assms(2) obtain x vs where as: "q_nodes q = x # vs" "d = q_data q x" "ds = map (q_data q) vs"
    by (auto simp: q_list_def)
  with assms(1) have R: "ring q ([] @ x # vs)" by (simp add: wf_q_def)
  then have "q_next q (q_head q) = x" "x \<noteq> q_head q" by (auto simp: ring_def)
  then show ?thesis
    using ring_del_node [OF R] as ring_wf ring_list
    by (fastforce simp: dequeue_def Let_def)
qed

lemma dequeue_tail_refines:
  assumes "wf_q q" and "q_list q = ds @ [d]"
  shows "\<exists>q'. dequeue False q = (d, q') \<and> wf_q q' \<and> q_list q' = ds"
proof -
  from assms(2) obtain x us where as: "q_nodes q = us @ [x]" "d = q_data q x" "ds = map (q_data q) us"
    by (auto simp: q_list_def map_eq_append_conv)
  with assms(1) have R: "ring q (us @ x # [])" by (simp add: wf_q_def)
  then have "q_prev q (q_head q) = x" "x \<noteq> q_head q" by (auto simp: ring_def)
  then show ?thesis
    using ring_del_node [OF R] as ring_wf ring_list
    by (fastforce simp: dequeue_def Let_def)
qed

interpretation cq: command_queue wf_q q_list fresh_in enqueue enqueueWithPriority dequeue
proof unfold_locales
  show "enqueue None d q = (False, q)" for d :: "'d option" and q
    by (simp add: enqueue_def)
  show "enqueueWithPriority None d q = (False, q)" for d :: "'d option" and q
    by (simp add: enqueueWithPriority_def)
qed (fact enqueue_refines enqueueWithPriority_refines dequeue_Nil_refines
       dequeue_head_refines dequeue_tail_refines)+

lemma flushNodes_refines:
  assumes "wf_q q"
  shows "\<exists>q'. flushNodes (Some f) q = Some q' \<and> wf_q q' \<and>
    q_list q' = filter (\<lambda>d. \<not> f d) (q_list q) \<and>
    q_freed q' = q_freed q @ filter (\<lambda>d. f d \<and> d \<noteq> None) (q_list q)"
proof -
  have R: "ring q ([] @ q_nodes q)" using assms by (simp add: wf_q_def)
  from flush_loop_ring [OF R, of f] obtain q' where
    q': "flush_loop f (hd (q_nodes q @ [q_head q])) q = Some q'"
      "ring q' (filter (\<lambda>a. \<not> f (q_data q a)) (q_nodes q))" "q_data q' = q_data q"
      "q_freed q' = q_freed q @ filter (\<lambda>d. f d \<and> d \<noteq> None) (map (q_data q) (q_nodes q))"
    by auto
  then show ?thesis
    using ring_list [OF q'(2)] ring_wf [OF q'(2)] ring_ends(1) [of q "q_nodes q"] R
    by (simp add: flushNodes_def q_list_def [of q] filter_map comp_def)
qed

lemma queue_flush_refines:
  assumes "wf_q q"
  shows "\<exists>q'. queue_flush q = Some q' \<and> wf_q q' \<and> q_list q' = [] \<and>
    q_freed q' = q_freed q @ filter (\<lambda>d. d \<noteq> None) (q_list q)"
proof -
  from flushNodes_refines [OF assms, of "\<lambda>_. True"] obtain q' where
    q': "flush_loop (\<lambda>_. True) (q_next q (q_head q)) q = Some q'" "wf_q q'" "q_list q' = []"
      "q_freed q' = q_freed q @ filter (\<lambda>d. d \<noteq> None) (q_list q)"
    by (auto simp: flushNodes_def)
  from q'(2,3) have "ring q' []" by (simp add: wf_q_def q_list_def)
  then have "ring (q'\<lparr>m_size := 0\<rparr>) []" by (simp add: ring_def)
  from ring_wf [OF this] ring_list [OF this] q'(1,4) show ?thesis
    by (simp add: queue_flush_def)
qed

lemma queue_init_wf: "wf_q (queue_init h) \<and> q_list (queue_init h) = []"
  by (simp add: wf_q_def q_list_def q_nodes_def queue_init_def cam_list_init_def ring_def)

end
