(* ===== verification/Cmd_Thread.thy ===== *)
theory Cmd_Thread
  imports Cam_Queue
begin

text \<open>
  The command threads of the post-processor, the notifier and the deferred work
  (\<open>camera/QCamera2/util/QCameraCmdThread.cpp\<close>): a queue of commands, the semaphore that counts
  them, and the semaphore of synchronous calls. The queue is the pointer structure of
  \<open>Cam_Queue\<close>; what is proved here about the commands follows from its contract.
\<close>

datatype camera_cmd_type =
    CAMERA_CMD_TYPE_NONE
  | CAMERA_CMD_TYPE_START_DATA_PROC
  | CAMERA_CMD_TYPE_STOP_DATA_PROC
  | CAMERA_CMD_TYPE_DO_NEXT_JOB
  | CAMERA_CMD_TYPE_EXIT

record cmd_thread =
  cmd_queue :: "camera_cmd_type cam_q"
  ct_pid :: bool
  sync_sem :: int
  ct_sem :: int

definition cmd_thread_init :: "nat \<Rightarrow> cmd_thread" where
  "cmd_thread_init h = \<lparr>cmd_queue = queue_init h, ct_pid = False, sync_sem = 0, ct_sem = 0\<rparr>"

definition launch :: "cmd_thread \<Rightarrow> int \<times> cmd_thread" where
  "launch t = (NO_ERROR, t\<lparr>ct_pid := True\<rparr>)"

text \<open>
  \<open>node\<close>: whether the command's allocation succeeds; \<open>a\<close>: the address of the queue's own node, if
  its allocation succeeds. The result of the insertion is not looked at: the semaphore is posted
  anyway. \<open>None\<close> in place of the code: the caller of a synchronous command waits.
\<close>

definition sendCmd ::
    "bool \<Rightarrow> nat option \<Rightarrow> camera_cmd_type \<Rightarrow> bool \<Rightarrow> bool \<Rightarrow> cmd_thread \<Rightarrow> int option \<times> cmd_thread"
where
  "sendCmd node a cmd sync_cmd priority t =
     (if \<not> node then (Some NO_MEMORY, t)
      else
        let (_, q) = (if priority then enqueueWithPriority a (Some cmd) (cmd_queue t)
                      else enqueue a (Some cmd) (cmd_queue t));
            t1 = t\<lparr>cmd_queue := q, ct_sem := ct_sem t + 1\<rparr>
        in if sync_cmd
           then (if sync_sem t1 \<noteq> 0 then (Some NO_ERROR, t1\<lparr>sync_sem := sync_sem t1 - 1\<rparr>)
                 else (None, t1))
           else (Some NO_ERROR, t1))"

definition getCmd :: "cmd_thread \<Rightarrow> camera_cmd_type \<times> cmd_thread" where
  "getCmd t =
     (case dequeue True (cmd_queue t) of
        (None, q) \<Rightarrow> (CAMERA_CMD_TYPE_NONE, t\<lparr>cmd_queue := q\<rparr>)
      | (Some cmd, q) \<Rightarrow> (cmd, t\<lparr>cmd_queue := q\<rparr>))"

definition exit_thread :: "bool \<Rightarrow> nat option \<Rightarrow> cmd_thread \<Rightarrow> int \<times> cmd_thread" where
  "exit_thread node a t =
     (if \<not> ct_pid t then (NO_ERROR, t)
      else case sendCmd node a CAMERA_CMD_TYPE_EXIT False True t of
        (rc, t1) \<Rightarrow>
          if rc \<noteq> Some NO_ERROR then (the rc, t1) else (NO_ERROR, t1\<lparr>ct_pid := False\<rparr>))"

section \<open>The commands as a list\<close>

definition wf_ct :: "cmd_thread \<Rightarrow> bool" where
  "wf_ct t \<longleftrightarrow> wf_q (cmd_queue t) \<and> None \<notin> set (q_list (cmd_queue t)) \<and>
     ct_sem t = int (length (q_list (cmd_queue t)))"

definition cmds :: "cmd_thread \<Rightarrow> camera_cmd_type list" where
  "cmds t = map the (q_list (cmd_queue t))"

lemma init_wf: "wf_ct (cmd_thread_init h) \<and> cmds (cmd_thread_init h) = []"
  by (simp add: wf_ct_def cmds_def cmd_thread_init_def queue_init_wf)

lemma sendCmd_tail:
  assumes "wf_ct t" and "fresh_in a (cmd_queue t)"
  shows "\<exists>t'. sendCmd True (Some a) cmd False False t = (Some NO_ERROR, t') \<and> wf_ct t' \<and>
    cmds t' = cmds t @ [cmd] \<and> ct_pid t' = ct_pid t"
proof -
  from assms have wf: "wf_q (cmd_queue t)" by (simp add: wf_ct_def)
  obtain q where "enqueue (Some a) (Some cmd) (cmd_queue t) = (True, q)" "wf_q q"
    "q_list q = q_list (cmd_queue t) @ [Some cmd]"
    using cq.enq_Some [OF wf assms(2)] by blast
  with assms(1) show ?thesis by (simp add: sendCmd_def wf_ct_def cmds_def)
qed

lemma sendCmd_head:
  assumes "wf_ct t" and "fresh_in a (cmd_queue t)"
  shows "\<exists>t'. sendCmd True (Some a) cmd False True t = (Some NO_ERROR, t') \<and> wf_ct t' \<and>
    cmds t' = cmd # cmds t \<and> ct_pid t' = ct_pid t"
proof -
  from assms have wf: "wf_q (cmd_queue t)" by (simp add: wf_ct_def)
  obtain q where "enqueueWithPriority (Some a) (Some cmd) (cmd_queue t) = (True, q)" "wf_q q"
    "q_list q = Some cmd # q_list (cmd_queue t)"
    using cq.prio_Some [OF wf assms(2)] by blast
  with assms(1) show ?thesis by (simp add: sendCmd_def wf_ct_def cmds_def)
qed

text \<open>The thread takes the semaphore and then the command.\<close>

definition take_cmd :: "cmd_thread \<Rightarrow> camera_cmd_type \<times> cmd_thread" where
  "take_cmd t = getCmd (t\<lparr>ct_sem := ct_sem t - 1\<rparr>)"

lemma take_cmd_head:
  assumes "wf_ct t" and "cmds t = c # cs"
  shows "\<exists>t'. take_cmd t = (c, t') \<and> wf_ct t' \<and> cmds t' = cs"
proof -
  from assms obtain ds where ds: "q_list (cmd_queue t) = Some c # ds" "cs = map the ds"
    by (auto simp: cmds_def wf_ct_def)
  from assms have "wf_q (cmd_queue t)" by (simp add: wf_ct_def)
  from cq.deq_head [OF this ds(1)] obtain q where "dequeue True (cmd_queue t) = (Some c, q)"
    "wf_q q" "q_list q = ds" by blast
  with assms(1) ds show ?thesis by (simp add: take_cmd_def getCmd_def wf_ct_def cmds_def)
qed

lemma exit_overtakes:
  assumes "wf_ct t" and "fresh_in a (cmd_queue t)" and "ct_pid t"
  shows "\<exists>t1 t2. exit_thread True (Some a) t = (NO_ERROR, t1) \<and> \<not> ct_pid t1 \<and>
    take_cmd t1 = (CAMERA_CMD_TYPE_EXIT, t2) \<and> wf_ct t2 \<and> cmds t2 = cmds t"
proof -
  obtain t' where t': "sendCmd True (Some a) CAMERA_CMD_TYPE_EXIT False True t = (Some NO_ERROR, t')"
    "wf_ct t'" "cmds t' = CAMERA_CMD_TYPE_EXIT # cmds t"
    using sendCmd_head [OF assms(1,2)] by blast
  let ?t1 = "t'\<lparr>ct_pid := False\<rparr>"
  have "wf_ct ?t1" "cmds ?t1 = CAMERA_CMD_TYPE_EXIT # cmds t"
    using t' by (simp_all add: wf_ct_def cmds_def)
  from take_cmd_head [OF this] t'(1) assms(3) show ?thesis
    by (auto simp: exit_thread_def)
qed


text \<open>
  When the queue's own node cannot be allocated the command is lost, but the call reports success
  and posts the semaphore.
\<close>

lemma sendCmd_loses:
  assumes "wf_ct t"
  shows "\<exists>t'. sendCmd True None cmd False priority t = (Some NO_ERROR, t') \<and>
    cmds t' = cmds t \<and> ct_sem t' = int (length (cmds t')) + 1 \<and> \<not> wf_ct t'"
  using assms by (auto simp: sendCmd_def cmds_def wf_ct_def enqueue_def enqueueWithPriority_def)

lemma take_cmd_empty:
  assumes "wf_q (cmd_queue t)" and "cmds t = []"
  shows "fst (take_cmd t) = CAMERA_CMD_TYPE_NONE"
  using assms cq.deq_Nil [of "cmd_queue t" True] by (simp add: take_cmd_def getCmd_def cmds_def)

end
