(* ===== verification/HAL_State.thy ===== *)
theory HAL_State
  imports Cam_Types
begin

text \<open>
  The state of one open camera (\<open>QCamera2HardwareInterface\<close> with its embedded
  \<open>QCameraStateMachine\<close>), the events of the state machine with their payloads, and the layers
  below the HAL as an environment. Sources: \<open>QCameraStateMachine.h\<close>, \<open>QCamera2HWI.h\<close> and the
  command-queue functions of \<open>QCameraStateMachine.cpp\<close>.
\<close>

section \<open>Events, states and results\<close>

datatype qcamera_sm_evt =
    QCAMERA_SM_EVT_SET_PREVIEW_WINDOW
  | QCAMERA_SM_EVT_SET_CALLBACKS
  | QCAMERA_SM_EVT_ENABLE_MSG_TYPE
  | QCAMERA_SM_EVT_DISABLE_MSG_TYPE
  | QCAMERA_SM_EVT_MSG_TYPE_ENABLED
  | QCAMERA_SM_EVT_SET_PARAMS
  | QCAMERA_SM_EVT_GET_PARAMS
  | QCAMERA_SM_EVT_PUT_PARAMS
  | QCAMERA_SM_EVT_START_PREVIEW
  | QCAMERA_SM_EVT_START_NODISPLAY_PREVIEW
  | QCAMERA_SM_EVT_STOP_PREVIEW
  | QCAMERA_SM_EVT_PREVIEW_ENABLED
  | QCAMERA_SM_EVT_STORE_METADATA_IN_BUFS
  | QCAMERA_SM_EVT_START_RECORDING
  | QCAMERA_SM_EVT_STOP_RECORDING
  | QCAMERA_SM_EVT_RECORDING_ENABLED
  | QCAMERA_SM_EVT_RELEASE_RECORIDNG_FRAME
  | QCAMERA_SM_EVT_PREPARE_SNAPSHOT
  | QCAMERA_SM_EVT_TAKE_PICTURE
  | QCAMERA_SM_EVT_CANCEL_PICTURE
  | QCAMERA_SM_EVT_START_AUTO_FOCUS
  | QCAMERA_SM_EVT_STOP_AUTO_FOCUS
  | QCAMERA_SM_EVT_SEND_COMMAND
  | QCAMERA_SM_EVT_RELEASE
  | QCAMERA_SM_EVT_DUMP
  | QCAMERA_SM_EVT_REG_FACE_IMAGE
  | QCAMERA_SM_EVT_EVT_INTERNAL
  | QCAMERA_SM_EVT_EVT_NOTIFY
  | QCAMERA_SM_EVT_JPEG_EVT_NOTIFY
  | QCAMERA_SM_EVT_SNAPSHOT_DONE
  | QCAMERA_SM_EVT_THERMAL_NOTIFY
  | QCAMERA_SM_EVT_STOP_CAPTURE_CHANNEL
  | QCAMERA_SM_EVT_RESTART_PERVIEW

text \<open>
  The numeric value of the only enumerator the code uses as a number: the enumeration starts at
  1 and \<open>RESTART_PERVIEW\<close> is its 33rd member.
\<close>

definition RESTART_PERVIEW_value :: int where
  "RESTART_PERVIEW_value = 33"

datatype qcamera_state =
    QCAMERA_SM_STATE_PREVIEW_STOPPED
  | QCAMERA_SM_STATE_PREVIEW_READY
  | QCAMERA_SM_STATE_PREVIEWING
  | QCAMERA_SM_STATE_PREPARE_SNAPSHOT
  | QCAMERA_SM_STATE_PIC_TAKING
  | QCAMERA_SM_STATE_RECORDING
  | QCAMERA_SM_STATE_VIDEO_PIC_TAKING
  | QCAMERA_SM_STATE_PREVIEW_PIC_TAKING

text \<open>
  The result type together with the union it selects. The result is cleared before it is filled,
  so the fields of a default result read as zero.
\<close>

datatype api_result_value =
    RESULT_TYPE_DEF
  | RESULT_TYPE_ENABLE_FLAG int
  | RESULT_TYPE_PARAMS ptr
  | RESULT_TYPE_HANDLE int

record qcamera_api_result =
  status :: int
  request_api :: qcamera_sm_evt
  result_value :: api_result_value

fun enabled_of :: "api_result_value \<Rightarrow> int" where
  "enabled_of (RESULT_TYPE_ENABLE_FLAG b) = b"
| "enabled_of (RESULT_TYPE_HANDLE n) = n"
| "enabled_of (RESULT_TYPE_PARAMS p) = (case p of None \<Rightarrow> 0 | Some a \<Rightarrow> int a)"
| "enabled_of RESULT_TYPE_DEF = 0"

fun params_of :: "api_result_value \<Rightarrow> ptr" where
  "params_of (RESULT_TYPE_PARAMS p) = p"
| "params_of v = (if enabled_of v = 0 then None else Some (nat (enabled_of v)))"

fun handle_of :: "api_result_value \<Rightarrow> int" where
  "handle_of v = enabled_of v"

record qcamera_sm_evt_setcb_payload =
  notify_cb :: ptr
  data_cb :: ptr
  data_cb_timestamp :: ptr
  get_memory :: ptr
  user :: ptr

text \<open>
  The commands of \<open>sendCommand\<close>, with the ones the HAL does not name as \<open>CAMERA_CMD_OTHER\<close>.
\<close>

datatype camera_cmd =
    CAMERA_CMD_LONGSHOT_ON
  | CAMERA_CMD_LONGSHOT_OFF
  | CAMERA_CMD_STOP_LONGSHOT
  | CAMERA_CMD_HISTOGRAM_ON
  | CAMERA_CMD_HISTOGRAM_OFF
  | CAMERA_CMD_START_FACE_DETECTION
  | CAMERA_CMD_STOP_FACE_DETECTION
  | CAMERA_CMD_HISTOGRAM_SEND_DATA
  | CAMERA_CMD_OTHER int

datatype cam_af_state =
    CAM_AF_SCANNING | CAM_AF_FOCUSED | CAM_AF_NOT_FOCUSED | CAM_AF_INACTIVE
  | CAM_AF_PASSIVE_SCANNING | CAM_AF_PASSIVE_FOCUSED | CAM_AF_PASSIVE_UNFOCUSED

record cam_auto_focus_data =
  focus_state :: cam_af_state
  focused_frame_idx :: nat


text \<open>
  Payloads whose contents only the environment looks at (statistics, JPEG jobs, face data) are
  numbers that identify them.
\<close>

datatype qcamera_internal_evt =
    QCAMERA_INTERNAL_EVT_FOCUS_UPDATE cam_auto_focus_data
  | QCAMERA_INTERNAL_EVT_PREP_SNAPSHOT_DONE cam_prep_snapshot_state
  | QCAMERA_INTERNAL_EVT_FACE_DETECT_RESULT nat
  | QCAMERA_INTERNAL_EVT_HISTOGRAM_STATS nat
  | QCAMERA_INTERNAL_EVT_CROP_INFO nat
  | QCAMERA_INTERNAL_EVT_ASD_UPDATE nat
  | QCAMERA_INTERNAL_EVT_AWB_UPDATE nat
  | QCAMERA_INTERNAL_EVT_AE_UPDATE nat
  | QCAMERA_INTERNAL_EVT_FOCUS_POS_UPDATE nat

datatype cam_event_type =
    CAM_EVENT_TYPE_MAP_UNMAP_DONE
  | CAM_EVENT_TYPE_AUTO_FOCUS_DONE
  | CAM_EVENT_TYPE_ZOOM_DONE
  | CAM_EVENT_TYPE_REPROCESS_STAGE_DONE
  | CAM_EVENT_TYPE_DAEMON_DIED
  | CAM_EVENT_TYPE_INT_TAKE_PIC

datatype qcamera_thermal_level =
    QCAMERA_THERMAL_NO_ADJUSTMENT
  | QCAMERA_THERMAL_SLIGHT_ADJUSTMENT
  | QCAMERA_THERMAL_BIG_ADJUSTMENT
  | QCAMERA_THERMAL_MAX_ADJUSTMENT
  | QCAMERA_THERMAL_SHUTDOWN

text \<open>
  An event with its payload: the pair of the enumerator and the \<open>void *\<close> that \<open>stateMachine\<close>
  receives, with the payload at the type the handlers cast it to.
\<close>

datatype sm_msg =
    SET_PREVIEW_WINDOW ptr
  | SET_CALLBACKS qcamera_sm_evt_setcb_payload
  | ENABLE_MSG_TYPE "32 word"
  | DISABLE_MSG_TYPE "32 word"
  | MSG_TYPE_ENABLED "32 word"
  | SET_PARAMS string
  | GET_PARAMS
  | PUT_PARAMS ptr
  | START_PREVIEW
  | START_NODISPLAY_PREVIEW
  | STOP_PREVIEW
  | PREVIEW_ENABLED
  | STORE_METADATA_IN_BUFS int
  | START_RECORDING
  | STOP_RECORDING
  | RECORDING_ENABLED
  | RELEASE_RECORIDNG_FRAME ptr
  | PREPARE_SNAPSHOT
  | TAKE_PICTURE
  | CANCEL_PICTURE
  | START_AUTO_FOCUS
  | STOP_AUTO_FOCUS
  | SEND_COMMAND camera_cmd int int
  | RELEASE
  | DUMP int
  | REG_FACE_IMAGE ptr ptr
  | EVT_INTERNAL qcamera_internal_evt
  | EVT_NOTIFY cam_event_type
  | JPEG_EVT_NOTIFY nat
  | SNAPSHOT_DONE
  | THERMAL_NOTIFY qcamera_thermal_level
  | STOP_CAPTURE_CHANNEL
  | RESTART_PERVIEW

fun evt_of :: "sm_msg \<Rightarrow> qcamera_sm_evt" where
  "evt_of (SET_PREVIEW_WINDOW _) = QCAMERA_SM_EVT_SET_PREVIEW_WINDOW"
| "evt_of (SET_CALLBACKS _) = QCAMERA_SM_EVT_SET_CALLBACKS"
| "evt_of (ENABLE_MSG_TYPE _) = QCAMERA_SM_EVT_ENABLE_MSG_TYPE"
| "evt_of (DISABLE_MSG_TYPE _) = QCAMERA_SM_EVT_DISABLE_MSG_TYPE"
| "evt_of (MSG_TYPE_ENABLED _) = QCAMERA_SM_EVT_MSG_TYPE_ENABLED"
| "evt_of (SET_PARAMS _) = QCAMERA_SM_EVT_SET_PARAMS"
| "evt_of GET_PARAMS = QCAMERA_SM_EVT_GET_PARAMS"
| "evt_of (PUT_PARAMS _) = QCAMERA_SM_EVT_PUT_PARAMS"
| "evt_of START_PREVIEW = QCAMERA_SM_EVT_START_PREVIEW"
| "evt_of START_NODISPLAY_PREVIEW = QCAMERA_SM_EVT_START_NODISPLAY_PREVIEW"
| "evt_of STOP_PREVIEW = QCAMERA_SM_EVT_STOP_PREVIEW"
| "evt_of PREVIEW_ENABLED = QCAMERA_SM_EVT_PREVIEW_ENABLED"
| "evt_of (STORE_METADATA_IN_BUFS _) = QCAMERA_SM_EVT_STORE_METADATA_IN_BUFS"
| "evt_of START_RECORDING = QCAMERA_SM_EVT_START_RECORDING"
| "evt_of STOP_RECORDING = QCAMERA_SM_EVT_STOP_RECORDING"
| "evt_of RECORDING_ENABLED = QCAMERA_SM_EVT_RECORDING_ENABLED"
| "evt_of (RELEASE_RECORIDNG_FRAME _) = QCAMERA_SM_EVT_RELEASE_RECORIDNG_FRAME"
| "evt_of PREPARE_SNAPSHOT = QCAMERA_SM_EVT_PREPARE_SNAPSHOT"
| "evt_of TAKE_PICTURE = QCAMERA_SM_EVT_TAKE_PICTURE"
| "evt_of CANCEL_PICTURE = QCAMERA_SM_EVT_CANCEL_PICTURE"
| "evt_of START_AUTO_FOCUS = QCAMERA_SM_EVT_START_AUTO_FOCUS"
| "evt_of STOP_AUTO_FOCUS = QCAMERA_SM_EVT_STOP_AUTO_FOCUS"
| "evt_of (SEND_COMMAND _ _ _) = QCAMERA_SM_EVT_SEND_COMMAND"
| "evt_of RELEASE = QCAMERA_SM_EVT_RELEASE"
| "evt_of (DUMP _) = QCAMERA_SM_EVT_DUMP"
| "evt_of (REG_FACE_IMAGE _ _) = QCAMERA_SM_EVT_REG_FACE_IMAGE"
| "evt_of (EVT_INTERNAL _) = QCAMERA_SM_EVT_EVT_INTERNAL"
| "evt_of (EVT_NOTIFY _) = QCAMERA_SM_EVT_EVT_NOTIFY"
| "evt_of (JPEG_EVT_NOTIFY _) = QCAMERA_SM_EVT_JPEG_EVT_NOTIFY"
| "evt_of SNAPSHOT_DONE = QCAMERA_SM_EVT_SNAPSHOT_DONE"
| "evt_of (THERMAL_NOTIFY _) = QCAMERA_SM_EVT_THERMAL_NOTIFY"
| "evt_of STOP_CAPTURE_CHANNEL = QCAMERA_SM_EVT_STOP_CAPTURE_CHANNEL"
| "evt_of RESTART_PERVIEW = QCAMERA_SM_EVT_RESTART_PERVIEW"

datatype sm_cmd =
    QCAMERA_SM_CMD_TYPE_API sm_msg
  | QCAMERA_SM_CMD_TYPE_EVT sm_msg
  | QCAMERA_SM_CMD_TYPE_EXIT

section \<open>Channels and parameters\<close>

datatype qcamera_ch_type =
    QCAMERA_CH_TYPE_ZSL
  | QCAMERA_CH_TYPE_CAPTURE
  | QCAMERA_CH_TYPE_PREVIEW
  | QCAMERA_CH_TYPE_VIDEO
  | QCAMERA_CH_TYPE_SNAPSHOT
  | QCAMERA_CH_TYPE_RAW
  | QCAMERA_CH_TYPE_METADATA

text \<open>The channel types in the order of the enumeration: the indices of \<open>m_channels\<close>.\<close>

definition ch_types :: "qcamera_ch_type list" where
  "ch_types = [QCAMERA_CH_TYPE_ZSL, QCAMERA_CH_TYPE_CAPTURE, QCAMERA_CH_TYPE_PREVIEW,
     QCAMERA_CH_TYPE_VIDEO, QCAMERA_CH_TYPE_SNAPSHOT, QCAMERA_CH_TYPE_RAW,
     QCAMERA_CH_TYPE_METADATA]"

text \<open>
  A stream knows the channel that created it (\<open>s_channel\<close>, \<open>getChannelHandle\<close>): a stream linked
  into a second channel keeps its creator's handle. \<open>s_deffered\<close>: its buffers are allocated later.
\<close>

record cam_stream =
  s_type :: cam_stream_type
  s_channel :: int
  s_deffered :: bool

record channel =
  m_handle :: int
  m_bIsActive :: bool
  mStreams :: "cam_stream list"

datatype cam_focus_mode =
    CAM_FOCUS_MODE_AUTO | CAM_FOCUS_MODE_INFINITY | CAM_FOCUS_MODE_MACRO | CAM_FOCUS_MODE_FIXED
  | CAM_FOCUS_MODE_EDOF | CAM_FOCUS_MODE_CONTINOUS_VIDEO | CAM_FOCUS_MODE_CONTINOUS_PICTURE
  | CAM_FOCUS_MODE_MANUAL

datatype picture_format =
    CAM_FORMAT_JPEG | CAM_FORMAT_YUV_422_NV16 | CAM_FORMAT_YUV_420_NV21 | CAM_FORMAT_RAW_OTHER

datatype qcamera_thermal_mode =
    QCAMERA_THERMAL_ADJUST_FPS | QCAMERA_THERMAL_ADJUST_FRAMESKIP | QCAMERA_THERMAL_MODE_OTHER

text \<open>
  The attributes of \<open>QCameraParameters\<close> that the HAL reads: the values its query functions
  return.
\<close>

record qcam_parms =
  isZSLMode :: bool
  recordingHint :: bool
  isNoDisplayMode :: bool
  isLowPowerEnabled :: bool
  isFaceDetectionEnabled :: bool
  isHistogramEnabled :: bool
  isUbiFocusEnabled :: bool
  isUbiRefocus :: bool
  isMultiTouchFocusEnabled :: bool
  isMTFRefocus :: bool
  isMultiTouchFocusSelected :: bool
  isTouchFocusing :: bool
  isOptiZoomEnabled :: bool
  isfssrEnabled :: bool
  isHDREnabled :: bool
  isChromaFlashEnabled :: bool
  isAEBracketEnabled :: bool
  isLongshotSnapsLimited :: bool
  isDisplayFrameNeeded :: bool
  videoSize :: "int \<times> int"
  pictureFormat :: picture_format
  focusMode :: cam_focus_mode
  keyZoom :: int
  thermalMode :: qcamera_thermal_mode
  numOfSnapshots :: nat
  burstCountForAdvancedCapture :: nat

section \<open>The environment below the HAL\<close>

datatype msm_vfe_frame_skip_pattern = NO_SKIP | EVERY_2FRAME | EVERY_4FRAME | MAX_SKIP

datatype parm_call =
    P_updateParameters string | P_updateStreamBased | P_commitParameters | P_setNumOfSnapshot
  | P_getParameters | P_updateRecordingHintValue bool | P_set3ALock bool | P_stopAEBracket
  | P_setAndCommitZoom nat | P_resetMultiTouchFocusParam | P_adjustPreviewFpsRange
  | P_setFrameSkip "msm_vfe_frame_skip_pattern option" | P_setLongshotEnable bool | P_setHistogram bool | P_setFaceDetection bool
  | P_configureAFBracketing bool | P_configureMTFBracketing bool
  | P_configureFlashBracketing bool | P_configureZSLHDRBracketing | P_configureAEBracketing
  | P_configureOptiZoom | P_configureFssr | P_updateRAW | P_updateFocusDistances
  | P_flipChanged cam_stream_type | P_updateMTFInfo | P_setSelectedScene nat | P_updateAWBParams nat | P_updateAEInfo nat
  | P_updateCurrentFocusPosition nat | P_setIntEvent

datatype chan_call =
    C_init | C_streamInit cam_stream_type | C_deleteStream cam_stream_type
  | C_configStream cam_stream_type | C_link | C_bundleInfo | C_bundleStream nat
  | C_setBundle cam_stream_type | C_startStream cam_stream_type | C_stopStream cam_stream_type
  | C_signalStream cam_stream_type | C_start | C_stop | C_delete
  | C_takePicture nat | C_cancelPicture
  | C_startAdvancedCapture mm_camera_advanced_capture
  | C_stopAdvancedCapture mm_camera_advanced_capture
  | C_flushSuperbuffer nat | C_bufDone ptr bool | C_zoomStream cam_stream_type nat
  | C_setFlip cam_stream_type | C_snapshotBuffersShort

datatype pproc_call =
    PP_start qcamera_ch_type | PP_stop | PP_processJpegEvt nat | PP_getJpegMemOpt
  | PP_setJpegMemOpt bool

datatype cam_call =
    O_do_auto_focus | O_cancel_auto_focus | O_prepare_snapshot | O_start_zsl_snapshot
  | O_stop_zsl_snapshot

datatype deff_job = mSnapshotJob | mPostviewJob | mMetadataJob | mReprocJob | mRawdataJob

datatype camera_msg =
    CAMERA_MSG_ERROR | CAMERA_MSG_SHUTTER | CAMERA_MSG_FOCUS | CAMERA_MSG_FOCUS_MOVE

text \<open>
  One call out of the modelled code: memory allocation, the parameter object, a channel's
  streams, the post-processor, the camera handle, the notifier thread, the deferred-work thread,
  system properties and threads.
\<close>

datatype ext_call =
    X_malloc
  | X_parm parm_call
  | X_chan qcamera_ch_type chan_call
  | X_pproc pproc_call
  | X_cam cam_call
  | X_notify camera_msg int int
  | X_setCallbacks qcamera_sm_evt_setcb_payload
  | X_flushVideoNotifications
  | X_memoryPool_clear
  | X_closeNativeHandle ptr
  | X_free ptr
  | X_allocateStreamInfoBuf cam_stream_type
  | X_freeStreamInfoBuf cam_stream_type
  | X_queueDeff deff_job
  | X_waitDeff deff_job
  | X_property string
  | X_registerFaceImage ptr ptr
  | X_sendFaces nat
  | X_getMemory
  | X_memData
  | X_notifyData nat
  | X_releaseMem
  | X_pthread_create
  | X_pthread_join
  | X_intTimedWait
  | X_processMTFDumps nat

text \<open>
  The environment answers each call from the whole history of calls: the return code, an output
  parameter, and for a call of the parameter object the attributes after it. Any behaviour of the
  lower layers that is determined by what was called so far is such an environment; the theorems
  quantify over all of them. \<open>e_mask\<close> gives the platform's \<open>CAMERA_MSG_*\<close> masks and
  \<open>e_low_power_mode_supported\<close> the sensor's capability.
\<close>

record env =
  e_rc :: "ext_call list \<Rightarrow> ext_call \<Rightarrow> int"
  e_out :: "ext_call list \<Rightarrow> ext_call \<Rightarrow> int"
  e_parms :: "ext_call list \<Rightarrow> ext_call \<Rightarrow> qcam_parms \<Rightarrow> qcam_parms"
  e_mask :: "camera_msg \<Rightarrow> 32 word"
  e_low_power_mode_supported :: bool

text \<open>Memory never runs out: every allocation returns a non-\<open>NULL\<close> pointer.\<close>

definition mem_ok :: "env \<Rightarrow> bool" where
  "mem_ok E \<longleftrightarrow> (\<forall>tr. e_rc E tr X_malloc \<noteq> 0)"

section \<open>The state of the HAL\<close>

text \<open>
  \<open>faulted\<close> records that a member function was called through a \<open>NULL\<close> channel pointer: the
  program is undefined from there on, and the model only guarantees that the flag stays up.
\<close>

record hal =
  m_state :: qcamera_state
  api_queue :: "sm_cmd list"
  evt_queue :: "sm_cmd list"
  cmd_sem :: int
  m_smThreadActive :: bool
  cmd_pid :: bool
  m_apiResultList :: "qcamera_api_result list"
  m_evtResult :: "qcamera_api_result option"
  mCameraOpened :: bool
  mPreviewWindow :: ptr
  mCallbacks :: qcamera_sm_evt_setcb_payload
  mMsgEnabled :: "32 word"
  mStoreMetaDataInFrame :: int
  mParameters :: qcam_parms
  m_channels :: "qcamera_ch_type \<Rightarrow> channel option"
  mThermalLevel :: qcamera_thermal_level
  m_currentFocusState :: cam_af_state
  mCancelAutoFocus :: bool
  mActiveAF :: bool
  mLongshotEnabled :: bool
  mPrepSnapRun :: bool
  mLiveSnapshotThread :: bool
  mFlashNeeded :: bool
  mIs3ALocked :: bool
  mZoomLevel :: nat
  mAdvancedCaptureConfigured :: bool
  mFPSReconfigure :: bool
  m_bPreviewStarted :: bool
  m_bRecordStarted :: bool
  mNumPreviewFaces :: int
  mPreviewFrameSkipValid :: bool
  mVideoMem :: ptr
  mMultipleStages :: bool
  m_bIntEvtPending :: bool
  faulted :: bool
  trace :: "ext_call list"

type_synonym 'a hal_op = "(hal, 'a) state"

text \<open>A call into the environment; the trace is kept newest first.\<close>

definition ext :: "env \<Rightarrow> ext_call \<Rightarrow> int hal_op" where
  "ext E c = State (\<lambda>s. (e_rc E (trace s) c, s\<lparr>trace := c # trace s\<rparr>))"

definition ext_out :: "env \<Rightarrow> ext_call \<Rightarrow> (int \<times> int) hal_op" where
  "ext_out E c = State (\<lambda>s. ((e_rc E (trace s) c, e_out E (trace s) c),
     s\<lparr>trace := c # trace s\<rparr>))"

definition parm :: "env \<Rightarrow> parm_call \<Rightarrow> int hal_op" where
  "parm E c = State (\<lambda>s. (e_rc E (trace s) (X_parm c),
     s\<lparr>mParameters := e_parms E (trace s) (X_parm c) (mParameters s),
       trace := X_parm c # trace s\<rparr>))"

definition parm_out :: "env \<Rightarrow> parm_call \<Rightarrow> (int \<times> int) hal_op" where
  "parm_out E c = State (\<lambda>s. ((e_rc E (trace s) (X_parm c), e_out E (trace s) (X_parm c)),
     s\<lparr>mParameters := e_parms E (trace s) (X_parm c) (mParameters s),
       trace := X_parm c # trace s\<rparr>))"

definition malloc :: "env \<Rightarrow> bool hal_op" where
  "malloc E = do { r \<leftarrow> ext E X_malloc; ret (r \<noteq> 0) }"

section \<open>Posting commands to the state machine\<close>

text \<open>
  A command node and the queue's own node are allocated; the semaphore is posted only when the
  command is in the queue. The queues are lists here: \<open>QCameraQueue\<close> implements them
  (theory \<open>Cam_Queue\<close>).
\<close>

definition procAPI :: "env \<Rightarrow> sm_msg \<Rightarrow> int hal_op" where
  "procAPI E msg = do {
     node \<leftarrow> malloc E;
     if \<not> node then ret NO_MEMORY
     else do {
       enqueued \<leftarrow> malloc E;
       if enqueued then do {
         modify (\<lambda>s. s\<lparr>api_queue := api_queue s @ [QCAMERA_SM_CMD_TYPE_API msg]\<rparr>);
         modify (\<lambda>s. s\<lparr>cmd_sem := cmd_sem s + 1\<rparr>);
         ret NO_ERROR
       } else ret UNKNOWN_ERROR
     }
   }"

definition procEvt :: "env \<Rightarrow> sm_msg \<Rightarrow> int hal_op" where
  "procEvt E msg = do {
     node \<leftarrow> malloc E;
     if \<not> node then ret NO_MEMORY
     else do {
       enqueued \<leftarrow> malloc E;
       if enqueued then do {
         modify (\<lambda>s. s\<lparr>evt_queue := evt_queue s @ [QCAMERA_SM_CMD_TYPE_EVT msg]\<rparr>);
         modify (\<lambda>s. s\<lparr>cmd_sem := cmd_sem s + 1\<rparr>);
         ret NO_ERROR
       } else ret UNKNOWN_ERROR
     }
   }"

fun isPreviewRunning_st :: "qcamera_state \<Rightarrow> bool" where
  "isPreviewRunning_st QCAMERA_SM_STATE_PREVIEWING = True"
| "isPreviewRunning_st QCAMERA_SM_STATE_RECORDING = True"
| "isPreviewRunning_st QCAMERA_SM_STATE_VIDEO_PIC_TAKING = True"
| "isPreviewRunning_st QCAMERA_SM_STATE_PREVIEW_PIC_TAKING = True"
| "isPreviewRunning_st QCAMERA_SM_STATE_PREPARE_SNAPSHOT = True"
| "isPreviewRunning_st QCAMERA_SM_STATE_PREVIEW_READY = True"
| "isPreviewRunning_st _ = False"

fun isCaptureRunning_st :: "qcamera_state \<Rightarrow> bool" where
  "isCaptureRunning_st QCAMERA_SM_STATE_PIC_TAKING = True"
| "isCaptureRunning_st QCAMERA_SM_STATE_VIDEO_PIC_TAKING = True"
| "isCaptureRunning_st QCAMERA_SM_STATE_PREVIEW_PIC_TAKING = True"
| "isCaptureRunning_st _ = False"

fun isNonZSLCaptureRunning_st :: "qcamera_state \<Rightarrow> bool" where
  "isNonZSLCaptureRunning_st QCAMERA_SM_STATE_PIC_TAKING = True"
| "isNonZSLCaptureRunning_st _ = False"

definition isPreviewRunning :: "bool hal_op" where
  "isPreviewRunning = gets (\<lambda>s. isPreviewRunning_st (m_state s))"

definition isCaptureRunning :: "bool hal_op" where
  "isCaptureRunning = gets (\<lambda>s. isCaptureRunning_st (m_state s))"

section \<open>Returning results\<close>

definition signalAPIResult :: "env \<Rightarrow> qcamera_api_result \<Rightarrow> unit hal_op" where
  "signalAPIResult E result = do {
     apiResult \<leftarrow> malloc E;
     when_do apiResult
       (modify (\<lambda>s. s\<lparr>m_apiResultList := m_apiResultList s @ [result]\<rparr>))
   }"

definition signalEvtResult :: "qcamera_api_result \<Rightarrow> unit hal_op" where
  "signalEvtResult result = modify (\<lambda>s. s\<lparr>m_evtResult := Some result\<rparr>)"

section \<open>Views of the state and their preservation\<close>

text \<open>
  \<open>sm_view\<close> is what the state machine and its callers share: the state, the queue of API calls,
  the results, the number of semaphore posts beyond the queued backend events, and those events
  apart from \<open>SNAPSHOT_DONE\<close>, the one the HAL posts to itself. \<open>ctl_view\<close> adds the queue of backend events and the semaphore. An operation that
  keeps a view cannot disturb what is stated over it.
\<close>

definition other_evts where
  "other_evts s = filter (\<lambda>c. c \<noteq> QCAMERA_SM_CMD_TYPE_EVT SNAPSHOT_DONE) (evt_queue s)"

definition sm_view where
  "sm_view s = (m_state s, api_queue s, m_apiResultList s, m_evtResult s, m_smThreadActive s,
     cmd_sem s - int (length (evt_queue s)), other_evts s)"

definition ctl_view where
  "ctl_view s = (sm_view s, evt_queue s, cmd_sem s)"

lemma other_evts_upd [simp]:
  "other_evts (s\<lparr>m_state := a\<rparr>) = other_evts s" "other_evts (s\<lparr>api_queue := q\<rparr>) = other_evts s"
  "other_evts (s\<lparr>cmd_sem := n\<rparr>) = other_evts s"
  "other_evts (s\<lparr>m_apiResultList := rs\<rparr>) = other_evts s"
  "other_evts (s\<lparr>m_evtResult := r\<rparr>) = other_evts s" "other_evts (s\<lparr>trace := t\<rparr>) = other_evts s"
  "other_evts (s\<lparr>mPreviewWindow := w\<rparr>) = other_evts s"
  "other_evts (s\<lparr>mMultipleStages := b\<rparr>) = other_evts s"
  "other_evts (s\<lparr>m_bPreviewStarted := b\<rparr>) = other_evts s"
  by (simp_all add: other_evts_def)

lemma sm_view_eq:
  "sm_view s' = sm_view s \<longleftrightarrow> m_state s' = m_state s \<and> api_queue s' = api_queue s \<and>
     m_apiResultList s' = m_apiResultList s \<and> m_evtResult s' = m_evtResult s \<and>
     m_smThreadActive s' = m_smThreadActive s \<and>
     cmd_sem s' - int (length (evt_queue s')) = cmd_sem s - int (length (evt_queue s)) \<and>
     other_evts s' = other_evts s"
  by (auto simp: sm_view_def)

lemma ctl_view_eq:
  "ctl_view s' = ctl_view s \<longleftrightarrow> sm_view s' = sm_view s \<and> evt_queue s' = evt_queue s \<and>
     cmd_sem s' = cmd_sem s"
  by (auto simp: ctl_view_def)

lemma keeps_ctl_sm: "keeps ctl_view m \<Longrightarrow> keeps sm_view m"
  by (auto simp: keeps_def ctl_view_def)

lemmas view_simps = ctl_view_def sm_view_def other_evts_def

text \<open>
  An observation is \<open>io_free\<close> when the calls into the environment cannot change it, and \<open>hw_free\<close>
  when the operations on the channel table cannot change it either.
\<close>

definition io_free :: "(hal \<Rightarrow> 'b) \<Rightarrow> bool" where
  "io_free f \<longleftrightarrow> (\<forall>s p t. f (s\<lparr>mParameters := p, trace := t\<rparr>) = f s)"

definition hw_free :: "(hal \<Rightarrow> 'b) \<Rightarrow> bool" where
  "hw_free f \<longleftrightarrow>
     (\<forall>s c p b t. f (s\<lparr>m_channels := c, mParameters := p, faulted := b, trace := t\<rparr>) = f s)"

lemma io_freeI: "(\<And>s p t. f (s\<lparr>mParameters := p, trace := t\<rparr>) = f s) \<Longrightarrow> io_free f"
  by (simp add: io_free_def)

lemma hw_freeI:
  "(\<And>s c p b t. f (s\<lparr>m_channels := c, mParameters := p, faulted := b, trace := t\<rparr>) = f s) \<Longrightarrow>
   hw_free f"
  by (simp add: hw_free_def)

lemma hal_self_update [simp]:
  fixes s :: hal
  shows "s\<lparr>m_channels := m_channels s\<rparr> = s" "s\<lparr>mParameters := mParameters s\<rparr> = s"
    "s\<lparr>faulted := faulted s\<rparr> = s" "s\<lparr>trace := trace s\<rparr> = s"
  by simp_all

lemma hw_io: "hw_free f \<Longrightarrow> io_free f"
  by (rule io_freeI) (metis hal_self_update(1,3) hw_free_def)

lemma hw_freeD: "hw_free f \<Longrightarrow> f (s\<lparr>m_channels := c\<rparr>) = f s" "hw_free f \<Longrightarrow> f (s\<lparr>faulted := b\<rparr>) = f s"
  by (metis hal_self_update hw_free_def)+

lemma io_freeD: "io_free f \<Longrightarrow> f (s\<lparr>trace := t\<rparr>) = f s"
  by (metis hal_self_update io_free_def)

lemma hw_free_ctl_view: "hw_free ctl_view"
  by (rule hw_freeI) (simp add: view_simps)

lemma io_free_m_channels: "io_free m_channels"
  by (rule io_freeI) simp

lemma hw_free_mLongshotEnabled: "hw_free mLongshotEnabled"
  by (rule hw_freeI) simp

lemma keeps_ext [keeps_ops]: "io_free f \<Longrightarrow> keeps f (ext E c)"
  by (simp add: keeps_def ext_def io_freeD)

lemma keeps_ext_out [keeps_ops]: "io_free f \<Longrightarrow> keeps f (ext_out E c)"
  by (simp add: keeps_def ext_out_def io_freeD)

lemma keeps_parm [keeps_ops]: "io_free f \<Longrightarrow> keeps f (parm E c)"
  by (simp add: keeps_def parm_def io_free_def)

lemma keeps_parm_out [keeps_ops]: "io_free f \<Longrightarrow> keeps f (parm_out E c)"
  by (simp add: keeps_def parm_out_def io_free_def)

lemma keeps_malloc [keeps_ops]:
  assumes "io_free f"
  shows "keeps f (malloc E)"
  by (unfold malloc_def) (intro pres_intros keeps_ops assms)

end
