(* ===== verification/HWI_Channels.thy ===== *)
theory HWI_Channels
  imports HAL_State
begin

text \<open>
  The stream channels: \<open>QCameraChannel\<close> (\<open>QCameraChannel.cpp\<close>) and the channel table of
  \<open>QCamera2HardwareInterface\<close> (\<open>addStreamToChannel\<close>, the \<open>add*Channel\<close> functions, \<open>addChannel\<close>,
  \<open>delChannel\<close>, \<open>startChannel\<close>, \<open>stopChannel\<close>, \<open>unpreparePreview\<close>), with the contract of the
  table that the rest of the HAL uses.
\<close>

section \<open>One channel\<close>

definition new_channel :: channel where
  "new_channel = \<lparr>m_handle = 0, m_bIsActive = False, mStreams = []\<rparr>"

definition chan :: "env \<Rightarrow> qcamera_ch_type \<Rightarrow> chan_call \<Rightarrow> int hal_op" where
  "chan E t c = ext E (X_chan t c)"

text \<open>The loop over the streams that the channel with handle \<open>h\<close> created.\<close>

fun for_own :: "env \<Rightarrow> qcamera_ch_type \<Rightarrow> int \<Rightarrow> (cam_stream_type \<Rightarrow> chan_call) \<Rightarrow>
    cam_stream list \<Rightarrow> unit hal_op" where
  "for_own E t h c [] = ret ()"
| "for_own E t h c (st # sts) = do {
     _ \<leftarrow> (if s_channel st = h then chan E t (c (s_type st)) else ret 0);
     for_own E t h c sts
   }"

fun for_all :: "env \<Rightarrow> qcamera_ch_type \<Rightarrow> (cam_stream_type \<Rightarrow> chan_call) \<Rightarrow>
    cam_stream list \<Rightarrow> unit hal_op" where
  "for_all E t c [] = ret ()"
| "for_all E t c (st # sts) = do {
     _ \<leftarrow> chan E t (c (s_type st));
     for_all E t c sts
   }"

definition channel_init :: "env \<Rightarrow> qcamera_ch_type \<Rightarrow> channel \<Rightarrow> (int \<times> channel) hal_op" where
  "channel_init E t ch = do {
     h \<leftarrow> chan E t C_init;
     ret (if h = 0 then UNKNOWN_ERROR else NO_ERROR, ch\<lparr>m_handle := h\<rparr>)
   }"

definition channel_addStream :: "env \<Rightarrow> qcamera_ch_type \<Rightarrow> channel \<Rightarrow> cam_stream_type \<Rightarrow> bool \<Rightarrow>
    (int \<times> channel) hal_op" where
  "channel_addStream E t ch st bDeffAlloc = do {
     if MAX_STREAM_NUM_IN_BUNDLE \<le> length (mStreams ch) then ret (BAD_VALUE, ch)
     else do {
       pStream \<leftarrow> malloc E;
       if \<not> pStream then ret (NO_MEMORY, ch)
       else do {
         rc \<leftarrow> chan E t (C_streamInit st);
         if rc = 0 then
           ret (rc, ch\<lparr>mStreams := mStreams ch @
             [\<lparr>s_type = st, s_channel = m_handle ch, s_deffered = bDeffAlloc\<rparr>]\<rparr>)
         else do {
           _ \<leftarrow> chan E t (C_deleteStream st);
           ret (rc, ch)
         }
       }
     }
   }"

fun config_streams :: "env \<Rightarrow> qcamera_ch_type \<Rightarrow> int \<Rightarrow> cam_stream list \<Rightarrow> int hal_op" where
  "config_streams E t h [] = ret NO_ERROR"
| "config_streams E t h (st # sts) =
     (if s_deffered st \<and> s_channel st = h then do {
        rc \<leftarrow> chan E t (C_configStream (s_type st));
        if rc \<noteq> NO_ERROR then ret rc else config_streams E t h sts
      } else config_streams E t h sts)"

definition channel_config :: "env \<Rightarrow> qcamera_ch_type \<Rightarrow> channel \<Rightarrow> (int \<times> channel) hal_op" where
  "channel_config E t ch = do {
     rc \<leftarrow> config_streams E t (m_handle ch) (mStreams ch);
     ret (rc, ch)
   }"

definition channel_linkStream :: "env \<Rightarrow> qcamera_ch_type \<Rightarrow> cam_stream \<Rightarrow> channel \<Rightarrow>
    (int \<times> channel) hal_op" where
  "channel_linkStream E t stream ch =
     (if m_handle ch = 0 then ret (NO_INIT, ch)
      else do {
        handle \<leftarrow> chan E t C_link;
        if handle = 0 then ret (INVALID_OPERATION, ch)
        else ret (NO_ERROR, ch\<lparr>mStreams := mStreams ch @ [stream]\<rparr>)
      })"

text \<open>
  Bundling: the backend names the streams of the bundle by server id; \<open>C_bundleStream i\<close> is the
  index of the \<open>i\<close>-th of them in this channel, out of range when it has no such stream.
\<close>

fun set_bundle :: "env \<Rightarrow> qcamera_ch_type \<Rightarrow> cam_stream list \<Rightarrow> nat list \<Rightarrow> int hal_op" where
  "set_bundle E t sts [] = ret NO_ERROR"
| "set_bundle E t sts (i # js) = do {
     idx \<leftarrow> chan E t (C_bundleStream i);
     if 0 \<le> idx \<and> nat idx < length sts \<and> s_type (sts ! nat idx) \<noteq> CAM_STREAM_TYPE_METADATA
     then do {
       rc \<leftarrow> chan E t (C_setBundle (s_type (sts ! nat idx)));
       if rc \<noteq> NO_ERROR then ret rc else set_bundle E t sts js
     } else set_bundle E t sts js
   }"

definition bundle_streams :: "env \<Rightarrow> qcamera_ch_type \<Rightarrow> channel \<Rightarrow> int hal_op" where
  "bundle_streams E t ch =
     (if 1 < length (mStreams ch) then do {
        (rc, num_of_streams) \<leftarrow> ext_out E (X_chan t C_bundleInfo);
        if rc \<noteq> NO_ERROR then ret rc
        else if 1 < num_of_streams then set_bundle E t (mStreams ch) [0..<nat num_of_streams]
        else ret NO_ERROR
      } else ret NO_ERROR)"

definition channel_start :: "env \<Rightarrow> qcamera_ch_type \<Rightarrow> channel \<Rightarrow> (int \<times> channel) hal_op" where
  "channel_start E t ch = do {
     bundled \<leftarrow> bundle_streams E t ch;
     if bundled \<noteq> NO_ERROR then ret (bundled, ch)
     else do {
       for_own E t (m_handle ch) C_startStream (mStreams ch);
       rc \<leftarrow> chan E t C_start;
       if rc \<noteq> NO_ERROR then do {
         for_own E t (m_handle ch) C_stopStream (mStreams ch);
         ret (rc, ch)
       } else do {
         for_all E t C_signalStream (mStreams ch);
         ret (rc, ch\<lparr>m_bIsActive := True\<rparr>)
       }
     }
   }"

text \<open>The index of the last stream that another channel created, \<open>-1\<close> when there is none.\<close>

fun linkedIdx :: "int \<Rightarrow> nat \<Rightarrow> cam_stream list \<Rightarrow> int" where
  "linkedIdx h i [] = - 1"
| "linkedIdx h i (st # sts) =
     (let r = linkedIdx h (i + 1) sts in
      if r \<noteq> - 1 then r else if s_channel st = h then - 1 else int i)"

definition removeAt :: "nat \<Rightarrow> 'a list \<Rightarrow> 'a list" where
  "removeAt i xs = take i xs @ drop (i + 1) xs"

definition channel_stop :: "env \<Rightarrow> qcamera_ch_type \<Rightarrow> channel \<Rightarrow> (int \<times> channel) hal_op" where
  "channel_stop E t ch = do {
     for_own E t (m_handle ch) C_stopStream (mStreams ch);
     let idx = linkedIdx (m_handle ch) 0 (mStreams ch);
     let streams = (if 0 < idx then removeAt (nat idx) (mStreams ch) else mStreams ch);
     rc \<leftarrow> chan E t C_stop;
     ret (rc, ch\<lparr>mStreams := streams, m_bIsActive := False\<rparr>)
   }"

text \<open>The destructor, and \<open>deleteChannel\<close>, which keeps the object.\<close>

definition channel_destroy :: "env \<Rightarrow> qcamera_ch_type \<Rightarrow> channel \<Rightarrow> unit hal_op" where
  "channel_destroy E t ch = do {
     (_, ch') \<leftarrow> (if m_bIsActive ch then channel_stop E t ch else ret (0, ch));
     for_own E t (m_handle ch') C_deleteStream (mStreams ch');
     _ \<leftarrow> chan E t C_delete;
     ret ()
   }"

definition channel_deleteChannel ::
  "env \<Rightarrow> qcamera_ch_type \<Rightarrow> channel \<Rightarrow> (int \<times> channel) hal_op" where
  "channel_deleteChannel E t ch = do {
     (_, ch') \<leftarrow> (if m_bIsActive ch then channel_stop E t ch else ret (0, ch));
     for_own E t (m_handle ch') C_deleteStream (mStreams ch');
     _ \<leftarrow> chan E t C_delete;
     ret (0, ch')
   }"

definition channel_releaseFrame ::
  "env \<Rightarrow> qcamera_ch_type \<Rightarrow> ptr \<Rightarrow> bool \<Rightarrow> channel \<Rightarrow> (int \<times> channel) hal_op" where
  "channel_releaseFrame E t opaque isMetaData ch =
     (if CAM_STREAM_TYPE_VIDEO \<in> set (map s_type (mStreams ch)) then do {
        rc \<leftarrow> chan E t (C_bufDone opaque isMetaData);
        ret (rc, ch)
      } else ret (BAD_VALUE, ch))"

fun zoom_streams :: "env \<Rightarrow> qcamera_ch_type \<Rightarrow> int \<Rightarrow> nat \<Rightarrow> int \<Rightarrow> cam_stream list \<Rightarrow> int hal_op"
where
  "zoom_streams E t h crop_info rc [] = ret rc"
| "zoom_streams E t h crop_info rc (st # sts) =
     (if s_channel st = h then do {
        rc' \<leftarrow> chan E t (C_zoomStream (s_type st) crop_info);
        zoom_streams E t h crop_info rc' sts
      } else zoom_streams E t h crop_info rc sts)"

definition channel_processZoomDone ::
  "env \<Rightarrow> qcamera_ch_type \<Rightarrow> nat \<Rightarrow> channel \<Rightarrow> (int \<times> channel) hal_op" where
  "channel_processZoomDone E t crop_info ch = do {
     rc \<leftarrow> zoom_streams E t (m_handle ch) crop_info NO_ERROR (mStreams ch);
     ret (rc, ch)
   }"

text \<open>
  The flip settings: each changed one is sent to the channel's own streams of its type. No stream
  of a channel in the table is an offline-reprocessing stream, the only ones with an original type.
\<close>

fun flip_streams :: "env \<Rightarrow> qcamera_ch_type \<Rightarrow> int \<Rightarrow> cam_stream_type list \<Rightarrow>
    int \<Rightarrow> cam_stream list \<Rightarrow> int hal_op" where
  "flip_streams E t h types rc [] = ret rc"
| "flip_streams E t h types rc (st # sts) =
     (if s_channel st = h \<and> s_type st \<in> set types then do {
        rc' \<leftarrow> chan E t (C_setFlip (s_type st));
        flip_streams E t h types rc' sts
      } else flip_streams E t h types rc sts)"

definition channel_UpdateStreamBasedParameters ::
  "env \<Rightarrow> qcamera_ch_type \<Rightarrow> channel \<Rightarrow> (int \<times> channel) hal_op" where
  "channel_UpdateStreamBasedParameters E t ch = do {
     pf \<leftarrow> ext E (X_parm (P_flipChanged CAM_STREAM_TYPE_PREVIEW));
     rc \<leftarrow> (if pf \<noteq> 0
            then flip_streams E t (m_handle ch) [CAM_STREAM_TYPE_PREVIEW] NO_ERROR (mStreams ch)
            else ret NO_ERROR);
     vf \<leftarrow> ext E (X_parm (P_flipChanged CAM_STREAM_TYPE_VIDEO));
     rc \<leftarrow> (if vf \<noteq> 0
            then flip_streams E t (m_handle ch) [CAM_STREAM_TYPE_VIDEO] rc (mStreams ch)
            else ret rc);
     sf \<leftarrow> ext E (X_parm (P_flipChanged CAM_STREAM_TYPE_SNAPSHOT));
     rc \<leftarrow> (if sf \<noteq> 0
            then flip_streams E t (m_handle ch)
              [CAM_STREAM_TYPE_SNAPSHOT, CAM_STREAM_TYPE_POSTVIEW] rc (mStreams ch)
            else ret rc);
     ret (rc, ch)
   }"

section \<open>The channel table\<close>

text \<open>
  \<open>m_channels[t]\<close> as an object: run a member function on it and store its new state. A call
  through a \<open>NULL\<close> entry is a fault.
\<close>

definition set_channel :: "qcamera_ch_type \<Rightarrow> channel option \<Rightarrow> unit hal_op" where
  "set_channel t c = modify (\<lambda>s. s\<lparr>m_channels := (m_channels s)(t := c)\<rparr>)"

definition null_deref :: "int hal_op" where
  "null_deref = do {
     modify (\<lambda>s. s\<lparr>faulted := True\<rparr>);
     ret 0
   }"

definition with_channel ::
  "qcamera_ch_type \<Rightarrow> (channel \<Rightarrow> (int \<times> channel) hal_op) \<Rightarrow> int hal_op" where
  "with_channel t f = do {
     c \<leftarrow> gets (\<lambda>s. m_channels s t);
     case c of
       None \<Rightarrow> null_deref
     | Some ch \<Rightarrow> do {
         (rc, ch') \<leftarrow> f ch;
         set_channel t (Some ch');
         ret rc
       }
   }"

definition has_channel :: "qcamera_ch_type \<Rightarrow> bool hal_op" where
  "has_channel t = gets (\<lambda>s. m_channels s t \<noteq> None)"

definition delChannel :: "env \<Rightarrow> qcamera_ch_type \<Rightarrow> bool \<Rightarrow> int hal_op" where
  "delChannel E t destroy = do {
     c \<leftarrow> gets (\<lambda>s. m_channels s t);
     case c of
       None \<Rightarrow> ret NO_ERROR
     | Some ch \<Rightarrow>
         (if destroy then do {
            channel_destroy E t ch;
            set_channel t None;
            ret NO_ERROR
          } else do {
            _ \<leftarrow> with_channel t (channel_deleteChannel E t);
            ret NO_ERROR
          })
   }"

definition startChannel :: "env \<Rightarrow> qcamera_ch_type \<Rightarrow> int hal_op" where
  "startChannel E t = do {
     present \<leftarrow> has_channel t;
     if present then do {
       rc \<leftarrow> with_channel t (channel_config E t);
       if rc = NO_ERROR then with_channel t (channel_start E t) else ret rc
     } else ret UNKNOWN_ERROR
   }"

definition stopChannel :: "env \<Rightarrow> qcamera_ch_type \<Rightarrow> int hal_op" where
  "stopChannel E t = do {
     present \<leftarrow> has_channel t;
     if present then with_channel t (channel_stop E t) else ret UNKNOWN_ERROR
   }"

definition unpreparePreview :: "env \<Rightarrow> unit hal_op" where
  "unpreparePreview E = do {
     _ \<leftarrow> delChannel E QCAMERA_CH_TYPE_ZSL True;
     _ \<leftarrow> delChannel E QCAMERA_CH_TYPE_PREVIEW True;
     _ \<leftarrow> delChannel E QCAMERA_CH_TYPE_VIDEO True;
     _ \<leftarrow> delChannel E QCAMERA_CH_TYPE_SNAPSHOT True;
     ret ()
   }"

section \<open>Adding channels\<close>

definition waitDefferedWork :: "env \<Rightarrow> deff_job \<Rightarrow> unit hal_op" where
  "waitDefferedWork E j = do { _ \<leftarrow> ext E (X_waitDeff j); ret () }"

text \<open>The job whose buffers \<open>addStreamToChannel\<close> queues; a postview stream's are queued later.\<close>

fun alloc_job :: "cam_stream_type \<Rightarrow> deff_job option" where
  "alloc_job CAM_STREAM_TYPE_SNAPSHOT = Some mSnapshotJob"
| "alloc_job CAM_STREAM_TYPE_METADATA = Some mMetadataJob"
| "alloc_job CAM_STREAM_TYPE_RAW = Some mRawdataJob"
| "alloc_job _ = None"

definition queueAllocBuff :: "env \<Rightarrow> cam_stream_type \<Rightarrow> int hal_op" where
  "queueAllocBuff E st =
     (case alloc_job st of
        None \<Rightarrow> ret NO_ERROR
      | Some j \<Rightarrow> do {
          job \<leftarrow> ext E (X_queueDeff j);
          ret (if job = - 1 then UNKNOWN_ERROR else NO_ERROR)
        })"

fun may_deffer :: "cam_stream_type \<Rightarrow> bool" where
  "may_deffer CAM_STREAM_TYPE_SNAPSHOT = True"
| "may_deffer CAM_STREAM_TYPE_POSTVIEW = True"
| "may_deffer CAM_STREAM_TYPE_METADATA = True"
| "may_deffer CAM_STREAM_TYPE_RAW = True"
| "may_deffer _ = False"

definition addStreamToChannel :: "env \<Rightarrow> qcamera_ch_type \<Rightarrow> cam_stream_type \<Rightarrow> channel \<Rightarrow>
    (int \<times> channel) hal_op" where
  "addStreamToChannel E t st ch = do {
     _ \<leftarrow> (if st = CAM_STREAM_TYPE_RAW then parm E P_updateRAW else ret 0);
     pStreamInfo \<leftarrow> ext E (X_allocateStreamInfoBuf st);
     if pStreamInfo = 0 then ret (NO_MEMORY, ch)
     else do {
       p \<leftarrow> gets mParameters;
       longshot \<leftarrow> gets mLongshotEnabled;
       (rc, ch') \<leftarrow>
         (if may_deffer st \<and> \<not> isZSLMode p \<and> \<not> longshot \<and> \<not> recordingHint p then do {
            (rc, ch') \<leftarrow> channel_addStream E t ch st True;
            if rc = NO_ERROR then do {
              rc \<leftarrow> queueAllocBuff E st;
              ret (rc, ch')
            } else ret (rc, ch')
          } else channel_addStream E t ch st False);
       if rc \<noteq> NO_ERROR then do {
         _ \<leftarrow> ext E (X_freeStreamInfoBuf st);
         waitDefferedWork E mMetadataJob;
         waitDefferedWork E mPostviewJob;
         waitDefferedWork E mSnapshotJob;
         waitDefferedWork E mRawdataJob;
         ret (rc, ch')
       } else ret (rc, ch')
     }
   }"

text \<open>
  The common shape of the \<open>add*Channel\<close> functions: after each step that can fail, a failure
  deletes the channel under construction and returns the code.
\<close>

definition or_delete :: "env \<Rightarrow> qcamera_ch_type \<Rightarrow> (int \<times> channel) hal_op \<Rightarrow>
    (channel \<Rightarrow> int hal_op) \<Rightarrow> int hal_op" where
  "or_delete E t step continue = do {
     (rc, pChannel) \<leftarrow> step;
     if rc \<noteq> NO_ERROR then do {
       channel_destroy E t pChannel;
       ret rc
     } else continue pChannel
   }"

text \<open>\<open>new QCameraChannel\<close> followed by \<open>init\<close>.\<close>

definition create_channel ::
  "env \<Rightarrow> qcamera_ch_type \<Rightarrow> (channel \<Rightarrow> int hal_op) \<Rightarrow> int hal_op" where
  "create_channel E t continue = do {
     pChannel \<leftarrow> malloc E;
     if \<not> pChannel then ret NO_MEMORY
     else or_delete E t (channel_init E t new_channel) continue
   }"

definition install_channel :: "qcamera_ch_type \<Rightarrow> channel \<Rightarrow> int hal_op" where
  "install_channel t ch = do {
     set_channel t (Some ch);
     ret NO_ERROR
   }"

definition addPreviewChannel :: "env \<Rightarrow> int hal_op" where
  "addPreviewChannel E = (let t = QCAMERA_CH_TYPE_PREVIEW in do {
     _ \<leftarrow> delChannel E t True;
     create_channel E t (\<lambda>pChannel.
       or_delete E t (addStreamToChannel E t CAM_STREAM_TYPE_METADATA pChannel) (\<lambda>pChannel.
       or_delete E t (addStreamToChannel E t CAM_STREAM_TYPE_PREVIEW pChannel) (\<lambda>pChannel.
       install_channel t pChannel)))
   })"

definition addVideoChannel :: "env \<Rightarrow> int hal_op" where
  "addVideoChannel E = (let t = QCAMERA_CH_TYPE_VIDEO in do {
     _ \<leftarrow> delChannel E t True;
     create_channel E t (\<lambda>pChannel.
       or_delete E t (addStreamToChannel E t CAM_STREAM_TYPE_VIDEO pChannel) (\<lambda>pChannel.
       install_channel t pChannel))
   })"

definition addSnapshotChannel :: "env \<Rightarrow> int hal_op" where
  "addSnapshotChannel E = (let t = QCAMERA_CH_TYPE_SNAPSHOT in do {
     _ \<leftarrow> delChannel E t True;
     create_channel E t (\<lambda>pChannel.
       or_delete E t (addStreamToChannel E t CAM_STREAM_TYPE_SNAPSHOT pChannel) (\<lambda>pChannel.
       install_channel t pChannel))
   })"

definition addRawChannel :: "env \<Rightarrow> int hal_op" where
  "addRawChannel E = (let t = QCAMERA_CH_TYPE_RAW in do {
     _ \<leftarrow> delChannel E t True;
     create_channel E t (\<lambda>pChannel.
       or_delete E t (addStreamToChannel E t CAM_STREAM_TYPE_METADATA pChannel) (\<lambda>pChannel. do {
       waitDefferedWork E mMetadataJob;
       or_delete E t (addStreamToChannel E t CAM_STREAM_TYPE_RAW pChannel) (\<lambda>pChannel. do {
       waitDefferedWork E mRawdataJob;
       install_channel t pChannel })}))
   })"

text \<open>The raw stream that \<open>persist.camera.raw_yuv\<close> adds at the end.\<close>

definition add_raw_yuv :: "env \<Rightarrow> qcamera_ch_type \<Rightarrow> channel \<Rightarrow> int hal_op" where
  "add_raw_yuv E t pChannel = do {
     value \<leftarrow> ext E (X_property ''persist.camera.raw_yuv'');
     if 0 < value
     then or_delete E t (addStreamToChannel E t CAM_STREAM_TYPE_RAW pChannel) (install_channel t)
     else install_channel t pChannel
   }"

definition addZSLChannel :: "env \<Rightarrow> int hal_op" where
  "addZSLChannel E = (let t = QCAMERA_CH_TYPE_ZSL in do {
     _ \<leftarrow> delChannel E t True;
     _ \<leftarrow> delChannel E QCAMERA_CH_TYPE_PREVIEW True;
     create_channel E t (\<lambda>pChannel.
       or_delete E t (addStreamToChannel E t CAM_STREAM_TYPE_METADATA pChannel) (\<lambda>pChannel.
       or_delete E t (addStreamToChannel E t CAM_STREAM_TYPE_PREVIEW pChannel) (\<lambda>pChannel.
       or_delete E t (addStreamToChannel E t CAM_STREAM_TYPE_SNAPSHOT pChannel) (\<lambda>pChannel.
       add_raw_yuv E t pChannel))))
   })"

definition addCaptureChannel :: "env \<Rightarrow> int hal_op" where
  "addCaptureChannel E = (let t = QCAMERA_CH_TYPE_CAPTURE in do {
     _ \<leftarrow> delChannel E t True;
     longshot \<leftarrow> gets mLongshotEnabled;
     create_channel E t (\<lambda>pChannel.
       or_delete E t (addStreamToChannel E t CAM_STREAM_TYPE_METADATA pChannel) (\<lambda>pChannel.
       or_delete E t (addStreamToChannel E t
           (if longshot then CAM_STREAM_TYPE_PREVIEW else CAM_STREAM_TYPE_POSTVIEW) pChannel)
         (\<lambda>pChannel.
       or_delete E t (addStreamToChannel E t CAM_STREAM_TYPE_SNAPSHOT pChannel) (\<lambda>pChannel.
       add_raw_yuv E t pChannel))))
   })"

definition addMetaDataChannel :: "env \<Rightarrow> int hal_op" where
  "addMetaDataChannel E = (let t = QCAMERA_CH_TYPE_METADATA in do {
     _ \<leftarrow> delChannel E t True;
     create_channel E t (\<lambda>pChannel.
       or_delete E t (addStreamToChannel E t CAM_STREAM_TYPE_METADATA pChannel) (\<lambda>pChannel.
       install_channel t pChannel))
   })"

fun addChannel :: "env \<Rightarrow> qcamera_ch_type \<Rightarrow> int hal_op" where
  "addChannel E QCAMERA_CH_TYPE_ZSL = addZSLChannel E"
| "addChannel E QCAMERA_CH_TYPE_CAPTURE = addCaptureChannel E"
| "addChannel E QCAMERA_CH_TYPE_PREVIEW = addPreviewChannel E"
| "addChannel E QCAMERA_CH_TYPE_VIDEO = addVideoChannel E"
| "addChannel E QCAMERA_CH_TYPE_SNAPSHOT = addSnapshotChannel E"
| "addChannel E QCAMERA_CH_TYPE_RAW = addRawChannel E"
| "addChannel E QCAMERA_CH_TYPE_METADATA = addMetaDataChannel E"

section \<open>What the channel operations leave alone\<close>

text \<open>Operations on one channel object touch neither the queues nor the table.\<close>

lemma keeps_chan [keeps_ops]: "io_free f \<Longrightarrow> keeps f (chan E t c)"
  by (simp add: chan_def keeps_ops)

lemma keeps_for_own [keeps_ops]: "io_free f \<Longrightarrow> keeps f (for_own E t h c sts)"
  by (induction sts) (auto intro!: pres_intros keeps_ops)

lemma keeps_for_all [keeps_ops]: "io_free f \<Longrightarrow> keeps f (for_all E t c sts)"
  by (induction sts) (auto intro!: pres_intros keeps_ops)

lemma keeps_config_streams [keeps_ops]: "io_free f \<Longrightarrow> keeps f (config_streams E t h sts)"
  by (induction sts) (auto intro!: pres_intros keeps_ops)

lemma keeps_set_bundle [keeps_ops]: "io_free f \<Longrightarrow> keeps f (set_bundle E t sts js)"
  by (induction js) (auto intro!: pres_intros keeps_ops)

lemma keeps_zoom_streams [keeps_ops]: "io_free f \<Longrightarrow> keeps f (zoom_streams E t h n rc sts)"
  by (induction sts arbitrary: rc) (auto intro!: pres_intros keeps_ops)

lemma keeps_flip_streams [keeps_ops]: "io_free f \<Longrightarrow> keeps f (flip_streams E t h ts rc sts)"
  by (induction sts arbitrary: rc) (auto intro!: pres_intros keeps_ops)

lemmas channel_op_defs = channel_init_def channel_addStream_def channel_config_def
  channel_linkStream_def bundle_streams_def channel_stop_def
  channel_releaseFrame_def channel_processZoomDone_def
  channel_UpdateStreamBasedParameters_def

lemma keeps_channel_ops [keeps_ops]:
  assumes "io_free f"
  shows "keeps f (channel_init E t ch)" "keeps f (channel_addStream E t ch st b)"
    "keeps f (channel_config E t ch)" "keeps f (channel_linkStream E t x ch)"
    "keeps f (bundle_streams E t ch)" "keeps f (channel_stop E t ch)"
    "keeps f (channel_releaseFrame E t p b ch)" "keeps f (channel_processZoomDone E t n ch)"
    "keeps f (channel_UpdateStreamBasedParameters E t ch)"
  by (unfold channel_op_defs) (intro pres_intros keeps_ops assms)+

lemma keeps_channel_ops2 [keeps_ops]:
  assumes "io_free f"
  shows "keeps f (channel_start E t ch)" "keeps f (channel_destroy E t ch)"
    "keeps f (channel_deleteChannel E t ch)"
  by (unfold channel_start_def channel_destroy_def channel_deleteChannel_def)
    (intro pres_intros keeps_ops assms)+

lemma keeps_set_channel [keeps_ops]: "hw_free f \<Longrightarrow> keeps f (set_channel t c)"
  by (unfold set_channel_def) (intro pres_intros; simp add: hw_freeD)

lemma keeps_with_channel [keeps_ops]:
  assumes "hw_free f" and "\<And>ch. keeps f (g ch)"
  shows "keeps f (with_channel t g)"
  by (unfold with_channel_def null_deref_def)
    (intro pres_intros keeps_ops assms; simp add: hw_freeD assms)

lemma keeps_add_steps [keeps_ops]:
  assumes "io_free f"
  shows "keeps f (has_channel t)" "keeps f (waitDefferedWork E j)" "keeps f (queueAllocBuff E st)"
  by (unfold has_channel_def waitDefferedWork_def queueAllocBuff_def)
    (intro pres_intros keeps_ops assms)+

lemma keeps_addStreamToChannel [keeps_ops]:
  assumes "io_free f"
  shows "keeps f (addStreamToChannel E t st ch)"
  by (unfold addStreamToChannel_def) (intro pres_intros keeps_ops assms)

lemma keeps_table_ops [keeps_ops]:
  assumes "hw_free f"
  shows "keeps f (delChannel E t b)" "keeps f (startChannel E t)" "keeps f (stopChannel E t)"
    "keeps f (install_channel t ch)"
  by (unfold delChannel_def startChannel_def stopChannel_def install_channel_def)
    (intro pres_intros keeps_ops hw_io [OF assms] assms)+

lemma keeps_unpreparePreview [keeps_ops]:
  assumes "hw_free f"
  shows "keeps f (unpreparePreview E)"
  by (unfold unpreparePreview_def) (intro pres_intros keeps_ops assms)

lemma keeps_or_delete [keeps_ops]:
  assumes "hw_free f" and "keeps f m" and "\<And>ch. keeps f (k ch)"
  shows "keeps f (or_delete E t m k)"
  by (unfold or_delete_def) (intro pres_intros keeps_ops hw_io [OF assms(1)] assms)

lemma keeps_create_channel [keeps_ops]:
  assumes "hw_free f" and "\<And>ch. keeps f (k ch)"
  shows "keeps f (create_channel E t k)"
  by (unfold create_channel_def) (intro pres_intros keeps_ops hw_io [OF assms(1)] assms)

lemma keeps_add_raw_yuv [keeps_ops]:
  assumes "hw_free f"
  shows "keeps f (add_raw_yuv E t ch)"
  by (unfold add_raw_yuv_def) (intro pres_intros keeps_ops hw_io [OF assms] assms)

lemmas add_defs = addPreviewChannel_def addVideoChannel_def addSnapshotChannel_def
  addRawChannel_def addZSLChannel_def addCaptureChannel_def addMetaDataChannel_def

lemma keeps_addChannel [keeps_ops]:
  assumes "hw_free f"
  shows "keeps f (addChannel E t)"
  by (cases t; simp add: add_defs; intro pres_intros keeps_ops hw_io [OF assms] assms)

section \<open>The channel table's contract\<close>

definition fresh_channel :: "cam_stream_type list \<Rightarrow> channel \<Rightarrow> bool" where
  "fresh_channel tys ch \<longleftrightarrow> m_handle ch \<noteq> 0 \<and> \<not> m_bIsActive ch \<and> map s_type (mStreams ch) = tys \<and>
     (\<forall>st \<in> set (mStreams ch). s_channel st = m_handle ch)"

text \<open>The streams a channel of each type is built from; two types may also get a raw stream.\<close>

fun stream_layout :: "bool \<Rightarrow> qcamera_ch_type \<Rightarrow> cam_stream_type list" where
  "stream_layout l QCAMERA_CH_TYPE_ZSL =
     [CAM_STREAM_TYPE_METADATA, CAM_STREAM_TYPE_PREVIEW, CAM_STREAM_TYPE_SNAPSHOT]"
| "stream_layout l QCAMERA_CH_TYPE_CAPTURE =
     [CAM_STREAM_TYPE_METADATA, if l then CAM_STREAM_TYPE_PREVIEW else CAM_STREAM_TYPE_POSTVIEW,
      CAM_STREAM_TYPE_SNAPSHOT]"
| "stream_layout l QCAMERA_CH_TYPE_PREVIEW = [CAM_STREAM_TYPE_METADATA, CAM_STREAM_TYPE_PREVIEW]"
| "stream_layout l QCAMERA_CH_TYPE_VIDEO = [CAM_STREAM_TYPE_VIDEO]"
| "stream_layout l QCAMERA_CH_TYPE_SNAPSHOT = [CAM_STREAM_TYPE_SNAPSHOT]"
| "stream_layout l QCAMERA_CH_TYPE_RAW = [CAM_STREAM_TYPE_METADATA, CAM_STREAM_TYPE_RAW]"
| "stream_layout l QCAMERA_CH_TYPE_METADATA = [CAM_STREAM_TYPE_METADATA]"

fun may_have_raw :: "qcamera_ch_type \<Rightarrow> bool" where
  "may_have_raw QCAMERA_CH_TYPE_ZSL = True"
| "may_have_raw QCAMERA_CH_TYPE_CAPTURE = True"
| "may_have_raw _ = False"

definition built_as :: "bool \<Rightarrow> qcamera_ch_type \<Rightarrow> channel \<Rightarrow> bool" where
  "built_as l t ch \<longleftrightarrow> fresh_channel (stream_layout l t) ch \<or>
     may_have_raw t \<and> fresh_channel (stream_layout l t @ [CAM_STREAM_TYPE_RAW]) ch"

text \<open>
  \<open>adds l t c m\<close>: from the table \<open>c\<close>, \<open>m\<close> either succeeds and puts a freshly built channel at \<open>t\<close>
  or fails and leaves the table as it is.
\<close>

definition added where
  "added l t c rc s' \<longleftrightarrow>
     (if rc = NO_ERROR then \<exists>ch. m_channels s' = c(t := Some ch) \<and> built_as l t ch
      else m_channels s' = c)"

definition adds :: "bool \<Rightarrow> qcamera_ch_type \<Rightarrow> (qcamera_ch_type \<Rightarrow> channel option) \<Rightarrow>
    int hal_op \<Rightarrow> bool" where
  "adds l t c m \<longleftrightarrow> (\<forall>s. m_channels s = c \<longrightarrow> wp m (added l t c) s)"

lemma addsD: "adds l t c m \<Longrightarrow> m_channels s = c \<Longrightarrow> wp m (added l t c) s"
  by (simp add: adds_def)

lemma channel_init_fresh:
  "wp (channel_init E t new_channel)
     (\<lambda>(rc, ch) s'. m_channels s' = m_channels s \<and> (rc = NO_ERROR \<longrightarrow> fresh_channel [] ch)) s"
  unfolding channel_init_def chan_def
  by (rule wp_bind [THEN iffD2], rule wp_keepsI [OF keeps_ext [OF io_free_m_channels]])
    (auto simp: wp_simps fresh_channel_def new_channel_def)

lemma channel_addStream_fresh:
  assumes "fresh_channel tys ch"
  shows "wp (channel_addStream E t ch st b)
     (\<lambda>(rc, ch') s'. m_channels s' = m_channels s \<and>
        (rc = NO_ERROR \<longrightarrow> fresh_channel (tys @ [st]) ch')) s"
  using assms unfolding channel_addStream_def malloc_def chan_def
  by (auto simp: wp_simps fresh_channel_def ext_def wp_def)

lemma addStreamToChannel_fresh:
  assumes "fresh_channel tys ch"
  shows "wp (addStreamToChannel E t st ch)
     (\<lambda>(rc, ch') s'. m_channels s' = m_channels s \<and>
        (rc = NO_ERROR \<longrightarrow> fresh_channel (tys @ [st]) ch')) s"
proof -
  have added: "wp (channel_addStream E t ch st b)
      (\<lambda>(rc, ch') _. rc = NO_ERROR \<longrightarrow> fresh_channel (tys @ [st]) ch') s" for b s
    by (rule wp_mono [OF channel_addStream_fresh [OF assms]]) auto
  have rest: "wp (if deffer then channel_addStream E t ch st True \<bind> (\<lambda>(rc, ch').
        if rc = NO_ERROR then queueAllocBuff E st \<bind> (\<lambda>rc. ret (rc, ch')) else ret (rc, ch'))
      else channel_addStream E t ch st False)
      (\<lambda>(rc, ch') _. rc = NO_ERROR \<longrightarrow> fresh_channel (tys @ [st]) ch') s" for deffer s
    by (cases deffer; simp; (rule wp_seq [OF added] | rule added))
      (auto simp: wp_return intro!: wp_any)
  have "wp (addStreamToChannel E t st ch)
      (\<lambda>(rc, ch') _. rc = NO_ERROR \<longrightarrow> fresh_channel (tys @ [st]) ch') s"
    unfolding addStreamToChannel_def
    by (rule wp_any, rule wp_any, rule wp_ifI, simp add: wp_return,
        rule wp_any, rule wp_any, rule wp_seq [OF rest])
      (auto simp: wp_return intro!: wp_any)
  from wp_conj [OF keeps_wp [OF keeps_addStreamToChannel [OF io_free_m_channels]] this]
  show ?thesis
    by (rule wp_mono) auto
qed

lemma or_delete_adds:
  assumes step: "\<And>s. m_channels s = c \<Longrightarrow>
      wp step (\<lambda>(rc, ch) s'. m_channels s' = m_channels s \<and> (rc = NO_ERROR \<longrightarrow> R ch)) s"
    and continue: "\<And>ch. R ch \<Longrightarrow> adds l t c (k ch)"
  shows "adds l t c (or_delete E t step k)"
  unfolding adds_def or_delete_def
proof (intro allI impI)
  fix s :: hal assume c: "m_channels s = c"
  show "wp (step \<bind> (\<lambda>(rc, pChannel). if rc \<noteq> NO_ERROR then
        channel_destroy E t pChannel \<bind> (\<lambda>_. ret rc) else k pChannel)) (added l t c) s"
  proof (rule wp_seq [OF step [OF c]])
    fix a and s' :: hal
    assume "(case a of (rc, ch) \<Rightarrow> \<lambda>s'. m_channels s' = m_channels s \<and>
        (rc = NO_ERROR \<longrightarrow> R ch)) s'"
    then obtain rc ch where a: "a = (rc, ch)" and s': "m_channels s' = c"
      and R: "rc = NO_ERROR \<Longrightarrow> R ch"
      by (cases a) (auto simp: c)
    show "wp (case a of (rc, pChannel) \<Rightarrow> if rc \<noteq> NO_ERROR then
        channel_destroy E t pChannel \<bind> (\<lambda>_. ret rc) else k pChannel) (added l t c) s'"
      unfolding a prod.case
    proof (rule wp_ifI)
      assume "rc \<noteq> NO_ERROR"
      then show "wp (channel_destroy E t ch \<bind> (\<lambda>_. ret rc)) (added l t c) s'"
        by (intro wp_keeps_seq [OF keeps_channel_ops2(2) [OF io_free_m_channels]]) (simp add: wp_return added_def s')
    qed (use addsD [OF continue s'] R in blast)
  qed
qed

lemma adds_skip: "keeps m_channels m \<Longrightarrow> (\<And>a. adds l t c (k a)) \<Longrightarrow> adds l t c (m \<bind> k)"
  by (auto simp: adds_def intro!: wp_keeps_seq)

lemma adds_if: "(b \<Longrightarrow> adds l t c m) \<Longrightarrow> (\<not> b \<Longrightarrow> adds l t c n) \<Longrightarrow> adds l t c (if b then m else n)"
  by simp

lemma adds_error: "rc \<noteq> NO_ERROR \<Longrightarrow> adds l t c (ret rc)"
  by (simp add: adds_def added_def wp_return)

lemma adds_install: "built_as l t ch \<Longrightarrow> adds l t c (install_channel t ch)"
  by (auto simp: adds_def added_def install_channel_def set_channel_def wp_simps)

lemmas adds_stream = or_delete_adds [OF addStreamToChannel_fresh]

lemma adds_create:
  "(\<And>ch. fresh_channel [] ch \<Longrightarrow> adds l t c (k ch)) \<Longrightarrow> adds l t c (create_channel E t k)"
  unfolding create_channel_def
  by (intro adds_skip keeps_malloc [OF io_free_m_channels] adds_if adds_error or_delete_adds [OF channel_init_fresh])
    simp_all

lemma adds_raw_yuv:
  assumes "fresh_channel (stream_layout l t) ch" and "may_have_raw t"
  shows "adds l t c (add_raw_yuv E t ch)"
  unfolding add_raw_yuv_def using assms
  by (auto intro!: adds_skip [OF keeps_ext [OF io_free_m_channels]] adds_stream adds_install simp: built_as_def)

lemma delChannel_chans:
  "wp (delChannel E t True) (\<lambda>rc s'. rc = NO_ERROR \<and> m_channels s' = (m_channels s)(t := None)) s"
  unfolding delChannel_def set_channel_def
  by (cases "m_channels s t")
    (auto simp: wp_gets wp_return wp_simps(2) wp_bind wp_modify fun_upd_idem
      intro!: wp_keepsI [OF keeps_channel_ops2(2) [OF io_free_m_channels]])

text \<open>The table that a new channel is built over.\<close>

fun table_before :: "qcamera_ch_type \<Rightarrow> (qcamera_ch_type \<Rightarrow> channel option) \<Rightarrow>
    qcamera_ch_type \<Rightarrow> channel option" where
  "table_before QCAMERA_CH_TYPE_ZSL c = c(QCAMERA_CH_TYPE_ZSL := None, QCAMERA_CH_TYPE_PREVIEW := None)"
| "table_before t c = c(t := None)"

lemma delChannel_seq:
  assumes "\<And>s'. m_channels s' = (m_channels s)(t := None) \<Longrightarrow>
      mLongshotEnabled s' = mLongshotEnabled s \<Longrightarrow> wp (k 0) Q s'"
  shows "wp (delChannel E t True \<bind> k) Q s"
  by (rule wp_seq [OF wp_conj [OF delChannel_chans
        keeps_wp [OF keeps_table_ops(1) [OF hw_free_mLongshotEnabled]]]])
    (auto intro: assms)

theorem addChannel_law:
  "wp (addChannel E t) (added (mLongshotEnabled s) t (table_before t (m_channels s))) s"
  by (cases t; simp add: add_defs; intro delChannel_seq)
    (auto simp: wp_gets wp_bind built_as_def fresh_channel_def
      intro!: addsD [OF adds_create] adds_stream adds_install adds_raw_yuv adds_skip keeps_ops
        io_free_m_channels)

lemma with_channel_chans:
  assumes "\<And>ch. keeps m_channels (g ch)"
  shows "wp (with_channel t g) (\<lambda>rc s'. (\<forall>u. u \<noteq> t \<longrightarrow> m_channels s' u = m_channels s u) \<and>
     (m_channels s' t = None \<longleftrightarrow> m_channels s t = None)) s"
  unfolding with_channel_def set_channel_def null_deref_def
  by (cases "m_channels s t")
    (auto simp: wp_gets wp_return wp_bind wp_modify wp_case_prod intro!: wp_keepsI [OF assms])

lemma stopChannel_law:
  "wp (stopChannel E t) (\<lambda>rc s'. (\<forall>u. u \<noteq> t \<longrightarrow> m_channels s' u = m_channels s u) \<and>
     (m_channels s' t = None \<longleftrightarrow> m_channels s t = None)) s"
  unfolding stopChannel_def has_channel_def
  by (auto simp: wp_gets wp_bind wp_return
      intro!: wp_mono [OF with_channel_chans] keeps_channel_ops io_free_m_channels)

lemma startChannel_law:
  "wp (startChannel E t) (\<lambda>rc s'. (\<forall>u. u \<noteq> t \<longrightarrow> m_channels s' u = m_channels s u) \<and>
     (m_channels s' t = None \<longleftrightarrow> m_channels s t = None)) s"
  unfolding startChannel_def has_channel_def
  by (auto simp: wp_gets wp_bind [of "gets _"] wp_return
      intro!: wp_seq [OF with_channel_chans] wp_mono [OF with_channel_chans]
        keeps_channel_ops keeps_channel_ops2 io_free_m_channels)

section \<open>Linked streams\<close>

text \<open>
  Stopping a channel takes out the stream another channel linked into it, unless that stream is the
  first one.
\<close>

lemma linkedIdx_own: "(\<forall>st \<in> set sts. s_channel st = h) \<Longrightarrow> linkedIdx h i sts = - 1"
  by (induction sts arbitrary: i) (auto simp: Let_def)

lemma linkedIdx_last:
  "(\<forall>st \<in> set sts. s_channel st = h) \<Longrightarrow> s_channel x \<noteq> h \<Longrightarrow>
   linkedIdx h i (sts @ [x]) = int (i + length sts)"
  by (induction sts arbitrary: i) (auto simp: Let_def)

lemma channel_stop_unlinks:
  assumes "\<forall>st \<in> set own. s_channel st = m_handle ch" and "s_channel x \<noteq> m_handle ch"
    and "mStreams ch = own @ [x]" and "own \<noteq> []"
  shows "wp (channel_stop E t ch) (\<lambda>(rc, ch') s'. mStreams ch' = own \<and> \<not> m_bIsActive ch') s"
  unfolding channel_stop_def Let_def
  by (rule wp_any, rule wp_any)
    (use assms in \<open>auto simp: wp_return linkedIdx_last removeAt_def\<close>)

lemma channel_stop_own:
  assumes "\<forall>st \<in> set (mStreams ch). s_channel st = m_handle ch"
  shows "wp (channel_stop E t ch) (\<lambda>(rc, ch') s'. ch' = ch\<lparr>m_bIsActive := False\<rparr>) s"
  unfolding channel_stop_def Let_def
  by (rule wp_any, rule wp_any) (use assms in \<open>auto simp: wp_return linkedIdx_own\<close>)

lemma channel_stop_keeps_first:
  assumes "mStreams ch = [x]" and "s_channel x \<noteq> m_handle ch"
  shows "wp (channel_stop E t ch) (\<lambda>(rc, ch') s'. mStreams ch' = [x]) s"
  unfolding channel_stop_def Let_def
  by (rule wp_any, rule wp_any) (use assms in \<open>auto simp: wp_return\<close>)

section \<open>The contract as an interface\<close>

text \<open>
  What the HAL relies on when it tears channels down: deleting empties one entry, stopping keeps
  every entry's presence. From that, stopping and deleting a list of channels empties exactly them.
\<close>

locale channel_table =
  fixes chans :: "'s \<Rightarrow> 'c \<Rightarrow> 'a option"
    and del :: "'c \<Rightarrow> ('s, int) state"
    and stop :: "'c \<Rightarrow> ('s, int) state"
  assumes del_law: "wp (del t) (\<lambda>rc s'. rc = NO_ERROR \<and> chans s' = (chans s)(t := None)) s"
    and stop_law: "wp (stop t) (\<lambda>rc s'. (\<forall>u. u \<noteq> t \<longrightarrow> chans s' u = chans s u) \<and>
        (chans s' t = None \<longleftrightarrow> chans s t = None)) s"
begin

definition teardown :: "'c list \<Rightarrow> ('s, unit) state" where
  "teardown = for_each (\<lambda>t. do {
     present \<leftarrow> gets (\<lambda>s. chans s t \<noteq> None);
     when_do present (do { _ \<leftarrow> stop t; _ \<leftarrow> del t; ret () })
   })"

lemma stop_del:
  "wp (stop t \<bind> (\<lambda>_. del t \<bind> (\<lambda>_. ret ()))) (\<lambda>_ s'. chans s' = (chans s)(t := None)) s"
  by (rule wp_seq [OF stop_law], rule wp_seq [OF del_law]) (auto simp: wp_return fun_eq_iff)

lemma teardown_step:
  "wp (gets (\<lambda>s. chans s t \<noteq> None) \<bind> (\<lambda>present.
       when_do present (stop t \<bind> (\<lambda>_. del t \<bind> (\<lambda>_. ret ())))))
     (\<lambda>_ s'. chans s' = (chans s)(t := None)) s"
  by (auto simp: wp_bind [of "gets _"] wp_gets wp_when fun_upd_idem intro: stop_del)

lemma teardown_empties:
  "wp (teardown ts) (\<lambda>_ s'. chans s' = (\<lambda>u. if u \<in> set ts then None else chans s u)) s"
proof (induction ts arbitrary: s)
  case Nil
  then show ?case by (simp add: teardown_def wp_return)
next
  case (Cons t ts)
  have "wp (teardown (t # ts)) Q s" if "\<And>s'. chans s' = (chans s)(t := None) \<Longrightarrow>
      wp (teardown ts) Q s'" for Q
    unfolding teardown_def for_each.simps
    by (rule wp_seq [OF teardown_step]) (use that in \<open>simp add: teardown_def\<close>)
  then show ?case
    by (rule wp_mono [OF _]) (auto intro!: wp_mono [OF Cons.IH])
qed

lemma delete_empties:
  "wp (for_each (\<lambda>t. do { _ \<leftarrow> del t; ret () }) ts)
     (\<lambda>_ s'. chans s' = (\<lambda>u. if u \<in> set ts then None else chans s u)) s"
proof (induction ts arbitrary: s)
  case (Cons t ts)
  show ?case
    unfolding for_each.simps
    by (rule wp_seq [OF wp_seq [OF del_law]]) (auto simp: wp_return intro!: wp_mono [OF Cons.IH])
qed (simp add: wp_return)

end

interpretation ct: channel_table m_channels "\<lambda>t. delChannel E t True" "stopChannel E" for E
  by unfold_locales (rule delChannel_chans stopChannel_law)+

lemma unpreparePreview_law:
  "wp (unpreparePreview E) (\<lambda>_ s'. m_channels s' = (\<lambda>u. if u \<in> {QCAMERA_CH_TYPE_ZSL,
     QCAMERA_CH_TYPE_PREVIEW, QCAMERA_CH_TYPE_VIDEO, QCAMERA_CH_TYPE_SNAPSHOT} then None
     else m_channels s u)) s"
proof -
  have "unpreparePreview E = for_each (\<lambda>t. do { _ \<leftarrow> delChannel E t True; ret () })
      [QCAMERA_CH_TYPE_ZSL, QCAMERA_CH_TYPE_PREVIEW, QCAMERA_CH_TYPE_VIDEO,
       QCAMERA_CH_TYPE_SNAPSHOT]"
    by (simp add: unpreparePreview_def)
  then show ?thesis
    using ct.delete_empties [of E "[QCAMERA_CH_TYPE_ZSL, QCAMERA_CH_TYPE_PREVIEW,
        QCAMERA_CH_TYPE_VIDEO, QCAMERA_CH_TYPE_SNAPSHOT]" s]
    by simp
qed

end
