(* ===== verification/HWI_Ops.thy ===== *)
theory HWI_Ops
  imports HWI_Channels
begin

text \<open>
  The operations of \<open>QCamera2HardwareInterface\<close> (\<open>QCamera2HWI.cpp\<close>) that the state machine's
  handlers call: configuration, preview, recording, focus, capture, live snapshot, commands,
  parameters and the processing of backend events.
\<close>

section \<open>Configuration and notification\<close>

abbreviation CAMERA_ERROR_SERVER_DIED :: int where "CAMERA_ERROR_SERVER_DIED \<equiv> 100"

definition setPreviewWindow :: "ptr \<Rightarrow> int hal_op" where
  "setPreviewWindow window = do {
     modify (\<lambda>s. s\<lparr>mPreviewWindow := window\<rparr>);
     ret NO_ERROR
   }"

definition setCallBacks :: "env \<Rightarrow> qcamera_sm_evt_setcb_payload \<Rightarrow> int hal_op" where
  "setCallBacks E setcbs = do {
     modify (\<lambda>s. s\<lparr>mCallbacks := setcbs\<rparr>);
     _ \<leftarrow> ext E (X_setCallbacks setcbs);
     ret NO_ERROR
   }"

definition enableMsgType :: "32 word \<Rightarrow> int hal_op" where
  "enableMsgType msg_type = do {
     modify (\<lambda>s. s\<lparr>mMsgEnabled := or (mMsgEnabled s) msg_type\<rparr>);
     ret NO_ERROR
   }"

definition disableMsgType :: "32 word \<Rightarrow> int hal_op" where
  "disableMsgType msg_type = do {
     modify (\<lambda>s. s\<lparr>mMsgEnabled := and (mMsgEnabled s) (not msg_type)\<rparr>);
     ret NO_ERROR
   }"

definition msgTypeEnabled :: "32 word \<Rightarrow> int hal_op" where
  "msgTypeEnabled msg_type = gets (\<lambda>s. sint (and (mMsgEnabled s) msg_type))"

definition storeMetaDataInBuffers :: "int \<Rightarrow> int hal_op" where
  "storeMetaDataInBuffers enable = do {
     modify (\<lambda>s. s\<lparr>mStoreMetaDataInFrame := enable\<rparr>);
     ret NO_ERROR
   }"

definition sendEvtNotify :: "env \<Rightarrow> camera_msg \<Rightarrow> int \<Rightarrow> int \<Rightarrow> int hal_op" where
  "sendEvtNotify E msg_type ext1 ext2 = ext E (X_notify msg_type ext1 ext2)"

definition playShutter :: "env \<Rightarrow> unit hal_op" where
  "playShutter E = do {
     cbs \<leftarrow> gets mCallbacks;
     enabled \<leftarrow> msgTypeEnabled (e_mask E CAMERA_MSG_SHUTTER);
     if notify_cb cbs = None \<or> enabled = 0 then ret ()
     else do { _ \<leftarrow> ext E (X_notify CAMERA_MSG_SHUTTER 0 0); ret () }
   }"

definition dump :: "int \<Rightarrow> int hal_op" where
  "dump fd = ret INVALID_OPERATION"

definition release :: "env \<Rightarrow> int hal_op" where
  "release E = do {
     for_each (\<lambda>i. do {
       present \<leftarrow> has_channel i;
       when_do present (do { _ \<leftarrow> stopChannel E i; _ \<leftarrow> delChannel E i True; ret () })
     }) ch_types;
     ret NO_ERROR
   }"

section \<open>Thermal level\<close>

text \<open>
  \<open>calcThermalLevel\<close> without the frame rates: the skip pattern it selects, \<^term>\<open>None\<close> where it
  leaves the pattern uninitialised.
\<close>

fun skip_pattern :: "qcamera_thermal_level \<Rightarrow> msm_vfe_frame_skip_pattern option" where
  "skip_pattern QCAMERA_THERMAL_NO_ADJUSTMENT = Some NO_SKIP"
| "skip_pattern QCAMERA_THERMAL_SLIGHT_ADJUSTMENT = Some EVERY_2FRAME"
| "skip_pattern QCAMERA_THERMAL_BIG_ADJUSTMENT = Some EVERY_4FRAME"
| "skip_pattern QCAMERA_THERMAL_MAX_ADJUSTMENT = Some MAX_SKIP"
| "skip_pattern QCAMERA_THERMAL_SHUTDOWN = None"

definition calcThermalLevel ::
  "env \<Rightarrow> qcamera_thermal_level \<Rightarrow> msm_vfe_frame_skip_pattern option hal_op" where
  "calcThermalLevel E level = do {
     _ \<leftarrow> (if level = QCAMERA_THERMAL_SHUTDOWN
           then sendEvtNotify E CAMERA_MSG_ERROR CAMERA_ERROR_SERVER_DIED 0 else ret 0);
     p \<leftarrow> gets mParameters;
     ret (if level \<noteq> QCAMERA_THERMAL_SHUTDOWN \<and> recordingHint p then Some NO_SKIP
          else skip_pattern level)
   }"

definition updateThermalLevel :: "env \<Rightarrow> qcamera_thermal_level \<Rightarrow> int hal_op" where
  "updateThermalLevel E level = do {
     opened \<leftarrow> gets mCameraOpened;
     if \<not> opened then ret NO_ERROR
     else do {
       mode \<leftarrow> gets (\<lambda>s. thermalMode (mParameters s));
       skipPattern \<leftarrow> calcThermalLevel E level;
       modify (\<lambda>s. s\<lparr>mThermalLevel := level\<rparr>);
       if mode = QCAMERA_THERMAL_ADJUST_FPS then parm E P_adjustPreviewFpsRange
       else if mode = QCAMERA_THERMAL_ADJUST_FRAMESKIP then parm E (P_setFrameSkip skipPattern)
       else ret NO_ERROR
     }
   }"

section \<open>Capture\<close>

definition configureAFBracketing :: "env \<Rightarrow> bool \<Rightarrow> int hal_op" where
  "configureAFBracketing E enable = do {
     rc \<leftarrow> parm E (P_configureAFBracketing enable);
     if rc \<noteq> NO_ERROR then ret rc
     else do {
       when_do enable (do {
         _ \<leftarrow> parm E (P_set3ALock True);
         modify (\<lambda>s. s\<lparr>mIs3ALocked := True\<rparr>)
       });
       ret rc
     }
   }"

definition configureMTFBracketing :: "env \<Rightarrow> bool \<Rightarrow> int hal_op" where
  "configureMTFBracketing E enable = do {
     rc \<leftarrow> parm E (P_configureMTFBracketing enable);
     if rc \<noteq> NO_ERROR then ret rc
     else do {
       when_do enable (do {
         _ \<leftarrow> parm E (P_set3ALock True);
         modify (\<lambda>s. s\<lparr>mIs3ALocked := True\<rparr>)
       });
       _ \<leftarrow> parm E P_resetMultiTouchFocusParam;
       ret rc
     }
   }"

definition configureFlashBracketing :: "env \<Rightarrow> bool \<Rightarrow> int hal_op" where
  "configureFlashBracketing E enable = parm E (P_configureFlashBracketing enable)"

definition configureZSLHDRBracketing :: "env \<Rightarrow> int hal_op" where
  "configureZSLHDRBracketing E = parm E P_configureZSLHDRBracketing"

definition configureAEBracketing :: "env \<Rightarrow> int hal_op" where
  "configureAEBracketing E = parm E P_configureAEBracketing"

text \<open>\<open>configureOptiZoom\<close> and \<open>configureFssr\<close> have the same body.\<close>

definition configureOptiZoom :: "env \<Rightarrow> int hal_op" where
  "configureOptiZoom E = do {
     modify (\<lambda>s. s\<lparr>mZoomLevel := nat (keyZoom (mParameters s) mod 256)\<rparr>);
     _ \<leftarrow> parm E (P_setAndCommitZoom 0);
     _ \<leftarrow> parm E (P_set3ALock True);
     modify (\<lambda>s. s\<lparr>mIs3ALocked := True\<rparr>);
     ret NO_ERROR
   }"

definition configureFssr :: "env \<Rightarrow> int hal_op" where
  "configureFssr E = do {
     modify (\<lambda>s. s\<lparr>mZoomLevel := nat (keyZoom (mParameters s) mod 256)\<rparr>);
     _ \<leftarrow> parm E (P_setAndCommitZoom 0);
     _ \<leftarrow> parm E (P_set3ALock True);
     modify (\<lambda>s. s\<lparr>mIs3ALocked := True\<rparr>);
     ret NO_ERROR
   }"

definition setDisplayFrame :: "bool \<Rightarrow> unit hal_op" where
  "setDisplayFrame enabled =
     modify (\<lambda>s. s\<lparr>mParameters := (mParameters s)\<lparr>isDisplayFrameNeeded := enabled\<rparr>\<rparr>)"

definition configureAdvancedCapture :: "env \<Rightarrow> int hal_op" where
  "configureAdvancedCapture E = do {
     setDisplayFrame False;
     p \<leftarrow> gets mParameters;
     rc \<leftarrow>
       (if isUbiFocusEnabled p \<or> isUbiRefocus p then configureAFBracketing E True
        else if isMultiTouchFocusEnabled p then configureMTFBracketing E True
        else if isOptiZoomEnabled p then configureOptiZoom E
        else if isfssrEnabled p then configureFssr E
        else if isChromaFlashEnabled p then configureFlashBracketing E True
        else if isHDREnabled p then configureZSLHDRBracketing E
        else if isAEBracketEnabled p then configureAEBracketing E
        else ret BAD_VALUE);
     modify (\<lambda>s. s\<lparr>mAdvancedCaptureConfigured := (rc = NO_ERROR)\<rparr>);
     ret rc
   }"

definition unconfigureAdvancedCapture :: "env \<Rightarrow> int hal_op" where
  "unconfigureAdvancedCapture E = do {
     configured \<leftarrow> gets mAdvancedCaptureConfigured;
     if \<not> configured then ret NO_ERROR
     else do {
       modify (\<lambda>s. s\<lparr>mAdvancedCaptureConfigured := False\<rparr>);
       locked \<leftarrow> gets mIs3ALocked;
       when_do locked (do {
         _ \<leftarrow> parm E (P_set3ALock False);
         modify (\<lambda>s. s\<lparr>mIs3ALocked := False\<rparr>)
       });
       p \<leftarrow> gets mParameters;
       zoom \<leftarrow> gets mZoomLevel;
       rc \<leftarrow>
         (if isHDREnabled p \<or> isAEBracketEnabled p then parm E P_stopAEBracket
          else if isUbiFocusEnabled p \<or> isUbiRefocus p then configureAFBracketing E False
          else if isChromaFlashEnabled p then configureFlashBracketing E False
          else if isOptiZoomEnabled p \<or> isfssrEnabled p then parm E (P_setAndCommitZoom zoom)
          else if isMultiTouchFocusEnabled p then do {
            _ \<leftarrow> configureMTFBracketing E False;
            ret NO_ERROR
          } else ret BAD_VALUE);
       selected \<leftarrow> gets (\<lambda>s. isMultiTouchFocusSelected (mParameters s));
       _ \<leftarrow> (if selected then parm E P_resetMultiTouchFocusParam else ret 0);
       ret rc
     }
   }"

text \<open>The bracketing that \<open>startAdvancedCapture\<close> and \<open>stopAdvancedCapture\<close> select.\<close>

definition advanced_capture_type :: "qcam_parms \<Rightarrow> mm_camera_advanced_capture option" where
  "advanced_capture_type p =
     (if isUbiFocusEnabled p \<or> isUbiRefocus p then Some MM_CAMERA_AF_BRACKETING
      else if isMultiTouchFocusEnabled p then Some MM_CAMERA_MTF_BRACKETING
      else if isChromaFlashEnabled p then Some MM_CAMERA_FLASH_BRACKETING
      else if isHDREnabled p \<or> isAEBracketEnabled p then Some MM_CAMERA_AE_BRACKETING
      else if isOptiZoomEnabled p then Some MM_CAMERA_ZOOM_1X
      else if isfssrEnabled p then Some MM_CAMERA_ZOOM_1X
      else None)"

definition startAdvancedCapture :: "env \<Rightarrow> qcamera_ch_type \<Rightarrow> int hal_op" where
  "startAdvancedCapture E t = do {
     p \<leftarrow> gets mParameters;
     case advanced_capture_type p of
       None \<Rightarrow> ret BAD_VALUE
     | Some ty \<Rightarrow> chan E t (C_startAdvancedCapture ty)
   }"

definition stopAdvancedCapture :: "env \<Rightarrow> qcamera_ch_type \<Rightarrow> int hal_op" where
  "stopAdvancedCapture E t = do {
     p \<leftarrow> gets mParameters;
     case advanced_capture_type p of
       None \<Rightarrow> ret BAD_VALUE
     | Some ty \<Rightarrow> chan E t (C_stopAdvancedCapture ty)
   }"

definition isAdvCamFeaturesEnabled :: "qcam_parms \<Rightarrow> bool" where
  "isAdvCamFeaturesEnabled p \<longleftrightarrow> isUbiFocusEnabled p \<or> isChromaFlashEnabled p \<or>
     isOptiZoomEnabled p \<or> isUbiRefocus p \<or> isHDREnabled p \<or> isfssrEnabled p \<or>
     isMultiTouchFocusEnabled p"

definition numOfSnapshotsExpected :: "qcam_parms \<Rightarrow> nat" where
  "numOfSnapshotsExpected p = (if isMTFRefocus p then 1 else numOfSnapshots p)"

definition needAdjustFPS :: "env \<Rightarrow> bool hal_op" where
  "needAdjustFPS E = do {
     p \<leftarrow> gets mParameters;
     prepSnapRun \<leftarrow> gets mPrepSnapRun;
     longshot \<leftarrow> gets mLongshotEnabled;
     level \<leftarrow> gets mThermalLevel;
     let isRegularZSLCapture = (isZSLMode p \<and> \<not> prepSnapRun \<and> numOfSnapshotsExpected p = 1 \<and>
       \<not> longshot \<and> \<not> isAdvCamFeaturesEnabled p);
     let isThermalTriggered = (level \<noteq> QCAMERA_THERMAL_NO_ADJUSTMENT);
     let reconfigure =
       (isRegularZSLCapture \<and> e_low_power_mode_supported E \<and> \<not> isThermalTriggered);
     modify (\<lambda>s. s\<lparr>mFPSReconfigure := reconfigure\<rparr>);
     ret reconfigure
   }"

text \<open>The test that guards advanced capture in \<open>takePicture\<close>: also AE bracketing.\<close>

definition advanced_capture_on :: "qcam_parms \<Rightarrow> bool" where
  "advanced_capture_on p \<longleftrightarrow> isUbiFocusEnabled p \<or> isUbiRefocus p \<or> isMultiTouchFocusEnabled p \<or>
     isOptiZoomEnabled p \<or> isfssrEnabled p \<or> isHDREnabled p \<or> isChromaFlashEnabled p \<or>
     isAEBracketEnabled p"

definition is_yuv_or_jpeg :: "qcam_parms \<Rightarrow> bool" where
  "is_yuv_or_jpeg p \<longleftrightarrow> pictureFormat p = CAM_FORMAT_JPEG \<or>
     pictureFormat p = CAM_FORMAT_YUV_422_NV16 \<or> pictureFormat p = CAM_FORMAT_YUV_420_NV21"

definition longShot :: "env \<Rightarrow> int hal_op" where
  "longShot E = do {
     p \<leftarrow> gets mParameters;
     let t = (if isZSLMode p then QCAMERA_CH_TYPE_ZSL else QCAMERA_CH_TYPE_CAPTURE);
     present \<leftarrow> has_channel t;
     if present then chan E t (C_takePicture (numOfSnapshots p)) else ret NO_INIT
   }"

definition takePicture_zsl :: "env \<Rightarrow> nat \<Rightarrow> int hal_op" where
  "takePicture_zsl E numSnapshots = (let t = QCAMERA_CH_TYPE_ZSL in do {
     adjust \<leftarrow> needAdjustFPS E;
     when_do adjust (do {
       _ \<leftarrow> calcThermalLevel E QCAMERA_THERMAL_SLIGHT_ADJUSTMENT;
       _ \<leftarrow> parm E P_adjustPreviewFpsRange;
       ret ()
     });
     present \<leftarrow> has_channel t;
     if \<not> present then ret UNKNOWN_ERROR
     else do {
       rc \<leftarrow> ext E (X_pproc (PP_start t));
       if rc \<noteq> NO_ERROR then ret rc
       else do {
         p \<leftarrow> gets mParameters;
         rc \<leftarrow> (if advanced_capture_on p then startAdvancedCapture E t else ret NO_ERROR);
         if rc \<noteq> NO_ERROR then ret rc
         else do {
           longshot \<leftarrow> gets mLongshotEnabled;
           prepSnapRun \<leftarrow> gets mPrepSnapRun;
           _ \<leftarrow> (if longshot \<and> prepSnapRun then ext E (X_cam O_start_zsl_snapshot) else ret 0);
           rc \<leftarrow> chan E t (C_takePicture numSnapshots);
           if rc \<noteq> NO_ERROR then do {
             _ \<leftarrow> ext E (X_pproc PP_stop);
             ret rc
           } else ret rc
         }
       }
     }
   })"

text \<open>The capture channel replaces the preview channel; a longshot removes the preview first.\<close>

definition prepare_capture :: "env \<Rightarrow> int hal_op" where
  "prepare_capture E = do {
     longshot \<leftarrow> gets mLongshotEnabled;
     if \<not> longshot then do {
       rc \<leftarrow> addCaptureChannel E;
       _ \<leftarrow> stopChannel E QCAMERA_CH_TYPE_PREVIEW;
       _ \<leftarrow> delChannel E QCAMERA_CH_TYPE_PREVIEW True;
       if rc \<noteq> NO_ERROR then ret rc
       else do {
         waitDefferedWork E mSnapshotJob;
         waitDefferedWork E mMetadataJob;
         waitDefferedWork E mRawdataJob;
         job \<leftarrow> ext E (X_queueDeff mPostviewJob);
         waitDefferedWork E mPostviewJob;
         ret (if job = - 1 then UNKNOWN_ERROR else rc)
       }
     } else do {
       _ \<leftarrow> stopChannel E QCAMERA_CH_TYPE_PREVIEW;
       _ \<leftarrow> delChannel E QCAMERA_CH_TYPE_PREVIEW True;
       addCaptureChannel E
     }
   }"

definition takePicture_capture :: "env \<Rightarrow> int hal_op" where
  "takePicture_capture E = (let t = QCAMERA_CH_TYPE_CAPTURE in do {
     rc \<leftarrow> prepare_capture E;
     present \<leftarrow> has_channel t;
     if rc \<noteq> NO_ERROR \<or> \<not> present then ret rc
     else do {
       rc \<leftarrow> with_channel t (channel_config E t);
       if rc \<noteq> NO_ERROR then do { _ \<leftarrow> delChannel E t True; ret rc }
       else do {
         _ \<leftarrow> ext E (X_queueDeff mReprocJob);
         rc \<leftarrow> with_channel t (channel_start E t);
         if rc \<noteq> NO_ERROR then do {
           waitDefferedWork E mReprocJob;
           _ \<leftarrow> delChannel E t True;
           ret rc
         } else do {
           p \<leftarrow> gets mParameters;
           rc \<leftarrow> (if isUbiFocusEnabled p \<or> isUbiRefocus p \<or> isChromaFlashEnabled p
                  then startAdvancedCapture E t else ret NO_ERROR);
           if rc \<noteq> NO_ERROR then ret rc
           else do {
             longshot \<leftarrow> gets mLongshotEnabled;
             rc \<leftarrow> (if longshot then longShot E else ret NO_ERROR);
             if rc \<noteq> NO_ERROR then do {
               waitDefferedWork E mReprocJob;
               _ \<leftarrow> delChannel E t True;
               ret rc
             } else ret rc
           }
         }
       }
     }
   })"

definition takePicture_raw :: "env \<Rightarrow> int hal_op" where
  "takePicture_raw E = (let t = QCAMERA_CH_TYPE_RAW in do {
     _ \<leftarrow> stopChannel E QCAMERA_CH_TYPE_PREVIEW;
     _ \<leftarrow> delChannel E QCAMERA_CH_TYPE_PREVIEW True;
     rc \<leftarrow> addRawChannel E;
     if rc \<noteq> NO_ERROR then ret rc
     else do {
       rc \<leftarrow> ext E (X_pproc (PP_start t));
       if rc \<noteq> NO_ERROR then do { _ \<leftarrow> delChannel E t True; ret rc }
       else do {
         rc \<leftarrow> startChannel E t;
         if rc \<noteq> NO_ERROR then do {
           _ \<leftarrow> ext E (X_pproc PP_stop);
           _ \<leftarrow> delChannel E t True;
           ret rc
         } else ret rc
       }
     }
   })"

definition takePicture :: "env \<Rightarrow> int hal_op" where
  "takePicture E = do {
     p \<leftarrow> gets mParameters;
     numSnapshots \<leftarrow>
       (if advanced_capture_on p then do {
          rc \<leftarrow> configureAdvancedCapture E;
          p' \<leftarrow> gets mParameters;
          ret (if rc = NO_ERROR then burstCountForAdvancedCapture p' else numOfSnapshots p)
        } else ret (numOfSnapshots p));
     p \<leftarrow> gets mParameters;
     if isZSLMode p then takePicture_zsl E numSnapshots
     else if is_yuv_or_jpeg p then takePicture_capture E
     else takePicture_raw E
   }"

definition stopCaptureChannel :: "env \<Rightarrow> bool \<Rightarrow> int hal_op" where
  "stopCaptureChannel E destroy = do {
     p \<leftarrow> gets mParameters;
     when_do (is_yuv_or_jpeg p) (do {
       _ \<leftarrow> stopChannel E QCAMERA_CH_TYPE_CAPTURE;
       _ \<leftarrow> (if destroy then delChannel E QCAMERA_CH_TYPE_CAPTURE False else ret 0);
       ret ()
     });
     ret NO_ERROR
   }"

definition cancelPicture_zsl :: "env \<Rightarrow> unit hal_op" where
  "cancelPicture_zsl E = do {
     present \<leftarrow> has_channel QCAMERA_CH_TYPE_ZSL;
     when_do present (do {
       _ \<leftarrow> stopAdvancedCapture E QCAMERA_CH_TYPE_ZSL;
       _ \<leftarrow> chan E QCAMERA_CH_TYPE_ZSL C_cancelPicture;
       ret ()
     });
     reconfigure \<leftarrow> gets mFPSReconfigure;
     level \<leftarrow> gets mThermalLevel;
     when_do reconfigure (do {
       _ \<leftarrow> calcThermalLevel E level;
       _ \<leftarrow> parm E P_adjustPreviewFpsRange;
       modify (\<lambda>s. s\<lparr>mFPSReconfigure := False\<rparr>)
     })
   }"

definition cancelPicture :: "env \<Rightarrow> int hal_op" where
  "cancelPicture E = do {
     waitDefferedWork E mReprocJob;
     _ \<leftarrow> ext E (X_pproc PP_stop);
     _ \<leftarrow> unconfigureAdvancedCapture E;
     setDisplayFrame True;
     p \<leftarrow> gets mParameters;
     (if isZSLMode p then cancelPicture_zsl E
      else do {
        let t = (if is_yuv_or_jpeg p then QCAMERA_CH_TYPE_CAPTURE else QCAMERA_CH_TYPE_RAW);
        _ \<leftarrow> stopChannel E t;
        _ \<leftarrow> delChannel E t True;
        ret ()
      });
     ret NO_ERROR
   }"

section \<open>Commands, parameters and preview\<close>

definition processAPI :: "env \<Rightarrow> sm_msg \<Rightarrow> int hal_op" where
  "processAPI E msg = do {
     active \<leftarrow> gets m_smThreadActive;
     if active then procAPI E msg else ret DEAD_OBJECT
   }"

definition processEvt :: "env \<Rightarrow> sm_msg \<Rightarrow> int hal_op" where
  "processEvt E msg = procEvt E msg"

text \<open>The ZSL channel has a snapshot stream with fewer buffers than a longshot needs.\<close>

definition zsl_needs_restart :: "env \<Rightarrow> bool hal_op" where
  "zsl_needs_restart E = do {
     c \<leftarrow> gets (\<lambda>s. m_channels s QCAMERA_CH_TYPE_ZSL);
     case c of
       None \<Rightarrow> ret False
     | Some ch \<Rightarrow>
         (if CAM_STREAM_TYPE_SNAPSHOT \<in> set (map s_type (take MAX_STREAM_NUM_IN_BUNDLE (mStreams ch)))
          then do {
            short \<leftarrow> chan E QCAMERA_CH_TYPE_ZSL C_snapshotBuffersShort;
            ret (short \<noteq> 0)
          } else ret False)
   }"

definition stop_zsl_snapshot_if :: "env \<Rightarrow> unit hal_op" where
  "stop_zsl_snapshot_if E = do {
     p \<leftarrow> gets mParameters;
     present \<leftarrow> has_channel QCAMERA_CH_TYPE_ZSL;
     prepSnapRun \<leftarrow> gets mPrepSnapRun;
     when_do (isZSLMode p \<and> present \<and> prepSnapRun)
       (do { _ \<leftarrow> ext E (X_cam O_stop_zsl_snapshot); ret () })
   }"

text \<open>\<open>sendCommand\<close> returns the code and the reference parameter \<open>arg1\<close>.\<close>

fun sendCommand :: "env \<Rightarrow> camera_cmd \<Rightarrow> int \<Rightarrow> int \<Rightarrow> (int \<times> int) hal_op" where
  "sendCommand E CAMERA_CMD_LONGSHOT_ON arg1 arg2 = do {
     capture \<leftarrow> isCaptureRunning;
     if \<not> capture then do {
       modify (\<lambda>s. s\<lparr>mLongshotEnabled := True\<rparr>);
       p \<leftarrow> gets mParameters;
       preview \<leftarrow> isPreviewRunning;
       restart \<leftarrow> (if isZSLMode p \<and> preview then zsl_needs_restart E else ret False);
       rc \<leftarrow> parm E (P_setLongshotEnable True);
       modify (\<lambda>s. s\<lparr>mPrepSnapRun := False\<rparr>);
       ret (rc, if restart then RESTART_PERVIEW_value else 0)
     } else ret (NO_INIT, 0)
   }"
| "sendCommand E CAMERA_CMD_LONGSHOT_OFF arg1 arg2 = do {
     longshot \<leftarrow> gets mLongshotEnabled;
     capture \<leftarrow> isCaptureRunning;
     when_do (longshot \<and> capture) (do {
       _ \<leftarrow> cancelPicture E;
       _ \<leftarrow> processEvt E SNAPSHOT_DONE;
       stop_zsl_snapshot_if E
     });
     modify (\<lambda>s. s\<lparr>mPrepSnapRun := False\<rparr>);
     modify (\<lambda>s. s\<lparr>mLongshotEnabled := False\<rparr>);
     rc \<leftarrow> parm E (P_setLongshotEnable False);
     ret (rc, arg1)
   }"
| "sendCommand E CAMERA_CMD_STOP_LONGSHOT arg1 arg2 = do {
     longshot \<leftarrow> gets mLongshotEnabled;
     capture \<leftarrow> isCaptureRunning;
     p \<leftarrow> gets mParameters;
     when_do (longshot \<and> capture \<and> isLongshotSnapsLimited p) (stop_zsl_snapshot_if E);
     ret (NO_ERROR, arg1)
   }"
| "sendCommand E CAMERA_CMD_HISTOGRAM_ON arg1 arg2 = do {
     rc \<leftarrow> parm E (P_setHistogram True);
     ret (rc, arg1)
   }"
| "sendCommand E CAMERA_CMD_HISTOGRAM_OFF arg1 arg2 = do {
     rc \<leftarrow> parm E (P_setHistogram False);
     ret (rc, arg1)
   }"
| "sendCommand E CAMERA_CMD_START_FACE_DETECTION arg1 arg2 = do {
     rc \<leftarrow> parm E (P_setFaceDetection True);
     ret (rc, arg1)
   }"
| "sendCommand E CAMERA_CMD_STOP_FACE_DETECTION arg1 arg2 = do {
     rc \<leftarrow> parm E (P_setFaceDetection False);
     ret (rc, arg1)
   }"
| "sendCommand E _ arg1 arg2 = ret (NO_ERROR, arg1)"

definition is4k2kResolution :: "int \<times> int \<Rightarrow> bool" where
  "is4k2kResolution r \<longleftrightarrow> r = (4096, 2160) \<or> r = (3840, 2160)"

text \<open>With the recording hint, camera-mode features are switched off before the channels are added.\<close>

definition stop_camera_mode :: "env \<Rightarrow> unit hal_op" where
  "stop_camera_mode E = do {
     longshot \<leftarrow> gets mLongshotEnabled;
     _ \<leftarrow> (if longshot then sendCommand E CAMERA_CMD_LONGSHOT_OFF 0 0 else ret (0, 0));
     face \<leftarrow> gets (\<lambda>s. isFaceDetectionEnabled (mParameters s));
     _ \<leftarrow> (if face then sendCommand E CAMERA_CMD_STOP_FACE_DETECTION 0 0 else ret (0, 0));
     histogram \<leftarrow> gets (\<lambda>s. isHistogramEnabled (mParameters s));
     _ \<leftarrow> (if histogram then sendCommand E CAMERA_CMD_HISTOGRAM_OFF 0 0 else ret (0, 0));
     ret ()
   }"

definition prepare_video :: "env \<Rightarrow> int hal_op" where
  "prepare_video E = do {
     stop_camera_mode E;
     p \<leftarrow> gets mParameters;
     rc \<leftarrow> (if \<not> is4k2kResolution (videoSize p) \<and> \<not> isLowPowerEnabled p
            then addChannel E QCAMERA_CH_TYPE_SNAPSHOT else ret NO_ERROR);
     if rc \<noteq> NO_ERROR then ret rc
     else do {
       rc \<leftarrow> addChannel E QCAMERA_CH_TYPE_VIDEO;
       if rc \<noteq> NO_ERROR then do {
         _ \<leftarrow> delChannel E QCAMERA_CH_TYPE_SNAPSHOT True;
         ret rc
       } else ret rc
     }
   }"

definition preparePreview :: "env \<Rightarrow> int hal_op" where
  "preparePreview E = do {
     p \<leftarrow> gets mParameters;
     if isZSLMode p \<and> \<not> recordingHint p then addChannel E QCAMERA_CH_TYPE_ZSL
     else do {
       let hint = recordingHint p;
       rc \<leftarrow> (if hint then prepare_video E else ret NO_ERROR);
       if rc \<noteq> NO_ERROR then ret rc
       else do {
         rc \<leftarrow> addChannel E QCAMERA_CH_TYPE_PREVIEW;
         if rc \<noteq> NO_ERROR then do {
           when_do hint (do {
             _ \<leftarrow> delChannel E QCAMERA_CH_TYPE_SNAPSHOT True;
             _ \<leftarrow> delChannel E QCAMERA_CH_TYPE_VIDEO True;
             ret ()
           });
           ret rc
         } else do {
           when_do (\<not> hint) (waitDefferedWork E mMetadataJob);
           ret rc
         }
       }
     }
   }"

definition startPreview :: "env \<Rightarrow> int hal_op" where
  "startPreview E = do {
     level \<leftarrow> gets mThermalLevel;
     _ \<leftarrow> updateThermalLevel E level;
     p \<leftarrow> gets mParameters;
     if isZSLMode p \<and> \<not> recordingHint p then startChannel E QCAMERA_CH_TYPE_ZSL
     else do {
       rc \<leftarrow> startChannel E QCAMERA_CH_TYPE_PREVIEW;
       focus \<leftarrow> gets (\<lambda>s. focusMode (mParameters s));
       _ \<leftarrow> (if focus = CAM_FOCUS_MODE_CONTINOUS_PICTURE then ext E (X_cam O_cancel_auto_focus)
             else ret 0);
       ret rc
     }
   }"

definition stopPreview :: "env \<Rightarrow> int hal_op" where
  "stopPreview E = do {
     modify (\<lambda>s. s\<lparr>mNumPreviewFaces := - 1\<rparr>);
     modify (\<lambda>s. s\<lparr>mActiveAF := False\<rparr>);
     _ \<leftarrow> stopChannel E QCAMERA_CH_TYPE_ZSL;
     _ \<leftarrow> stopChannel E QCAMERA_CH_TYPE_PREVIEW;
     modify (\<lambda>s. s\<lparr>mPreviewFrameSkipValid := False\<rparr>);
     unpreparePreview E;
     ret NO_ERROR
   }"

section \<open>Recording and live snapshot\<close>

text \<open>
  The metadata stream of the preview channel: \<open>getStreamByIndex\<close> looks at the first
  \<open>MAX_STREAM_NUM_IN_BUNDLE\<close> streams.
\<close>

definition metadata_stream :: "hal \<Rightarrow> cam_stream option" where
  "metadata_stream s =
     (case m_channels s QCAMERA_CH_TYPE_PREVIEW of
        None \<Rightarrow> None
      | Some ch \<Rightarrow> find (\<lambda>st. s_type st = CAM_STREAM_TYPE_METADATA)
                    (take MAX_STREAM_NUM_IN_BUNDLE (mStreams ch)))"

definition startRecording :: "env \<Rightarrow> int hal_op" where
  "startRecording E = do {
     modify (\<lambda>s. s\<lparr>mVideoMem := None\<rparr>);
     hint \<leftarrow> gets (\<lambda>s. recordingHint (mParameters s));
     rc \<leftarrow>
       (if \<not> hint then do {
          _ \<leftarrow> stopPreview E;
          _ \<leftarrow> parm E (P_updateRecordingHintValue True);
          rc \<leftarrow> preparePreview E;
          if rc = NO_ERROR then startChannel E QCAMERA_CH_TYPE_PREVIEW else ret rc
        } else ret NO_ERROR);
     lowPower \<leftarrow> gets (\<lambda>s. isLowPowerEnabled (mParameters s));
     meta \<leftarrow> gets metadata_stream;
     rc \<leftarrow>
       (if lowPower then
          case meta of
            None \<Rightarrow> ret rc
          | Some pMetaStream \<Rightarrow>
              with_channel QCAMERA_CH_TYPE_VIDEO
                (channel_linkStream E QCAMERA_CH_TYPE_VIDEO pMetaStream)
        else ret rc);
     if rc = NO_ERROR then startChannel E QCAMERA_CH_TYPE_VIDEO else ret rc
   }"

definition stopRecording :: "env \<Rightarrow> int hal_op" where
  "stopRecording E = do {
     rc \<leftarrow> stopChannel E QCAMERA_CH_TYPE_VIDEO;
     _ \<leftarrow> ext E X_flushVideoNotifications;
     modify (\<lambda>s. s\<lparr>mVideoMem := None\<rparr>);
     ret rc
   }"

definition releaseRecordingFrame :: "env \<Rightarrow> ptr \<Rightarrow> int hal_op" where
  "releaseRecordingFrame E opaque = do {
     present \<leftarrow> has_channel QCAMERA_CH_TYPE_VIDEO;
     isMetaData \<leftarrow> gets (\<lambda>s. 0 < mStoreMetaDataInFrame s);
     if present
     then with_channel QCAMERA_CH_TYPE_VIDEO
       (channel_releaseFrame E QCAMERA_CH_TYPE_VIDEO opaque isMetaData)
     else ret UNKNOWN_ERROR
   }"

definition closeNativeHandle :: "env \<Rightarrow> ptr \<Rightarrow> unit hal_op" where
  "closeNativeHandle E data = do { _ \<leftarrow> ext E (X_closeNativeHandle data); ret () }"

definition takeLiveSnapshot :: "env \<Rightarrow> int hal_op" where
  "takeLiveSnapshot E = do {
     rc \<leftarrow> ext E X_pthread_create;
     when_do (rc = 0) (modify (\<lambda>s. s\<lparr>mLiveSnapshotThread := True\<rparr>));
     ret rc
   }"

definition cancelLiveSnapshot :: "env \<Rightarrow> int hal_op" where
  "cancelLiveSnapshot E = do {
     running \<leftarrow> gets mLiveSnapshotThread;
     when_do running (do {
       _ \<leftarrow> ext E X_pthread_join;
       modify (\<lambda>s. s\<lparr>mLiveSnapshotThread := False\<rparr>)
     });
     _ \<leftarrow> ext E (X_pproc PP_stop);
     stopChannel E QCAMERA_CH_TYPE_SNAPSHOT
   }"

text \<open>The body of the live-snapshot thread, up to its label \<open>end\<close>, and the thread.\<close>

definition live_snapshot_start :: "env \<Rightarrow> int hal_op" where
  "live_snapshot_start E = do {
     lowPower \<leftarrow> gets (\<lambda>s. isLowPowerEnabled (mParameters s));
     let t = (if lowPower then QCAMERA_CH_TYPE_VIDEO else QCAMERA_CH_TYPE_SNAPSHOT);
     present \<leftarrow> has_channel t;
     if \<not> present then ret NO_INIT
     else do {
       rc \<leftarrow> ext E (X_pproc (PP_start t));
       if rc \<noteq> NO_ERROR then ret rc
       else if lowPower then chan E t (C_takePicture 1)
       else do {
         meta \<leftarrow> gets metadata_stream;
         _ \<leftarrow> (case meta of
                None \<Rightarrow> ret rc
              | Some pMetaStream \<Rightarrow> with_channel t (channel_linkStream E t pMetaStream));
         with_channel t (channel_start E t)
       }
     }
   }"

definition takeLiveSnapshot_internal :: "env \<Rightarrow> int hal_op" where
  "takeLiveSnapshot_internal E = do {
     rc \<leftarrow> live_snapshot_start E;
     if rc \<noteq> NO_ERROR then do {
       _ \<leftarrow> processAPI E CANCEL_PICTURE;
       sendEvtNotify E CAMERA_MSG_ERROR UNKNOWN_ERROR 0
     } else ret rc
   }"

section \<open>Focus\<close>

fun focus_ops :: "cam_focus_mode \<Rightarrow> bool" where
  "focus_ops CAM_FOCUS_MODE_AUTO = True"
| "focus_ops CAM_FOCUS_MODE_MACRO = True"
| "focus_ops CAM_FOCUS_MODE_CONTINOUS_VIDEO = True"
| "focus_ops CAM_FOCUS_MODE_CONTINOUS_PICTURE = True"
| "focus_ops _ = False"

definition autoFocus :: "env \<Rightarrow> int hal_op" where
  "autoFocus E = do {
     modify (\<lambda>s. s\<lparr>mCancelAutoFocus := False\<rparr>);
     modify (\<lambda>s. s\<lparr>mActiveAF := True\<rparr>);
     focus \<leftarrow> gets (\<lambda>s. focusMode (mParameters s));
     if focus_ops focus then ext E (X_cam O_do_auto_focus)
     else sendEvtNotify E CAMERA_MSG_FOCUS 1 0
   }"

definition cancelAutoFocus :: "env \<Rightarrow> int hal_op" where
  "cancelAutoFocus E = do {
     modify (\<lambda>s. s\<lparr>mCancelAutoFocus := True\<rparr>);
     modify (\<lambda>s. s\<lparr>mActiveAF := False\<rparr>);
     focus \<leftarrow> gets (\<lambda>s. focusMode (mParameters s));
     if focus_ops focus then ext E (X_cam O_cancel_auto_focus) else ret NO_ERROR
   }"

definition flush_zsl :: "env \<Rightarrow> cam_auto_focus_data \<Rightarrow> bool \<Rightarrow> unit hal_op" where
  "flush_zsl E focus_data wanted = do {
     p \<leftarrow> gets mParameters;
     present \<leftarrow> has_channel QCAMERA_CH_TYPE_ZSL;
     when_do (wanted \<and> focus_state focus_data = CAM_AF_FOCUSED \<and> isZSLMode p \<and> present) (do {
       _ \<leftarrow> chan E QCAMERA_CH_TYPE_ZSL (C_flushSuperbuffer (focused_frame_idx focus_data));
       ret ()
     })
   }"

definition focus_event_auto :: "env \<Rightarrow> cam_auto_focus_data \<Rightarrow> int hal_op" where
  "focus_event_auto E focus_data = (let st = focus_state focus_data in do {
     cancelled \<leftarrow> gets mCancelAutoFocus;
     if cancelled \<or> st \<in> set [CAM_AF_PASSIVE_SCANNING, CAM_AF_PASSIVE_FOCUSED,
          CAM_AF_PASSIVE_UNFOCUSED, CAM_AF_SCANNING, CAM_AF_INACTIVE]
     then ret NO_ERROR
     else do {
       _ \<leftarrow> parm E P_updateFocusDistances;
       flush_zsl E focus_data True;
       rc \<leftarrow> sendEvtNotify E CAMERA_MSG_FOCUS (if st = CAM_AF_FOCUSED then 1 else 0) 0;
       p \<leftarrow> gets mParameters;
       _ \<leftarrow> (if isTouchFocusing p \<and> st = CAM_AF_FOCUSED \<and> isMultiTouchFocusSelected p
             then parm E P_updateMTFInfo else ret 0);
       ret rc
     }
   })"

definition focus_event_caf :: "env \<Rightarrow> cam_focus_mode \<Rightarrow> cam_auto_focus_data \<Rightarrow> int hal_op" where
  "focus_event_caf E mode focus_data = (let st = focus_state focus_data in do {
     active \<leftarrow> gets mActiveAF;
     if active \<and> st \<in> set [CAM_AF_PASSIVE_FOCUSED, CAM_AF_PASSIVE_UNFOCUSED] then ret NO_ERROR
     else do {
       rc \<leftarrow> (if \<not> active then sendEvtNotify E CAMERA_MSG_FOCUS_MOVE
                (if st = CAM_AF_PASSIVE_SCANNING then 1 else 0) 0
              else ret NO_ERROR);
       if st \<in> set [CAM_AF_PASSIVE_FOCUSED, CAM_AF_PASSIVE_UNFOCUSED, CAM_AF_FOCUSED,
           CAM_AF_NOT_FOCUSED]
       then do {
         _ \<leftarrow> parm E P_updateFocusDistances;
         flush_zsl E focus_data (mode = CAM_FOCUS_MODE_CONTINOUS_PICTURE);
         sendEvtNotify E CAMERA_MSG_FOCUS
           (if st = CAM_AF_PASSIVE_FOCUSED \<or> st = CAM_AF_FOCUSED then 1 else 0) 0
       } else ret rc
     }
   })"

definition processAutoFocusEvent :: "env \<Rightarrow> cam_auto_focus_data \<Rightarrow> int hal_op" where
  "processAutoFocusEvent E focus_data = do {
     modify (\<lambda>s. s\<lparr>m_currentFocusState := focus_state focus_data\<rparr>);
     focus \<leftarrow> gets (\<lambda>s. focusMode (mParameters s));
     rc \<leftarrow> (if focus = CAM_FOCUS_MODE_AUTO \<or> focus = CAM_FOCUS_MODE_MACRO
            then focus_event_auto E focus_data
            else if focus = CAM_FOCUS_MODE_CONTINOUS_VIDEO \<or>
              focus = CAM_FOCUS_MODE_CONTINOUS_PICTURE
            then focus_event_caf E focus focus_data
            else ret NO_ERROR);
     when_do (focus_state focus_data = CAM_AF_FOCUSED \<or>
         focus_state focus_data = CAM_AF_NOT_FOCUSED)
       (modify (\<lambda>s. s\<lparr>mActiveAF := False\<rparr>));
     ret rc
   }"

section \<open>Backend events\<close>

text \<open>
  A buffer from the client, filled and handed to the notifier, which returns it when it fails.
\<close>

definition notify_buffer :: "env \<Rightarrow> nat \<Rightarrow> int hal_op" where
  "notify_buffer E content = do {
     buffer \<leftarrow> ext E X_getMemory;
     if buffer = 0 then ret NO_MEMORY
     else do {
       data \<leftarrow> ext E X_memData;
       if data = 0 then ret UNKNOWN_ERROR
       else do {
         rc \<leftarrow> ext E (X_notifyData content);
         _ \<leftarrow> (if rc \<noteq> NO_ERROR then ext E X_releaseMem else ret 0);
         ret NO_ERROR
       }
     }
   }"

definition processHistogramStats :: "env \<Rightarrow> nat \<Rightarrow> int hal_op" where
  "processHistogramStats E stats_data = do {
     enabled \<leftarrow> gets (\<lambda>s. isHistogramEnabled (mParameters s));
     if \<not> enabled then ret NO_ERROR else notify_buffer E stats_data
   }"

definition processASDUpdate :: "env \<Rightarrow> nat \<Rightarrow> int hal_op" where
  "processASDUpdate E scene = do {
     _ \<leftarrow> parm E (P_setSelectedScene scene);
     notify_buffer E scene
   }"

definition processFaceDetectionResult :: "env \<Rightarrow> nat \<Rightarrow> int hal_op" where
  "processFaceDetectionResult E fd_data = do {
     enabled \<leftarrow> gets (\<lambda>s. isFaceDetectionEnabled (mParameters s));
     if \<not> enabled then ret NO_ERROR else ext E (X_sendFaces fd_data)
   }"

definition processAEInfo :: "env \<Rightarrow> nat \<Rightarrow> int hal_op" where
  "processAEInfo E ae_params = do {
     _ \<leftarrow> parm E (P_updateAEInfo ae_params);
     ret NO_ERROR
   }"

definition processFocusPositionInfo :: "env \<Rightarrow> nat \<Rightarrow> int hal_op" where
  "processFocusPositionInfo E cur_pos_info = do {
     _ \<leftarrow> parm E (P_updateCurrentFocusPosition cur_pos_info);
     ret NO_ERROR
   }"

definition transAwbMetaToParams :: "env \<Rightarrow> nat \<Rightarrow> int hal_op" where
  "transAwbMetaToParams E awb_params = do {
     _ \<leftarrow> parm E (P_updateAWBParams awb_params);
     ret NO_ERROR
   }"

definition processAWBUpdate :: "env \<Rightarrow> nat \<Rightarrow> int hal_op" where
  "processAWBUpdate E awb_params = transAwbMetaToParams E awb_params"

text \<open>The zoom event goes to every channel; the code returned is the last one's.\<close>

fun zoom_channels :: "env \<Rightarrow> nat \<Rightarrow> int \<Rightarrow> qcamera_ch_type list \<Rightarrow> int hal_op" where
  "zoom_channels E crop_info rc [] = ret rc"
| "zoom_channels E crop_info rc (i # js) = do {
     present \<leftarrow> has_channel i;
     rc' \<leftarrow> (if present then with_channel i (channel_processZoomDone E i crop_info) else ret rc);
     zoom_channels E crop_info rc' js
   }"

definition processZoomEvent :: "env \<Rightarrow> nat \<Rightarrow> int hal_op" where
  "processZoomEvent E crop_info = zoom_channels E crop_info NO_ERROR ch_types"

definition processPrepSnapshotDoneEvent :: "cam_prep_snapshot_state \<Rightarrow> int hal_op" where
  "processPrepSnapshotDoneEvent prep_snapshot_state = ret NO_ERROR"

definition processJpegNotify :: "env \<Rightarrow> nat \<Rightarrow> int hal_op" where
  "processJpegNotify E jpeg_evt = ext E (X_pproc (PP_processJpegEvt jpeg_evt))"

definition prepareHardwareForSnapshot :: "env \<Rightarrow> int hal_op" where
  "prepareHardwareForSnapshot E = ext E (X_cam O_prepare_snapshot)"

section \<open>Parameters\<close>

definition updateParameters :: "env \<Rightarrow> string \<Rightarrow> (int \<times> bool) hal_op" where
  "updateParameters E parms = do {
     (rc, needRestart) \<leftarrow> parm_out E (P_updateParameters parms);
     for_each (\<lambda>i. do {
       present \<leftarrow> has_channel i;
       _ \<leftarrow> (if present then with_channel i (channel_UpdateStreamBasedParameters E i) else ret 0);
       ret ()
     }) ch_types;
     ret (rc, needRestart \<noteq> 0)
   }"

definition commitParameterChanges :: "env \<Rightarrow> int hal_op" where
  "commitParameterChanges E = do {
     rc \<leftarrow> parm E P_commitParameters;
     if rc = NO_ERROR then parm E P_setNumOfSnapshot else ret rc
   }"

text \<open>The flattened parameters, \<^term>\<open>None\<close> when there is no memory for the string.\<close>

definition getParameters :: "env \<Rightarrow> ptr hal_op" where
  "getParameters E = do {
     r \<leftarrow> ext E (X_parm P_getParameters);
     ret (if r = 0 then None else Some (nat r))
   }"

definition putParameters :: "env \<Rightarrow> ptr \<Rightarrow> int hal_op" where
  "putParameters E parms = do {
     _ \<leftarrow> ext E (X_free parms);
     ret NO_ERROR
   }"

text \<open>The memory pool that a restart of the preview clears.\<close>

definition clear_memoryPool :: "env \<Rightarrow> unit hal_op" where
  "clear_memoryPool E = do { _ \<leftarrow> ext E X_memoryPool_clear; ret () }"

definition isPreviewRestartEnabled :: "env \<Rightarrow> bool hal_op" where
  "isPreviewRestartEnabled E = do {
     earlyRestart \<leftarrow> ext E (X_property ''persist.camera.feature.restart'');
     ret (earlyRestart = 1)
   }"

definition isCaptureShutterEnabled :: "env \<Rightarrow> bool hal_op" where
  "isCaptureShutterEnabled E = do {
     enableShutter \<leftarrow> ext E (X_property ''persist.camera.feature.shutter'');
     ret (enableShutter = 1)
   }"

text \<open>
  \<open>registerFaceImage\<close> returns the code and the reference parameter \<open>faceID\<close>; the offline
  reprocessing behind the check of the arguments belongs to the environment.
\<close>

definition registerFaceImage :: "env \<Rightarrow> ptr \<Rightarrow> ptr \<Rightarrow> (int \<times> int) hal_op" where
  "registerFaceImage E img_ptr config =
     (if img_ptr = None \<or> config = None then ret (BAD_VALUE, - 1)
      else ext_out E (X_registerFaceImage img_ptr config))"

section \<open>The operations keep the state machine's view\<close>

lemma hw_free_sm_view: "hw_free sm_view"
  by (rule hw_freeI) (simp add: sm_view_def other_evts_def)

lemma keeps_procEvt_sm [keeps_ops]: "keeps sm_view (procEvt E SNAPSHOT_DONE)"
  by (auto simp: keeps_def procEvt_def malloc_def ext_def sm_view_def other_evts_def)

lemmas sm_keeps = hw_free_sm_view hw_io [OF hw_free_sm_view]

text \<open>
  All of them but \<open>sendCommand\<close> and its callers keep the queue of backend events too: they are proved for
  \<^const>\<open>ctl_view\<close>, and the state machine's view follows.
\<close>

lemmas ctl_keeps = hw_free_ctl_view hw_io [OF hw_free_ctl_view]

lemmas hwi_defs1 = setPreviewWindow_def setCallBacks_def enableMsgType_def disableMsgType_def
  msgTypeEnabled_def storeMetaDataInBuffers_def sendEvtNotify_def playShutter_def dump_def
  calcThermalLevel_def configureAFBracketing_def configureMTFBracketing_def
  configureFlashBracketing_def configureZSLHDRBracketing_def configureAEBracketing_def
  configureOptiZoom_def configureFssr_def setDisplayFrame_def
  startAdvancedCapture_def stopAdvancedCapture_def needAdjustFPS_def longShot_def
  stopCaptureChannel_def zsl_needs_restart_def stop_zsl_snapshot_if_def
  isPreviewRunning_def isCaptureRunning_def

lemma ctl_hwi1 [keeps_ops]:
  "keeps ctl_view (setPreviewWindow w)" "keeps ctl_view (setCallBacks E cb)"
  "keeps ctl_view (enableMsgType m)" "keeps ctl_view (disableMsgType m)"
  "keeps ctl_view (msgTypeEnabled m)" "keeps ctl_view (storeMetaDataInBuffers n)"
  "keeps ctl_view (sendEvtNotify E c x y)" "keeps ctl_view (playShutter E)"
  "keeps ctl_view (dump n)" "keeps ctl_view (calcThermalLevel E level)"
  "keeps ctl_view (configureAFBracketing E b)" "keeps ctl_view (configureMTFBracketing E b)"
  "keeps ctl_view (configureFlashBracketing E b)" "keeps ctl_view (configureZSLHDRBracketing E)"
  "keeps ctl_view (configureAEBracketing E)" "keeps ctl_view (configureOptiZoom E)"
  "keeps ctl_view (configureFssr E)" "keeps ctl_view (setDisplayFrame b)"
  "keeps ctl_view (startAdvancedCapture E t)" "keeps ctl_view (stopAdvancedCapture E t)"
  "keeps ctl_view (needAdjustFPS E)" "keeps ctl_view (longShot E)"
  "keeps ctl_view (stopCaptureChannel E b)"
  "keeps ctl_view (zsl_needs_restart E)" "keeps ctl_view (stop_zsl_snapshot_if E)"
  "keeps ctl_view isPreviewRunning" "keeps ctl_view isCaptureRunning"
  by (unfold hwi_defs1) (intro pres_intros keeps_ops ctl_keeps; simp add: view_simps)+

lemmas keeps_hwi1 [keeps_ops] = ctl_hwi1 [THEN keeps_ctl_sm]

lemmas hwi_defs2 = release_def updateThermalLevel_def configureAdvancedCapture_def
  unconfigureAdvancedCapture_def takePicture_zsl_def prepare_capture_def takePicture_raw_def
  cancelPicture_zsl_def

lemma keeps_add_capture [keeps_ops]:
  assumes "hw_free f"
  shows "keeps f (addCaptureChannel E)" "keeps f (addRawChannel E)"
  using keeps_addChannel [OF assms, of E QCAMERA_CH_TYPE_CAPTURE]
    keeps_addChannel [OF assms, of E QCAMERA_CH_TYPE_RAW] by simp_all

lemma ctl_hwi2 [keeps_ops]:
  "keeps ctl_view (release E)" "keeps ctl_view (updateThermalLevel E level)"
  "keeps ctl_view (configureAdvancedCapture E)" "keeps ctl_view (unconfigureAdvancedCapture E)"
  "keeps ctl_view (takePicture_zsl E n)" "keeps ctl_view (prepare_capture E)"
  "keeps ctl_view (takePicture_raw E)" "keeps ctl_view (cancelPicture_zsl E)"
  by (unfold hwi_defs2) (intro pres_intros keeps_ops ctl_keeps; simp add: view_simps)+

lemmas keeps_hwi2 [keeps_ops] = ctl_hwi2 [THEN keeps_ctl_sm]

lemma ctl_hwi3 [keeps_ops]:
  "keeps ctl_view (takePicture_capture E)" "keeps ctl_view (cancelPicture E)"
  by (unfold takePicture_capture_def cancelPicture_def)
    (intro pres_intros keeps_ops ctl_keeps; simp add: view_simps)+

lemmas keeps_hwi3 [keeps_ops] = ctl_hwi3 [THEN keeps_ctl_sm]

lemma ctl_takePicture [keeps_ops]: "keeps ctl_view (takePicture E)"
  by (unfold takePicture_def) (intro pres_intros keeps_ops ctl_keeps)

lemmas keeps_takePicture [keeps_ops] = ctl_takePicture [THEN keeps_ctl_sm]

lemma keeps_processEvt_sm [keeps_ops]: "keeps sm_view (processEvt E SNAPSHOT_DONE)"
  by (simp add: processEvt_def keeps_ops)

lemma keeps_sendCommand [keeps_ops]: "keeps sm_view (sendCommand E cmd arg1 arg2)"
  by (cases cmd; simp; intro pres_intros keeps_ops sm_keeps; simp add: sm_view_def other_evts_def)

lemmas hwi_defs4 = startPreview_def stopPreview_def stopRecording_def
  releaseRecordingFrame_def closeNativeHandle_def takeLiveSnapshot_def cancelLiveSnapshot_def
  autoFocus_def cancelAutoFocus_def flush_zsl_def notify_buffer_def

lemma ctl_hwi4 [keeps_ops]:
  "keeps ctl_view (startPreview E)"
  "keeps ctl_view (stopPreview E)" "keeps ctl_view (stopRecording E)"
  "keeps ctl_view (releaseRecordingFrame E p)" "keeps ctl_view (closeNativeHandle E p)"
  "keeps ctl_view (takeLiveSnapshot E)" "keeps ctl_view (cancelLiveSnapshot E)"
  "keeps ctl_view (autoFocus E)" "keeps ctl_view (cancelAutoFocus E)"
  "keeps ctl_view (flush_zsl E d b)" "keeps ctl_view (notify_buffer E n)"
  by (unfold hwi_defs4) (intro pres_intros keeps_ops ctl_keeps; simp add: view_simps)+

lemmas keeps_hwi4 [keeps_ops] = ctl_hwi4 [THEN keeps_ctl_sm]

lemma keeps_prepare_video [keeps_ops]:
  "keeps sm_view (stop_camera_mode E)" "keeps sm_view (prepare_video E)"
  by (unfold prepare_video_def stop_camera_mode_def) (intro pres_intros keeps_ops sm_keeps)+

lemma keeps_preparePreview [keeps_ops]: "keeps sm_view (preparePreview E)"
  by (unfold preparePreview_def) (intro pres_intros keeps_ops sm_keeps)

lemma keeps_startRecording [keeps_ops]: "keeps sm_view (startRecording E)"
  by (unfold startRecording_def) (intro pres_intros keeps_ops sm_keeps; simp add: view_simps)

lemma ctl_zoom_channels [keeps_ops]: "keeps ctl_view (zoom_channels E n rc ts)"
  by (induction ts arbitrary: rc; simp; (intro pres_intros keeps_ops ctl_keeps)?; simp)

lemmas keeps_zoom_channels [keeps_ops] = ctl_zoom_channels [THEN keeps_ctl_sm]

lemmas hwi_defs5 = focus_event_auto_def focus_event_caf_def processHistogramStats_def
  processASDUpdate_def processFaceDetectionResult_def processAEInfo_def
  processFocusPositionInfo_def processAWBUpdate_def transAwbMetaToParams_def
  processZoomEvent_def processPrepSnapshotDoneEvent_def processJpegNotify_def
  prepareHardwareForSnapshot_def updateParameters_def commitParameterChanges_def
  getParameters_def putParameters_def clear_memoryPool_def isPreviewRestartEnabled_def
  isCaptureShutterEnabled_def registerFaceImage_def

lemma ctl_hwi5 [keeps_ops]:
  "keeps ctl_view (focus_event_auto E d)" "keeps ctl_view (focus_event_caf E mode d)"
  "keeps ctl_view (processHistogramStats E n)" "keeps ctl_view (processASDUpdate E n)"
  "keeps ctl_view (processFaceDetectionResult E n)" "keeps ctl_view (processAEInfo E n)"
  "keeps ctl_view (processFocusPositionInfo E n)" "keeps ctl_view (processAWBUpdate E n)"
  "keeps ctl_view (processZoomEvent E n)" "keeps ctl_view (processPrepSnapshotDoneEvent st)"
  "keeps ctl_view (processJpegNotify E n)" "keeps ctl_view (prepareHardwareForSnapshot E)"
  "keeps ctl_view (updateParameters E str)" "keeps ctl_view (commitParameterChanges E)"
  "keeps ctl_view (getParameters E)" "keeps ctl_view (putParameters E p)"
  "keeps ctl_view (clear_memoryPool E)" "keeps ctl_view (isPreviewRestartEnabled E)"
  "keeps ctl_view (isCaptureShutterEnabled E)" "keeps ctl_view (registerFaceImage E p q)"
  by (unfold hwi_defs5) (intro pres_intros keeps_ops ctl_keeps; simp add: view_simps)+

lemmas keeps_hwi5 [keeps_ops] = ctl_hwi5 [THEN keeps_ctl_sm]

lemma ctl_processAutoFocusEvent [keeps_ops]: "keeps ctl_view (processAutoFocusEvent E d)"
  by (unfold processAutoFocusEvent_def)
    (intro pres_intros keeps_ops ctl_keeps; simp add: view_simps)

lemmas keeps_processAutoFocusEvent [keeps_ops] = ctl_processAutoFocusEvent [THEN keeps_ctl_sm]

end
