(* ===== verification/SM_Preview.thy ===== *)
theory SM_Preview
  imports HWI_Ops
begin

text \<open>
  The state machine's handlers for the states in which no picture is being taken
  (\<open>QCameraStateMachine.cpp\<close>): preview stopped, preview ready, previewing, and waiting for the
  hardware to be prepared for a snapshot. A long switch is split into consecutive parts; the last
  case of each part goes on to the next one.
\<close>

section \<open>The branches' common endings\<close>

definition set_state :: "qcamera_state \<Rightarrow> unit hal_op" where
  "set_state st = modify (\<lambda>s. s\<lparr>m_state := st\<rparr>)"

definition reply :: "env \<Rightarrow> sm_msg \<Rightarrow> int \<Rightarrow> api_result_value \<Rightarrow> unit hal_op" where
  "reply E msg rc v =
     signalAPIResult E \<lparr>status = rc, request_api = evt_of msg, result_value = v\<rparr>"

text \<open>Run the operation and return its code to the caller of the API.\<close>

definition answer :: "env \<Rightarrow> sm_msg \<Rightarrow> int hal_op \<Rightarrow> int hal_op" where
  "answer E msg m = do {
     rc \<leftarrow> m;
     reply E msg rc RESULT_TYPE_DEF;
     ret rc
   }"

definition answer_flag :: "env \<Rightarrow> sm_msg \<Rightarrow> int \<Rightarrow> int hal_op" where
  "answer_flag E msg enabled = do {
     reply E msg NO_ERROR (RESULT_TYPE_ENABLE_FLAG enabled);
     ret NO_ERROR
   }"

definition answer_msgTypeEnabled :: "env \<Rightarrow> sm_msg \<Rightarrow> 32 word \<Rightarrow> int hal_op" where
  "answer_msgTypeEnabled E msg msg_type = do {
     enabled \<leftarrow> msgTypeEnabled msg_type;
     answer_flag E msg enabled
   }"

definition answer_params :: "env \<Rightarrow> sm_msg \<Rightarrow> int hal_op" where
  "answer_params E msg = do {
     params \<leftarrow> getParameters E;
     reply E msg NO_ERROR (RESULT_TYPE_PARAMS params);
     ret NO_ERROR
   }"

definition answer_face :: "env \<Rightarrow> sm_msg \<Rightarrow> ptr \<Rightarrow> ptr \<Rightarrow> int hal_op" where
  "answer_face E msg img_ptr config = do {
     (rc, faceID) \<leftarrow> registerFaceImage E img_ptr config;
     reply E msg rc (RESULT_TYPE_HANDLE faceID);
     ret rc
   }"

definition reject :: "env \<Rightarrow> sm_msg \<Rightarrow> int hal_op" where
  "reject E msg = answer E msg (ret INVALID_OPERATION)"

definition answer_evt :: "sm_msg \<Rightarrow> int hal_op \<Rightarrow> int hal_op" where
  "answer_evt msg m = do {
     rc \<leftarrow> m;
     signalEvtResult \<lparr>status = rc, request_api = evt_of msg, result_value = RESULT_TYPE_DEF\<rparr>;
     ret rc
   }"

definition daemon_died :: "env \<Rightarrow> cam_event_type \<Rightarrow> int hal_op" where
  "daemon_died E e =
     (case e of
        CAM_EVENT_TYPE_DAEMON_DIED \<Rightarrow> do {
          _ \<leftarrow> sendEvtNotify E CAMERA_MSG_ERROR CAMERA_ERROR_SERVER_DIED 0;
          ret NO_ERROR
        }
      | _ \<Rightarrow> ret NO_ERROR)"

text \<open>
  The switch over the internal events; \<open>stats\<close> tells whether the state processes face and
  histogram data.
\<close>

fun internal_evt :: "env \<Rightarrow> bool \<Rightarrow> qcamera_internal_evt \<Rightarrow> int hal_op" where
  "internal_evt E stats (QCAMERA_INTERNAL_EVT_FOCUS_UPDATE focus_data) =
     processAutoFocusEvent E focus_data"
| "internal_evt E stats (QCAMERA_INTERNAL_EVT_PREP_SNAPSHOT_DONE _) = ret NO_ERROR"
| "internal_evt E stats (QCAMERA_INTERNAL_EVT_FACE_DETECT_RESULT faces_data) =
     (if stats then processFaceDetectionResult E faces_data else ret NO_ERROR)"
| "internal_evt E stats (QCAMERA_INTERNAL_EVT_HISTOGRAM_STATS stats_data) =
     (if stats then processHistogramStats E stats_data else ret NO_ERROR)"
| "internal_evt E stats (QCAMERA_INTERNAL_EVT_CROP_INFO crop_data) = processZoomEvent E crop_data"
| "internal_evt E stats (QCAMERA_INTERNAL_EVT_ASD_UPDATE asd_data) = processASDUpdate E asd_data"
| "internal_evt E stats (QCAMERA_INTERNAL_EVT_AWB_UPDATE awb_data) = processAWBUpdate E awb_data"
| "internal_evt E stats (QCAMERA_INTERNAL_EVT_AE_UPDATE ae_data) = processAEInfo E ae_data"
| "internal_evt E stats (QCAMERA_INTERNAL_EVT_FOCUS_POS_UPDATE focus_pos) =
     processFocusPositionInfo E focus_pos"

text \<open>Prepare and start the preview, undoing the preparation when the start fails.\<close>

definition prepare_and_start :: "env \<Rightarrow> int hal_op" where
  "prepare_and_start E = do {
     rc \<leftarrow> preparePreview E;
     if rc = NO_ERROR then do {
       rc \<leftarrow> startPreview E;
       when_do (rc \<noteq> NO_ERROR) (unpreparePreview E);
       ret rc
     } else ret rc
   }"

section \<open>Preview stopped\<close>

definition stopped_setParams :: "env \<Rightarrow> string \<Rightarrow> int hal_op" where
  "stopped_setParams E parms = do {
     (rc, needRestart) \<leftarrow> updateParameters E parms;
     when_do needRestart (clear_memoryPool E);
     if rc = NO_ERROR then commitParameterChanges E else ret rc
   }"

definition stopped_startPreview :: "env \<Rightarrow> int hal_op" where
  "stopped_startPreview E = do {
     window \<leftarrow> gets mPreviewWindow;
     if window = None then do {
       rc \<leftarrow> preparePreview E;
       when_do (rc = NO_ERROR) (set_state QCAMERA_SM_STATE_PREVIEW_READY);
       ret rc
     } else do {
       rc \<leftarrow> prepare_and_start E;
       when_do (rc = NO_ERROR) (set_state QCAMERA_SM_STATE_PREVIEWING);
       ret rc
     }
   }"

definition stopped_startNoDisplay :: "env \<Rightarrow> int hal_op" where
  "stopped_startNoDisplay E = do {
     rc \<leftarrow> prepare_and_start E;
     when_do (rc = NO_ERROR) (set_state QCAMERA_SM_STATE_PREVIEWING);
     ret rc
   }"

definition sm_sendCommand :: "env \<Rightarrow> camera_cmd \<Rightarrow> int \<Rightarrow> int \<Rightarrow> int hal_op" where
  "sm_sendCommand E cmd arg1 arg2 = do {
     (rc, _) \<leftarrow> sendCommand E cmd arg1 arg2;
     ret rc
   }"

definition stopped_rest :: "env \<Rightarrow> sm_msg \<Rightarrow> int hal_op" where
  "stopped_rest E msg =
     (case msg of
        RELEASE_RECORIDNG_FRAME data \<Rightarrow> do {
          closeNativeHandle E data;
          reject E msg
        }
      | START_RECORDING \<Rightarrow> reject E msg
      | STOP_RECORDING \<Rightarrow> reject E msg
      | PREPARE_SNAPSHOT \<Rightarrow> reject E msg
      | TAKE_PICTURE \<Rightarrow> reject E msg
      | START_AUTO_FOCUS \<Rightarrow> answer E msg (ret NO_ERROR)
      | CANCEL_PICTURE \<Rightarrow> answer E msg (ret NO_ERROR)
      | STOP_AUTO_FOCUS \<Rightarrow> answer E msg (cancelAutoFocus E)
      | REG_FACE_IMAGE img_ptr config \<Rightarrow> answer_face E msg img_ptr config
      | THERMAL_NOTIFY level \<Rightarrow> answer E msg (updateThermalLevel E level)
      | EVT_NOTIFY e \<Rightarrow> daemon_died E e
      | SNAPSHOT_DONE \<Rightarrow> answer_evt msg (ret NO_ERROR)
      | _ \<Rightarrow> ret NO_ERROR)"

definition stopped_preview :: "env \<Rightarrow> sm_msg \<Rightarrow> int hal_op" where
  "stopped_preview E msg =
     (case msg of
        START_PREVIEW \<Rightarrow> answer E msg (stopped_startPreview E)
      | START_NODISPLAY_PREVIEW \<Rightarrow> answer E msg (stopped_startNoDisplay E)
      | STOP_PREVIEW \<Rightarrow> answer E msg (ret NO_ERROR)
      | PREVIEW_ENABLED \<Rightarrow> answer_flag E msg 0
      | RECORDING_ENABLED \<Rightarrow> answer_flag E msg 0
      | RELEASE \<Rightarrow> answer E msg (release E)
      | STORE_METADATA_IN_BUFS enable \<Rightarrow> answer E msg (storeMetaDataInBuffers enable)
      | DUMP fd \<Rightarrow> answer E msg (dump fd)
      | SEND_COMMAND cmd arg1 arg2 \<Rightarrow> answer E msg (sm_sendCommand E cmd arg1 arg2)
      | _ \<Rightarrow> stopped_rest E msg)"

definition procEvtPreviewStoppedState :: "env \<Rightarrow> sm_msg \<Rightarrow> int hal_op" where
  "procEvtPreviewStoppedState E msg =
     (case msg of
        SET_PREVIEW_WINDOW window \<Rightarrow> answer E msg (setPreviewWindow window)
      | SET_CALLBACKS setcbs \<Rightarrow> answer E msg (setCallBacks E setcbs)
      | ENABLE_MSG_TYPE m \<Rightarrow> answer E msg (enableMsgType m)
      | DISABLE_MSG_TYPE m \<Rightarrow> answer E msg (disableMsgType m)
      | MSG_TYPE_ENABLED m \<Rightarrow> answer_msgTypeEnabled E msg m
      | SET_PARAMS parms \<Rightarrow> answer E msg (stopped_setParams E parms)
      | GET_PARAMS \<Rightarrow> answer_params E msg
      | PUT_PARAMS parms \<Rightarrow> answer E msg (putParameters E parms)
      | _ \<Rightarrow> stopped_preview E msg)"

section \<open>Preview ready\<close>

definition ready_setPreviewWindow :: "env \<Rightarrow> ptr \<Rightarrow> int hal_op" where
  "ready_setPreviewWindow E window = do {
     _ \<leftarrow> setPreviewWindow window;
     w \<leftarrow> gets mPreviewWindow;
     if w \<noteq> None then do {
       rc \<leftarrow> startPreview E;
       if rc \<noteq> NO_ERROR then do {
         unpreparePreview E;
         set_state QCAMERA_SM_STATE_PREVIEW_STOPPED;
         ret rc
       } else do {
         set_state QCAMERA_SM_STATE_PREVIEWING;
         ret rc
       }
     } else ret NO_ERROR
   }"

definition ready_setParams :: "env \<Rightarrow> string \<Rightarrow> int hal_op" where
  "ready_setParams E parms = do {
     (rc, needRestart) \<leftarrow> updateParameters E parms;
     if rc \<noteq> NO_ERROR then ret rc
     else if needRestart then do {
       unpreparePreview E;
       clear_memoryPool E;
       _ \<leftarrow> commitParameterChanges E;
       rc \<leftarrow> preparePreview E;
       when_do (rc \<noteq> NO_ERROR) (set_state QCAMERA_SM_STATE_PREVIEW_STOPPED);
       ret rc
     } else commitParameterChanges E
   }"

definition ready_stopPreview :: "env \<Rightarrow> int hal_op" where
  "ready_stopPreview E = do {
     unpreparePreview E;
     set_state QCAMERA_SM_STATE_PREVIEW_STOPPED;
     ret 0
   }"

definition ready_rest :: "env \<Rightarrow> sm_msg \<Rightarrow> int hal_op" where
  "ready_rest E msg =
     (case msg of
        SEND_COMMAND cmd arg1 arg2 \<Rightarrow> answer E msg (sm_sendCommand E cmd arg1 arg2)
      | REG_FACE_IMAGE img_ptr config \<Rightarrow> answer_face E msg img_ptr config
      | RELEASE_RECORIDNG_FRAME data \<Rightarrow> do {
          closeNativeHandle E data;
          reject E msg
        }
      | START_NODISPLAY_PREVIEW \<Rightarrow> reject E msg
      | START_RECORDING \<Rightarrow> reject E msg
      | STOP_RECORDING \<Rightarrow> reject E msg
      | PREPARE_SNAPSHOT \<Rightarrow> reject E msg
      | TAKE_PICTURE \<Rightarrow> reject E msg
      | CANCEL_PICTURE \<Rightarrow> reject E msg
      | RELEASE \<Rightarrow> reject E msg
      | EVT_NOTIFY e \<Rightarrow> daemon_died E e
      | SNAPSHOT_DONE \<Rightarrow> answer_evt msg (ret NO_ERROR)
      | THERMAL_NOTIFY level \<Rightarrow> answer E msg (updateThermalLevel E level)
      | _ \<Rightarrow> ret NO_ERROR)"

definition ready_preview :: "env \<Rightarrow> sm_msg \<Rightarrow> int hal_op" where
  "ready_preview E msg =
     (case msg of
        START_PREVIEW \<Rightarrow> answer E msg (ret NO_ERROR)
      | STOP_PREVIEW \<Rightarrow> answer E msg (ready_stopPreview E)
      | PREVIEW_ENABLED \<Rightarrow> answer_flag E msg 1
      | RECORDING_ENABLED \<Rightarrow> answer_flag E msg 0
      | STORE_METADATA_IN_BUFS enable \<Rightarrow> answer E msg (storeMetaDataInBuffers enable)
      | DUMP fd \<Rightarrow> answer E msg (dump fd)
      | START_AUTO_FOCUS \<Rightarrow> answer E msg (autoFocus E)
      | STOP_AUTO_FOCUS \<Rightarrow> answer E msg (cancelAutoFocus E)
      | _ \<Rightarrow> ready_rest E msg)"

definition procEvtPreviewReadyState :: "env \<Rightarrow> sm_msg \<Rightarrow> int hal_op" where
  "procEvtPreviewReadyState E msg =
     (case msg of
        SET_PREVIEW_WINDOW window \<Rightarrow> answer E msg (ready_setPreviewWindow E window)
      | SET_CALLBACKS setcbs \<Rightarrow> answer E msg (setCallBacks E setcbs)
      | ENABLE_MSG_TYPE m \<Rightarrow> answer E msg (enableMsgType m)
      | DISABLE_MSG_TYPE m \<Rightarrow> answer E msg (disableMsgType m)
      | MSG_TYPE_ENABLED m \<Rightarrow> answer_msgTypeEnabled E msg m
      | SET_PARAMS parms \<Rightarrow> answer E msg (ready_setParams E parms)
      | GET_PARAMS \<Rightarrow> answer_params E msg
      | PUT_PARAMS parms \<Rightarrow> answer E msg (putParameters E parms)
      | _ \<Rightarrow> ready_preview E msg)"

section \<open>Previewing\<close>

definition previewing_setParams :: "env \<Rightarrow> string \<Rightarrow> int hal_op" where
  "previewing_setParams E parms = do {
     (rc, needRestart) \<leftarrow> updateParameters E parms;
     if rc \<noteq> NO_ERROR then ret rc
     else if needRestart then do {
       _ \<leftarrow> stopPreview E;
       clear_memoryPool E;
       _ \<leftarrow> commitParameterChanges E;
       rc \<leftarrow> prepare_and_start E;
       when_do (rc \<noteq> NO_ERROR) (set_state QCAMERA_SM_STATE_PREVIEW_STOPPED);
       ret rc
     } else commitParameterChanges E
   }"

definition previewing_stopPreview :: "env \<Rightarrow> int hal_op" where
  "previewing_stopPreview E = do {
     rc \<leftarrow> stopPreview E;
     set_state QCAMERA_SM_STATE_PREVIEW_STOPPED;
     ret rc
   }"

definition previewing_startRecording :: "env \<Rightarrow> int hal_op" where
  "previewing_startRecording E = do {
     rc \<leftarrow> startRecording E;
     when_do (rc = NO_ERROR) (set_state QCAMERA_SM_STATE_RECORDING);
     ret rc
   }"

text \<open>A successful preparation sends no result: \<open>PREP_SNAPSHOT_DONE\<close> will.\<close>

definition previewing_prepareSnapshot :: "env \<Rightarrow> sm_msg \<Rightarrow> int hal_op" where
  "previewing_prepareSnapshot E msg = do {
     rc \<leftarrow> prepareHardwareForSnapshot E;
     if rc = NO_ERROR then do {
       set_state QCAMERA_SM_STATE_PREPARE_SNAPSHOT;
       ret rc
     } else do {
       reply E msg rc RESULT_TYPE_DEF;
       ret rc
     }
   }"

definition previewing_takePicture :: "env \<Rightarrow> int hal_op" where
  "previewing_takePicture E = do {
     hint \<leftarrow> gets (\<lambda>s. recordingHint (mParameters s));
     when_do hint (do {
       _ \<leftarrow> stopPreview E;
       _ \<leftarrow> parm E (P_updateRecordingHintValue False);
       _ \<leftarrow> prepare_and_start E;
       ret ()
     });
     zsl \<leftarrow> gets (\<lambda>s. isZSLMode (mParameters s));
     longshot \<leftarrow> gets mLongshotEnabled;
     if zsl \<or> longshot then do {
       set_state QCAMERA_SM_STATE_PREVIEW_PIC_TAKING;
       rc \<leftarrow> takePicture E;
       when_do (rc \<noteq> NO_ERROR) (set_state QCAMERA_SM_STATE_PREVIEWING);
       ret rc
     } else do {
       set_state QCAMERA_SM_STATE_PIC_TAKING;
       rc \<leftarrow> takePicture E;
       when_do (rc \<noteq> NO_ERROR) (set_state QCAMERA_SM_STATE_PREVIEW_STOPPED);
       ret rc
     }
   }"

definition previewing_sendCommand :: "env \<Rightarrow> camera_cmd \<Rightarrow> int \<Rightarrow> int \<Rightarrow> int hal_op" where
  "previewing_sendCommand E cmd arg1 arg2 = do {
     (rc, arg1') \<leftarrow> sendCommand E cmd arg1 arg2;
     if cmd = CAMERA_CMD_LONGSHOT_ON \<and> arg1' = RESTART_PERVIEW_value then do {
       _ \<leftarrow> stopPreview E;
       clear_memoryPool E;
       prepare_and_start E
     } else ret rc
   }"

definition previewing_rest :: "env \<Rightarrow> sm_msg \<Rightarrow> int hal_op" where
  "previewing_rest E msg =
     (case msg of
        REG_FACE_IMAGE img_ptr config \<Rightarrow> answer_face E msg img_ptr config
      | RELEASE_RECORIDNG_FRAME data \<Rightarrow> do {
          closeNativeHandle E data;
          reject E msg
        }
      | CANCEL_PICTURE \<Rightarrow> reject E msg
      | STOP_RECORDING \<Rightarrow> reject E msg
      | RELEASE \<Rightarrow> reject E msg
      | EVT_INTERNAL e \<Rightarrow> internal_evt E True e
      | EVT_NOTIFY e \<Rightarrow> daemon_died E e
      | THERMAL_NOTIFY level \<Rightarrow> answer E msg (updateThermalLevel E level)
      | SNAPSHOT_DONE \<Rightarrow> answer_evt msg (ret NO_ERROR)
      | _ \<Rightarrow> ret NO_ERROR)"

definition previewing_actions :: "env \<Rightarrow> sm_msg \<Rightarrow> int hal_op" where
  "previewing_actions E msg =
     (case msg of
        STORE_METADATA_IN_BUFS enable \<Rightarrow> answer E msg (storeMetaDataInBuffers enable)
      | DUMP fd \<Rightarrow> answer E msg (dump fd)
      | START_AUTO_FOCUS \<Rightarrow> answer E msg (autoFocus E)
      | STOP_AUTO_FOCUS \<Rightarrow> answer E msg (cancelAutoFocus E)
      | START_RECORDING \<Rightarrow> answer E msg (previewing_startRecording E)
      | PREPARE_SNAPSHOT \<Rightarrow> previewing_prepareSnapshot E msg
      | TAKE_PICTURE \<Rightarrow> answer E msg (previewing_takePicture E)
      | SEND_COMMAND cmd arg1 arg2 \<Rightarrow> answer E msg (previewing_sendCommand E cmd arg1 arg2)
      | _ \<Rightarrow> previewing_rest E msg)"

definition procEvtPreviewingState :: "env \<Rightarrow> sm_msg \<Rightarrow> int hal_op" where
  "procEvtPreviewingState E msg =
     (case msg of
        SET_PREVIEW_WINDOW window \<Rightarrow> reject E msg
      | SET_CALLBACKS setcbs \<Rightarrow> answer E msg (setCallBacks E setcbs)
      | ENABLE_MSG_TYPE m \<Rightarrow> answer E msg (enableMsgType m)
      | DISABLE_MSG_TYPE m \<Rightarrow> answer E msg (disableMsgType m)
      | MSG_TYPE_ENABLED m \<Rightarrow> answer_msgTypeEnabled E msg m
      | SET_PARAMS parms \<Rightarrow> answer E msg (previewing_setParams E parms)
      | GET_PARAMS \<Rightarrow> answer_params E msg
      | PUT_PARAMS parms \<Rightarrow> answer E msg (putParameters E parms)
      | START_PREVIEW \<Rightarrow> answer E msg (ret NO_ERROR)
      | START_NODISPLAY_PREVIEW \<Rightarrow> answer E msg (ret NO_ERROR)
      | STOP_PREVIEW \<Rightarrow> answer E msg (previewing_stopPreview E)
      | PREVIEW_ENABLED \<Rightarrow> answer_flag E msg 1
      | RECORDING_ENABLED \<Rightarrow> answer_flag E msg 0
      | _ \<Rightarrow> previewing_actions E msg)"

section \<open>Preparing a snapshot\<close>

text \<open>\<open>PREP_SNAPSHOT_DONE\<close> answers the \<open>PREPARE_SNAPSHOT\<close> that led here.\<close>

definition prepare_internal_evt :: "env \<Rightarrow> qcamera_internal_evt \<Rightarrow> int hal_op" where
  "prepare_internal_evt E e =
     (case e of
        QCAMERA_INTERNAL_EVT_PREP_SNAPSHOT_DONE prep_snapshot_state \<Rightarrow> do {
          _ \<leftarrow> processPrepSnapshotDoneEvent prep_snapshot_state;
          set_state QCAMERA_SM_STATE_PREVIEWING;
          reply E PREPARE_SNAPSHOT NO_ERROR RESULT_TYPE_DEF;
          ret NO_ERROR
        }
      | _ \<Rightarrow> internal_evt E True e)"

definition procEvtPrepareSnapshotState :: "env \<Rightarrow> sm_msg \<Rightarrow> int hal_op" where
  "procEvtPrepareSnapshotState E msg =
     (case msg of
        EVT_INTERNAL e \<Rightarrow> prepare_internal_evt E e
      | EVT_NOTIFY e \<Rightarrow> daemon_died E e
      | SNAPSHOT_DONE \<Rightarrow> answer_evt msg (ret NO_ERROR)
      | THERMAL_NOTIFY level \<Rightarrow> answer E msg (updateThermalLevel E level)
      | REG_FACE_IMAGE _ _ \<Rightarrow> ret NO_ERROR
      | JPEG_EVT_NOTIFY _ \<Rightarrow> ret NO_ERROR
      | STOP_CAPTURE_CHANNEL \<Rightarrow> ret NO_ERROR
      | RESTART_PERVIEW \<Rightarrow> ret NO_ERROR
      | _ \<Rightarrow> reject E msg)"

end
