(* ===== verification/SM_Capture.thy ===== *)
theory SM_Capture
  imports SM_Preview
begin

text \<open>
  The state machine's handlers for the states in which a picture or a video is being taken, and
  the dispatcher \<open>stateMachine\<close> (\<open>QCameraStateMachine.cpp\<close>).
\<close>

section \<open>Taking a picture\<close>

definition commit_setParams :: "env \<Rightarrow> string \<Rightarrow> int hal_op" where
  "commit_setParams E parms = do {
     (rc, needRestart) \<leftarrow> updateParameters E parms;
     if rc = NO_ERROR then commitParameterChanges E else ret rc
   }"

definition pic_stop :: "env \<Rightarrow> int hal_op" where
  "pic_stop E = do {
     rc \<leftarrow> cancelPicture E;
     set_state QCAMERA_SM_STATE_PREVIEW_STOPPED;
     ret rc
   }"

text \<open>In both picture states \<open>LONGSHOT_OFF\<close> goes back to previewing.\<close>

definition pic_sendCommand :: "env \<Rightarrow> camera_cmd \<Rightarrow> int \<Rightarrow> int \<Rightarrow> int hal_op" where
  "pic_sendCommand E cmd arg1 arg2 = do {
     (rc, _) \<leftarrow> sendCommand E cmd arg1 arg2;
     when_do (cmd = CAMERA_CMD_LONGSHOT_OFF) (set_state QCAMERA_SM_STATE_PREVIEWING);
     ret rc
   }"

definition pic_takePicture :: "env \<Rightarrow> int hal_op" where
  "pic_takePicture E = do {
     longshot \<leftarrow> gets mLongshotEnabled;
     if longshot then longShot E else ret INVALID_OPERATION
   }"

definition pic_evtNotify :: "env \<Rightarrow> cam_event_type \<Rightarrow> int hal_op" where
  "pic_evtNotify E e =
     (case e of
        CAM_EVENT_TYPE_REPROCESS_STAGE_DONE \<Rightarrow> do {
          longshot \<leftarrow> gets mLongshotEnabled;
          when_do longshot (do {
            modify (\<lambda>s. s\<lparr>mMultipleStages := True\<rparr>);
            playShutter E
          });
          ret NO_ERROR
        }
      | _ \<Rightarrow> daemon_died E e)"

definition pic_stopCaptureChannel :: "env \<Rightarrow> int hal_op" where
  "pic_stopCaptureChannel E = do {
     restartPreview \<leftarrow> isPreviewRestartEnabled E;
     rc \<leftarrow> stopCaptureChannel E restartPreview;
     if restartPreview \<and> rc = NO_ERROR then do {
       rc \<leftarrow> preparePreview E;
       if rc = NO_ERROR then do {
         modify (\<lambda>s. s\<lparr>m_bPreviewStarted := True\<rparr>);
         startPreview E
       } else ret rc
     } else ret rc
   }"

definition pic_snapshotDone :: "env \<Rightarrow> int hal_op" where
  "pic_snapshotDone E = do {
     rc \<leftarrow> cancelPicture E;
     restartPreview \<leftarrow> isPreviewRestartEnabled E;
     set_state (if restartPreview then QCAMERA_SM_STATE_PREVIEWING
                else QCAMERA_SM_STATE_PREVIEW_STOPPED);
     ret rc
   }"

definition pic_rest :: "env \<Rightarrow> sm_msg \<Rightarrow> int hal_op" where
  "pic_rest E msg =
     (case msg of
        PREPARE_SNAPSHOT \<Rightarrow> reject E msg
      | START_RECORDING \<Rightarrow> reject E msg
      | STOP_RECORDING \<Rightarrow> reject E msg
      | RELEASE_RECORIDNG_FRAME _ \<Rightarrow> reject E msg
      | START_PREVIEW \<Rightarrow> reject E msg
      | START_NODISPLAY_PREVIEW \<Rightarrow> reject E msg
      | RELEASE \<Rightarrow> reject E msg
      | EVT_INTERNAL e \<Rightarrow> internal_evt E False e
      | EVT_NOTIFY e \<Rightarrow> pic_evtNotify E e
      | JPEG_EVT_NOTIFY jpeg_job \<Rightarrow> processJpegNotify E jpeg_job
      | STOP_CAPTURE_CHANNEL \<Rightarrow> pic_stopCaptureChannel E
      | SNAPSHOT_DONE \<Rightarrow> answer_evt msg (pic_snapshotDone E)
      | THERMAL_NOTIFY level \<Rightarrow> answer E msg (updateThermalLevel E level)
      | _ \<Rightarrow> ret NO_ERROR)"

definition pic_actions :: "env \<Rightarrow> sm_msg \<Rightarrow> int hal_op" where
  "pic_actions E msg =
     (case msg of
        STORE_METADATA_IN_BUFS enable \<Rightarrow> answer E msg (storeMetaDataInBuffers enable)
      | DUMP fd \<Rightarrow> answer E msg (dump fd)
      | START_AUTO_FOCUS \<Rightarrow> answer E msg (autoFocus E)
      | STOP_AUTO_FOCUS \<Rightarrow> answer E msg (cancelAutoFocus E)
      | SEND_COMMAND cmd arg1 arg2 \<Rightarrow> answer E msg (pic_sendCommand E cmd arg1 arg2)
      | CANCEL_PICTURE \<Rightarrow> answer E msg (pic_stop E)
      | REG_FACE_IMAGE img_ptr config \<Rightarrow> answer_face E msg img_ptr config
      | TAKE_PICTURE \<Rightarrow> answer E msg (pic_takePicture E)
      | _ \<Rightarrow> pic_rest E msg)"

definition procEvtPicTakingState :: "env \<Rightarrow> sm_msg \<Rightarrow> int hal_op" where
  "procEvtPicTakingState E msg =
     (case msg of
        SET_PREVIEW_WINDOW window \<Rightarrow> reject E msg
      | SET_CALLBACKS setcbs \<Rightarrow> answer E msg (setCallBacks E setcbs)
      | ENABLE_MSG_TYPE m \<Rightarrow> answer E msg (enableMsgType m)
      | DISABLE_MSG_TYPE m \<Rightarrow> answer E msg (disableMsgType m)
      | MSG_TYPE_ENABLED m \<Rightarrow> answer_msgTypeEnabled E msg m
      | SET_PARAMS parms \<Rightarrow> answer E msg (commit_setParams E parms)
      | GET_PARAMS \<Rightarrow> answer_params E msg
      | PUT_PARAMS parms \<Rightarrow> answer E msg (putParameters E parms)
      | STOP_PREVIEW \<Rightarrow> answer E msg (pic_stop E)
      | PREVIEW_ENABLED \<Rightarrow> answer_flag E msg 0
      | RECORDING_ENABLED \<Rightarrow> answer_flag E msg 0
      | _ \<Rightarrow> pic_actions E msg)"

section \<open>Recording\<close>

text \<open>While a video is recorded, parameters that need a restart are refused.\<close>

definition recording_setParams :: "env \<Rightarrow> string \<Rightarrow> int hal_op" where
  "recording_setParams E parms = do {
     (rc, needRestart) \<leftarrow> updateParameters E parms;
     if rc \<noteq> NO_ERROR then ret rc
     else if needRestart then ret BAD_VALUE
     else commitParameterChanges E
   }"

definition recording_takePicture :: "env \<Rightarrow> int hal_op" where
  "recording_takePicture E = do {
     set_state QCAMERA_SM_STATE_VIDEO_PIC_TAKING;
     rc \<leftarrow> takeLiveSnapshot E;
     when_do (rc \<noteq> NO_ERROR) (set_state QCAMERA_SM_STATE_RECORDING);
     ret rc
   }"

definition recording_stop :: "env \<Rightarrow> int hal_op" where
  "recording_stop E = do {
     rc \<leftarrow> stopRecording E;
     set_state QCAMERA_SM_STATE_PREVIEWING;
     ret rc
   }"

definition recording_stopPreview :: "env \<Rightarrow> int hal_op" where
  "recording_stopPreview E = do {
     _ \<leftarrow> stopRecording E;
     set_state QCAMERA_SM_STATE_PREVIEWING;
     rc \<leftarrow> stopPreview E;
     set_state QCAMERA_SM_STATE_PREVIEW_STOPPED;
     ret rc
   }"

definition recording_rest :: "env \<Rightarrow> sm_msg \<Rightarrow> int hal_op" where
  "recording_rest E msg =
     (case msg of
        RELEASE_RECORIDNG_FRAME data \<Rightarrow> answer E msg (releaseRecordingFrame E data)
      | REG_FACE_IMAGE img_ptr config \<Rightarrow> answer_face E msg img_ptr config
      | PREPARE_SNAPSHOT \<Rightarrow> answer E msg (ret NO_ERROR)
      | CANCEL_PICTURE \<Rightarrow> reject E msg
      | START_NODISPLAY_PREVIEW \<Rightarrow> reject E msg
      | RELEASE \<Rightarrow> reject E msg
      | EVT_INTERNAL e \<Rightarrow> internal_evt E True e
      | EVT_NOTIFY e \<Rightarrow> daemon_died E e
      | THERMAL_NOTIFY level \<Rightarrow> answer E msg (updateThermalLevel E level)
      | SNAPSHOT_DONE \<Rightarrow> answer_evt msg (ret NO_ERROR)
      | _ \<Rightarrow> ret NO_ERROR)"

definition recording_actions :: "env \<Rightarrow> sm_msg \<Rightarrow> int hal_op" where
  "recording_actions E msg =
     (case msg of
        DUMP fd \<Rightarrow> answer E msg (dump fd)
      | START_AUTO_FOCUS \<Rightarrow> answer E msg (autoFocus E)
      | STOP_AUTO_FOCUS \<Rightarrow> answer E msg (cancelAutoFocus E)
      | SEND_COMMAND cmd arg1 arg2 \<Rightarrow> answer E msg (sm_sendCommand E cmd arg1 arg2)
      | TAKE_PICTURE \<Rightarrow> answer E msg (recording_takePicture E)
      | START_RECORDING \<Rightarrow> answer E msg (ret 0)
      | STOP_RECORDING \<Rightarrow> answer E msg (recording_stop E)
      | STOP_PREVIEW \<Rightarrow> answer E msg (recording_stopPreview E)
      | _ \<Rightarrow> recording_rest E msg)"

definition procEvtRecordingState :: "env \<Rightarrow> sm_msg \<Rightarrow> int hal_op" where
  "procEvtRecordingState E msg =
     (case msg of
        START_PREVIEW \<Rightarrow> answer E msg (ret NO_ERROR)
      | SET_PREVIEW_WINDOW _ \<Rightarrow> answer E msg (ret NO_ERROR)
      | SET_CALLBACKS setcbs \<Rightarrow> answer E msg (setCallBacks E setcbs)
      | ENABLE_MSG_TYPE m \<Rightarrow> answer E msg (enableMsgType m)
      | DISABLE_MSG_TYPE m \<Rightarrow> answer E msg (disableMsgType m)
      | MSG_TYPE_ENABLED m \<Rightarrow> answer_msgTypeEnabled E msg m
      | SET_PARAMS parms \<Rightarrow> answer E msg (recording_setParams E parms)
      | GET_PARAMS \<Rightarrow> answer_params E msg
      | PUT_PARAMS parms \<Rightarrow> answer E msg (putParameters E parms)
      | PREVIEW_ENABLED \<Rightarrow> answer_flag E msg 0
      | RECORDING_ENABLED \<Rightarrow> answer_flag E msg 1
      | STORE_METADATA_IN_BUFS enable \<Rightarrow> answer E msg (storeMetaDataInBuffers enable)
      | _ \<Rightarrow> recording_actions E msg)"

section \<open>Live snapshot during recording\<close>

definition videopic_cancel :: "env \<Rightarrow> int hal_op" where
  "videopic_cancel E = do {
     rc \<leftarrow> cancelLiveSnapshot E;
     set_state QCAMERA_SM_STATE_RECORDING;
     ret rc
   }"

definition videopic_stopRecording :: "env \<Rightarrow> int hal_op" where
  "videopic_stopRecording E = do {
     _ \<leftarrow> videopic_cancel E;
     recording_stop E
   }"

definition videopic_stopPreview :: "env \<Rightarrow> int hal_op" where
  "videopic_stopPreview E = do {
     _ \<leftarrow> videopic_cancel E;
     recording_stopPreview E
   }"

definition videopic_rest :: "env \<Rightarrow> sm_msg \<Rightarrow> int hal_op" where
  "videopic_rest E msg =
     (case msg of
        START_RECORDING \<Rightarrow> reject E msg
      | START_PREVIEW \<Rightarrow> reject E msg
      | START_NODISPLAY_PREVIEW \<Rightarrow> reject E msg
      | PREPARE_SNAPSHOT \<Rightarrow> reject E msg
      | TAKE_PICTURE \<Rightarrow> reject E msg
      | RELEASE \<Rightarrow> reject E msg
      | EVT_INTERNAL e \<Rightarrow> internal_evt E True e
      | EVT_NOTIFY e \<Rightarrow> daemon_died E e
      | JPEG_EVT_NOTIFY jpeg_job \<Rightarrow> processJpegNotify E jpeg_job
      | SNAPSHOT_DONE \<Rightarrow> answer_evt msg (videopic_cancel E)
      | THERMAL_NOTIFY level \<Rightarrow> answer E msg (updateThermalLevel E level)
      | _ \<Rightarrow> ret NO_ERROR)"

definition videopic_actions :: "env \<Rightarrow> sm_msg \<Rightarrow> int hal_op" where
  "videopic_actions E msg =
     (case msg of
        STORE_METADATA_IN_BUFS enable \<Rightarrow> answer E msg (storeMetaDataInBuffers enable)
      | DUMP fd \<Rightarrow> answer E msg (dump fd)
      | START_AUTO_FOCUS \<Rightarrow> answer E msg (autoFocus E)
      | STOP_AUTO_FOCUS \<Rightarrow> answer E msg (cancelAutoFocus E)
      | SEND_COMMAND cmd arg1 arg2 \<Rightarrow> answer E msg (sm_sendCommand E cmd arg1 arg2)
      | STOP_RECORDING \<Rightarrow> answer E msg (videopic_stopRecording E)
      | RELEASE_RECORIDNG_FRAME data \<Rightarrow> answer E msg (releaseRecordingFrame E data)
      | CANCEL_PICTURE \<Rightarrow> answer E msg (videopic_cancel E)
      | REG_FACE_IMAGE img_ptr config \<Rightarrow> answer_face E msg img_ptr config
      | STOP_PREVIEW \<Rightarrow> answer E msg (videopic_stopPreview E)
      | _ \<Rightarrow> videopic_rest E msg)"

definition procEvtVideoPicTakingState :: "env \<Rightarrow> sm_msg \<Rightarrow> int hal_op" where
  "procEvtVideoPicTakingState E msg =
     (case msg of
        SET_PREVIEW_WINDOW _ \<Rightarrow> reject E msg
      | SET_CALLBACKS setcbs \<Rightarrow> answer E msg (setCallBacks E setcbs)
      | ENABLE_MSG_TYPE m \<Rightarrow> answer E msg (enableMsgType m)
      | DISABLE_MSG_TYPE m \<Rightarrow> answer E msg (disableMsgType m)
      | MSG_TYPE_ENABLED m \<Rightarrow> answer_msgTypeEnabled E msg m
      | SET_PARAMS parms \<Rightarrow> answer E msg (recording_setParams E parms)
      | GET_PARAMS \<Rightarrow> answer_params E msg
      | PUT_PARAMS parms \<Rightarrow> answer E msg (putParameters E parms)
      | PREVIEW_ENABLED \<Rightarrow> answer_flag E msg 1
      | RECORDING_ENABLED \<Rightarrow> answer_flag E msg 1
      | _ \<Rightarrow> videopic_actions E msg)"

section \<open>Taking a picture during the preview\<close>

definition previewpic_setParams :: "env \<Rightarrow> string \<Rightarrow> int hal_op" where
  "previewpic_setParams E parms = do {
     (rc, needRestart) \<leftarrow> updateParameters E parms;
     if rc \<noteq> NO_ERROR then ret rc
     else if needRestart then do {
       _ \<leftarrow> stopPreview E;
       clear_memoryPool E;
       _ \<leftarrow> commitParameterChanges E;
       rc \<leftarrow> prepare_and_start E;
       when_do (rc \<noteq> NO_ERROR) (set_state QCAMERA_SM_STATE_PIC_TAKING);
       ret rc
     } else commitParameterChanges E
   }"

definition zsl_or_longshot :: "bool hal_op" where
  "zsl_or_longshot = gets (\<lambda>s. isZSLMode (mParameters s) \<or> mLongshotEnabled s)"

text \<open>The end of a capture during the preview, on \<open>CANCEL_PICTURE\<close> and on \<open>SNAPSHOT_DONE\<close>.\<close>

definition previewpic_cancel :: "env \<Rightarrow> int hal_op" where
  "previewpic_cancel E = do {
     capture \<leftarrow> zsl_or_longshot;
     rc \<leftarrow> (if capture then cancelPicture E else cancelLiveSnapshot E);
     set_state QCAMERA_SM_STATE_PREVIEWING;
     ret rc
   }"

definition previewpic_stopPreview :: "env \<Rightarrow> int hal_op" where
  "previewpic_stopPreview E = do {
     zsl \<leftarrow> gets (\<lambda>s. isZSLMode (mParameters s));
     longshot \<leftarrow> gets mLongshotEnabled;
     rc \<leftarrow>
       (if zsl then do {
          rc \<leftarrow> cancelPicture E;
          _ \<leftarrow> stopChannel E QCAMERA_CH_TYPE_ZSL;
          ret rc
        } else if longshot then cancelPicture E
        else do {
          rc \<leftarrow> cancelLiveSnapshot E;
          _ \<leftarrow> stopChannel E QCAMERA_CH_TYPE_PREVIEW;
          ret rc
        });
     unpreparePreview E;
     set_state QCAMERA_SM_STATE_PREVIEW_STOPPED;
     ret rc
   }"

definition previewpic_startRecording :: "env \<Rightarrow> int hal_op" where
  "previewpic_startRecording E = do {
     capture \<leftarrow> zsl_or_longshot;
     if capture then ret INVALID_OPERATION
     else do {
       rc \<leftarrow> startRecording E;
       when_do (rc = NO_ERROR) (set_state QCAMERA_SM_STATE_VIDEO_PIC_TAKING);
       ret rc
     }
   }"

definition previewpic_evtNotify :: "env \<Rightarrow> cam_event_type \<Rightarrow> int hal_op" where
  "previewpic_evtNotify E e =
     (case e of
        CAM_EVENT_TYPE_REPROCESS_STAGE_DONE \<Rightarrow> do {
          longshot \<leftarrow> gets mLongshotEnabled;
          when_do longshot (do {
            modify (\<lambda>s. s\<lparr>mMultipleStages := True\<rparr>);
            limited \<leftarrow> gets (\<lambda>s. isLongshotSnapsLimited (mParameters s));
            when_do (\<not> limited) (do {
              shutter \<leftarrow> isCaptureShutterEnabled E;
              when_do (\<not> shutter) (playShutter E)
            })
          });
          ret NO_ERROR
        }
      | _ \<Rightarrow> daemon_died E e)"

definition previewpic_rest :: "env \<Rightarrow> sm_msg \<Rightarrow> int hal_op" where
  "previewpic_rest E msg =
     (case msg of
        TAKE_PICTURE \<Rightarrow> answer E msg (pic_takePicture E)
      | PREPARE_SNAPSHOT \<Rightarrow> reject E msg
      | STOP_RECORDING \<Rightarrow> reject E msg
      | START_PREVIEW \<Rightarrow> reject E msg
      | START_NODISPLAY_PREVIEW \<Rightarrow> reject E msg
      | SET_PREVIEW_WINDOW _ \<Rightarrow> reject E msg
      | RELEASE \<Rightarrow> reject E msg
      | EVT_INTERNAL e \<Rightarrow> internal_evt E True e
      | EVT_NOTIFY e \<Rightarrow> previewpic_evtNotify E e
      | JPEG_EVT_NOTIFY jpeg_job \<Rightarrow> processJpegNotify E jpeg_job
      | SNAPSHOT_DONE \<Rightarrow> answer_evt msg (previewpic_cancel E)
      | THERMAL_NOTIFY level \<Rightarrow> answer E msg (updateThermalLevel E level)
      | _ \<Rightarrow> ret NO_ERROR)"

definition previewpic_actions :: "env \<Rightarrow> sm_msg \<Rightarrow> int hal_op" where
  "previewpic_actions E msg =
     (case msg of
        DUMP fd \<Rightarrow> answer E msg (dump fd)
      | START_AUTO_FOCUS \<Rightarrow> answer E msg (autoFocus E)
      | STOP_AUTO_FOCUS \<Rightarrow> answer E msg (cancelAutoFocus E)
      | SEND_COMMAND cmd arg1 arg2 \<Rightarrow> answer E msg (pic_sendCommand E cmd arg1 arg2)
      | RELEASE_RECORIDNG_FRAME data \<Rightarrow> answer E msg (releaseRecordingFrame E data)
      | CANCEL_PICTURE \<Rightarrow> answer E msg (previewpic_cancel E)
      | STOP_PREVIEW \<Rightarrow> answer E msg (previewpic_stopPreview E)
      | START_RECORDING \<Rightarrow> answer E msg (previewpic_startRecording E)
      | REG_FACE_IMAGE img_ptr config \<Rightarrow> answer_face E msg img_ptr config
      | _ \<Rightarrow> previewpic_rest E msg)"

definition procEvtPreviewPicTakingState :: "env \<Rightarrow> sm_msg \<Rightarrow> int hal_op" where
  "procEvtPreviewPicTakingState E msg =
     (case msg of
        SET_CALLBACKS setcbs \<Rightarrow> answer E msg (setCallBacks E setcbs)
      | ENABLE_MSG_TYPE m \<Rightarrow> answer E msg (enableMsgType m)
      | DISABLE_MSG_TYPE m \<Rightarrow> answer E msg (disableMsgType m)
      | MSG_TYPE_ENABLED m \<Rightarrow> answer_msgTypeEnabled E msg m
      | SET_PARAMS parms \<Rightarrow> answer E msg (previewpic_setParams E parms)
      | GET_PARAMS \<Rightarrow> answer_params E msg
      | PUT_PARAMS parms \<Rightarrow> answer E msg (putParameters E parms)
      | PREVIEW_ENABLED \<Rightarrow> answer_flag E msg 1
      | RECORDING_ENABLED \<Rightarrow> answer_flag E msg 0
      | STORE_METADATA_IN_BUFS enable \<Rightarrow> answer E msg (storeMetaDataInBuffers enable)
      | _ \<Rightarrow> previewpic_actions E msg)"

section \<open>The dispatcher\<close>

definition stateMachine :: "env \<Rightarrow> sm_msg \<Rightarrow> int hal_op" where
  "stateMachine E msg = do {
     state \<leftarrow> gets m_state;
     case state of
       QCAMERA_SM_STATE_PREVIEW_STOPPED \<Rightarrow> procEvtPreviewStoppedState E msg
     | QCAMERA_SM_STATE_PREVIEW_READY \<Rightarrow> procEvtPreviewReadyState E msg
     | QCAMERA_SM_STATE_PREVIEWING \<Rightarrow> procEvtPreviewingState E msg
     | QCAMERA_SM_STATE_PREPARE_SNAPSHOT \<Rightarrow> procEvtPrepareSnapshotState E msg
     | QCAMERA_SM_STATE_PIC_TAKING \<Rightarrow> procEvtPicTakingState E msg
     | QCAMERA_SM_STATE_RECORDING \<Rightarrow> procEvtRecordingState E msg
     | QCAMERA_SM_STATE_VIDEO_PIC_TAKING \<Rightarrow> procEvtVideoPicTakingState E msg
     | QCAMERA_SM_STATE_PREVIEW_PIC_TAKING \<Rightarrow> procEvtPreviewPicTakingState E msg
   }"

end
