(* ===== verification/SM_Contract.thy ===== *)
theory SM_Contract
  imports SM_Capture
begin

text \<open>
  The abstract contract of the state machine and the proof that every handler implements it: which
  states an event may lead to, which results are returned to API callers and to synchronous
  backend events, and that nothing else of the shared view changes.
\<close>

section \<open>The abstract specification\<close>

text \<open>Events whose posting thread waits for a result.\<close>

fun is_api :: "qcamera_sm_evt \<Rightarrow> bool" where
  "is_api QCAMERA_SM_EVT_EVT_INTERNAL = False"
| "is_api QCAMERA_SM_EVT_EVT_NOTIFY = False"
| "is_api QCAMERA_SM_EVT_JPEG_EVT_NOTIFY = False"
| "is_api QCAMERA_SM_EVT_SNAPSHOT_DONE = False"
| "is_api QCAMERA_SM_EVT_STOP_CAPTURE_CHANNEL = False"
| "is_api QCAMERA_SM_EVT_RESTART_PERVIEW = False"
| "is_api _ = True"

text \<open>
  The states an event may lead to, given the state it is handled in and the code the handler
  returns.
\<close>

definition next_stopped :: "sm_msg \<Rightarrow> int \<Rightarrow> qcamera_state list" where
  "next_stopped msg rc = (let here = [QCAMERA_SM_STATE_PREVIEW_STOPPED] in
     case msg of
       START_PREVIEW \<Rightarrow>
         (if rc = NO_ERROR then [QCAMERA_SM_STATE_PREVIEW_READY, QCAMERA_SM_STATE_PREVIEWING]
          else here)
     | START_NODISPLAY_PREVIEW \<Rightarrow>
         (if rc = NO_ERROR then [QCAMERA_SM_STATE_PREVIEWING] else here)
     | _ \<Rightarrow> here)"

definition next_ready :: "sm_msg \<Rightarrow> int \<Rightarrow> qcamera_state list" where
  "next_ready msg rc = (let here = [QCAMERA_SM_STATE_PREVIEW_READY] in
     case msg of
       SET_PREVIEW_WINDOW w \<Rightarrow>
         (if w = None then here
          else if rc = NO_ERROR then [QCAMERA_SM_STATE_PREVIEWING]
          else [QCAMERA_SM_STATE_PREVIEW_STOPPED])
     | SET_PARAMS _ \<Rightarrow>
         (if rc = NO_ERROR then here else QCAMERA_SM_STATE_PREVIEW_STOPPED # here)
     | STOP_PREVIEW \<Rightarrow> [QCAMERA_SM_STATE_PREVIEW_STOPPED]
     | _ \<Rightarrow> here)"

definition next_previewing :: "sm_msg \<Rightarrow> int \<Rightarrow> qcamera_state list" where
  "next_previewing msg rc = (let here = [QCAMERA_SM_STATE_PREVIEWING] in
     case msg of
       SET_PARAMS _ \<Rightarrow>
         (if rc = NO_ERROR then here else QCAMERA_SM_STATE_PREVIEW_STOPPED # here)
     | STOP_PREVIEW \<Rightarrow> [QCAMERA_SM_STATE_PREVIEW_STOPPED]
     | START_RECORDING \<Rightarrow> (if rc = NO_ERROR then [QCAMERA_SM_STATE_RECORDING] else here)
     | PREPARE_SNAPSHOT \<Rightarrow> (if rc = NO_ERROR then [QCAMERA_SM_STATE_PREPARE_SNAPSHOT] else here)
     | TAKE_PICTURE \<Rightarrow>
         (if rc = NO_ERROR
          then [QCAMERA_SM_STATE_PREVIEW_PIC_TAKING, QCAMERA_SM_STATE_PIC_TAKING]
          else QCAMERA_SM_STATE_PREVIEW_STOPPED # here)
     | _ \<Rightarrow> here)"

definition is_prep_done :: "sm_msg \<Rightarrow> bool" where
  "is_prep_done msg =
     (case msg of
        EVT_INTERNAL e \<Rightarrow>
          (case e of QCAMERA_INTERNAL_EVT_PREP_SNAPSHOT_DONE _ \<Rightarrow> True | _ \<Rightarrow> False)
      | _ \<Rightarrow> False)"

definition next_prepare :: "sm_msg \<Rightarrow> int \<Rightarrow> qcamera_state list" where
  "next_prepare msg rc =
     (if is_prep_done msg then [QCAMERA_SM_STATE_PREVIEWING]
      else [QCAMERA_SM_STATE_PREPARE_SNAPSHOT])"

definition next_pic :: "sm_msg \<Rightarrow> int \<Rightarrow> qcamera_state list" where
  "next_pic msg rc = (let here = [QCAMERA_SM_STATE_PIC_TAKING] in
     case msg of
       STOP_PREVIEW \<Rightarrow> [QCAMERA_SM_STATE_PREVIEW_STOPPED]
     | CANCEL_PICTURE \<Rightarrow> [QCAMERA_SM_STATE_PREVIEW_STOPPED]
     | SEND_COMMAND cmd _ _ \<Rightarrow>
         (if cmd = CAMERA_CMD_LONGSHOT_OFF then [QCAMERA_SM_STATE_PREVIEWING] else here)
     | SNAPSHOT_DONE \<Rightarrow> [QCAMERA_SM_STATE_PREVIEWING, QCAMERA_SM_STATE_PREVIEW_STOPPED]
     | _ \<Rightarrow> here)"

definition next_recording :: "sm_msg \<Rightarrow> int \<Rightarrow> qcamera_state list" where
  "next_recording msg rc = (let here = [QCAMERA_SM_STATE_RECORDING] in
     case msg of
       TAKE_PICTURE \<Rightarrow> (if rc = NO_ERROR then [QCAMERA_SM_STATE_VIDEO_PIC_TAKING] else here)
     | STOP_RECORDING \<Rightarrow> [QCAMERA_SM_STATE_PREVIEWING]
     | STOP_PREVIEW \<Rightarrow> [QCAMERA_SM_STATE_PREVIEW_STOPPED]
     | _ \<Rightarrow> here)"

definition next_videopic :: "sm_msg \<Rightarrow> int \<Rightarrow> qcamera_state list" where
  "next_videopic msg rc = (let here = [QCAMERA_SM_STATE_VIDEO_PIC_TAKING] in
     case msg of
       STOP_RECORDING \<Rightarrow> [QCAMERA_SM_STATE_PREVIEWING]
     | CANCEL_PICTURE \<Rightarrow> [QCAMERA_SM_STATE_RECORDING]
     | SNAPSHOT_DONE \<Rightarrow> [QCAMERA_SM_STATE_RECORDING]
     | STOP_PREVIEW \<Rightarrow> [QCAMERA_SM_STATE_PREVIEW_STOPPED]
     | _ \<Rightarrow> here)"

definition next_previewpic :: "sm_msg \<Rightarrow> int \<Rightarrow> qcamera_state list" where
  "next_previewpic msg rc = (let here = [QCAMERA_SM_STATE_PREVIEW_PIC_TAKING] in
     case msg of
       SET_PARAMS _ \<Rightarrow> (if rc = NO_ERROR then here else QCAMERA_SM_STATE_PIC_TAKING # here)
     | SEND_COMMAND cmd _ _ \<Rightarrow>
         (if cmd = CAMERA_CMD_LONGSHOT_OFF then [QCAMERA_SM_STATE_PREVIEWING] else here)
     | CANCEL_PICTURE \<Rightarrow> [QCAMERA_SM_STATE_PREVIEWING]
     | SNAPSHOT_DONE \<Rightarrow> [QCAMERA_SM_STATE_PREVIEWING]
     | STOP_PREVIEW \<Rightarrow> [QCAMERA_SM_STATE_PREVIEW_STOPPED]
     | START_RECORDING \<Rightarrow>
         (if rc = NO_ERROR then [QCAMERA_SM_STATE_VIDEO_PIC_TAKING] else here)
     | _ \<Rightarrow> here)"

fun next_states :: "qcamera_state \<Rightarrow> sm_msg \<Rightarrow> int \<Rightarrow> qcamera_state list" where
  "next_states QCAMERA_SM_STATE_PREVIEW_STOPPED msg rc = next_stopped msg rc"
| "next_states QCAMERA_SM_STATE_PREVIEW_READY msg rc = next_ready msg rc"
| "next_states QCAMERA_SM_STATE_PREVIEWING msg rc = next_previewing msg rc"
| "next_states QCAMERA_SM_STATE_PREPARE_SNAPSHOT msg rc = next_prepare msg rc"
| "next_states QCAMERA_SM_STATE_PIC_TAKING msg rc = next_pic msg rc"
| "next_states QCAMERA_SM_STATE_RECORDING msg rc = next_recording msg rc"
| "next_states QCAMERA_SM_STATE_VIDEO_PIC_TAKING msg rc = next_videopic msg rc"
| "next_states QCAMERA_SM_STATE_PREVIEW_PIC_TAKING msg rc = next_previewpic msg rc"

text \<open>
  The results returned to API callers, as pairs of the event they answer and the status. Every API
  event is answered at once, with two exceptions: a successful \<open>PREPARE_SNAPSHOT\<close> is answered
  later, by the event that reports the preparation done, and \<open>REG_FACE_IMAGE\<close> during the
  preparation is not answered at all.
\<close>

definition unanswered :: "qcamera_state \<Rightarrow> qcamera_sm_evt \<Rightarrow> bool" where
  "unanswered st e \<longleftrightarrow>
     st = QCAMERA_SM_STATE_PREPARE_SNAPSHOT \<and> e = QCAMERA_SM_EVT_REG_FACE_IMAGE"

definition deferred :: "qcamera_state \<Rightarrow> qcamera_sm_evt \<Rightarrow> int \<Rightarrow> bool" where
  "deferred st e rc \<longleftrightarrow> st = QCAMERA_SM_STATE_PREVIEWING \<and>
     e = QCAMERA_SM_EVT_PREPARE_SNAPSHOT \<and> rc = NO_ERROR"

definition answers :: "qcamera_state \<Rightarrow> sm_msg \<Rightarrow> int \<Rightarrow> (qcamera_sm_evt \<times> int) list" where
  "answers st msg rc =
     (if is_api (evt_of msg) then
        if unanswered st (evt_of msg) \<or> deferred st (evt_of msg) rc then []
        else [(evt_of msg, rc)]
      else if st = QCAMERA_SM_STATE_PREPARE_SNAPSHOT \<and> is_prep_done msg
        then [(QCAMERA_SM_EVT_PREPARE_SNAPSHOT, NO_ERROR)]
      else [])"

text \<open>Only \<open>SNAPSHOT_DONE\<close> is answered to a waiting backend thread.\<close>

definition evt_answer :: "sm_msg \<Rightarrow> int \<Rightarrow> qcamera_api_result option \<Rightarrow> qcamera_api_result option"
where
  "evt_answer msg rc old =
     (if msg = SNAPSHOT_DONE
      then Some \<lparr>status = rc, request_api = QCAMERA_SM_EVT_SNAPSHOT_DONE,
        result_value = RESULT_TYPE_DEF\<rparr>
      else old)"

definition sm_post :: "sm_msg \<Rightarrow> hal \<Rightarrow> int \<Rightarrow> hal \<Rightarrow> bool" where
  "sm_post msg s rc s' \<longleftrightarrow>
     m_state s' \<in> set (next_states (m_state s) msg rc) \<and>
     (\<exists>new. m_apiResultList s' = m_apiResultList s @ new \<and>
        map (\<lambda>r. (request_api r, status r)) new = answers (m_state s) msg rc) \<and>
     m_evtResult s' = evt_answer msg rc (m_evtResult s) \<and>
     api_queue s' = api_queue s \<and> m_smThreadActive s' = m_smThreadActive s \<and>
     cmd_sem s' - int (length (evt_queue s')) = cmd_sem s - int (length (evt_queue s)) \<and>
     other_evts s' = other_evts s"

section \<open>Operations that move the state\<close>

definition sm_rest where
  "sm_rest s = (api_queue s, m_apiResultList s, m_evtResult s, m_smThreadActive s,
     cmd_sem s - int (length (evt_queue s)), other_evts s)"

definition moves :: "qcamera_state \<Rightarrow> int hal_op \<Rightarrow> (int \<Rightarrow> qcamera_state list) \<Rightarrow> bool" where
  "moves st m f \<longleftrightarrow> (\<forall>s. m_state s = st \<longrightarrow>
     wp m (\<lambda>rc s'. sm_rest s' = sm_rest s \<and> m_state s' \<in> set (f rc)) s)"

lemma sm_view_split: "sm_view s' = sm_view s \<longleftrightarrow> m_state s' = m_state s \<and> sm_rest s' = sm_rest s"
  by (auto simp: sm_view_def sm_rest_def)

lemma moves_ret: "st \<in> set (f rc) \<Longrightarrow> moves st (ret rc) f"
  by (simp add: moves_def wp_return)

lemma moves_keeps: "keeps sm_view m \<Longrightarrow> (\<And>rc. st \<in> set (f rc)) \<Longrightarrow> moves st m f"
  by (auto simp: moves_def sm_view_split intro!: wp_keepsI)

lemma moves_bind: "keeps sm_view m \<Longrightarrow> (\<And>a. moves st (k a) f) \<Longrightarrow> moves st (m \<bind> k) f"
  by (auto simp: moves_def sm_view_split intro!: wp_keeps_seq) (metis (mono_tags, lifting) wp_mono)

lemma movesD:
  "moves st m f \<Longrightarrow> m_state s = st \<Longrightarrow>
   wp m (\<lambda>rc s'. sm_rest s' = sm_rest s \<and> m_state s' \<in> set (f rc)) s"
  by (simp add: moves_def)

lemma sm_rest_set_state [simp]: "sm_rest (s\<lparr>m_state := st\<rparr>) = sm_rest s"
  by (simp add: sm_rest_def)

lemma moves_set:
  assumes "moves st' (k ()) f"
  shows "moves st (set_state st' \<bind> k) f"
  unfolding moves_def set_state_def wp_bind wp_modify
  using movesD [OF assms, of "_\<lparr>m_state := st'\<rparr>"] by simp

lemma moves_when:
  "(b \<Longrightarrow> moves st (m \<bind> k) f) \<Longrightarrow> (\<not> b \<Longrightarrow> moves st (k ()) f) \<Longrightarrow> moves st (when_do b m \<bind> k) f"
  by (auto simp: moves_def wp_bind wp_when)

lemma moves_if: "(b \<Longrightarrow> moves st m f) \<Longrightarrow> (\<not> b \<Longrightarrow> moves st n f) \<Longrightarrow> moves st (if b then m else n) f"
  by simp

lemma moves_case_prod: "(\<And>a b. moves st (g a b) f) \<Longrightarrow> moves st (case p of (a, b) \<Rightarrow> g a b) f"
  by (cases p) simp

lemma moves_assoc: "moves st (m \<bind> (\<lambda>a. k a \<bind> h)) f \<Longrightarrow> moves st ((m \<bind> k) \<bind> h) f"
  by simp

text \<open>Steps that keep the view are dropped, steps that set the state move on.\<close>

named_theorems moves_ops "operations with a proved set of next states"

section \<open>Endings and the contract\<close>

definition handles :: "qcamera_state \<Rightarrow> sm_msg \<Rightarrow> int hal_op \<Rightarrow> bool" where
  "handles st msg m \<longleftrightarrow> (\<forall>s. m_state s = st \<longrightarrow> wp m (sm_post msg s) s)"

lemma wp_signalAPIResult:
  assumes "mem_ok E"
    and "\<And>s'. sm_view s' = sm_view (s\<lparr>m_apiResultList := m_apiResultList s @ [r]\<rparr>) \<Longrightarrow> Q () s'"
  shows "wp (signalAPIResult E r) Q s"
  using assms unfolding signalAPIResult_def malloc_def ext_def mem_ok_def
  by (auto simp: wp_def sm_view_def when_do_def)

text \<open>Events that are answered at once with the returned code.\<close>

definition answered :: "qcamera_state \<Rightarrow> sm_msg \<Rightarrow> bool" where
  "answered st msg \<longleftrightarrow> msg \<noteq> SNAPSHOT_DONE \<and> (\<forall>rc. answers st msg rc = [(evt_of msg, rc)])"

text \<open>Events that nobody waits for.\<close>

definition silent :: "qcamera_state \<Rightarrow> sm_msg \<Rightarrow> bool" where
  "silent st msg \<longleftrightarrow> (\<forall>rc. answers st msg rc = [])"

lemma reply_post:
  assumes mem: "mem_ok E" and ans: "answered (m_state s) msg"
    and st: "m_state s' \<in> set (next_states (m_state s) msg rc)" and rest: "sm_rest s' = sm_rest s"
  shows "wp (reply E msg rc v \<bind> (\<lambda>_. ret rc)) (sm_post msg s) s'"
  unfolding reply_def wp_bind
proof (rule wp_signalAPIResult [OF mem])
  fix s'' :: hal assume "sm_view s'' = sm_view (s'\<lparr>m_apiResultList := m_apiResultList s' @
      [\<lparr>status = rc, request_api = evt_of msg, result_value = v\<rparr>]\<rparr>)"
  with ans st rest show "wp (ret rc) (sm_post msg s) s''"
    by (auto simp: sm_post_def wp_return sm_view_def sm_rest_def answered_def evt_answer_def)
qed

lemma handles_answer:
  assumes "mem_ok E" and "answered st msg" and "moves st m (next_states st msg)"
  shows "handles st msg (answer E msg m)"
  unfolding handles_def answer_def
proof (intro allI impI)
  fix s :: hal assume st: "m_state s = st"
  show "wp (m \<bind> (\<lambda>rc. reply E msg rc RESULT_TYPE_DEF \<bind> (\<lambda>_. ret rc))) (sm_post msg s) s"
    by (rule wp_seq [OF movesD [OF assms(3) st]], rule reply_post) (use assms st in auto)
qed

lemma handles_keeps_reply:
  assumes "mem_ok E" and "answered st msg" and "keeps sm_view m"
    and "\<And>rc. st \<in> set (next_states st msg rc)"
  shows "handles st msg (m \<bind> (\<lambda>a. reply E msg (c a) (v a) \<bind> (\<lambda>_. ret (c a))))"
  unfolding handles_def
proof (intro allI impI)
  fix s :: hal assume st: "m_state s = st"
  show "wp (m \<bind> (\<lambda>a. reply E msg (c a) (v a) \<bind> (\<lambda>_. ret (c a)))) (sm_post msg s) s"
    by (rule wp_keeps_seq [OF assms(3)], rule reply_post) (use assms st in \<open>auto simp: sm_view_split\<close>)
qed

lemma handles_reject:
  "mem_ok E \<Longrightarrow> answered st msg \<Longrightarrow> st \<in> set (next_states st msg INVALID_OPERATION) \<Longrightarrow>
   handles st msg (reject E msg)"
  unfolding reject_def by (rule handles_answer) (auto intro: moves_ret)

lemma handles_flag:
  assumes "mem_ok E" and "answered st msg" and "\<And>rc. st \<in> set (next_states st msg rc)"
  shows "handles st msg (answer_flag E msg enabled)"
  using handles_keeps_reply [OF assms(1,2) keeps_return [where x = "()"] assms(3),
    of "\<lambda>_. NO_ERROR" "\<lambda>_. RESULT_TYPE_ENABLE_FLAG enabled"]
  by (simp add: answer_flag_def)

lemma handles_keeps_bind:
  assumes "keeps sm_view m" and "\<And>a. handles st msg (k a)"
  shows "handles st msg (m \<bind> k)"
  unfolding handles_def
proof (intro allI impI)
  fix s :: hal assume st: "m_state s = st"
  show "wp (m \<bind> k) (sm_post msg s) s"
  proof (rule wp_keeps_seq [OF assms(1)])
    fix a and s' :: hal assume v: "sm_view s' = sm_view s"
    then have "sm_post msg s' = sm_post msg s"
      by (auto simp: sm_post_def sm_view_def fun_eq_iff)
    then show "wp (k a) (sm_post msg s) s'"
      using assms(2) [of a] st v by (auto simp: handles_def sm_view_def)
  qed
qed

lemma handles_params:
  "mem_ok E \<Longrightarrow> answered st msg \<Longrightarrow> (\<And>rc. st \<in> set (next_states st msg rc)) \<Longrightarrow>
   handles st msg (answer_params E msg)"
  unfolding answer_params_def by (rule handles_keeps_reply) (simp_all add: keeps_ops)

lemma handles_msgTypeEnabled:
  "mem_ok E \<Longrightarrow> answered st msg \<Longrightarrow> (\<And>rc. st \<in> set (next_states st msg rc)) \<Longrightarrow>
   handles st msg (answer_msgTypeEnabled E msg m)"
  unfolding answer_msgTypeEnabled_def
  by (rule handles_keeps_bind) (simp_all add: keeps_ops handles_flag)

lemma handles_face:
  assumes "mem_ok E" and "answered st msg" and "\<And>rc. st \<in> set (next_states st msg rc)"
  shows "handles st msg (answer_face E msg img config)"
  using handles_keeps_reply [OF assms(1,2) keeps_hwi5(20) assms(3),
    where c = fst and v = "\<lambda>p. RESULT_TYPE_HANDLE (snd p)"]
  by (simp add: answer_face_def case_prod_unfold)

lemma handles_silent:
  assumes "silent st msg" and "msg \<noteq> SNAPSHOT_DONE" and "moves st m (next_states st msg)"
  shows "handles st msg m"
  using assms unfolding handles_def moves_def silent_def
  by (auto simp: sm_post_def sm_rest_def evt_answer_def elim!: wp_mono)

lemma handles_evt:
  assumes "msg = SNAPSHOT_DONE" and "moves st m (next_states st msg)"
  shows "handles st msg (answer_evt msg m)"
  unfolding handles_def answer_evt_def
proof (intro allI impI)
  fix s :: hal assume st: "m_state s = st"
  show "wp (m \<bind> (\<lambda>rc. signalEvtResult \<lparr>status = rc, request_api = evt_of msg,
      result_value = RESULT_TYPE_DEF\<rparr> \<bind> (\<lambda>_. ret rc))) (sm_post msg s) s"
    by (rule wp_seq [OF movesD [OF assms(2) st]])
      (use assms st in \<open>auto simp: signalEvtResult_def wp_simps sm_post_def sm_rest_def
        evt_answer_def answers_def is_prep_done_def\<close>)
qed

section \<open>Operations that move the state, one by one\<close>

lemma keeps_prepare_and_start [keeps_ops]: "keeps sm_view (prepare_and_start E)"
  by (unfold prepare_and_start_def) (intro pres_intros keeps_ops sm_keeps)

lemma keeps_common [keeps_ops]:
  "keeps sm_view (stopped_setParams E ps)" "keeps sm_view (sm_sendCommand E cmd x y)"
  "keeps sm_view (commit_setParams E ps)" "keeps sm_view (recording_setParams E ps)"
  "keeps sm_view (pic_takePicture E)" "keeps sm_view (pic_stopCaptureChannel E)"
  "keeps sm_view (daemon_died E e)" "keeps sm_view zsl_or_longshot"
  "keeps sm_view (previewing_sendCommand E cmd x y)"
  by (unfold stopped_setParams_def sm_sendCommand_def commit_setParams_def recording_setParams_def
      pic_takePicture_def pic_stopCaptureChannel_def daemon_died_def zsl_or_longshot_def
      previewing_sendCommand_def)
    (cases e; simp?; intro pres_intros keeps_ops sm_keeps; simp add: sm_view_def)+

lemma keeps_internal_evt [keeps_ops]: "keeps sm_view (internal_evt E b e)"
  by (cases e; simp; (intro conjI impI)?; intro pres_intros keeps_ops)

lemma keeps_evtNotify [keeps_ops]:
  "keeps sm_view (pic_evtNotify E e)" "keeps sm_view (previewpic_evtNotify E e)"
  by (unfold pic_evtNotify_def previewpic_evtNotify_def; cases e; simp;
      intro pres_intros keeps_ops; simp add: sm_view_def)+

lemma moves_named:
  "moves QCAMERA_SM_STATE_PREVIEW_STOPPED (stopped_startPreview E) (next_stopped START_PREVIEW)"
  "moves QCAMERA_SM_STATE_PREVIEW_STOPPED (stopped_startNoDisplay E)
     (next_stopped START_NODISPLAY_PREVIEW)"
  "moves QCAMERA_SM_STATE_PREVIEW_READY (ready_setParams E ps) (next_ready (SET_PARAMS ps))"
  "moves QCAMERA_SM_STATE_PREVIEW_READY (ready_stopPreview E) (next_ready STOP_PREVIEW)"
  "moves QCAMERA_SM_STATE_PREVIEWING (previewing_setParams E ps) (next_previewing (SET_PARAMS ps))"
  "moves QCAMERA_SM_STATE_PREVIEWING (previewing_stopPreview E) (next_previewing STOP_PREVIEW)"
  "moves QCAMERA_SM_STATE_PREVIEWING (previewing_startRecording E) (next_previewing START_RECORDING)"
  "moves QCAMERA_SM_STATE_PREVIEWING (previewing_takePicture E) (next_previewing TAKE_PICTURE)"
  by (unfold stopped_startPreview_def stopped_startNoDisplay_def ready_setParams_def
      ready_stopPreview_def previewing_setParams_def previewing_stopPreview_def
      previewing_startRecording_def previewing_takePicture_def)
    (rule moves_assoc | rule moves_set | rule moves_when | rule moves_if | rule moves_case_prod | rule moves_ret
     | (rule moves_bind, (intro pres_intros keeps_ops sm_keeps)[1])
     | (rule moves_keeps, (intro pres_intros keeps_ops sm_keeps)[1])
     | (auto simp: next_stopped_def next_ready_def next_previewing_def Let_def)[1])+

lemma moves_named2:
  "moves QCAMERA_SM_STATE_PIC_TAKING (pic_stop E) (next_pic STOP_PREVIEW)"
  "moves QCAMERA_SM_STATE_PIC_TAKING (pic_stop E) (next_pic CANCEL_PICTURE)"
  "moves QCAMERA_SM_STATE_PIC_TAKING (pic_sendCommand E cmd x y) (next_pic (SEND_COMMAND cmd x y))"
  "moves QCAMERA_SM_STATE_PIC_TAKING (pic_snapshotDone E) (next_pic SNAPSHOT_DONE)"
  "moves QCAMERA_SM_STATE_RECORDING (recording_takePicture E) (next_recording TAKE_PICTURE)"
  "moves QCAMERA_SM_STATE_RECORDING (recording_stop E) (next_recording STOP_RECORDING)"
  "moves QCAMERA_SM_STATE_RECORDING (recording_stopPreview E) (next_recording STOP_PREVIEW)"
  "moves QCAMERA_SM_STATE_VIDEO_PIC_TAKING (videopic_cancel E) (next_videopic CANCEL_PICTURE)"
  "moves QCAMERA_SM_STATE_VIDEO_PIC_TAKING (videopic_cancel E) (next_videopic SNAPSHOT_DONE)"
  "moves QCAMERA_SM_STATE_VIDEO_PIC_TAKING (videopic_stopRecording E)
     (next_videopic STOP_RECORDING)"
  "moves QCAMERA_SM_STATE_VIDEO_PIC_TAKING (videopic_stopPreview E) (next_videopic STOP_PREVIEW)"
  by (unfold pic_stop_def pic_sendCommand_def pic_snapshotDone_def recording_takePicture_def
      recording_stop_def recording_stopPreview_def videopic_cancel_def videopic_stopRecording_def
      videopic_stopPreview_def)
    (rule moves_assoc | rule moves_set | rule moves_when | rule moves_if | rule moves_case_prod
     | rule moves_ret
     | (rule moves_bind, (intro pres_intros keeps_ops sm_keeps)[1])
     | (rule moves_keeps, (intro pres_intros keeps_ops sm_keeps)[1])
     | (auto simp: next_pic_def next_recording_def next_videopic_def Let_def)[1])+

lemma moves_named3:
  "moves QCAMERA_SM_STATE_PREVIEW_PIC_TAKING (previewpic_setParams E ps)
     (next_previewpic (SET_PARAMS ps))"
  "moves QCAMERA_SM_STATE_PREVIEW_PIC_TAKING (pic_sendCommand E cmd x y)
     (next_previewpic (SEND_COMMAND cmd x y))"
  "moves QCAMERA_SM_STATE_PREVIEW_PIC_TAKING (previewpic_cancel E) (next_previewpic CANCEL_PICTURE)"
  "moves QCAMERA_SM_STATE_PREVIEW_PIC_TAKING (previewpic_cancel E) (next_previewpic SNAPSHOT_DONE)"
  "moves QCAMERA_SM_STATE_PREVIEW_PIC_TAKING (previewpic_stopPreview E)
     (next_previewpic STOP_PREVIEW)"
  "moves QCAMERA_SM_STATE_PREVIEW_PIC_TAKING (previewpic_startRecording E)
     (next_previewpic START_RECORDING)"
  by (unfold previewpic_setParams_def pic_sendCommand_def previewpic_cancel_def
      previewpic_stopPreview_def previewpic_startRecording_def)
    (rule moves_assoc | rule moves_set | rule moves_when | rule moves_if | rule moves_case_prod
     | rule moves_ret
     | (rule moves_bind, (intro pres_intros keeps_ops sm_keeps)[1])
     | (rule moves_keeps, (intro pres_intros keeps_ops sm_keeps)[1])
     | (auto simp: next_previewpic_def Let_def)[1])+

lemma moves_ready_setPreviewWindow:
  "moves QCAMERA_SM_STATE_PREVIEW_READY (ready_setPreviewWindow E w)
     (next_ready (SET_PREVIEW_WINDOW w))"
proof -
  have rest: "moves QCAMERA_SM_STATE_PREVIEW_READY
      (if w \<noteq> None then startPreview E \<bind> (\<lambda>rc. if rc \<noteq> NO_ERROR
         then unpreparePreview E \<bind> (\<lambda>_. set_state QCAMERA_SM_STATE_PREVIEW_STOPPED \<bind> (\<lambda>_. ret rc))
         else set_state QCAMERA_SM_STATE_PREVIEWING \<bind> (\<lambda>_. ret rc))
       else ret NO_ERROR) (next_ready (SET_PREVIEW_WINDOW w))"
    by (rule moves_set | rule moves_if | rule moves_ret
        | (rule moves_bind, (intro pres_intros keeps_ops sm_keeps)[1])
        | (auto simp: next_ready_def Let_def)[1])+
  show ?thesis
    unfolding moves_def ready_setPreviewWindow_def setPreviewWindow_def wp_bind wp_modify wp_gets
      wp_return
    using movesD [OF rest, of "_\<lparr>mPreviewWindow := w\<rparr>"] by (simp add: sm_rest_def)
qed

lemma handles_prepareSnapshot:
  assumes "mem_ok E"
  shows "handles QCAMERA_SM_STATE_PREVIEWING PREPARE_SNAPSHOT
     (previewing_prepareSnapshot E PREPARE_SNAPSHOT)"
  unfolding handles_def previewing_prepareSnapshot_def
proof (intro allI impI)
  fix s :: hal assume st: "m_state s = QCAMERA_SM_STATE_PREVIEWING"
  show "wp (prepareHardwareForSnapshot E \<bind> (\<lambda>rc. if rc = NO_ERROR
      then set_state QCAMERA_SM_STATE_PREPARE_SNAPSHOT \<bind> (\<lambda>_. ret rc)
      else reply E PREPARE_SNAPSHOT rc RESULT_TYPE_DEF \<bind> (\<lambda>_. ret rc)))
      (sm_post PREPARE_SNAPSHOT s) s"
    by (rule wp_keeps_seq [OF keeps_hwi5(12)])
      (use assms st in \<open>auto simp: set_state_def wp_simps(2,3,4) wp_return sm_post_def sm_view_def
        next_previewing_def answers_def deferred_def evt_answer_def reply_def wp_bind wp_modify
        unanswered_def intro!: wp_signalAPIResult\<close>)
qed

lemma handles_prepare_internal:
  assumes "mem_ok E"
  shows "handles QCAMERA_SM_STATE_PREPARE_SNAPSHOT (EVT_INTERNAL e) (prepare_internal_evt E e)"
proof (cases "is_prep_done (EVT_INTERNAL e)")
  case True
  then obtain p where e: "e = QCAMERA_INTERNAL_EVT_PREP_SNAPSHOT_DONE p"
    by (auto simp: is_prep_done_def split: qcamera_internal_evt.splits)
  show ?thesis
    using assms unfolding handles_def prepare_internal_evt_def e
    by (auto simp: set_state_def wp_bind wp_modify wp_return processPrepSnapshotDoneEvent_def
        reply_def sm_post_def sm_view_def is_prep_done_def next_prepare_def answers_def
        evt_answer_def intro!: wp_signalAPIResult)
next
  case False
  then have "prepare_internal_evt E e = internal_evt E True e"
    by (auto simp: prepare_internal_evt_def is_prep_done_def split: qcamera_internal_evt.splits)
  with False show ?thesis
    by (auto intro!: handles_silent moves_keeps keeps_ops simp: silent_def answers_def next_prepare_def)
qed

section \<open>Every handler implements the contract\<close>

lemma next_states_eta [simp]:
  "next_states QCAMERA_SM_STATE_PREVIEW_STOPPED msg = next_stopped msg"
  "next_states QCAMERA_SM_STATE_PREVIEW_READY msg = next_ready msg"
  "next_states QCAMERA_SM_STATE_PREVIEWING msg = next_previewing msg"
  "next_states QCAMERA_SM_STATE_PREPARE_SNAPSHOT msg = next_prepare msg"
  "next_states QCAMERA_SM_STATE_PIC_TAKING msg = next_pic msg"
  "next_states QCAMERA_SM_STATE_RECORDING msg = next_recording msg"
  "next_states QCAMERA_SM_STATE_VIDEO_PIC_TAKING msg = next_videopic msg"
  "next_states QCAMERA_SM_STATE_PREVIEW_PIC_TAKING msg = next_previewpic msg"
  by (simp_all add: fun_eq_iff)

lemmas next_defs = next_stopped_def next_ready_def next_previewing_def next_prepare_def
  next_pic_def next_recording_def next_videopic_def next_previewpic_def is_prep_done_def Let_def

lemmas answer_defs = answered_def silent_def answers_def unanswered_def deferred_def

lemmas endings = handles_reject handles_flag handles_params handles_msgTypeEnabled handles_face
  handles_prepareSnapshot handles_prepare_internal

lemma handles_answer_keeps:
  "mem_ok E \<Longrightarrow> answered st msg \<Longrightarrow> keeps sm_view m \<Longrightarrow> (\<And>rc. st \<in> set (next_states st msg rc)) \<Longrightarrow>
   handles st msg (answer E msg m)"
  by (intro handles_answer moves_keeps)

lemma handles_silent_keeps:
  "silent st msg \<Longrightarrow> msg \<noteq> SNAPSHOT_DONE \<Longrightarrow> keeps sm_view m \<Longrightarrow>
   (\<And>rc. st \<in> set (next_states st msg rc)) \<Longrightarrow> handles st msg m"
  by (intro handles_silent moves_keeps)

lemma handles_evt_keeps:
  "(\<And>rc. st \<in> set (next_states st SNAPSHOT_DONE rc)) \<Longrightarrow> keeps sm_view m \<Longrightarrow>
   handles st SNAPSHOT_DONE (answer_evt SNAPSHOT_DONE m)"
  by (intro handles_evt moves_keeps) simp_all

lemma handles_close:
  assumes "mem_ok E" and "answered st msg" and "st \<in> set (next_states st msg INVALID_OPERATION)"
  shows "handles st msg (closeNativeHandle E p \<bind> (\<lambda>_. reject E msg))"
  by (intro handles_keeps_bind keeps_ops handles_reject assms)

lemmas contract_simps = handles_answer_keeps handles_silent_keeps handles_evt_keeps handles_close
  endings keeps_ops keeps_return answer_defs next_defs

lemmas moves_all = moves_named moves_named2 moves_named3 moves_ready_setPreviewWindow

lemmas handles_moves = moves_all [folded next_states_eta, THEN handles_answer [rotated 2]]
  moves_all [folded next_states_eta, THEN handles_evt [rotated]]

lemma handles_stopped:
  "mem_ok E \<Longrightarrow> handles QCAMERA_SM_STATE_PREVIEW_STOPPED msg (procEvtPreviewStoppedState E msg)"
  by (cases msg; simp add: procEvtPreviewStoppedState_def stopped_preview_def stopped_rest_def
      handles_moves contract_simps del: next_states_eta)

lemma handles_ready:
  "mem_ok E \<Longrightarrow> handles QCAMERA_SM_STATE_PREVIEW_READY msg (procEvtPreviewReadyState E msg)"
  by (cases msg; simp add: procEvtPreviewReadyState_def ready_preview_def ready_rest_def
      handles_moves contract_simps del: next_states_eta)

lemma handles_previewing:
  "mem_ok E \<Longrightarrow> handles QCAMERA_SM_STATE_PREVIEWING msg (procEvtPreviewingState E msg)"
  by (cases msg; simp add: procEvtPreviewingState_def previewing_actions_def previewing_rest_def
      handles_moves contract_simps del: next_states_eta)

lemma handles_prepare:
  "mem_ok E \<Longrightarrow> handles QCAMERA_SM_STATE_PREPARE_SNAPSHOT msg (procEvtPrepareSnapshotState E msg)"
  by (cases msg; simp add: procEvtPrepareSnapshotState_def
      handles_moves contract_simps del: next_states_eta)

lemma handles_pic:
  "mem_ok E \<Longrightarrow> handles QCAMERA_SM_STATE_PIC_TAKING msg (procEvtPicTakingState E msg)"
  by (cases msg; simp add: procEvtPicTakingState_def pic_actions_def pic_rest_def
      handles_moves contract_simps del: next_states_eta)

lemma handles_recording:
  "mem_ok E \<Longrightarrow> handles QCAMERA_SM_STATE_RECORDING msg (procEvtRecordingState E msg)"
  by (cases msg; simp add: procEvtRecordingState_def recording_actions_def recording_rest_def
      handles_moves contract_simps del: next_states_eta)

lemma handles_videopic:
  "mem_ok E \<Longrightarrow> handles QCAMERA_SM_STATE_VIDEO_PIC_TAKING msg (procEvtVideoPicTakingState E msg)"
  by (cases msg; simp add: procEvtVideoPicTakingState_def videopic_actions_def videopic_rest_def
      handles_moves contract_simps del: next_states_eta)

lemma handles_previewpic:
  "mem_ok E \<Longrightarrow>
   handles QCAMERA_SM_STATE_PREVIEW_PIC_TAKING msg (procEvtPreviewPicTakingState E msg)"
  by (cases msg; simp add: procEvtPreviewPicTakingState_def previewpic_actions_def
      previewpic_rest_def handles_moves contract_simps del: next_states_eta)

lemma stateMachine_contract:
  assumes "mem_ok E"
  shows "wp (stateMachine E msg) (sm_post msg s) s"
  using assms handles_stopped handles_ready handles_previewing handles_prepare handles_pic
    handles_recording handles_videopic handles_previewpic
  unfolding stateMachine_def wp_bind wp_gets
  by (cases "m_state s") (auto simp: handles_def)

section \<open>Unfolding the handlers\<close>

lemmas handler_defs = procEvtPreviewStoppedState_def stopped_preview_def stopped_rest_def
  procEvtPreviewReadyState_def ready_preview_def ready_rest_def
  procEvtPreviewingState_def previewing_actions_def previewing_rest_def
  procEvtPrepareSnapshotState_def procEvtPicTakingState_def pic_actions_def pic_rest_def
  procEvtRecordingState_def recording_actions_def recording_rest_def
  procEvtVideoPicTakingState_def videopic_actions_def videopic_rest_def
  procEvtPreviewPicTakingState_def previewpic_actions_def previewpic_rest_def

lemma run_stateMachine:
  "run_state (stateMachine E msg) s = run_state (case m_state s of
       QCAMERA_SM_STATE_PREVIEW_STOPPED \<Rightarrow> procEvtPreviewStoppedState E msg
     | QCAMERA_SM_STATE_PREVIEW_READY \<Rightarrow> procEvtPreviewReadyState E msg
     | QCAMERA_SM_STATE_PREVIEWING \<Rightarrow> procEvtPreviewingState E msg
     | QCAMERA_SM_STATE_PREPARE_SNAPSHOT \<Rightarrow> procEvtPrepareSnapshotState E msg
     | QCAMERA_SM_STATE_PIC_TAKING \<Rightarrow> procEvtPicTakingState E msg
     | QCAMERA_SM_STATE_RECORDING \<Rightarrow> procEvtRecordingState E msg
     | QCAMERA_SM_STATE_VIDEO_PIC_TAKING \<Rightarrow> procEvtVideoPicTakingState E msg
     | QCAMERA_SM_STATE_PREVIEW_PIC_TAKING \<Rightarrow> procEvtPreviewPicTakingState E msg) s"
  by (simp add: stateMachine_def)

end
