(* ===== verification/SM_Thread.thy ===== *)
theory SM_Thread
  imports SM_Contract
begin

text \<open>
  The state machine's thread (\<open>smEvtProcRoutine\<close>, \<open>releaseThread\<close> in \<open>QCameraStateMachine.cpp\<close>) and
  the waiting side of an API call (\<open>waitAPIResult\<close> in \<open>QCamera2HWI.cpp\<close>).
\<close>

section \<open>The thread\<close>

text \<open>The API queue comes first; backend events are looked at only when it is empty.\<close>

definition dequeue_cmd :: "sm_cmd option hal_op" where
  "dequeue_cmd = State (\<lambda>s.
     case api_queue s of
       c # q \<Rightarrow> (Some c, s\<lparr>api_queue := q\<rparr>)
     | [] \<Rightarrow>
         (case evt_queue s of
            c # q \<Rightarrow> (Some c, s\<lparr>evt_queue := q\<rparr>)
          | [] \<Rightarrow> (None, s)))"

text \<open>One round of the loop, after the semaphore has been taken; the result is \<open>running\<close>.\<close>

definition sm_iteration :: "env \<Rightarrow> bool hal_op" where
  "sm_iteration E = do {
     modify (\<lambda>s. s\<lparr>cmd_sem := cmd_sem s - 1\<rparr>);
     node \<leftarrow> dequeue_cmd;
     case node of
       None \<Rightarrow> ret True
     | Some cmd \<Rightarrow>
         (case cmd of
            QCAMERA_SM_CMD_TYPE_API msg \<Rightarrow> do { _ \<leftarrow> stateMachine E msg; ret True }
          | QCAMERA_SM_CMD_TYPE_EVT msg \<Rightarrow> do { _ \<leftarrow> stateMachine E msg; ret True }
          | QCAMERA_SM_CMD_TYPE_EXIT \<Rightarrow> ret False)
   }"

text \<open>
  The loop: \<^term>\<open>Some (True, s)\<close> when the thread has exited, \<^term>\<open>Some (False, s)\<close> when it waits on
  the semaphore, \<^term>\<open>None\<close> when it never does either.
\<close>

partial_function (option) smEvtProcRoutine :: "env \<Rightarrow> hal \<Rightarrow> (bool \<times> hal) option" where
  "smEvtProcRoutine E s =
     (if cmd_sem s \<le> 0 then Some (False, s)
      else case run_state (sm_iteration E) s of
        (running, s') \<Rightarrow> if running then smEvtProcRoutine E s' else Some (True, s'))"

text \<open>Posting the exit command; \<open>pthread_join\<close> then waits for the thread.\<close>

definition releaseThread :: "env \<Rightarrow> unit hal_op" where
  "releaseThread E = do {
     pid \<leftarrow> gets cmd_pid;
     when_do pid (do {
       node \<leftarrow> malloc E;
       when_do node (do {
         enqueued \<leftarrow> malloc E;
         when_do enqueued
           (modify (\<lambda>s. s\<lparr>api_queue := api_queue s @ [QCAMERA_SM_CMD_TYPE_EXIT]\<rparr>));
         modify (\<lambda>s. s\<lparr>cmd_sem := cmd_sem s + 1\<rparr>);
         _ \<leftarrow> ext E X_pthread_join;
         ret ()
       });
       modify (\<lambda>s. s\<lparr>cmd_pid := False\<rparr>)
     })
   }"

section \<open>Waiting for a result\<close>

text \<open>The first result that answers the event is taken out of the list.\<close>

fun take_result :: "qcamera_sm_evt \<Rightarrow> qcamera_api_result list \<Rightarrow>
    (qcamera_api_result \<times> qcamera_api_result list) option" where
  "take_result e [] = None"
| "take_result e (r # rs) =
     (if request_api r = e then Some (r, rs)
      else case take_result e rs of None \<Rightarrow> None | Some (r', rs') \<Rightarrow> Some (r', r # rs'))"

text \<open>
  The waiting caller looks at the list after each command that the thread has processed.
  \<^term>\<open>None\<close>: the call does not return, because the thread has exited or waits on the semaphore.
\<close>

partial_function (option) waitAPIResult ::
  "env \<Rightarrow> qcamera_sm_evt \<Rightarrow> hal \<Rightarrow> (qcamera_api_result \<times> hal) option" where
  "waitAPIResult E api_evt s =
     (if cmd_sem s \<le> 0 then None
      else case run_state (sm_iteration E) s of
        (running, s') \<Rightarrow>
          if \<not> running then None
          else case take_result api_evt (m_apiResultList s') of
            None \<Rightarrow> waitAPIResult E api_evt s'
          | Some (r, rs) \<Rightarrow> Some (r, s'\<lparr>m_apiResultList := rs\<rparr>))"

section \<open>The queue of commands\<close>

text \<open>The semaphore counts the queued commands, and backend events are never API events.\<close>

definition balanced :: "hal \<Rightarrow> bool" where
  "balanced s \<longleftrightarrow> cmd_sem s = int (length (api_queue s)) + int (length (evt_queue s))"

lemma sm_postD:
  assumes "sm_post msg s rc s'"
  shows "api_queue s' = api_queue s"
    "cmd_sem s' - int (length (evt_queue s')) = cmd_sem s - int (length (evt_queue s))"
    "other_evts s' = other_evts s" "m_smThreadActive s' = m_smThreadActive s"
    "m_state s' \<in> set (next_states (m_state s) msg rc)"
  using assms by (auto simp: sm_post_def)

lemma stateMachine_post:
  "mem_ok E \<Longrightarrow> sm_post msg s (fst (run_state (stateMachine E msg) s))
     (snd (run_state (stateMachine E msg) s))"
  using stateMachine_contract [of E msg s] by (simp add: wp_run)

lemma balanced_stateMachine:
  assumes "mem_ok E" and "balanced s"
  shows "balanced (snd (run_state (stateMachine E msg) s))"
  using sm_postD(1,2) [OF stateMachine_post [OF assms(1)], of msg s] assms(2)
  by (auto simp: balanced_def)

definition pop_cmd :: "hal \<Rightarrow> hal" where
  "pop_cmd s = (case api_queue s of
     c # q \<Rightarrow> s\<lparr>cmd_sem := cmd_sem s - 1, api_queue := q\<rparr>
   | [] \<Rightarrow> s\<lparr>cmd_sem := cmd_sem s - 1, evt_queue := tl (evt_queue s)\<rparr>)"

definition next_cmd :: "hal \<Rightarrow> sm_cmd option" where
  "next_cmd s = (case api_queue s of
     c # q \<Rightarrow> Some c
   | [] \<Rightarrow> (case evt_queue s of c # q \<Rightarrow> Some c | [] \<Rightarrow> None))"

fun cmd_msg :: "sm_cmd \<Rightarrow> sm_msg option" where
  "cmd_msg (QCAMERA_SM_CMD_TYPE_API msg) = Some msg"
| "cmd_msg (QCAMERA_SM_CMD_TYPE_EVT msg) = Some msg"
| "cmd_msg QCAMERA_SM_CMD_TYPE_EXIT = None"

lemma sm_iteration_eq:
  "run_state (sm_iteration E) s =
     (case next_cmd s of
        None \<Rightarrow> (True, s\<lparr>cmd_sem := cmd_sem s - 1\<rparr>)
      | Some cmd \<Rightarrow>
          (case cmd_msg cmd of
             None \<Rightarrow> (False, pop_cmd s)
           | Some msg \<Rightarrow> (True, snd (run_state (stateMachine E msg) (pop_cmd s)))))"
  by (auto simp: sm_iteration_def dequeue_cmd_def next_cmd_def pop_cmd_def
      split: list.splits sm_cmd.splits prod.splits)

lemma balanced_pop: "balanced s \<Longrightarrow> next_cmd s \<noteq> None \<Longrightarrow> balanced (pop_cmd s)"
  by (auto simp: balanced_def pop_cmd_def next_cmd_def split: list.splits)

lemma balanced_next_cmd: "balanced s \<Longrightarrow> 0 < cmd_sem s \<Longrightarrow> next_cmd s \<noteq> None"
  by (auto simp: balanced_def next_cmd_def split: list.splits)

lemma balanced_iteration:
  assumes "mem_ok E" and "balanced s" and "0 < cmd_sem s"
  shows "balanced (snd (run_state (sm_iteration E) s))"
  using assms balanced_next_cmd [OF assms(2,3)]
  by (auto simp: sm_iteration_eq balanced_pop balanced_stateMachine split: option.splits)

section \<open>What the loop does\<close>

text \<open>Execute the queued API commands in order, taking each from the queue first.\<close>

fun exec_api :: "env \<Rightarrow> sm_msg list \<Rightarrow> hal \<Rightarrow> hal" where
  "exec_api E [] s = s"
| "exec_api E (m # ms) s = exec_api E ms (snd (run_state (stateMachine E m) (pop_cmd s)))"

lemma api_queue_stateMachine:
  "mem_ok E \<Longrightarrow> api_queue (snd (run_state (stateMachine E msg) s)) = api_queue s"
  using sm_postD(1) [OF stateMachine_post] by simp

lemma pop_api [simp]: "api_queue s = c # q \<Longrightarrow> api_queue (pop_cmd s) = q"
  by (simp add: pop_cmd_def)

lemma balanced_pos: "balanced s \<Longrightarrow> api_queue s \<noteq> [] \<Longrightarrow> 0 < cmd_sem s"
  by (auto simp: balanced_def neq_Nil_conv)

lemma next_cmd_api [simp]: "api_queue s = c # q \<Longrightarrow> next_cmd s = Some c"
  by (simp add: next_cmd_def)

lemma smEvtProcRoutine_exec:
  assumes "mem_ok E"
  shows "balanced s \<Longrightarrow> api_queue s = map QCAMERA_SM_CMD_TYPE_API ms @ QCAMERA_SM_CMD_TYPE_EXIT # q \<Longrightarrow>
     smEvtProcRoutine E s = Some (True, pop_cmd (exec_api E ms s))"
proof (induction ms arbitrary: s)
  case Nil
  then have "0 < cmd_sem s" by (intro balanced_pos) simp_all
  with Nil show ?case
    by (subst smEvtProcRoutine.simps) (simp add: sm_iteration_eq)
next
  case (Cons m ms)
  let ?s = "snd (run_state (stateMachine E m) (pop_cmd s))"
  from Cons.prems have pos: "0 < cmd_sem s" by (intro balanced_pos) simp_all
  from Cons.prems have "balanced ?s"
    by (intro balanced_stateMachine assms balanced_pop) simp_all
  moreover have "api_queue ?s = map QCAMERA_SM_CMD_TYPE_API ms @ QCAMERA_SM_CMD_TYPE_EXIT # q"
    using Cons.prems(2) by (simp add: api_queue_stateMachine [OF assms])
  ultimately have "smEvtProcRoutine E ?s = Some (True, pop_cmd (exec_api E ms ?s))"
    by (rule Cons.IH)
  with pos Cons.prems(2) show ?case
    by (subst smEvtProcRoutine.simps) (simp add: sm_iteration_eq)
qed

text \<open>An invariant of one round is an invariant of the loop.\<close>

lemma smEvtProcRoutine_inv:
  assumes "\<And>s. P s \<Longrightarrow> 0 < cmd_sem s \<Longrightarrow> P (snd (run_state (sm_iteration E) s))"
    and "smEvtProcRoutine E s = Some (b, s')" and "P s"
  shows "P s' \<and> (\<not> b \<longrightarrow> cmd_sem s' \<le> 0)"
proof -
  let ?Q = "\<lambda>E' s y. E' = E \<longrightarrow> P s \<longrightarrow> P (snd y) \<and> (\<not> fst y \<longrightarrow> cmd_sem (snd y) \<le> 0)"
  have "?Q E s (b, s')"
  proof (rule smEvtProcRoutine.raw_induct [OF _ assms(2), where P = ?Q])
    fix sm E' s y
    assume IH: "\<And>E' s y. sm E' s = Some y \<Longrightarrow> ?Q E' s y"
      and step: "(if cmd_sem s \<le> 0 then Some (False, s)
        else case run_state (sm_iteration E') s of
          (running, s') \<Rightarrow> if running then sm E' s' else Some (True, s')) = Some y"
    obtain r s1 where it: "run_state (sm_iteration E') s = (r, s1)" by fastforce
    show "?Q E' s y"
      using step it assms(1) [of s] IH [of E' s1 y] by (auto split: if_splits)
  qed
  with assms(3) show ?thesis by simp
qed

lemma smEvtProcRoutine_blocked:
  assumes "mem_ok E" and "balanced s" and "smEvtProcRoutine E s = Some (False, s')"
  shows "api_queue s' = [] \<and> evt_queue s' = [] \<and> cmd_sem s' = 0"
proof -
  from smEvtProcRoutine_inv [of balanced, OF balanced_iteration [OF assms(1)] assms(3,2)]
  have b: "balanced s'" and "cmd_sem s' \<le> 0" by simp_all
  then have "length (api_queue s') = 0 \<and> length (evt_queue s') = 0"
    unfolding balanced_def by linarith
  with b show ?thesis by (simp add: balanced_def)
qed


section \<open>Stopping the thread\<close>

lemma run_releaseThread:
  assumes "mem_ok E" and "cmd_pid s"
  shows "run_state (releaseThread E) s = ((), s\<lparr>
     trace := X_pthread_join # X_malloc # X_malloc # trace s,
     api_queue := api_queue s @ [QCAMERA_SM_CMD_TYPE_EXIT], cmd_sem := cmd_sem s + 1,
     cmd_pid := False\<rparr>)"
  using assms by (simp add: releaseThread_def malloc_def ext_def mem_ok_def)

lemma releaseThread_exits:
  assumes "mem_ok E" and "balanced s" and "cmd_pid s"
    and "api_queue s = map QCAMERA_SM_CMD_TYPE_API ms"
    and "s1 = snd (run_state (releaseThread E) s)"
  shows "\<not> cmd_pid s1 \<and> smEvtProcRoutine E s1 = Some (True, pop_cmd (exec_api E ms s1))"
proof -
  have "balanced s1" "api_queue s1 = map QCAMERA_SM_CMD_TYPE_API ms @ QCAMERA_SM_CMD_TYPE_EXIT # []"
    using assms by (auto simp: run_releaseThread balanced_def)
  then show ?thesis
    using smEvtProcRoutine_exec [OF assms(1)] assms(5)
    by (simp add: run_releaseThread [OF assms(1,3)])
qed

end
