(* ===== verification/HWI_Api.thy ===== *)
theory HWI_Api
  imports SM_Thread
begin

text \<open>
  The camera device's entry points (the static functions of \<open>QCamera2HardwareInterface\<close> in
  \<open>QCamera2HWI.cpp\<close>), the callbacks the lower layers enter the HAL by, and the thread that takes
  pictures for the backend. A call runs on its caller's thread; while the caller waits, the state
  machine's thread works, so the value of a call is \<^term>\<open>None\<close> exactly when it is still waiting
  after every queued command has been handled.
\<close>

type_synonym 'a api = "hal \<Rightarrow> ('a \<times> hal) option"

section \<open>Calling the state machine\<close>

text \<open>Post the event; when that succeeds, wait for its result.\<close>

definition call :: "env \<Rightarrow> sm_msg \<Rightarrow> (qcamera_api_result \<Rightarrow> 'a) \<Rightarrow> (int \<Rightarrow> 'a) \<Rightarrow> 'a api" where
  "call E msg ok err s =
     (case run_state (processAPI E msg) s of
        (rc, s1) \<Rightarrow>
          if rc = NO_ERROR then
            (case waitAPIResult E (evt_of msg) s1 of
               None \<Rightarrow> None
             | Some (apiResult, s2) \<Rightarrow> Some (ok apiResult, s2))
          else Some (err rc, s1))"

definition call_status :: "env \<Rightarrow> sm_msg \<Rightarrow> int api" where
  "call_status E msg = call E msg status (\<lambda>rc. rc)"

definition call_void :: "env \<Rightarrow> sm_msg \<Rightarrow> unit api" where
  "call_void E msg = call E msg (\<lambda>_. ()) (\<lambda>_. ())"

definition call_enabled :: "env \<Rightarrow> sm_msg \<Rightarrow> int api" where
  "call_enabled E msg = call E msg (\<lambda>r. enabled_of (result_value r)) (\<lambda>rc. rc)"

definition call_handle :: "env \<Rightarrow> sm_msg \<Rightarrow> int api" where
  "call_handle E msg = call E msg (\<lambda>r. handle_of (result_value r)) (\<lambda>rc. rc)"

section \<open>The entry points\<close>

text \<open>\<open>hw\<close> is whether the device's private pointer is non-\<open>NULL\<close>.\<close>

definition set_preview_window :: "env \<Rightarrow> bool \<Rightarrow> ptr \<Rightarrow> int api" where
  "set_preview_window E hw window s =
     (if \<not> hw then Some (BAD_VALUE, s) else call_status E (SET_PREVIEW_WINDOW window) s)"

definition set_CallBacks :: "env \<Rightarrow> bool \<Rightarrow> qcamera_sm_evt_setcb_payload \<Rightarrow> unit api" where
  "set_CallBacks E hw payload s =
     (if \<not> hw then Some ((), s) else call_void E (SET_CALLBACKS payload) s)"

definition enable_msg_type :: "env \<Rightarrow> bool \<Rightarrow> 32 word \<Rightarrow> unit api" where
  "enable_msg_type E hw msg_type s =
     (if \<not> hw then Some ((), s) else call_void E (ENABLE_MSG_TYPE msg_type) s)"

definition disable_msg_type :: "env \<Rightarrow> bool \<Rightarrow> 32 word \<Rightarrow> unit api" where
  "disable_msg_type E hw msg_type s =
     (if \<not> hw then Some ((), s) else call_void E (DISABLE_MSG_TYPE msg_type) s)"

definition msg_type_enabled :: "env \<Rightarrow> bool \<Rightarrow> 32 word \<Rightarrow> int api" where
  "msg_type_enabled E hw msg_type s =
     (if \<not> hw then Some (BAD_VALUE, s) else call_enabled E (MSG_TYPE_ENABLED msg_type) s)"

definition start_preview :: "env \<Rightarrow> bool \<Rightarrow> int api" where
  "start_preview E hw s =
     (if \<not> hw then Some (BAD_VALUE, s)
      else let evt = (if isNoDisplayMode (mParameters s) then START_NODISPLAY_PREVIEW
                      else START_PREVIEW)
        in case call_status E evt s of
             None \<Rightarrow> None
           | Some (rc, s') \<Rightarrow> Some (rc, s'\<lparr>m_bPreviewStarted := True\<rparr>))"

definition stop_preview :: "env \<Rightarrow> bool \<Rightarrow> unit api" where
  "stop_preview E hw s = (if \<not> hw then Some ((), s) else call_void E STOP_PREVIEW s)"

definition preview_enabled :: "env \<Rightarrow> bool \<Rightarrow> int api" where
  "preview_enabled E hw s =
     (if \<not> hw then Some (BAD_VALUE, s) else call_enabled E PREVIEW_ENABLED s)"

definition store_meta_data_in_buffers :: "env \<Rightarrow> bool \<Rightarrow> int \<Rightarrow> int api" where
  "store_meta_data_in_buffers E hw enable s =
     (if \<not> hw then Some (BAD_VALUE, s) else call_status E (STORE_METADATA_IN_BUFS enable) s)"

definition start_recording :: "env \<Rightarrow> bool \<Rightarrow> int api" where
  "start_recording E hw s =
     (if \<not> hw then Some (BAD_VALUE, s)
      else case call_status E START_RECORDING s of
             None \<Rightarrow> None
           | Some (rc, s') \<Rightarrow> Some (rc, s'\<lparr>m_bRecordStarted := True\<rparr>))"

definition stop_recording :: "env \<Rightarrow> bool \<Rightarrow> unit api" where
  "stop_recording E hw s = (if \<not> hw then Some ((), s) else call_void E STOP_RECORDING s)"

definition recording_enabled :: "env \<Rightarrow> bool \<Rightarrow> int api" where
  "recording_enabled E hw s =
     (if \<not> hw then Some (BAD_VALUE, s) else call_enabled E RECORDING_ENABLED s)"

text \<open>
  The native handle of a frame with metadata is closed before the frame is returned; a frame whose
  handle cannot be closed is not returned.
\<close>

definition close_video_handle :: "env \<Rightarrow> ptr \<Rightarrow> int hal_op" where
  "close_video_handle E opaque = do {
     mem \<leftarrow> gets mVideoMem;
     meta \<leftarrow> gets mStoreMetaDataInFrame;
     if mem \<noteq> None \<and> meta > 0 then ext E (X_closeNativeHandle opaque) else ret NO_ERROR
   }"

definition release_recording_frame :: "env \<Rightarrow> bool \<Rightarrow> ptr \<Rightarrow> unit api" where
  "release_recording_frame E hw opaque s =
     (if \<not> hw \<or> opaque = None then Some ((), s)
      else case run_state (close_video_handle E opaque) s of
        (rc, s') \<Rightarrow>
          if rc \<noteq> NO_ERROR then Some ((), s')
          else call_void E (RELEASE_RECORIDNG_FRAME opaque) s')"

definition auto_focus :: "env \<Rightarrow> bool \<Rightarrow> int api" where
  "auto_focus E hw s = (if \<not> hw then Some (BAD_VALUE, s) else call_status E START_AUTO_FOCUS s)"

definition cancel_auto_focus :: "env \<Rightarrow> bool \<Rightarrow> int api" where
  "cancel_auto_focus E hw s =
     (if \<not> hw then Some (BAD_VALUE, s) else call_status E STOP_AUTO_FOCUS s)"

text \<open>The hardware is prepared first when the flash is needed; the picture is taken regardless.\<close>

definition take_picture :: "env \<Rightarrow> bool \<Rightarrow> int api" where
  "take_picture E hw s =
     (if \<not> hw then Some (BAD_VALUE, s)
      else if mFlashNeeded s \<or> isChromaFlashEnabled (mParameters s) then
        (case call_status E PREPARE_SNAPSHOT s of
           None \<Rightarrow> None
         | Some (_, s') \<Rightarrow> call_status E TAKE_PICTURE (s'\<lparr>mPrepSnapRun := True\<rparr>))
      else call_status E TAKE_PICTURE s)"

definition cancel_picture :: "env \<Rightarrow> bool \<Rightarrow> int api" where
  "cancel_picture E hw s = (if \<not> hw then Some (BAD_VALUE, s) else call_status E CANCEL_PICTURE s)"

definition set_parameters :: "env \<Rightarrow> bool \<Rightarrow> string \<Rightarrow> int api" where
  "set_parameters E hw parms s =
     (if \<not> hw then Some (BAD_VALUE, s) else call_status E (SET_PARAMS parms) s)"

definition get_parameters :: "env \<Rightarrow> bool \<Rightarrow> ptr api" where
  "get_parameters E hw s =
     (if \<not> hw then Some (None, s)
      else call E GET_PARAMS (\<lambda>r. params_of (result_value r)) (\<lambda>_. None) s)"

definition put_parameters :: "env \<Rightarrow> bool \<Rightarrow> ptr \<Rightarrow> unit api" where
  "put_parameters E hw p s = (if \<not> hw then Some ((), s) else call_void E (PUT_PARAMS p) s)"

definition send_command :: "env \<Rightarrow> bool \<Rightarrow> camera_cmd \<Rightarrow> int \<Rightarrow> int \<Rightarrow> int api" where
  "send_command E hw cmd arg1 arg2 s =
     (if \<not> hw then Some (BAD_VALUE, s) else call_status E (SEND_COMMAND cmd arg1 arg2) s)"

definition release_device :: "env \<Rightarrow> bool \<Rightarrow> unit api" where
  "release_device E hw s = (if \<not> hw then Some ((), s) else call_void E RELEASE s)"

definition dump_device :: "bool \<Rightarrow> int \<Rightarrow> int api" where
  "dump_device hw fd s = Some (NO_ERROR, s)"

definition register_face_image :: "env \<Rightarrow> bool \<Rightarrow> ptr \<Rightarrow> ptr \<Rightarrow> int api" where
  "register_face_image E hw img_ptr config s =
     (if \<not> hw then Some (BAD_VALUE, s) else call_handle E (REG_FACE_IMAGE img_ptr config) s)"

section \<open>Entries from the lower layers\<close>

definition thermalEvtHandle :: "env \<Rightarrow> qcamera_thermal_level \<Rightarrow> int api" where
  "thermalEvtHandle E level s =
     (if \<not> mCameraOpened s then Some (NO_ERROR, s) else call_status E (THERMAL_NOTIFY level) s)"

text \<open>
  A request for a picture from the backend does not go to the state machine: a thread is started
  for it.
\<close>

definition takePictureInternal :: "env \<Rightarrow> int hal_op" where
  "takePictureInternal E = ext E X_pthread_create"

definition camEvtHandle :: "env \<Rightarrow> bool \<Rightarrow> cam_event_type option \<Rightarrow> unit hal_op" where
  "camEvtHandle E obj evt =
     (case evt of
        None \<Rightarrow> ret ()
      | Some e \<Rightarrow>
          when_do obj (do {
            payload \<leftarrow> malloc E;
            when_do payload
              (if e = CAM_EVENT_TYPE_INT_TAKE_PIC then do {
                 modify (\<lambda>s. s\<lparr>m_bIntEvtPending := True\<rparr>);
                 _ \<leftarrow> takePictureInternal E;
                 ret ()
               } else do {
                 _ \<leftarrow> processEvt E (EVT_NOTIFY e);
                 ret ()
               })
          }))"

definition jpegEvtHandle :: "env \<Rightarrow> bool \<Rightarrow> nat \<Rightarrow> unit hal_op" where
  "jpegEvtHandle E obj jpeg_job =
     when_do obj (do {
       payload \<leftarrow> malloc E;
       when_do payload (do {
         _ \<leftarrow> ext E (X_processMTFDumps jpeg_job);
         _ \<leftarrow> processEvt E (JPEG_EVT_NOTIFY jpeg_job);
         ret ()
       })
     })"

text \<open>
  A synchronous backend event: the previous result is cleared after the event has been posted and
  while \<open>m_evtLock\<close> is held, so it is cleared before the event is handled.
\<close>

partial_function (option) waitEvtResult ::
  "env \<Rightarrow> qcamera_sm_evt \<Rightarrow> hal \<Rightarrow> (qcamera_api_result \<times> hal) option" where
  "waitEvtResult E evt s =
     (if cmd_sem s \<le> 0 then None
      else case run_state (sm_iteration E) s of
        (running, s') \<Rightarrow>
          if \<not> running then None
          else case m_evtResult s' of
            None \<Rightarrow> waitEvtResult E evt s'
          | Some r \<Rightarrow> if request_api r = evt then Some (r, s') else waitEvtResult E evt s')"

definition processSyncEvt :: "env \<Rightarrow> sm_msg \<Rightarrow> int api" where
  "processSyncEvt E msg s =
     (case run_state (processEvt E msg) s of
        (rc, s1) \<Rightarrow>
          if rc = NO_ERROR then
            (case waitEvtResult E (evt_of msg) (s1\<lparr>m_evtResult := None\<rparr>) of
               None \<Rightarrow> None
             | Some (r, s2) \<Rightarrow> Some (status r, s2))
          else Some (rc, s1))"

section \<open>Pictures for the backend\<close>

definition takeBackendPic_internal :: "env \<Rightarrow> (int \<times> bool) api" where
  "takeBackendPic_internal E s =
     (case run_state (do {
         opt \<leftarrow> ext E (X_pproc PP_getJpegMemOpt);
         _ \<leftarrow> ext E (X_pproc (PP_setJpegMemOpt False));
         ret (opt \<noteq> 0)
       }) s of
        (JpegMemOpt, s1) \<Rightarrow>
          (case call E TAKE_PICTURE (\<lambda>_. NO_ERROR) (\<lambda>rc. rc) s1 of
             None \<Rightarrow> None
           | Some (rc, s2) \<Rightarrow> Some ((rc, JpegMemOpt), s2)))"

definition ETIMEDOUT :: int where
  "ETIMEDOUT = 110"

text \<open>Both events are posted without waiting for their results.\<close>

definition checkIntPicPending :: "env \<Rightarrow> bool \<Rightarrow> unit hal_op" where
  "checkIntPicPending E JpegMemOpt = do {
     pending \<leftarrow> gets m_bIntEvtPending;
     when_do pending (do {
       rc \<leftarrow> ext E X_intTimedWait;
       modify (\<lambda>s. s\<lparr>m_bIntEvtPending := False\<rparr>);
       when_do (rc \<noteq> ETIMEDOUT) (do {
         _ \<leftarrow> parm E P_setIntEvent;
         _ \<leftarrow> processAPI E SNAPSHOT_DONE;
         p \<leftarrow> gets mParameters;
         when_do (\<not> isZSLMode p) (do { _ \<leftarrow> processAPI E START_PREVIEW; ret () });
         _ \<leftarrow> ext E (X_pproc (PP_setJpegMemOpt JpegMemOpt));
         ret ()
       })
     })
   }"

definition Int_Pic_thread :: "env \<Rightarrow> bool \<Rightarrow> int api" where
  "Int_Pic_thread E hw s =
     (if \<not> hw then Some (BAD_VALUE, s)
      else case takeBackendPic_internal E s of
        None \<Rightarrow> None
      | Some ((_, JpegMemOpt), s1) \<Rightarrow>
          Some (0, snd (run_state (checkIntPicPending E JpegMemOpt) s1)))"

section \<open>Calls on a camera that is ready\<close>

text \<open>
  The camera serves calls: no API command is queued and the thread runs; backend events may be
  waiting. It is ready when no result is left over either. \<open>posted\<close>: the state after the two allocations that posting takes.
\<close>

definition serving :: "hal \<Rightarrow> bool" where
  "serving s \<longleftrightarrow> balanced s \<and> api_queue s = [] \<and> m_smThreadActive s"

definition ready :: "hal \<Rightarrow> bool" where
  "ready s \<longleftrightarrow> balanced s \<and> api_queue s = [] \<and> m_apiResultList s = [] \<and> m_smThreadActive s"

definition posted :: "hal \<Rightarrow> hal" where
  "posted s = s\<lparr>trace := X_malloc # X_malloc # trace s\<rparr>"

lemma posted_simps [simp]:
  "m_state (posted s) = m_state s" "api_queue (posted s) = api_queue s"
  "evt_queue (posted s) = evt_queue s" "cmd_sem (posted s) = cmd_sem s"
  "m_apiResultList (posted s) = m_apiResultList s" "mParameters (posted s) = mParameters s"
  "m_evtResult (posted s) = m_evtResult s" "m_smThreadActive (posted s) = m_smThreadActive s"
  "m_channels (posted s) = m_channels s"
  by (simp_all add: posted_def)

lemma run_processAPI:
  assumes "mem_ok E" and "m_smThreadActive s"
  shows "run_state (processAPI E msg) s = (NO_ERROR, (posted s)\<lparr>
     api_queue := api_queue s @ [QCAMERA_SM_CMD_TYPE_API msg], cmd_sem := cmd_sem s + 1\<rparr>)"
  using assms
  by (simp add: processAPI_def procAPI_def malloc_def ext_def mem_ok_def posted_def)

lemma run_processEvt:
  assumes "mem_ok E"
  shows "run_state (processEvt E msg) s = (NO_ERROR, (posted s)\<lparr>
     evt_queue := evt_queue s @ [QCAMERA_SM_CMD_TYPE_EVT msg], cmd_sem := cmd_sem s + 1\<rparr>)"
  using assms
  by (simp add: processEvt_def procEvt_def malloc_def ext_def mem_ok_def posted_def)

lemma processAPI_dead: "\<not> m_smThreadActive s \<Longrightarrow> run_state (processAPI E msg) s = (DEAD_OBJECT, s)"
  by (simp add: processAPI_def)

lemma ready_serving: "ready s \<Longrightarrow> serving s"
  by (simp add: ready_def serving_def)

lemma serving_sem: "serving s \<Longrightarrow> 0 \<le> cmd_sem s"
  by (simp add: serving_def balanced_def)

text \<open>One round after a post on a serving camera handles the posted event.\<close>

lemma iteration_posted:
  assumes "serving s"
  shows "run_state (sm_iteration E) ((posted s)\<lparr>api_queue := [QCAMERA_SM_CMD_TYPE_API msg],
      cmd_sem := cmd_sem s + 1\<rparr>) = (True, snd (run_state (stateMachine E msg) (posted s)))"
proof -
  let ?t = "(posted s)\<lparr>api_queue := [QCAMERA_SM_CMD_TYPE_API msg], cmd_sem := cmd_sem s + 1\<rparr>"
  have "pop_cmd ?t = posted s"
    using assms by (simp add: pop_cmd_def serving_def posted_def)
  then show ?thesis
    by (simp add: sm_iteration_eq)
qed

lemma call_unfold:
  assumes "mem_ok E" and "serving s" and "run_state (stateMachine E msg) (posted s) = (rc, s1)"
  shows "call E msg ok err s =
     (case take_result (evt_of msg) (m_apiResultList s1) of
        None \<Rightarrow> (case waitAPIResult E (evt_of msg) s1 of
                  None \<Rightarrow> None | Some (r, s2) \<Rightarrow> Some (ok r, s2))
      | Some (r, rs) \<Rightarrow> Some (ok r, s1\<lparr>m_apiResultList := rs\<rparr>))"
proof -
  let ?t = "(posted s)\<lparr>api_queue := [QCAMERA_SM_CMD_TYPE_API msg], cmd_sem := cmd_sem s + 1\<rparr>"
  have it: "run_state (sm_iteration E) ?t = (True, s1)"
    using iteration_posted [OF assms(2), of E msg] assms(3) by simp
  have "\<not> cmd_sem ?t \<le> 0" using serving_sem [OF assms(2)] by simp
  with it have "waitAPIResult E (evt_of msg) ?t =
      (case take_result (evt_of msg) (m_apiResultList s1) of
         None \<Rightarrow> waitAPIResult E (evt_of msg) s1
       | Some (r, rs) \<Rightarrow> Some (r, s1\<lparr>m_apiResultList := rs\<rparr>))"
    by (subst waitAPIResult.simps) (simp only: if_False prod.case simp_thms)
  then show ?thesis
    using assms(1,2) by (simp add: call_def run_processAPI serving_def split: option.splits)
qed

lemma call_answered:
  assumes "mem_ok E" and "ready s" and "run_state (stateMachine E msg) (posted s) = (rc, s1)"
    and "answers (m_state s) msg rc = [(evt_of msg, rc)]"
  shows "\<exists>r. call E msg ok err s = Some (ok r, s1\<lparr>m_apiResultList := []\<rparr>) \<and>
    m_apiResultList s1 = [r] \<and> status r = rc"
proof -
  have "sm_post msg (posted s) rc s1"
    using stateMachine_post [OF assms(1), of msg "posted s"] assms(3) by simp
  with assms(2,4) obtain r where "m_apiResultList s1 = [r]" "request_api r = evt_of msg" "status r = rc"
    by (auto simp: sm_post_def ready_def)
  then show ?thesis
    using call_unfold [OF assms(1) ready_serving [OF assms(2)] assms(3), of ok err] by simp
qed

lemma answers_now:
  assumes "is_api (evt_of msg)" and "\<not> unanswered st (evt_of msg)" and "\<not> deferred st (evt_of msg) rc"
  shows "answers st msg rc = [(evt_of msg, rc)]"
  using assms by (simp add: answers_def)

lemma call_status_answered:
  assumes "mem_ok E" and "ready s" and "run_state (stateMachine E msg) (posted s) = (rc, s1)"
    and "answers (m_state s) msg rc = [(evt_of msg, rc)]"
  shows "call_status E msg s = Some (rc, s1\<lparr>m_apiResultList := []\<rparr>)"
  using call_answered [OF assms, of status "\<lambda>rc. rc"] by (auto simp: call_status_def)

text \<open>The camera is ready for the next call when a call has returned.\<close>

lemma ready_after:
  assumes "mem_ok E" and "ready s" and "run_state (stateMachine E msg) (posted s) = (rc, s1)"
  shows "ready (s1\<lparr>m_apiResultList := []\<rparr>)"
proof -
  have P: "sm_post msg (posted s) rc s1"
    using stateMachine_post [OF assms(1), of msg "posted s"] assms(3) by simp
  have "balanced (posted s)" using assms(2) by (simp add: ready_def balanced_def)
  then have "balanced s1"
    using balanced_stateMachine [OF assms(1), of "posted s" msg] assms(3) by simp
  then show ?thesis
    using sm_postD [OF P] assms(2) by (auto simp: ready_def balanced_def)
qed


text \<open>A result left over from an event nobody waited for is taken for the result of the next call.\<close>

lemma call_stale:
  assumes "mem_ok E" and "serving s" and "run_state (stateMachine E msg) (posted s) = (rc, s1)"
    and "m_apiResultList s = r # rs" and "request_api r = evt_of msg"
  shows "\<exists>new. call E msg ok err s = Some (ok r, s1\<lparr>m_apiResultList := rs @ new\<rparr>) \<and>
    map (\<lambda>r. (request_api r, status r)) new = answers (m_state s) msg rc"
proof -
  have "sm_post msg (posted s) rc s1"
    using stateMachine_post [OF assms(1), of msg "posted s"] assms(3) by simp
  with assms(4) obtain new where "m_apiResultList s1 = r # rs @ new"
    "map (\<lambda>r. (request_api r, status r)) new = answers (m_state s) msg rc"
    by (auto simp: sm_post_def)
  then show ?thesis
    using call_unfold [OF assms(1-3), of ok err] assms(5) by auto
qed

lemma call_dead:
  "\<not> m_smThreadActive s \<Longrightarrow> call E msg ok err s = Some (err DEAD_OBJECT, s)"
  by (simp add: call_def processAPI_dead)

text \<open>A synchronous \<open>SNAPSHOT_DONE\<close> returns the code of its handler.\<close>

lemma sync_answered:
  assumes "mem_ok E" and "serving s" and "evt_queue s = []"
    and "run_state (stateMachine E SNAPSHOT_DONE) ((posted s)\<lparr>m_evtResult := None\<rparr>) = (rc, s1)"
  shows "processSyncEvt E SNAPSHOT_DONE s = Some (rc, s1)"
proof -
  let ?t = "(posted s)\<lparr>evt_queue := [QCAMERA_SM_CMD_TYPE_EVT SNAPSHOT_DONE], cmd_sem := cmd_sem s + 1,
    m_evtResult := None\<rparr>"
  have pop: "pop_cmd ?t = (posted s)\<lparr>m_evtResult := None\<rparr>" and nxt: "next_cmd ?t =
      Some (QCAMERA_SM_CMD_TYPE_EVT SNAPSHOT_DONE)"
    using assms(2,3) by (simp_all add: pop_cmd_def next_cmd_def serving_def posted_def)
  then have it: "run_state (sm_iteration E) ?t = (True, s1)"
    using assms(4) by (simp add: sm_iteration_eq)
  have "m_evtResult s1 = Some \<lparr>status = rc, request_api = QCAMERA_SM_EVT_SNAPSHOT_DONE,
      result_value = RESULT_TYPE_DEF\<rparr>"
    using stateMachine_post [OF assms(1), of SNAPSHOT_DONE "(posted s)\<lparr>m_evtResult := None\<rparr>"]
      assms(4) by (simp add: sm_post_def evt_answer_def)
  then have "waitEvtResult E QCAMERA_SM_EVT_SNAPSHOT_DONE ?t = Some (\<lparr>status = rc,
      request_api = QCAMERA_SM_EVT_SNAPSHOT_DONE, result_value = RESULT_TYPE_DEF\<rparr>, s1)"
    using it serving_sem [OF assms(2)] by (subst waitEvtResult.simps) simp
  then show ?thesis
    using assms(3) by (simp add: processSyncEvt_def run_processEvt [OF assms(1)])
qed


lemma keeps_live_snapshot: "keeps sm_view (live_snapshot_start E)"
  unfolding live_snapshot_start_def by (intro pres_intros keeps_ops sm_keeps)

text \<open>
  A live snapshot that cannot be started posts \<open>CANCEL_PICTURE\<close> without waiting for its result, and
  returns the code of the notification.
\<close>

lemma live_snapshot_failed:
  assumes "mem_ok E" and "m_smThreadActive s" and "run_state (live_snapshot_start E) s = (rc, s1)"
    and "rc \<noteq> NO_ERROR"
  shows "\<exists>s'. run_state (takeLiveSnapshot_internal E) s =
      (e_rc E (trace (posted s1)) (X_notify CAMERA_MSG_ERROR UNKNOWN_ERROR 0), s') \<and>
    api_queue s' = api_queue s1 @ [QCAMERA_SM_CMD_TYPE_API CANCEL_PICTURE] \<and>
    cmd_sem s' = cmd_sem s1 + 1 \<and> m_state s' = m_state s1"
  using assms keepsD [OF keeps_live_snapshot, of E s]
  by (simp add: takeLiveSnapshot_internal_def run_processAPI sendEvtNotify_def ext_def sm_view_eq
      posted_def)

end
