(* ===== verification/HAL_System.thy ===== *)
theory HAL_System
  imports HWI_Api
begin

text \<open>
  The HAL with its threads: callers that wait for results, threads that post an API event without
  waiting (\<open>checkIntPicPending\<close>, \<open>takeLiveSnapshot_internal\<close>, the post-processor), the lower layers
  that post events, and the state machine's thread. One step is one critical section of one thread.
\<close>

section \<open>Requests and replies\<close>

text \<open>
  The contract of a server that handles requests one by one: every request that is not lost is
  either answered or parked, and no answer appears for which there was no request.
\<close>

fun losses :: "('s \<Rightarrow> 'm \<Rightarrow> bool) \<Rightarrow> ('m \<Rightarrow> 's \<Rightarrow> 's) \<Rightarrow> 'm list \<Rightarrow> 's \<Rightarrow> 'm list" where
  "losses lost handle [] s = []"
| "losses lost handle (m # ms) s =
     (if lost s m then [m] else []) @ losses lost handle ms (handle m s)"

locale request_reply =
  fixes wf :: "'s \<Rightarrow> bool"
    and handle :: "'m \<Rightarrow> 's \<Rightarrow> 's"
    and tag :: "'m \<Rightarrow> 'e"
    and api :: "'e \<Rightarrow> bool"
    and results :: "'s \<Rightarrow> 'e list"
    and parked :: "'s \<Rightarrow> 'e \<Rightarrow> nat"
    and lost :: "'s \<Rightarrow> 'm \<Rightarrow> bool"
  assumes wf_handle: "wf s \<Longrightarrow> wf (handle m s)"
    and conserve: "wf s \<Longrightarrow> api e \<Longrightarrow>
      count_list (results (handle m s)) e + parked (handle m s) e + of_bool (lost s m \<and> tag m = e) =
      count_list (results s) e + parked s e + of_bool (tag m = e)"
begin

lemma conserve_all:
  "wf s \<Longrightarrow> api e \<Longrightarrow>
   count_list (results (fold handle ms s)) e + parked (fold handle ms s) e +
     count_list (map tag (losses lost handle ms s)) e =
   count_list (results s) e + parked s e + count_list (map tag ms) e"
proof (induction ms arbitrary: s)
  case (Cons m ms)
  show ?case
    using Cons.IH [OF wf_handle [OF Cons.prems(1), of m] Cons.prems(2)]
      conserve [OF Cons.prems, of m]
    by (auto simp: of_bool_def split: if_splits)
qed simp

lemma no_more_than_asked:
  "wf s \<Longrightarrow> api e \<Longrightarrow> results s = [] \<Longrightarrow> parked s e = 0 \<Longrightarrow>
   count_list (results (fold handle ms s)) e \<le> count_list (map tag ms) e"
  using conserve_all [of s e ms] by simp

end

section \<open>The state machine as a server\<close>

text \<open>
  The only request that waits for a later event is \<open>PREPARE_SNAPSHOT\<close>, and it waits exactly while
  the machine is in the state of that name.
\<close>

definition parked_in :: "qcamera_state \<Rightarrow> qcamera_sm_evt \<Rightarrow> nat" where
  "parked_in st e =
     (if st = QCAMERA_SM_STATE_PREPARE_SNAPSHOT \<and> e = QCAMERA_SM_EVT_PREPARE_SNAPSHOT then 1 else 0)"

definition sm_handle :: "sm_msg \<Rightarrow> env \<times> hal \<Rightarrow> env \<times> hal" where
  "sm_handle msg p = (fst p, snd (run_state (stateMachine (fst p) msg) (pop_cmd (snd p))))"

definition sm_results :: "env \<times> hal \<Rightarrow> qcamera_sm_evt list" where
  "sm_results p = map request_api (m_apiResultList (snd p))"

definition sm_parked :: "env \<times> hal \<Rightarrow> qcamera_sm_evt \<Rightarrow> nat" where
  "sm_parked p e = parked_in (m_state (snd p)) e"

definition sm_lost :: "env \<times> hal \<Rightarrow> sm_msg \<Rightarrow> bool" where
  "sm_lost p msg = unanswered (m_state (snd p)) (evt_of msg)"

lemma next_not_prepare:
  assumes "st' \<in> set (next_states st msg rc)" and "st' = QCAMERA_SM_STATE_PREPARE_SNAPSHOT"
    and "st \<noteq> QCAMERA_SM_STATE_PREPARE_SNAPSHOT"
  shows "st = QCAMERA_SM_STATE_PREVIEWING \<and> msg = PREPARE_SNAPSHOT \<and> rc = NO_ERROR"
  using assms
  by (cases st; cases msg) (auto simp: next_defs split: if_splits)

lemma next_from_previewing:
  "next_previewing PREPARE_SNAPSHOT NO_ERROR = [QCAMERA_SM_STATE_PREPARE_SNAPSHOT]"
  by (simp add: next_defs)

lemma evt_of_prepare: "evt_of msg = QCAMERA_SM_EVT_PREPARE_SNAPSHOT \<longleftrightarrow> msg = PREPARE_SNAPSHOT"
  by (cases msg) simp_all

lemma prep_done_not_api: "is_prep_done msg \<Longrightarrow> \<not> is_api (evt_of msg)"
  by (auto simp: is_prep_done_def split: sm_msg.splits)

lemma answers_conserve:
  assumes "st' \<in> set (next_states st msg rc)" and "is_api e"
  shows "count_list (map fst (answers st msg rc)) e + parked_in st' e +
      of_bool (unanswered st (evt_of msg) \<and> evt_of msg = e) =
    parked_in st e + of_bool (evt_of msg = e)"
proof (cases "st = QCAMERA_SM_STATE_PREPARE_SNAPSHOT")
  case True
  with assms show ?thesis
    by (auto simp: answers_def parked_in_def next_prepare_def unanswered_def deferred_def
        dest: prep_done_not_api split: if_splits)
next
  case False
  then show ?thesis
    using assms next_not_prepare [OF assms(1) _ False]
    by (auto simp: answers_def parked_in_def unanswered_def deferred_def evt_of_prepare
        next_from_previewing split: if_splits)
qed

lemma pop_cmd_simps [simp]:
  "m_state (pop_cmd s) = m_state s" "m_apiResultList (pop_cmd s) = m_apiResultList s"
  "m_smThreadActive (pop_cmd s) = m_smThreadActive s"
  by (simp_all add: pop_cmd_def split: list.splits)

interpretation rr: request_reply "\<lambda>p. mem_ok (fst p)" sm_handle evt_of is_api sm_results sm_parked
  sm_lost
proof unfold_locales
  fix p :: "env \<times> hal" and msg e
  assume mem: "mem_ok (fst p)"
  then show "mem_ok (fst (sm_handle msg p))" by (simp add: sm_handle_def)
  assume api: "is_api e"
  let ?s = "pop_cmd (snd p)"
  let ?rc = "fst (run_state (stateMachine (fst p) msg) ?s)"
  let ?s' = "snd (run_state (stateMachine (fst p) msg) ?s)"
  have P: "sm_post msg ?s ?rc ?s'" by (rule stateMachine_post [OF mem])
  then obtain new where new: "m_apiResultList ?s' = m_apiResultList (snd p) @ new"
    "map (\<lambda>r. (request_api r, status r)) new = answers (m_state (snd p)) msg ?rc"
    by (auto simp: sm_post_def)
  then have "map request_api new = map fst (answers (m_state (snd p)) msg ?rc)"
    by (simp flip: new(2) add: comp_def)
  with new(1) answers_conserve [OF _ api, of "m_state ?s'" "m_state (snd p)" msg ?rc] P
  show "count_list (sm_results (sm_handle msg p)) e + sm_parked (sm_handle msg p) e +
      of_bool (sm_lost p msg \<and> evt_of msg = e) =
    count_list (sm_results p) e + sm_parked p e + of_bool (evt_of msg = e)"
    by (simp add: sm_results_def sm_parked_def sm_lost_def sm_handle_def sm_post_def)
qed

lemma fst_fold_handle [simp]: "fst (fold sm_handle ms p) = fst p"
  by (induction ms arbitrary: p) (simp_all add: sm_handle_def)

lemma exec_api_fold: "exec_api E ms s = snd (fold sm_handle ms (E, s))"
proof (induction ms arbitrary: s)
  case (Cons m ms)
  then show ?case by (simp add: sm_handle_def)
qed simp


section \<open>The threads\<close>

text \<open>
  \<open>waiting\<close>: the events whose callers are in \<open>waitAPIResult\<close>; \<open>unsync\<close>: the API events posted by
  threads that do not wait; \<open>lost\<close>: the requests the state machine has dropped.
\<close>

record sys =
  hw :: hal
  waiting :: "qcamera_sm_evt list"
  unsync :: "qcamera_sm_evt list"
  lost :: "qcamera_sm_evt list"

fun api_evts :: "sm_cmd list \<Rightarrow> qcamera_sm_evt list" where
  "api_evts [] = []"
| "api_evts (QCAMERA_SM_CMD_TYPE_API msg # q) = evt_of msg # api_evts q"
| "api_evts (_ # q) = api_evts q"

definition drops :: "hal \<Rightarrow> qcamera_sm_evt list" where
  "drops h = (case next_cmd h of
     None \<Rightarrow> []
   | Some cmd \<Rightarrow> (case cmd_msg cmd of
         None \<Rightarrow> []
       | Some msg \<Rightarrow> if unanswered (m_state h) (evt_of msg) then [evt_of msg] else []))"

inductive sys_step :: "env \<Rightarrow> sys \<Rightarrow> sys \<Rightarrow> bool" for E where
  api_call: "is_api (evt_of msg) \<Longrightarrow> run_state (processAPI E msg) (hw \<sigma>) = (NO_ERROR, h) \<Longrightarrow>
    sys_step E \<sigma> (\<sigma>\<lparr>hw := h, waiting := evt_of msg # waiting \<sigma>\<rparr>)"
| api_refused: "run_state (processAPI E msg) (hw \<sigma>) = (rc, h) \<Longrightarrow> rc \<noteq> NO_ERROR \<Longrightarrow>
    sys_step E \<sigma> (\<sigma>\<lparr>hw := h\<rparr>)"
| api_post: "run_state (processAPI E msg) (hw \<sigma>) = (NO_ERROR, h) \<Longrightarrow>
    sys_step E \<sigma> (\<sigma>\<lparr>hw := h, unsync := (if is_api (evt_of msg) then [evt_of msg] else []) @ unsync \<sigma>\<rparr>)"
| event: "\<not> is_api (evt_of msg) \<Longrightarrow> run_state (processEvt E msg) (hw \<sigma>) = (rc, h) \<Longrightarrow>
    sys_step E \<sigma> (\<sigma>\<lparr>hw := h\<rparr>)"
| thread: "0 < cmd_sem (hw \<sigma>) \<Longrightarrow> run_state (sm_iteration E) (hw \<sigma>) = (True, h) \<Longrightarrow>
    sys_step E \<sigma> (\<sigma>\<lparr>hw := h, lost := drops (hw \<sigma>) @ lost \<sigma>\<rparr>)"
| wake: "e \<in> set (waiting \<sigma>) \<Longrightarrow> take_result e (m_apiResultList (hw \<sigma>)) = Some (r, rs) \<Longrightarrow>
    sys_step E \<sigma> (\<sigma>\<lparr>hw := (hw \<sigma>)\<lparr>m_apiResultList := rs\<rparr>, waiting := remove1 e (waiting \<sigma>)\<rparr>)"
| other: "sm_view h = sm_view (hw \<sigma>) \<Longrightarrow> sys_step E \<sigma> (\<sigma>\<lparr>hw := h\<rparr>)"

inductive reaches :: "env \<Rightarrow> sys \<Rightarrow> sys \<Rightarrow> bool" for E where
  start: "reaches E \<sigma> \<sigma>"
| step: "reaches E \<sigma> \<sigma>' \<Longrightarrow> sys_step E \<sigma>' \<sigma>'' \<Longrightarrow> reaches E \<sigma> \<sigma>''"

text \<open>A camera that has just been opened.\<close>

definition opened :: "sys \<Rightarrow> bool" where
  "opened \<sigma> \<longleftrightarrow> m_state (hw \<sigma>) = QCAMERA_SM_STATE_PREVIEW_STOPPED \<and> ready (hw \<sigma>) \<and>
     evt_queue (hw \<sigma>) = [] \<and> waiting \<sigma> = [] \<and> unsync \<sigma> = [] \<and> lost \<sigma> = []"

definition owed :: "sys \<Rightarrow> qcamera_sm_evt \<Rightarrow> nat" where
  "owed \<sigma> e = count_list (api_evts (api_queue (hw \<sigma>))) e +
     count_list (map request_api (m_apiResultList (hw \<sigma>))) e + parked_in (m_state (hw \<sigma>)) e +
     count_list (lost \<sigma>) e"

definition queues_ok :: "hal \<Rightarrow> bool" where
  "queues_ok h \<longleftrightarrow> balanced h \<and> (\<forall>c \<in> set (api_queue h). \<exists>msg. c = QCAMERA_SM_CMD_TYPE_API msg) \<and>
     (\<forall>c \<in> set (other_evts h). \<exists>msg. c = QCAMERA_SM_CMD_TYPE_EVT msg \<and> \<not> is_api (evt_of msg))"

definition sys_inv :: "sys \<Rightarrow> bool" where
  "sys_inv \<sigma> \<longleftrightarrow> queues_ok (hw \<sigma>) \<and>
     (\<forall>e. is_api e \<longrightarrow> count_list (waiting \<sigma>) e + count_list (unsync \<sigma>) e = owed \<sigma> e)"

lemma api_evts_append [simp]: "api_evts (p @ q) = api_evts p @ api_evts q"
  by (induction p rule: api_evts.induct) simp_all

lemma queues_ok_view:
  assumes "sm_view h' = sm_view h" and "queues_ok h"
  shows "queues_ok h'"
  using assms by (auto simp: queues_ok_def balanced_def sm_view_def)

lemma queues_ok_evt:
  assumes "queues_ok h" and "c \<in> set (evt_queue h)"
  shows "\<exists>msg. c = QCAMERA_SM_CMD_TYPE_EVT msg \<and> \<not> is_api (evt_of msg)"
  using assms by (cases "c = QCAMERA_SM_CMD_TYPE_EVT SNAPSHOT_DONE")
    (auto simp: queues_ok_def other_evts_def)

lemma take_result_Some:
  "take_result e rs = Some (r, rs') \<Longrightarrow> request_api r = e \<and>
   count_list (map request_api rs) e' = count_list (map request_api rs') e' + of_bool (e' = e)"
  by (induction rs arbitrary: rs') (auto split: if_splits option.splits)

lemma take_result_None: "take_result e rs = None \<longleftrightarrow> e \<notin> set (map request_api rs)"
  by (induction rs) (auto split: option.splits)

lemma count_remove1_add:
  "e \<in> set xs \<Longrightarrow> count_list xs e' = count_list (remove1 e xs) e' + of_bool (e' = e)"
  by (induction xs) auto

section \<open>Every step keeps the invariant\<close>

lemma inv_post:
  assumes "mem_ok E" and "run_state (processAPI E msg) h = (NO_ERROR, h')" and "queues_ok h"
  shows "queues_ok h'" and "api_queue h' = api_queue h @ [QCAMERA_SM_CMD_TYPE_API msg]"
    and "m_apiResultList h' = m_apiResultList h" and "m_state h' = m_state h"
proof -
  have "m_smThreadActive h" using assms(2) processAPI_dead by (cases "m_smThreadActive h") auto
  with assms(2) have h': "h' = (posted h)\<lparr>
      api_queue := api_queue h @ [QCAMERA_SM_CMD_TYPE_API msg], cmd_sem := cmd_sem h + 1\<rparr>"
    by (simp add: run_processAPI [OF assms(1)])
  show "queues_ok h'" "api_queue h' = api_queue h @ [QCAMERA_SM_CMD_TYPE_API msg]"
    "m_apiResultList h' = m_apiResultList h" "m_state h' = m_state h"
    using assms(3) unfolding h' by (auto simp: queues_ok_def balanced_def posted_def)
qed

lemma inv_refused:
  assumes "mem_ok E" and "run_state (processAPI E msg) h = (rc, h')" and "rc \<noteq> NO_ERROR"
  shows "h' = h"
  using assms processAPI_dead [of h E msg] run_processAPI [OF assms(1), of h msg]
  by (cases "m_smThreadActive h") auto

lemma inv_thread:
  assumes "mem_ok E" and "queues_ok h" and "0 < cmd_sem h"
    and "run_state (sm_iteration E) h = (True, h')"
  shows "queues_ok h'" and "is_api e \<Longrightarrow>
    count_list (api_evts (api_queue h')) e + count_list (map request_api (m_apiResultList h')) e +
      parked_in (m_state h') e + count_list (drops h) e =
    count_list (api_evts (api_queue h)) e + count_list (map request_api (m_apiResultList h)) e +
      parked_in (m_state h) e"
proof -
  have bal: "balanced h" using assms(2) by (simp add: queues_ok_def)
  obtain cmd where cmd: "next_cmd h = Some cmd"
    using balanced_next_cmd [OF bal assms(3)] by auto
  with assms(4) obtain msg where msg: "cmd_msg cmd = Some msg"
    and h': "h' = snd (run_state (stateMachine E msg) (pop_cmd h))"
    by (auto simp: sm_iteration_eq split: option.splits)
  have P: "sm_post msg (pop_cmd h) (fst (run_state (stateMachine E msg) (pop_cmd h))) h'"
    unfolding h' by (rule stateMachine_post [OF assms(1)])
  note post = sm_postD [OF P]
  have bal': "balanced h'"
    using balanced_iteration [OF assms(1) bal assms(3)] assms(4) by simp
  have sub: "set (other_evts (pop_cmd h)) \<subseteq> set (other_evts h)" "set (api_queue (pop_cmd h)) \<subseteq> set (api_queue h)"
    by (auto simp: pop_cmd_def other_evts_def split: list.splits dest: list.set_sel(2) [rotated])
      (metis list.sel(2) list.set_sel(2))+
  show "queues_ok h'"
    using assms(2) bal' sub post by (auto simp: queues_ok_def)
  assume api: "is_api e"
  have q: "count_list (api_evts (api_queue h)) e =
      count_list (api_evts (api_queue h')) e + of_bool (evt_of msg = e)"
  proof (cases "api_queue h")
    case Nil
    with cmd msg obtain q where "evt_queue h = cmd # q" by (auto simp: next_cmd_def split: list.splits)
    with queues_ok_evt [OF assms(2), of cmd] msg have "\<not> is_api (evt_of msg)" by auto
    with api have "evt_of msg \<noteq> e" by blast
    with Nil post(1) show ?thesis by (simp add: pop_cmd_def)
  next
    case (Cons c q)
    with cmd assms(2) have "c = cmd" "\<exists>m. cmd = QCAMERA_SM_CMD_TYPE_API m"
      by (auto simp: next_cmd_def queues_ok_def)
    with Cons msg post(1) show ?thesis by (auto simp: pop_cmd_def)
  qed
  have d: "count_list (drops h) e = of_bool (unanswered (m_state h) (evt_of msg) \<and> evt_of msg = e)"
    using cmd msg by (simp add: drops_def)
  show "count_list (api_evts (api_queue h')) e + count_list (map request_api (m_apiResultList h')) e +
      parked_in (m_state h') e + count_list (drops h) e =
    count_list (api_evts (api_queue h)) e + count_list (map request_api (m_apiResultList h)) e +
      parked_in (m_state h) e"
    using rr.conserve [of "(E, h)" e msg] assms(1) api q d
    by (simp add: sm_results_def sm_parked_def sm_lost_def sm_handle_def h')
qed


lemma step_inv:
  assumes "sys_step E \<sigma> \<sigma>'" and "mem_ok E" and "sys_inv \<sigma>"
  shows "sys_inv \<sigma>'"
  using assms
proof (cases rule: sys_step.cases)
  case (api_call msg h)
  with assms inv_post [OF assms(2) api_call(3)] show ?thesis
    by (auto simp: sys_inv_def owed_def)
next
  case (api_refused msg rc h)
  with assms(3) inv_refused [OF assms(2) api_refused(2,3)] show ?thesis
    by (simp add: sys_inv_def owed_def)
next
  case (api_post msg h)
  with assms inv_post [OF assms(2) api_post(2)] show ?thesis
    by (auto simp: sys_inv_def owed_def)
next
  case (event msg rc h)
  then have "h = (posted (hw \<sigma>))\<lparr>evt_queue := evt_queue (hw \<sigma>) @ [QCAMERA_SM_CMD_TYPE_EVT msg],
      cmd_sem := cmd_sem (hw \<sigma>) + 1\<rparr>"
    by (simp add: run_processEvt [OF assms(2)])
  with event assms(3) show ?thesis
    by (auto simp: sys_inv_def owed_def queues_ok_def balanced_def other_evts_def posted_def)
next
  case (thread h)
  then have "queues_ok (hw \<sigma>)" using assms(3) by (simp add: sys_inv_def)
  note inv = inv_thread [OF assms(2) this thread(2,3)]
  have "owed \<sigma>' e = owed \<sigma> e" if "is_api e" for e
    using inv(2) [OF that] thread(1) by (simp add: owed_def)
  with assms(3) inv(1) thread(1) show ?thesis by (simp add: sys_inv_def)
next
  case (wake e r rs)
  have "queues_ok (hw \<sigma>')"
    using assms(3) wake(1) by (simp add: sys_inv_def queues_ok_def balanced_def)
  moreover have "count_list (waiting \<sigma>') e' + count_list (unsync \<sigma>') e' = owed \<sigma>' e'"
    if "is_api e'" for e'
  proof -
    have w: "waiting \<sigma>' = remove1 e (waiting \<sigma>)" using wake(1) by simp
    have "owed \<sigma> e' = owed \<sigma>' e' + of_bool (e' = e)"
      using take_result_Some [OF wake(3), of e'] wake(1) by (simp add: owed_def)
    moreover have "count_list (waiting \<sigma>) e' = count_list (waiting \<sigma>') e' + of_bool (e' = e)"
      unfolding w by (rule count_remove1_add [OF wake(2)])
    moreover have "count_list (unsync \<sigma>') e' = count_list (unsync \<sigma>) e'"
      using wake(1) by simp
    moreover have "count_list (waiting \<sigma>) e' + count_list (unsync \<sigma>) e' = owed \<sigma> e'"
      using assms(3) that by (simp add: sys_inv_def)
    ultimately show ?thesis by linarith
  qed
  ultimately show ?thesis by (simp add: sys_inv_def)
next
  case (other h)
  then have "queues_ok h" using assms(3) queues_ok_view by (auto simp: sys_inv_def)
  with other assms(3) show ?thesis by (simp add: sys_inv_def owed_def sm_view_def)
qed

lemma opened_inv: "opened \<sigma> \<Longrightarrow> sys_inv \<sigma>"
  by (simp add: opened_def ready_def sys_inv_def queues_ok_def owed_def other_evts_def parked_in_def)

lemma reaches_inv: "reaches E \<sigma>0 \<sigma> \<Longrightarrow> mem_ok E \<Longrightarrow> sys_inv \<sigma>0 \<Longrightarrow> sys_inv \<sigma>"
  by (induction rule: reaches.induct) (auto intro: step_inv)

text \<open>A caller whose request has not been lost is served, or the thread still has work to do.\<close>

lemma served:
  assumes inv: "sys_inv \<sigma>" and e: "is_api e" and more: "count_list (lost \<sigma>) e < count_list (waiting \<sigma>) e"
  shows "0 < cmd_sem (hw \<sigma>) \<or> take_result e (m_apiResultList (hw \<sigma>)) \<noteq> None \<or>
    m_state (hw \<sigma>) = QCAMERA_SM_STATE_PREPARE_SNAPSHOT \<and> e = QCAMERA_SM_EVT_PREPARE_SNAPSHOT"
proof (rule ccontr)
  assume "\<not> ?thesis"
  then have sem: "cmd_sem (hw \<sigma>) \<le> 0"
    and res: "e \<notin> set (map request_api (m_apiResultList (hw \<sigma>)))"
    and park: "parked_in (m_state (hw \<sigma>)) e = 0"
    by (auto simp: take_result_None parked_in_def)
  from inv have "balanced (hw \<sigma>)" by (simp add: sys_inv_def queues_ok_def)
  with sem have "length (api_queue (hw \<sigma>)) = 0" unfolding balanced_def by linarith
  moreover from res have "count_list (map request_api (m_apiResultList (hw \<sigma>))) e = 0"
    by (simp add: count_list_0_iff)
  moreover have "count_list (waiting \<sigma>) e \<le> owed \<sigma> e"
    using inv e unfolding sys_inv_def by (metis le_add1)
  ultimately show False
    using more park by (simp add: owed_def)
qed


section \<open>A request that is never answered\<close>

text \<open>
  A face registered while a snapshot is prepared: no later event produces its result, whatever
  backend events are queued.
\<close>

lemma waitAPIResult_no_result:
  assumes "mem_ok E" and "waitAPIResult E e s = Some y"
  shows "is_api e \<longrightarrow> queues_ok s \<longrightarrow> e \<notin> set (api_evts (api_queue s)) \<longrightarrow>
    e \<notin> set (map request_api (m_apiResultList s)) \<longrightarrow> parked_in (m_state s) e = 0 \<longrightarrow> False"
proof -
  let ?Q = "\<lambda>E' e s y. E' = E \<longrightarrow> is_api e \<longrightarrow> queues_ok s \<longrightarrow>
    e \<notin> set (api_evts (api_queue s)) \<longrightarrow> e \<notin> set (map request_api (m_apiResultList s)) \<longrightarrow>
    parked_in (m_state s) e = 0 \<longrightarrow> False"
  have "?Q E e s y"
  proof (rule waitAPIResult.raw_induct [OF _ assms(2), where P = ?Q], intro impI)
    fix w E' e s y
    assume IH: "\<And>E' e s y. w E' e s = Some y \<Longrightarrow> ?Q E' e s y"
      and step: "(if cmd_sem s \<le> 0 then None
        else case run_state (sm_iteration E') s of
          (running, s') \<Rightarrow> if \<not> running then None
            else case take_result e (m_apiResultList s') of
              None \<Rightarrow> w E' e s'
            | Some (r, rs) \<Rightarrow> Some (r, s'\<lparr>m_apiResultList := rs\<rparr>)) = Some y"
      and E': "E' = E" and api: "is_api e" and q: "queues_ok s"
      and none: "e \<notin> set (api_evts (api_queue s))" "e \<notin> set (map request_api (m_apiResultList s))"
        "parked_in (m_state s) e = 0"
    obtain b s' where it: "run_state (sm_iteration E') s = (b, s')" by fastforce
    with step have pos: "0 < cmd_sem s" and b: "b" by (auto split: if_splits)
    note inv = inv_thread [OF assms(1) q pos it [unfolded E' eqTrueI [OF b]]]
    from none(1,2) have "count_list (api_evts (api_queue s)) e = 0"
      "count_list (map request_api (m_apiResultList s)) e = 0"
      unfolding count_list_0_iff .
    with inv(2) [OF api] none(3) have z: "count_list (api_evts (api_queue s')) e = 0"
      "count_list (map request_api (m_apiResultList s')) e = 0" "parked_in (m_state s') e = 0"
      by linarith+
    from z(1,2) have "e \<notin> set (api_evts (api_queue s'))"
      "e \<notin> set (map request_api (m_apiResultList s'))"
      unfolding count_list_0_iff .
    moreover from this(2) have "take_result e (m_apiResultList s') = None"
      by (simp add: take_result_None)
    with step it pos b have "w E' e s' = Some y" by simp
    ultimately show False
      using IH [of E' e s' y] E' api inv(1) z(3) by blast
  qed
  then show ?thesis by blast
qed

lemma register_face_hangs:
  assumes "mem_ok E" and "ready s" and "queues_ok s"
    and st: "m_state s = QCAMERA_SM_STATE_PREPARE_SNAPSHOT"
  shows "register_face_image E True img_ptr config s = None"
proof -
  have run: "run_state (stateMachine E (REG_FACE_IMAGE img_ptr config)) (posted s) =
      (NO_ERROR, posted s)"
    using st by (simp add: stateMachine_def procEvtPrepareSnapshotState_def)
  have "sm_view (posted s) = sm_view s" by (simp add: posted_def sm_view_def)
  then have q: "queues_ok (posted s)" using assms(3) by (rule queues_ok_view)
  have "waitAPIResult E QCAMERA_SM_EVT_REG_FACE_IMAGE (posted s) = None"
    using waitAPIResult_no_result [OF assms(1), of QCAMERA_SM_EVT_REG_FACE_IMAGE "posted s"] q
      assms(2) by (cases "waitAPIResult E QCAMERA_SM_EVT_REG_FACE_IMAGE (posted s)")
        (auto simp: ready_def parked_in_def)
  then show ?thesis
    using call_unfold [OF assms(1) ready_serving [OF assms(2)] run] assms(2)
    by (simp add: register_face_image_def call_handle_def ready_def)
qed

end
