(* ===== verification/SM_Behaviour.thy ===== *)
theory SM_Behaviour
  imports HWI_Api
begin

text \<open>
  What single calls do: the requests a state refuses, the queries, the preparation of a snapshot
  and the answer that completes it.
\<close>

section \<open>Refused requests\<close>

text \<open>
  The states in which a request is refused. While a snapshot is prepared every request is refused,
  apart from thermal events and face registration.
\<close>

definition refuses :: "qcamera_state \<Rightarrow> sm_msg \<Rightarrow> bool" where
  "refuses st msg \<longleftrightarrow>
     (if st = QCAMERA_SM_STATE_PREPARE_SNAPSHOT
      then is_api (evt_of msg) \<and>
        evt_of msg \<notin> {QCAMERA_SM_EVT_THERMAL_NOTIFY, QCAMERA_SM_EVT_REG_FACE_IMAGE}
      else case msg of
        START_PREVIEW \<Rightarrow> isCaptureRunning_st st
      | START_NODISPLAY_PREVIEW \<Rightarrow>
          st \<noteq> QCAMERA_SM_STATE_PREVIEW_STOPPED \<and> st \<noteq> QCAMERA_SM_STATE_PREVIEWING
      | SET_PREVIEW_WINDOW _ \<Rightarrow> st = QCAMERA_SM_STATE_PREVIEWING \<or> isCaptureRunning_st st
      | START_RECORDING \<Rightarrow>
          st \<notin> {QCAMERA_SM_STATE_PREVIEWING, QCAMERA_SM_STATE_RECORDING,
            QCAMERA_SM_STATE_PREVIEW_PIC_TAKING}
      | STOP_RECORDING \<Rightarrow>
          st \<notin> {QCAMERA_SM_STATE_RECORDING, QCAMERA_SM_STATE_VIDEO_PIC_TAKING}
      | PREPARE_SNAPSHOT \<Rightarrow> st \<notin> {QCAMERA_SM_STATE_PREVIEWING, QCAMERA_SM_STATE_RECORDING}
      | TAKE_PICTURE \<Rightarrow>
          st \<notin> {QCAMERA_SM_STATE_PREVIEWING, QCAMERA_SM_STATE_RECORDING,
            QCAMERA_SM_STATE_PIC_TAKING, QCAMERA_SM_STATE_PREVIEW_PIC_TAKING}
      | CANCEL_PICTURE \<Rightarrow> st \<noteq> QCAMERA_SM_STATE_PREVIEW_STOPPED \<and> \<not> isCaptureRunning_st st
      | RELEASE \<Rightarrow> st \<noteq> QCAMERA_SM_STATE_PREVIEW_STOPPED
      | _ \<Rightarrow> False)"

lemma run_reply:
  assumes "mem_ok E"
  shows "run_state (reply E msg rc v) s = ((), s\<lparr>trace := X_malloc # trace s,
     m_apiResultList := m_apiResultList s @
       [\<lparr>status = rc, request_api = evt_of msg, result_value = v\<rparr>]\<rparr>)"
  using assms by (simp add: reply_def signalAPIResult_def malloc_def ext_def mem_ok_def)

lemma refuses_reject:
  assumes "refuses (m_state s) msg"
  shows "run_state (stateMachine E msg) s = run_state (reject E msg) s"
  using assms
  by (cases "m_state s"; cases msg)
    (simp_all add: run_stateMachine refuses_def handler_defs)

lemma run_refused:
  assumes "mem_ok E" and "refuses (m_state s) msg"
  shows "run_state (stateMachine E msg) s = (INVALID_OPERATION, s\<lparr>trace := X_malloc # trace s,
     m_apiResultList := m_apiResultList s @
       [\<lparr>status = INVALID_OPERATION, request_api = evt_of msg, result_value = RESULT_TYPE_DEF\<rparr>]\<rparr>)"
  unfolding refuses_reject [OF assms(2)]
  by (simp add: reject_def answer_def run_reply [OF assms(1)])

section \<open>Queries\<close>

definition preview_flag :: "qcamera_state \<Rightarrow> bool" where
  "preview_flag st \<longleftrightarrow> isPreviewRunning_st st \<and>
     st \<noteq> QCAMERA_SM_STATE_PREPARE_SNAPSHOT \<and> st \<noteq> QCAMERA_SM_STATE_RECORDING"

definition recording_flag :: "qcamera_state \<Rightarrow> bool" where
  "recording_flag st \<longleftrightarrow>
     st = QCAMERA_SM_STATE_RECORDING \<or> st = QCAMERA_SM_STATE_VIDEO_PIC_TAKING"

lemma clear_results:
  "m_apiResultList s = [] \<Longrightarrow> s\<lparr>trace := t, m_apiResultList := []\<rparr> = s\<lparr>trace := t\<rparr>"
  by simp

lemma query_value:
  assumes "mem_ok E" and "ready s"
    and "run_state (stateMachine E msg) (posted s) = run_state (reply E msg rc v \<bind> (\<lambda>_. ret rc)) (posted s)"
  shows "call_enabled E msg s = Some (enabled_of v, s\<lparr>trace := X_malloc # trace (posted s)\<rparr>)"
proof -
  let ?s1 = "(posted s)\<lparr>trace := X_malloc # trace (posted s),
    m_apiResultList := [\<lparr>status = rc, request_api = evt_of msg, result_value = v\<rparr>]\<rparr>"
  have "run_state (stateMachine E msg) (posted s) = (rc, ?s1)"
    using assms(2) by (simp add: assms(3) run_reply [OF assms(1)] ready_def)
  from call_unfold [OF assms(1) ready_serving [OF assms(2)] this, of "\<lambda>r. enabled_of (result_value r)" "\<lambda>rc. rc"] show ?thesis
    using assms(2) by (simp add: call_enabled_def posted_def ready_def clear_results)
qed

lemma preview_enabled_flag:
  assumes "mem_ok E" and "ready s"
  shows "preview_enabled E True s =
    Some (of_bool (preview_flag (m_state s)), s\<lparr>trace := X_malloc # trace (posted s)\<rparr>)"
proof -
  let ?st = "m_state s"
  have "run_state (stateMachine E PREVIEW_ENABLED) (posted s) =
    run_state (reply E PREVIEW_ENABLED (if ?st = QCAMERA_SM_STATE_PREPARE_SNAPSHOT
        then INVALID_OPERATION else NO_ERROR)
      (if ?st = QCAMERA_SM_STATE_PREPARE_SNAPSHOT then RESULT_TYPE_DEF
       else RESULT_TYPE_ENABLE_FLAG (of_bool (preview_flag ?st))) \<bind>
      (\<lambda>_. ret (if ?st = QCAMERA_SM_STATE_PREPARE_SNAPSHOT then INVALID_OPERATION else NO_ERROR)))
      (posted s)"
    by (cases ?st) (simp_all add: run_stateMachine handler_defs answer_flag_def reject_def
        answer_def preview_flag_def)
  from query_value [OF assms this] show ?thesis
    by (simp add: preview_enabled_def preview_flag_def)
qed

lemma recording_enabled_flag:
  assumes "mem_ok E" and "ready s"
  shows "recording_enabled E True s =
    Some (of_bool (recording_flag (m_state s)), s\<lparr>trace := X_malloc # trace (posted s)\<rparr>)"
proof -
  let ?st = "m_state s"
  have "run_state (stateMachine E RECORDING_ENABLED) (posted s) =
    run_state (reply E RECORDING_ENABLED (if ?st = QCAMERA_SM_STATE_PREPARE_SNAPSHOT
        then INVALID_OPERATION else NO_ERROR)
      (if ?st = QCAMERA_SM_STATE_PREPARE_SNAPSHOT then RESULT_TYPE_DEF
       else RESULT_TYPE_ENABLE_FLAG (of_bool (recording_flag ?st))) \<bind>
      (\<lambda>_. ret (if ?st = QCAMERA_SM_STATE_PREPARE_SNAPSHOT then INVALID_OPERATION else NO_ERROR)))
      (posted s)"
    by (cases ?st) (simp_all add: run_stateMachine handler_defs answer_flag_def reject_def
        answer_def recording_flag_def)
  from query_value [OF assms this] show ?thesis
    by (auto simp: recording_enabled_def recording_flag_def)
qed

section \<open>Preparing a snapshot\<close>

lemma prepare_snapshot_round:
  assumes mem: "mem_ok E" and ready: "ready s" and st: "m_state s = QCAMERA_SM_STATE_PREVIEWING"
    and ok: "e_rc E (trace (posted s)) (X_cam O_prepare_snapshot) = NO_ERROR"
    and evts: "evt_queue s = QCAMERA_SM_CMD_TYPE_EVT
      (EVT_INTERNAL (QCAMERA_INTERNAL_EVT_PREP_SNAPSHOT_DONE p)) # q"
  shows "call_status E PREPARE_SNAPSHOT s = Some (NO_ERROR, s\<lparr>
      trace := X_malloc # X_cam O_prepare_snapshot # trace (posted s),
      evt_queue := q, cmd_sem := cmd_sem s - 1\<rparr>)"
proof -
  let ?s1 = "(posted s)\<lparr>trace := X_cam O_prepare_snapshot # trace (posted s),
    m_state := QCAMERA_SM_STATE_PREPARE_SNAPSHOT\<rparr>"
  have one: "run_state (stateMachine E PREPARE_SNAPSHOT) (posted s) = (NO_ERROR, ?s1)"
    using st ok by (simp add: run_stateMachine handler_defs previewing_prepareSnapshot_def
        prepareHardwareForSnapshot_def ext_def set_state_def)
  have sem: "0 < cmd_sem ?s1" using ready evts by (simp add: ready_def balanced_def)
  have two: "run_state (sm_iteration E) ?s1 = (True, s\<lparr>
      trace := X_malloc # X_cam O_prepare_snapshot # trace (posted s),
      evt_queue := q, cmd_sem := cmd_sem s - 1,
      m_apiResultList := [\<lparr>status = NO_ERROR, request_api = QCAMERA_SM_EVT_PREPARE_SNAPSHOT,
        result_value = RESULT_TYPE_DEF\<rparr>]\<rparr>)"
    using ready evts st
    by (simp add: sm_iteration_eq next_cmd_def pop_cmd_def ready_def run_stateMachine handler_defs
        prepare_internal_evt_def processPrepSnapshotDoneEvent_def set_state_def
        run_reply [OF mem] posted_def)
  have "waitAPIResult E QCAMERA_SM_EVT_PREPARE_SNAPSHOT ?s1 = Some (\<lparr>status = NO_ERROR,
      request_api = QCAMERA_SM_EVT_PREPARE_SNAPSHOT, result_value = RESULT_TYPE_DEF\<rparr>, s\<lparr>
      trace := X_malloc # X_cam O_prepare_snapshot # trace (posted s),
      evt_queue := q, cmd_sem := cmd_sem s - 1\<rparr>)"
    using sem ready by (subst waitAPIResult.simps) (simp add: two ready_def)
  with call_unfold [OF mem ready_serving [OF ready] one, of status "\<lambda>rc. rc"] ready show ?thesis
    by (simp add: call_status_def ready_def)
qed

end
