(* ===== verification/SM_Recording.thy ===== *)
theory SM_Recording
  imports SM_Behaviour
begin

text \<open>
  The channel the recorder reads from: in the two recording states the video channel is in the
  table and started. Entering the states establishes it, and every event that does not leave them
  keeps it.
\<close>

section \<open>The video channel\<close>

definition video_active :: "hal \<Rightarrow> bool" where
  "video_active s \<longleftrightarrow>
     (\<exists>ch. m_channels s QCAMERA_CH_TYPE_VIDEO = Some ch \<and> m_bIsActive ch)"

definition in_recording :: "qcamera_state \<Rightarrow> bool" where
  "in_recording st \<longleftrightarrow>
     st = QCAMERA_SM_STATE_RECORDING \<or> st = QCAMERA_SM_STATE_VIDEO_PIC_TAKING"

definition rec_inv :: "hal \<Rightarrow> bool" where
  "rec_inv s \<longleftrightarrow> (in_recording (m_state s) \<longrightarrow> video_active s)"

lemma video_active_eq: "m_channels s' = m_channels s \<Longrightarrow> video_active s' = video_active s"
  by (simp add: video_active_def)

lemma keeps_video: "keeps m_channels m \<Longrightarrow> keeps video_active m"
  by (simp add: keeps_def video_active_def)

named_theorems chans_ops "operations that keep the table of channels"
named_theorems video_ops "operations that keep the video channel's activity"

section \<open>Operations that do not touch the channels\<close>

lemmas chans_io = io_free_m_channels

lemma chans_hwi [chans_ops]:
  "keeps m_channels (setCallBacks E cb)" "keeps m_channels (enableMsgType m)"
  "keeps m_channels (disableMsgType m)" "keeps m_channels (msgTypeEnabled m)"
  "keeps m_channels (storeMetaDataInBuffers i)" "keeps m_channels (dump i)"
  "keeps m_channels (sendEvtNotify E c x y)" "keeps m_channels (procEvt E msg)"
  "keeps m_channels (setDisplayFrame b)" "keeps m_channels (waitDefferedWork E j)"
  "keeps m_channels (stopAdvancedCapture E t)" "keeps m_channels (configureAFBracketing E b)"
  "keeps m_channels (configureMTFBracketing E b)" "keeps m_channels (configureFlashBracketing E b)"
  "keeps m_channels isCaptureRunning" "keeps m_channels isPreviewRunning"
  "keeps m_channels (zsl_needs_restart E)" "keeps m_channels (stop_zsl_snapshot_if E)"
  "keeps m_channels (commitParameterChanges E)" "keeps m_channels (getParameters E)"
  "keeps m_channels (putParameters E p)" "keeps m_channels (registerFaceImage E p q)"
  "keeps m_channels (takeLiveSnapshot E)" "keeps m_channels (processJpegNotify E n)"
  "keeps m_channels (flush_zsl E d b)" "keeps m_channels (notify_buffer E n)"
  by (unfold setCallBacks_def enableMsgType_def disableMsgType_def msgTypeEnabled_def
      storeMetaDataInBuffers_def dump_def sendEvtNotify_def procEvt_def setDisplayFrame_def
      waitDefferedWork_def stopAdvancedCapture_def configureAFBracketing_def
      configureMTFBracketing_def configureFlashBracketing_def isCaptureRunning_def
      isPreviewRunning_def zsl_needs_restart_def stop_zsl_snapshot_if_def
      commitParameterChanges_def getParameters_def putParameters_def registerFaceImage_def
      takeLiveSnapshot_def processJpegNotify_def flush_zsl_def notify_buffer_def)
    (intro pres_intros keeps_ops chans_io; simp)+

lemma chans_hwi2 [chans_ops]:
  "keeps m_channels (processEvt E msg)" "keeps m_channels (calcThermalLevel E level)"
  "keeps m_channels (unconfigureAdvancedCapture E)" "keeps m_channels (autoFocus E)"
  "keeps m_channels (cancelAutoFocus E)" "keeps m_channels (focus_event_auto E d)"
  "keeps m_channels (focus_event_caf E mode d)" "keeps m_channels (processHistogramStats E n)"
  "keeps m_channels (processASDUpdate E n)" "keeps m_channels (processFaceDetectionResult E n)"
  "keeps m_channels (processAEInfo E n)" "keeps m_channels (processFocusPositionInfo E n)"
  "keeps m_channels (transAwbMetaToParams E n)"
  by (unfold processEvt_def calcThermalLevel_def unconfigureAdvancedCapture_def autoFocus_def
      cancelAutoFocus_def focus_event_auto_def focus_event_caf_def processHistogramStats_def
      processASDUpdate_def processFaceDetectionResult_def processAEInfo_def
      processFocusPositionInfo_def transAwbMetaToParams_def)
    (intro pres_intros chans_ops keeps_ops chans_io; simp)+

lemma chans_hwi3 [chans_ops]:
  "keeps m_channels (updateThermalLevel E level)" "keeps m_channels (cancelPicture_zsl E)"
  "keeps m_channels (processAutoFocusEvent E d)" "keeps m_channels (processAWBUpdate E n)"
  by (unfold updateThermalLevel_def cancelPicture_zsl_def processAutoFocusEvent_def
      processAWBUpdate_def)
    (intro pres_intros chans_ops keeps_ops chans_io; simp)+

lemma chans_sm [chans_ops]:
  "keeps m_channels (reply E msg rc v)" "keeps m_channels (set_state st)"
  "keeps m_channels (daemon_died E e)" "keeps m_channels (signalEvtResult r)"
  by (unfold reply_def set_state_def daemon_died_def signalEvtResult_def signalAPIResult_def)
    (cases e; simp?; intro pres_intros chans_ops keeps_ops chans_io; simp)+

section \<open>Operations on the table\<close>

text \<open>Operations that give a channel back with the activity it had.\<close>

definition quiet :: "(channel \<Rightarrow> (int \<times> channel) hal_op) \<Rightarrow> bool" where
  "quiet g \<longleftrightarrow> (\<forall>ch s. wp (g ch) (\<lambda>(rc, ch') s'. m_channels s' = m_channels s \<and>
     m_bIsActive ch' = m_bIsActive ch) s)"

lemma quiet_ops:
  "quiet (channel_config E t)" "quiet (channel_releaseFrame E t p b)"
  "quiet (channel_processZoomDone E t n)" "quiet (channel_UpdateStreamBasedParameters E t)"
proof -
  have ret: "wp (m \<bind> (\<lambda>rc. ret (f rc, ch))) (\<lambda>(rc, ch') s'. m_channels s' = m_channels s \<and>
      m_bIsActive ch' = m_bIsActive ch) s" if "keeps m_channels m" for m :: "'x hal_op" and f ch s
    by (rule wp_keeps_seq [OF that]) (simp add: wp_return)
  show "quiet (channel_config E t)" "quiet (channel_processZoomDone E t n)"
    unfolding quiet_def channel_config_def channel_processZoomDone_def
    by (intro allI ret keeps_ops chans_io)+
  show "quiet (channel_releaseFrame E t p b)"
    unfolding quiet_def channel_releaseFrame_def
    by (intro allI wp_ifI ret keeps_ops chans_io) (simp add: wp_return)
  show "quiet (channel_UpdateStreamBasedParameters E t)"
    unfolding quiet_def channel_UpdateStreamBasedParameters_def
    by (intro allI wp_keeps_seq [where g = m_channels] ret pres_intros keeps_ops chans_io) (simp add: wp_return)
qed

lemma video_with_channel [video_ops]:
  assumes "quiet g"
  shows "keeps video_active (with_channel t g)"
proof -
  have "wp (with_channel t g) (\<lambda>_ s'. video_active s' = video_active s) s" for s
  proof (cases "m_channels s t")
    case None
    then show ?thesis
      by (simp add: with_channel_def null_deref_def wp_simps video_active_def)
  next
    case (Some ch)
    show ?thesis
      unfolding with_channel_def wp_bind wp_gets Some option.case wp_case_prod set_channel_def
        wp_modify wp_return
      by (rule wp_mono [OF assms [unfolded quiet_def, rule_format, of ch s]])
        (use Some in \<open>auto simp: video_active_def\<close>)
  qed
  then show ?thesis by (simp add: keeps_def wp_run)
qed

lemma video_other [video_ops]:
  assumes "t \<noteq> QCAMERA_CH_TYPE_VIDEO"
  shows "keeps video_active (stopChannel E t)" "keeps video_active (delChannel E t True)"
proof -
  show "keeps video_active (stopChannel E t)"
    using stopChannel_law [of E t] assms
    by (auto simp: keeps_def video_active_def wp_run)
  show "keeps video_active (delChannel E t True)"
    using delChannel_chans [of E t] assms
    by (auto simp: keeps_def video_active_def wp_run)
qed

lemma io_free_video: "io_free video_active"
  by (rule io_freeI) (simp add: video_active_def)

lemmas video_intros = pres_intros chans_ops [THEN keeps_video] quiet_ops keeps_ops
  io_free_video

lemma video_hwi [video_ops]:
  "keeps video_active (cancelLiveSnapshot E)" "keeps video_active (updateParameters E str)"
  "keeps video_active (releaseRecordingFrame E p)" "keeps video_active (cancelPicture E)"
  by (unfold cancelLiveSnapshot_def updateParameters_def releaseRecordingFrame_def
      cancelPicture_def)
    (intro video_ops video_intros; simp add: video_active_def)+

lemma video_zoom_channels [video_ops]: "keeps video_active (zoom_channels E n rc ts)"
  by (induction ts arbitrary: rc; simp; (intro video_ops video_intros)?; simp)

lemma video_processZoomEvent [video_ops]: "keeps video_active (processZoomEvent E n)"
  by (simp add: processZoomEvent_def video_ops)

lemma video_sendCommand [video_ops]: "keeps video_active (sendCommand E cmd x y)"
  by (cases cmd; simp; intro video_ops video_intros; simp add: video_active_def)

lemma video_internal_evt [video_ops]: "keeps video_active (internal_evt E b e)"
  by (cases e; simp; (intro conjI impI)?; intro video_ops video_intros)

lemma video_named [video_ops]:
  "keeps video_active (recording_setParams E ps)" "keeps video_active (sm_sendCommand E cmd x y)"
  "keeps video_active (recording_takePicture E)" "keeps video_active (videopic_cancel E)"
  by (unfold recording_setParams_def sm_sendCommand_def recording_takePicture_def
      videopic_cancel_def) (intro video_ops video_intros)+

lemma video_answers [video_ops]:
  "keeps video_active m \<Longrightarrow> keeps video_active (answer E msg m)"
  "keeps video_active m \<Longrightarrow> keeps video_active (answer_evt msg m)"
  "keeps video_active (answer_flag E msg n)" "keeps video_active (answer_params E msg)"
  "keeps video_active (answer_msgTypeEnabled E msg w)" "keeps video_active (reject E msg)"
  "keeps video_active (answer_face E msg p q)"
  by (unfold answer_def answer_evt_def answer_flag_def answer_params_def
      answer_msgTypeEnabled_def reject_def answer_face_def) (intro video_ops video_intros | assumption)+

section \<open>The invariant\<close>

definition leaves_recording :: "sm_msg \<Rightarrow> bool" where
  "leaves_recording msg \<longleftrightarrow> msg = STOP_RECORDING \<or> msg = STOP_PREVIEW"

lemma video_recording:
  "\<not> leaves_recording msg \<Longrightarrow> keeps video_active (procEvtRecordingState E msg)"
  by (cases msg; simp add: handler_defs leaves_recording_def; intro video_ops video_intros)

lemma video_videopic:
  "\<not> leaves_recording msg \<Longrightarrow> keeps video_active (procEvtVideoPicTakingState E msg)"
  by (cases msg; simp add: handler_defs leaves_recording_def; intro video_ops video_intros)


text \<open>A channel that has been started successfully is present and active.\<close>

lemma channel_start_active:
  "wp (channel_start E t ch) (\<lambda>(rc, ch') s'. rc = NO_ERROR \<longrightarrow> m_bIsActive ch') s"
  unfolding channel_start_def
  by (intro wp_any wp_ifI) (auto simp: wp_return wp_bind wp_run)

lemma startChannel_active:
  "wp (startChannel E t) (\<lambda>rc s'. rc = NO_ERROR \<longrightarrow>
     (\<exists>ch. m_channels s' t = Some ch \<and> m_bIsActive ch)) s"
proof -
  have start: "wp (with_channel t (channel_start E t)) (\<lambda>rc s'. rc = NO_ERROR \<longrightarrow>
      (\<exists>ch. m_channels s' t = Some ch \<and> m_bIsActive ch)) s'" if "m_channels s' t \<noteq> None" for s'
  proof -
    from that obtain ch where ch: "m_channels s' t = Some ch" by blast
    show ?thesis
      unfolding with_channel_def wp_bind wp_gets ch option.case wp_case_prod set_channel_def
        wp_modify wp_return
      by (rule wp_mono [OF channel_start_active]) auto
  qed
  show ?thesis
    unfolding startChannel_def has_channel_def wp_bind [of "gets _"] wp_gets
    by (auto simp: wp_return intro!: start
        wp_seq [OF with_channel_chans [OF keeps_channel_ops(3) [OF chans_io]]])
qed

lemma startRecording_video:
  "wp (startRecording E) (\<lambda>rc s'. rc = NO_ERROR \<longrightarrow> video_active s') s"
  unfolding startRecording_def video_active_def
  by (intro wp_any) (auto simp: wp_return intro!: startChannel_active)

lemma recording_started:
  "wp (previewing_startRecording E) (\<lambda>rc s'. rc = NO_ERROR \<longrightarrow> video_active s') s"
  "wp (previewpic_startRecording E) (\<lambda>rc s'. rc = NO_ERROR \<longrightarrow> video_active s') s"
  unfolding previewing_startRecording_def previewpic_startRecording_def zsl_or_longshot_def
    set_state_def wp_bind [of "gets _"] wp_gets
  by (auto simp: wp_return wp_bind wp_when wp_modify video_active_def
      intro!: wp_mono [OF startRecording_video [unfolded video_active_def]])

lemma answer_video:
  assumes "wp m (\<lambda>rc s'. rc = NO_ERROR \<longrightarrow> video_active s') s"
  shows "wp (answer E msg m) (\<lambda>rc s'. rc = NO_ERROR \<longrightarrow> video_active s') s"
  unfolding answer_def
  by (rule wp_seq [OF assms], rule wp_keeps_seq [OF keeps_video [OF chans_sm(1)]])
    (simp add: wp_return)

lemma enters_recording:
  assumes "st' \<in> set (next_states st msg rc)" and "in_recording st'" and "\<not> in_recording st"
  shows "rc = NO_ERROR \<and> msg = START_RECORDING \<and>
    (st = QCAMERA_SM_STATE_PREVIEWING \<or> st = QCAMERA_SM_STATE_PREVIEW_PIC_TAKING)"
  using assms by (cases st; cases msg) (auto simp: next_defs in_recording_def split: if_splits)

lemma leaves_in_recording:
  "in_recording st \<Longrightarrow> leaves_recording msg \<Longrightarrow> st' \<in> set (next_states st msg rc) \<Longrightarrow>
   \<not> in_recording st'"
  by (auto simp: in_recording_def leaves_recording_def next_defs)

lemma rec_inv_stateMachine:
  assumes "mem_ok E" and "rec_inv s"
  shows "wp (stateMachine E msg) (\<lambda>_ s'. rec_inv s') s"
proof (cases "in_recording (m_state s)")
  case True
  show ?thesis
  proof (cases "leaves_recording msg")
    case True
    with \<open>in_recording (m_state s)\<close> show ?thesis
      by (intro wp_mono [OF stateMachine_contract [OF assms(1)]])
        (auto simp: sm_post_def rec_inv_def dest: leaves_in_recording)
  next
    case False
    have "wp (stateMachine E msg) (\<lambda>_ s'. video_active s' = video_active s) s"
      using True keepsD [OF video_recording [OF False, of E], of s]
        keepsD [OF video_videopic [OF False, of E], of s]
      by (auto simp: wp_run run_stateMachine in_recording_def)
    then show ?thesis
      using assms(2) True by (auto simp: rec_inv_def elim!: wp_mono)
  qed
next
  case False
  have "wp (stateMachine E msg) (\<lambda>rc s'. rc = NO_ERROR \<longrightarrow> video_active s') s"
    if "msg = START_RECORDING" "m_state s = QCAMERA_SM_STATE_PREVIEWING \<or>
      m_state s = QCAMERA_SM_STATE_PREVIEW_PIC_TAKING"
    using that(2) answer_video [OF recording_started(1) [of E s], of E msg]
      answer_video [OF recording_started(2) [of E s], of E msg]
    by (auto simp: wp_run run_stateMachine handler_defs that(1))
  then have "wp (stateMachine E msg) (\<lambda>rc s'. sm_post msg s rc s' \<and> (msg = START_RECORDING \<and>
      (m_state s = QCAMERA_SM_STATE_PREVIEWING \<or> m_state s = QCAMERA_SM_STATE_PREVIEW_PIC_TAKING) \<and>
      rc = NO_ERROR \<longrightarrow> video_active s')) s"
    using stateMachine_contract [OF assms(1), of msg s] by (auto simp: wp_run)
  then show ?thesis
    by (rule wp_mono) (use False in \<open>auto simp: sm_post_def rec_inv_def dest: enters_recording\<close>)
qed


text \<open>The thread that runs the machine keeps it.\<close>

lemma rec_inv_pop: "rec_inv s \<Longrightarrow> rec_inv (pop_cmd s)"
  by (simp add: rec_inv_def video_active_def pop_cmd_def split: list.split)

lemma rec_inv_iteration:
  assumes "mem_ok E" and "rec_inv s"
  shows "rec_inv (snd (run_state (sm_iteration E) s))"
  using rec_inv_stateMachine [OF assms(1) rec_inv_pop [OF assms(2)]] rec_inv_pop [OF assms(2)] assms(2)
  by (auto simp: sm_iteration_eq wp_run rec_inv_def video_active_def split: option.splits)

end
