(* ===== verification/SM_Failures.thy ===== *)
theory SM_Failures
  imports SM_Recording
begin

text \<open>
  Teardown of the preview, and what is left when a recording cannot be started: the preview has been
  stopped and its channels deleted, but the machine stays in the state of a running preview.
\<close>

section \<open>The preview's channels\<close>

definition no_preview :: "hal \<Rightarrow> bool" where
  "no_preview s \<longleftrightarrow> (\<forall>t \<in> {QCAMERA_CH_TYPE_ZSL, QCAMERA_CH_TYPE_PREVIEW,
     QCAMERA_CH_TYPE_VIDEO, QCAMERA_CH_TYPE_SNAPSHOT}. m_channels s t = None)"

lemma stopPreview_law: "wp (stopPreview E) (\<lambda>rc s'. rc = NO_ERROR \<and> no_preview s') s"
  unfolding stopPreview_def
  by (intro wp_any wp_seq [OF unpreparePreview_law]) (auto simp: wp_return no_preview_def)

lemma release_law: "wp (release E) (\<lambda>rc s'. rc = NO_ERROR \<and> (\<forall>t. m_channels s' t = None)) s"
proof -
  have "release E = ct.teardown E ch_types \<bind> (\<lambda>_. ret NO_ERROR)"
    by (simp add: release_def ct.teardown_def has_channel_def)
  moreover have "wp (ct.teardown E ch_types \<bind> (\<lambda>_. ret NO_ERROR))
      (\<lambda>rc s'. rc = NO_ERROR \<and> (\<forall>t. m_channels s' t = None)) s"
  proof (rule wp_seq [OF ct.teardown_empties])
    fix s' :: hal
    have "t \<in> set ch_types" for t by (cases t) (simp_all add: ch_types_def)
    then show "m_channels s' = (\<lambda>u. if u \<in> set ch_types then None else m_channels s u) \<Longrightarrow>
        wp (ret NO_ERROR) (\<lambda>rc s'. rc = NO_ERROR \<and> (\<forall>t. m_channels s' t = None)) s'"
      by (simp add: wp_return)
  qed
  ultimately show ?thesis by simp
qed

section \<open>Stopping the preview\<close>

text \<open>
  The states in which \<open>STOP_PREVIEW\<close> takes the preview down. While a picture is taken outside the
  preview, it only cancels the capture.
\<close>

definition stops_preview :: "qcamera_state \<Rightarrow> bool" where
  "stops_preview st \<longleftrightarrow> st \<in> {QCAMERA_SM_STATE_PREVIEW_READY, QCAMERA_SM_STATE_PREVIEWING,
     QCAMERA_SM_STATE_RECORDING, QCAMERA_SM_STATE_VIDEO_PIC_TAKING,
     QCAMERA_SM_STATE_PREVIEW_PIC_TAKING}"

text \<open>The preview is down: stopped, and none of its channels is left.\<close>

definition down :: "int \<Rightarrow> hal \<Rightarrow> bool" where
  "down rc s \<longleftrightarrow> m_state s = QCAMERA_SM_STATE_PREVIEW_STOPPED \<and> no_preview s"

lemma unprepare_none: "wp (unpreparePreview E) (\<lambda>_. no_preview) s"
  by (rule wp_mono [OF unpreparePreview_law]) (simp add: no_preview_def)

lemma no_preview_state [simp]: "no_preview (s\<lparr>m_state := st\<rparr>) = no_preview s"
  by (simp add: no_preview_def)

lemma down_set: "no_preview s \<Longrightarrow> wp (set_state QCAMERA_SM_STATE_PREVIEW_STOPPED \<bind> (\<lambda>_. ret rc)) down s"
  by (simp add: set_state_def wp_simps(2) wp_modify wp_return down_def)

lemma down_stop: "wp (stopPreview E \<bind> (\<lambda>rc. set_state QCAMERA_SM_STATE_PREVIEW_STOPPED \<bind> (\<lambda>_. ret rc))) down s"
  by (rule wp_seq [OF stopPreview_law]) (auto intro: down_set)

lemma down_unprepare:
  "wp (unpreparePreview E \<bind> (\<lambda>_. set_state QCAMERA_SM_STATE_PREVIEW_STOPPED \<bind> (\<lambda>_. ret rc))) down s"
  by (rule wp_seq [OF unprepare_none], rule down_set)

lemma down_named:
  "wp (ready_stopPreview E) down s" "wp (previewing_stopPreview E) down s"
  "wp (recording_stopPreview E) down s" "wp (videopic_stopPreview E) down s"
  "wp (previewpic_stopPreview E) down s"
  by (unfold ready_stopPreview_def previewing_stopPreview_def recording_stopPreview_def
      videopic_stopPreview_def previewpic_stopPreview_def)
    (rule down_stop down_unprepare wp_any)+

lemma answer_down: "wp m down s \<Longrightarrow> wp (answer E msg m) down s"
  unfolding answer_def
proof (erule wp_seq)
  fix rc s' assume d: "down rc s'"
  have "wp (reply E msg rc RESULT_TYPE_DEF) (\<lambda>_ t. m_channels t = m_channels s' \<and> m_state t = m_state s') s'"
    by (simp add: reply_def signalAPIResult_def malloc_def ext_def wp_run)
  then show "wp (reply E msg rc RESULT_TYPE_DEF \<bind> (\<lambda>_. ret rc)) down s'"
    by (rule wp_seq) (use d in \<open>simp add: wp_return down_def no_preview_def\<close>)
qed

lemma stop_preview_down:
  assumes "stops_preview (m_state s)"
  shows "wp (stateMachine E STOP_PREVIEW) down s"
  using assms answer_down [OF down_named(1)] answer_down [OF down_named(2)]
    answer_down [OF down_named(3)] answer_down [OF down_named(4)] answer_down [OF down_named(5)]
  by (auto simp: stops_preview_def wp_run run_stateMachine handler_defs)

section \<open>A backend that gives no channels\<close>

definition no_backend :: "env \<Rightarrow> bool" where
  "no_backend E \<longleftrightarrow> (\<forall>tr t. e_rc E tr (X_chan t C_init) = 0)"

lemma init_fails:
  "no_backend E \<Longrightarrow> wp (create_channel E t k) (\<lambda>rc _. rc \<noteq> NO_ERROR) s"
  unfolding create_channel_def
  by (rule wp_any, rule wp_ifI)
    (simp_all add: no_backend_def or_delete_def channel_init_def chan_def ext_def wp_run split_beta)

lemma add_fails: "no_backend E \<Longrightarrow> wp (addChannel E t) (\<lambda>rc _. rc \<noteq> NO_ERROR) s"
  by (cases t; simp add: add_defs; intro wp_any; (intro wp_any)?; auto intro: init_fails)

lemma no_preview_before: "no_preview s \<Longrightarrow> m_channels s' = table_before t (m_channels s) \<Longrightarrow> no_preview s'"
  by (cases t) (auto simp: no_preview_def)

definition failed :: "int \<Rightarrow> hal \<Rightarrow> bool" where
  "failed rc s \<longleftrightarrow> rc \<noteq> NO_ERROR \<and> no_preview s"

lemma no_preview_chans: "m_channels s' = m_channels s \<Longrightarrow> no_preview s' = no_preview s"
  by (simp add: no_preview_def)

lemma add_fails_empty:
  assumes "no_backend E" and "no_preview s"
  shows "wp (addChannel E t) failed s"
  by (rule wp_mono [OF wp_conj [OF add_fails [OF assms(1)] addChannel_law]])
    (use assms(2) in \<open>auto simp: added_def failed_def intro: no_preview_before\<close>)

text \<open>
  What switches the camera-mode features off puts no channel into the table, and neither does a
  failed start: an absent channel stays absent.
\<close>

definition absent :: "qcamera_ch_type \<Rightarrow> hal \<Rightarrow> bool" where
  "absent u s \<longleftrightarrow> m_channels s u = None"

named_theorems absent_ops "operations that put no channel into the table"

lemma absent_keeps: "keeps m_channels m \<Longrightarrow> pres (absent u) m"
  by (erule keeps_pres) (simp add: absent_def)

lemma absent_no_preview: "(\<And>u. pres (absent u) m) \<Longrightarrow> pres no_preview m"
  unfolding pres_def no_preview_def absent_def by (metis insertCI)

lemma absent_with_channel:
  "(\<And>ch. keeps m_channels (g ch)) \<Longrightarrow> pres (absent u) (with_channel t g)"
  unfolding pres_wp absent_def
  by (intro allI impI wp_mono [OF with_channel_chans]) (assumption, metis)

lemma absent_table [absent_ops]:
  "pres (absent u) (stopChannel E t)" "pres (absent u) (delChannel E t b)"
proof -
  show "pres (absent u) (stopChannel E t)"
    unfolding pres_wp absent_def by (intro allI impI wp_mono [OF stopChannel_law]) metis
  show "pres (absent u) (delChannel E t b)"
  proof (cases b)
    case True
    then show ?thesis
      unfolding pres_wp absent_def by (auto intro: wp_mono [OF delChannel_chans])
  next
    case False
    then show ?thesis
      unfolding delChannel_def
      by (auto intro!: pres_intros absent_with_channel keeps_channel_ops2 chans_io)
  qed
qed

lemma absent_cancelPicture [absent_ops]: "pres (absent u) (cancelPicture E)"
  unfolding cancelPicture_def
  by (intro absent_ops pres_intros chans_ops [THEN absent_keeps] absent_keeps [OF keeps_ext] chans_io)

lemma absent_sendCommand [absent_ops]: "pres (absent u) (sendCommand E cmd x y)"
  by (cases cmd; simp; intro absent_ops pres_intros chans_ops [THEN absent_keeps]
      absent_keeps [OF keeps_parm] chans_io; simp add: absent_def)

lemma absent_stop_camera_mode [absent_ops]: "pres (absent u) (stop_camera_mode E)"
  unfolding stop_camera_mode_def by (intro absent_ops pres_intros)


section \<open>A recording that cannot be started\<close>

lemma wp_no_preview:
  "(\<And>u. pres (absent u) m) \<Longrightarrow> no_preview s \<Longrightarrow> wp m (\<lambda>_. no_preview) s"
  using absent_no_preview pres_wp by blast

text \<open>After a failure the code is passed on.\<close>

lemma failed_if:
  "failed rc s \<Longrightarrow> wp n failed s \<Longrightarrow> wp (if rc \<noteq> NO_ERROR then n else m) failed s"
  "failed rc s \<Longrightarrow> wp n failed s \<Longrightarrow> wp (if rc = NO_ERROR then m else n) failed s"
  by (simp_all add: failed_def)

lemma failed_ret: "failed rc s \<Longrightarrow> wp (ret rc) failed s"
  by (simp add: wp_return)

lemma failed_after:
  assumes "\<And>u. pres (absent u) m" and "failed rc s"
  shows "wp (m \<bind> (\<lambda>_. ret rc)) failed s"
  by (rule wp_seq [OF wp_no_preview [OF assms(1)]]) (use assms(2) in \<open>auto simp: failed_def wp_return\<close>)

lemma no_preview_after:
  "keeps m_channels m \<Longrightarrow> no_preview s \<Longrightarrow> (\<And>a s'. no_preview s' \<Longrightarrow> wp (k a) Q s') \<Longrightarrow> wp (m \<bind> k) Q s"
  by (rule wp_keeps_seq [where g = m_channels], assumption) (metis no_preview_chans)

lemma prepare_video_fails:
  assumes "no_backend E" and "no_preview s"
  shows "wp (prepare_video E) failed s"
proof -
  note add = add_fails_empty [OF assms(1)]
  have video: "wp (addChannel E QCAMERA_CH_TYPE_VIDEO \<bind> (\<lambda>rc. if rc \<noteq> NO_ERROR
      then delChannel E QCAMERA_CH_TYPE_SNAPSHOT True \<bind> (\<lambda>_. ret rc) else ret rc)) failed s'"
    if "no_preview s'" for s'
    by (rule wp_seq [OF add [OF that]], rule failed_if(1), assumption, rule failed_after,
        rule absent_ops)
  show ?thesis
    unfolding prepare_video_def
  proof (rule wp_seq [OF wp_no_preview [OF absent_stop_camera_mode assms(2)]],
      rule no_preview_after [OF keeps_gets], assumption)
    fix p and s' :: hal
    assume none: "no_preview s'"
    show "wp ((if \<not> is4k2kResolution (videoSize p) \<and> \<not> isLowPowerEnabled p
          then addChannel E QCAMERA_CH_TYPE_SNAPSHOT else ret NO_ERROR) \<bind>
        (\<lambda>rc. if rc \<noteq> NO_ERROR then ret rc else addChannel E QCAMERA_CH_TYPE_VIDEO \<bind>
          (\<lambda>rc. if rc \<noteq> NO_ERROR
            then delChannel E QCAMERA_CH_TYPE_SNAPSHOT True \<bind> (\<lambda>_. ret rc) else ret rc))) failed s'"
    proof (cases "\<not> is4k2kResolution (videoSize p) \<and> \<not> isLowPowerEnabled p")
      case True
      show ?thesis
        unfolding if_P [OF True]
        by (rule wp_seq [OF add [OF none]], rule failed_if(1), assumption, rule failed_ret)
    next
      case False
      show ?thesis
        unfolding if_not_P [OF False] wp_bind [of "ret _"] wp_return
        using video [OF none] by (simp del: addChannel.simps)
    qed
  qed
qed

lemma preparePreview_fails:
  assumes "no_backend E" and "no_preview s"
  shows "wp (preparePreview E) failed s"
proof -
  note add = add_fails_empty [OF assms(1)]
  have preview: "wp (addChannel E QCAMERA_CH_TYPE_PREVIEW \<bind> (\<lambda>rc. if rc \<noteq> NO_ERROR then
        when_do hint (delChannel E QCAMERA_CH_TYPE_SNAPSHOT True \<bind>
          (\<lambda>_. delChannel E QCAMERA_CH_TYPE_VIDEO True \<bind> (\<lambda>_. ret ()))) \<bind> (\<lambda>_. ret rc)
      else when_do (\<not> hint) (waitDefferedWork E mMetadataJob) \<bind> (\<lambda>_. ret rc))) failed s"
    for hint
    by (rule wp_seq [OF add [OF assms(2)]], rule failed_if(1), assumption, rule failed_after)
      (intro absent_ops pres_intros)
  have rest: "wp ((if hint then prepare_video E else ret NO_ERROR) \<bind> (\<lambda>rc. if rc \<noteq> NO_ERROR
      then ret rc else k rc)) failed s" if "\<And>rc. wp (k rc) failed s" for hint k
  proof (cases hint)
    case True
    show ?thesis
      unfolding if_P [OF True]
      by (rule wp_seq [OF prepare_video_fails [OF assms]], rule failed_if(1), assumption,
          rule failed_ret)
  qed (simp add: wp_bind [of "ret _"] wp_return that)
  show ?thesis
    unfolding preparePreview_def wp_bind [of "gets _"] wp_gets Let_def
    by (intro wp_ifI add rest preview assms)
qed


lemma startRecording_fails:
  assumes "no_backend E" and hint: "\<not> recordingHint (mParameters s)"
  shows "wp (startRecording E) failed s"
proof -
  have stop: "wp (stopPreview E) (\<lambda>_. no_preview) s" for s
    by (rule wp_mono [OF stopPreview_law]) simp
  have first: "wp (stopPreview E \<bind> (\<lambda>_. parm E (P_updateRecordingHintValue True) \<bind>
      (\<lambda>_. preparePreview E \<bind> (\<lambda>rc. if rc = NO_ERROR then startChannel E QCAMERA_CH_TYPE_PREVIEW
        else ret rc)))) failed s" for s
    by (rule wp_seq [OF stop], rule no_preview_after [OF keeps_parm [OF chans_io]], assumption,
        rule wp_seq [OF preparePreview_fails [OF assms(1)]], assumption, rule failed_if(2),
        assumption, rule failed_ret)
  have last: "wp (gets (\<lambda>s. isLowPowerEnabled (mParameters s)) \<bind> (\<lambda>lowPower.
      gets metadata_stream \<bind> (\<lambda>meta.
      (if lowPower then case meta of None \<Rightarrow> ret rc | Some pMetaStream \<Rightarrow> k pMetaStream else ret rc) \<bind>
      (\<lambda>rc. if rc = NO_ERROR then m else ret rc)))) failed s'" if "failed rc s'" for rc s' k m
  proof -
    from that have "metadata_stream s' = None" "rc \<noteq> NO_ERROR"
      by (simp_all add: metadata_stream_def failed_def no_preview_def)
    with that show ?thesis
      by (simp add: wp_bind [of "gets _"] wp_gets wp_bind [of "ret _"] wp_return)
  qed
  let ?op = "(stopPreview E \<bind> (\<lambda>_. parm E (P_updateRecordingHintValue True) \<bind>
      (\<lambda>_. preparePreview E \<bind> (\<lambda>rc. if rc = NO_ERROR then startChannel E QCAMERA_CH_TYPE_PREVIEW
        else ret rc)))) \<bind> (\<lambda>rc. gets (\<lambda>s. isLowPowerEnabled (mParameters s)) \<bind> (\<lambda>lowPower.
      gets metadata_stream \<bind> (\<lambda>meta.
      (if lowPower then case meta of None \<Rightarrow> ret rc | Some pMetaStream \<Rightarrow>
          with_channel QCAMERA_CH_TYPE_VIDEO (channel_linkStream E QCAMERA_CH_TYPE_VIDEO pMetaStream)
        else ret rc) \<bind>
      (\<lambda>rc. if rc = NO_ERROR then startChannel E QCAMERA_CH_TYPE_VIDEO else ret rc))))"
  have "run_state (startRecording E) s = run_state ?op (s\<lparr>mVideoMem := None\<rparr>)"
    using hint by (simp add: startRecording_def split: prod.split)
  moreover have "wp ?op failed (s\<lparr>mVideoMem := None\<rparr>)"
    by (rule wp_seq [OF first], rule last)
  ultimately show ?thesis by (simp only: wp_run)
qed

lemma start_recording_fails:
  assumes "mem_ok E" and "no_backend E" and "\<not> recordingHint (mParameters s)"
    and "m_state s = QCAMERA_SM_STATE_PREVIEWING"
  shows "wp (stateMachine E START_RECORDING) (\<lambda>rc s'. rc \<noteq> NO_ERROR \<and>
     m_state s' = QCAMERA_SM_STATE_PREVIEWING \<and> no_preview s') s"
proof -
  have "wp (previewing_startRecording E) failed s"
    unfolding previewing_startRecording_def
    by (rule wp_seq [OF startRecording_fails [OF assms(2,3)]])
      (simp add: failed_def wp_when wp_bind [of "when_do _ _"] wp_return)
  then have "wp (answer E START_RECORDING (previewing_startRecording E)) failed s"
    unfolding answer_def
  proof (rule wp_seq)
    fix rc s' assume f: "failed rc s'"
    then have "no_preview s'" by (simp add: failed_def)
    then show "wp (reply E START_RECORDING rc RESULT_TYPE_DEF \<bind> (\<lambda>_. ret rc)) failed s'"
      by (rule no_preview_after [OF chans_sm(1)]) (use f in \<open>simp add: failed_def wp_return\<close>)
  qed
  then have "wp (stateMachine E START_RECORDING) failed s"
    using assms(4) by (simp add: wp_run run_stateMachine handler_defs)
  from wp_conj [OF this stateMachine_contract [OF assms(1)]] show ?thesis
    by (rule wp_mono) (use assms(4) in \<open>auto simp: failed_def sm_post_def next_previewing_def\<close>)
qed

end
