(* ===== verification/SM_Termination.thy ===== *)
theory SM_Termination
  imports SM_Thread
begin

text \<open>
  The state machine's thread comes to rest. The only event the HAL posts to itself is
  \<open>SNAPSHOT_DONE\<close> (\<open>sendCommand\<close> at the end of a longshot); a handler of an API command posts at
  most two of them, a handler of a backend event none, so the queues run empty.
\<close>

section \<open>How many events an operation posts\<close>

definition posts :: "nat \<Rightarrow> 'a hal_op \<Rightarrow> bool" where
  "posts n m \<longleftrightarrow> (\<forall>s. length (evt_queue (snd (run_state m s))) \<le> length (evt_queue s) + n)"

named_theorems posts_ops "bounds on the events an operation posts"
named_theorems silent_ops "operations that post no event"

lemma posts_keep: "keeps evt_queue m \<Longrightarrow> posts n m"
  by (simp add: posts_def keeps_def)

lemma posts_keep_bind: "keeps evt_queue m \<Longrightarrow> (\<And>a. posts n (k a)) \<Longrightarrow> posts n (m \<bind> k)"
  by (simp add: posts_def keeps_def split_beta) (metis (no_types, lifting))

lemma posts_bind_keep: "posts n m \<Longrightarrow> (\<And>a. keeps evt_queue (k a)) \<Longrightarrow> posts n (m \<bind> k)"
  by (simp add: posts_def keeps_def split_beta)

lemma posts_add:
  assumes "posts (Suc 0) m" and "\<And>a. posts (Suc 0) (k a)"
  shows "posts 2 (m \<bind> k)"
  unfolding posts_def
proof
  fix s
  obtain a s1 where m: "run_state m s = (a, s1)" by fastforce
  have "length (evt_queue s1) \<le> length (evt_queue s) + Suc 0"
    using assms(1) m unfolding posts_def by (metis snd_conv)
  moreover have "length (evt_queue (snd (run_state (k a) s1))) \<le> length (evt_queue s1) + Suc 0"
    using assms(2) by (simp add: posts_def)
  ultimately show "length (evt_queue (snd (run_state (m \<bind> k) s))) \<le> length (evt_queue s) + 2"
    using m by simp
qed

lemma posts_mono: "posts n m \<Longrightarrow> n \<le> k \<Longrightarrow> posts k m"
  unfolding posts_def by (meson add_le_cancel_left order_trans)

lemma posts_if: "(b \<Longrightarrow> posts n m) \<Longrightarrow> (\<not> b \<Longrightarrow> posts n l) \<Longrightarrow> posts n (if b then m else l)"
  by simp

lemma posts_when: "(b \<Longrightarrow> posts n m) \<Longrightarrow> posts n (when_do b m)"
  by (simp add: when_do_def posts_keep keeps_return)

lemma posts_case_prod: "(\<And>a b. posts n (g a b)) \<Longrightarrow> posts n (case p of (a, b) \<Rightarrow> g a b)"
  by (cases p) simp

lemma posts_Let: "posts n (g x) \<Longrightarrow> posts n (Let x g)"
  by simp

lemma keeps_ctl_evt: "keeps ctl_view m \<Longrightarrow> keeps evt_queue m"
  by (auto simp: keeps_def ctl_view_def)

lemma evt_free: "hw_free evt_queue"
  by (rule hw_freeI) simp

lemmas evt_frees = evt_free hw_io [OF evt_free]

lemmas ctl_ops = ctl_hwi1 ctl_hwi2 ctl_hwi3 ctl_takePicture ctl_hwi4 ctl_zoom_channels ctl_hwi5
  ctl_processAutoFocusEvent

lemmas silent_intros = pres_intros ctl_ops [THEN keeps_ctl_evt] keeps_ops evt_frees

lemma silent_sm [silent_ops]:
  "keeps evt_queue (set_state st)" "keeps evt_queue (reply E msg rc v)"
  "keeps evt_queue (signalEvtResult r)" "keeps evt_queue (daemon_died E e)"
  by (unfold set_state_def reply_def signalAPIResult_def signalEvtResult_def daemon_died_def)
    (cases e; simp?; intro silent_intros; simp)+

text \<open>A commanded end of a longshot is the only command that posts.\<close>

lemma silent_sendCommand [silent_ops]:
  "cmd \<noteq> CAMERA_CMD_LONGSHOT_OFF \<Longrightarrow> keeps evt_queue (sendCommand E cmd x y)"
  by (cases cmd; simp; intro silent_intros; simp)

lemma posts_procEvt [posts_ops]: "posts (Suc 0) (processEvt E msg)"
  by (simp add: posts_def processEvt_def procEvt_def malloc_def ext_def)

lemmas posts_intros = posts_keep_bind posts_if posts_when posts_case_prod posts_Let posts_bind_keep

lemma posts_sendCommand [posts_ops]: "posts (Suc 0) (sendCommand E cmd x y)"
proof (cases "cmd = CAMERA_CMD_LONGSHOT_OFF")
  case True
  show ?thesis
    unfolding True sendCommand.simps
    by (rule posts_keep_bind posts_bind_keep posts_when posts_ops
        | ((intro silent_intros)[1]; simp))+
qed (intro posts_keep silent_ops)


section \<open>Operations that restart the preview\<close>

lemma posts_stop_camera_mode [posts_ops]: "posts (Suc 0) (stop_camera_mode E)"
  unfolding stop_camera_mode_def
  by (rule posts_ops posts_if posts_keep_bind posts_bind_keep posts_keep
      | ((intro silent_ops silent_intros)[1]; (simp; fail)))+

lemma posts_prepare_video [posts_ops]: "posts (Suc 0) (prepare_video E)"
  unfolding prepare_video_def
  by (intro posts_bind_keep posts_ops) (intro silent_ops silent_intros)

lemma posts_preparePreview [posts_ops]: "posts (Suc 0) (preparePreview E)"
  unfolding preparePreview_def
  by (rule posts_ops posts_if posts_Let posts_keep_bind posts_bind_keep posts_keep
      | ((intro silent_ops silent_intros)[1]; (simp; fail)))+


lemma silent_named [silent_ops]:
  "keeps evt_queue zsl_or_longshot" "keeps evt_queue (stopped_setParams E ps)"
  "keeps evt_queue (ready_setPreviewWindow E w)" "keeps evt_queue (ready_stopPreview E)"
  "keeps evt_queue (previewing_stopPreview E)" "keeps evt_queue (commit_setParams E ps)"
  "keeps evt_queue (pic_stop E)" "keeps evt_queue (pic_takePicture E)"
  "keeps evt_queue (pic_snapshotDone E)" "keeps evt_queue (recording_setParams E ps)"
  "keeps evt_queue (recording_takePicture E)" "keeps evt_queue (recording_stop E)"
  "keeps evt_queue (recording_stopPreview E)" "keeps evt_queue (videopic_cancel E)"
  "keeps evt_queue (previewpic_stopPreview E)"
  by (unfold zsl_or_longshot_def stopped_setParams_def ready_setPreviewWindow_def
      ready_stopPreview_def previewing_stopPreview_def commit_setParams_def pic_stop_def
      pic_takePicture_def pic_snapshotDone_def recording_setParams_def recording_takePicture_def
      recording_stop_def recording_stopPreview_def videopic_cancel_def previewpic_stopPreview_def)
    (intro silent_ops silent_intros; simp)+

lemma silent_named2 [silent_ops]:
  "keeps evt_queue (videopic_stopRecording E)" "keeps evt_queue (videopic_stopPreview E)"
  "keeps evt_queue (previewpic_cancel E)"
  by (unfold videopic_stopRecording_def videopic_stopPreview_def previewpic_cancel_def)
    (intro silent_ops silent_intros; simp)+

lemma silent_evts [silent_ops]:
  "keeps evt_queue (internal_evt E b i)" "keeps evt_queue (prepare_internal_evt E i)"
  "keeps evt_queue (pic_evtNotify E e)" "keeps evt_queue (previewpic_evtNotify E e)"
  by (unfold prepare_internal_evt_def pic_evtNotify_def previewpic_evtNotify_def)
    (cases i; cases e; simp?; (intro conjI impI)?; intro silent_ops silent_intros; simp)+

lemma posts_prepare_and_start [posts_ops]: "posts (Suc 0) (prepare_and_start E)"
  "posts (Suc 0) (startRecording E)"
  by (unfold prepare_and_start_def startRecording_def)
    (rule posts_ops posts_if posts_Let posts_keep_bind posts_bind_keep posts_keep
      | ((intro silent_ops silent_intros)[1]; (simp; fail)))+


lemma posts_named [posts_ops]:
  "posts (Suc 0) (stopped_startPreview E)" "posts (Suc 0) (stopped_startNoDisplay E)"
  "posts (Suc 0) (ready_setParams E ps)" "posts (Suc 0) (previewing_setParams E ps)"
  "posts (Suc 0) (previewing_startRecording E)" "posts (Suc 0) (previewing_takePicture E)"
  "posts (Suc 0) (pic_stopCaptureChannel E)" "posts (Suc 0) (previewpic_setParams E ps)"
  "posts (Suc 0) (previewpic_startRecording E)" "posts (Suc 0) (sm_sendCommand E cmd x y)"
  "posts (Suc 0) (pic_sendCommand E cmd x y)"
  by (unfold stopped_startPreview_def stopped_startNoDisplay_def ready_setParams_def
      previewing_setParams_def previewing_startRecording_def previewing_takePicture_def
      pic_stopCaptureChannel_def previewpic_setParams_def previewpic_startRecording_def
      sm_sendCommand_def pic_sendCommand_def)
    (rule posts_ops posts_if posts_Let posts_when posts_case_prod posts_keep_bind posts_bind_keep
        posts_keep
      | ((intro silent_ops silent_intros)[1]; (simp; fail)))+

text \<open>Only turning the longshot on can need two: the command, and the restart after it.\<close>

lemma posts_previewing_sendCommand [posts_ops]: "posts 2 (previewing_sendCommand E cmd x y)"
  unfolding previewing_sendCommand_def
  by (intro posts_add posts_ops posts_case_prod posts_if)
    (rule posts_ops posts_keep_bind posts_keep
      | ((intro silent_ops silent_intros)[1]; (simp; fail)))+

lemma silent_answers [silent_ops]:
  "keeps evt_queue m \<Longrightarrow> keeps evt_queue (answer E msg m)"
  "keeps evt_queue m \<Longrightarrow> keeps evt_queue (answer_evt msg m)"
  "keeps evt_queue (answer_flag E msg n)" "keeps evt_queue (answer_params E msg)"
  "keeps evt_queue (answer_msgTypeEnabled E msg w)" "keeps evt_queue (reject E msg)"
  "keeps evt_queue (answer_face E msg p q)" "keeps evt_queue (previewing_prepareSnapshot E msg)"
  by (unfold answer_def answer_evt_def answer_flag_def answer_params_def
      answer_msgTypeEnabled_def reject_def answer_face_def previewing_prepareSnapshot_def)
    (intro silent_ops silent_intros | assumption)+

lemma posts_answer: "posts n m \<Longrightarrow> posts n (answer E msg m)"
  unfolding answer_def by (rule posts_bind_keep) (assumption, intro silent_ops silent_intros)

section \<open>Handlers\<close>

definition quiet_msg :: "sm_msg \<Rightarrow> bool" where
  "quiet_msg msg \<longleftrightarrow> \<not> is_api (evt_of msg) \<and> msg \<noteq> STOP_CAPTURE_CHANNEL"

lemma silent_quiet:
  assumes "quiet_msg msg"
  shows "keeps evt_queue (procEvtPreviewStoppedState E msg)"
    "keeps evt_queue (procEvtPreviewReadyState E msg)"
    "keeps evt_queue (procEvtPreviewingState E msg)"
    "keeps evt_queue (procEvtPrepareSnapshotState E msg)"
    "keeps evt_queue (procEvtPicTakingState E msg)"
    "keeps evt_queue (procEvtRecordingState E msg)"
    "keeps evt_queue (procEvtVideoPicTakingState E msg)"
    "keeps evt_queue (procEvtPreviewPicTakingState E msg)"
  using assms
  by (cases msg; simp add: quiet_msg_def handler_defs;
      intro silent_ops silent_intros)+


lemma posts_handler:
  "posts 2 (procEvtPreviewStoppedState E msg)" "posts 2 (procEvtPreviewReadyState E msg)"
  "posts 2 (procEvtPreviewingState E msg)" "posts 2 (procEvtPrepareSnapshotState E msg)"
  "posts 2 (procEvtPicTakingState E msg)" "posts 2 (procEvtRecordingState E msg)"
  "posts 2 (procEvtVideoPicTakingState E msg)" "posts 2 (procEvtPreviewPicTakingState E msg)"
  by (cases msg; simp add: handler_defs;
      (rule posts_answer posts_ops posts_ops [THEN posts_mono]
       | ((rule posts_keep, (intro silent_ops silent_intros)[1]); (simp; fail))
       | (simp; fail))+)+


lemma posts_stateMachine: "posts 2 (stateMachine E msg)"
  using posts_handler [of E msg] unfolding posts_def
  by (auto simp: run_stateMachine split: qcamera_state.split)

lemma silent_stateMachine: "quiet_msg msg \<Longrightarrow> keeps evt_queue (stateMachine E msg)"
  using silent_quiet [of msg E] unfolding keeps_def
  by (auto simp: run_stateMachine split: qcamera_state.split)

section \<open>The loop comes to rest\<close>

text \<open>The queue of backend events holds backend events only.\<close>

definition evts_ok :: "hal \<Rightarrow> bool" where
  "evts_ok s \<longleftrightarrow>
     (\<forall>c \<in> set (evt_queue s). \<exists>msg. c = QCAMERA_SM_CMD_TYPE_EVT msg \<and> quiet_msg msg)"

definition rank :: "hal \<Rightarrow> nat" where
  "rank s = 3 * length (api_queue s) + length (evt_queue s)"

lemma evts_ok_others:
  "evts_ok s \<longleftrightarrow> (\<forall>c \<in> set (other_evts s). \<exists>msg. c = QCAMERA_SM_CMD_TYPE_EVT msg \<and> quiet_msg msg)"
proof -
  have "quiet_msg SNAPSHOT_DONE" by (simp add: quiet_msg_def)
  then show ?thesis by (auto simp: evts_ok_def other_evts_def)
qed

lemma iteration_rank:
  assumes "mem_ok E" and "balanced s" and "evts_ok s" and "0 < cmd_sem s"
    and "run_state (sm_iteration E) s = (True, s')"
  shows "rank s' < rank s \<and> evts_ok s'"
proof -
  obtain cmd where cmd: "next_cmd s = Some cmd"
    using balanced_next_cmd [OF assms(2,4)] by auto
  with assms(5) obtain msg where msg: "cmd_msg cmd = Some msg"
    and s': "s' = snd (run_state (stateMachine E msg) (pop_cmd s))"
    by (auto simp: sm_iteration_eq split: option.splits)
  note post = sm_postD [OF stateMachine_post [OF assms(1), of msg "pop_cmd s"], folded s']
  have ok: "evts_ok s'"
    using assms(3) post(3) unfolding evts_ok_others
    by (auto simp: pop_cmd_def other_evts_def split: list.splits dest: list.set_sel(2) [rotated])
      (metis list.sel(2) list.set_sel(2))+
  show ?thesis
  proof (cases "api_queue s")
    case Nil
    with cmd obtain q where q: "evt_queue s = cmd # q"
      by (auto simp: next_cmd_def split: list.splits)
    with assms(3) msg have "quiet_msg msg" by (auto simp: evts_ok_def)
    then have "evt_queue s' = q"
      using keepsD [OF silent_stateMachine, of msg E "pop_cmd s"] q Nil
      by (simp add: s' pop_cmd_def)
    with q Nil ok post(1) show ?thesis by (simp add: rank_def pop_cmd_def)
  next
    case (Cons c q)
    have "length (evt_queue s') \<le> length (evt_queue (pop_cmd s)) + 2"
      using posts_stateMachine [of E msg] unfolding posts_def s' by blast
    moreover have "evt_queue (pop_cmd s) = evt_queue s" "api_queue s' = q"
      using Cons post(1) by (simp_all add: pop_cmd_def)
    ultimately show ?thesis using Cons ok by (simp add: rank_def)
  qed
qed

lemma smEvtProcRoutine_total:
  assumes "mem_ok E"
  shows "balanced s \<Longrightarrow> evts_ok s \<Longrightarrow> \<exists>y. smEvtProcRoutine E s = Some y"
proof (induction "rank s" arbitrary: s rule: less_induct)
  case less
  show ?case
  proof (cases "cmd_sem s \<le> 0")
    case True
    then have "smEvtProcRoutine E s = Some (False, s)" by (subst smEvtProcRoutine.simps) simp
    then show ?thesis by blast
  next
    case False
    obtain r s' where it: "run_state (sm_iteration E) s = (r, s')" by fastforce
    show ?thesis
    proof (cases r)
      case True
      with False less.prems it have "rank s' < rank s \<and> evts_ok s'"
        by (intro iteration_rank [OF assms]) simp_all
      moreover have "balanced s'"
        using balanced_iteration [OF assms less.prems(1)] False it by simp
      ultimately obtain y where "smEvtProcRoutine E s' = Some y" using less.hyps by blast
      with False it True have "smEvtProcRoutine E s = Some y"
        by (subst smEvtProcRoutine.simps) simp
      then show ?thesis by blast
    next
      case r: False
      with False it have "smEvtProcRoutine E s = Some (True, s')"
        by (subst smEvtProcRoutine.simps) simp
      then show ?thesis by blast
    qed
  qed
qed

end
