(* ===== verification/Spec2Isabelle.thy ===== *)
theory Spec2Isabelle
  imports Loc_Timer_Props Loc_Engine_Props Loc_Subscribers Loc_Task MM_Camera_Props Cmd_Thread HAL_System SM_Failures SM_Termination
begin

text \<open>
  A model of the Qualcomm camera HAL of this device tree (\<open>src/camera/QCamera2\<close>), of the camera
  interface below it (\<open>stack/mm-camera-interface\<close>), of the location engine and the utilities it runs on
  (\<open>src/gps\<close>), and of the properties that make them correct.

  \<^bold>\<open>The program.\<close> The framework calls the \<open>camera_device\<close> operations of
  \<open>QCamera2HWI.cpp\<close>. Each call posts an event to the state machine (\<open>QCameraStateMachine.cpp\<close>)
  and waits for the result. The thread of the state machine takes one command after the other, API
  calls before backend events, and runs the handler of the current state; handlers run the
  operations of \<open>QCamera2HWI.cpp\<close>, which build, start, stop and delete channels of streams
  (\<open>QCameraChannel.cpp\<close>) and post further events. Below, \<open>mm_camera_stream.c\<close> drives each stream
  through its states and counts the references to its buffers, and \<open>mm_camera_channel.c\<close> matches the
  frames of the bundled streams into superbuffers and delivers them on request; \<open>mm_camera.c\<close> and
  \<open>mm_camera_interface.c\<close> keep the cameras that are open and find channels by their handles.

  The location engine (\<open>src/gps/loc_api/libloc_api_50001\<close>) is a thread with a queue of messages, which
  the framework and the modem send: fixes and their reports (\<open>loc_eng.cpp\<close>), the state machines of the
  data connections for assistance with their subscribers (\<open>loc_eng_agps.cpp\<close>), and the requests of the
  network for a position, each with a thread that waits for the user (\<open>loc_eng_ni.cpp\<close>). Below it
  (\<open>src/gps/utils\<close>) are a linked list, a message queue on that list, a task that serves such a queue, the
  threads of tasks, and timers: a heap ranked by time for each kind of kernel timer, served by a message
  thread and a poll thread.

  \<^bold>\<open>The theories.\<close>
  \<^item> \<open>HAL_Prelude\<close>: status codes, the state monad, weakest preconditions and the preservation of
    observations, with their rule collections.
  \<^item> \<open>Cam_Queue\<close>: \<open>QCameraQueue.cpp\<close> over \<open>cam_list.h\<close>, the circular doubly linked list on a heap of
    links, refined to a list; the interface \<open>command_queue\<close>.
  \<^item> \<open>Cmd_Thread\<close>: \<open>QCameraCmdThread.cpp\<close> over that queue.
  \<^item> \<open>HAL_State\<close>: the record of one open camera, its events, payloads and results, and the
    environment below the HAL; \<open>procAPI\<close>, \<open>procEvt\<close>, \<open>signalAPIResult\<close>.
  \<^item> \<open>HWI_Channels\<close>: the table \<open>m_channels\<close>, the channels and how each kind is built; the interface
    \<open>channel_table\<close>. \<open>HWI_Ops\<close>: the operations the handlers call.
  \<^item> \<open>SM_Preview\<close>, \<open>SM_Capture\<close>: the handlers of the eight states, one definition per handler and
    one per action of more than a call. \<open>SM_Contract\<close>: what a handler may do to the state, the queues
    and the results, proved of all of them.
  \<^item> \<open>SM_Thread\<close>: \<open>smEvtProcRoutine\<close>, \<open>releaseThread\<close>, \<open>waitAPIResult\<close>. \<open>HWI_Api\<close>: the entry points.
    \<open>HAL_System\<close>: callers, thread and backend interleaved; the interface \<open>request_reply\<close>.
  \<^item> \<open>SM_Behaviour\<close>, \<open>SM_Recording\<close>, \<open>SM_Failures\<close>, \<open>SM_Termination\<close>: refused requests and flags,
    the recording invariant, failing restarts, and the termination of the thread's loop.

  \<^item> \<open>Cam_Types\<close>: what both layers share. \<open>MM_Offset\<close>, \<open>MM_Offset_Sound\<close>: the layouts of frames
    (\<open>mm_stream_calc_offset\<close>) in 32-bit words, and that no product wraps and every plane fits.
  \<^item> \<open>MM_Stream\<close>: the stream object, its seven states, buffers, frame path and thread.
    \<open>MM_Stream_Refs\<close>, \<open>MM_Stream_Runs\<close>: reference counts over any interleaving; \<open>MM_Stream_Fsm\<close>: the
    object fits its state.
  \<^item> \<open>MM_Superbuf\<close>, \<open>MM_Superbuf_Inv\<close>: the superbuffer queue, its invariant, conservation and bounds.
  \<^item> \<open>MM_Channel\<close>: the channel object, its events and threads. \<open>MM_Channel_Thread\<close>: the thread returns
    and serves; \<open>MM_Channel_Start\<close>: start and stop; \<open>MM_Restart\<close>: starting again.
  \<^item> \<open>MM_Poll\<close>: the poll threads, refined to a registry of callbacks. \<open>MM_Camera\<close>: the camera object
    (\<open>mm_camera.c\<close>) and the channel operations by handle; \<open>MM_Interface\<close>: the table of cameras and the
    entry points (\<open>mm_camera_interface.c\<close>); \<open>MM_Probe\<close>: their discovery. \<open>MM_Handles\<close>: no operation
    changes the handles of the channels; the interface \<open>giving_back\<close>.
  \<^item> \<open>MM_Properties\<close>, \<open>MM_Camera_Props\<close>: the properties of this layer; the ones of the HAL are below.

  \<^item> \<open>Loc_List\<close>: \<open>linked_list.c\<close> on elements in memory, refined to a list. \<open>Loc_MsgQ\<close>: \<open>msg_q.c\<close> with its
    senders and receivers, and the turn of a task (\<open>MsgTask.cpp\<close>); the interface \<open>message_source\<close>.
    \<open>Loc_Thread\<close>: \<open>LocThread.cpp\<close>, two threads around a shared object. \<open>Loc_Task\<close>: a task with its thread
    and who destroys it, and the properties of these four.
  \<^item> \<open>Loc_Heap\<close>: \<open>LocHeap.cpp\<close>, refined to a multiset; the interface \<open>rankable\<close>. \<open>Loc_Timer\<close>,
    \<open>Loc_Timer_Inv\<close>, \<open>Loc_Timer_Props\<close>: \<open>LocTimer.cpp\<close>, its invariant and its properties.
  \<^item> \<open>Loc_Agps\<close>, \<open>Loc_Agps_Props\<close>: the state machines of the data connections. \<open>Loc_Subscribers\<close>: their
    subscribers are in the linked list. \<open>Loc_NI\<close>: the requests of the network and their threads.
  \<^item> \<open>Loc_Engine\<close>: the messages of the engine, which call both. \<open>Loc_Engine_Props\<close>: what every message
    keeps; the interface \<open>message_invariant\<close>.

  \<^bold>\<open>The environment.\<close> Calls that leave the modelled code (the parameter object, the streams below a
  channel, the post-processor, the backend, \<open>malloc\<close>, system properties) are values of
  \<open>ext_call\<close>, recorded in a trace; the record \<open>env\<close> answers each from the whole trace before it. The
  theorems hold for every environment, or name what they ask of it (\<open>mem_ok\<close>: memory never runs out).
  In the layer below, the results of ioctls, mappings and allocations and the frames of the kernel are
  lists in the world of an operation, used up one by one; an empty list answers success. A pointer to
  a channel or a stream is its index; a null pointer that is followed is \<^term>\<open>None\<close>.

  \<^bold>\<open>Loops.\<close> \<open>smEvtProcRoutine\<close>, the waits for a result and the flush loops are partial functions into
  \<open>option\<close>, \<^term>\<open>None\<close> where the code does not return; that they return is a theorem of its own
  (\<open>thread_comes_to_rest\<close>, \<open>release_thread_exits\<close>, \<open>waiting_caller_is_served\<close>, \<open>flush_empties\<close>;
  \<open>list_runs_refine\<close> for the loops of the linked list). The loops of the location engine are recursive
  functions with their termination proofs. Threads that interleave are lists of steps, over all of which
  the theorems quantify. No fuel is used.

  \<^bold>\<open>Not modelled.\<close> The locks: an operation between lock and unlock is one step. The contents of frames
  and of statistics: payloads are numbers that identify them. The frame rates of \<open>calcThermalLevel\<close>.
  The parsing of parameters, the post-processor, the JPEG interface, the streams' memory, the sockets and
  the interleavings of two opens. The poll thread of a channel is launched and released in the channel's
  trace, its frames are steps; \<open>MM_Poll\<close> has the thread itself. The HAL's calls of the layer below stay
  calls of its environment. Of the location engine: NMEA sentences, XTRA data, the pipes of the daemons,
  server addresses and the configuration files, which are text handling; \<open>timerfd_create\<close> and the
  creation of the threads of network requests, which are taken to succeed.
\<close>

section \<open>A camera to evaluate on\<close>

text \<open>
  The witnesses of the properties below use one environment, in which memory never runs out and
  every call of the lower layers succeeds, and one in which the backend gives no channels.
\<close>

definition calm_rc :: "ext_call \<Rightarrow> int" where
  "calm_rc c = (case c of
     X_malloc \<Rightarrow> 1
   | X_chan t k \<Rightarrow> (case k of C_init \<Rightarrow> 1 | C_link \<Rightarrow> 1 | _ \<Rightarrow> 0)
   | X_allocateStreamInfoBuf st \<Rightarrow> 1
   | _ \<Rightarrow> 0)"

definition calm :: env where
  "calm = \<lparr>e_rc = (\<lambda>tr. calm_rc), e_out = (\<lambda>tr c. 0), e_parms = (\<lambda>tr c p. p),
     e_mask = (\<lambda>m. case m of CAMERA_MSG_ERROR \<Rightarrow> 1 | CAMERA_MSG_SHUTTER \<Rightarrow> 2
       | CAMERA_MSG_FOCUS \<Rightarrow> 4 | CAMERA_MSG_FOCUS_MOVE \<Rightarrow> 2048),
     e_low_power_mode_supported = False\<rparr>"

definition dark :: env where
  "dark = calm\<lparr>e_rc := (\<lambda>tr c. if c = X_malloc then 1 else 0)\<rparr>"

definition idle_parms :: qcam_parms where
  "idle_parms = \<lparr>isZSLMode = False, recordingHint = False, isNoDisplayMode = False,
     isLowPowerEnabled = False, isFaceDetectionEnabled = False, isHistogramEnabled = False,
     isUbiFocusEnabled = False, isUbiRefocus = False, isMultiTouchFocusEnabled = False,
     isMTFRefocus = False, isMultiTouchFocusSelected = False, isTouchFocusing = False,
     isOptiZoomEnabled = False, isfssrEnabled = False, isHDREnabled = False,
     isChromaFlashEnabled = False, isAEBracketEnabled = False, isLongshotSnapsLimited = False,
     isDisplayFrameNeeded = True, videoSize = (1920, 1080), pictureFormat = CAM_FORMAT_JPEG,
     focusMode = CAM_FOCUS_MODE_AUTO, keyZoom = 0, thermalMode = QCAMERA_THERMAL_ADJUST_FPS,
     numOfSnapshots = 1, burstCountForAdvancedCapture = 0\<rparr>"

definition idle :: hal where
  "idle = \<lparr>m_state = QCAMERA_SM_STATE_PREVIEW_STOPPED, api_queue = [], evt_queue = [],
     cmd_sem = 0, m_smThreadActive = True, cmd_pid = True, m_apiResultList = [],
     m_evtResult = None, mCameraOpened = True, mPreviewWindow = None,
     mCallbacks = \<lparr>notify_cb = None, data_cb = None, data_cb_timestamp = None,
       get_memory = None, user = None\<rparr>,
     mMsgEnabled = 0, mStoreMetaDataInFrame = 0, mParameters = idle_parms,
     m_channels = (\<lambda>t. None), mThermalLevel = QCAMERA_THERMAL_NO_ADJUSTMENT,
     m_currentFocusState = CAM_AF_NOT_FOCUSED, mCancelAutoFocus = False, mActiveAF = False,
     mLongshotEnabled = False, mPrepSnapRun = False, mLiveSnapshotThread = False,
     mFlashNeeded = False, mIs3ALocked = False, mZoomLevel = 0,
     mAdvancedCaptureConfigured = False, mFPSReconfigure = False, m_bPreviewStarted = False,
     m_bRecordStarted = False, mNumPreviewFaces = - 1, mPreviewFrameSkipValid = False,
     mVideoMem = None, mMultipleStages = False, m_bIntEvtPending = False, faulted = False,
     trace = []\<rparr>"

text \<open>The same camera in another state.\<close>

definition idle_in :: "qcamera_state \<Rightarrow> hal" where
  "idle_in st = idle\<lparr>m_state := st\<rparr>"

lemma calm_mem: "mem_ok calm" "mem_ok dark"
  by (simp_all add: mem_ok_def calm_def calm_rc_def dark_def)

lemma dark_backend: "no_backend dark"
  by (simp add: no_backend_def dark_def calm_def)

lemma idle_ready [simp]: "ready (idle_in st)" "serving (idle_in st)" "m_state (idle_in st) = st"
  "balanced (idle_in st)" "evts_ok (idle_in st)" "evt_queue (idle_in st) = []"
  "m_smThreadActive (idle_in st)" "api_queue (idle_in st) = []" "m_apiResultList (idle_in st) = []"
  "\<not> recordingHint (mParameters (idle_in st))" "cmd_pid (idle_in st)" "queues_ok (idle_in st)"
  "cmd_sem (idle_in st) = 0"
  by (simp_all add: ready_def serving_def balanced_def idle_in_def idle_def idle_parms_def
      evts_ok_def queues_ok_def other_evts_def)

section \<open>The state machine\<close>














section \<open>The thread\<close>

text \<open>
  C31: the loop of the state machine's thread never runs for ever. With queues whose counts match
  the semaphore and that hold backend events only where they should, it comes to an end: it exits,
  or it waits on the semaphore, and then both queues are empty.
\<close>

theorem thread_comes_to_rest:
  assumes "mem_ok E" and "balanced s" and "evts_ok s"
  shows "\<exists>exited s'. smEvtProcRoutine E s = Some (exited, s') \<and>
    (\<not> exited \<longrightarrow> api_queue s' = [] \<and> evt_queue s' = [] \<and> cmd_sem s' = 0)"
proof -
  obtain exited s' where y: "smEvtProcRoutine E s = Some (exited, s')"
    using smEvtProcRoutine_total [OF assms] by auto
  then show ?thesis
    using smEvtProcRoutine_blocked [OF assms(1,2), of s'] by (cases exited) auto
qed

theorem thread_comes_to_rest_witness:
  "\<exists>exited s'. smEvtProcRoutine calm (idle_in QCAMERA_SM_STATE_PREVIEWING) = Some (exited, s')"
  using thread_comes_to_rest [OF calm_mem(1), of "idle_in QCAMERA_SM_STATE_PREVIEWING"] by auto


definition recording_cam :: hal where
  "recording_cam = (idle_in QCAMERA_SM_STATE_RECORDING)\<lparr>m_channels := (\<lambda>t.
     if t = QCAMERA_CH_TYPE_VIDEO then Some \<lparr>m_handle = 1, m_bIsActive = True,
       mStreams = [\<lparr>s_type = CAM_STREAM_TYPE_VIDEO, s_channel = 1, s_deffered = False\<rparr>]\<rparr> else None),
     api_queue := [QCAMERA_SM_CMD_TYPE_API TAKE_PICTURE], cmd_sem := 1\<rparr>"


text \<open>
  The thread executes the queued API commands in their order and answers each of them once.
  After a batch \<open>ms\<close> on a camera with no results, the results for an event are as many as its
  commands in the batch, less the ones the machine dropped and the one it still holds.
\<close>

theorem batch_is_answered:
  assumes "mem_ok E" and "is_api e" and "m_apiResultList s = []"
    and "m_state s \<noteq> QCAMERA_SM_STATE_PREPARE_SNAPSHOT"
  shows "count_list (map request_api (m_apiResultList (exec_api E ms s))) e +
      parked_in (m_state (exec_api E ms s)) e +
      count_list (map evt_of (losses sm_lost sm_handle ms (E, s))) e =
    count_list (map evt_of ms) e"
  using rr.conserve_all [of "(E, s)" e ms] assms
  by (simp add: exec_api_fold sm_results_def sm_parked_def parked_in_def)

theorem batch_is_answered_witness:
  "count_list (map request_api (m_apiResultList
     (exec_api calm [PREVIEW_ENABLED, TAKE_PICTURE, PREVIEW_ENABLED]
       (idle_in QCAMERA_SM_STATE_PREVIEW_STOPPED)))) QCAMERA_SM_EVT_PREVIEW_ENABLED \<le> 2"
  using batch_is_answered [OF calm_mem(1), of QCAMERA_SM_EVT_PREVIEW_ENABLED
      "idle_in QCAMERA_SM_STATE_PREVIEW_STOPPED" "[PREVIEW_ENABLED, TAKE_PICTURE, PREVIEW_ENABLED]"]
  by simp

text \<open>
  \<open>releaseThread\<close> lets the thread finish: from any queue of API commands the thread executes
  all of them in order, then takes the exit command and exits.
\<close>

theorem release_thread_exits:
  assumes "mem_ok E" and "balanced s" and "cmd_pid s"
    and "api_queue s = map QCAMERA_SM_CMD_TYPE_API ms"
    and "s1 = snd (run_state (releaseThread E) s)"
  shows "\<not> cmd_pid s1 \<and> smEvtProcRoutine E s1 = Some (True, pop_cmd (exec_api E ms s1))"
  using assms by (rule releaseThread_exits)

theorem release_thread_exits_witness:
  "\<exists>s'. smEvtProcRoutine calm (snd (run_state (releaseThread calm) recording_cam)) = Some (True, s')"
  using release_thread_exits [OF calm_mem(1), of recording_cam "[TAKE_PICTURE]"]
  by (simp add: recording_cam_def balanced_def)

section \<open>Single calls\<close>

text \<open>
  A refused request returns \<open>INVALID_OPERATION\<close> and has no other effect: apart from the result in
  the list and the allocation it takes, the state of the camera is the one before.
\<close>

theorem refused_request_has_no_effect:
  assumes "mem_ok E" and "refuses (m_state s) msg"
  shows "run_state (stateMachine E msg) s = (INVALID_OPERATION, s\<lparr>trace := X_malloc # trace s,
     m_apiResultList := m_apiResultList s @
       [\<lparr>status = INVALID_OPERATION, request_api = evt_of msg, result_value = RESULT_TYPE_DEF\<rparr>]\<rparr>)"
  using assms by (rule run_refused)

theorem refused_request_has_no_effect_witness:
  "fst (run_state (stateMachine calm RELEASE) (idle_in QCAMERA_SM_STATE_RECORDING)) =
     INVALID_OPERATION"
  by (subst refused_request_has_no_effect [OF calm_mem(1)]) (simp_all add: refuses_def)

text \<open>
  The preparation of a snapshot is answered by the event that reports it done: with that event
  next in the queue, a \<open>PREPARE_SNAPSHOT\<close> that the hardware accepts returns \<open>NO_ERROR\<close>, and the
  camera is previewing again.
\<close>

theorem prepare_snapshot_answered:
  assumes "mem_ok E" and "ready s" and "m_state s = QCAMERA_SM_STATE_PREVIEWING"
    and "e_rc E (trace (posted s)) (X_cam O_prepare_snapshot) = NO_ERROR"
    and "evt_queue s = QCAMERA_SM_CMD_TYPE_EVT
      (EVT_INTERNAL (QCAMERA_INTERNAL_EVT_PREP_SNAPSHOT_DONE p)) # q"
  shows "call_status E PREPARE_SNAPSHOT s = Some (NO_ERROR, s\<lparr>
      trace := X_malloc # X_cam O_prepare_snapshot # trace (posted s),
      evt_queue := q, cmd_sem := cmd_sem s - 1\<rparr>)"
  using assms by (rule prepare_snapshot_round)

definition preparing_cam :: hal where
  "preparing_cam = (idle_in QCAMERA_SM_STATE_PREVIEWING)\<lparr>evt_queue := [QCAMERA_SM_CMD_TYPE_EVT
     (EVT_INTERNAL (QCAMERA_INTERNAL_EVT_PREP_SNAPSHOT_DONE DO_NOT_NEED_FUTURE_FRAME))],
     cmd_sem := 1\<rparr>"

theorem prepare_snapshot_answered_witness:
  "\<exists>s'. call_status calm PREPARE_SNAPSHOT preparing_cam = Some (NO_ERROR, s') \<and>
     m_state s' = QCAMERA_SM_STATE_PREVIEWING"
  using prepare_snapshot_answered [OF calm_mem(1), of preparing_cam DO_NOT_NEED_FUTURE_FRAME "[]"]
  by (simp add: preparing_cam_def ready_def balanced_def calm_def calm_rc_def)

text \<open>
  A face registered while a snapshot is being prepared blocks its caller for good: the request
  is dropped without a result, and no event that may still be queued produces one.
\<close>

theorem register_face_blocks:
  assumes "mem_ok E" and "ready s" and "queues_ok s"
    and "m_state s = QCAMERA_SM_STATE_PREPARE_SNAPSHOT"
  shows "register_face_image E True img_ptr config s = None"
  using assms by (rule register_face_hangs)

theorem register_face_blocks_witness:
  "register_face_image calm True (Some 1) (Some 2) (idle_in QCAMERA_SM_STATE_PREPARE_SNAPSHOT) = None"
  by (rule register_face_blocks [OF calm_mem(1)]) simp_all


text \<open>
  A result left over from an event that was posted without waiting (as
  \<open>checkIntPicPending\<close> and \<open>takeLiveSnapshot_internal\<close> do) is returned to the next caller of that
  event in place of the result of his own call, which is left over in turn.
\<close>

theorem stale_result_is_returned:
  assumes "mem_ok E" and "serving s" and "run_state (stateMachine E msg) (posted s) = (rc, s1)"
    and "m_apiResultList s = r # rs" and "request_api r = evt_of msg"
  shows "\<exists>new. call_status E msg s = Some (status r, s1\<lparr>m_apiResultList := rs @ new\<rparr>) \<and>
    map (\<lambda>r. (request_api r, status r)) new = answers (m_state s) msg rc"
  unfolding call_status_def using assms by (rule call_stale)

definition stale_cam :: hal where
  "stale_cam = (idle_in QCAMERA_SM_STATE_RECORDING)\<lparr>m_apiResultList :=
     [\<lparr>status = NO_INIT, request_api = QCAMERA_SM_EVT_CANCEL_PICTURE, result_value = RESULT_TYPE_DEF\<rparr>]\<rparr>"

theorem stale_result_is_returned_witness:
  "fst (the (call_status calm CANCEL_PICTURE stale_cam)) = NO_INIT"
proof -
  have refused: "refuses (m_state (posted stale_cam)) CANCEL_PICTURE"
    by (simp add: refuses_def stale_cam_def)
  have "serving stale_cam" by (simp add: stale_cam_def serving_def balanced_def)
  moreover have "m_apiResultList stale_cam = [\<lparr>status = NO_INIT,
      request_api = QCAMERA_SM_EVT_CANCEL_PICTURE, result_value = RESULT_TYPE_DEF\<rparr>]"
    by (simp add: stale_cam_def)
  ultimately show ?thesis
    using stale_result_is_returned [OF calm_mem(1) _ run_refused [OF calm_mem(1) refused]] by force
qed

text \<open>
  When the backend gives no channels, \<open>START_RECORDING\<close> without the recording hint fails, and
  leaves the machine in the state of a running preview although the preview has been stopped and
  none of its channels is left.
\<close>

theorem failed_recording_leaves_previewing:
  assumes "mem_ok E" and "no_backend E" and "\<not> recordingHint (mParameters s)"
    and "m_state s = QCAMERA_SM_STATE_PREVIEWING"
  shows "wp (stateMachine E START_RECORDING) (\<lambda>rc s'. rc \<noteq> NO_ERROR \<and>
     m_state s' = QCAMERA_SM_STATE_PREVIEWING \<and> no_preview s') s"
  using assms by (rule start_recording_fails)

theorem failed_recording_leaves_previewing_witness:
  "wp (stateMachine dark START_RECORDING) (\<lambda>rc s'. rc \<noteq> NO_ERROR \<and>
     m_state s' = QCAMERA_SM_STATE_PREVIEWING \<and> no_preview s') (idle_in QCAMERA_SM_STATE_PREVIEWING)"
  by (rule failed_recording_leaves_previewing [OF calm_mem(2) dark_backend]) simp_all

text \<open>
  In every state with a preview but the preparation of a snapshot, \<open>STOP_PREVIEW\<close> ends with the
  preview stopped and with none of its four channels in the table, also when stopping a stream fails.
\<close>

theorem stop_preview_takes_down:
  assumes "stops_preview (m_state s)"
  shows "wp (stateMachine E STOP_PREVIEW) down s"
  using assms by (rule stop_preview_down)

theorem stop_preview_takes_down_witness:
  "wp (stateMachine calm STOP_PREVIEW) down recording_cam"
  by (rule stop_preview_takes_down) (simp add: recording_cam_def stops_preview_def)

text \<open>
  \<open>release\<close> succeeds and leaves no channel of any type in the table.
\<close>

theorem release_empties_table:
  "wp (release E) (\<lambda>rc s'. rc = NO_ERROR \<and> (\<forall>t. m_channels s' t = None)) s"
  by (rule release_law)

text \<open>
  \<open>preview_enabled\<close> on a ready camera reports the preview in every state in which the state
  machine says it is running (\<open>isPreviewRunning\<close>), except while recording and while a snapshot is
  prepared, and changes nothing.
\<close>

theorem preview_enabled_value:
  assumes "mem_ok E" and "ready s"
  shows "preview_enabled E True s =
    Some (of_bool (preview_flag (m_state s)), s\<lparr>trace := X_malloc # trace (posted s)\<rparr>)"
  using assms by (rule preview_enabled_flag)

theorem preview_enabled_value_witness:
  "fst (the (preview_enabled calm True (idle_in QCAMERA_SM_STATE_RECORDING))) = 0 \<and>
   isPreviewRunning_st QCAMERA_SM_STATE_RECORDING"
  using preview_enabled_value [OF calm_mem(1), of "idle_in QCAMERA_SM_STATE_RECORDING"]
  by (simp add: preview_flag_def)

text \<open>
  \<open>recording_enabled\<close> on a ready camera is 1 exactly in the two recording states, and the query
  changes nothing.
\<close>

theorem recording_enabled_value:
  assumes "mem_ok E" and "ready s"
  shows "recording_enabled E True s =
    Some (of_bool (recording_flag (m_state s)), s\<lparr>trace := X_malloc # trace (posted s)\<rparr>)"
  using assms by (rule recording_enabled_flag)

theorem recording_enabled_value_witness:
  "fst (the (recording_enabled calm True (idle_in QCAMERA_SM_STATE_VIDEO_PIC_TAKING))) = 1"
  using recording_enabled_value [OF calm_mem(1), of "idle_in QCAMERA_SM_STATE_VIDEO_PIC_TAKING"]
  by (simp add: recording_flag_def)

text \<open>
  A synchronous \<open>SNAPSHOT_DONE\<close> on a camera with nothing queued returns the code of its handler.
\<close>

theorem sync_event_returns_handler_code:
  assumes "mem_ok E" and "serving s" and "evt_queue s = []"
    and "run_state (stateMachine E SNAPSHOT_DONE) ((posted s)\<lparr>m_evtResult := None\<rparr>) = (rc, s1)"
  shows "processSyncEvt E SNAPSHOT_DONE s = Some (rc, s1)"
  using assms by (rule sync_answered)

theorem sync_event_returns_handler_code_witness:
  "fst (the (processSyncEvt calm SNAPSHOT_DONE (idle_in QCAMERA_SM_STATE_PREVIEWING))) = NO_ERROR"
proof -
  let ?s = "(posted (idle_in QCAMERA_SM_STATE_PREVIEWING))\<lparr>m_evtResult := None\<rparr>"
  have "run_state (stateMachine calm SNAPSHOT_DONE) ?s = (NO_ERROR, ?s\<lparr>m_evtResult := Some
      \<lparr>status = NO_ERROR, request_api = QCAMERA_SM_EVT_SNAPSHOT_DONE, result_value = RESULT_TYPE_DEF\<rparr>\<rparr>)"
    by (simp add: run_stateMachine handler_defs answer_evt_def signalEvtResult_def)
  from sync_event_returns_handler_code [OF calm_mem(1) _ _ this] show ?thesis by simp
qed

text \<open>
  Once the state machine's thread is no longer active every call returns \<open>DEAD_OBJECT\<close> at once
  and changes nothing.
\<close>

theorem dead_camera_refuses_calls:
  assumes "\<not> m_smThreadActive s"
  shows "call_status E msg s = Some (DEAD_OBJECT, s)"
  unfolding call_status_def using assms by (rule call_dead)

theorem dead_camera_refuses_calls_witness:
  "call_status calm START_PREVIEW (idle\<lparr>m_smThreadActive := False\<rparr>) =
     Some (DEAD_OBJECT, idle\<lparr>m_smThreadActive := False\<rparr>)"
  by (rule dead_camera_refuses_calls) (simp add: idle_def)

section \<open>Channels\<close>

text \<open>
  \<open>addChannel\<close> either succeeds and puts a freshly built, inactive channel with the streams of
  its type into the table, in place of the channels it deletes first, or fails and leaves the table
  with those deleted and every other entry untouched.
\<close>

theorem add_channel_all_or_nothing:
  "wp (addChannel E t) (added (mLongshotEnabled s) t (table_before t (m_channels s))) s"
  by (rule addChannel_law)

text \<open>
  Stopping a channel that another channel's stream was linked into gives it back with its own
  streams only, and inactive.
\<close>

theorem stop_unlinks_stream:
  assumes "\<forall>st \<in> set own. s_channel st = m_handle ch" and "s_channel x \<noteq> m_handle ch"
    and "mStreams ch = own @ [x]" and "own \<noteq> []"
  shows "wp (channel_stop E t ch) (\<lambda>(rc, ch') s'. mStreams ch' = own \<and> \<not> m_bIsActive ch') s"
  using assms by (rule channel_stop_unlinks)

definition video_stream :: cam_stream where
  "video_stream = \<lparr>s_type = CAM_STREAM_TYPE_VIDEO, s_channel = 1, s_deffered = False\<rparr>"

definition linked_stream :: cam_stream where
  "linked_stream = \<lparr>s_type = CAM_STREAM_TYPE_METADATA, s_channel = 2, s_deffered = False\<rparr>"

theorem stop_unlinks_stream_witness:
  "wp (channel_stop calm QCAMERA_CH_TYPE_VIDEO
      \<lparr>m_handle = 1, m_bIsActive = True, mStreams = [video_stream, linked_stream]\<rparr>)
    (\<lambda>(rc, ch') s'. mStreams ch' = [video_stream] \<and> \<not> m_bIsActive ch') idle"
  by (rule stop_unlinks_stream) (simp_all add: video_stream_def linked_stream_def)

text \<open>
  A linked stream that is the first stream of its channel is not taken out: the channel keeps a
  stream of another channel after it has been stopped.
\<close>

theorem stop_keeps_first_linked_stream:
  assumes "mStreams ch = [x]" and "s_channel x \<noteq> m_handle ch"
  shows "wp (channel_stop E t ch) (\<lambda>(rc, ch') s'. mStreams ch' = [x]) s"
  using assms by (rule channel_stop_keeps_first)

theorem stop_keeps_first_linked_stream_witness:
  "wp (channel_stop calm QCAMERA_CH_TYPE_VIDEO
      \<lparr>m_handle = 1, m_bIsActive = True, mStreams = [linked_stream]\<rparr>)
    (\<lambda>(rc, ch') s'. mStreams ch' = [linked_stream]) idle"
  by (rule stop_keeps_first_linked_stream) (simp_all add: linked_stream_def)


section \<open>The command queue\<close>

text \<open>
  \<open>enqueue\<close> on the linked list appends the command to the sequence the queue stands for and
  keeps the list well formed, for a node that is not in the queue yet.
\<close>

theorem enqueue_appends:
  assumes "wf_q q" and "fresh_in a q"
  shows "\<exists>q'. enqueue (Some a) d q = (True, q') \<and> wf_q q' \<and> q_list q' = q_list q @ [d]"
  using assms by (rule cq.enq_Some)

lemma empty_queue: "wf_q (queue_init 0)" "q_list (queue_init 0) = []" "fresh_in 1 (queue_init 0)"
  by (simp_all only: queue_init_wf)
    (simp add: fresh_in_def q_nodes_def queue_init_def cam_list_init_def)

theorem enqueue_appends_witness:
  "q_list (snd (enqueue (Some 1) (Some True) (queue_init 0))) = [Some True]"
  using enqueue_appends [OF empty_queue(1,3), of "Some True"] by (auto simp: empty_queue)

text \<open>\<open>enqueueWithPriority\<close> puts the command in front of all others.\<close>

theorem enqueue_with_priority_prepends:
  assumes "wf_q q" and "fresh_in a q"
  shows "\<exists>q'. enqueueWithPriority (Some a) d q = (True, q') \<and> wf_q q' \<and> q_list q' = d # q_list q"
  using assms by (rule cq.prio_Some)

theorem enqueue_with_priority_prepends_witness:
  "q_list (snd (enqueueWithPriority (Some 1) (Some True) (queue_init 0))) = [Some True]"
  using enqueue_with_priority_prepends [OF empty_queue(1,3), of "Some True"] by (auto simp: empty_queue)

text \<open>
  \<open>dequeue\<close> takes the first command from the head and the last one from the tail, and the
  others stay in order.
\<close>

theorem dequeue_takes_ends:
  assumes "wf_q q" and "q_list q = d # ds @ [e]"
  shows "(\<exists>q'. dequeue True q = (d, q') \<and> wf_q q' \<and> q_list q' = ds @ [e]) \<and>
    (\<exists>q'. dequeue False q = (e, q') \<and> wf_q q' \<and> q_list q' = d # ds)"
  using cq.deq_head [OF assms(1), of d "ds @ [e]"] cq.deq_tail [OF assms(1), of "d # ds" e] assms(2)
  by simp

definition two_queue :: "bool cam_q" where
  "two_queue = snd (enqueue (Some 2) (Some False) (snd (enqueue (Some 1) (Some True) (queue_init 0))))"

lemma two_queue_wf: "wf_q two_queue" "q_list two_queue = [Some True, Some False]"
  by (simp_all add: two_queue_def wf_q_def ring_def q_list_def q_nodes_def enqueue_def
      cam_list_add_tail_node_def queue_init_def cam_list_init_def Let_def eval_nat_numeral)

theorem dequeue_takes_ends_witness:
  "fst (dequeue True two_queue) = Some True \<and> fst (dequeue False two_queue) = Some False"
  using dequeue_takes_ends [of two_queue "Some True" "[]" "Some False"] two_queue_wf by auto

text \<open>
  C40: the commands come out in the order they went in: a queue from which as many commands are
  taken as it holds after an \<open>enqueue\<close> gives what it held, then the new command, and is empty.
\<close>

theorem queue_is_fifo:
  assumes "wf_q q" and "fresh_in a q"
  shows "\<exists>q1 q2. enqueue (Some a) d q = (True, q1) \<and>
    drain dequeue (Suc (length (q_list q))) q1 = (q_list q @ [d], q2) \<and> q_list q2 = []"
  using assms by (rule cq.enq_drain)

theorem queue_is_fifo_witness:
  "\<exists>q1 q2. enqueue (Some 3) (Some True) two_queue = (True, q1) \<and>
     drain dequeue 3 q1 = ([Some True, Some False, Some True], q2)"
proof -
  have "fresh_in 3 two_queue"
    by (simp add: fresh_in_def two_queue_def q_nodes_def enqueue_def cam_list_add_tail_node_def
        queue_init_def cam_list_init_def Let_def eval_nat_numeral)
  from queue_is_fifo [OF two_queue_wf(1) this, of "Some True"] show ?thesis
    by (auto simp: two_queue_wf numeral_3_eq_3)
qed

text \<open>
  \<open>flushNodes\<close> returns, removes exactly the commands that match, in one pass over the list,
  keeps the others in order, and releases the data of each removed node that has any.
\<close>

theorem flush_nodes_filters:
  assumes "wf_q q"
  shows "\<exists>q'. flushNodes (Some f) q = Some q' \<and> wf_q q' \<and>
    q_list q' = filter (\<lambda>d. \<not> f d) (q_list q) \<and>
    q_freed q' = q_freed q @ filter (\<lambda>d. f d \<and> d \<noteq> None) (q_list q)"
  using assms by (rule flushNodes_refines)

theorem flush_nodes_filters_witness:
  "q_list (the (flushNodes (Some (\<lambda>d. d = Some True)) two_queue)) = [Some False]"
  using flush_nodes_filters [OF two_queue_wf(1), of "\<lambda>d. d = Some True"]
  by (auto simp: two_queue_wf)

text \<open>\<open>flush\<close> returns, empties the queue and releases the data of every node, in order.\<close>

theorem flush_empties:
  assumes "wf_q q"
  shows "\<exists>q'. queue_flush q = Some q' \<and> wf_q q' \<and> q_list q' = [] \<and>
    q_freed q' = q_freed q @ filter (\<lambda>d. d \<noteq> None) (q_list q)"
  using assms by (rule queue_flush_refines)

theorem flush_empties_witness: "q_list (the (queue_flush two_queue)) = []"
  using flush_empties [OF two_queue_wf(1)] by auto

section \<open>Command threads\<close>

text \<open>
  A command sent without priority is the last one the thread will take, and the semaphore
  counts it.
\<close>

theorem sent_command_is_last:
  assumes "wf_ct t" and "fresh_in a (cmd_queue t)"
  shows "\<exists>t'. sendCmd True (Some a) cmd False False t = (Some NO_ERROR, t') \<and> wf_ct t' \<and>
    cmds t' = cmds t @ [cmd] \<and> ct_pid t' = ct_pid t"
  using assms by (rule sendCmd_tail)

lemma init_fresh: "fresh_in 1 (cmd_queue (cmd_thread_init 0))"
  by (simp add: fresh_in_def cmd_thread_init_def q_nodes_def queue_init_def cam_list_init_def)

theorem sent_command_is_last_witness:
  "cmds (snd (sendCmd True (Some 1) CAMERA_CMD_TYPE_DO_NEXT_JOB False False (cmd_thread_init 0))) =
     [CAMERA_CMD_TYPE_DO_NEXT_JOB]"
  using sent_command_is_last [OF conjunct1 [OF init_wf] init_fresh, of CAMERA_CMD_TYPE_DO_NEXT_JOB]
  by (auto simp: init_wf)

text \<open>
  \<open>exit\<close> overtakes every queued command: the next command the thread takes is the exit command,
  and the commands it overtook are still in the queue.
\<close>

theorem exit_is_next:
  assumes "wf_ct t" and "fresh_in a (cmd_queue t)" and "ct_pid t"
  shows "\<exists>t1 t2. exit_thread True (Some a) t = (NO_ERROR, t1) \<and> \<not> ct_pid t1 \<and>
    take_cmd t1 = (CAMERA_CMD_TYPE_EXIT, t2) \<and> wf_ct t2 \<and> cmds t2 = cmds t"
  using assms by (rule exit_overtakes)

theorem exit_is_next_witness:
  "\<exists>t1 t2. exit_thread True (Some 1) (snd (launch (cmd_thread_init 0))) = (NO_ERROR, t1) \<and>
     take_cmd t1 = (CAMERA_CMD_TYPE_EXIT, t2)"
proof -
  have "wf_ct (snd (launch (cmd_thread_init 0)))" "fresh_in 1 (cmd_queue (snd (launch (cmd_thread_init 0))))"
    using init_wf [of 0] init_fresh by (simp_all add: launch_def wf_ct_def)
  from exit_is_next [OF this] show ?thesis by (auto simp: launch_def)
qed

text \<open>
  \<open>sendCmd\<close> reports success for a command it has lost: when the queue's node cannot be
  allocated the queue is unchanged, yet the semaphore is posted and counts one command too many.
\<close>

theorem lost_command_reported_sent:
  assumes "wf_ct t"
  shows "\<exists>t'. sendCmd True None cmd False priority t = (Some NO_ERROR, t') \<and>
    cmds t' = cmds t \<and> ct_sem t' = int (length (cmds t')) + 1 \<and> \<not> wf_ct t'"
  using assms by (rule sendCmd_loses)

theorem lost_command_reported_sent_witness:
  "fst (sendCmd True None CAMERA_CMD_TYPE_START_DATA_PROC False False (cmd_thread_init 0)) =
     Some NO_ERROR"
  using lost_command_reported_sent [OF conjunct1 [OF init_wf [of 0]],
      where cmd = CAMERA_CMD_TYPE_START_DATA_PROC and priority = False]
  by auto

section \<open>Notifications\<close>

lemma sint_zero: "sint (w :: 32 word) = 0 \<longleftrightarrow> w = 0"
  by (auto intro: signed_word_eqI)

text \<open>
  The mask of enabled messages. After a mask has been enabled a message type is reported
  disabled exactly when it was before and has no bit in the mask; after a mask has been disabled a
  message type is reported as its bits outside the mask were.
\<close>

theorem message_mask:
  "(fst (run_state (msgTypeEnabled n) (snd (run_state (enableMsgType m) s))) = 0 \<longleftrightarrow>
      fst (run_state (msgTypeEnabled n) s) = 0 \<and> and m n = 0) \<and>
   fst (run_state (msgTypeEnabled n) (snd (run_state (disableMsgType m) s))) =
      fst (run_state (msgTypeEnabled (and n (not m))) s)"
  by (simp add: msgTypeEnabled_def enableMsgType_def disableMsgType_def
      bit.conj_disj_distrib or_eq_0_iff sint_zero ac_simps)

text \<open>
  A live snapshot that cannot be started asks for its own cancellation: \<open>CANCEL_PICTURE\<close> is
  queued behind the other API commands, nobody waits for its result, and the thread returns the code
  of the error notification, not the error.
\<close>

theorem failed_live_snapshot_cancels:
  assumes "mem_ok E" and "m_smThreadActive s" and "run_state (live_snapshot_start E) s = (rc, s1)"
    and "rc \<noteq> NO_ERROR"
  shows "\<exists>s'. run_state (takeLiveSnapshot_internal E) s =
      (e_rc E (trace (posted s1)) (X_notify CAMERA_MSG_ERROR UNKNOWN_ERROR 0), s') \<and>
    api_queue s' = api_queue s1 @ [QCAMERA_SM_CMD_TYPE_API CANCEL_PICTURE] \<and>
    cmd_sem s' = cmd_sem s1 + 1 \<and> m_state s' = m_state s1"
  using assms by (rule live_snapshot_failed)

theorem failed_live_snapshot_cancels_witness:
  "\<exists>s'. run_state (takeLiveSnapshot_internal calm) (idle_in QCAMERA_SM_STATE_RECORDING) = (0, s') \<and>
     api_queue s' = [QCAMERA_SM_CMD_TYPE_API CANCEL_PICTURE]"
proof -
  let ?s = "idle_in QCAMERA_SM_STATE_RECORDING"
  have "run_state (live_snapshot_start calm) ?s = (NO_INIT, ?s)"
    by (simp add: live_snapshot_start_def has_channel_def idle_in_def idle_def idle_parms_def)
  from failed_live_snapshot_cancels [OF calm_mem(1) _ this] show ?thesis
    by (auto simp: calm_def calm_rc_def)
qed

text \<open>
  At the shutdown level no frame-skip pattern is computed, but in the frame-skip mode one is
  sent to the sensor all the same: the call to \<open>setFrameSkip\<close> gets the uninitialised variable.
\<close>

theorem shutdown_sends_uninitialised_pattern:
  assumes "mCameraOpened s" and "thermalMode (mParameters s) = QCAMERA_THERMAL_ADJUST_FRAMESKIP"
  shows "hd (trace (snd (run_state (updateThermalLevel E QCAMERA_THERMAL_SHUTDOWN) s))) =
    X_parm (P_setFrameSkip None)"
  using assms by (simp add: updateThermalLevel_def calcThermalLevel_def sendEvtNotify_def ext_def parm_def)

theorem shutdown_sends_uninitialised_pattern_witness:
  "hd (trace (snd (run_state (updateThermalLevel calm QCAMERA_THERMAL_SHUTDOWN)
     (idle\<lparr>mParameters := idle_parms\<lparr>thermalMode := QCAMERA_THERMAL_ADJUST_FRAMESKIP\<rparr>\<rparr>)))) =
   X_parm (P_setFrameSkip None)"
  by (rule shutdown_sends_uninitialised_pattern) (simp_all add: idle_def)

end
